(* ===== verification/Prelude.thy ===== *)
theory Prelude
  imports Main "HOL-Library.AList" "HOL-Library.Word"
begin

text \<open>
  What every component theory shares: results that carry an error as a value, Go maps that the
  code ranges over (association lists with distinct keys), and the contract "every operation
  keeps the invariant", stated once as a locale and interpreted by each stateful component on
  its own operations.
\<close>

section \<open>Lemma collections\<close>

named_theorems result_simps \<open>inversion of the error-passing combinators\<close>
named_theorems gomap_simps \<open>reading a Go map after it was written\<close>
named_theorems go_str \<open>evaluation of the string functions\<close>

section \<open>Errors as values\<close>

text \<open>A Go function \<open>func f(...) (T, error)\<close> is a function into \<open>'e + 'a\<close>.\<close>

definition bind_res :: "'e + 'a \<Rightarrow> ('a \<Rightarrow> 'e + 'b) \<Rightarrow> 'e + 'b" where
  "bind_res m f = (case m of Inl e \<Rightarrow> Inl e | Inr x \<Rightarrow> f x)"

definition guard_res :: "bool \<Rightarrow> 'e \<Rightarrow> 'e + unit" where
  "guard_res ok e = (if ok then Inr () else Inl e)"

lemma bind_res_simps [simp]:
  "bind_res (Inl e) f = Inl e"
  "bind_res (Inr x) f = f x"
  by (simp_all add: bind_res_def)

lemma bind_res_Inr_iff [result_simps]:
  "bind_res m f = Inr y \<longleftrightarrow> (\<exists>x. m = Inr x \<and> f x = Inr y)"
  by (cases m) auto

lemma guard_res_Inr_iff [result_simps]: "guard_res b e = Inr u \<longleftrightarrow> b"
  by (simp add: guard_res_def)

lemma guard_res_Inl_iff [result_simps]: "guard_res b e = Inl e' \<longleftrightarrow> \<not> b \<and> e' = e"
  by (auto simp: guard_res_def)

definition is_ok :: "'e + 'a \<Rightarrow> bool" where
  "is_ok r = (case r of Inl _ \<Rightarrow> False | Inr _ \<Rightarrow> True)"

lemma is_ok_simps [simp]: "is_ok (Inl e) = False" "is_ok (Inr x) = True"
  by (simp_all add: is_ok_def)

lemma is_ok_iff: "is_ok r \<longleftrightarrow> (\<exists>x. r = Inr x)"
  by (cases r) auto

section \<open>Go maps the code ranges over\<close>

text \<open>
  A Go map that is only looked up is a function into \<open>option\<close>. A Go map that the code also
  ranges over is an association list whose keys are distinct, written with the library's
  \<^const>\<open>AList.update\<close> and \<^const>\<open>AList.delete\<close>.
\<close>

type_synonym ('k, 'v) gomap = "('k \<times> 'v) list"

definition gomap_ok :: "('k, 'v) gomap \<Rightarrow> bool" where
  "gomap_ok m = distinct (map fst m)"

lemma gomap_ok_Nil [simp]: "gomap_ok []"
  by (simp add: gomap_ok_def)

lemma gomap_ok_update [simp]: "gomap_ok m \<Longrightarrow> gomap_ok (AList.update k v m)"
  by (simp add: gomap_ok_def distinct_update)

lemma gomap_ok_delete [simp]: "gomap_ok m \<Longrightarrow> gomap_ok (AList.delete k m)"
  by (simp add: gomap_ok_def distinct_delete)

lemma gomap_get_update [gomap_simps]: "map_of (AList.update k v m) = (map_of m)(k \<mapsto> v)"
  by (rule ext) (simp add: update_conv)

lemma gomap_get_delete [gomap_simps]: "map_of (AList.delete k m) = (map_of m)(k := None)"
  by (rule ext) (simp add: delete_conv)

lemma gomap_values: "gomap_ok m \<Longrightarrow> v \<in> snd ` set m \<longleftrightarrow> v \<in> ran (map_of m)"
  by (auto simp: gomap_ok_def ran_def image_iff) force+

lemma set_gomap_update_subset: "set (AList.update k v m) \<subseteq> insert (k, v) (set m)"
  by (induction m) auto

lemma set_gomap_delete: "set (AList.delete k m) = {p \<in> set m. fst p \<noteq> k}"
  by (induction m) auto

section \<open>Operations that keep an invariant\<close>

text \<open>
  The contract of a stateful component: a set of operations, each of which keeps the
  component's invariant. A client that runs any sequence of them, in any interleaving, keeps
  it too.
\<close>

locale invariant_component =
  fixes step :: "'s \<Rightarrow> 'op \<Rightarrow> 's"
    and inv :: "'s \<Rightarrow> bool"
  assumes step_keeps: "inv s \<Longrightarrow> inv (step s x)"
begin

lemma run_keeps: "inv s \<Longrightarrow> inv (foldl step s xs)"
  by (induction xs arbitrary: s) (auto intro: step_keeps)

end

text \<open>
  The same contract with a relation between the state before and after an operation, for
  what no operation ever undoes (a finished job stays finished, a counter only grows).
\<close>

locale monotone_component = invariant_component step inv
  for step :: "'s \<Rightarrow> 'op \<Rightarrow> 's" and inv :: "'s \<Rightarrow> bool" +
  fixes later :: "'s \<Rightarrow> 's \<Rightarrow> bool"
  assumes later_refl: "later s s"
    and later_trans: "later s t \<Longrightarrow> later t u \<Longrightarrow> later s u"
    and step_later: "inv s \<Longrightarrow> later s (step s x)"
begin

lemma run_later: "inv s \<Longrightarrow> later s (foldl step s xs)"
proof (induction xs arbitrary: s)
  case Nil
  show ?case by (simp add: later_refl)
next
  case (Cons x xs)
  have "later (step s x) (foldl step (step s x) xs)"
    using Cons.prems by (intro Cons.IH step_keeps)
  moreover have "later s (step s x)"
    using Cons.prems by (rule step_later)
  ultimately show ?case
    by (auto intro: later_trans)
qed

end

section \<open>Lists\<close>

lemma find_SomeD: "find P xs = Some x \<Longrightarrow> x \<in> set xs \<and> P x"
  by (auto simp: find_Some_iff)

lemma distinct_map_list_update_same:
  "i < length xs \<Longrightarrow> f y = f (xs ! i) \<Longrightarrow> map f (xs[i := y]) = map f xs"
  by (simp add: map_update list_update_same_conv)

lemma fold_invariant_keeps:
  "(\<And>x m. x \<in> set xs \<Longrightarrow> P m \<Longrightarrow> P (f x m)) \<Longrightarrow> P m \<Longrightarrow> P (fold f xs m)"
  by (induction xs arbitrary: m) auto

lemma foldl_invariant_keeps:
  "(\<And>x m. x \<in> set xs \<Longrightarrow> P m \<Longrightarrow> P (f m x)) \<Longrightarrow> P m \<Longrightarrow> P (foldl f m xs)"
  by (induction xs arbitrary: m) auto

text \<open>Keeping the first occurrence of each element, as a Go loop over a \<open>seen\<close> map does.\<close>

fun uniq_seen :: "'a set \<Rightarrow> 'a list \<Rightarrow> 'a list" where
  "uniq_seen seen [] = []"
| "uniq_seen seen (x # xs) =
     (if x \<in> seen then uniq_seen seen xs else x # uniq_seen (insert x seen) xs)"

lemma set_uniq_seen: "set (uniq_seen seen xs) = set xs - seen"
  by (induction xs arbitrary: seen) auto

lemma distinct_uniq_seen: "distinct (uniq_seen seen xs)"
  by (induction xs arbitrary: seen) (auto simp: set_uniq_seen)

lemma uniq_seen_id: "distinct xs \<Longrightarrow> set xs \<inter> seen = {} \<Longrightarrow> uniq_seen seen xs = xs"
  by (induction xs arbitrary: seen) auto

end
