(* ===== verification/GoStrings.thy ===== *)
theory GoStrings
  imports Prelude "HOL-Library.Sublist"
begin

text \<open>
  The functions of Go's \<open>strings\<close> and \<open>strconv\<close> packages that the program calls, on Go
  strings as lists of bytes (\<^typ>\<open>char\<close> is a byte).
\<close>

section \<open>Prefixes, suffixes, substrings\<close>

definition HasPrefix :: "string \<Rightarrow> string \<Rightarrow> bool" where
  "HasPrefix s p = (take (length p) s = p)"

definition HasSuffix :: "string \<Rightarrow> string \<Rightarrow> bool" where
  "HasSuffix s p = HasPrefix (rev s) (rev p)"

definition TrimPrefix :: "string \<Rightarrow> string \<Rightarrow> string" where
  "TrimPrefix s p = (if HasPrefix s p then drop (length p) s else s)"

definition TrimSuffix :: "string \<Rightarrow> string \<Rightarrow> string" where
  "TrimSuffix s p = (if HasSuffix s p then take (length s - length p) s else s)"

fun Contains :: "string \<Rightarrow> string \<Rightarrow> bool" where
  "Contains [] p = (p = [])"
| "Contains (c # s) p = (HasPrefix (c # s) p \<or> Contains s p)"

definition ContainsAnyChar :: "string \<Rightarrow> string \<Rightarrow> bool" where
  "ContainsAnyChar s chars = list_ex (\<lambda>c. c \<in> set chars) s"

lemma HasPrefix_iff: "HasPrefix s p \<longleftrightarrow> prefix p s"
  by (metis HasPrefix_def append_eq_conv_conj prefix_def take_is_prefix)

lemma HasSuffix_iff: "HasSuffix s p \<longleftrightarrow> suffix p s"
  by (simp add: HasSuffix_def HasPrefix_iff suffix_to_prefix)

lemma HasPrefix_Nil [simp, go_str]: "HasPrefix s []"
  by (simp add: HasPrefix_def)

lemma HasPrefix_append [simp]: "HasPrefix (p @ s) p"
  by (simp add: HasPrefix_iff)

lemma HasPrefixE: "HasPrefix s p \<Longrightarrow> (\<And>t. s = p @ t \<Longrightarrow> P) \<Longrightarrow> P"
  by (auto simp: HasPrefix_iff prefix_def)

lemma HasSuffixE: "HasSuffix s p \<Longrightarrow> (\<And>t. s = t @ p \<Longrightarrow> P) \<Longrightarrow> P"
  by (auto simp: HasSuffix_iff suffix_def)

lemma HasSuffix_append [simp]: "HasSuffix (s @ p) p"
  by (simp add: HasSuffix_iff suffix_def)

lemma TrimSuffix_append [simp]: "TrimSuffix (s @ p) p = s"
  by (simp add: TrimSuffix_def)

lemma Contains_iff: "Contains s p \<longleftrightarrow> (\<exists>a b. s = a @ p @ b)"
proof (induction s)
  case Nil
  show ?case by auto
next
  case (Cons c s)
  have "(\<exists>a b. c # s = a @ p @ b) \<longleftrightarrow> (\<exists>b. c # s = p @ b) \<or> (\<exists>a b. s = a @ p @ b)"
    by (metis append_Cons append_Nil list.exhaust_sel list.sel(3))
  then show ?case using Cons by (auto simp: HasPrefix_iff prefix_def)
qed

lemma Contains_single [simp]: "Contains s [c] \<longleftrightarrow> c \<in> set s"
  by (induction s) (auto simp: HasPrefix_def)

section \<open>White space\<close>

text \<open>
  The UTF-8 encodings of the code points for which \<open>unicode.IsSpace\<close> holds. None is a proper
  prefix of another and a multi-byte one starts with a lead byte, which no continuation byte
  equals, so looking for them byte by byte finds exactly the runes Go finds.
\<close>

definition space_runes :: "string list" where
  "space_runes =
     [[CHR 0x20], [CHR 0x0A], [CHR 0x09], [CHR 0x0D], [CHR 0x0B], [CHR 0x0C],
      [CHR 0xC2, CHR 0x85], [CHR 0xC2, CHR 0xA0],
      [CHR 0xE1, CHR 0x9A, CHR 0x80],
      [CHR 0xE2, CHR 0x80, CHR 0x80], [CHR 0xE2, CHR 0x80, CHR 0x81],
      [CHR 0xE2, CHR 0x80, CHR 0x82], [CHR 0xE2, CHR 0x80, CHR 0x83],
      [CHR 0xE2, CHR 0x80, CHR 0x84], [CHR 0xE2, CHR 0x80, CHR 0x85],
      [CHR 0xE2, CHR 0x80, CHR 0x86], [CHR 0xE2, CHR 0x80, CHR 0x87],
      [CHR 0xE2, CHR 0x80, CHR 0x88], [CHR 0xE2, CHR 0x80, CHR 0x89],
      [CHR 0xE2, CHR 0x80, CHR 0x8A], [CHR 0xE2, CHR 0x80, CHR 0xA8],
      [CHR 0xE2, CHR 0x80, CHR 0xA9], [CHR 0xE2, CHR 0x80, CHR 0xAF],
      [CHR 0xE2, CHR 0x81, CHR 0x9F], [CHR 0xE3, CHR 0x80, CHR 0x80]]"

definition space_len :: "string \<Rightarrow> nat" where
  "space_len s = (case find (HasPrefix s) space_runes of None \<Rightarrow> 0 | Some r \<Rightarrow> length r)"

definition space_len_end :: "string \<Rightarrow> nat" where
  "space_len_end s = (case find (HasSuffix s) space_runes of None \<Rightarrow> 0 | Some r \<Rightarrow> length r)"

function TrimLeftSpace :: "string \<Rightarrow> string" where
  "TrimLeftSpace s = (if s = [] \<or> space_len s = 0 then s else TrimLeftSpace (drop (space_len s) s))"
  by pat_completeness auto
termination by (relation "measure length") auto

function TrimRightSpace :: "string \<Rightarrow> string" where
  "TrimRightSpace s =
     (if s = [] \<or> space_len_end s = 0 then s
      else TrimRightSpace (take (length s - space_len_end s) s))"
  by pat_completeness auto
termination by (relation "measure length") auto

declare TrimLeftSpace.simps [simp del] TrimRightSpace.simps [simp del]

definition TrimSpace :: "string \<Rightarrow> string" where
  "TrimSpace s = TrimRightSpace (TrimLeftSpace s)"

lemma TrimLeftSpace_suffix: "suffix (TrimLeftSpace s) s"
proof (induction s rule: TrimLeftSpace.induct)
  case (1 s)
  show ?case
  proof (cases "s = [] \<or> space_len s = 0")
    case True
    then show ?thesis by (subst TrimLeftSpace.simps) simp
  next
    case False
    with 1 have "suffix (TrimLeftSpace (drop (space_len s) s)) (drop (space_len s) s)" by blast
    moreover have "suffix (drop (space_len s) s) s" by (rule suffix_drop)
    ultimately have "suffix (TrimLeftSpace (drop (space_len s) s)) s"
      using suffix_order.trans by blast
    with False show ?thesis by (subst TrimLeftSpace.simps) simp
  qed
qed

lemma TrimRightSpace_prefix: "prefix (TrimRightSpace s) s"
proof (induction s rule: TrimRightSpace.induct)
  case (1 s)
  show ?case
  proof (cases "s = [] \<or> space_len_end s = 0")
    case True
    then show ?thesis by (subst TrimRightSpace.simps) simp
  next
    case False
    let ?t = "take (length s - space_len_end s) s"
    from 1 False have "prefix (TrimRightSpace ?t) ?t" by blast
    moreover have "prefix ?t s" by (rule take_is_prefix)
    ultimately have "prefix (TrimRightSpace ?t) s"
      using prefix_order.trans by blast
    with False show ?thesis by (subst TrimRightSpace.simps) simp
  qed
qed

lemma TrimLeftSpace_done: "TrimLeftSpace s = [] \<or> space_len (TrimLeftSpace s) = 0"
proof (induction s rule: TrimLeftSpace.induct)
  case (1 s)
  then show ?case
    by (cases "s = [] \<or> space_len s = 0") (auto simp: TrimLeftSpace.simps [of s])
qed

lemma TrimRightSpace_done: "TrimRightSpace s = [] \<or> space_len_end (TrimRightSpace s) = 0"
proof (induction s rule: TrimRightSpace.induct)
  case (1 s)
  then show ?case
    by (cases "s = [] \<or> space_len_end s = 0") (auto simp: TrimRightSpace.simps [of s])
qed

lemma space_runes_nonempty: "r \<in> set space_runes \<Longrightarrow> r \<noteq> []"
  by (auto simp: space_runes_def)

lemma space_len_0_iff: "space_len s = 0 \<longleftrightarrow> (\<forall>r \<in> set space_runes. \<not> prefix r s)"
proof (cases "find (HasPrefix s) space_runes")
  case None
  then have "\<forall>r \<in> set space_runes. \<not> prefix r s" by (auto simp: find_None_iff HasPrefix_iff)
  with None show ?thesis by (simp add: space_len_def)
next
  case (Some r)
  from find_SomeD [OF Some] have "r \<in> set space_runes" "prefix r s" "r \<noteq> []"
    using space_runes_nonempty by (auto simp: HasPrefix_iff)
  with Some show ?thesis by (auto simp: space_len_def)
qed

lemma space_len_end_0_iff: "space_len_end s = 0 \<longleftrightarrow> (\<forall>r \<in> set space_runes. \<not> suffix r s)"
proof (cases "find (HasSuffix s) space_runes")
  case None
  then have "\<forall>r \<in> set space_runes. \<not> suffix r s" by (auto simp: find_None_iff HasSuffix_iff)
  with None show ?thesis by (simp add: space_len_end_def)
next
  case (Some r)
  from find_SomeD [OF Some] have "r \<in> set space_runes" "suffix r s" "r \<noteq> []"
    using space_runes_nonempty by (auto simp: HasSuffix_iff)
  with Some show ?thesis by (auto simp: space_len_end_def)
qed

lemma space_len_prefix: "space_len s = 0 \<Longrightarrow> prefix t s \<Longrightarrow> space_len t = 0"
  unfolding space_len_0_iff using prefix_order.trans by blast

lemma TrimSpace_id: "space_len s = 0 \<Longrightarrow> space_len_end s = 0 \<Longrightarrow> TrimSpace s = s"
  by (simp add: TrimSpace_def TrimLeftSpace.simps [of s] TrimRightSpace.simps [of s])

lemma TrimSpace_Nil [simp]: "TrimSpace [] = []"
  by (simp add: TrimSpace_def TrimLeftSpace.simps TrimRightSpace.simps)

lemma TrimSpace_ends:
  "TrimSpace s = [] \<or> space_len (TrimSpace s) = 0 \<and> space_len_end (TrimSpace s) = 0"
proof (cases "TrimSpace s = []")
  case False
  have "TrimLeftSpace s \<noteq> []"
    using False TrimRightSpace_prefix [of "[]"] by (auto simp: TrimSpace_def)
  then have "space_len (TrimLeftSpace s) = 0"
    using TrimLeftSpace_done by blast
  then have "space_len (TrimSpace s) = 0"
    unfolding TrimSpace_def using TrimRightSpace_prefix by (rule space_len_prefix)
  moreover have "space_len_end (TrimSpace s) = 0"
    using False TrimRightSpace_done unfolding TrimSpace_def by blast
  ultimately show ?thesis by simp
qed simp

lemma TrimSpace_idem [simp]: "TrimSpace (TrimSpace s) = TrimSpace s"
  using TrimSpace_ends [of s] TrimSpace_id by auto

lemma set_TrimSpace: "set (TrimSpace s) \<subseteq> set s"
  unfolding TrimSpace_def
  using TrimRightSpace_prefix [of "TrimLeftSpace s"] TrimLeftSpace_suffix [of s]
  by (meson set_mono_prefix set_mono_suffix subset_trans)

lemma TrimRightSpace_empty: "TrimRightSpace s = [] \<Longrightarrow> s = [] \<or> space_len s \<noteq> 0"
proof (induction s rule: TrimRightSpace.induct)
  case (1 s)
  show ?case
  proof (cases "s = [] \<or> space_len_end s = 0")
    case True
    then show ?thesis using "1.prems" by (subst (asm) TrimRightSpace.simps) auto
  next
    case False
    let ?t = "take (length s - space_len_end s) s"
    have "TrimRightSpace ?t = []" using "1.prems" False by (subst (asm) TrimRightSpace.simps) simp
    then consider "?t = []" | "space_len ?t \<noteq> 0" using "1.IH" False by blast
    then show ?thesis
    proof cases
      case 1
      then have "length s \<le> space_len_end s" using False by auto
      moreover obtain q where q: "q \<in> set space_runes" "suffix q s" "space_len_end s = length q"
        using False by (auto simp: space_len_end_def HasSuffix_iff dest!: find_SomeD split: option.splits)
      ultimately have "q = s" by (auto simp: suffix_def)
      then show ?thesis using q(1) by (auto simp: space_len_0_iff)
    next
      case 2
      moreover have "prefix ?t s" by (rule take_is_prefix)
      ultimately show ?thesis using space_len_prefix [of s ?t] by (cases "space_len s = 0") simp_all
    qed
  qed
qed

lemma TrimSpace_empty: "TrimSpace s = [] \<Longrightarrow> s = [] \<or> space_len s \<noteq> 0"
  using TrimRightSpace_empty [of s] by (auto simp: TrimSpace_def TrimLeftSpace.simps [of s])

text \<open>\<open>strings.Fields\<close>: the maximal runs without white space.\<close>

function fields_from :: "string \<Rightarrow> string \<Rightarrow> string list" where
  "fields_from acc s =
     (if s = [] then (if acc = [] then [] else [acc])
      else if space_len s > 0
        then (if acc = [] then [] else [acc]) @ fields_from [] (drop (space_len s) s)
      else fields_from (acc @ [hd s]) (tl s))"
  by pat_completeness auto
termination by (relation "measure (\<lambda>(acc, s). length s)") auto

declare fields_from.simps [simp del]

definition Fields :: "string \<Rightarrow> string list" where
  "Fields s = fields_from [] s"

section \<open>Splitting, joining, replacing\<close>

text \<open>\<open>strings.Split\<close> and \<open>strings.Cut\<close> with a separator of one byte, \<open>strings.Lines\<close>.\<close>

fun split_acc :: "char \<Rightarrow> string \<Rightarrow> string \<Rightarrow> string list" where
  "split_acc c acc [] = [acc]"
| "split_acc c acc (x # xs) =
     (if x = c then acc # split_acc c [] xs else split_acc c (acc @ [x]) xs)"

definition Split :: "string \<Rightarrow> char \<Rightarrow> string list" where
  "Split s c = split_acc c [] s"

fun Cut :: "string \<Rightarrow> char \<Rightarrow> (string \<times> string) option" where
  "Cut [] c = None"
| "Cut (x # xs) c =
     (if x = c then Some ([], xs) else map_option (\<lambda>(a, b). (x # a, b)) (Cut xs c))"

fun lines_acc :: "string \<Rightarrow> string \<Rightarrow> string list" where
  "lines_acc acc [] = (if acc = [] then [] else [acc])"
| "lines_acc acc (x # xs) =
     (if x = CHR 0x0A then (acc @ [x]) # lines_acc [] xs else lines_acc (acc @ [x]) xs)"

definition Lines :: "string \<Rightarrow> string list" where
  "Lines s = lines_acc [] s"

fun Join :: "string list \<Rightarrow> string \<Rightarrow> string" where
  "Join [] sep = []"
| "Join [x] sep = x"
| "Join (x # y # ys) sep = x @ sep @ Join (y # ys) sep"

definition ReplaceChar :: "string \<Rightarrow> char \<Rightarrow> string \<Rightarrow> string" where
  "ReplaceChar s c new = concat (map (\<lambda>x. if x = c then new else [x]) s)"

text \<open>\<open>strings.ReplaceAll(s, "\r\n", "\n")\<close> drops every carriage return before a line feed.\<close>

fun ReplaceCRLF :: "string \<Rightarrow> string" where
  "ReplaceCRLF [] = []"
| "ReplaceCRLF (c # s) =
     (if c = CHR 0x0D \<and> HasPrefix s [CHR 0x0A] then ReplaceCRLF s else c # ReplaceCRLF s)"

definition CountChar :: "string \<Rightarrow> char \<Rightarrow> nat" where
  "CountChar s c = length (filter (\<lambda>x. x = c) s)"

definition TrimChars :: "string \<Rightarrow> string \<Rightarrow> string" where
  "TrimChars s cutset =
     rev (dropWhile (\<lambda>c. c \<in> set cutset) (rev (dropWhile (\<lambda>c. c \<in> set cutset) s)))"

definition TrimRightChars :: "string \<Rightarrow> string \<Rightarrow> string" where
  "TrimRightChars s cutset = rev (dropWhile (\<lambda>c. c \<in> set cutset) (rev s))"

lemma split_acc_nonempty: "split_acc c acc s \<noteq> []"
  by (induction s arbitrary: acc) auto

lemma split_acc_Join: "Join (split_acc c acc s) [c] = acc @ s"
proof (induction s arbitrary: acc)
  case (Cons x xs)
  obtain y ys where y: "split_acc c [] xs = y # ys"
    using split_acc_nonempty [of c "[]" xs] by (cases "split_acc c [] xs") auto
  show ?case using Cons.IH [of "[]"] Cons.IH [of "acc @ [x]"] y by simp
qed simp

lemma Split_Join: "Join (Split s c) [c] = s"
  by (simp add: Split_def split_acc_Join)

lemma split_acc_noc: "c \<notin> set acc \<Longrightarrow> p \<in> set (split_acc c acc s) \<Longrightarrow> c \<notin> set p"
proof (induction s arbitrary: acc)
  case (Cons x xs)
  show ?case
    using Cons.prems Cons.IH [of "[]"] Cons.IH [of "acc @ [x]"] by (auto split: if_splits)
qed auto

lemma Split_noc: "p \<in> set (Split s c) \<Longrightarrow> c \<notin> set p"
  by (auto simp: Split_def dest: split_acc_noc [rotated])

lemma split_acc_append:
  "c \<notin> set p \<Longrightarrow> split_acc c acc (p @ c # s) = (acc @ p) # split_acc c [] s"
  by (induction p arbitrary: acc) auto

lemma split_acc_last: "c \<notin> set p \<Longrightarrow> split_acc c acc p = [acc @ p]"
  by (induction p arbitrary: acc) auto

lemma Split_Join_inverse:
  "ps \<noteq> [] \<Longrightarrow> (\<forall>p \<in> set ps. c \<notin> set p) \<Longrightarrow> Split (Join ps [c]) c = ps"
proof (induction ps "[c]" rule: Join.induct)
  case (3 x y ys)
  have "Split (Join (x # y # ys) [c]) c = x # split_acc c [] (Join (y # ys) [c])"
    using 3 by (simp add: Split_def split_acc_append)
  also have "split_acc c [] (Join (y # ys) [c]) = y # ys"
    using 3 by (simp add: Split_def)
  finally show ?case .
qed (auto simp: Split_def split_acc_last)

lemma Cut_Some_iff: "Cut s c = Some (a, b) \<longleftrightarrow> s = a @ c # b \<and> c \<notin> set a"
proof (induction s arbitrary: a)
  case (Cons x xs)
  show ?case
    by (cases a) (auto simp: Cons split: option.splits)
qed simp

lemma Cut_None_iff: "Cut s c = None \<longleftrightarrow> c \<notin> set s"
  by (induction s) auto

section \<open>Lower case\<close>

text \<open>
  \<open>strings.ToLower\<close> where the code compares its result with ASCII text: the ASCII capitals, and
  the only two other code points whose lower case is ASCII, U+212A (Kelvin sign) and U+0130
  (capital I with dot). Other non-ASCII bytes are left alone; Go may map them, but only to
  non-ASCII bytes.
\<close>

definition lower_byte :: "char \<Rightarrow> char" where
  "lower_byte c =
     (if 65 \<le> (of_char c :: nat) \<and> (of_char c :: nat) \<le> 90 then char_of (of_char c + 32 :: nat) else c)"

fun ToLower :: "string \<Rightarrow> string" where
  "ToLower [] = []"
| "ToLower (c # s) =
     (if HasPrefix (c # s) [CHR 0xE2, CHR 0x84, CHR 0xAA] then CHR ''k'' # ToLower (drop 2 s)
      else if HasPrefix (c # s) [CHR 0xC4, CHR 0xB0] then CHR ''i'' # ToLower (drop 1 s)
      else lower_byte c # ToLower s)"

section \<open>Numbers\<close>

datatype num_err = ErrSyntax | ErrRange

definition digit_val :: "char \<Rightarrow> nat option" where
  "digit_val c =
     (let n = of_char c :: nat
      in if 48 \<le> n \<and> n \<le> 57 then Some (n - 48)
         else if 97 \<le> n \<and> n \<le> 122 then Some (n - 87)
         else if 65 \<le> n \<and> n \<le> 90 then Some (n - 55) else None)"

text \<open>
  \<open>strconv.ParseUint\<close> stops at the first digit that is wrong (\<^const>\<open>ErrSyntax\<close>) or that takes
  the value out of range (\<^const>\<open>ErrRange\<close>), whichever comes first.
\<close>

fun parse_digits :: "nat \<Rightarrow> nat \<Rightarrow> string \<Rightarrow> num_err + nat" where
  "parse_digits base acc [] = Inr acc"
| "parse_digits base acc (c # cs) =
     (case digit_val c of
        None \<Rightarrow> Inl ErrSyntax
      | Some d \<Rightarrow>
          if d \<ge> base then Inl ErrSyntax
          else if acc * base + d \<ge> 2 ^ 64 then Inl ErrRange
          else parse_digits base (acc * base + d) cs)"

definition ParseUint :: "string \<Rightarrow> nat \<Rightarrow> num_err + nat" where
  "ParseUint s base = (if s = [] then Inl ErrSyntax else parse_digits base 0 s)"

definition ParseInt :: "string \<Rightarrow> nat \<Rightarrow> num_err + int" where
  "ParseInt s base =
     (let neg = HasPrefix s ''-'';
          body = (if HasPrefix s ''-'' \<or> HasPrefix s ''+'' then tl s else s)
      in if s = [] then Inl ErrSyntax
         else case ParseUint body base of
           Inl e \<Rightarrow> Inl e
         | Inr n \<Rightarrow>
             if \<not> neg \<and> n \<ge> 2 ^ 63 then Inl ErrRange
             else if neg \<and> n > 2 ^ 63 then Inl ErrRange
             else Inr (if neg then - int n else int n))"

definition digit_char :: "nat \<Rightarrow> char" where
  "digit_char d = char_of (48 + d)"

fun nat_digits :: "nat \<Rightarrow> string" where
  "nat_digits n =
     (if n < 10 then [digit_char n] else nat_digits (n div 10) @ [digit_char (n mod 10)])"

declare nat_digits.simps [simp del]

definition Itoa :: "int \<Rightarrow> string" where
  "Itoa i = (if i < 0 then CHR ''-'' # nat_digits (nat (- i)) else nat_digits (nat i))"

lemma of_char_digit_char: "d < 10 \<Longrightarrow> of_char (digit_char d) = (48 + d :: nat)"
  by (simp add: digit_char_def of_char_of)

lemma digit_val_digit_char: "d < 10 \<Longrightarrow> digit_val (digit_char d) = Some d"
  by (simp add: digit_val_def of_char_digit_char Let_def)

lemma nat_digits_nonempty [simp]: "nat_digits n \<noteq> []"
  by (subst nat_digits.simps) simp

lemma parse_digits_append:
  "parse_digits b acc (xs @ ys) = bind_res (parse_digits b acc xs) (\<lambda>m. parse_digits b m ys)"
  by (induction b acc xs rule: parse_digits.induct) (auto split: option.splits)

lemma parse_digits_nat_digits: "n < 2 ^ 64 \<Longrightarrow> parse_digits 10 0 (nat_digits n) = Inr n"
proof (induction n rule: nat_digits.induct)
  case (1 n)
  show ?case
  proof (cases "n < 10")
    case True
    then show ?thesis
      by (subst nat_digits.simps) (simp add: digit_val_digit_char)
  next
    case False
    then have IH: "parse_digits 10 0 (nat_digits (n div 10)) = Inr (n div 10)"
      using 1 by simp
    have "n div 10 * 10 + n mod 10 = n" by simp
    with False IH 1(2) show ?thesis
      by (subst nat_digits.simps) (simp add: parse_digits_append digit_val_digit_char)
  qed
qed

lemma ParseUint_nat_digits: "n < 2 ^ 64 \<Longrightarrow> ParseUint (nat_digits n) 10 = Inr n"
  by (simp add: ParseUint_def parse_digits_nat_digits)

lemma parse_digits_bound: "acc < 2 ^ 64 \<Longrightarrow> parse_digits b acc s = Inr n \<Longrightarrow> n < 2 ^ 64"
  by (induction b acc s rule: parse_digits.induct) (auto split: option.splits if_splits)

lemma ParseUint_bound: "ParseUint s b = Inr n \<Longrightarrow> n < 2 ^ 64"
  by (auto simp: ParseUint_def split: if_splits dest: parse_digits_bound [rotated])

lemma ParseInt_bounds:
  assumes "ParseInt s b = Inr i"
  shows "- (2 ^ 63) \<le> i \<and> i < 2 ^ 63"
proof -
  obtain n where "i = int n \<and> n < 2 ^ 63 \<or> i = - int n \<and> n \<le> 2 ^ 63"
    using assms by (auto simp: ParseInt_def Let_def not_less not_le split: if_splits sum.splits)
  then show ?thesis by (auto simp: nat_less_iff)
qed

lemma nat_digits_chars: "c \<in> set (nat_digits n) \<Longrightarrow> \<exists>d < 10. c = digit_char d"
proof (induction n rule: nat_digits.induct)
  case (1 n)
  show ?case
  proof (cases "n < 10")
    case True
    with 1 show ?thesis by (auto simp: nat_digits.simps [of n])
  next
    case False
    then have "c \<in> set (nat_digits (n div 10)) \<or> c = digit_char (n mod 10)"
      using 1(2) by (auto simp: nat_digits.simps [of n])
    then show ?thesis
      using 1(1) False by (metis mod_less_divisor zero_less_numeral)
  qed
qed

text \<open>A decimal number holds no sign but the one \<open>Itoa\<close> puts first, so \<open>ParseInt\<close> reads it back.\<close>

lemma digit_char_not_sign: "d < 10 \<Longrightarrow> digit_char d \<noteq> CHR ''-''" "d < 10 \<Longrightarrow> digit_char d \<noteq> CHR ''+''"
  using of_char_digit_char [of d] by auto

lemma nat_digits_sign: "\<not> HasPrefix (nat_digits n) ''-''" "\<not> HasPrefix (nat_digits n) ''+''"
proof -
  obtain c cs where n: "nat_digits n = c # cs" by (cases "nat_digits n") auto
  then obtain d where "d < 10" "c = digit_char d" using nat_digits_chars [of c n] by auto
  then show "\<not> HasPrefix (nat_digits n) ''-''" "\<not> HasPrefix (nat_digits n) ''+''"
    using n digit_char_not_sign by (auto simp: HasPrefix_def)
qed

lemma ParseInt_Itoa: "- (2 ^ 63) \<le> i \<Longrightarrow> i < 2 ^ 63 \<Longrightarrow> ParseInt (Itoa i) 10 = Inr i"
proof (cases "i < 0")
  case True
  assume "- (2 ^ 63) \<le> i" "i < 2 ^ 63"
  then have "ParseUint (nat_digits (nat (- i))) 10 = Inr (nat (- i))" "nat (- i) \<le> 2 ^ 63"
    by (auto intro!: ParseUint_nat_digits)
  with True show ?thesis by (simp add: ParseInt_def Itoa_def HasPrefix_def)
next
  case False
  assume "- (2 ^ 63) \<le> i" "i < 2 ^ 63"
  then have "ParseUint (nat_digits (nat i)) 10 = Inr (nat i)" "nat i < 2 ^ 63"
    using False by (auto intro!: ParseUint_nat_digits)
  with False show ?thesis by (simp add: ParseInt_def Itoa_def nat_digits_sign)
qed

lemma Itoa_noc: "c \<noteq> CHR ''-'' \<Longrightarrow> (\<And>d. d < 10 \<Longrightarrow> c \<noteq> digit_char d) \<Longrightarrow> c \<notin> set (Itoa i)"
  using nat_digits_chars by (auto simp: Itoa_def)

lemma digit_char_white: "d < 10 \<Longrightarrow> digit_char d \<noteq> CHR 0x09" "d < 10 \<Longrightarrow> digit_char d \<noteq> CHR 0x0A"
  "d < 10 \<Longrightarrow> digit_char d \<noteq> CHR 0x20"
  using of_char_digit_char [of d] by auto

end
