(* ===== verification/DomainTypes.thy ===== *)
theory DomainTypes
  imports GoStrings
begin

text \<open>
  Package \<open>internal/domain\<close>: the enumerations and structs the components exchange, the
  validation of a saved connection (\<open>validation.go\<close>) and the normal form of a command kept in
  the history (\<open>commands.go\<close>). A Go string enumeration is a datatype whose last constructor
  stands for any string that is none of the constants. Fields carry a short prefix because
  record fields share one name space. A pointer is an \<open>option\<close>. Go's \<open>int\<close> and \<open>int64\<close> are
  \<^typ>\<open>int\<close> where the code only compares and copies them.
\<close>

section \<open>Text\<close>

text \<open>A literal of the source with characters outside ASCII is its list of code points.\<close>

definition utf8_rune :: "nat \<Rightarrow> string" where
  "utf8_rune n =
     (if n < 128 then [char_of n]
      else if n < 2048 then [char_of (192 + n div 64), char_of (128 + n mod 64)]
      else if n < 65536 then
        [char_of (224 + n div 4096), char_of (128 + n div 64 mod 64), char_of (128 + n mod 64)]
      else [char_of (240 + n div 262144), char_of (128 + n div 4096 mod 64),
            char_of (128 + n div 64 mod 64), char_of (128 + n mod 64)])"

definition zh :: "nat list \<Rightarrow> string" where
  "zh ns = concat (map utf8_rune ns)"

lemma zh_Nil_iff [simp]: "zh ns = [] \<longleftrightarrow> ns = []"
  by (cases ns) (auto simp: zh_def utf8_rune_def)

section \<open>Enumerations\<close>

datatype ConnectionStatus =
    StatusOffline | StatusConnecting | StatusOnline | StatusReconnecting | StatusDisconnecting
  | StatusAuthFailed | StatusTimeout | StatusUnreachable | StatusRefused | StatusHostKeyMismatch
  | StatusKeyError | StatusDisconnected | StatusError | StatusOther string

datatype AuthType = AuthPassword | AuthPrivateKey | AuthOther string

datatype SecretUpdateMode =
  SecretUpdateUnchanged | SecretUpdateSet | SecretUpdateDelete | SecretUpdateOther string

datatype PrivateKeySource =
  PrivateKeySourceEmpty | PrivateKeySourceLocalFile | PrivateKeySourceKeyVault
  | PrivateKeySourceOther string

datatype ConnectionMode =
  ConnectionModeEmpty | ConnectionModeDirect | ConnectionModeJump | ConnectionModeOther string

datatype SFTPStatus =
  SFTPStatusOffline | SFTPStatusConnecting | SFTPStatusOnline | SFTPStatusError
  | SFTPStatusOther string

datatype SFTPTransferStatus =
    SFTPTransferQueued | SFTPTransferPlanning | SFTPTransferRunning | SFTPTransferPausing
  | SFTPTransferPaused | SFTPTransferResuming | SFTPTransferCompleted | SFTPTransferPartialFailed
  | SFTPTransferFailed | SFTPTransferCanceled | SFTPTransferSkipped

datatype SFTPTransferDirection = SFTPTransferUpload | SFTPTransferDownload

datatype SFTPConflictPolicy =
  SFTPConflictAsk | SFTPConflictOverwrite | SFTPConflictSkip | SFTPConflictRename
  | SFTPConflictOther string

section \<open>Structs\<close>

record Connection =
  conn_ID :: int
  conn_GroupID :: "int option"
  conn_SortOrder :: int
  conn_Name :: string
  conn_Host :: string
  conn_Port :: int
  conn_Username :: string
  conn_AuthType :: AuthType
  conn_PrivateKeySource :: PrivateKeySource
  conn_PrivateKeyPath :: string
  conn_KeyVaultID :: "int option"
  conn_TerminalProfileID :: "string option"
  conn_ConnectionMode :: ConnectionMode
  conn_JumpServerID :: "int option"
  conn_HostKeyFingerprint :: string
  conn_CredentialSaved :: bool
  conn_PasswordCredentialSaved :: bool
  conn_RefreshInterval :: int

record SaveConnectionRequest =
  save_ID :: int
  save_GroupID :: "int option"
  save_Name :: string
  save_Host :: string
  save_Port :: int
  save_Username :: string
  save_AuthType :: AuthType
  save_PrivateKeySource :: PrivateKeySource
  save_PrivateKeyPath :: string
  save_KeyVaultID :: "int option"
  save_TerminalProfileID :: "string option"
  save_ConnectionMode :: ConnectionMode
  save_JumpServerID :: "int option"
  save_RefreshInterval :: int

record ConnectionError =
  ce_Code :: string
  ce_UserMessage :: string
  ce_TechnicalMessage :: string
  ce_Retryable :: bool
  ce_ServerID :: int
  ce_Operation :: string
  ce_Timestamp :: string
  ce_Stage :: string
  ce_CredentialServerID :: int
  ce_CredentialServerName :: string
  ce_CredentialFromStore :: bool
  ce_ExpectedFingerprint :: string
  ce_ObservedFingerprint :: string

record ConnectionRuntimeState =
  rs_ConnectionID :: int
  rs_Status :: ConnectionStatus
  rs_MonitorActive :: bool
  rs_TerminalActive :: bool
  rs_TerminalConnecting :: bool
  rs_SFTPActive :: bool
  rs_Connecting :: bool
  rs_HasActiveSession :: bool
  rs_LastError :: "ConnectionError option"
  rs_UpdatedAt :: string

section \<open>Validation of a saved connection\<close>

text \<open>\<open>JoinHostPort\<close> is \<open>net.JoinHostPort\<close>.\<close>

definition JoinHostPort :: "string \<Rightarrow> string \<Rightarrow> string" where
  "JoinHostPort host port =
     (if CHR '':'' \<in> set host then ''['' @ host @ '']:'' @ port else host @ '':'' @ port)"

definition NormalizeServerDisplayName :: "string \<Rightarrow> string \<Rightarrow> int \<Rightarrow> string + string" where
  "NormalizeServerDisplayName name host port =
     (if TrimSpace host = [] then Inl ''host is required''
      else if port < 1 \<or> port > 65535 then Inl ''port must be between 1 and 65535''
      else if TrimSpace name \<noteq> [] then Inr (TrimSpace name)
      else Inr (JoinHostPort (TrimSpace host) (Itoa port)))"

definition validate_route :: "SaveConnectionRequest \<Rightarrow> string option" where
  "validate_route r =
     (case (if save_ConnectionMode r = ConnectionModeEmpty then ConnectionModeDirect
            else save_ConnectionMode r) of
        ConnectionModeDirect \<Rightarrow> None
      | ConnectionModeJump \<Rightarrow>
          (case save_JumpServerID r of
             None \<Rightarrow> Some (zh [35831, 36873, 25321, 36339, 26495, 26426])
           | Some j \<Rightarrow>
               if j \<le> 0 then Some (zh [35831, 36873, 25321, 36339, 26495, 26426])
               else if save_ID r > 0 \<and> j = save_ID r
                 then Some (zh [30446, 26631, 26381, 21153, 22120, 19981, 33021, 36873, 25321, 33258, 24049, 20316, 20026, 36339, 26495, 26426])
               else None)
      | _ \<Rightarrow> Some (zh [36830, 25509, 36335, 24452, 26080, 25928]))"

definition validate_private_key :: "SaveConnectionRequest \<Rightarrow> string option" where
  "validate_private_key r =
     (case (if save_PrivateKeySource r = PrivateKeySourceEmpty then PrivateKeySourceLocalFile
            else save_PrivateKeySource r) of
        PrivateKeySourceLocalFile \<Rightarrow>
          if TrimSpace (save_PrivateKeyPath r) = [] then Some ''private key path is required''
          else None
      | PrivateKeySourceKeyVault \<Rightarrow>
          (case save_KeyVaultID r of
             None \<Rightarrow> Some ''key vault entry is required''
           | Some k \<Rightarrow> if k \<le> 0 then Some ''key vault entry is required'' else None)
      | _ \<Rightarrow> Some ''unsupported private key source'')"

definition ValidateConnection :: "SaveConnectionRequest \<Rightarrow> string option" where
  "ValidateConnection r =
     (case NormalizeServerDisplayName (save_Name r) (save_Host r) (save_Port r) of
        Inl e \<Rightarrow> Some e
      | Inr _ \<Rightarrow>
          if TrimSpace (save_Username r) = [] then Some ''username is required''
          else if save_AuthType r \<noteq> AuthPassword \<and> save_AuthType r \<noteq> AuthPrivateKey
            then Some ''unsupported authentication type''
          else case validate_route r of
            Some e \<Rightarrow> Some e
          | None \<Rightarrow>
              (case (if save_AuthType r = AuthPrivateKey then validate_private_key r else None) of
                 Some e \<Rightarrow> Some e
               | None \<Rightarrow>
                   if save_RefreshInterval r \<noteq> 1 \<and> save_RefreshInterval r \<noteq> 2
                      \<and> save_RefreshInterval r \<noteq> 5
                   then Some ''refresh interval must be 1, 2, or 5 seconds'' else None))"

lemma JoinHostPort_nonempty [simp]: "JoinHostPort h p \<noteq> []"
  by (simp add: JoinHostPort_def)

lemma NormalizeServerDisplayName_Inr_iff [result_simps]:
  "NormalizeServerDisplayName name host port = Inr n \<longleftrightarrow>
     TrimSpace host \<noteq> [] \<and> 1 \<le> port \<and> port \<le> 65535 \<and>
     n = (if TrimSpace name \<noteq> [] then TrimSpace name
          else JoinHostPort (TrimSpace host) (Itoa port))"
  by (auto simp: NormalizeServerDisplayName_def)

lemma NormalizeServerDisplayName_nonempty:
  "NormalizeServerDisplayName name host port = Inr n \<Longrightarrow> n \<noteq> []"
  by (auto simp: result_simps)

lemma NormalizeServerDisplayName_Inl_iff:
  "(\<exists>e. NormalizeServerDisplayName name host port = Inl e) \<longleftrightarrow>
     TrimSpace host = [] \<or> port < 1 \<or> port > 65535"
  by (auto simp: NormalizeServerDisplayName_def)

lemma validate_route_None_iff:
  "validate_route r = None \<longleftrightarrow>
     save_ConnectionMode r \<in> {ConnectionModeEmpty, ConnectionModeDirect} \<or>
     save_ConnectionMode r = ConnectionModeJump \<and>
       (\<exists>j. save_JumpServerID r = Some j \<and> j > 0 \<and> (save_ID r > 0 \<longrightarrow> j \<noteq> save_ID r))"
  by (cases "save_ConnectionMode r")
    (auto simp: validate_route_def not_le split: option.splits if_splits)

lemma validate_private_key_None_iff:
  "validate_private_key r = None \<longleftrightarrow>
     save_PrivateKeySource r \<in> {PrivateKeySourceEmpty, PrivateKeySourceLocalFile} \<and>
       TrimSpace (save_PrivateKeyPath r) \<noteq> [] \<or>
     save_PrivateKeySource r = PrivateKeySourceKeyVault \<and>
       (\<exists>k. save_KeyVaultID r = Some k \<and> k > 0)"
  by (cases "save_PrivateKeySource r")
    (auto simp: validate_private_key_def not_le split: option.splits if_splits)

text \<open>What an accepted request satisfies, condition by condition.\<close>

definition valid_request :: "SaveConnectionRequest \<Rightarrow> bool" where
  "valid_request r \<longleftrightarrow>
     TrimSpace (save_Host r) \<noteq> [] \<and> 1 \<le> save_Port r \<and> save_Port r \<le> 65535 \<and>
     TrimSpace (save_Username r) \<noteq> [] \<and>
     (save_AuthType r = AuthPassword \<or>
      save_AuthType r = AuthPrivateKey \<and> validate_private_key r = None) \<and>
     validate_route r = None \<and> save_RefreshInterval r \<in> {1, 2, 5}"

lemma ValidateConnection_None_iff: "ValidateConnection r = None \<longleftrightarrow> valid_request r"
proof -
  have "(\<exists>n. NormalizeServerDisplayName (save_Name r) (save_Host r) (save_Port r) = Inr n) \<longleftrightarrow>
      TrimSpace (save_Host r) \<noteq> [] \<and> 1 \<le> save_Port r \<and> save_Port r \<le> 65535"
    by (auto simp: result_simps)
  then show ?thesis
    by (cases "NormalizeServerDisplayName (save_Name r) (save_Host r) (save_Port r)")
      (auto simp: ValidateConnection_def valid_request_def split: option.splits if_splits)
qed

section \<open>Commands kept in the history\<close>

definition NormalizeHistoryCommand :: "string \<Rightarrow> string" where
  "NormalizeHistoryCommand command =
     TrimSpace (ReplaceChar (ReplaceCRLF command) (CHR 0x0D) [CHR 0x0A])"

definition IsMultilineHistoryCommand :: "string \<Rightarrow> bool" where
  "IsMultilineHistoryCommand command =
     (length (filter (\<lambda>line. TrimSpace line \<noteq> [])
                (Split (NormalizeHistoryCommand command) (CHR 0x0A))) \<ge> 2)"

fun preview_lines :: "string list \<Rightarrow> string" where
  "preview_lines [] = []"
| "preview_lines (line # rest) =
     (let collapsed = Join (Fields line) '' ''
      in if collapsed = [] then preview_lines rest
         else if list_ex (\<lambda>l. TrimSpace l \<noteq> []) rest then collapsed @ '' ...''
         else collapsed)"

definition BuildCommandPreview :: "string \<Rightarrow> string" where
  "BuildCommandPreview command =
     (if NormalizeHistoryCommand command = [] then []
      else preview_lines (Split (NormalizeHistoryCommand command) (CHR 0x0A)))"

record CommandHistoryEntry =
  he_ID :: string
  he_ServerID :: int
  he_ServerName :: string
  he_SessionID :: string
  he_Command :: string
  he_Preview :: string
  he_IsMultiline :: bool
  he_CommandHash :: string
  he_Source :: string
  he_SourceLabel :: string
  he_ExecutedAt :: string
  he_TargetServerIDs :: "int list"
  he_TargetCount :: int
  he_BatchSubmissionID :: string

definition EnrichCommandHistoryEntry :: "CommandHistoryEntry \<Rightarrow> CommandHistoryEntry" where
  "EnrichCommandHistoryEntry entry =
     (let command = NormalizeHistoryCommand (he_Command entry)
      in entry\<lparr>he_Command := command, he_Preview := BuildCommandPreview command,
               he_IsMultiline := IsMultilineHistoryCommand command\<rparr>)"

lemma ReplaceCRLF_no_CR: "CHR 0x0D \<notin> set s \<Longrightarrow> ReplaceCRLF s = s"
  by (induction s rule: ReplaceCRLF.induct) auto

lemma ReplaceChar_noop: "c \<notin> set s \<Longrightarrow> ReplaceChar s c new = s"
  by (induction s) (auto simp: ReplaceChar_def)

lemma ReplaceChar_removes: "c \<notin> set new \<Longrightarrow> c \<notin> set (ReplaceChar s c new)"
  by (auto simp: ReplaceChar_def)

lemma NormalizeHistoryCommand_no_CR: "CHR 0x0D \<notin> set (NormalizeHistoryCommand s)"
proof -
  have "CHR 0x0D \<notin> set (ReplaceChar (ReplaceCRLF s) (CHR 0x0D) [CHR 0x0A])"
    by (rule ReplaceChar_removes) simp
  then show ?thesis
    unfolding NormalizeHistoryCommand_def using set_TrimSpace by blast
qed

lemma NormalizeHistoryCommand_idem:
  "NormalizeHistoryCommand (NormalizeHistoryCommand s) = NormalizeHistoryCommand s"
proof -
  let ?n = "NormalizeHistoryCommand s"
  have "NormalizeHistoryCommand ?n = TrimSpace ?n"
    using NormalizeHistoryCommand_no_CR [of s]
    by (simp add: NormalizeHistoryCommand_def [of ?n] ReplaceCRLF_no_CR ReplaceChar_noop)
  then show ?thesis by (simp add: NormalizeHistoryCommand_def [of s])
qed

lemma EnrichCommandHistoryEntry_idem:
  "EnrichCommandHistoryEntry (EnrichCommandHistoryEntry e) = EnrichCommandHistoryEntry e"
  by (simp add: EnrichCommandHistoryEntry_def Let_def NormalizeHistoryCommand_idem)

end
