(* ===== verification/ConnError.thy ===== *)
theory ConnError
  imports DomainTypes
begin

text \<open>
  Package \<open>internal/connectionerror\<close>: what went wrong with a connection (\<open>classifier.go\<close>) and
  the error of a route through a jump server (\<open>route_error.go\<close>). A Go error is a tree: its text
  and the attributes the classifier asks for, and the errors it unwraps to. \<open>errors.As\<close> and
  \<open>errors.Is\<close> search the tree in pre-order.
\<close>

section \<open>Errors\<close>

datatype RouteInfo =
  RouteInfo (route_Kind: string) (route_Stage: string) (route_CredentialServerID: int)
    (route_CredentialServerName: string) (route_UserMessage: string)

text \<open>
  What a node of the tree is to the classifier. \<open>syscall.Errno\<close> carries its number; a platform
  says which numbers its named constants have.
\<close>

datatype err_kind =
    KRoute RouteInfo
  | KCredential (cred_Code: string) (cred_Message: string)
  | KDeadlineExceeded
  | KCanceled
  | KDNS
  | KErrno nat
  | KPathError
  | KSyscallError
  | KEOF
  | KClosedPipe
  | KNetClosed
  | KNotExist
  | KNoRows
  | KSecretNotFound
  | KPlain

text \<open>
  The text is the result of \<open>Error()\<close>; \<open>node_fingerprints\<close> the result of
  \<open>HostKeyFingerprints()\<close> and \<open>node_timeout\<close> that of \<open>Timeout()\<close>, for the types that have the
  method.
\<close>

record errnode =
  node_text :: string
  node_kind :: err_kind
  node_fingerprints :: "(string \<times> string) option"
  node_timeout :: "bool option"

datatype goerr = GoErr (err_node: errnode) (err_children: "goerr list")

fun err_tree :: "goerr \<Rightarrow> goerr list" where
  "err_tree (GoErr n es) = GoErr n es # concat (map err_tree es)"

definition errors_As :: "(errnode \<Rightarrow> bool) \<Rightarrow> goerr \<Rightarrow> goerr option" where
  "errors_As P e = find (\<lambda>d. P (err_node d)) (err_tree e)"

definition errors_Is :: "err_kind \<Rightarrow> goerr \<Rightarrow> bool" where
  "errors_Is k e = list_ex (\<lambda>d. node_kind (err_node d) = k) (err_tree e)"

definition err_Error :: "goerr \<Rightarrow> string" where
  "err_Error e = node_text (err_node e)"

text \<open>\<open>errors.New\<close>, and \<open>fmt.Errorf\<close> with the verb \<open>%w\<close> after a prefix.\<close>

definition errors_New :: "string \<Rightarrow> goerr" where
  "errors_New text =
     GoErr \<lparr>node_text = text, node_kind = KPlain, node_fingerprints = None, node_timeout = None\<rparr> []"

definition errorf_wrap :: "string \<Rightarrow> goerr \<Rightarrow> goerr" where
  "errorf_wrap before err =
     GoErr \<lparr>node_text = before @ err_Error err, node_kind = KPlain, node_fingerprints = None,
            node_timeout = None\<rparr> [err]"

definition node_is_route :: "errnode \<Rightarrow> bool" where
  "node_is_route n = (case node_kind n of KRoute _ \<Rightarrow> True | _ \<Rightarrow> False)"

definition node_is_credential :: "errnode \<Rightarrow> bool" where
  "node_is_credential n = (case node_kind n of KCredential _ _ \<Rightarrow> True | _ \<Rightarrow> False)"

definition node_is_errno :: "errnode \<Rightarrow> bool" where
  "node_is_errno n = (case node_kind n of KErrno _ \<Rightarrow> True | _ \<Rightarrow> False)"

section \<open>Route errors\<close>

definition RouteError_Error :: "RouteInfo \<Rightarrow> goerr option \<Rightarrow> string" where
  "RouteError_Error r inner =
     (let message = (if route_UserMessage r = [] then route_Kind r else route_UserMessage r)
      in case inner of None \<Rightarrow> message | Some e \<Rightarrow> message @ '': '' @ err_Error e)"

text \<open>A \<open>*RouteError\<close> as a value of type \<open>error\<close>; \<open>Unwrap\<close> gives its \<open>Err\<close>.\<close>

definition route_error :: "RouteInfo \<Rightarrow> goerr option \<Rightarrow> goerr" where
  "route_error r inner =
     GoErr \<lparr>node_text = RouteError_Error r inner, node_kind = KRoute r,
            node_fingerprints = None, node_timeout = None\<rparr>
       (case inner of None \<Rightarrow> [] | Some e \<Rightarrow> [e])"

definition RouteErrorJumpServerMissing :: string where
  "RouteErrorJumpServerMissing = ''jump_server_missing''"
definition RouteErrorJumpConnectionFailed :: string where
  "RouteErrorJumpConnectionFailed = ''jump_connection_failed''"
definition RouteErrorJumpAuthFailed :: string where
  "RouteErrorJumpAuthFailed = ''jump_auth_failed''"
definition RouteErrorJumpHostKeyFailed :: string where
  "RouteErrorJumpHostKeyFailed = ''jump_host_key_failed''"
definition RouteErrorTargetUnreachableThroughJump :: string where
  "RouteErrorTargetUnreachableThroughJump = ''target_unreachable_through_jump''"
definition RouteErrorTargetAuthFailed :: string where
  "RouteErrorTargetAuthFailed = ''target_auth_failed''"
definition RouteErrorTargetHostKeyFailed :: string where
  "RouteErrorTargetHostKeyFailed = ''target_host_key_failed''"

lemmas route_kind_defs =
  RouteErrorJumpServerMissing_def RouteErrorJumpConnectionFailed_def RouteErrorJumpAuthFailed_def
  RouteErrorJumpHostKeyFailed_def RouteErrorTargetUnreachableThroughJump_def
  RouteErrorTargetAuthFailed_def RouteErrorTargetHostKeyFailed_def

section \<open>Classification\<close>

record platform_errno =
  ECONNREFUSED :: nat
  EHOSTUNREACH :: nat
  ENETUNREACH :: nat

definition with_result ::
  "ConnectionError \<Rightarrow> string \<Rightarrow> string \<Rightarrow> bool \<Rightarrow> ConnectionError" where
  "with_result result code userMessage retryable =
     result\<lparr>ce_Code := code, ce_UserMessage := userMessage, ce_Retryable := retryable\<rparr>"

definition authenticationRequiredMessage :: "Connection \<Rightarrow> string" where
  "authenticationRequiredMessage connection =
     (if conn_AuthType connection = AuthPrivateKey then zh [38656, 35201, 36755, 20837, 32, 83, 83, 72, 32, 31169, 38053, 21475, 20196]
      else zh [38656, 35201, 36755, 20837, 32, 83, 83, 72, 32, 23494, 30721])"

definition errorText :: "goerr option \<Rightarrow> string" where
  "errorText err = (case err of None \<Rightarrow> [] | Some e \<Rightarrow> err_Error e)"

fun containsAny :: "string \<Rightarrow> string list \<Rightarrow> bool" where
  "containsAny val [] = False"
| "containsAny val (candidate # rest) = (Contains val candidate \<or> containsAny val rest)"

definition errno_inside :: "err_kind \<Rightarrow> nat \<Rightarrow> goerr \<Rightarrow> bool" where
  "errno_inside k val err =
     (case errors_As (\<lambda>n. node_kind n = k) err of
        None \<Rightarrow> False
      | Some d \<Rightarrow> list_ex (errors_Is (KErrno val)) (err_children d))"

definition hasErrno :: "goerr \<Rightarrow> nat \<Rightarrow> bool" where
  "hasErrno err val =
     (errno_inside KPathError val err \<or> errno_inside KSyscallError val err \<or>
      (case errors_As node_is_errno err of
         None \<Rightarrow> False | Some d \<Rightarrow> node_kind (err_node d) = KErrno val))"

definition route_retryable :: "string \<Rightarrow> bool" where
  "route_retryable kind =
     (kind \<noteq> RouteErrorJumpAuthFailed \<and> kind \<noteq> RouteErrorTargetAuthFailed \<and>
      kind \<noteq> RouteErrorJumpHostKeyFailed \<and> kind \<noteq> RouteErrorTargetHostKeyFailed \<and>
      kind \<noteq> RouteErrorJumpServerMissing)"

definition fingerprints_in :: "goerr list \<Rightarrow> (string \<times> string) option" where
  "fingerprints_in es =
     (case find (\<lambda>d. node_fingerprints (err_node d) \<noteq> None) (concat (map err_tree es)) of
        None \<Rightarrow> None | Some d \<Rightarrow> node_fingerprints (err_node d))"

definition with_fingerprints ::
  "(string \<times> string) option \<Rightarrow> ConnectionError \<Rightarrow> ConnectionError" where
  "with_fingerprints fp result =
     (case fp of
        None \<Rightarrow> result
      | Some (expected, observed) \<Rightarrow>
          result\<lparr>ce_ExpectedFingerprint := expected, ce_ObservedFingerprint := observed\<rparr>)"

definition classify_route :: "ConnectionError \<Rightarrow> RouteInfo \<Rightarrow> goerr list \<Rightarrow> ConnectionError" where
  "classify_route result r inner =
     with_fingerprints (fingerprints_in inner)
       (result\<lparr>ce_Code := route_Kind r, ce_UserMessage := route_UserMessage r,
               ce_Stage := route_Stage r,
               ce_CredentialServerID := route_CredentialServerID r,
               ce_CredentialServerName := route_CredentialServerName r,
               ce_Retryable := route_retryable (route_Kind r)\<rparr>)"

definition classify_host_key :: "ConnectionError \<Rightarrow> string \<times> string \<Rightarrow> ConnectionError" where
  "classify_host_key result fp =
     (let r = with_fingerprints (Some fp) result
      in if ce_ExpectedFingerprint r = []
         then r\<lparr>ce_Code := ''HOST_KEY_UNKNOWN'',
                ce_UserMessage := zh [26381, 21153, 22120, 20027, 26426, 25351, 32441, 23578, 26410, 21463, 20449, 20219, 12290]\<rparr>
         else r\<lparr>ce_Code := ''HOST_KEY_MISMATCH'',
                ce_UserMessage := zh [26381, 21153, 22120, 20027, 26426, 25351, 32441, 19982, 24050, 20445, 23384, 35760, 24405, 19981, 19968, 33268, 65292, 36830, 25509, 24050, 34987, 38459, 27490, 12290]\<rparr>)"

definition classify_credential ::
  "ConnectionError \<Rightarrow> Connection \<Rightarrow> string \<Rightarrow> string \<Rightarrow> ConnectionError" where
  "classify_credential result connection code message =
     (if code = ''private_key_unavailable'' \<or> code = ''private_key_invalid'' then
        result\<lparr>ce_Code := ''PRIVATE_KEY_INVALID'',
               ce_UserMessage :=
                 (if code = ''private_key_unavailable'' \<and> TrimSpace message \<noteq> [] then message
                  else zh [31169, 38053, 25991, 20214, 26080, 25928, 12289, 26684, 24335, 19981, 21463, 25903, 25345, 25110, 26080, 27861, 35835, 21462, 12290])\<rparr>
      else if code = ''credential_invalid'' then
        (if conn_AuthType connection = AuthPrivateKey
         then result\<lparr>ce_Code := ''PASSPHRASE_INVALID'',
                     ce_UserMessage := zh [31169, 38053, 21475, 20196, 38169, 35823, 65292, 26080, 27861, 35299, 23494, 31169, 38053, 12290]\<rparr>
         else result\<lparr>ce_Code := ''AUTH_FAILED'',
                     ce_UserMessage := zh [29992, 25143, 21517, 12289, 23494, 30721, 25110, 35748, 35777, 26041, 24335, 19981, 27491, 30830, 12290]\<rparr>)
      else if code = ''authentication_required'' then
        result\<lparr>ce_Code := ''CREDENTIAL_REQUIRED'',
               ce_UserMessage := authenticationRequiredMessage connection\<rparr>
      else if code = ''credential_unavailable'' then
        result\<lparr>ce_Code := ''CREDENTIAL_UNAVAILABLE'',
               ce_UserMessage := zh [31995, 32479, 20973, 25454, 24341, 29992, 23384, 22312, 65292, 20294, 20973, 25454, 24211, 20013, 30340, 20540, 19981, 21487, 29992, 65292, 35831, 37325, 26032, 36755, 20837, 12290]\<rparr>
      else
        result\<lparr>ce_Code := ''AUTH_FAILED'',
               ce_UserMessage := authenticationRequiredMessage connection\<rparr>)"

definition msg_timeout :: string where
  "msg_timeout = zh [36830, 25509, 26381, 21153, 22120, 36229, 26102, 65292, 35831, 26816, 26597, 22320, 22336, 12289, 31471, 21475, 12289, 32593, 32476, 21644, 38450, 28779, 22681, 12290]"
definition msg_refused :: string where
  "msg_refused = zh [30446, 26631, 26381, 21153, 22120, 25298, 32477, 36830, 25509, 65292, 35831, 26816, 26597, 32, 83, 83, 72, 32, 31471, 21475, 21644, 26381, 21153, 29366, 24577, 12290]"
definition msg_unreachable :: string where
  "msg_unreachable = zh [26080, 27861, 21040, 36798, 26381, 21153, 22120, 65292, 35831, 26816, 26597, 32593, 32476, 32447, 36335, 12289, 36335, 30001, 25110, 26381, 21153, 22120, 26159, 21542, 22312, 32447, 12290]"

text \<open>The last switch of \<open>Classify\<close>, on the lower case text of the error.\<close>

definition classify_text :: "ConnectionError \<Rightarrow> string \<Rightarrow> ConnectionError" where
  "classify_text result message =
     (if containsAny message
          [''unable to authenticate'', ''permission denied'', ''authentication failed'',
           ''no supported methods remain'']
        then with_result result ''AUTH_FAILED'' (zh [29992, 25143, 21517, 12289, 23494, 30721, 25110, 35748, 35777, 26041, 24335, 19981, 27491, 30830, 12290]) False
      else if containsAny message
          [''incorrect passphrase'', ''incorrect password'', ''decryption password incorrect'',
           ''private key passphrase'']
        then with_result result ''PASSPHRASE_INVALID'' (zh [31169, 38053, 21475, 20196, 38169, 35823, 65292, 26080, 27861, 35299, 23494, 31169, 38053, 12290]) False
      else if containsAny message
          [''parse private key'', ''read private key'', ''private key is invalid'',
           ''private key is unavailable'']
        then with_result result ''PRIVATE_KEY_INVALID''
               (zh [31169, 38053, 25991, 20214, 26080, 25928, 12289, 26684, 24335, 19981, 21463, 25903, 25345, 25110, 26080, 27861, 35835, 21462, 12290]) False
      else if Contains message ''connection refused''
        then with_result result ''CONNECTION_REFUSED'' msg_refused True
      else if containsAny message
          [''no route to host'', ''host is unreachable'', ''network is unreachable'']
        then with_result result ''HOST_UNREACHABLE'' msg_unreachable True
      else if containsAny message [''i/o timeout'', ''operation timed out'', ''deadline exceeded'']
        then with_result result ''CONNECTION_TIMEOUT'' msg_timeout True
      else if containsAny message
          [''no common algorithm'', ''no matching algorithm'', ''unsupported algorithm'',
           ''algorithm negotiation failed'']
        then with_result result ''SSH_ALGORITHM_UNSUPPORTED''
               (zh [83, 83, 72, 32, 31639, 27861, 21327, 21830, 22833, 36133, 65292, 26381, 21153, 22120, 19981, 25903, 25345, 24403, 21069, 23458, 25143, 31471, 31639, 27861, 25110, 21327, 35758, 12290]) True
      else if containsAny message
          [''ssh handshake'', ''handshake failed'', ''no common algorithm'', ''protocol error'',
           ''version exchange'']
        then with_result result ''HANDSHAKE_FAILED''
               (zh [83, 83, 72, 32, 25569, 25163, 22833, 36133, 65292, 26381, 21153, 22120, 21487, 33021, 19981, 25903, 25345, 24403, 21069, 31639, 27861, 25110, 21327, 35758, 12290]) True
      else if containsAny message
          [''connection reset'', ''broken pipe'', ''use of closed network connection'',
           ''connection closed'', ''unexpected eof'', '' eof'']
        then with_result result ''CONNECTION_CLOSED'' (zh [83, 83, 72, 32, 36830, 25509, 24050, 34987, 36828, 31243, 26381, 21153, 22120, 20851, 38381, 12290]) True
      else result)"

definition classify_base :: "goerr option \<Rightarrow> Connection \<Rightarrow> string \<Rightarrow> string \<Rightarrow> ConnectionError" where
  "classify_base err connection operation now =
     \<lparr>ce_Code = ''UNKNOWN_CONNECTION_ERROR'',
      ce_UserMessage = zh [36830, 25509, 22833, 36133, 65292, 35831, 26597, 30475, 25216, 26415, 35814, 24773, 12290],
      ce_TechnicalMessage = errorText err, ce_Retryable = False,
      ce_ServerID = conn_ID connection, ce_Operation = operation, ce_Timestamp = now,
      ce_Stage = [], ce_CredentialServerID = 0, ce_CredentialServerName = [],
      ce_CredentialFromStore = False, ce_ExpectedFingerprint = [], ce_ObservedFingerprint = []\<rparr>"

text \<open>The tests on the network errors, between the credential error and the text.\<close>

definition classify_network ::
  "platform_errno \<Rightarrow> ConnectionError \<Rightarrow> goerr \<Rightarrow> ConnectionError" where
  "classify_network pf result err =
     (if errors_Is KDeadlineExceeded err
        then with_result result ''CONNECTION_TIMEOUT'' msg_timeout True
      else if errors_Is KCanceled err
        then with_result result ''CONNECTION_CLOSED'' (zh [83, 83, 72, 32, 36830, 25509, 24050, 21462, 28040, 12290]) True
      else if Contains (ToLower (err_Error err)) ''ssh keepalive failed''
        then with_result result ''SSH_KEEPALIVE_FAILED''
               (zh [83, 83, 72, 32, 36830, 25509, 20445, 27963, 22833, 36133, 65292, 36830, 25509, 24050, 26029, 24320, 12290]) True
      else if errors_As (\<lambda>n. node_kind n = KDNS) err \<noteq> None
        then with_result result ''DNS_FAILED''
               (zh [26080, 27861, 35299, 26512, 26381, 21153, 22120, 22320, 22336, 65292, 35831, 26816, 26597, 20027, 26426, 21517, 25110, 32, 68, 78, 83, 12290]) True
      else if errors_Is (KErrno (ECONNREFUSED pf)) err \<or> hasErrno err 10061
        then with_result result ''CONNECTION_REFUSED'' msg_refused True
      else if errors_Is (KErrno (EHOSTUNREACH pf)) err \<or> errors_Is (KErrno (ENETUNREACH pf)) err
              \<or> hasErrno err 10051 \<or> hasErrno err 10065
        then with_result result ''HOST_UNREACHABLE'' msg_unreachable True
      else if (case errors_As (\<lambda>n. node_timeout n \<noteq> None) err of
                 None \<Rightarrow> False | Some d \<Rightarrow> node_timeout (err_node d) = Some True)
        then with_result result ''CONNECTION_TIMEOUT'' msg_timeout True
      else classify_text result (ToLower (err_Error err)))"

definition Classify ::
  "platform_errno \<Rightarrow> goerr option \<Rightarrow> Connection \<Rightarrow> string \<Rightarrow> string \<Rightarrow> ConnectionError" where
  "Classify pf err connection operation now =
     (let result = classify_base err connection operation now
      in case err of
           None \<Rightarrow> result
         | Some e \<Rightarrow>
             (case errors_As node_is_route e of
                Some (GoErr n inner) \<Rightarrow>
                  (case node_kind n of KRoute r \<Rightarrow> classify_route result r inner | _ \<Rightarrow> result)
              | None \<Rightarrow>
                  (case fingerprints_in [e] of
                     Some fp \<Rightarrow> classify_host_key result fp
                   | None \<Rightarrow>
                       (case errors_As node_is_credential e of
                          Some d \<Rightarrow>
                            (case node_kind (err_node d) of
                               KCredential code message \<Rightarrow>
                                 classify_credential result connection code message
                             | _ \<Rightarrow> result)
                        | None \<Rightarrow> classify_network pf result e))))"

definition StatusForCode :: "string \<Rightarrow> ConnectionStatus" where
  "StatusForCode code =
     (if code = ''AUTH_FAILED'' then StatusAuthFailed
      else if code = ''PASSPHRASE_INVALID'' \<or> code = ''PRIVATE_KEY_INVALID'' then StatusKeyError
      else if code = ''CONNECTION_TIMEOUT'' then StatusTimeout
      else if code = ''DNS_FAILED'' \<or> code = ''HOST_UNREACHABLE'' then StatusUnreachable
      else if code = ''CONNECTION_REFUSED'' then StatusRefused
      else if code = ''SSH_ALGORITHM_UNSUPPORTED'' \<or> code = ''HANDSHAKE_FAILED'' then StatusError
      else if code = ''HOST_KEY_MISMATCH'' \<or> code = ''HOST_KEY_UNKNOWN''
        then StatusHostKeyMismatch
      else if code = ''CONNECTION_CLOSED'' \<or> code = ''SSH_KEEPALIVE_FAILED''
        then StatusDisconnected
      else if code = RouteErrorJumpAuthFailed \<or> code = RouteErrorTargetAuthFailed
        then StatusAuthFailed
      else if code = RouteErrorJumpHostKeyFailed \<or> code = RouteErrorTargetHostKeyFailed
        then StatusHostKeyMismatch
      else if code = RouteErrorJumpServerMissing then StatusError
      else if code = RouteErrorJumpConnectionFailed
              \<or> code = RouteErrorTargetUnreachableThroughJump then StatusUnreachable
      else StatusError)"


section \<open>What the classification promises\<close>

text \<open>
  The status shown for an error and the retry flag agree: what needs the user (credentials,
  keys, an unexpected host key) is never retried, what the network may repair is.
\<close>

definition needs_user :: "ConnectionStatus \<Rightarrow> bool" where
  "needs_user st = (st \<in> {StatusAuthFailed, StatusKeyError, StatusHostKeyMismatch})"

definition may_recover :: "ConnectionStatus \<Rightarrow> bool" where
  "may_recover st =
     (st \<in> {StatusTimeout, StatusUnreachable, StatusRefused, StatusDisconnected})"

definition retry_agrees :: "ConnectionError \<Rightarrow> bool" where
  "retry_agrees c =
     ((needs_user (StatusForCode (ce_Code c)) \<longrightarrow> \<not> ce_Retryable c) \<and>
      (may_recover (StatusForCode (ce_Code c)) \<longrightarrow> ce_Retryable c))"

definition known_route_kind :: "string \<Rightarrow> bool" where
  "known_route_kind k =
     (k \<in> {RouteErrorJumpServerMissing, RouteErrorJumpConnectionFailed, RouteErrorJumpAuthFailed,
           RouteErrorJumpHostKeyFailed, RouteErrorTargetUnreachableThroughJump,
           RouteErrorTargetAuthFailed, RouteErrorTargetHostKeyFailed})"

definition known_routes :: "goerr \<Rightarrow> bool" where
  "known_routes e =
     list_all (\<lambda>d. case node_kind (err_node d) of KRoute r \<Rightarrow> known_route_kind (route_Kind r)
                   | _ \<Rightarrow> True) (err_tree e)"

lemmas retry_defs = retry_agrees_def needs_user_def may_recover_def

lemma StatusForCode_simps [simp]:
  "StatusForCode ''AUTH_FAILED'' = StatusAuthFailed"
  "StatusForCode ''PASSPHRASE_INVALID'' = StatusKeyError"
  "StatusForCode ''PRIVATE_KEY_INVALID'' = StatusKeyError"
  "StatusForCode ''CONNECTION_TIMEOUT'' = StatusTimeout"
  "StatusForCode ''DNS_FAILED'' = StatusUnreachable"
  "StatusForCode ''HOST_UNREACHABLE'' = StatusUnreachable"
  "StatusForCode ''CONNECTION_REFUSED'' = StatusRefused"
  "StatusForCode ''SSH_ALGORITHM_UNSUPPORTED'' = StatusError"
  "StatusForCode ''HANDSHAKE_FAILED'' = StatusError"
  "StatusForCode ''HOST_KEY_MISMATCH'' = StatusHostKeyMismatch"
  "StatusForCode ''HOST_KEY_UNKNOWN'' = StatusHostKeyMismatch"
  "StatusForCode ''CONNECTION_CLOSED'' = StatusDisconnected"
  "StatusForCode ''SSH_KEEPALIVE_FAILED'' = StatusDisconnected"
  "StatusForCode ''CREDENTIAL_REQUIRED'' = StatusError"
  "StatusForCode ''CREDENTIAL_UNAVAILABLE'' = StatusError"
  "StatusForCode ''UNKNOWN_CONNECTION_ERROR'' = StatusError"
  by code_simp+

lemma StatusForCode_route_simps [simp]:
  "StatusForCode RouteErrorJumpServerMissing = StatusError"
  "StatusForCode RouteErrorJumpConnectionFailed = StatusUnreachable"
  "StatusForCode RouteErrorJumpAuthFailed = StatusAuthFailed"
  "StatusForCode RouteErrorJumpHostKeyFailed = StatusHostKeyMismatch"
  "StatusForCode RouteErrorTargetUnreachableThroughJump = StatusUnreachable"
  "StatusForCode RouteErrorTargetAuthFailed = StatusAuthFailed"
  "StatusForCode RouteErrorTargetHostKeyFailed = StatusHostKeyMismatch"
  by code_simp+

lemma route_retryable_simps [simp]:
  "\<not> route_retryable RouteErrorJumpServerMissing"
  "route_retryable RouteErrorJumpConnectionFailed"
  "\<not> route_retryable RouteErrorJumpAuthFailed"
  "\<not> route_retryable RouteErrorJumpHostKeyFailed"
  "route_retryable RouteErrorTargetUnreachableThroughJump"
  "\<not> route_retryable RouteErrorTargetAuthFailed"
  "\<not> route_retryable RouteErrorTargetHostKeyFailed"
  by code_simp+

lemma errors_As_SomeD: "errors_As P e = Some d \<Longrightarrow> d \<in> set (err_tree e) \<and> P (err_node d)"
  unfolding errors_As_def by (drule find_SomeD) simp

lemma with_fingerprints_sel [simp]:
  "ce_Code (with_fingerprints fp r) = ce_Code r"
  "ce_Retryable (with_fingerprints fp r) = ce_Retryable r"
  "ce_TechnicalMessage (with_fingerprints fp r) = ce_TechnicalMessage r"
  "ce_ServerID (with_fingerprints fp r) = ce_ServerID r"
  "ce_Operation (with_fingerprints fp r) = ce_Operation r"
  by (auto simp: with_fingerprints_def split: option.splits)

lemma with_result_sel [simp]:
  "ce_Code (with_result r c m b) = c"
  "ce_Retryable (with_result r c m b) = b"
  "ce_TechnicalMessage (with_result r c m b) = ce_TechnicalMessage r"
  "ce_ServerID (with_result r c m b) = ce_ServerID r"
  "ce_Operation (with_result r c m b) = ce_Operation r"
  by (auto simp: with_result_def)

lemma classify_base_sel [simp]:
  "ce_Code (classify_base e c op now) = ''UNKNOWN_CONNECTION_ERROR''"
  "ce_Retryable (classify_base e c op now) = False"
  "ce_TechnicalMessage (classify_base e c op now) = errorText e"
  "ce_ServerID (classify_base e c op now) = conn_ID c"
  "ce_Operation (classify_base e c op now) = op"
  by (simp_all add: classify_base_def)

text \<open>
  The classifiers are chains of tests; what holds of both branches of a test holds of it.
\<close>

lemma retry_agrees_if: "retry_agrees x \<Longrightarrow> retry_agrees y \<Longrightarrow> retry_agrees (if b then x else y)"
  by simp

lemma retry_agrees_fixed:
  "\<not> ce_Retryable c \<Longrightarrow> \<not> may_recover (StatusForCode (ce_Code c)) \<Longrightarrow> retry_agrees c"
  "ce_Retryable c \<Longrightarrow> \<not> needs_user (StatusForCode (ce_Code c)) \<Longrightarrow> retry_agrees c"
  by (simp_all add: retry_agrees_def)

lemma retry_agrees_no_retry:
  "retry_agrees (with_result r ''AUTH_FAILED'' m False)"
  "retry_agrees (with_result r ''PASSPHRASE_INVALID'' m False)"
  "retry_agrees (with_result r ''PRIVATE_KEY_INVALID'' m False)"
  by (simp_all add: retry_defs)

lemma retry_agrees_retry:
  "retry_agrees (with_result r ''CONNECTION_REFUSED'' m True)"
  "retry_agrees (with_result r ''HOST_UNREACHABLE'' m True)"
  "retry_agrees (with_result r ''CONNECTION_TIMEOUT'' m True)"
  "retry_agrees (with_result r ''SSH_ALGORITHM_UNSUPPORTED'' m True)"
  "retry_agrees (with_result r ''HANDSHAKE_FAILED'' m True)"
  "retry_agrees (with_result r ''CONNECTION_CLOSED'' m True)"
  "retry_agrees (with_result r ''SSH_KEEPALIVE_FAILED'' m True)"
  "retry_agrees (with_result r ''DNS_FAILED'' m True)"
  by (simp_all add: retry_defs)

lemma retry_agrees_codes:
  assumes "\<not> ce_Retryable r"
  shows "retry_agrees (r\<lparr>ce_Code := ''AUTH_FAILED'', ce_UserMessage := m\<rparr>)"
    and "retry_agrees (r\<lparr>ce_Code := ''PASSPHRASE_INVALID'', ce_UserMessage := m\<rparr>)"
    and "retry_agrees (r\<lparr>ce_Code := ''PRIVATE_KEY_INVALID'', ce_UserMessage := m\<rparr>)"
    and "retry_agrees (r\<lparr>ce_Code := ''CREDENTIAL_REQUIRED'', ce_UserMessage := m\<rparr>)"
    and "retry_agrees (r\<lparr>ce_Code := ''CREDENTIAL_UNAVAILABLE'', ce_UserMessage := m\<rparr>)"
    and "retry_agrees (r\<lparr>ce_Code := ''HOST_KEY_UNKNOWN'', ce_UserMessage := m\<rparr>)"
    and "retry_agrees (r\<lparr>ce_Code := ''HOST_KEY_MISMATCH'', ce_UserMessage := m\<rparr>)"
  using assms by (simp_all add: retry_defs)

lemma retry_agrees_unknown:
  "ce_Code r = ''UNKNOWN_CONNECTION_ERROR'' \<Longrightarrow> retry_agrees r"
  by (simp add: retry_defs)

lemma classify_text_agrees: "retry_agrees r \<Longrightarrow> retry_agrees (classify_text r t)"
  unfolding classify_text_def
  by (intro retry_agrees_if retry_agrees_no_retry retry_agrees_retry)

lemma classify_network_agrees: "retry_agrees r \<Longrightarrow> retry_agrees (classify_network pf r e)"
  unfolding classify_network_def
  by (intro retry_agrees_if retry_agrees_no_retry retry_agrees_retry classify_text_agrees)

lemma classify_credential_agrees:
  "\<not> ce_Retryable r \<Longrightarrow> retry_agrees (classify_credential r c code m)"
  unfolding classify_credential_def by (intro retry_agrees_if retry_agrees_codes)

lemma classify_host_key_agrees:
  "\<not> ce_Retryable r \<Longrightarrow> retry_agrees (classify_host_key r fp)"
  unfolding classify_host_key_def Let_def by (intro retry_agrees_if retry_agrees_codes) simp_all

lemma classify_route_agrees:
  "known_route_kind (route_Kind k) \<Longrightarrow> retry_agrees (classify_route r k inner)"
  unfolding known_route_kind_def
  by (elim insertE emptyE) (simp_all add: classify_route_def retry_defs)

lemma Classify_agrees_aux:
  assumes "case err of None \<Rightarrow> True | Some e \<Rightarrow> known_routes e"
  shows "retry_agrees (Classify pf err connection operation now)"
proof (cases err)
  case None
  then show ?thesis by (simp add: Classify_def retry_agrees_unknown)
next
  case (Some e)
  let ?base = "classify_base err connection operation now"
  have known: "known_routes e" using assms Some by simp
  show ?thesis
  proof (cases "errors_As node_is_route e")
    case (Some d)
    obtain n inner where d: "d = GoErr n inner" by (cases d)
    with Some obtain r where r: "node_kind n = KRoute r"
      by (auto dest!: errors_As_SomeD simp: node_is_route_def split: err_kind.splits)
    have "known_route_kind (route_Kind r)"
      using known r errors_As_SomeD [OF Some] d by (auto simp: known_routes_def list_all_iff)
    then show ?thesis
      using \<open>err = Some e\<close> Some d r by (simp add: Classify_def classify_route_agrees)
  next
    case None
    then show ?thesis
      using \<open>err = Some e\<close>
      by (auto simp: Classify_def Let_def classify_host_key_agrees classify_credential_agrees
          retry_agrees_unknown classify_network_agrees split: option.splits err_kind.splits)
  qed
qed

definition failure_status :: "ConnectionStatus \<Rightarrow> bool" where
  "failure_status st =
     (case st of
        StatusAuthFailed \<Rightarrow> True | StatusTimeout \<Rightarrow> True | StatusUnreachable \<Rightarrow> True
      | StatusRefused \<Rightarrow> True | StatusHostKeyMismatch \<Rightarrow> True | StatusKeyError \<Rightarrow> True
      | StatusDisconnected \<Rightarrow> True | StatusError \<Rightarrow> True | _ \<Rightarrow> False)"

lemma failure_status_if: "failure_status x \<Longrightarrow> failure_status y \<Longrightarrow> failure_status (if b then x else y)"
  by simp

lemma failure_status_values [simp]:
  "failure_status StatusAuthFailed" "failure_status StatusTimeout"
  "failure_status StatusUnreachable" "failure_status StatusRefused"
  "failure_status StatusHostKeyMismatch" "failure_status StatusKeyError"
  "failure_status StatusDisconnected" "failure_status StatusError"
  by (simp_all add: failure_status_def)

lemma StatusForCode_failure: "failure_status (StatusForCode code)"
  unfolding StatusForCode_def by (intro failure_status_if failure_status_values)

text \<open>The error keeps its own text and the server and operation it belongs to.\<close>

definition keeps_origin :: "ConnectionError \<Rightarrow> ConnectionError \<Rightarrow> bool" where
  "keeps_origin r r' =
     (ce_TechnicalMessage r' = ce_TechnicalMessage r \<and> ce_ServerID r' = ce_ServerID r \<and>
      ce_Operation r' = ce_Operation r \<and> ce_Timestamp r' = ce_Timestamp r)"

lemma keeps_origin_if:
  "keeps_origin r x \<Longrightarrow> keeps_origin r y \<Longrightarrow> keeps_origin r (if b then x else y)"
  by simp

lemma keeps_origin_basic [simp]:
  "keeps_origin r r"
  "keeps_origin r (with_result r c m b)"
  "keeps_origin r (r\<lparr>ce_Code := c, ce_UserMessage := m\<rparr>)"
  "keeps_origin r (with_fingerprints fp (r\<lparr>ce_Code := c, ce_UserMessage := m, ce_Stage := st,
     ce_CredentialServerID := i, ce_CredentialServerName := nm, ce_Retryable := b\<rparr>))"
  by (auto simp: keeps_origin_def with_result_def with_fingerprints_def split: option.splits)

lemma Classify_keeps_origin:
  "keeps_origin (classify_base err c op now) (Classify pf err c op now)"
proof -
  have text_: "keeps_origin r (classify_text r t)" for r t
    unfolding classify_text_def by (intro keeps_origin_if keeps_origin_basic)
  have net: "keeps_origin r (classify_network pf r e)" for r e
    unfolding classify_network_def by (intro keeps_origin_if keeps_origin_basic text_)
  have cred: "keeps_origin r (classify_credential r c code m)" for r code m
    unfolding classify_credential_def by (intro keeps_origin_if keeps_origin_basic)
  have host: "keeps_origin r (classify_host_key r fp)" for r fp
    unfolding classify_host_key_def Let_def
    by (cases fp) (intro keeps_origin_if; simp add: keeps_origin_def with_fingerprints_def)
  show ?thesis
    by (auto simp: Classify_def Let_def net cred host classify_route_def
        split: option.splits err_kind.splits goerr.splits)
qed

section \<open>Properties\<close>

lemma fingerprints_in_single:
  "fingerprints_in [e] =
     (case errors_As (\<lambda>n. node_fingerprints n \<noteq> None) e of
        None \<Rightarrow> None | Some d \<Rightarrow> node_fingerprints (err_node d))"
  by (simp add: fingerprints_in_def errors_As_def)

lemma errors_As_None_iff: "errors_As P e = None \<longleftrightarrow> (\<forall>d \<in> set (err_tree e). \<not> P (err_node d))"
  by (auto simp: errors_As_def find_None_iff)

text \<open>
  C33: What the classifier answers for any error is a failure status, and the retry flag agrees
  with it: an error that needs the user (authentication, private key, host key) is never marked
  retryable, one that the network may repair always is. Route errors carry one of the seven
  kinds the package declares.
\<close>

theorem Classify_retry_flag:
  assumes "\<forall>e. err = Some e \<longrightarrow> known_routes e"
  shows "failure_status (StatusForCode (ce_Code (Classify pf err connection operation now))) \<and>
    (StatusForCode (ce_Code (Classify pf err connection operation now))
       \<in> {StatusAuthFailed, StatusKeyError, StatusHostKeyMismatch} \<longrightarrow>
     \<not> ce_Retryable (Classify pf err connection operation now)) \<and>
    (StatusForCode (ce_Code (Classify pf err connection operation now))
       \<in> {StatusTimeout, StatusUnreachable, StatusRefused, StatusDisconnected} \<longrightarrow>
     ce_Retryable (Classify pf err connection operation now))"
proof -
  have "retry_agrees (Classify pf err connection operation now)"
    by (rule Classify_agrees_aux) (use assms in \<open>auto split: option.splits\<close>)
  then show ?thesis
    using StatusForCode_failure by (simp add: retry_agrees_def needs_user_def may_recover_def)
qed

definition sample_connection :: Connection where
  "sample_connection =
     \<lparr>conn_ID = 7, conn_GroupID = None, conn_SortOrder = 0, conn_Name = ''web'',
      conn_Host = ''10.0.0.7'', conn_Port = 22, conn_Username = ''root'',
      conn_AuthType = AuthPassword, conn_PrivateKeySource = PrivateKeySourceLocalFile,
      conn_PrivateKeyPath = [], conn_KeyVaultID = None, conn_TerminalProfileID = None,
      conn_ConnectionMode = ConnectionModeDirect, conn_JumpServerID = None,
      conn_HostKeyFingerprint = ''SHA256:a'', conn_CredentialSaved = True,
      conn_PasswordCredentialSaved = True, conn_RefreshInterval = 2\<rparr>"

definition linux_errno :: platform_errno where
  "linux_errno = \<lparr>ECONNREFUSED = 111, EHOSTUNREACH = 113, ENETUNREACH = 101\<rparr>"

text \<open>A changed host key that a jump server reports inside an error that also times out.\<close>

definition sample_host_key_error :: goerr where
  "sample_host_key_error =
     GoErr \<lparr>node_text = ''i/o timeout'', node_kind = KDeadlineExceeded,
            node_fingerprints = None, node_timeout = Some True\<rparr>
       [GoErr \<lparr>node_text = ''host key changed'', node_kind = KPlain,
               node_fingerprints = Some (''SHA256:a'', ''SHA256:b''), node_timeout = None\<rparr> []]"

definition sample_route_error :: goerr where
  "sample_route_error =
     route_error (RouteInfo RouteErrorJumpHostKeyFailed ''jump'' 3 ''gate'' [])
       (Some sample_host_key_error)"

theorem Classify_retry_flag_witness:
  "failure_status (StatusForCode (ce_Code
     (Classify linux_errno (Some sample_route_error) sample_connection ''ssh'' ''t''))) \<and>
   \<not> ce_Retryable (Classify linux_errno (Some sample_route_error) sample_connection ''ssh'' ''t'')"
proof -
  have k: "\<forall>e. Some sample_route_error = Some e \<longrightarrow> known_routes e"
    by (simp add: sample_route_error_def sample_host_key_error_def route_error_def
        known_routes_def known_route_kind_def)
  have c: "ce_Code (Classify linux_errno (Some sample_route_error) sample_connection ''ssh'' ''t'')
      = RouteErrorJumpHostKeyFailed"
    by (simp add: sample_route_error_def sample_host_key_error_def route_error_def Classify_def
        errors_As_def node_is_route_def classify_route_def)
  show ?thesis
    using Classify_retry_flag [OF k, of linux_errno sample_connection "''ssh''" "''t''"]
    by (simp add: c)
qed

text \<open>
  An error that carries a changed host key is reported as a host key mismatch with both
  fingerprints and without retry, whatever its text says and whatever else it wraps (a time-out,
  a refused connection, a credential error), unless the route classifier takes it first.
\<close>

theorem Classify_host_key_first:
  assumes "\<forall>d \<in> set (err_tree e). \<not> node_is_route (err_node d)"
    and "errors_As (\<lambda>n. node_fingerprints n \<noteq> None) e = Some d"
    and "node_fingerprints (err_node d) = Some (expected, observed)"
    and "expected \<noteq> []"
  shows "ce_Code (Classify pf (Some e) connection operation now) = ''HOST_KEY_MISMATCH'' \<and>
    ce_ExpectedFingerprint (Classify pf (Some e) connection operation now) = expected \<and>
    ce_ObservedFingerprint (Classify pf (Some e) connection operation now) = observed \<and>
    \<not> ce_Retryable (Classify pf (Some e) connection operation now)"
proof -
  have "errors_As node_is_route e = None"
    using assms(1) by (simp add: errors_As_None_iff)
  moreover have "fingerprints_in [e] = Some (expected, observed)"
    using assms(2,3) by (simp add: fingerprints_in_single)
  ultimately have "Classify pf (Some e) connection operation now =
      classify_host_key (classify_base (Some e) connection operation now) (expected, observed)"
    by (simp add: Classify_def)
  then show ?thesis
    using assms(4) by (simp add: classify_host_key_def with_fingerprints_def)
qed

theorem Classify_host_key_first_witness:
  "ce_Code (Classify linux_errno (Some sample_host_key_error) sample_connection ''ssh'' ''t'')
     = ''HOST_KEY_MISMATCH''"
  by (rule Classify_host_key_first [of sample_host_key_error
        "hd (err_children sample_host_key_error)" "''SHA256:a''" "''SHA256:b''", THEN conjunct1])
    (simp_all add: sample_host_key_error_def errors_As_def node_is_route_def)

end
