(* ===== verification/GoTime.thy ===== *)
theory GoTime
  imports GoStrings "HOL-Library.List_Lexorder" "HOL-Library.Char_ord"
begin

text \<open>
  Instants and their text. An instant is the number of nanoseconds since 1970-01-01 UTC; the
  text is what \<open>t.UTC().Format(time.RFC3339Nano)\<close> writes, which leaves out the zeros at the end
  of the fraction of a second. Durations are nanoseconds too.
\<close>

definition pad_zero :: "nat \<Rightarrow> nat \<Rightarrow> string" where
  "pad_zero width n = replicate (width - length (nat_digits n)) (CHR ''0'') @ nat_digits n"

text \<open>The civil date of a day counted from 1970-01-01: year, month and day of the month.\<close>

definition civil_of_days :: "int \<Rightarrow> int \<times> nat \<times> nat" where
  "civil_of_days days =
     (let z = days + 719468;
          era = z div 146097;
          doe = z mod 146097;
          yoe = (doe - doe div 1460 + doe div 36524 - doe div 146096) div 365;
          doy = doe - (365 * yoe + yoe div 4 - yoe div 100);
          mp = (5 * doy + 2) div 153;
          day = doy - (153 * mp + 2) div 5 + 1;
          month = (if mp < 10 then mp + 3 else mp - 9)
      in (yoe + era * 400 + (if month \<le> 2 then 1 else 0), nat month, nat day))"

definition nanos_per_second :: int where
  "nanos_per_second = 1000000000"

definition fraction_text :: "nat \<Rightarrow> string" where
  "fraction_text ns =
     (let digits = TrimRightChars (pad_zero 9 ns) ''0''
      in if digits = [] then [] else ''.'' @ digits)"

definition RFC3339Nano :: "int \<Rightarrow> string" where
  "RFC3339Nano t =
     (let secs = t div nanos_per_second;
          sod = nat (secs mod 86400)
      in case civil_of_days (secs div 86400) of
           (y, m, d) \<Rightarrow>
             pad_zero 4 (nat y) @ ''-'' @ pad_zero 2 m @ ''-'' @ pad_zero 2 d @ ''T'' @
             pad_zero 2 (sod div 3600) @ '':'' @ pad_zero 2 (sod div 60 mod 60) @ '':'' @
             pad_zero 2 (sod mod 60) @ fraction_text (nat (t mod nanos_per_second)) @ ''Z'')"

lemma RFC3339Nano_nonempty [simp]: "RFC3339Nano t \<noteq> []"
  by (simp add: RFC3339Nano_def Let_def split: prod.splits)

text \<open>\<open>Duration.Milliseconds\<close> of \<open>a.Sub(b)\<close>, which saturates at the range of \<open>int64\<close>, when positive.\<close>

definition max_duration :: int where
  "max_duration = 2 ^ 63 - 1"

definition millis_between :: "int \<Rightarrow> int \<Rightarrow> int" where
  "millis_between later earlier = max 0 (min (later - earlier) max_duration div 1000000)"

lemma millis_between_nonneg: "0 \<le> millis_between a b"
  by (simp add: millis_between_def)

text \<open>
  The texts do not sort like the instants: a whole second is written without a fraction, and
  the letter that ends it is greater than the point that starts one.
\<close>

lemma nat_digits_numeral [simp]:
  "nat_digits (numeral k) =
     (if (numeral k :: nat) < 10 then [digit_char (numeral k)]
      else nat_digits (numeral k div 10) @ [digit_char (numeral k mod 10)])"
  by (rule nat_digits.simps)

lemma digit_char_numerals [simp]:
  "digit_char 0 = CHR ''0''" "digit_char (Suc 0) = CHR ''1''" "digit_char 2 = CHR ''2''"
  "digit_char 3 = CHR ''3''" "digit_char 4 = CHR ''4''" "digit_char 5 = CHR ''5''"
  "digit_char 6 = CHR ''6''" "digit_char 7 = CHR ''7''" "digit_char 8 = CHR ''8''"
  "digit_char 9 = CHR ''9''"
  by (simp_all add: digit_char_def char_of_def bit_0)

lemma nat_digits_0_1 [simp]: "nat_digits 0 = ''0''" "nat_digits (Suc 0) = ''1''"
  by (simp_all add: nat_digits.simps [of 0] nat_digits.simps [of "Suc 0"])

lemma civil_sample: "civil_of_days 19675 = (2023, 11, 14)"
  by code_simp

lemma replicate_numeral_Cons: "replicate (numeral k) x = x # replicate (pred_numeral k) x"
  by (metis numeral_eq_Suc replicate_Suc)

lemma pad_samples:
  "pad_zero 4 2023 = ''2023''" "pad_zero 2 5 = ''05''" "pad_zero 9 500000000 = ''500000000''"
  "pad_zero 9 0 = ''000000000''" "pad_zero 2 11 = ''11''" "pad_zero 2 14 = ''14''"
  "pad_zero 2 22 = ''22''" "pad_zero 2 13 = ''13''" "pad_zero 2 25 = ''25''"
  by (simp_all add: pad_zero_def replicate_numeral_Cons)

lemma RFC3339Nano_samples:
  "RFC3339Nano 1700000005000000000 = ''2023-11-14T22:13:25Z''"
  "RFC3339Nano 1700000005500000000 = ''2023-11-14T22:13:25.5Z''"
  by (simp_all add: RFC3339Nano_def nanos_per_second_def civil_sample pad_samples
      fraction_text_def TrimRightChars_def)

lemma RFC3339Nano_not_monotone:
  "RFC3339Nano 1700000005000000000 > RFC3339Nano 1700000005500000000"
  unfolding RFC3339Nano_samples by simp

end
