(* ===== verification/GoRegexp.thy ===== *)
theory GoRegexp
  imports GoStrings
begin

text \<open>
  The part of Go's \<open>regexp\<close> that the program's patterns use, as a matcher on byte strings. A
  position is the byte before it and the text after it; \<open>rx_ends\<close> lists the positions where a
  match that starts at a position can end. Whether a pattern matches does not depend on the
  order of the alternatives, so repetition needs no greed.
\<close>

datatype rx =
    RxSet "char list"
  | RxSeq rx rx
  | RxAlt rx rx
  | RxEmpty
  | RxMany "char list"
  | RxBegin
  | RxEnd
  | RxWord

type_synonym rx_pos = "char option \<times> string"

definition word_char :: "char \<Rightarrow> bool" where
  "word_char c =
     (let n = of_char c :: nat
      in 48 \<le> n \<and> n \<le> 57 \<or> 65 \<le> n \<and> n \<le> 90 \<or> 97 \<le> n \<and> n \<le> 122 \<or> n = 95)"

definition word_opt :: "char option \<Rightarrow> bool" where
  "word_opt c = (case c of None \<Rightarrow> False | Some x \<Rightarrow> word_char x)"

definition head_opt :: "string \<Rightarrow> char option" where
  "head_opt s = (case s of [] \<Rightarrow> None | c # _ \<Rightarrow> Some c)"

fun many_ends :: "char list \<Rightarrow> char option \<Rightarrow> string \<Rightarrow> rx_pos list" where
  "many_ends cs p [] = [(p, [])]"
| "many_ends cs p (c # s) = (p, c # s) # (if c \<in> set cs then many_ends cs (Some c) s else [])"

fun rx_ends :: "rx \<Rightarrow> rx_pos \<Rightarrow> rx_pos list" where
  "rx_ends (RxSet cs) (p, s) =
     (case s of [] \<Rightarrow> [] | c # t \<Rightarrow> if c \<in> set cs then [(Some c, t)] else [])"
| "rx_ends (RxSeq a b) pos = concat (map (rx_ends b) (rx_ends a pos))"
| "rx_ends (RxAlt a b) pos = rx_ends a pos @ rx_ends b pos"
| "rx_ends RxEmpty pos = [pos]"
| "rx_ends (RxMany cs) (p, s) = many_ends cs p s"
| "rx_ends RxBegin (p, s) = (if p = None then [(p, s)] else [])"
| "rx_ends RxEnd (p, s) = (if s = [] then [(p, s)] else [])"
| "rx_ends RxWord (p, s) = (if word_opt p \<noteq> word_opt (head_opt s) then [(p, s)] else [])"

text \<open>The search of \<open>MatchString\<close>: a match may start anywhere.\<close>

fun rx_search :: "rx \<Rightarrow> char option \<Rightarrow> string \<Rightarrow> bool" where
  "rx_search r p [] = (rx_ends r (p, []) \<noteq> [])"
| "rx_search r p (c # s) = (rx_ends r (p, c # s) \<noteq> [] \<or> rx_search r (Some c) s)"

definition MatchString :: "rx \<Rightarrow> string \<Rightarrow> bool" where
  "MatchString r s = rx_search r None s"

section \<open>Building patterns\<close>

text \<open>The class \<open>\s\<close>.\<close>

definition rx_space :: "char list" where
  "rx_space = [CHR 0x09, CHR 0x0A, CHR 0x0C, CHR 0x0D, CHR 0x20]"

definition rx_space1 :: rx where
  "rx_space1 = RxSeq (RxSet rx_space) (RxMany rx_space)"

definition upper_byte :: "char \<Rightarrow> char" where
  "upper_byte c =
     (let n = of_char c :: nat in if 97 \<le> n \<and> n \<le> 122 then char_of (n - 32) else c)"

text \<open>
  A lower case letter under the flag \<open>(?i)\<close>: both cases, and for \<open>k\<close> and \<open>s\<close> the two code
  points outside ASCII that fold to them, the Kelvin sign and the long s.
\<close>

definition rx_fold :: "char \<Rightarrow> rx" where
  "rx_fold c =
     (let both = RxSet [c, upper_byte c]
      in if c = CHR ''k'' then
           RxAlt both (RxSeq (RxSet [CHR 0xE2]) (RxSeq (RxSet [CHR 0x84]) (RxSet [CHR 0xAA])))
         else if c = CHR ''s'' then RxAlt both (RxSeq (RxSet [CHR 0xC5]) (RxSet [CHR 0xBF]))
         else both)"

fun rx_word_ci :: "string \<Rightarrow> rx" where
  "rx_word_ci [] = RxEmpty"
| "rx_word_ci (c # cs) = RxSeq (rx_fold c) (rx_word_ci cs)"

fun rx_word :: "string \<Rightarrow> rx" where
  "rx_word [] = RxEmpty"
| "rx_word (c # cs) = RxSeq (RxSet [c]) (rx_word cs)"

fun rx_any :: "rx list \<Rightarrow> rx" where
  "rx_any [] = RxSet []"
| "rx_any [r] = r"
| "rx_any (r # rs) = RxAlt r (rx_any rs)"

section \<open>Lemmas\<close>

lemma rx_search_split:
  "rx_search r p s \<longleftrightarrow> (\<exists>a b. s = a @ b \<and> rx_ends r (if a = [] then p else Some (last a), b) \<noteq> [])"
proof (induction s arbitrary: p)
  case (Cons c s)
  show ?case (is "_ \<longleftrightarrow> (\<exists>a b. ?split a b)")
  proof
    assume "rx_search r p (c # s)"
    then consider "rx_ends r (p, c # s) \<noteq> []" | "rx_search r (Some c) s" by auto
    then show "\<exists>a b. ?split a b"
    proof cases
      case 1
      then have "?split [] (c # s)" by simp
      then show ?thesis by blast
    next
      case 2
      then obtain a b where
        "s = a @ b" "rx_ends r (if a = [] then Some c else Some (last a), b) \<noteq> []"
        using Cons by blast
      then have "?split (c # a) b" by (auto split: if_splits)
      then show ?thesis by blast
    qed
  next
    assume "\<exists>a b. ?split a b"
    then obtain a b where ab: "?split a b" by blast
    show "rx_search r p (c # s)"
    proof (cases a)
      case Nil
      with ab have "rx_ends r (p, c # s) \<noteq> []" by simp
      then show ?thesis by simp
    next
      case (Cons x a')
      with ab have "s = a' @ b"
        and "rx_ends r (if a' = [] then Some c else Some (last a'), b) \<noteq> []"
        by (auto split: if_splits)
      then have "rx_search r (Some c) s" using Cons.IH by blast
      then show ?thesis by simp
    qed
  qed
qed auto

lemma many_ends_iff:
  "(q, t) \<in> set (many_ends cs p s) \<longleftrightarrow>
     (\<exists>u. s = u @ t \<and> set u \<subseteq> set cs \<and> q = (if u = [] then p else Some (last u)))"
proof (induction s arbitrary: p)
  case (Cons c s)
  have "(\<exists>u. c # s = u @ t \<and> set u \<subseteq> set cs \<and> q = (if u = [] then p else Some (last u))) \<longleftrightarrow>
      (t = c # s \<and> q = p) \<or>
      (c \<in> set cs \<and>
        (\<exists>u. s = u @ t \<and> set u \<subseteq> set cs \<and> q = (if u = [] then Some c else Some (last u))))"
    (is "?l \<longleftrightarrow> ?r")
  proof
    assume ?l
    then obtain u where u: "c # s = u @ t" "set u \<subseteq> set cs" "q = (if u = [] then p else Some (last u))"
      by blast
    then show ?r by (cases u) (auto split: if_splits)
  next
    assume ?r
    then show ?l
    proof
      assume "t = c # s \<and> q = p"
      then show ?l by (intro exI [of _ "[]"]) simp
    next
      assume "c \<in> set cs \<and>
        (\<exists>u. s = u @ t \<and> set u \<subseteq> set cs \<and> q = (if u = [] then Some c else Some (last u)))"
      then obtain u where "c \<in> set cs" "s = u @ t" "set u \<subseteq> set cs"
        "q = (if u = [] then Some c else Some (last u))" by blast
      then show ?l by (intro exI [of _ "c # u"]) auto
    qed
  qed
  then show ?case using Cons by auto
qed auto

lemma rx_seq_iff:
  "x \<in> set (rx_ends (RxSeq a b) pos) \<longleftrightarrow> (\<exists>m \<in> set (rx_ends a pos). x \<in> set (rx_ends b m))"
  by auto

lemma rx_any_iff: "x \<in> set (rx_ends (rx_any rs) pos) \<longleftrightarrow> (\<exists>r \<in> set rs. x \<in> set (rx_ends r pos))"
  by (induction rs rule: rx_any.induct) (auto split: list.splits, (cases pos; auto split: list.splits)+)

text \<open>A literal word under \<open>(?i)\<close> matches itself.\<close>

lemma rx_word_ci_self:
  "w \<noteq> [] \<Longrightarrow> (Some (last w), t) \<in> set (rx_ends (rx_word_ci w) (p, w @ t))"
proof (induction w arbitrary: p)
  case (Cons c w)
  have hd: "(Some c, w @ t) \<in> set (rx_ends (rx_fold c) (p, (c # w) @ t))"
    by (simp add: rx_fold_def Let_def)
  show ?case
  proof (cases "w = []")
    case True
    with hd show ?thesis by force
  next
    case False
    with hd Cons.IH [of "Some c"] show ?thesis by (force simp: rx_seq_iff simp del: rx_ends.simps)
  qed
qed simp

end
