(* ===== verification/BatchCommand.thy ===== *)
theory BatchCommand
  imports ConnError GoTime GoRegexp
begin

text \<open>
  Package \<open>internal/batchcommand\<close>, the data and the operations under the manager's lock: one
  shell command on many servers. A task has one result per server; the goroutine of a server
  moves its result from queued to a final status, and the user may cancel a server or the
  whole task at any moment. An instant is the number of nanoseconds that its text writes
  (theory \<open>GoTime\<close>), and the empty string is \<^const>\<open>None\<close>. The goroutines are in theory
  \<open>BatchRun\<close>.
\<close>

section \<open>Data\<close>

datatype BatchCommandStatus =
    BatchCommandQueued | BatchCommandConnecting | BatchCommandRunning | BatchCommandCompleted
  | BatchCommandFailed | BatchCommandCanceled | BatchCommandTimeout

record StartBatchCommandRequest =
  sreq_Command :: string
  sreq_ServerIDs :: "int list"
  sreq_TimeoutSeconds :: int
  sreq_Concurrency :: int

record BatchCommandServerResult =
  res_TaskID :: string
  res_ServerID :: int
  res_ServerName :: string
  res_Host :: string
  res_Status :: BatchCommandStatus
  res_ExitCode :: int
  res_Stdout :: string
  res_Stderr :: string
  res_StartedAt :: "int option"
  res_CompletedAt :: "int option"
  res_DurationMs :: int
  res_Error :: string
  res_OutputTruncated :: bool

record BatchCommandTask =
  task_TaskID :: string
  task_Command :: string
  task_ServerIDs :: "int list"
  task_Status :: BatchCommandStatus
  task_CreatedAt :: int
  task_StartedAt :: "int option"
  task_CompletedAt :: "int option"
  task_Concurrency :: int
  task_TimeoutSeconds :: int
  task_Results :: "BatchCommandServerResult list"

record outputState =
  out_bytes :: nat
  out_lines :: nat
  out_truncated :: bool

text \<open>
  The struct \<open>taskRuntime\<close> without its channels: a context is the flag that it was cancelled, a
  registered cancel function or session is the server it belongs to.
\<close>

record taskRuntime =
  rt_task :: BatchCommandTask
  rt_cancelled :: bool
  rt_serverCancels :: "int list"
  rt_serverCancelled :: "int \<Rightarrow> bool"
  rt_sessions :: "int list"
  rt_outputs :: "int \<Rightarrow> outputState option"
  rt_done :: bool

datatype batch_event =
    EvState string int int BatchCommandStatus BatchCommandServerResult
  | EvOutput string int int string string
  | EvCompleted string int BatchCommandStatus BatchCommandTask
  | EvError string int int string string

text \<open>
  The manager's map of tasks. A goroutine holds a pointer to its task and the code compares it
  with the map's; a task identifier is random and never used twice, so the comparison asks
  whether the task is still in the map.
\<close>

type_synonym batch_tasks = "(string, taskRuntime) gomap"

type_synonym batch_result = "batch_tasks \<times> batch_event list"

section \<open>The request\<close>

definition DefaultConcurrency :: int where "DefaultConcurrency = 3"
definition MinimumConcurrency :: int where "MinimumConcurrency = 1"
definition MaximumConcurrency :: int where "MaximumConcurrency = 10"
definition DefaultTimeoutSeconds :: int where "DefaultTimeoutSeconds = 60"
definition MinimumTimeoutSeconds :: int where "MinimumTimeoutSeconds = 5"
definition MaximumTimeoutSeconds :: int where "MaximumTimeoutSeconds = 3600"

lemmas batch_limits =
  DefaultConcurrency_def MinimumConcurrency_def MaximumConcurrency_def
  DefaultTimeoutSeconds_def MinimumTimeoutSeconds_def MaximumTimeoutSeconds_def

fun unique_positive :: "int set \<Rightarrow> int list \<Rightarrow> int list" where
  "unique_positive seen [] = []"
| "unique_positive seen (i # is) =
     (if i \<le> 0 \<or> i \<in> seen then unique_positive seen is
      else i # unique_positive (insert i seen) is)"

definition uniquePositiveServerIDs :: "int list \<Rightarrow> int list" where
  "uniquePositiveServerIDs input = unique_positive {} input"

definition limit_setting :: "int \<Rightarrow> int \<Rightarrow> int \<Rightarrow> int \<Rightarrow> int" where
  "limit_setting fallback lo hi x =
     (let x = (if x \<le> 0 then fallback else x);
          x = (if x < lo then lo else x)
      in if x > hi then hi else x)"

definition batch_normalizeStartRequest ::
  "StartBatchCommandRequest \<Rightarrow> StartBatchCommandRequest" where
  "batch_normalizeStartRequest r =
     r\<lparr>sreq_Command := TrimSpace (sreq_Command r),
       sreq_ServerIDs := uniquePositiveServerIDs (sreq_ServerIDs r),
       sreq_Concurrency :=
         limit_setting DefaultConcurrency MinimumConcurrency MaximumConcurrency
           (sreq_Concurrency r),
       sreq_TimeoutSeconds :=
         limit_setting DefaultTimeoutSeconds MinimumTimeoutSeconds MaximumTimeoutSeconds
           (sreq_TimeoutSeconds r)\<rparr>"

lemma unique_positive_set: "set (unique_positive seen is) = {i \<in> set is. i > 0} - seen"
  by (induction "is" arbitrary: seen) auto

lemma unique_positive_distinct: "distinct (unique_positive seen is)"
  by (induction "is" arbitrary: seen) (auto simp: unique_positive_set)

lemma unique_positive_id:
  "distinct is \<Longrightarrow> \<forall>i \<in> set is. i > 0 \<Longrightarrow> set is \<inter> seen = {} \<Longrightarrow> unique_positive seen is = is"
  by (induction "is" arbitrary: seen) auto

lemma uniquePositiveServerIDs_props:
  "distinct (uniquePositiveServerIDs is)"
  "set (uniquePositiveServerIDs is) = {i \<in> set is. i > 0}"
  "uniquePositiveServerIDs (uniquePositiveServerIDs is) = uniquePositiveServerIDs is"
  by (simp_all add: uniquePositiveServerIDs_def unique_positive_set unique_positive_distinct
      unique_positive_id)

lemma limit_setting_bounds:
  "lo \<le> hi \<Longrightarrow> lo \<le> limit_setting d lo hi x \<and> limit_setting d lo hi x \<le> hi"
  by (simp add: limit_setting_def Let_def)

lemma limit_setting_idem:
  "0 < lo \<Longrightarrow> lo \<le> hi \<Longrightarrow>
     limit_setting d lo hi (limit_setting d lo hi x) = limit_setting d lo hi x"
  by (simp add: limit_setting_def Let_def)

section \<open>Commands that need a terminal\<close>

text \<open>The prefix \<open>(^|[;&|]\s*)\<close> of the patterns: a command starts here.\<close>

definition rx_cmd_start :: rx where
  "rx_cmd_start =
     RxAlt RxBegin (RxSeq (RxSet [CHR '';'', CHR ''&'', CHR ''|'']) (RxMany rx_space))"

definition rx_command :: "string list \<Rightarrow> rx" where
  "rx_command names = RxSeq rx_cmd_start (RxSeq (rx_any (map rx_word_ci names)) RxWord)"

definition interactiveCommandPatterns :: "rx list" where
  "interactiveCommandPatterns =
     [rx_command [''vi'', ''vim'', ''nano'', ''emacs''],
      rx_command [''top'', ''htop'', ''less'', ''more'', ''watch''],
      RxSeq rx_cmd_start (RxSeq (rx_word_ci ''tail'') (RxSeq rx_space1
        (RxSeq (RxSet [CHR ''-'']) (RxSeq (rx_word_ci ''f'') RxWord)))),
      rx_command [''passwd''],
      RxSeq rx_cmd_start (RxSeq (rx_word_ci ''crontab'') (RxSeq rx_space1
        (RxSeq (RxSet [CHR ''-'']) (RxSeq (rx_word_ci ''e'') RxWord)))),
      RxSeq RxBegin (RxSeq (RxMany rx_space)
        (RxSeq (rx_any (map rx_word_ci [''bash'', ''sh'', ''zsh'', ''fish'', ''csh'', ''tcsh'']))
          (RxSeq (RxMany rx_space) RxEnd)))]"

definition sudo_pattern :: rx where
  "sudo_pattern = RxSeq rx_cmd_start (RxSeq (rx_word ''sudo'') RxWord)"

definition IsInteractiveCommand :: "string \<Rightarrow> bool" where
  "IsInteractiveCommand command =
     (let normalized = TrimSpace command
      in if normalized = [] then False
         else if list_ex (\<lambda>p. MatchString p normalized) interactiveCommandPatterns then True
         else MatchString sudo_pattern (ToLower normalized)
              \<and> \<not> Contains (ToLower normalized) ''sudo -n''
              \<and> \<not> Contains (ToLower normalized) ''sudo --non-interactive'')"

section \<open>Reading a task\<close>

definition isActiveStatus :: "BatchCommandStatus \<Rightarrow> bool" where
  "isActiveStatus st =
     (st = BatchCommandQueued \<or> st = BatchCommandConnecting \<or> st = BatchCommandRunning)"

text \<open>\<^const>\<open>None\<close> is the code's \<open>-1\<close>.\<close>

definition resultIndex :: "BatchCommandTask \<Rightarrow> int \<Rightarrow> nat option" where
  "resultIndex task sid =
     (let i = length (takeWhile (\<lambda>r. res_ServerID r \<noteq> sid) (task_Results task))
      in if i < length (task_Results task) then Some i else None)"

definition resultByServer :: "BatchCommandTask \<Rightarrow> int \<Rightarrow> BatchCommandServerResult option" where
  "resultByServer task sid = map_option (\<lambda>i. task_Results task ! i) (resultIndex task sid)"

definition count_status :: "BatchCommandStatus \<Rightarrow> BatchCommandServerResult list \<Rightarrow> nat" where
  "count_status st results = length (filter (\<lambda>r. res_Status r = st) results)"

definition aggregateStatus :: "BatchCommandServerResult list \<Rightarrow> BatchCommandStatus" where
  "aggregateStatus results =
     (if results = [] then BatchCommandCompleted
      else if list_ex (\<lambda>r. isActiveStatus (res_Status r)) results then BatchCommandRunning
      else if count_status BatchCommandCompleted results = length results
        then BatchCommandCompleted
      else if count_status BatchCommandCanceled results = length results
        then BatchCommandCanceled
      else if count_status BatchCommandTimeout results > 0 then BatchCommandTimeout
      else if count_status BatchCommandFailed results > 0 then BatchCommandFailed
      else BatchCommandCanceled)"

section \<open>Changing a result\<close>

definition put_result :: "nat \<Rightarrow> BatchCommandServerResult \<Rightarrow> taskRuntime \<Rightarrow> taskRuntime" where
  "put_result i r current =
     current\<lparr>rt_task := (rt_task current)\<lparr>task_Results := (task_Results (rt_task current))[i := r]\<rparr>\<rparr>"

text \<open>
  Every operation of a goroutine on its result looks the task up, then the server's index, and
  returns without effect when either is missing.
\<close>

definition on_result ::
  "string \<Rightarrow> int \<Rightarrow> (taskRuntime \<Rightarrow> nat \<Rightarrow> BatchCommandServerResult \<Rightarrow> taskRuntime \<times> batch_event list)
     \<Rightarrow> batch_tasks \<Rightarrow> batch_result" where
  "on_result tid sid f m =
     (case map_of m tid of
        None \<Rightarrow> (m, [])
      | Some current \<Rightarrow>
          (case resultIndex (rt_task current) sid of
             None \<Rightarrow> (m, [])
           | Some i \<Rightarrow>
               (case f current i (task_Results (rt_task current) ! i) of
                  (current', evs) \<Rightarrow> (AList.update tid current' m, evs))))"

definition transition_result ::
  "int \<Rightarrow> BatchCommandStatus \<Rightarrow> int option \<Rightarrow> taskRuntime \<Rightarrow> nat \<Rightarrow> BatchCommandServerResult
     \<Rightarrow> taskRuntime \<times> batch_event list" where
  "transition_result now status startedAt current i r =
     (if \<not> isActiveStatus (res_Status r) then (current, [])
      else
        let task = (if task_Status (rt_task current) = BatchCommandQueued
                    then (rt_task current)\<lparr>task_Status := BatchCommandRunning,
                                           task_StartedAt := Some now\<rparr>
                    else rt_task current);
            r' = r\<lparr>res_Status := status,
                   res_StartedAt := (case startedAt of None \<Rightarrow> res_StartedAt r | Some s \<Rightarrow> Some s)\<rparr>
        in (put_result i r' (current\<lparr>rt_task := task\<rparr>),
            [EvState (task_TaskID (rt_task current)) (res_ServerID r) now status r']))"

definition transitionServer ::
  "int \<Rightarrow> string \<Rightarrow> int \<Rightarrow> BatchCommandStatus \<Rightarrow> int option \<Rightarrow> batch_tasks \<Rightarrow> batch_result" where
  "transitionServer now tid sid status startedAt =
     on_result tid sid (transition_result now status startedAt)"

text \<open>The boolean \<open>transitionServer\<close> returns: whether the server was still active.\<close>

definition server_active :: "string \<Rightarrow> int \<Rightarrow> batch_tasks \<Rightarrow> bool" where
  "server_active tid sid m =
     (case map_of m tid of
        None \<Rightarrow> False
      | Some current \<Rightarrow>
          (case resultByServer (rt_task current) sid of
             None \<Rightarrow> False | Some r \<Rightarrow> isActiveStatus (res_Status r)))"

definition finish_result ::
  "int \<Rightarrow> BatchCommandStatus \<Rightarrow> int \<Rightarrow> string \<Rightarrow> taskRuntime \<Rightarrow> nat \<Rightarrow> BatchCommandServerResult
     \<Rightarrow> taskRuntime \<times> batch_event list" where
  "finish_result now status exitCode message current i r =
     (if \<not> isActiveStatus (res_Status r) then (current, [])
      else
        let r' = r\<lparr>res_Status := status, res_ExitCode := exitCode,
                   res_CompletedAt := Some now,
                   res_DurationMs :=
                     (case res_StartedAt r of None \<Rightarrow> 0 | Some s \<Rightarrow> millis_between now s),
                   res_Error := message\<rparr>
        in (put_result i r' current,
            [EvState (task_TaskID (rt_task current)) (res_ServerID r) now status r']))"

definition finishServer ::
  "int \<Rightarrow> string \<Rightarrow> int \<Rightarrow> BatchCommandStatus \<Rightarrow> int \<Rightarrow> string \<Rightarrow> batch_tasks \<Rightarrow> batch_result" where
  "finishServer now tid sid status exitCode message =
     on_result tid sid (finish_result now status exitCode message)"

definition setServerIdentity ::
  "int \<Rightarrow> string \<Rightarrow> int \<Rightarrow> Connection \<Rightarrow> batch_tasks \<Rightarrow> batch_result" where
  "setServerIdentity now tid sid connection =
     on_result tid sid (\<lambda>current i r.
       let r' = r\<lparr>res_ServerName := conn_Name connection,
                  res_Host := conn_Host connection @ '':'' @ Itoa (conn_Port connection)\<rparr>
       in (put_result i r' current,
           [EvState (task_TaskID (rt_task current)) sid now (res_Status r') r']))"

section \<open>Output\<close>

definition outputLimitBytes :: nat where "outputLimitBytes = 1024 * 1024"
definition outputLimitLines :: nat where "outputLimitLines = 5000"

definition outputTruncatedNotice :: string where
  "outputTruncatedNotice = zh [36755, 20986, 36807, 22810, 65292, 24050, 25130, 26029, 12290]"

definition appendResultOutput ::
  "string \<Rightarrow> string \<Rightarrow> BatchCommandServerResult \<Rightarrow> BatchCommandServerResult" where
  "appendResultOutput stream chunk r =
     (if stream = ''stderr'' then r\<lparr>res_Stderr := res_Stderr r @ chunk\<rparr>
      else r\<lparr>res_Stdout := res_Stdout r @ chunk\<rparr>)"

definition chunk_lines :: "string \<Rightarrow> nat" where
  "chunk_lines chunk =
     CountChar chunk (CHR 0x0A) + (if chunk \<noteq> [] \<and> \<not> HasSuffix chunk [CHR 0x0A] then 1 else 0)"

definition append_output ::
  "int \<Rightarrow> int \<Rightarrow> string \<Rightarrow> string \<Rightarrow> taskRuntime \<Rightarrow> nat \<Rightarrow> BatchCommandServerResult
     \<Rightarrow> taskRuntime \<times> batch_event list" where
  "append_output now sid stream chunk current i r =
     (let st = (case rt_outputs current sid of
                  None \<Rightarrow> \<lparr>out_bytes = 0, out_lines = 0, out_truncated = False\<rparr> | Some st \<Rightarrow> st);
          current' = current\<lparr>rt_outputs := (rt_outputs current)(sid \<mapsto> st)\<rparr>;
          nextBytes = out_bytes st + length chunk;
          nextLines = out_lines st + chunk_lines chunk;
          notice = outputTruncatedNotice @ [CHR 0x0A];
          tid = task_TaskID (rt_task current)
      in if res_Status r \<noteq> BatchCommandRunning then (current, [])
         else if out_truncated st then (current', [])
         else if nextBytes > outputLimitBytes \<or> nextLines > outputLimitLines then
           (put_result i (appendResultOutput stream notice (r\<lparr>res_OutputTruncated := True\<rparr>))
              (current'\<lparr>rt_outputs := (rt_outputs current)(sid \<mapsto> st\<lparr>out_truncated := True\<rparr>)\<rparr>),
            [EvOutput tid sid now stream notice])
         else
           (put_result i (appendResultOutput stream chunk r)
              (current'\<lparr>rt_outputs := (rt_outputs current)
                 (sid \<mapsto> st\<lparr>out_bytes := nextBytes, out_lines := nextLines\<rparr>)\<rparr>),
            [EvOutput tid sid now stream chunk]))"

definition appendOutput ::
  "int \<Rightarrow> string \<Rightarrow> int \<Rightarrow> string \<Rightarrow> string \<Rightarrow> batch_tasks \<Rightarrow> batch_result" where
  "appendOutput now tid sid stream chunk m =
     (if chunk = [] then (m, [])
      else on_result tid sid (append_output now sid stream chunk) m)"

section \<open>Sessions and contexts\<close>

definition on_task :: "string \<Rightarrow> (taskRuntime \<Rightarrow> taskRuntime) \<Rightarrow> batch_tasks \<Rightarrow> batch_tasks" where
  "on_task tid f m =
     (case map_of m tid of None \<Rightarrow> m | Some current \<Rightarrow> AList.update tid (f current) m)"

definition setServerCancel :: "string \<Rightarrow> int \<Rightarrow> batch_tasks \<Rightarrow> batch_tasks" where
  "setServerCancel tid sid =
     on_task tid (\<lambda>c. c\<lparr>rt_serverCancels := List.insert sid (rt_serverCancels c)\<rparr>)"

definition setSession :: "string \<Rightarrow> int \<Rightarrow> batch_tasks \<Rightarrow> batch_tasks" where
  "setSession tid sid = on_task tid (\<lambda>c. c\<lparr>rt_sessions := List.insert sid (rt_sessions c)\<rparr>)"

definition closeSession :: "string \<Rightarrow> int \<Rightarrow> batch_tasks \<Rightarrow> batch_tasks" where
  "closeSession tid sid = on_task tid (\<lambda>c. c\<lparr>rt_sessions := removeAll sid (rt_sessions c)\<rparr>)"

text \<open>The deferred call of a goroutine: its context is cancelled and its entries removed.\<close>

definition clearServerRuntime :: "string \<Rightarrow> int \<Rightarrow> batch_tasks \<Rightarrow> batch_tasks" where
  "clearServerRuntime tid sid =
     on_task tid (\<lambda>c. c\<lparr>rt_serverCancels := removeAll sid (rt_serverCancels c),
                        rt_serverCancelled := (rt_serverCancelled c)(sid := True),
                        rt_sessions := removeAll sid (rt_sessions c)\<rparr>)"

section \<open>Cancelling\<close>

definition cancel_result ::
  "int \<Rightarrow> int \<Rightarrow> taskRuntime \<Rightarrow> taskRuntime \<times> batch_event list" where
  "cancel_result now sid current =
     (case resultIndex (rt_task current) sid of
        None \<Rightarrow> (current, [])
      | Some i \<Rightarrow>
          let r = task_Results (rt_task current) ! i;
              r' = r\<lparr>res_Status := BatchCommandCanceled, res_CompletedAt := Some now\<rparr>
          in if isActiveStatus (res_Status r)
             then (put_result i r' current,
                   [EvState (task_TaskID (rt_task current)) sid now BatchCommandCanceled r'])
             else (current, []))"

definition cancel_context :: "int \<Rightarrow> taskRuntime \<Rightarrow> taskRuntime" where
  "cancel_context sid current =
     (if sid \<in> set (rt_serverCancels current)
      then current\<lparr>rt_serverCancelled := (rt_serverCancelled current)(sid := True)\<rparr> else current)"

definition cancelServer :: "int \<Rightarrow> string \<Rightarrow> int \<Rightarrow> batch_tasks \<Rightarrow> batch_result" where
  "cancelServer now tid sid m =
     (case map_of m tid of
        None \<Rightarrow> (m, [])
      | Some current \<Rightarrow>
          (case cancel_result now sid current of
             (current', evs) \<Rightarrow> (AList.update tid (cancel_context sid current') m, evs)))"

fun cancelServers :: "int \<Rightarrow> string \<Rightarrow> int list \<Rightarrow> batch_tasks \<Rightarrow> batch_result" where
  "cancelServers now tid [] m = (m, [])"
| "cancelServers now tid (sid # sids) m =
     (case cancelServer now tid sid m of
        (m', evs) \<Rightarrow> (case cancelServers now tid sids m' of (m'', evs') \<Rightarrow> (m'', evs @ evs')))"

definition cancelTask :: "int \<Rightarrow> string \<Rightarrow> batch_tasks \<Rightarrow> batch_result" where
  "cancelTask now tid m =
     (case map_of m tid of
        None \<Rightarrow> (m, [])
      | Some current \<Rightarrow>
          cancelServers now tid (task_ServerIDs (rt_task current))
            (AList.update tid
               (fold cancel_context (rt_serverCancels current) (current\<lparr>rt_cancelled := True\<rparr>)) m))"

section \<open>Operations of the manager\<close>

definition queued_result :: "string \<Rightarrow> int \<Rightarrow> BatchCommandServerResult" where
  "queued_result tid sid =
     \<lparr>res_TaskID = tid, res_ServerID = sid, res_ServerName = [], res_Host = [],
      res_Status = BatchCommandQueued, res_ExitCode = -1, res_Stdout = [], res_Stderr = [],
      res_StartedAt = None, res_CompletedAt = None, res_DurationMs = 0, res_Error = [],
      res_OutputTruncated = False\<rparr>"

definition new_task :: "int \<Rightarrow> string \<Rightarrow> StartBatchCommandRequest \<Rightarrow> BatchCommandTask" where
  "new_task now tid r =
     \<lparr>task_TaskID = tid, task_Command = sreq_Command r, task_ServerIDs = sreq_ServerIDs r,
      task_Status = BatchCommandQueued, task_CreatedAt = now, task_StartedAt = None,
      task_CompletedAt = None, task_Concurrency = sreq_Concurrency r,
      task_TimeoutSeconds = sreq_TimeoutSeconds r,
      task_Results = map (queued_result tid) (sreq_ServerIDs r)\<rparr>"

definition new_runtime :: "BatchCommandTask \<Rightarrow> taskRuntime" where
  "new_runtime task =
     \<lparr>rt_task = task, rt_cancelled = False, rt_serverCancels = [],
      rt_serverCancelled = (\<lambda>_. False), rt_sessions = [], rt_outputs = (\<lambda>_. None),
      rt_done = False\<rparr>"

text \<open>
  \<open>initialized\<close> is that the connection provider, the authentication provider and the dialer are
  set; \<open>tid\<close> is the identifier the random source gives.
\<close>

definition batch_Start ::
  "bool \<Rightarrow> int \<Rightarrow> string \<Rightarrow> StartBatchCommandRequest \<Rightarrow> batch_tasks
     \<Rightarrow> string + batch_tasks \<times> BatchCommandTask" where
  "batch_Start initialized now tid request m =
     (let r = batch_normalizeStartRequest request;
          task = new_task now tid r
      in if sreq_Command r = [] then Inl (zh [25209, 37327, 21629, 20196, 19981, 33021, 20026, 31354])
         else if IsInteractiveCommand (sreq_Command r)
           then Inl (zh [35813, 21629, 20196, 38656, 35201, 20132, 20114, 24335, 32456, 31471, 65292, 35831, 22312, 32, 83, 83, 72, 32, 32456, 31471, 20013, 25191, 34892, 12290])
         else if sreq_ServerIDs r = [] then Inl (zh [35831, 36873, 25321, 33267, 23569, 19968, 21488, 26381, 21153, 22120])
         else if \<not> initialized then Inl ''batch command manager is not initialized''
         else Inr (AList.update tid (new_runtime task) m, task))"

definition CancelServer ::
  "int \<Rightarrow> string \<Rightarrow> int \<Rightarrow> batch_tasks \<Rightarrow> string + batch_result" where
  "CancelServer now tid sid m =
     (if tid = [] \<or> sid \<le> 0 then Inl ''batch command taskID and serverID are required''
      else case map_of m tid of
        None \<Rightarrow> Inl ''batch command server task not found''
      | Some current \<Rightarrow>
          (case resultByServer (rt_task current) sid of
             None \<Rightarrow> Inl ''batch command server task not found''
           | Some r \<Rightarrow>
               if \<not> isActiveStatus (res_Status r) then Inr (m, [])
               else Inr (cancelServer now tid sid m)))"

definition CancelTask :: "int \<Rightarrow> string \<Rightarrow> batch_tasks \<Rightarrow> string + batch_result" where
  "CancelTask now tid m =
     (if tid = [] then Inl ''batch command taskID is required''
      else case map_of m tid of
        None \<Rightarrow> Inl ''batch command task not found''
      | Some _ \<Rightarrow> Inr (cancelTask now tid m))"

definition batch_Get :: "string \<Rightarrow> batch_tasks \<Rightarrow> string + BatchCommandTask" where
  "batch_Get tid m =
     (case map_of m (TrimSpace tid) of
        None \<Rightarrow> Inl ''batch command task not found''
      | Some current \<Rightarrow> Inr (rt_task current))"

text \<open>\<open>List\<close> sorts by the text of the creation time, the greatest first.\<close>

definition batch_List :: "batch_tasks \<Rightarrow> BatchCommandTask list" where
  "batch_List m =
     rev (sort_key (\<lambda>t. RFC3339Nano (task_CreatedAt t)) (rev (map (rt_task \<circ> snd) m)))"

definition batch_Clear :: "string \<Rightarrow> batch_tasks \<Rightarrow> string + batch_tasks" where
  "batch_Clear tid m =
     (let tid = TrimSpace tid
      in if tid = [] then Inl ''batch command taskID is required''
         else case map_of m tid of
           None \<Rightarrow> Inr m
         | Some current \<Rightarrow>
             if isActiveStatus (task_Status (rt_task current))
             then Inl (zh [25209, 37327, 21629, 20196, 20173, 22312, 25191, 34892, 65292, 19981, 33021, 28165, 31354])
             else Inr (AList.delete tid m))"

definition has_active_server :: "int \<Rightarrow> taskRuntime \<Rightarrow> bool" where
  "has_active_server sid current =
     (case resultByServer (rt_task current) sid of
        None \<Rightarrow> False | Some r \<Rightarrow> isActiveStatus (res_Status r))"

fun cancel_in_tasks :: "int \<Rightarrow> int \<Rightarrow> string list \<Rightarrow> batch_tasks \<Rightarrow> batch_result" where
  "cancel_in_tasks now sid [] m = (m, [])"
| "cancel_in_tasks now sid (tid # tids) m =
     (case cancelServer now tid sid m of
        (m', evs) \<Rightarrow> (case cancel_in_tasks now sid tids m' of (m'', evs') \<Rightarrow> (m'', evs @ evs')))"

definition batch_StopServer :: "int \<Rightarrow> int \<Rightarrow> batch_tasks \<Rightarrow> batch_result" where
  "batch_StopServer now sid m =
     (if sid \<le> 0 then (m, [])
      else cancel_in_tasks now sid
        (map fst (filter (\<lambda>p. has_active_server sid (snd p)) m)) m)"

fun cancel_tasks :: "int \<Rightarrow> string list \<Rightarrow> batch_tasks \<Rightarrow> batch_result" where
  "cancel_tasks now [] m = (m, [])"
| "cancel_tasks now (tid # tids) m =
     (case cancelTask now tid m of
        (m', evs) \<Rightarrow> (case cancel_tasks now tids m' of (m'', evs') \<Rightarrow> (m'', evs @ evs')))"

definition batch_StopAll :: "int \<Rightarrow> batch_tasks \<Rightarrow> batch_result" where
  "batch_StopAll now m =
     cancel_tasks now
       (map fst (filter (\<lambda>p. isActiveStatus (task_Status (rt_task (snd p)))) m)) m"

definition finishTask :: "int \<Rightarrow> string \<Rightarrow> batch_tasks \<Rightarrow> batch_result" where
  "finishTask now tid m =
     (case map_of m tid of
        None \<Rightarrow> (m, [])
      | Some current \<Rightarrow>
          let status = aggregateStatus (task_Results (rt_task current));
              task = (rt_task current)\<lparr>task_CompletedAt := Some now, task_Status := status\<rparr>
          in (AList.update tid (current\<lparr>rt_task := task, rt_done := True\<rparr>) m,
              [EvCompleted (task_TaskID task) now status task]))"

section \<open>Lemmas on the data\<close>

lemma resultIndex_Some:
  assumes "resultIndex task sid = Some i"
  shows "i < length (task_Results task)" and "res_ServerID (task_Results task ! i) = sid"
proof -
  let ?P = "\<lambda>r. res_ServerID r \<noteq> sid"
  have i: "i = length (takeWhile ?P (task_Results task))" "i < length (task_Results task)"
    using assms by (auto simp: resultIndex_def Let_def split: if_splits)
  then show "i < length (task_Results task)" by simp
  show "res_ServerID (task_Results task ! i) = sid"
    using nth_length_takeWhile [of ?P "task_Results task"] i by simp
qed

lemma resultIndex_None:
  "resultIndex task sid = None \<longleftrightarrow> sid \<notin> res_ServerID ` set (task_Results task)"
proof -
  let ?P = "\<lambda>r. res_ServerID r \<noteq> sid"
  have "length (takeWhile ?P (task_Results task)) = length (task_Results task) \<longleftrightarrow>
      takeWhile ?P (task_Results task) = task_Results task"
    by (metis length_takeWhile_le takeWhile_eq_take take_all order_refl)
  then show ?thesis
    by (auto simp: resultIndex_def Let_def not_less le_antisym length_takeWhile_le
        takeWhile_eq_all_conv dest: order.antisym [OF length_takeWhile_le])
qed

lemma resultByServer_Some:
  "resultByServer task sid = Some r \<Longrightarrow> r \<in> set (task_Results task) \<and> res_ServerID r = sid"
  by (auto simp: resultByServer_def dest: resultIndex_Some)

lemma resultByServer_None:
  "resultByServer task sid = None \<longleftrightarrow> sid \<notin> res_ServerID ` set (task_Results task)"
  by (simp add: resultByServer_def resultIndex_None)

lemma resultByServer_distinct:
  assumes "distinct (map res_ServerID (task_Results task))" "r \<in> set (task_Results task)"
  shows "resultByServer task (res_ServerID r) = Some r"
proof -
  obtain i where i: "resultIndex task (res_ServerID r) = Some i"
    using assms(2) by (cases "resultIndex task (res_ServerID r)") (auto simp: resultIndex_None)
  obtain j where j: "j < length (task_Results task)" "task_Results task ! j = r"
    using assms(2) by (auto simp: in_set_conv_nth)
  have "i = j"
    using assms(1) resultIndex_Some [OF i] j
    by (metis (no_types, lifting) distinct_conv_nth length_map nth_map)
  with i j show ?thesis by (simp add: resultByServer_def)
qed

lemma aggregateStatus_active:
  "isActiveStatus (aggregateStatus results) \<longleftrightarrow> (\<exists>r \<in> set results. isActiveStatus (res_Status r))"
proof (cases "list_ex (\<lambda>r. isActiveStatus (res_Status r)) results")
  case True
  then have "aggregateStatus results = BatchCommandRunning"
    by (auto simp: aggregateStatus_def)
  with True show ?thesis by (auto simp: list_ex_iff isActiveStatus_def)
next
  case False
  then have "\<not> isActiveStatus (aggregateStatus results)"
    by (simp add: aggregateStatus_def isActiveStatus_def)
  with False show ?thesis by (auto simp: list_ex_iff)
qed

lemma count_status_all: "count_status st results = length results \<longleftrightarrow> (\<forall>r \<in> set results. res_Status r = st)"
proof -
  have "length (filter P xs) = length xs \<longleftrightarrow> (\<forall>x \<in> set xs. P x)" for P :: "BatchCommandServerResult \<Rightarrow> bool" and xs
  proof (induction xs)
    case (Cons x xs)
    have "length (filter P xs) \<noteq> Suc (length xs)"
      using length_filter_le [of P xs] by linarith
    with Cons show ?case by auto
  qed simp
  then show ?thesis unfolding count_status_def .
qed

lemma count_status_pos: "count_status st results > 0 \<longleftrightarrow> (\<exists>r \<in> set results. res_Status r = st)"
  by (auto simp: count_status_def filter_empty_conv)

section \<open>What no operation undoes\<close>

text \<open>
  The part of a result that is final once its status is: everything but the name and the
  address of the server, which may arrive later.
\<close>

definition final_part :: "BatchCommandServerResult \<Rightarrow> BatchCommandServerResult" where
  "final_part r = r\<lparr>res_ServerName := [], res_Host := []\<rparr>"

definition result_le :: "BatchCommandServerResult \<Rightarrow> BatchCommandServerResult \<Rightarrow> bool" where
  "result_le r r' \<longleftrightarrow> res_ServerID r' = res_ServerID r \<and>
     (\<not> isActiveStatus (res_Status r) \<longrightarrow> final_part r' = final_part r)"

definition task_le :: "taskRuntime \<Rightarrow> taskRuntime \<Rightarrow> bool" where
  "task_le c c' \<longleftrightarrow>
     list_all2 result_le (task_Results (rt_task c)) (task_Results (rt_task c')) \<and>
     task_ServerIDs (rt_task c') = task_ServerIDs (rt_task c) \<and>
     task_Concurrency (rt_task c') = task_Concurrency (rt_task c) \<and>
     task_TaskID (rt_task c') = task_TaskID (rt_task c) \<and>
     rt_done c' = rt_done c \<and>
     isActiveStatus (task_Status (rt_task c')) = isActiveStatus (task_Status (rt_task c))"

lemma final_part_status: "final_part r' = final_part r \<Longrightarrow> res_Status r' = res_Status r"
  by (drule arg_cong [where f = res_Status]) (simp add: final_part_def)

lemma result_le_refl [simp]: "result_le r r"
  by (simp add: result_le_def)

lemma result_le_trans: "result_le a b \<Longrightarrow> result_le b c \<Longrightarrow> result_le a c"
  unfolding result_le_def using final_part_status by metis

lemma task_le_refl [simp]: "task_le c c"
  by (simp add: task_le_def list_all2_refl)

lemma task_le_trans: "task_le a b \<Longrightarrow> task_le b c \<Longrightarrow> task_le a c"
  unfolding task_le_def by (auto intro: list_all2_trans [OF result_le_trans])

lemma task_le_put:
  assumes "i < length (task_Results (rt_task c))" "result_le (task_Results (rt_task c) ! i) r"
  shows "task_le c (put_result i r c)"
  using assms
  by (simp add: task_le_def put_result_def list_all2_conv_all_nth nth_list_update)

lemma result_le_active: "isActiveStatus (res_Status r) \<Longrightarrow> res_ServerID r' = res_ServerID r \<Longrightarrow> result_le r r'"
  by (simp add: result_le_def)

lemma put_result_sel [simp]:
  "rt_outputs (put_result i r c) = rt_outputs c"
  "rt_cancelled (put_result i r c) = rt_cancelled c"
  "rt_serverCancels (put_result i r c) = rt_serverCancels c"
  "rt_serverCancelled (put_result i r c) = rt_serverCancelled c"
  "rt_sessions (put_result i r c) = rt_sessions c"
  "rt_done (put_result i r c) = rt_done c"
  "task_Results (rt_task (put_result i r c)) = (task_Results (rt_task c))[i := r]"
  "task_ServerIDs (rt_task (put_result i r c)) = task_ServerIDs (rt_task c)"
  "task_Status (rt_task (put_result i r c)) = task_Status (rt_task c)"
  "task_Concurrency (rt_task (put_result i r c)) = task_Concurrency (rt_task c)"
  "task_TaskID (rt_task (put_result i r c)) = task_TaskID (rt_task c)"
  by (simp_all add: put_result_def)

lemma transition_result_le:
  assumes "i < length (task_Results (rt_task c))"
  shows "task_le c (fst (transition_result now st at c i (task_Results (rt_task c) ! i)))"
  using assms
  by (auto simp: transition_result_def Let_def task_le_def list_all2_conv_all_nth
      nth_list_update result_le_def isActiveStatus_def)

lemma finish_result_le:
  assumes "i < length (task_Results (rt_task c))"
  shows "task_le c (fst (finish_result now st code msg c i (task_Results (rt_task c) ! i)))"
  using assms
  by (auto simp: finish_result_def Let_def intro!: task_le_put result_le_active)

lemma append_output_le:
  assumes "i < length (task_Results (rt_task c))"
  shows "task_le c (fst (append_output now sid stream chunk c i (task_Results (rt_task c) ! i)))"
  using assms
  by (auto simp: append_output_def Let_def task_le_def list_all2_conv_all_nth nth_list_update
      result_le_def isActiveStatus_def appendResultOutput_def)

lemma cancel_result_le: "task_le c (fst (cancel_result now sid c))"
proof (cases "resultIndex (rt_task c) sid")
  case (Some i)
  with resultIndex_Some [OF Some] show ?thesis
    by (auto simp: cancel_result_def Let_def intro!: task_le_put result_le_active)
qed (simp add: cancel_result_def)

lemma cancel_context_sel [simp]:
  "rt_task (cancel_context sid c) = rt_task c"
  "rt_outputs (cancel_context sid c) = rt_outputs c"
  "rt_serverCancels (cancel_context sid c) = rt_serverCancels c"
  "rt_done (cancel_context sid c) = rt_done c"
  by (simp_all add: cancel_context_def)

lemma fold_cancel_context_sel [simp]:
  "rt_task (fold cancel_context sids c) = rt_task c"
  "rt_outputs (fold cancel_context sids c) = rt_outputs c"
  "rt_done (fold cancel_context sids c) = rt_done c"
  by (induction sids arbitrary: c) auto

lemma task_le_context [simp]:
  "rt_task c' = rt_task c \<Longrightarrow> rt_done c' = rt_done c \<Longrightarrow> task_le c c'"
  by (simp add: task_le_def list_all2_refl)

section \<open>The bound on collected output\<close>

definition out_state :: "taskRuntime \<Rightarrow> int \<Rightarrow> outputState" where
  "out_state c sid =
     (case rt_outputs c sid of
        None \<Rightarrow> \<lparr>out_bytes = 0, out_lines = 0, out_truncated = False\<rparr> | Some st \<Rightarrow> st)"

definition output_size :: "BatchCommandServerResult \<Rightarrow> nat" where
  "output_size r = length (res_Stdout r) + length (res_Stderr r)"

definition notice_size :: nat where
  "notice_size = length outputTruncatedNotice + 1"

definition result_out_ok :: "outputState \<Rightarrow> BatchCommandServerResult \<Rightarrow> bool" where
  "result_out_ok st r \<longleftrightarrow>
     output_size r = out_bytes st + (if out_truncated st then notice_size else 0) \<and>
     out_bytes st \<le> outputLimitBytes \<and> out_lines st \<le> outputLimitLines \<and>
     res_OutputTruncated r = out_truncated st"

definition out_ok :: "taskRuntime \<Rightarrow> bool" where
  "out_ok c \<longleftrightarrow> (\<forall>r \<in> set (task_Results (rt_task c)). result_out_ok (out_state c (res_ServerID r)) r)"

definition same_output :: "BatchCommandServerResult \<Rightarrow> BatchCommandServerResult \<Rightarrow> bool" where
  "same_output r r' \<longleftrightarrow> res_ServerID r' = res_ServerID r \<and> res_Stdout r' = res_Stdout r \<and>
     res_Stderr r' = res_Stderr r \<and> res_OutputTruncated r' = res_OutputTruncated r"

lemma out_ok_put:
  assumes "out_ok c" "i < length (task_Results (rt_task c))"
    and "same_output (task_Results (rt_task c) ! i) r'"
    and "rt_outputs c' = rt_outputs c"
    and "task_Results (rt_task c') = (task_Results (rt_task c))[i := r']"
  shows "out_ok c'"
proof -
  have "result_out_ok (out_state c (res_ServerID r')) r'"
    using assms(1-3) by (auto simp: out_ok_def result_out_ok_def output_size_def same_output_def)
  then show ?thesis
    using assms by (auto simp: out_ok_def out_state_def dest!: set_update_subset_insert [THEN subsetD])
qed

lemma output_size_append [simp]:
  "output_size (appendResultOutput stream chunk r) = output_size r + length chunk"
  "res_OutputTruncated (appendResultOutput stream chunk r) = res_OutputTruncated r"
  "res_ServerID (appendResultOutput stream chunk r) = res_ServerID r"
  "output_size (r\<lparr>res_OutputTruncated := b\<rparr>) = output_size r"
  by (simp_all add: output_size_def appendResultOutput_def)

lemma out_ok_update:
  assumes ok: "out_ok c" and dist: "distinct (map res_ServerID (task_Results (rt_task c)))"
    and i: "i < length (task_Results (rt_task c))"
    and sid: "res_ServerID (task_Results (rt_task c) ! i) = sid"
    and r': "res_ServerID r' = sid" "result_out_ok st r'"
    and c': "rt_outputs c' = (rt_outputs c)(sid \<mapsto> st)"
      "task_Results (rt_task c') = (task_Results (rt_task c))[i := r']"
  shows "out_ok c'"
  unfolding out_ok_def
proof
  fix r assume "r \<in> set (task_Results (rt_task c'))"
  then obtain j where j: "j < length (task_Results (rt_task c))"
      "r = (task_Results (rt_task c))[i := r'] ! j"
    using c'(2) by (auto simp: in_set_conv_nth)
  show "result_out_ok (out_state c' (res_ServerID r)) r"
  proof (cases "j = i")
    case True
    with j r' c'(1) show ?thesis by (simp add: out_state_def)
  next
    case False
    then have r: "r = task_Results (rt_task c) ! j" using j by simp
    have "res_ServerID r \<noteq> sid"
      using dist i j(1) False sid r by (auto simp: distinct_conv_nth)
    then have "out_state c' (res_ServerID r) = out_state c (res_ServerID r)"
      using c'(1) by (simp add: out_state_def)
    with ok r j(1) show ?thesis by (simp add: out_ok_def)
  qed
qed

lemma append_output_out_ok:
  assumes ok: "out_ok c" and dist: "distinct (map res_ServerID (task_Results (rt_task c)))"
    and i: "i < length (task_Results (rt_task c))"
    and sid: "res_ServerID (task_Results (rt_task c) ! i) = sid"
  shows "out_ok (fst (append_output now sid stream chunk c i (task_Results (rt_task c) ! i)))"
proof -
  let ?r = "task_Results (rt_task c) ! i"
  define st where "st = out_state c sid"
  have r: "result_out_ok st ?r"
    using ok nth_mem [OF i] sid unfolding out_ok_def st_def by blast
  have upd: "out_ok (put_result i r' (c\<lparr>rt_outputs := (rt_outputs c)(sid \<mapsto> st')\<rparr>))"
    if "res_ServerID r' = sid" "result_out_ok st' r'" for r' st'
    by (rule out_ok_update [OF ok dist i sid that]) simp_all
  have same: "out_ok (c\<lparr>rt_outputs := (rt_outputs c)(sid \<mapsto> st)\<rparr>)"
    by (rule out_ok_update [OF ok dist i sid sid r]) simp_all
  have st: "(case rt_outputs c sid of
      None \<Rightarrow> \<lparr>out_bytes = 0, out_lines = 0, out_truncated = False\<rparr> | Some st \<Rightarrow> st) = st"
    by (simp add: st_def out_state_def)
  let ?full = "out_bytes st + length chunk > outputLimitBytes \<or>
    out_lines st + chunk_lines chunk > outputLimitLines"
  consider "res_Status ?r \<noteq> BatchCommandRunning \<or> out_truncated st"
    | "res_Status ?r = BatchCommandRunning" "\<not> out_truncated st" "?full"
    | "res_Status ?r = BatchCommandRunning" "\<not> out_truncated st" "\<not> ?full" by blast
  then show ?thesis
  proof cases
    case 1
    then show ?thesis unfolding append_output_def Let_def st using ok same by simp
  next
    case 2
    have "out_ok (put_result i
        (appendResultOutput stream (outputTruncatedNotice @ [CHR 0x0A]) (?r\<lparr>res_OutputTruncated := True\<rparr>))
        (c\<lparr>rt_outputs := (rt_outputs c)(sid \<mapsto> st\<lparr>out_truncated := True\<rparr>)\<rparr>))"
      by (rule upd) (use r sid 2 in \<open>simp_all add: result_out_ok_def notice_size_def\<close>)
    with 2 show ?thesis unfolding append_output_def Let_def st by simp
  next
    case 3
    have "out_ok (put_result i (appendResultOutput stream chunk ?r)
        (c\<lparr>rt_outputs := (rt_outputs c)(sid \<mapsto> st\<lparr>out_bytes := out_bytes st + length chunk,
           out_lines := out_lines st + chunk_lines chunk\<rparr>)\<rparr>))"
      by (rule upd) (use r sid 3 in \<open>simp_all add: result_out_ok_def\<close>)
    with 3 show ?thesis unfolding append_output_def Let_def st by simp
  qed
qed

end
