(* ===== verification/BatchRun.thy ===== *)
theory BatchRun
  imports BatchCommand
begin

text \<open>
  Package \<open>internal/batchcommand\<close>, the goroutines: \<open>runTask\<close> starts one \<open>runServer\<close> per server,
  at most \<open>Concurrency\<close> of them past the semaphore. A goroutine is a program counter in
  \<open>runServer\<close> and \<open>collectCommand\<close>; the world answers each of its calls (dial, authenticate,
  start, output, exit). Between two steps anything else may happen: other goroutines, a
  cancellation, the deadline, a stop of the server. The development's \<open>batch_step\<close> takes one such
  step, and its runs are all the interleavings.
\<close>

section \<open>Goroutines\<close>

text \<open>Each value is the place of \<open>runServer\<close> the goroutine will execute next.\<close>

datatype batch_pc =
    PcSetCancel | PcAcquire | PcConnecting | PcGetConn | PcAuth | PcDial | PcCommit | PcRunning
  | PcStartCommand | PcCollect | PcDone

text \<open>
  The local variables that survive a step: the permit of the semaphore, whether the command's
  context ended by its deadline, the connection, and in \<open>collectCommand\<close> whether the output
  channel is open and the exit of the command if it is known (\<open>None\<close>: still waiting).
\<close>

record server_run =
  run_pc :: batch_pc
  run_permit :: bool
  run_deadline :: bool
  run_conn :: "Connection option"
  run_outputOpen :: bool
  run_exit :: "(int option) option"

definition new_run :: server_run where
  "new_run =
     \<lparr>run_pc = PcSetCancel, run_permit = False, run_deadline = False, run_conn = None,
      run_outputOpen = True, run_exit = None\<rparr>"

record batch_world =
  bw_tasks :: batch_tasks
  bw_runs :: "string \<Rightarrow> (int \<Rightarrow> server_run option) option"

text \<open>What the world answers a goroutine. An exit is \<open>None\<close> for success or the exit code.\<close>

datatype batch_answer =
    AnsNone
  | AnsConn "Connection option"
  | AnsError "goerr option"
  | AnsCommit bool
  | AnsSession bool
  | AnsChunk string string
  | AnsOutputClosed
  | AnsExit "int option"
  | AnsContextDone

definition get_run :: "string \<Rightarrow> int \<Rightarrow> batch_world \<Rightarrow> server_run option" where
  "get_run tid sid w = (case bw_runs w tid of None \<Rightarrow> None | Some rs \<Rightarrow> rs sid)"

definition put_run :: "string \<Rightarrow> int \<Rightarrow> server_run \<Rightarrow> batch_world \<Rightarrow> batch_world" where
  "put_run tid sid run w =
     w\<lparr>bw_runs := (bw_runs w)(tid := map_option (\<lambda>rs. rs(sid \<mapsto> run)) (bw_runs w tid))\<rparr>"

text \<open>\<open>serverCtx.Err() != nil\<close>: the server's or the task's context was cancelled.\<close>

definition server_ctx_done :: "string \<Rightarrow> int \<Rightarrow> batch_world \<Rightarrow> bool" where
  "server_ctx_done tid sid w =
     (case map_of (bw_tasks w) tid of
        None \<Rightarrow> False | Some c \<Rightarrow> rt_cancelled c \<or> rt_serverCancelled c sid)"

type_synonym world_result = "batch_world \<times> batch_event list"

definition with_tasks :: "batch_world \<Rightarrow> batch_result \<Rightarrow> world_result" where
  "with_tasks w r = (w\<lparr>bw_tasks := fst r\<rparr>, snd r)"

text \<open>The return of \<open>runServer\<close> with its deferred calls: the permit goes back, the context ends.\<close>

definition leave_run ::
  "string \<Rightarrow> int \<Rightarrow> server_run \<Rightarrow> batch_world \<Rightarrow> batch_world" where
  "leave_run tid sid run w =
     put_run tid sid (run\<lparr>run_pc := PcDone, run_permit := False\<rparr>)
       (w\<lparr>bw_tasks := clearServerRuntime tid sid (bw_tasks w)\<rparr>)"

text \<open>\<open>finishServer\<close>, the error event when there is one, and the return.\<close>

definition end_run ::
  "int \<Rightarrow> string \<Rightarrow> int \<Rightarrow> server_run \<Rightarrow> BatchCommandStatus \<Rightarrow> int \<Rightarrow> string \<Rightarrow> (string \<times> string) option
     \<Rightarrow> batch_world \<Rightarrow> world_result" where
  "end_run now tid sid run status exitCode message err w =
     (case finishServer now tid sid status exitCode message (bw_tasks w) of
        (m, evs) \<Rightarrow>
          (leave_run tid sid run (w\<lparr>bw_tasks := m\<rparr>),
           evs @ (case err of None \<Rightarrow> [] | Some (code, text) \<Rightarrow> [EvError tid sid now code text])))"

definition end_canceled :: "int \<Rightarrow> string \<Rightarrow> int \<Rightarrow> server_run \<Rightarrow> batch_world \<Rightarrow> world_result" where
  "end_canceled now tid sid run w = end_run now tid sid run BatchCommandCanceled (-1) [] None w"

definition msg_batch_timeout :: string where
  "msg_batch_timeout = zh [25209, 37327, 21629, 20196, 25191, 34892, 36229, 26102]"

definition end_timeout :: "int \<Rightarrow> string \<Rightarrow> int \<Rightarrow> server_run \<Rightarrow> batch_world \<Rightarrow> world_result" where
  "end_timeout now tid sid run w =
     end_run now tid sid run BatchCommandTimeout (-1) msg_batch_timeout
       (Some (''BATCH_COMMAND_TIMEOUT'', msg_batch_timeout)) w"

definition end_failed ::
  "int \<Rightarrow> string \<Rightarrow> int \<Rightarrow> server_run \<Rightarrow> int \<Rightarrow> string \<Rightarrow> string \<Rightarrow> batch_world \<Rightarrow> world_result" where
  "end_failed now tid sid run exitCode code message w =
     end_run now tid sid run BatchCommandFailed exitCode message (Some (code, message)) w"

section \<open>The steps of runServer\<close>

definition permits_used :: "string \<Rightarrow> int list \<Rightarrow> batch_world \<Rightarrow> nat" where
  "permits_used tid sids w =
     length (filter (\<lambda>sid. case get_run tid sid w of
                             None \<Rightarrow> False | Some run \<Rightarrow> run_permit run) sids)"

definition goto :: "batch_pc \<Rightarrow> server_run \<Rightarrow> server_run" where
  "goto pc run = run\<lparr>run_pc := pc\<rparr>"

definition run_acquire ::
  "int \<Rightarrow> string \<Rightarrow> int \<Rightarrow> server_run \<Rightarrow> batch_answer \<Rightarrow> batch_world \<Rightarrow> world_result" where
  "run_acquire now tid sid run ans w =
     (case map_of (bw_tasks w) tid of
        None \<Rightarrow> (w, [])
      | Some c \<Rightarrow>
          if ans = AnsContextDone then
            (if server_ctx_done tid sid w then end_canceled now tid sid run w else (w, []))
          else if int (permits_used tid (task_ServerIDs (rt_task c)) w)
                    < task_Concurrency (rt_task c)
            then (put_run tid sid (run\<lparr>run_permit := True, run_pc := PcConnecting\<rparr>) w, [])
          else (w, []))"

definition run_transition ::
  "int \<Rightarrow> string \<Rightarrow> int \<Rightarrow> server_run \<Rightarrow> BatchCommandStatus \<Rightarrow> int option \<Rightarrow> batch_pc \<Rightarrow> batch_world
     \<Rightarrow> world_result" where
  "run_transition now tid sid run status startedAt next_pc w =
     (if \<not> server_active tid sid (bw_tasks w) then (leave_run tid sid run w, [])
      else with_tasks (put_run tid sid (goto next_pc run) w)
             (transitionServer now tid sid status startedAt (bw_tasks w)))"

definition run_get_conn ::
  "int \<Rightarrow> string \<Rightarrow> int \<Rightarrow> server_run \<Rightarrow> Connection option \<Rightarrow> batch_world \<Rightarrow> world_result" where
  "run_get_conn now tid sid run conn w =
     (case conn of
        None \<Rightarrow>
          if server_ctx_done tid sid w then end_canceled now tid sid run w
          else end_failed now tid sid run (-1) ''BATCH_COMMAND_CONNECTION_NOT_FOUND''
                 (zh [35835, 21462, 26381, 21153, 22120, 37197, 32622, 22833, 36133]) w
      | Some connection \<Rightarrow>
          with_tasks (put_run tid sid (run\<lparr>run_conn := Some connection, run_pc := PcAuth\<rparr>) w)
            (setServerIdentity now tid sid connection (bw_tasks w)))"

definition end_classified ::
  "platform_errno \<Rightarrow> int \<Rightarrow> string \<Rightarrow> int \<Rightarrow> server_run \<Rightarrow> goerr \<Rightarrow> string \<Rightarrow> batch_world
     \<Rightarrow> world_result" where
  "end_classified pf now tid sid run err operation w =
     (case run_conn run of
        None \<Rightarrow> (w, [])
      | Some connection \<Rightarrow>
          let c = Classify pf (Some err) connection operation (RFC3339Nano now)
          in end_failed now tid sid run (-1) (ce_Code c) (ce_UserMessage c) w)"

definition run_auth ::
  "platform_errno \<Rightarrow> int \<Rightarrow> string \<Rightarrow> int \<Rightarrow> server_run \<Rightarrow> goerr option \<Rightarrow> batch_world
     \<Rightarrow> world_result" where
  "run_auth pf now tid sid run err w =
     (case err of
        None \<Rightarrow> (put_run tid sid (goto PcDial run) w, [])
      | Some e \<Rightarrow>
          if server_ctx_done tid sid w then end_canceled now tid sid run w
          else end_classified pf now tid sid run e ''batchcommand.credential'' w)"

definition run_dial ::
  "platform_errno \<Rightarrow> int \<Rightarrow> string \<Rightarrow> int \<Rightarrow> server_run \<Rightarrow> goerr option \<Rightarrow> batch_world
     \<Rightarrow> world_result" where
  "run_dial pf now tid sid run err w =
     (case err of
        None \<Rightarrow> (put_run tid sid (goto PcCommit run) w, [])
      | Some e \<Rightarrow>
          if server_ctx_done tid sid w then end_canceled now tid sid run w
          else if run_deadline run then end_timeout now tid sid run w
          else end_classified pf now tid sid run e ''batchcommand.connect'' w)"

definition run_commit ::
  "int \<Rightarrow> string \<Rightarrow> int \<Rightarrow> server_run \<Rightarrow> bool \<Rightarrow> batch_world \<Rightarrow> world_result" where
  "run_commit now tid sid run ok w =
     (if ok then (put_run tid sid (goto PcRunning run) w, [])
      else end_failed now tid sid run (-1) ''BATCH_COMMAND_CREDENTIAL_SAVE_FAILED''
             (zh [26080, 27861, 20445, 23384, 32, 83, 83, 72, 32, 20973, 25454]) w)"

definition run_start_command ::
  "int \<Rightarrow> string \<Rightarrow> int \<Rightarrow> server_run \<Rightarrow> bool \<Rightarrow> batch_world \<Rightarrow> world_result" where
  "run_start_command now tid sid run ok w =
     (if ok then (put_run tid sid (goto PcCollect run)
                    (w\<lparr>bw_tasks := setSession tid sid (bw_tasks w)\<rparr>), [])
      else if server_ctx_done tid sid w then end_canceled now tid sid run w
      else if run_deadline run then end_timeout now tid sid run w
      else end_failed now tid sid run (-1) ''BATCH_COMMAND_START_FAILED''
             (zh [25209, 37327, 21629, 20196, 21551, 21160, 22833, 36133]) w)"

text \<open>After the loop of \<open>collectCommand\<close>: the output is closed and the command has ended.\<close>

definition collect_end ::
  "int \<Rightarrow> string \<Rightarrow> int \<Rightarrow> server_run \<Rightarrow> int option \<Rightarrow> batch_world \<Rightarrow> world_result" where
  "collect_end now tid sid run code w =
     (if server_ctx_done tid sid w then end_canceled now tid sid run w
      else if run_deadline run then end_timeout now tid sid run w
      else case code of
        Some exitCode \<Rightarrow>
          end_failed now tid sid run exitCode ''BATCH_COMMAND_FAILED'' (zh [25209, 37327, 21629, 20196, 25191, 34892, 22833, 36133]) w
      | None \<Rightarrow> end_run now tid sid run BatchCommandCompleted 0 [] None w)"

definition collect_check ::
  "int \<Rightarrow> string \<Rightarrow> int \<Rightarrow> server_run \<Rightarrow> batch_world \<Rightarrow> world_result" where
  "collect_check now tid sid run w =
     (case run_exit run of
        Some code \<Rightarrow>
          if \<not> run_outputOpen run then collect_end now tid sid run code w
          else (put_run tid sid run w, [])
      | None \<Rightarrow> (put_run tid sid run w, []))"

definition run_collect ::
  "int \<Rightarrow> string \<Rightarrow> int \<Rightarrow> server_run \<Rightarrow> batch_answer \<Rightarrow> batch_world \<Rightarrow> world_result" where
  "run_collect now tid sid run ans w =
     (case ans of
        AnsContextDone \<Rightarrow>
          let w' = w\<lparr>bw_tasks := closeSession tid sid (bw_tasks w)\<rparr>
          in if run_deadline run \<and> \<not> server_ctx_done tid sid w then end_timeout now tid sid run w'
             else if server_ctx_done tid sid w then end_canceled now tid sid run w'
             else (w, [])
      | AnsChunk stream chunk \<Rightarrow>
          if run_outputOpen run
          then with_tasks w (appendOutput now tid sid stream chunk (bw_tasks w)) else (w, [])
      | AnsOutputClosed \<Rightarrow> collect_check now tid sid (run\<lparr>run_outputOpen := False\<rparr>) w
      | AnsExit code \<Rightarrow>
          if run_exit run = None
          then collect_check now tid sid (run\<lparr>run_exit := Some code\<rparr>) w else (w, [])
      | _ \<Rightarrow> (w, []))"

fun run_step ::
  "platform_errno \<Rightarrow> int \<Rightarrow> string \<Rightarrow> int \<Rightarrow> server_run \<Rightarrow> batch_answer \<Rightarrow> batch_world
     \<Rightarrow> world_result" where
  "run_step pf now tid sid run ans w =
     (case run_pc run of
        PcSetCancel \<Rightarrow>
          (put_run tid sid (goto PcAcquire run)
             (w\<lparr>bw_tasks := setServerCancel tid sid (bw_tasks w)\<rparr>), [])
      | PcAcquire \<Rightarrow> run_acquire now tid sid run ans w
      | PcConnecting \<Rightarrow>
          run_transition now tid sid run BatchCommandConnecting (Some now) PcGetConn w
      | PcGetConn \<Rightarrow> (case ans of AnsConn conn \<Rightarrow> run_get_conn now tid sid run conn w | _ \<Rightarrow> (w, []))
      | PcAuth \<Rightarrow> (case ans of AnsError e \<Rightarrow> run_auth pf now tid sid run e w | _ \<Rightarrow> (w, []))
      | PcDial \<Rightarrow> (case ans of AnsError e \<Rightarrow> run_dial pf now tid sid run e w | _ \<Rightarrow> (w, []))
      | PcCommit \<Rightarrow> (case ans of AnsCommit ok \<Rightarrow> run_commit now tid sid run ok w | _ \<Rightarrow> (w, []))
      | PcRunning \<Rightarrow> run_transition now tid sid run BatchCommandRunning None PcStartCommand w
      | PcStartCommand \<Rightarrow>
          (case ans of AnsSession ok \<Rightarrow> run_start_command now tid sid run ok w | _ \<Rightarrow> (w, []))
      | PcCollect \<Rightarrow> run_collect now tid sid run ans w
      | PcDone \<Rightarrow> (w, []))"

section \<open>The steps of the manager\<close>

datatype batch_label =
    LStart string StartBatchCommandRequest
  | LRun string int batch_answer
  | LDeadline string int
  | LFinish string
  | LCancelServer string int
  | LCancelTask string
  | LClear string
  | LStopServer int
  | LStopAll

definition batch_start_world ::
  "int \<Rightarrow> string \<Rightarrow> StartBatchCommandRequest \<Rightarrow> batch_world \<Rightarrow> batch_world" where
  "batch_start_world now tid request w =
     (if bw_runs w tid \<noteq> None then w
      else case batch_Start True now tid request (bw_tasks w) of
        Inl _ \<Rightarrow> w
      | Inr (m, task) \<Rightarrow>
          w\<lparr>bw_tasks := m,
            bw_runs := (bw_runs w)(tid \<mapsto>
              (\<lambda>sid. if sid \<in> set (task_ServerIDs task) then Some new_run else None))\<rparr>)"

text \<open>The deadline can end the command's context only while it exists and lives.\<close>

definition hit_deadline :: "string \<Rightarrow> int \<Rightarrow> batch_world \<Rightarrow> batch_world" where
  "hit_deadline tid sid w =
     (case get_run tid sid w of
        None \<Rightarrow> w
      | Some run \<Rightarrow>
          if run_pc run \<notin> {PcSetCancel, PcAcquire, PcConnecting, PcDone}
             \<and> \<not> server_ctx_done tid sid w
          then put_run tid sid (run\<lparr>run_deadline := True\<rparr>) w else w)"

definition runs_done :: "string \<Rightarrow> int list \<Rightarrow> batch_world \<Rightarrow> bool" where
  "runs_done tid sids w =
     list_all (\<lambda>sid. case get_run tid sid w of
                       None \<Rightarrow> False | Some run \<Rightarrow> run_pc run = PcDone) sids"

text \<open>\<open>runTask\<close> waits for its goroutines and finishes the task once.\<close>

definition finish_world :: "int \<Rightarrow> string \<Rightarrow> batch_world \<Rightarrow> world_result" where
  "finish_world now tid w =
     (case map_of (bw_tasks w) tid of
        None \<Rightarrow> (w, [])
      | Some c \<Rightarrow>
          if \<not> rt_done c \<and> runs_done tid (task_ServerIDs (rt_task c)) w
          then with_tasks w (finishTask now tid (bw_tasks w)) else (w, []))"

definition or_same :: "batch_world \<Rightarrow> string + batch_result \<Rightarrow> world_result" where
  "or_same w r = (case r of Inl _ \<Rightarrow> (w, []) | Inr res \<Rightarrow> with_tasks w res)"

fun batch_step ::
  "platform_errno \<Rightarrow> int \<Rightarrow> batch_label \<Rightarrow> batch_world \<Rightarrow> world_result" where
  "batch_step pf now (LStart tid request) w = (batch_start_world now tid request w, [])"
| "batch_step pf now (LRun tid sid ans) w =
     (case get_run tid sid w of
        None \<Rightarrow> (w, []) | Some run \<Rightarrow> run_step pf now tid sid run ans w)"
| "batch_step pf now (LDeadline tid sid) w = (hit_deadline tid sid w, [])"
| "batch_step pf now (LFinish tid) w = finish_world now tid w"
| "batch_step pf now (LCancelServer tid sid) w =
     or_same w (CancelServer now tid sid (bw_tasks w))"
| "batch_step pf now (LCancelTask tid) w = or_same w (CancelTask now tid (bw_tasks w))"
| "batch_step pf now (LClear tid) w =
     or_same w (case batch_Clear tid (bw_tasks w) of Inl e \<Rightarrow> Inl e | Inr m \<Rightarrow> Inr (m, []))"
| "batch_step pf now (LStopServer sid) w = with_tasks w (batch_StopServer now sid (bw_tasks w))"
| "batch_step pf now LStopAll w = with_tasks w (batch_StopAll now (bw_tasks w))"

definition batch_next ::
  "platform_errno \<Rightarrow> batch_world \<Rightarrow> int \<times> batch_label \<Rightarrow> batch_world" where
  "batch_next pf w x = fst (batch_step pf (fst x) (snd x) w)"

definition batch_run :: "platform_errno \<Rightarrow> batch_world \<Rightarrow> (int \<times> batch_label) list \<Rightarrow> batch_world" where
  "batch_run pf w xs = foldl (batch_next pf) w xs"

definition no_batches :: batch_world where
  "no_batches = \<lparr>bw_tasks = [], bw_runs = (\<lambda>_. None)\<rparr>"

section \<open>How the tasks evolve\<close>

text \<open>
  What every operation does to the tasks it finds: no final result changes, the servers stay
  the same, and the bound on the output is kept.
\<close>

definition server_ids :: "taskRuntime \<Rightarrow> int list" where
  "server_ids c = map res_ServerID (task_Results (rt_task c))"

definition task_evolves :: "taskRuntime \<Rightarrow> taskRuntime \<Rightarrow> bool" where
  "task_evolves c c' \<longleftrightarrow> task_le c c' \<and> (distinct (server_ids c) \<and> out_ok c \<longrightarrow> out_ok c')"

definition tasks_evolve :: "batch_tasks \<Rightarrow> batch_tasks \<Rightarrow> bool" where
  "tasks_evolve m m' \<longleftrightarrow> (gomap_ok m \<longrightarrow> gomap_ok m') \<and>
     (\<forall>tid. rel_option task_evolves (map_of m tid) (map_of m' tid))"

lemma task_le_server_ids: "task_le c c' \<Longrightarrow> server_ids c' = server_ids c"
  unfolding task_le_def server_ids_def
  by (auto simp: list_all2_conv_all_nth result_le_def intro: nth_equalityI)

lemma task_evolves_refl [simp]: "task_evolves c c"
  by (simp add: task_evolves_def)

lemma task_evolves_trans: "task_evolves a b \<Longrightarrow> task_evolves b c \<Longrightarrow> task_evolves a c"
  unfolding task_evolves_def using task_le_trans task_le_server_ids by metis

lemma tasks_evolve_refl [simp]: "tasks_evolve m m"
  by (simp add: tasks_evolve_def option.rel_refl)

lemma tasks_evolve_trans: "tasks_evolve a b \<Longrightarrow> tasks_evolve b c \<Longrightarrow> tasks_evolve a c"
  unfolding tasks_evolve_def
  using option.rel_transp [of task_evolves] task_evolves_trans
  by (metis (mono_tags, lifting) transpD transpI)

lemma tasks_evolve_update:
  "map_of m tid = Some c \<Longrightarrow> task_evolves c c' \<Longrightarrow> tasks_evolve m (AList.update tid c' m)"
  by (auto simp: tasks_evolve_def gomap_simps option.rel_refl)

lemma on_result_evolves:
  assumes "\<And>c i. i < length (task_Results (rt_task c)) \<Longrightarrow>
      res_ServerID (task_Results (rt_task c) ! i) = sid \<Longrightarrow>
      task_evolves c (fst (f c i (task_Results (rt_task c) ! i)))"
  shows "tasks_evolve m (fst (on_result tid sid f m))"
proof (cases "map_of m tid")
  case (Some c)
  show ?thesis
  proof (cases "resultIndex (rt_task c) sid")
    case (Some i)
    from assms [OF resultIndex_Some [OF Some]] \<open>map_of m tid = Some c\<close> Some show ?thesis
      by (auto simp: on_result_def intro: tasks_evolve_update split: prod.splits)
  qed (use Some in \<open>simp add: on_result_def\<close>)
qed (simp add: on_result_def)

lemma on_task_evolves:
  assumes "\<And>c. rt_task (f c) = rt_task c \<and> rt_done (f c) = rt_done c \<and> rt_outputs (f c) = rt_outputs c"
  shows "tasks_evolve m (on_task tid f m)"
proof (cases "map_of m tid")
  case (Some c)
  have "task_evolves c (f c)"
    using assms [of c] by (simp add: task_evolves_def out_ok_def out_state_def)
  with Some show ?thesis by (simp add: on_task_def tasks_evolve_update)
qed (simp add: on_task_def)

lemma session_ops_evolve [simp]:
  "tasks_evolve m (setServerCancel tid sid m)"
  "tasks_evolve m (setSession tid sid m)"
  "tasks_evolve m (closeSession tid sid m)"
  "tasks_evolve m (clearServerRuntime tid sid m)"
  unfolding setServerCancel_def setSession_def closeSession_def clearServerRuntime_def
  by (rule on_task_evolves; simp)+

lemma out_ok_put_result:
  "out_ok c \<Longrightarrow> i < length (task_Results (rt_task c)) \<Longrightarrow>
     same_output (task_Results (rt_task c) ! i) r' \<Longrightarrow> out_ok (put_result i r' c)"
  by (rule out_ok_put [of c i r']) simp_all

lemma out_ok_started [simp]:
  "out_ok (c\<lparr>rt_task := (rt_task c)\<lparr>task_Status := a, task_StartedAt := b\<rparr>\<rparr>) = out_ok c"
  by (simp add: out_ok_def out_state_def)

lemma transitionServer_evolves [simp]:
  "tasks_evolve m (fst (transitionServer now tid sid st at m))"
  unfolding transitionServer_def
proof (rule on_result_evolves)
  fix c :: taskRuntime and i
  assume i: "i < length (task_Results (rt_task c))"
  have "out_ok c \<longrightarrow> out_ok (fst (transition_result now st at c i (task_Results (rt_task c) ! i)))"
    unfolding transition_result_def Let_def
    by (auto intro!: out_ok_put_result simp: same_output_def i)
  with transition_result_le [OF i]
  show "task_evolves c (fst (transition_result now st at c i (task_Results (rt_task c) ! i)))"
    by (simp add: task_evolves_def)
qed

lemma finishServer_evolves [simp]:
  "tasks_evolve m (fst (finishServer now tid sid st code msg m))"
  unfolding finishServer_def
proof (rule on_result_evolves)
  fix c :: taskRuntime and i
  assume i: "i < length (task_Results (rt_task c))"
  have "out_ok c \<longrightarrow> out_ok (fst (finish_result now st code msg c i (task_Results (rt_task c) ! i)))"
    unfolding finish_result_def Let_def
    by (auto intro!: out_ok_put_result simp: same_output_def i)
  with finish_result_le [OF i]
  show "task_evolves c (fst (finish_result now st code msg c i (task_Results (rt_task c) ! i)))"
    by (simp add: task_evolves_def)
qed


lemma setServerIdentity_evolves [simp]:
  "tasks_evolve m (fst (setServerIdentity now tid sid conn m))"
  unfolding setServerIdentity_def Let_def
proof (rule on_result_evolves)
  fix c :: taskRuntime and i
  assume i: "i < length (task_Results (rt_task c))"
  let ?r = "task_Results (rt_task c) ! i"
  let ?r' = "?r\<lparr>res_ServerName := conn_Name conn,
    res_Host := conn_Host conn @ '':'' @ Itoa (conn_Port conn)\<rparr>"
  have "task_le c (put_result i ?r' c)"
    by (rule task_le_put [OF i]) (simp add: result_le_def final_part_def)
  moreover have "out_ok c \<longrightarrow> out_ok (put_result i ?r' c)"
    by (auto intro!: out_ok_put_result simp: same_output_def i)
  ultimately show "task_evolves c (fst (put_result i ?r' c,
      [EvState (task_TaskID (rt_task c)) sid now (res_Status ?r') ?r']))"
    by (simp add: task_evolves_def)
qed

lemma appendOutput_evolves [simp]:
  "tasks_evolve m (fst (appendOutput now tid sid stream chunk m))"
proof (cases "chunk = []")
  case False
  have "tasks_evolve m (fst (on_result tid sid (append_output now sid stream chunk) m))"
    by (rule on_result_evolves)
      (simp add: task_evolves_def append_output_le append_output_out_ok server_ids_def)
  with False show ?thesis by (simp add: appendOutput_def)
qed (simp add: appendOutput_def)

lemma cancel_result_evolves: "task_evolves c (fst (cancel_result now sid c))"
proof (cases "resultIndex (rt_task c) sid")
  case (Some i)
  have "out_ok c \<longrightarrow> out_ok (fst (cancel_result now sid c))"
    unfolding cancel_result_def Let_def Some
    by (auto intro!: out_ok_put_result simp: same_output_def resultIndex_Some [OF Some])
  with cancel_result_le show ?thesis by (simp add: task_evolves_def)
qed (simp add: cancel_result_def)

lemma task_evolves_same:
  "rt_task c' = rt_task c \<Longrightarrow> rt_done c' = rt_done c \<Longrightarrow> rt_outputs c' = rt_outputs c \<Longrightarrow> task_evolves c c'"
  by (simp add: task_evolves_def out_ok_def out_state_def)

lemma cancelServer_evolves [simp]: "tasks_evolve m (fst (cancelServer now tid sid m))"
proof (cases "map_of m tid")
  case (Some c)
  have "task_evolves c (cancel_context sid (fst (cancel_result now sid c)))"
    by (rule task_evolves_trans [OF cancel_result_evolves]) (rule task_evolves_same; simp)
  with Some show ?thesis
    by (auto simp: cancelServer_def intro: tasks_evolve_update split: prod.splits)
qed (simp add: cancelServer_def)

lemma cancelServers_evolves [simp]: "tasks_evolve m (fst (cancelServers now tid sids m))"
proof (induction sids arbitrary: m)
  case (Cons sid sids)
  have "tasks_evolve m (fst (cancelServer now tid sid m))" by simp
  from tasks_evolve_trans [OF this Cons.IH] show ?case
    by (simp add: split_def)
qed simp

lemma cancelTask_evolves [simp]: "tasks_evolve m (fst (cancelTask now tid m))"
proof (cases "map_of m tid")
  case (Some c)
  have "tasks_evolve m (AList.update tid
      (fold cancel_context (rt_serverCancels c) (c\<lparr>rt_cancelled := True\<rparr>)) m)"
    by (rule tasks_evolve_update [OF Some]) (rule task_evolves_same; simp)
  from tasks_evolve_trans [OF this cancelServers_evolves] Some show ?thesis
    by (simp add: cancelTask_def)
qed (simp add: cancelTask_def)

lemma cancel_in_tasks_evolves [simp]: "tasks_evolve m (fst (cancel_in_tasks now sid tids m))"
proof (induction tids arbitrary: m)
  case (Cons tid tids)
  have "tasks_evolve m (fst (cancelServer now tid sid m))" by simp
  from tasks_evolve_trans [OF this Cons.IH] show ?case
    by (simp add: split_def)
qed simp

lemma cancel_tasks_evolves [simp]: "tasks_evolve m (fst (cancel_tasks now tids m))"
proof (induction tids arbitrary: m)
  case (Cons tid tids)
  have "tasks_evolve m (fst (cancelTask now tid m))" by simp
  from tasks_evolve_trans [OF this Cons.IH] show ?case
    by (simp add: split_def)
qed simp

lemma stop_ops_evolve [simp]:
  "tasks_evolve m (fst (batch_StopServer now sid m))"
  "tasks_evolve m (fst (batch_StopAll now m))"
  by (simp_all add: batch_StopServer_def batch_StopAll_def)

section \<open>The invariant of the manager\<close>

definition has_permit :: "(int \<Rightarrow> server_run option) \<Rightarrow> int \<Rightarrow> bool" where
  "has_permit rs sid = (case rs sid of None \<Rightarrow> False | Some run \<Rightarrow> run_permit run)"

definition task_ok :: "string \<Rightarrow> (int \<Rightarrow> server_run option) \<Rightarrow> taskRuntime \<Rightarrow> bool" where
  "task_ok tid rs c \<longleftrightarrow>
     task_TaskID (rt_task c) = tid \<and>
     server_ids c = task_ServerIDs (rt_task c) \<and> distinct (server_ids c) \<and>
     1 \<le> task_Concurrency (rt_task c) \<and> task_Concurrency (rt_task c) \<le> MaximumConcurrency \<and>
     dom rs = set (server_ids c) \<and>
     int (length (filter (has_permit rs) (server_ids c))) \<le> task_Concurrency (rt_task c) \<and>
     (\<forall>sid run. rs sid = Some run \<longrightarrow> run_pc run = PcDone \<longrightarrow> \<not> has_active_server sid c) \<and>
     out_ok c \<and>
     isActiveStatus (task_Status (rt_task c)) = (\<not> rt_done c) \<and>
     (rt_done c \<longrightarrow> (\<forall>sid run. rs sid = Some run \<longrightarrow> run_pc run = PcDone))"

definition world_ok :: "batch_world \<Rightarrow> bool" where
  "world_ok w \<longleftrightarrow> gomap_ok (bw_tasks w) \<and>
     (\<forall>tid c. map_of (bw_tasks w) tid = Some c \<longrightarrow>
        (\<exists>rs. bw_runs w tid = Some rs \<and> task_ok tid rs c))"

lemma world_okD:
  "world_ok w \<Longrightarrow> map_of (bw_tasks w) tid = Some c \<Longrightarrow> bw_runs w tid = Some rs \<Longrightarrow> task_ok tid rs c"
  unfolding world_ok_def by fastforce

lemma has_active_server_le:
  assumes "task_le c c'" "distinct (server_ids c)" "has_active_server sid c'"
  shows "has_active_server sid c"
proof -
  obtain r' where r': "resultByServer (rt_task c') sid = Some r'" "isActiveStatus (res_Status r')"
    using assms(3) by (auto simp: has_active_server_def split: option.splits)
  then obtain i where i: "i < length (task_Results (rt_task c'))" "r' = task_Results (rt_task c') ! i"
    "res_ServerID r' = sid"
    using resultByServer_Some [OF r'(1)] by (auto simp: in_set_conv_nth)
  let ?r = "task_Results (rt_task c) ! i"
  have len: "i < length (task_Results (rt_task c))" and le: "result_le ?r r'"
    using assms(1) i by (auto simp: task_le_def list_all2_conv_all_nth)
  have "isActiveStatus (res_Status ?r)"
    using le r'(2) final_part_status unfolding result_le_def by metis
  moreover have "resultByServer (rt_task c) (res_ServerID ?r) = Some ?r"
    using assms(2) len by (intro resultByServer_distinct) (auto simp: server_ids_def)
  ultimately show ?thesis
    using le i(3) by (auto simp: has_active_server_def result_le_def)
qed

lemma task_ok_evolves:
  assumes "task_ok tid rs c" "task_evolves c c'"
  shows "task_ok tid rs c'"
proof -
  have le: "task_le c c'" using assms(2) by (simp add: task_evolves_def)
  have ids: "server_ids c' = server_ids c" using le by (rule task_le_server_ids)
  show ?thesis
    using assms le has_active_server_le [OF le] ids
    unfolding task_ok_def task_le_def task_evolves_def by metis
qed

lemma world_ok_evolves:
  assumes "world_ok w" "tasks_evolve (bw_tasks w) m"
  shows "world_ok (w\<lparr>bw_tasks := m\<rparr>)"
  unfolding world_ok_def
proof (intro conjI allI impI)
  show "gomap_ok (bw_tasks (w\<lparr>bw_tasks := m\<rparr>))"
    using assms by (simp add: world_ok_def tasks_evolve_def)
  fix tid c' assume "map_of (bw_tasks (w\<lparr>bw_tasks := m\<rparr>)) tid = Some c'"
  then have c': "map_of m tid = Some c'" by simp
  have "rel_option task_evolves (map_of (bw_tasks w) tid) (map_of m tid)"
    using assms(2) by (simp add: tasks_evolve_def)
  then obtain c where c: "map_of (bw_tasks w) tid = Some c" "task_evolves c c'"
    using c' by (auto simp: option_rel_Some2)
  obtain rs where "bw_runs w tid = Some rs" "task_ok tid rs c"
    using assms(1) c(1) by (auto simp: world_ok_def)
  then show "\<exists>rs. bw_runs (w\<lparr>bw_tasks := m\<rparr>) tid = Some rs \<and> task_ok tid rs c'"
    using task_ok_evolves c(2) by auto
qed

section \<open>Steps keep the invariant\<close>

text \<open>
  A step that only moves goroutines and evolves tasks: the invariant is kept, the same tasks
  are known.
\<close>

definition good_step :: "batch_world \<Rightarrow> batch_world \<Rightarrow> bool" where
  "good_step w w' \<longleftrightarrow> world_ok w' \<and> tasks_evolve (bw_tasks w) (bw_tasks w') \<and>
     (\<forall>tid. bw_runs w' tid = None \<longleftrightarrow> bw_runs w tid = None)"

lemma good_step_refl: "world_ok w \<Longrightarrow> good_step w w"
  by (simp add: good_step_def)

lemma good_step_trans: "good_step a b \<Longrightarrow> good_step b c \<Longrightarrow> good_step a c"
  unfolding good_step_def using tasks_evolve_trans by blast

lemma good_step_tasks:
  "world_ok w \<Longrightarrow> tasks_evolve (bw_tasks w) m \<Longrightarrow> good_step w (w\<lparr>bw_tasks := m\<rparr>)"
  by (simp add: good_step_def world_ok_evolves)

lemma good_step_with_tasks:
  "world_ok w \<Longrightarrow> tasks_evolve (bw_tasks w) (fst r) \<Longrightarrow> good_step w (fst (with_tasks w r))"
  by (simp add: with_tasks_def good_step_tasks)

lemma length_filter_update:
  assumes "distinct xs"
  shows "length (filter (P(a := b)) xs) \<le> Suc (length (filter P xs))"
    and "(b \<longrightarrow> P a) \<Longrightarrow> length (filter (P(a := b)) xs) \<le> length (filter P xs)"
proof -
  have same: "filter (P(a := b)) xs = filter P xs" if "a \<notin> set xs" for xs b
    using that by (intro filter_cong) auto
  show "length (filter (P(a := b)) xs) \<le> Suc (length (filter P xs))"
    using assms by (induction xs) (auto simp: same)
  show "length (filter (P(a := b)) xs) \<le> length (filter P xs)" if "b \<longrightarrow> P a"
    using assms that by (induction xs) (auto simp: same)
qed

lemma has_permit_update: "has_permit (rs(sid \<mapsto> run)) = (has_permit rs)(sid := run_permit run)"
  by (rule ext) (simp add: has_permit_def)

lemma permits_used_eq:
  "bw_runs w tid = Some rs \<Longrightarrow> permits_used tid sids w = length (filter (has_permit rs) sids)"
  by (simp add: permits_used_def get_run_def has_permit_def [abs_def])

lemma task_ok_put_run:
  assumes ok: "task_ok tid rs c" and run0: "rs sid = Some run0" "run_pc run0 \<noteq> PcDone"
    and fin: "run_pc run = PcDone \<longrightarrow> \<not> has_active_server sid c"
    and permit: "run_permit run \<longrightarrow> run_permit run0 \<or>
      int (length (filter (has_permit rs) (server_ids c))) < task_Concurrency (rt_task c)"
  shows "task_ok tid (rs(sid \<mapsto> run)) c"
proof -
  have dist: "distinct (server_ids c)" using ok unfolding task_ok_def by blast
  have count: "int (length (filter (has_permit (rs(sid \<mapsto> run))) (server_ids c)))
      \<le> task_Concurrency (rt_task c)"
  proof (cases "run_permit run \<longrightarrow> run_permit run0")
    case True
    then have "run_permit run \<longrightarrow> has_permit rs sid" using run0 by (simp add: has_permit_def)
    from length_filter_update(2) [of "server_ids c" "run_permit run" "has_permit rs" sid] dist this ok
    show ?thesis
      unfolding has_permit_update task_ok_def by linarith
  next
    case False
    with permit length_filter_update(1) [OF dist, of "has_permit rs" sid "run_permit run"]
    show ?thesis unfolding has_permit_update by linarith
  qed
  have "\<not> rt_done c" using ok run0 by (auto simp: task_ok_def)
  moreover have "insert sid (dom rs) = dom rs" using run0 by auto
  ultimately show ?thesis
    using ok fin count by (auto simp: task_ok_def)
qed

lemma good_step_put_run:
  assumes ok: "world_ok w" and run0: "get_run tid sid w = Some run0" "run_pc run0 \<noteq> PcDone"
    and fin: "run_pc run = PcDone \<Longrightarrow> \<not> server_active tid sid (bw_tasks w)"
    and permit: "run_permit run \<Longrightarrow> run_permit run0 \<or>
      (\<forall>c. map_of (bw_tasks w) tid = Some c \<longrightarrow>
         int (permits_used tid (task_ServerIDs (rt_task c)) w) < task_Concurrency (rt_task c))"
  shows "good_step w (put_run tid sid run w)"
proof -
  obtain rs0 where rs0: "bw_runs w tid = Some rs0" "rs0 sid = Some run0"
    using run0 by (auto simp: get_run_def split: option.splits)
  have task: "task_ok tid (rs0(sid \<mapsto> run)) c" if c: "map_of (bw_tasks w) tid = Some c" for c
  proof -
    have ok': "task_ok tid rs0 c" using ok c rs0(1) by (rule world_okD)
    then have ids: "server_ids c = task_ServerIDs (rt_task c)" by (simp add: task_ok_def)
    have fin': "run_pc run = PcDone \<longrightarrow> \<not> has_active_server sid c"
      using fin c by (auto simp: server_active_def has_active_server_def)
    have permit': "run_permit run \<longrightarrow> run_permit run0 \<or>
        int (length (filter (has_permit rs0) (server_ids c))) < task_Concurrency (rt_task c)"
      using permit c permits_used_eq [OF rs0(1)] ids by auto
    show ?thesis
      using ok' rs0(2) run0(2) fin' permit' by (rule task_ok_put_run)
  qed
  have "world_ok (put_run tid sid run w)"
    unfolding world_ok_def
  proof (intro conjI allI impI)
    show "gomap_ok (bw_tasks (put_run tid sid run w))"
      using ok by (simp add: world_ok_def put_run_def)
    fix tid' c assume c: "map_of (bw_tasks (put_run tid sid run w)) tid' = Some c"
    then show "\<exists>rs. bw_runs (put_run tid sid run w) tid' = Some rs \<and> task_ok tid' rs c"
      using ok task rs0 by (cases "tid' = tid") (auto simp: world_ok_def put_run_def)
  qed
  then show ?thesis using rs0 by (auto simp: good_step_def put_run_def)
qed

lemma server_active_evolves:
  assumes "world_ok w" "tasks_evolve (bw_tasks w) m" "server_active tid sid m"
  shows "server_active tid sid (bw_tasks w)"
proof -
  obtain c' where c': "map_of m tid = Some c'" "has_active_server sid c'"
    using assms(3) by (auto simp: server_active_def has_active_server_def split: option.splits)
  have "rel_option task_evolves (map_of (bw_tasks w) tid) (map_of m tid)"
    using assms(2) by (simp add: tasks_evolve_def)
  with c' obtain c where c: "map_of (bw_tasks w) tid = Some c" "task_evolves c c'"
    by (auto simp: option_rel_Some2)
  have "distinct (server_ids c)" using assms(1) c(1) by (auto simp: world_ok_def task_ok_def)
  with c c' has_active_server_le have "has_active_server sid c" by (auto simp: task_evolves_def)
  with c show ?thesis by (simp add: server_active_def has_active_server_def)
qed

lemma get_run_tasks [simp]: "get_run tid sid (w\<lparr>bw_tasks := m\<rparr>) = get_run tid sid w"
  by (simp add: get_run_def)

lemma good_step_leave:
  assumes ok: "world_ok w" and run0: "get_run tid sid w = Some run0" "run_pc run0 \<noteq> PcDone"
    and idle: "\<not> server_active tid sid (bw_tasks w)"
  shows "good_step w (leave_run tid sid run w)"
proof -
  let ?w = "w\<lparr>bw_tasks := clearServerRuntime tid sid (bw_tasks w)\<rparr>"
  have g: "good_step w ?w" by (rule good_step_tasks [OF ok]) simp
  have "good_step ?w (put_run tid sid (run\<lparr>run_pc := PcDone, run_permit := False\<rparr>) ?w)"
  proof (rule good_step_put_run)
    show "world_ok ?w" using g by (simp add: good_step_def)
    show "get_run tid sid ?w = Some run0" "run_pc run0 \<noteq> PcDone" using run0 by simp_all
    show "\<not> server_active tid sid (bw_tasks ?w)"
      using idle server_active_evolves [OF ok, of "clearServerRuntime tid sid (bw_tasks w)"] by auto
  qed simp
  from good_step_trans [OF g this] show ?thesis by (simp add: leave_run_def)
qed

text \<open>After \<open>finishServer\<close> with a final status the server is not active.\<close>

lemma has_active_server_iff:
  assumes "distinct (server_ids c)"
  shows "has_active_server sid c \<longleftrightarrow>
    (\<exists>r \<in> set (task_Results (rt_task c)). res_ServerID r = sid \<and> isActiveStatus (res_Status r))"
proof
  assume "has_active_server sid c"
  then show "\<exists>r \<in> set (task_Results (rt_task c)). res_ServerID r = sid \<and> isActiveStatus (res_Status r)"
    by (auto simp: has_active_server_def split: option.splits dest!: resultByServer_Some)
next
  assume "\<exists>r \<in> set (task_Results (rt_task c)). res_ServerID r = sid \<and> isActiveStatus (res_Status r)"
  then obtain r where "r \<in> set (task_Results (rt_task c))" "res_ServerID r = sid" "isActiveStatus (res_Status r)"
    by blast
  with resultByServer_distinct [of "rt_task c" r] assms show "has_active_server sid c"
    by (simp add: has_active_server_def server_ids_def)
qed

lemma put_result_inactive:
  assumes "distinct (server_ids c)" "resultIndex (rt_task c) sid = Some i"
    and "res_ServerID r = sid" "\<not> isActiveStatus (res_Status r)"
  shows "\<not> has_active_server sid (put_result i r c)"
proof -
  let ?rs = "task_Results (rt_task c)"
  have i: "i < length ?rs" "res_ServerID (?rs ! i) = sid"
    using resultIndex_Some [OF assms(2)] by auto
  have other: "res_ServerID (?rs ! j) \<noteq> sid" if "j < length ?rs" "j \<noteq> i" for j
    using assms(1) i that by (auto simp: server_ids_def distinct_conv_nth)
  have "server_ids (put_result i r c) = server_ids c"
    using i assms(3) by (simp add: server_ids_def distinct_map_list_update_same)
  then have "distinct (server_ids (put_result i r c))"
    using assms(1) by simp
  moreover have "\<not> (\<exists>r' \<in> set (?rs[i := r]). res_ServerID r' = sid \<and> isActiveStatus (res_Status r'))"
  proof
    assume "\<exists>r' \<in> set (?rs[i := r]). res_ServerID r' = sid \<and> isActiveStatus (res_Status r')"
    then obtain j where "j < length ?rs" "res_ServerID (?rs[i := r] ! j) = sid"
      "isActiveStatus (res_Status (?rs[i := r] ! j))"
      by (auto simp: in_set_conv_nth)
    then show False using other assms(4) i(1) by (cases "j = i") auto
  qed
  ultimately show ?thesis by (simp add: has_active_server_iff)
qed

lemma server_active_update [simp]:
  "server_active tid sid (AList.update tid c m) = has_active_server sid c"
  by (simp add: server_active_def has_active_server_def gomap_simps)

lemma server_active_eq:
  "map_of m tid = Some c \<Longrightarrow> server_active tid sid m = has_active_server sid c"
  by (simp add: server_active_def has_active_server_def)

lemma server_active_absent: "map_of m tid = None \<Longrightarrow> \<not> server_active tid sid m"
  by (simp add: server_active_def)

lemma finishServer_inactive:
  assumes "world_ok w" "\<not> isActiveStatus st"
  shows "\<not> server_active tid sid (fst (finishServer now tid sid st code msg (bw_tasks w)))"
proof (cases "map_of (bw_tasks w) tid")
  case (Some c)
  have dist: "distinct (server_ids c)" using assms(1) Some by (auto simp: world_ok_def task_ok_def)
  show ?thesis
  proof (cases "resultIndex (rt_task c) sid")
    case (Some i)
    let ?r = "task_Results (rt_task c) ! i"
    have "\<not> has_active_server sid (fst (finish_result now st code msg c i ?r))"
    proof (cases "isActiveStatus (res_Status ?r)")
      case True
      have "\<not> has_active_server sid (put_result i r c)"
        if "res_ServerID r = res_ServerID ?r" "res_Status r = st" for r
        using that resultIndex_Some(2) [OF Some] assms(2)
        by (intro put_result_inactive [OF dist Some]) simp_all
      with True show ?thesis by (simp add: finish_result_def Let_def)
    next
      case False
      with Some show ?thesis
        by (simp add: finish_result_def has_active_server_def resultByServer_def)
    qed
    with Some \<open>map_of (bw_tasks w) tid = Some c\<close> show ?thesis
      by (simp add: finishServer_def on_result_def split_def)
  next
    case None
    with Some show ?thesis
      by (simp add: finishServer_def on_result_def server_active_eq has_active_server_def
          resultByServer_def)
  qed
qed (simp add: finishServer_def on_result_def server_active_absent)

lemma good_step_end_run:
  assumes ok: "world_ok w" and run0: "get_run tid sid w = Some run0" "run_pc run0 \<noteq> PcDone"
    and st: "\<not> isActiveStatus st"
  shows "good_step w (fst (end_run now tid sid run st code msg err w))"
proof -
  let ?m = "fst (finishServer now tid sid st code msg (bw_tasks w))"
  have g: "good_step w (w\<lparr>bw_tasks := ?m\<rparr>)" by (rule good_step_tasks [OF ok]) simp
  have "good_step (w\<lparr>bw_tasks := ?m\<rparr>) (leave_run tid sid run (w\<lparr>bw_tasks := ?m\<rparr>))"
  proof (rule good_step_leave)
    show "world_ok (w\<lparr>bw_tasks := ?m\<rparr>)" using g by (simp add: good_step_def)
    show "\<not> server_active tid sid (bw_tasks (w\<lparr>bw_tasks := ?m\<rparr>))"
      using finishServer_inactive [OF ok st] by simp
  qed (use run0 in simp_all)
  from good_step_trans [OF g this] show ?thesis by (simp add: end_run_def split_def)
qed

lemma final_statuses [simp]:
  "\<not> isActiveStatus BatchCommandCanceled" "\<not> isActiveStatus BatchCommandTimeout"
  "\<not> isActiveStatus BatchCommandFailed" "\<not> isActiveStatus BatchCommandCompleted"
  by (simp_all add: isActiveStatus_def)

text \<open>The four ways \<open>runServer\<close> ends; each is \<open>end_run\<close> with a final status.\<close>

lemmas end_defs = end_canceled_def end_timeout_def end_failed_def end_classified_def

lemma transition_active_status [simp]:
  "isActiveStatus BatchCommandConnecting" "isActiveStatus BatchCommandRunning"
  "isActiveStatus BatchCommandQueued"
  by (simp_all add: isActiveStatus_def)

text \<open>A goroutine that stays in its function; it may not take a permit.\<close>

lemma good_step_move:
  assumes "world_ok w" "get_run tid sid w = Some run0" "run_pc run0 \<noteq> PcDone"
    and "run_pc run \<noteq> PcDone" "run_permit run = run_permit run0"
  shows "good_step w (put_run tid sid run w)"
  using assms by (intro good_step_put_run) auto

lemma good_step_move_tasks:
  assumes "world_ok w" "get_run tid sid w = Some run0" "run_pc run0 \<noteq> PcDone"
    and "run_pc run \<noteq> PcDone" "run_permit run = run_permit run0"
    and "tasks_evolve (bw_tasks w) m"
  shows "good_step w (put_run tid sid run (w\<lparr>bw_tasks := m\<rparr>))"
proof -
  have g: "good_step w (w\<lparr>bw_tasks := m\<rparr>)" using assms(1,6) by (rule good_step_tasks)
  have "good_step (w\<lparr>bw_tasks := m\<rparr>) (put_run tid sid run (w\<lparr>bw_tasks := m\<rparr>))"
    by (rule good_step_move [of _ _ _ run0]) (use assms g in \<open>auto simp: good_step_def\<close>)
  with g show ?thesis by (rule good_step_trans)
qed

lemma with_tasks_put_run:
  "fst (with_tasks (put_run tid sid run w) r) = put_run tid sid run (w\<lparr>bw_tasks := fst r\<rparr>)"
  by (simp add: with_tasks_def put_run_def)

lemma run_sel [simp]: "run_pc (goto pc run) = pc" "run_permit (goto pc run) = run_permit run"
  by (simp_all add: goto_def)

lemma good_step_ends:
  assumes "world_ok w" "get_run tid sid w = Some run0" "run_pc run0 \<noteq> PcDone"
  shows "good_step w (fst (end_canceled now tid sid run w))"
    and "good_step w (fst (end_timeout now tid sid run w))"
    and "good_step w (fst (end_failed now tid sid run code e msg w))"
    and "good_step w (fst (end_classified pf now tid sid run err op w))"
  using assms
  by (auto simp: end_defs Let_def good_step_refl intro: good_step_end_run split: option.splits)

lemma good_run_acquire:
  assumes ok: "world_ok w" and run: "get_run tid sid w = Some run" "run_pc run \<noteq> PcDone"
  shows "good_step w (fst (run_acquire now tid sid run ans w))"
proof (cases "map_of (bw_tasks w) tid")
  case (Some c)
  have "good_step w (put_run tid sid (run\<lparr>run_permit := True, run_pc := PcConnecting\<rparr>) w)"
    if "int (permits_used tid (task_ServerIDs (rt_task c)) w) < task_Concurrency (rt_task c)"
    by (rule good_step_put_run [OF ok run]) (use that Some in simp_all)
  with Some show ?thesis
    by (simp add: run_acquire_def good_step_ends [OF ok run] good_step_refl [OF ok])
qed (simp add: run_acquire_def good_step_refl [OF ok])

lemma good_run_transition:
  assumes ok: "world_ok w" and run: "get_run tid sid w = Some run" "run_pc run \<noteq> PcDone"
  shows "pc \<noteq> PcDone \<Longrightarrow> good_step w (fst (run_transition now tid sid run st at pc w))"
  by (auto simp: run_transition_def with_tasks_put_run
      intro!: good_step_leave [OF ok run] good_step_move_tasks [OF ok run])

lemma good_run_get_conn:
  assumes ok: "world_ok w" and run: "get_run tid sid w = Some run" "run_pc run \<noteq> PcDone"
  shows "good_step w (fst (run_get_conn now tid sid run conn w))"
  by (auto simp: run_get_conn_def with_tasks_put_run good_step_ends [OF ok run]
      intro!: good_step_move_tasks [OF ok run] split: option.splits)

lemma good_run_auth:
  assumes ok: "world_ok w" and run: "get_run tid sid w = Some run" "run_pc run \<noteq> PcDone"
  shows "good_step w (fst (run_auth pf now tid sid run err w))"
  by (auto simp: run_auth_def good_step_ends [OF ok run] intro!: good_step_move [OF ok run]
      split: option.splits)

lemma good_run_dial:
  assumes ok: "world_ok w" and run: "get_run tid sid w = Some run" "run_pc run \<noteq> PcDone"
  shows "good_step w (fst (run_dial pf now tid sid run err w))"
  by (auto simp: run_dial_def good_step_ends [OF ok run] intro!: good_step_move [OF ok run]
      split: option.splits)

lemma good_run_commit:
  assumes ok: "world_ok w" and run: "get_run tid sid w = Some run" "run_pc run \<noteq> PcDone"
  shows "good_step w (fst (run_commit now tid sid run b w))"
  by (auto simp: run_commit_def good_step_ends [OF ok run] intro!: good_step_move [OF ok run])

lemma good_run_start_command:
  assumes ok: "world_ok w" and run: "get_run tid sid w = Some run" "run_pc run \<noteq> PcDone"
  shows "good_step w (fst (run_start_command now tid sid run b w))"
  by (auto simp: run_start_command_def good_step_ends [OF ok run]
      intro!: good_step_move_tasks [OF ok run])

lemma good_collect_check:
  assumes ok: "world_ok w" and run: "get_run tid sid w = Some run" "run_pc run \<noteq> PcDone"
    and "run_pc run' = run_pc run" "run_permit run' = run_permit run"
  shows "good_step w (fst (collect_check now tid sid run' w))"
  using assms run(2)
  by (auto simp: collect_check_def collect_end_def good_step_ends [OF ok run]
      intro!: good_step_move [OF ok run] good_step_end_run [OF ok run] split: option.splits)

lemma good_run_collect:
  assumes ok: "world_ok w" and run: "get_run tid sid w = Some run" "run_pc run \<noteq> PcDone"
  shows "good_step w (fst (run_collect now tid sid run ans w))"
proof -
  let ?w = "w\<lparr>bw_tasks := closeSession tid sid (bw_tasks w)\<rparr>"
  have g: "good_step w ?w" by (rule good_step_tasks [OF ok]) simp
  then have w': "world_ok ?w" "get_run tid sid ?w = Some run" using run by (simp_all add: good_step_def)
  have "good_step w (fst (end_timeout now tid sid run ?w))"
    "good_step w (fst (end_canceled now tid sid run ?w))"
    using good_step_trans [OF g] good_step_ends [OF w' run(2)] by blast+
  then show ?thesis
    by (auto simp: run_collect_def Let_def good_step_refl [OF ok]
        intro!: good_collect_check [OF ok run] good_step_with_tasks [OF ok] split: batch_answer.splits)
qed

lemma good_run_step:
  assumes ok: "world_ok w" and run: "get_run tid sid w = Some run" "run_pc run \<noteq> PcDone"
  shows "good_step w (fst (run_step pf now tid sid run ans w))"
proof (cases "run_pc run")
  case PcSetCancel
  then show ?thesis by (auto intro!: good_step_move_tasks [OF ok run])
next
  case PcCollect
  then show ?thesis by (simp add: good_run_collect [OF ok run])
qed (auto simp: good_run_acquire [OF ok run] good_run_transition [OF ok run]
    good_run_get_conn [OF ok run] good_run_auth [OF ok run] good_run_dial [OF ok run]
    good_run_commit [OF ok run] good_run_start_command [OF ok run] good_step_refl [OF ok] run
    split: batch_answer.splits)

lemma good_hit_deadline: "world_ok w \<Longrightarrow> good_step w (hit_deadline tid sid w)"
  by (auto simp: hit_deadline_def good_step_refl intro!: good_step_move split: option.splits)


section \<open>The manager as a component with an invariant and a history\<close>

text \<open>
  \<open>results_le c c'\<close>: the same servers, and no final result changed. \<open>batch_later w w'\<close>: a task
  identifier once given is never given again, and a task that is still known has only grown.
\<close>

definition results_le :: "taskRuntime \<Rightarrow> taskRuntime \<Rightarrow> bool" where
  "results_le c c' \<longleftrightarrow> list_all2 result_le (task_Results (rt_task c)) (task_Results (rt_task c'))"

definition batch_later :: "batch_world \<Rightarrow> batch_world \<Rightarrow> bool" where
  "batch_later w w' \<longleftrightarrow>
     (\<forall>tid. bw_runs w tid \<noteq> None \<longrightarrow> bw_runs w' tid \<noteq> None \<and>
        (\<forall>c'. map_of (bw_tasks w') tid = Some c' \<longrightarrow>
           (\<exists>c. map_of (bw_tasks w) tid = Some c \<and> results_le c c')))"

lemma results_le_refl [simp]: "results_le c c"
  by (simp add: results_le_def list_all2_refl)

lemma results_le_trans: "results_le a b \<Longrightarrow> results_le b c \<Longrightarrow> results_le a c"
  unfolding results_le_def by (rule list_all2_trans [OF result_le_trans])

lemma batch_later_refl: "batch_later w w"
  by (simp add: batch_later_def)

lemma batch_later_trans: "batch_later a b \<Longrightarrow> batch_later b c \<Longrightarrow> batch_later a c"
  unfolding batch_later_def using results_le_trans by meson

lemma good_step_later: "good_step w w' \<Longrightarrow> batch_later w w'"
proof -
  assume g: "good_step w w'"
  have "\<exists>c. map_of (bw_tasks w) tid = Some c \<and> results_le c c'"
    if c': "map_of (bw_tasks w') tid = Some c'" for tid c'
  proof -
    have "rel_option task_evolves (map_of (bw_tasks w) tid) (map_of (bw_tasks w') tid)"
      using g by (simp add: good_step_def tasks_evolve_def)
    with c' obtain c where c: "map_of (bw_tasks w) tid = Some c" "task_evolves c c'"
      by (auto simp: option_rel_Some2)
    then have "results_le c c'" by (simp add: task_evolves_def task_le_def results_le_def)
    with c show ?thesis by blast
  qed
  with g show ?thesis by (simp add: batch_later_def good_step_def)
qed

lemma good_or_same:
  assumes "world_ok w" "\<And>r. x = Inr r \<Longrightarrow> tasks_evolve (bw_tasks w) (fst r)"
  shows "good_step w (fst (or_same w x))"
  using assms
  by (cases x) (auto simp: or_same_def good_step_refl intro: good_step_with_tasks)

lemma CancelServer_evolves:
  "CancelServer now tid sid m = Inr r \<Longrightarrow> tasks_evolve m (fst r)"
  by (auto simp: CancelServer_def split: if_splits option.splits)

lemma CancelTask_evolves: "CancelTask now tid m = Inr r \<Longrightarrow> tasks_evolve m (fst r)"
  by (auto simp: CancelTask_def split: if_splits option.splits)

text \<open>Starting a task.\<close>

lemma batch_Start_Inr_iff:
  "batch_Start init now tid request m = Inr (m', task) \<longleftrightarrow>
     init \<and> sreq_Command (batch_normalizeStartRequest request) \<noteq> [] \<and>
     \<not> IsInteractiveCommand (sreq_Command (batch_normalizeStartRequest request)) \<and>
     sreq_ServerIDs (batch_normalizeStartRequest request) \<noteq> [] \<and>
     task = new_task now tid (batch_normalizeStartRequest request) \<and>
     m' = AList.update tid (new_runtime task) m"
  by (auto simp: batch_Start_def Let_def)

lemma batch_normalize_props:
  fixes r defines "r' \<equiv> batch_normalizeStartRequest r"
  shows "distinct (sreq_ServerIDs r')" "\<forall>i \<in> set (sreq_ServerIDs r'). i > 0"
    "MinimumConcurrency \<le> sreq_Concurrency r'" "sreq_Concurrency r' \<le> MaximumConcurrency"
    "MinimumTimeoutSeconds \<le> sreq_TimeoutSeconds r'"
    "sreq_TimeoutSeconds r' \<le> MaximumTimeoutSeconds"
    "TrimSpace (sreq_Command r') = sreq_Command r'"
  unfolding r'_def batch_normalizeStartRequest_def
  using limit_setting_bounds [of MinimumConcurrency MaximumConcurrency DefaultConcurrency]
    limit_setting_bounds [of MinimumTimeoutSeconds MaximumTimeoutSeconds DefaultTimeoutSeconds]
  by (simp_all add: uniquePositiveServerIDs_props batch_limits)

lemma new_runtime_ok:
  assumes "batch_Start True now tid request m = Inr (m', task)"
  shows "task_ok tid (\<lambda>sid. if sid \<in> set (task_ServerIDs task) then Some new_run else None)
    (new_runtime task)"
proof -
  let ?r = "batch_normalizeStartRequest request"
  have task: "task = new_task now tid ?r" using assms by (simp add: batch_Start_Inr_iff)
  have ids: "server_ids (new_runtime task) = sreq_ServerIDs ?r"
    by (simp add: task server_ids_def new_runtime_def new_task_def comp_def queued_result_def)
  have out: "out_ok (new_runtime task)"
    by (auto simp: out_ok_def task new_runtime_def new_task_def queued_result_def result_out_ok_def
        out_state_def output_size_def)
  have no_permit: "filter (has_permit (\<lambda>sid. if sid \<in> S then Some new_run else None)) xs = []"
    for S xs by (auto simp: has_permit_def new_run_def filter_empty_conv)
  show ?thesis
    unfolding task_ok_def ids no_permit
    using batch_normalize_props [of request] out
    by (auto simp: task new_runtime_def new_task_def new_run_def batch_limits split: if_splits)
qed

lemma start_world_ok: "world_ok w \<Longrightarrow> world_ok (batch_start_world now tid request w)"
proof (cases "batch_Start True now tid request (bw_tasks w)")
  case (Inr p)
  obtain m task where p: "p = (m, task)" by (cases p)
  assume ok: "world_ok w"
  show ?thesis
  proof (cases "bw_runs w tid")
    case None
    have m: "m = AList.update tid (new_runtime task) (bw_tasks w)"
      using Inr p by (simp add: batch_Start_Inr_iff)
    show ?thesis
      using ok None Inr p new_runtime_ok [of now tid request "bw_tasks w" m task]
      by (auto simp: batch_start_world_def world_ok_def m gomap_simps)
  qed (use ok in \<open>simp add: batch_start_world_def\<close>)
qed (simp add: batch_start_world_def)

lemma start_world_later: "batch_later w (batch_start_world now tid request w)"
proof (cases "batch_Start True now tid request (bw_tasks w)")
  case (Inr p)
  obtain m task where p: "p = (m, task)" by (cases p)
  have m: "m = AList.update tid (new_runtime task) (bw_tasks w)"
    using Inr p by (simp add: batch_Start_Inr_iff)
  show ?thesis
    using Inr p by (auto simp: batch_start_world_def batch_later_def m gomap_simps)
qed (simp add: batch_start_world_def batch_later_refl)


lemma Clear_ok: "world_ok w \<Longrightarrow> batch_Clear tid (bw_tasks w) = Inr m \<Longrightarrow> world_ok (w\<lparr>bw_tasks := m\<rparr>)"
  by (auto simp: batch_Clear_def Let_def world_ok_def gomap_simps split: if_splits option.splits)

lemma Clear_later: "batch_Clear tid (bw_tasks w) = Inr m \<Longrightarrow> batch_later w (w\<lparr>bw_tasks := m\<rparr>)"
  by (auto simp: batch_Clear_def Let_def batch_later_def gomap_simps split: if_splits option.splits)

text \<open>The end of a task: its goroutines are done, so no result is active any more.\<close>

lemma runs_done_inactive:
  assumes ok: "task_ok tid rs c" and rs: "bw_runs w tid = Some rs"
    and fin: "runs_done tid (task_ServerIDs (rt_task c)) w"
  shows "\<forall>r \<in> set (task_Results (rt_task c)). \<not> isActiveStatus (res_Status r)"
    and "\<forall>sid run. rs sid = Some run \<longrightarrow> run_pc run = PcDone"
proof -
  have ids: "server_ids c = task_ServerIDs (rt_task c)" "distinct (server_ids c)" "dom rs = set (server_ids c)"
    using ok unfolding task_ok_def by blast+
  show pcs: "\<forall>sid run. rs sid = Some run \<longrightarrow> run_pc run = PcDone"
  proof (intro allI impI)
    fix sid run assume run: "rs sid = Some run"
    then have "sid \<in> set (task_ServerIDs (rt_task c))" using ids by auto
    with fin run rs show "run_pc run = PcDone"
      by (auto simp: runs_done_def list_all_iff get_run_def)
  qed
  show "\<forall>r \<in> set (task_Results (rt_task c)). \<not> isActiveStatus (res_Status r)"
  proof
    fix r assume r: "r \<in> set (task_Results (rt_task c))"
    then have "res_ServerID r \<in> set (server_ids c)" by (simp add: server_ids_def)
    then have "res_ServerID r \<in> dom rs" using ids(3) by blast
    then obtain run where "rs (res_ServerID r) = Some run" by blast
    with pcs ok have "\<not> has_active_server (res_ServerID r) c" unfolding task_ok_def by blast
    with r ids(2) show "\<not> isActiveStatus (res_Status r)" by (auto simp: has_active_server_iff)
  qed
qed

lemma finish_world_ok:
  assumes "world_ok w"
  shows "world_ok (fst (finish_world now tid w))" and "batch_later w (fst (finish_world now tid w))"
proof -
  have "world_ok (fst (finish_world now tid w)) \<and> batch_later w (fst (finish_world now tid w))"
  proof (cases "\<exists>c. map_of (bw_tasks w) tid = Some c \<and> \<not> rt_done c \<and>
      runs_done tid (task_ServerIDs (rt_task c)) w")
    case True
    then obtain c where c: "map_of (bw_tasks w) tid = Some c" "\<not> rt_done c"
      "runs_done tid (task_ServerIDs (rt_task c)) w" by blast
    obtain rs where rs: "bw_runs w tid = Some rs" "task_ok tid rs c"
      using assms c(1) by (auto simp: world_ok_def)
    let ?st = "aggregateStatus (task_Results (rt_task c))"
    let ?c = "c\<lparr>rt_task := (rt_task c)\<lparr>task_CompletedAt := Some now, task_Status := ?st\<rparr>, rt_done := True\<rparr>"
    have fin: "\<not> isActiveStatus ?st" "\<forall>sid run. rs sid = Some run \<longrightarrow> run_pc run = PcDone"
      using runs_done_inactive [OF rs(2,1) c(3)] by (auto simp: aggregateStatus_active)
    have same: "server_ids ?c = server_ids c" "out_ok ?c = out_ok c"
      "has_active_server sid ?c = has_active_server sid c" for sid
      by (simp_all add: server_ids_def has_active_server_def out_ok_def out_state_def
          resultByServer_def resultIndex_def)
    have "task_ok tid rs ?c"
      using rs(2) fin unfolding task_ok_def same by auto
    then show ?thesis
      using assms c rs
      by (auto simp: finish_world_def finishTask_def Let_def with_tasks_def world_ok_def
          batch_later_def gomap_simps results_le_def list_all2_refl)
  next
    case False
    with assms show ?thesis
      by (auto simp: finish_world_def batch_later_refl split: option.splits)
  qed
  then show "world_ok (fst (finish_world now tid w))" "batch_later w (fst (finish_world now tid w))"
    by blast+
qed

lemma good_step_both: "good_step w w' \<Longrightarrow> world_ok w' \<and> batch_later w w'"
  using good_step_later by (auto simp: good_step_def)

lemma batch_next_both:
  assumes "world_ok w"
  shows "world_ok (batch_next pf w x) \<and> batch_later w (batch_next pf w x)"
proof (cases "snd x")
  case (LStart tid request)
  with assms show ?thesis by (simp add: batch_next_def start_world_ok start_world_later)
next
  case (LRun tid sid ans)
  show ?thesis
  proof (cases "get_run tid sid w")
    case (Some run)
    show ?thesis
    proof (cases "run_pc run = PcDone")
      case True
      with LRun Some assms show ?thesis by (simp add: batch_next_def batch_later_refl)
    next
      case False
      have "good_step w (fst (run_step pf (fst x) tid sid run ans w))"
        using assms Some False by (rule good_run_step)
      with LRun Some show ?thesis
        by (simp add: batch_next_def good_step_both del: run_step.simps)
    qed
  qed (use LRun assms in \<open>simp add: batch_next_def batch_later_refl\<close>)
next
  case (LDeadline tid sid)
  with good_step_both [OF good_hit_deadline [OF assms, of tid sid]] show ?thesis
    by (simp add: batch_next_def)
next
  case (LFinish tid)
  with assms show ?thesis by (simp add: batch_next_def finish_world_ok)
next
  case (LCancelServer tid sid)
  with good_step_both [OF good_or_same [OF assms CancelServer_evolves]] show ?thesis
    by (simp add: batch_next_def)
next
  case (LCancelTask tid)
  with good_step_both [OF good_or_same [OF assms CancelTask_evolves]] show ?thesis
    by (simp add: batch_next_def)
next
  case (LClear tid)
  with assms show ?thesis
    by (cases "batch_Clear tid (bw_tasks w)")
      (simp_all add: batch_next_def or_same_def batch_later_refl with_tasks_def Clear_ok Clear_later)
next
  case (LStopServer sid)
  with good_step_both [OF good_step_with_tasks [OF assms stop_ops_evolve(1)]] show ?thesis
    by (simp add: batch_next_def)
next
  case LStopAll
  with good_step_both [OF good_step_with_tasks [OF assms stop_ops_evolve(2)]] show ?thesis
    by (simp add: batch_next_def)
qed

interpretation batch: monotone_component "batch_next pf" world_ok batch_later for pf
  by unfold_locales
    (auto simp: batch_next_both batch_later_refl intro: batch_later_trans)

lemma batch_run_ok: "world_ok w \<Longrightarrow> world_ok (batch_run pf w xs)"
  unfolding batch_run_def by (rule batch.run_keeps)

lemma batch_run_later: "world_ok w \<Longrightarrow> batch_later w (batch_run pf w xs)"
  unfolding batch_run_def by (rule batch.run_later)

lemma no_batches_ok [simp]: "world_ok no_batches"
  by (simp add: world_ok_def no_batches_def)

lemma batch_run_append: "batch_run pf w (xs @ ys) = batch_run pf (batch_run pf w xs) ys"
  by (simp add: batch_run_def)

section \<open>Properties\<close>

lemma reachable_task:
  assumes "map_of (bw_tasks (batch_run pf no_batches xs)) tid = Some c"
  obtains rs where "bw_runs (batch_run pf no_batches xs) tid = Some rs" "task_ok tid rs c"
  using batch_run_ok [OF no_batches_ok, of pf xs] assms by (auto simp: world_ok_def)

text \<open>
  C4: A final result stays as it is, but for the name and the address it shows. Once the result of a
  server is completed, failed, canceled or timed out, no later step of any goroutine and no operation
  of the manager (a cancellation that comes late, output that still arrives, the deadline, the end of
  the task) changes anything else of it, as long as the task is known. The name and the address
  are still filled in when the connection of a cancelled server is loaded.
\<close>

theorem batch_result_final:
  assumes "map_of (bw_tasks (batch_run pf no_batches xs)) tid = Some c"
    and "r \<in> set (task_Results (rt_task c))" "\<not> isActiveStatus (res_Status r)"
    and "map_of (bw_tasks (batch_run pf no_batches (xs @ ys))) tid = Some c'"
  shows "\<exists>r' \<in> set (task_Results (rt_task c')).
    r' = r\<lparr>res_ServerName := res_ServerName r', res_Host := res_Host r'\<rparr>"
proof -
  let ?w = "batch_run pf no_batches xs"
  have later: "batch_later ?w (batch_run pf ?w ys)"
    by (intro batch_run_later batch_run_ok no_batches_ok)
  have "bw_runs ?w tid \<noteq> None" using reachable_task [OF assms(1)] by auto
  with later assms(1,4) have "results_le c c'" by (auto simp: batch_later_def batch_run_append)
  moreover obtain i where i: "i < length (task_Results (rt_task c))" "r = task_Results (rt_task c) ! i"
    using assms(2) by (auto simp: in_set_conv_nth)
  ultimately have len: "i < length (task_Results (rt_task c'))"
    and le: "result_le r (task_Results (rt_task c') ! i)"
    by (auto simp: results_le_def list_all2_conv_all_nth)
  have fin: "final_part (task_Results (rt_task c') ! i) = final_part r"
    using le assms(3) by (simp add: result_le_def)
  have "r' = r\<lparr>res_ServerName := res_ServerName r', res_Host := res_Host r'\<rparr>"
    if "final_part r' = final_part r" for r'
    using that by (cases r; cases r') (simp add: final_part_def)
  then show ?thesis using fin len by (intro bexI [of _ "task_Results (rt_task c') ! i"]) simp_all
qed

text \<open>
  C6: At most \<open>Concurrency\<close> goroutines of a task are past the semaphore at any moment, and the
  concurrency of a task is between one and ten whatever the request asked for.
\<close>

theorem batch_concurrency_bound:
  assumes "map_of (bw_tasks (batch_run pf no_batches xs)) tid = Some c"
  shows "int (permits_used tid (task_ServerIDs (rt_task c)) (batch_run pf no_batches xs))
      \<le> task_Concurrency (rt_task c) \<and>
    1 \<le> task_Concurrency (rt_task c) \<and> task_Concurrency (rt_task c) \<le> 10"
proof -
  obtain rs where rs: "bw_runs (batch_run pf no_batches xs) tid = Some rs" "task_ok tid rs c"
    using reachable_task [OF assms] .
  then show ?thesis
    using permits_used_eq [OF rs(1)] unfolding task_ok_def MaximumConcurrency_def by metis
qed

text \<open>
  A task ends exactly once all its servers have ended. In every reachable state the status
  of a task is active as long as \<open>runTask\<close> has not finished it, a goroutine that has returned left
  its server with a final status, and a finished task has no active result, so nothing stays
  queued, connecting or running for ever.
\<close>

theorem batch_task_ends_final:
  assumes "map_of (bw_tasks (batch_run pf no_batches xs)) tid = Some c"
  shows "isActiveStatus (task_Status (rt_task c)) = (\<not> rt_done c) \<and>
    (rt_done c \<longrightarrow> (\<forall>r \<in> set (task_Results (rt_task c)). \<not> isActiveStatus (res_Status r))) \<and>
    (\<forall>sid run. get_run tid sid (batch_run pf no_batches xs) = Some run \<and> run_pc run = PcDone \<longrightarrow>
       (\<forall>r \<in> set (task_Results (rt_task c)).
          res_ServerID r = sid \<longrightarrow> \<not> isActiveStatus (res_Status r)))"
proof -
  obtain rs where rs: "bw_runs (batch_run pf no_batches xs) tid = Some rs" and ok: "task_ok tid rs c"
    using reachable_task [OF assms] .
  have ids: "server_ids c = task_ServerIDs (rt_task c)" "distinct (server_ids c)"
    "dom rs = set (server_ids c)"
    using ok unfolding task_ok_def by blast+
  have one: "\<not> isActiveStatus (res_Status r)"
    if "rs (res_ServerID r) = Some run" "run_pc run = PcDone" "r \<in> set (task_Results (rt_task c))"
    for r run
    using ok that has_active_server_iff [OF ids(2)] unfolding task_ok_def by blast
  have "\<not> isActiveStatus (res_Status r)" if fin: "rt_done c" and r: "r \<in> set (task_Results (rt_task c))" for r
  proof -
    have "res_ServerID r \<in> set (server_ids c)" using r by (simp add: server_ids_def)
    then obtain run where run: "rs (res_ServerID r) = Some run" using ids(3) by blast
    with ok fin have "run_pc run = PcDone" unfolding task_ok_def by blast
    with one run r show ?thesis by blast
  qed
  then show ?thesis
    using ok one rs unfolding task_ok_def by (auto simp: get_run_def)
qed

text \<open>
  C35: What is kept of a server's output is at most one mebibyte, plus the notice of truncation if
  the result is marked as truncated.
\<close>

theorem batch_output_bound:
  assumes "map_of (bw_tasks (batch_run pf no_batches xs)) tid = Some c"
    and "r \<in> set (task_Results (rt_task c))"
  shows "length (res_Stdout r) + length (res_Stderr r)
      \<le> 1048576 + (if res_OutputTruncated r then length outputTruncatedNotice + 1 else 0)"
proof -
  have "out_ok c" using reachable_task [OF assms(1)] unfolding task_ok_def by metis
  with assms(2) have "result_out_ok (out_state c (res_ServerID r)) r" by (simp add: out_ok_def)
  then show ?thesis
    by (auto simp: result_out_ok_def output_size_def outputLimitBytes_def notice_size_def
        split: if_splits)
qed

lemma cancelServer_inactive:
  assumes ok: "world_ok w"
  shows "\<not> server_active tid sid (fst (cancelServer now tid sid (bw_tasks w)))"
proof (cases "map_of (bw_tasks w) tid")
  case (Some c)
  have dist: "distinct (server_ids c)" using ok Some by (auto simp: world_ok_def task_ok_def)
  have "\<not> has_active_server sid (fst (cancel_result now sid c))"
  proof (cases "resultIndex (rt_task c) sid")
    case (Some i)
    let ?r = "task_Results (rt_task c) ! i"
    have "\<not> has_active_server sid (put_result i (?r\<lparr>res_Status := BatchCommandCanceled,
        res_CompletedAt := Some now\<rparr>) c)"
      by (rule put_result_inactive [OF dist Some]) (simp_all add: resultIndex_Some(2) [OF Some])
    then show ?thesis
    proof (cases "isActiveStatus (res_Status ?r)")
      case True
      with Some \<open>\<not> has_active_server sid (put_result i _ c)\<close> show ?thesis
        by (simp add: cancel_result_def Let_def)
    next
      case False
      with Some show ?thesis
        by (simp add: cancel_result_def has_active_server_def resultByServer_def)
    qed
  qed (simp add: cancel_result_def has_active_server_def resultByServer_def)
  with Some show ?thesis by (simp add: cancelServer_def split_def has_active_server_def)
qed (simp add: cancelServer_def server_active_absent)

lemma cancel_in_tasks_inactive:
  "world_ok w \<Longrightarrow> tid \<in> set tids \<Longrightarrow>
     \<not> server_active tid sid (fst (cancel_in_tasks now sid tids (bw_tasks w)))"
proof (induction tids arbitrary: w)
  case (Cons t tids)
  let ?m = "fst (cancelServer now t sid (bw_tasks w))"
  have ok: "world_ok (w\<lparr>bw_tasks := ?m\<rparr>)" using Cons.prems(1) by (rule world_ok_evolves) simp
  show ?case
  proof (cases "tid \<in> set tids")
    case True
    with Cons.IH [OF ok] show ?thesis by (simp add: split_def)
  next
    case False
    with Cons.prems have "\<not> server_active tid sid ?m" using cancelServer_inactive by auto
    moreover have "tasks_evolve ?m (fst (cancel_in_tasks now sid tids ?m))" by simp
    ultimately have "\<not> server_active tid sid (fst (cancel_in_tasks now sid tids ?m))"
      using server_active_evolves [OF ok, of "fst (cancel_in_tasks now sid tids ?m)" tid sid] by auto
    then show ?thesis by (simp add: split_def)
  qed
qed simp

lemma StopServer_inactive:
  assumes "world_ok w" "sid > 0"
  shows "\<not> server_active tid sid (fst (batch_StopServer now sid (bw_tasks w)))"
proof (cases "tid \<in> fst ` {p \<in> set (bw_tasks w). has_active_server sid (snd p)}")
  case True
  then have "tid \<in> set (map fst (filter (\<lambda>p. has_active_server sid (snd p)) (bw_tasks w)))" by auto
  from cancel_in_tasks_inactive [OF assms(1) this] assms(2) show ?thesis
    by (simp add: batch_StopServer_def)
next
  case False
  have "\<not> server_active tid sid (bw_tasks w)"
  proof (cases "map_of (bw_tasks w) tid")
    case (Some c)
    from map_of_SomeD [OF this] False have "\<not> has_active_server sid c" by force
    with Some show ?thesis by (simp add: server_active_eq)
  qed (simp add: server_active_absent)
  with server_active_evolves [OF assms(1)] show ?thesis using stop_ops_evolve(1) by blast
qed

text \<open>A server that no result of a task has active stays so, whatever follows.\<close>

lemma stopped_server_final:
  assumes "world_ok w" "sid > 0" "bw_runs w tid \<noteq> None"
    and "map_of (bw_tasks (batch_run pf w ((now, LStopServer sid) # ys))) tid = Some c"
  shows "\<not> has_active_server sid c"
proof -
  let ?v = "batch_run pf w [(now, LStopServer sid)]"
  have v: "?v = w\<lparr>bw_tasks := fst (batch_StopServer now sid (bw_tasks w))\<rparr>"
    by (simp add: batch_run_def batch_next_def with_tasks_def)
  have ok: "world_ok ?v" using assms(1) by (rule batch_run_ok)
  have run: "batch_run pf w ((now, LStopServer sid) # ys) = batch_run pf ?v ys"
    by (simp add: batch_run_def)
  have "batch_later ?v (batch_run pf ?v ys)" using ok by (rule batch_run_later)
  moreover have "bw_runs ?v tid \<noteq> None" using assms(3) v by simp
  ultimately obtain c0 where c0: "map_of (bw_tasks ?v) tid = Some c0" "results_le c0 c"
    using assms(4) unfolding run batch_later_def by blast
  have idle: "\<not> has_active_server sid c0"
    using StopServer_inactive [OF assms(1,2), of tid now] c0(1) v by (simp add: server_active_eq)
  have "world_ok (batch_run pf ?v ys)" using ok by (rule batch_run_ok)
  then have dist: "distinct (server_ids c0)" "distinct (server_ids c)"
    using ok c0(1) assms(4) unfolding run by (fastforce simp: world_ok_def task_ok_def)+
  show ?thesis
  proof
    assume "has_active_server sid c"
    then obtain i where i: "i < length (task_Results (rt_task c))"
      "res_ServerID (task_Results (rt_task c) ! i) = sid"
      "isActiveStatus (res_Status (task_Results (rt_task c) ! i))"
      using has_active_server_iff [OF dist(2)] by (auto simp: in_set_conv_nth)
    with c0(2) have "i < length (task_Results (rt_task c0))"
      and le: "result_le (task_Results (rt_task c0) ! i) (task_Results (rt_task c) ! i)"
      by (auto simp: results_le_def list_all2_conv_all_nth)
    moreover have "isActiveStatus (res_Status (task_Results (rt_task c0) ! i))"
      using le i(3) final_part_status unfolding result_le_def by metis
    ultimately have "has_active_server sid c0"
      using has_active_server_iff [OF dist(1)] i(2) by (auto simp: result_le_def)
    with idle show False by simp
  qed
qed

text \<open>
  C36: After \<open>StopServer\<close> of a server no task that existed then has an active result for it, and
  that stays so through every later step: no goroutine still under way makes it active again.
\<close>

theorem batch_StopServer_final:
  assumes "sid > 0"
    and "bw_runs (batch_run pf no_batches xs) tid \<noteq> None"
    and "map_of (bw_tasks (batch_run pf no_batches (xs @ [(now, LStopServer sid)] @ ys))) tid
      = Some c"
  shows "\<not> has_active_server sid c"
  using stopped_server_final [OF batch_run_ok [OF no_batches_ok] assms(1,2)] assms(3)
  by (simp add: batch_run_def)

end
