(* ===== verification/BatchProps.thy ===== *)
theory BatchProps
  imports BatchRun "HOL-Library.Multiset" "HOL-Library.Code_Target_Numeral"
begin

text \<open>
  Properties of the batch commands' requests, the commands refused because they need a
  terminal, the order of the list of tasks, and runs of the manager at concrete inputs.
\<close>

section \<open>Requests\<close>

text \<open>
  The normal form of a request has distinct positive server identifiers, exactly the
  positive ones asked for, a concurrency between 1 and 10 and a time-out between 5 seconds and
  an hour; and normalizing again changes nothing.
\<close>

theorem batch_normalize_bounds:
  "distinct (sreq_ServerIDs (batch_normalizeStartRequest r)) \<and>
   set (sreq_ServerIDs (batch_normalizeStartRequest r)) = {i \<in> set (sreq_ServerIDs r). i > 0} \<and>
   1 \<le> sreq_Concurrency (batch_normalizeStartRequest r) \<and>
   sreq_Concurrency (batch_normalizeStartRequest r) \<le> 10 \<and>
   5 \<le> sreq_TimeoutSeconds (batch_normalizeStartRequest r) \<and>
   sreq_TimeoutSeconds (batch_normalizeStartRequest r) \<le> 3600 \<and>
   batch_normalizeStartRequest (batch_normalizeStartRequest r) = batch_normalizeStartRequest r"
proof -
  have "batch_normalizeStartRequest (batch_normalizeStartRequest r) = batch_normalizeStartRequest r"
    by (simp add: batch_normalizeStartRequest_def uniquePositiveServerIDs_props limit_setting_idem
        batch_limits)
  moreover have "set (sreq_ServerIDs (batch_normalizeStartRequest r)) = {i \<in> set (sreq_ServerIDs r). i > 0}"
    by (simp add: batch_normalizeStartRequest_def uniquePositiveServerIDs_props)
  ultimately show ?thesis
    using batch_normalize_props [of r] by (simp add: batch_limits)
qed

section \<open>Commands that need a terminal\<close>

lemma rx_seqI:
  "m \<in> set (rx_ends a pos) \<Longrightarrow> x \<in> set (rx_ends b m) \<Longrightarrow> x \<in> set (rx_ends (RxSeq a b) pos)"
  by auto

lemma rx_many_consume:
  assumes "set u \<subseteq> set cs"
  shows "((if u = [] then p else Some (last u)), t) \<in> set (rx_ends (RxMany cs) (p, u @ t))"
  using assms by (auto simp: many_ends_iff)

lemma MatchString_at:
  assumes "s = a @ b" "x \<in> set (rx_ends r (if a = [] then None else Some (last a), b))"
  shows "MatchString r s"
  unfolding MatchString_def rx_search_split
  using assms by (intro exI [of _ a] exI [of _ b]) auto

text \<open>The byte after a name ends the word when it is no letter, digit or underscore.\<close>

definition word_ends :: "string \<Rightarrow> bool" where
  "word_ends rest = (\<not> word_opt (head_opt rest))"

lemma rx_command_match:
  assumes "name \<in> set names" "name \<noteq> []" "word_char (last name)" "word_ends rest"
    and "(q, name @ rest) \<in> set (rx_ends rx_cmd_start pos)"
  shows "(Some (last name), rest) \<in> set (rx_ends (rx_command names) pos)"
proof -
  have "(Some (last name), rest) \<in> set (rx_ends (rx_word_ci name) (q, name @ rest))"
    using assms(2) by (rule rx_word_ci_self)
  then have "(Some (last name), rest) \<in> set (rx_ends (rx_any (map rx_word_ci names)) (q, name @ rest))"
    using assms(1) by (auto simp: rx_any_iff simp del: rx_ends.simps)
  moreover have "(Some (last name), rest) \<in> set (rx_ends RxWord (Some (last name), rest))"
    using assms(3,4) by (simp add: word_opt_def word_ends_def)
  ultimately show ?thesis
    unfolding rx_command_def using assms(5) by (blast intro: rx_seqI)
qed

lemma rx_cmd_start_begin: "(None, s) \<in> set (rx_ends rx_cmd_start (None, s))"
  by (simp add: rx_cmd_start_def)

lemma rx_cmd_start_sep:
  assumes "sep \<in> {CHR '';'', CHR ''&'', CHR ''|''}" "set spaces \<subseteq> set rx_space"
  shows "\<exists>q. (q, s) \<in> set (rx_ends rx_cmd_start (p, sep # spaces @ s))"
proof -
  let ?seps = "[CHR '';'', CHR ''&'', CHR ''|'']"
  have "(Some sep, spaces @ s) \<in> set (rx_ends (RxSet ?seps) (p, sep # spaces @ s))"
    using assms(1) by auto
  then have "((if spaces = [] then Some sep else Some (last spaces)), s)
      \<in> set (rx_ends (RxSeq (RxSet ?seps) (RxMany rx_space)) (p, sep # spaces @ s))"
    using rx_many_consume [OF assms(2)] by (rule rx_seqI)
  then have "((if spaces = [] then Some sep else Some (last spaces)), s)
      \<in> set (rx_ends rx_cmd_start (p, sep # spaces @ s))"
    unfolding rx_cmd_start_def rx_ends.simps(3) set_append by (rule UnI2)
  then show ?thesis by blast
qed

definition editor_names :: "string list" where
  "editor_names = [''vi'', ''vim'', ''nano'', ''emacs'']"

definition pager_names :: "string list" where
  "pager_names = [''top'', ''htop'', ''less'', ''more'', ''watch'']"

definition screen_commands :: "string list" where
  "screen_commands = editor_names @ pager_names @ [''passwd'']"

lemma screen_command_pattern:
  assumes "name \<in> set screen_commands"
  shows "\<exists>names. rx_command names \<in> set interactiveCommandPatterns \<and> name \<in> set names"
proof -
  have "rx_command editor_names \<in> set interactiveCommandPatterns"
    unfolding interactiveCommandPatterns_def editor_names_def list.set by (rule insertI1)
  moreover have "rx_command pager_names \<in> set interactiveCommandPatterns"
    unfolding interactiveCommandPatterns_def pager_names_def list.set by (rule insertI2, rule insertI1)
  moreover have "rx_command [''passwd''] \<in> set interactiveCommandPatterns"
    unfolding interactiveCommandPatterns_def list.set
    by (rule insertI2, rule insertI2, rule insertI2, rule insertI1)
  moreover have "name \<in> set editor_names \<or> name \<in> set pager_names \<or> name \<in> set [''passwd'']"
    using assms unfolding screen_commands_def set_append Un_iff .
  ultimately show ?thesis by blast
qed

lemma screen_command_word:
  "name \<in> set screen_commands \<Longrightarrow> name \<noteq> [] \<and> word_char (last name)"
proof -
  have "list_all (\<lambda>n. n \<noteq> [] \<and> word_char (last n)) screen_commands" by code_simp
  then show "name \<in> set screen_commands \<Longrightarrow> name \<noteq> [] \<and> word_char (last name)"
    by (auto simp: list_all_iff)
qed

text \<open>
  A full-screen or password command is refused wherever a shell would start it on the line:
  at the beginning, or after a semicolon, an ampersand or a bar and any white space, whatever
  stands before it and whatever argument follows.
\<close>

theorem IsInteractiveCommand_detects:
  assumes "name \<in> set screen_commands"
    and "\<not> word_opt (head_opt rest)"
    and "TrimSpace command = before @ name @ rest"
    and "before = [] \<or>
      (\<exists>pre sep spaces. before = pre @ sep # spaces \<and>
         sep \<in> {CHR '';'', CHR ''&'', CHR ''|''} \<and> set spaces \<subseteq> set rx_space)"
  shows "IsInteractiveCommand command"
proof -
  obtain names where names: "rx_command names \<in> set interactiveCommandPatterns" "name \<in> set names"
    using screen_command_pattern [OF assms(1)] by blast
  note word = screen_command_word [OF assms(1)]
  have "MatchString (rx_command names) (TrimSpace command)"
    using assms(4)
  proof
    assume b: "before = []"
    have "(Some (last name), rest) \<in> set (rx_ends (rx_command names) (None, name @ rest))"
      using names(2) word assms(2) rx_cmd_start_begin
      by (intro rx_command_match) (simp_all add: word_ends_def)
    then show ?thesis
      by (intro MatchString_at [of _ "[]" "name @ rest"]) (simp_all add: assms(3) b)
  next
    assume "\<exists>pre sep spaces. before = pre @ sep # spaces \<and>
      sep \<in> {CHR '';'', CHR ''&'', CHR ''|''} \<and> set spaces \<subseteq> set rx_space"
    then obtain pre sep spaces where b: "before = pre @ sep # spaces"
      and sep: "sep \<in> {CHR '';'', CHR ''&'', CHR ''|''}" "set spaces \<subseteq> set rx_space" by blast
    let ?p = "if pre = [] then None else Some (last pre)"
    obtain q where "(q, name @ rest) \<in> set (rx_ends rx_cmd_start (?p, sep # spaces @ name @ rest))"
      using rx_cmd_start_sep [OF sep] by blast
    then have "(Some (last name), rest) \<in>
        set (rx_ends (rx_command names) (?p, sep # spaces @ name @ rest))"
      using names(2) word assms(2) by (intro rx_command_match) (simp_all add: word_ends_def)
    then show ?thesis
      by (intro MatchString_at [of _ pre "sep # spaces @ name @ rest"]) (simp_all add: assms(3) b)
  qed
  moreover have "TrimSpace command \<noteq> []" using assms(3) word by simp
  ultimately show ?thesis
    using names(1) by (auto simp: IsInteractiveCommand_def Let_def list_ex_iff)
qed

theorem IsInteractiveCommand_detects_witness: "IsInteractiveCommand '' ls |  less -R ''"
proof (rule IsInteractiveCommand_detects [of "''less''" "'' -R''" _ "''ls |  ''"])
  show "''less'' \<in> set screen_commands" by code_simp
  show "\<not> word_opt (head_opt '' -R'')" by code_simp
  show "TrimSpace '' ls |  less -R '' = ''ls |  '' @ ''less'' @ '' -R''" by code_simp
  have "''ls |  '' = ''ls '' @ CHR ''|'' # ''  ''" "set ''  '' \<subseteq> set rx_space" by code_simp+
  then show "''ls |  '' = [] \<or> (\<exists>pre sep spaces. ''ls |  '' = pre @ sep # spaces \<and>
      sep \<in> {CHR '';'', CHR ''&'', CHR ''|''} \<and> set spaces \<subseteq> set rx_space)" by blast
qed

lemma interactive_samples:
  "\<not> IsInteractiveCommand (''cd /etc'' @ [CHR 0x0A] @ ''vim hosts'')"
  "\<not> IsInteractiveCommand ''sudo -n true; sudo reboot''"
  by code_simp+

text \<open>
  What the recognition does not see: a command that needs a terminal on the second line of
  the text, and every password prompt of \<open>sudo\<close> once the text contains \<open>sudo -n\<close> anywhere.
\<close>

theorem IsInteractiveCommand_misses:
  "\<not> IsInteractiveCommand (''cd /etc'' @ [CHR 0x0A] @ ''vim hosts'') \<and>
   \<not> IsInteractiveCommand ''sudo -n true; sudo reboot''"
  using interactive_samples by blast

section \<open>The list of tasks\<close>

text \<open>
  \<open>List\<close> gives every task once, ordered by the text of its creation time. The text is not
  the time: a task created on a whole second is listed before one created half a second later,
  although the newest should come first.
\<close>

theorem batch_List_order:
  "mset (batch_List m) = mset (map (rt_task \<circ> snd) m) \<and>
   sorted (map (\<lambda>t. RFC3339Nano (task_CreatedAt t)) (rev (batch_List m))) \<and>
   RFC3339Nano 1700000005000000000 > RFC3339Nano 1700000005500000000"
proof -
  have "mset (batch_List m) = mset (map (rt_task \<circ> snd) m)"
    unfolding batch_List_def by (simp only: mset_rev mset_sort)
  then show ?thesis
    by (simp add: batch_List_def RFC3339Nano_not_monotone)
qed

section \<open>Runs at concrete inputs\<close>

definition sample_request :: StartBatchCommandRequest where
  "sample_request =
     \<lparr>sreq_Command = '' uptime '', sreq_ServerIDs = [4, 0, 9, 4], sreq_TimeoutSeconds = 0,
      sreq_Concurrency = 50\<rparr>"

text \<open>The start is worked out once; the steps after it are run from the world it gives.\<close>

definition normal_request :: StartBatchCommandRequest where
  "normal_request =
     \<lparr>sreq_Command = ''uptime'', sreq_ServerIDs = [4, 9], sreq_TimeoutSeconds = 60,
      sreq_Concurrency = 10\<rparr>"

definition started_world :: batch_world where
  "started_world =
     \<lparr>bw_tasks = [(''t'', new_runtime (new_task 0 ''t'' normal_request))],
      bw_runs = (\<lambda>_. None)(''t'' \<mapsto> (\<lambda>sid. if sid \<in> set [4, 9] then Some new_run else None))\<rparr>"

lemma sample_normal: "batch_normalizeStartRequest sample_request = normal_request"
  by code_simp

lemma uptime_plain: "\<not> IsInteractiveCommand ''uptime''"
  by code_simp

definition LStart_sample :: "int \<times> batch_label" where
  "LStart_sample = (0, LStart ''t'' sample_request)"

lemma sample_started: "batch_run pf no_batches (LStart_sample # xs) = batch_run pf started_world xs"
proof -
  have "batch_start_world 0 ''t'' sample_request no_batches = started_world"
    using uptime_plain
    by (simp add: batch_start_world_def batch_Start_def sample_normal normal_request_def
        no_batches_def started_world_def new_task_def Let_def)
  then show ?thesis by (simp add: batch_run_def batch_next_def LStart_sample_def)
qed

definition sample_task :: "(int \<times> batch_label) list \<Rightarrow> taskRuntime" where
  "sample_task xs = the (map_of (bw_tasks (batch_run linux_errno started_world xs)) ''t'')"

lemma sample_task_Some:
  "map_of (bw_tasks (batch_run linux_errno started_world xs)) ''t'' \<noteq> None \<Longrightarrow>
     map_of (bw_tasks (batch_run linux_errno no_batches (LStart_sample # xs))) ''t''
       = Some (sample_task xs)"
  by (auto simp: sample_task_def sample_started)

definition sample_steps :: "(int \<times> batch_label) list" where
  "sample_steps =
     [(1, LRun ''t'' 4 AnsNone), (2, LRun ''t'' 4 AnsNone), (3, LRun ''t'' 9 AnsNone)]"

definition sample_finish :: "(int \<times> batch_label) list" where
  "sample_finish =
     [(5, LCancelTask ''t''), (6, LRun ''t'' 9 AnsContextDone), (7, LRun ''t'' 4 AnsNone),
      (8, LFinish ''t'')]"

theorem batch_result_final_witness:
  "\<exists>r' \<in> set (task_Results (rt_task (sample_task
     ([(5, LCancelServer ''t'' 4)] @ [(6, LRun ''t'' 4 AnsNone)])))).
     res_Status r' = BatchCommandCanceled"
proof -
  let ?xs = "[(5, LCancelServer ''t'' 4)]"
  let ?ys = "[(6, LRun ''t'' 4 AnsNone)]"
  let ?r = "hd (task_Results (rt_task (sample_task ?xs)))"
  have r: "?r \<in> set (task_Results (rt_task (sample_task ?xs)))"
    by (rule hd_in_set) code_simp
  have st: "res_Status ?r = BatchCommandCanceled" by code_simp
  have a: "map_of (bw_tasks (batch_run linux_errno started_world ?xs)) ''t'' \<noteq> None"
    by code_simp
  have b: "map_of (bw_tasks (batch_run linux_errno started_world (?xs @ ?ys))) ''t'' \<noteq> None"
    by code_simp
  obtain r' where r': "r' \<in> set (task_Results (rt_task (sample_task (?xs @ ?ys))))"
    "r' = ?r\<lparr>res_ServerName := res_ServerName r', res_Host := res_Host r'\<rparr>"
    using batch_result_final [OF sample_task_Some [OF a] r, of ?ys "sample_task (?xs @ ?ys)"]
      sample_task_Some [OF b] st
    by (auto simp: isActiveStatus_def)
  from arg_cong [OF r'(2), of res_Status] have "res_Status r' = res_Status ?r" by simp
  then show ?thesis using r'(1) st by auto
qed

theorem batch_concurrency_bound_witness:
  "task_Concurrency (rt_task (sample_task sample_steps)) \<le> 10"
proof -
  have "map_of (bw_tasks (batch_run linux_errno started_world sample_steps)) ''t'' \<noteq> None"
    by code_simp
  from batch_concurrency_bound [OF sample_task_Some [OF this]] show ?thesis by blast
qed

theorem batch_task_ends_final_witness:
  "list_all (\<lambda>r. \<not> isActiveStatus (res_Status r))
     (task_Results (rt_task (sample_task (sample_steps @ sample_finish))))"
proof -
  have a: "map_of (bw_tasks (batch_run linux_errno started_world (sample_steps @ sample_finish))) ''t'' \<noteq> None"
    by code_simp
  have "rt_done (sample_task (sample_steps @ sample_finish))" by code_simp
  then show ?thesis
    using batch_task_ends_final [OF sample_task_Some [OF a]] unfolding list_all_iff by blast
qed

theorem batch_output_bound_witness:
  "length (res_Stdout (hd (task_Results (rt_task (sample_task sample_steps)))))
     + length (res_Stderr (hd (task_Results (rt_task (sample_task sample_steps))))) \<le> 1048576"
proof -
  let ?r = "hd (task_Results (rt_task (sample_task sample_steps)))"
  have a: "map_of (bw_tasks (batch_run linux_errno started_world sample_steps)) ''t'' \<noteq> None"
    by code_simp
  have "?r \<in> set (task_Results (rt_task (sample_task sample_steps)))"
    by (rule hd_in_set) code_simp
  moreover have "\<not> res_OutputTruncated ?r" by code_simp
  ultimately show ?thesis
    using batch_output_bound [OF sample_task_Some [OF a], of ?r] by simp
qed

theorem batch_StopServer_final_witness:
  "\<not> has_active_server 4 (sample_task (sample_steps @ [(5, LStopServer 4)] @ [(6, LRun ''t'' 4 AnsNone)]))"
proof -
  let ?xs = "sample_steps @ [(5, LStopServer 4)] @ [(6, LRun ''t'' 4 AnsNone)]"
  have a: "map_of (bw_tasks (batch_run linux_errno started_world ?xs)) ''t'' \<noteq> None"
    by code_simp
  have b: "bw_runs (batch_run linux_errno no_batches (LStart_sample # sample_steps)) ''t'' \<noteq> None"
    unfolding sample_started by code_simp
  show ?thesis
    using batch_StopServer_final [OF _ b, of 4 5 "[(6, LRun ''t'' 4 AnsNone)]" "sample_task ?xs"]
      sample_task_Some [OF a] by simp
qed

end
