(* ===== verification/ConnState.thy ===== *)
theory ConnState
  imports ConnError
begin

text \<open>
  Package \<open>internal/connectionstate\<close>: the tracker that merges what the monitor, the terminals
  and the file browser report of a server into one runtime state, and publishes it. Each
  operation holds the tracker's lock while it changes the state, so it is one step; it returns
  the tracker and the states it emitted. The time of an operation is an argument.
\<close>

section \<open>State\<close>

text \<open>The fields of \<open>domain.MonitorSnapshot\<close> the tracker reads; the others are metrics.\<close>

record MonitorSnapshot =
  snap_ConnectionID :: int
  snap_Status :: ConnectionStatus
  snap_MonitorActive :: bool
  snap_ConnectionError :: "ConnectionError option"

text \<open>The fields of \<open>domain.SFTPState\<close> the tracker reads.\<close>

record SFTPState =
  sstate_ConnectionID :: int
  sstate_Status :: SFTPStatus
  sstate_Active :: bool

record conn_record =
  cr_monitorStatus :: ConnectionStatus
  cr_monitorActive :: bool
  cr_terminals :: "(string, string) gomap"
  cr_sftpStatus :: SFTPStatus
  cr_sftpActive :: bool
  cr_disconnecting :: bool
  cr_lastError :: "ConnectionError option"

record Tracker =
  tr_records :: "int \<Rightarrow> conn_record option"
  tr_blocked :: "int \<Rightarrow> bool"
  tr_emit :: bool

type_synonym tracker_result = "Tracker \<times> ConnectionRuntimeState list"

definition new_tracker :: "bool \<Rightarrow> Tracker" where
  "new_tracker emit =
     \<lparr>tr_records = (\<lambda>_. None), tr_blocked = (\<lambda>_. False), tr_emit = emit\<rparr>"

text \<open>The zero value of \<open>SFTPStatus\<close> is the empty string, none of the constants.\<close>

definition fresh_record :: conn_record where
  "fresh_record =
     \<lparr>cr_monitorStatus = StatusOffline, cr_monitorActive = False, cr_terminals = [],
      cr_sftpStatus = SFTPStatusOther [], cr_sftpActive = False, cr_disconnecting = False,
      cr_lastError = None\<rparr>"

definition get_record :: "Tracker \<Rightarrow> int \<Rightarrow> conn_record" where
  "get_record t i = (case tr_records t i of None \<Rightarrow> fresh_record | Some r \<Rightarrow> r)"

definition put_record :: "Tracker \<Rightarrow> int \<Rightarrow> conn_record \<Rightarrow> Tracker" where
  "put_record t i r = t\<lparr>tr_records := (tr_records t)(i \<mapsto> r)\<rparr>"

section \<open>The merged state\<close>

definition buildState :: "string \<Rightarrow> int \<Rightarrow> conn_record \<Rightarrow> ConnectionRuntimeState" where
  "buildState now i r =
     (let terminalActive = ''online'' \<in> snd ` set (cr_terminals r);
          terminalConnecting = ''connecting'' \<in> snd ` set (cr_terminals r);
          connecting = terminalConnecting
            \<or> cr_sftpActive r \<and> cr_sftpStatus r = SFTPStatusConnecting
            \<or> cr_monitorActive r \<and> (cr_monitorStatus r = StatusConnecting
                                    \<or> cr_monitorStatus r = StatusReconnecting)
      in \<lparr>rs_ConnectionID = i,
          rs_Status =
            (if cr_disconnecting r then StatusDisconnecting
             else if terminalActive \<or> cr_sftpActive r \<or> cr_monitorStatus r = StatusOnline
               then StatusOnline
             else case cr_lastError r of
               Some e \<Rightarrow> StatusForCode (ce_Code e)
             | None \<Rightarrow>
                 if connecting then StatusConnecting
                 else if cr_monitorStatus r = StatusDisconnected then StatusDisconnected
                 else StatusOffline),
          rs_MonitorActive = cr_monitorActive r,
          rs_TerminalActive = terminalActive,
          rs_TerminalConnecting = terminalConnecting,
          rs_SFTPActive = cr_sftpActive r,
          rs_Connecting = connecting,
          rs_HasActiveSession =
            (cr_monitorActive r \<or> terminalActive \<or> terminalConnecting \<or> cr_sftpActive r),
          rs_LastError = cr_lastError r,
          rs_UpdatedAt = now\<rparr>)"

definition offline_state :: "string \<Rightarrow> int \<Rightarrow> ConnectionRuntimeState" where
  "offline_state now i =
     \<lparr>rs_ConnectionID = i, rs_Status = StatusOffline, rs_MonitorActive = False,
      rs_TerminalActive = False, rs_TerminalConnecting = False, rs_SFTPActive = False,
      rs_Connecting = False, rs_HasActiveSession = False, rs_LastError = None,
      rs_UpdatedAt = now\<rparr>"

definition publish :: "Tracker \<Rightarrow> ConnectionRuntimeState \<Rightarrow> ConnectionRuntimeState list" where
  "publish t st = (if tr_emit t then [st] else [])"

definition save_publish :: "string \<Rightarrow> Tracker \<Rightarrow> int \<Rightarrow> conn_record \<Rightarrow> tracker_result" where
  "save_publish now t i r = (put_record t i r, publish t (buildState now i r))"

section \<open>Operations\<close>

definition UpdateMonitor :: "string \<Rightarrow> MonitorSnapshot \<Rightarrow> Tracker \<Rightarrow> tracker_result" where
  "UpdateMonitor now snapshot t =
     (let i = snap_ConnectionID snapshot;
          current = (get_record t i)\<lparr>cr_monitorStatus := snap_Status snapshot,
                                     cr_monitorActive := snap_MonitorActive snapshot\<rparr>
      in if tr_blocked t i then (t, [])
         else save_publish now t i
           (case snap_ConnectionError snapshot of
              Some e \<Rightarrow> current\<lparr>cr_lastError := Some e\<rparr>
            | None \<Rightarrow>
                if snap_Status snapshot = StatusConnecting \<or> snap_Status snapshot = StatusOnline
                then current\<lparr>cr_lastError := None\<rparr> else current))"

definition UpdateTerminal ::
  "string \<Rightarrow> string \<Rightarrow> int \<Rightarrow> string \<Rightarrow> ConnectionError option \<Rightarrow> Tracker \<Rightarrow> tracker_result" where
  "UpdateTerminal now sessionID i status connectionErr t =
     (let current = get_record t i;
          live = (status = ''connecting'' \<or> status = ''online'');
          current' = current\<lparr>cr_terminals :=
            (if live then AList.update sessionID status (cr_terminals current)
             else AList.delete sessionID (cr_terminals current))\<rparr>
      in if tr_blocked t i then (t, [])
         else save_publish now t i
           (case connectionErr of
              Some e \<Rightarrow> current'\<lparr>cr_lastError := Some e\<rparr>
            | None \<Rightarrow> if live then current'\<lparr>cr_lastError := None\<rparr> else current'))"

definition UpdateSFTP :: "string \<Rightarrow> SFTPState \<Rightarrow> Tracker \<Rightarrow> tracker_result" where
  "UpdateSFTP now st t =
     (let i = sstate_ConnectionID st
      in if tr_blocked t i then (t, [])
         else save_publish now t i
           ((get_record t i)
              \<lparr>cr_sftpStatus := sstate_Status st,
               cr_sftpActive := sstate_Active st \<and>
                 (sstate_Status st = SFTPStatusConnecting \<or> sstate_Status st = SFTPStatusOnline)\<rparr>))"

definition RecordFailure :: "string \<Rightarrow> int \<Rightarrow> ConnectionError \<Rightarrow> Tracker \<Rightarrow> tracker_result" where
  "RecordFailure now i e t =
     (if tr_blocked t i then (t, [])
      else save_publish now t i ((get_record t i)\<lparr>cr_lastError := Some e\<rparr>))"

definition BeginConnect :: "int \<Rightarrow> Tracker \<Rightarrow> tracker_result" where
  "BeginConnect i t =
     (put_record (t\<lparr>tr_blocked := (tr_blocked t)(i := False)\<rparr>) i
        ((get_record t i)\<lparr>cr_disconnecting := False, cr_lastError := None\<rparr>), [])"

definition BeginDisconnect :: "string \<Rightarrow> int \<Rightarrow> Tracker \<Rightarrow> tracker_result" where
  "BeginDisconnect now i t = save_publish now t i ((get_record t i)\<lparr>cr_disconnecting := True\<rparr>)"

definition disconnected_record :: conn_record where
  "disconnected_record =
     \<lparr>cr_monitorStatus = StatusDisconnected, cr_monitorActive = False, cr_terminals = [],
      cr_sftpStatus = SFTPStatusOffline, cr_sftpActive = False, cr_disconnecting = False,
      cr_lastError = None\<rparr>"

definition CompleteDisconnect :: "string \<Rightarrow> int \<Rightarrow> Tracker \<Rightarrow> tracker_result" where
  "CompleteDisconnect now i t =
     (let r = (get_record t i)\<lparr>cr_disconnecting := False, cr_monitorActive := False,
                cr_monitorStatus := StatusDisconnected, cr_terminals := [],
                cr_sftpStatus := SFTPStatusOffline, cr_sftpActive := False,
                cr_lastError := None\<rparr>
      in save_publish now (t\<lparr>tr_blocked := (tr_blocked t)(i := True)\<rparr>) i r)"

definition Tracker_Remove :: "string \<Rightarrow> int \<Rightarrow> Tracker \<Rightarrow> tracker_result" where
  "Tracker_Remove now i t =
     (t\<lparr>tr_records := (tr_records t)(i := None), tr_blocked := (tr_blocked t)(i := True)\<rparr>,
      publish t (offline_state now i))"

definition Tracker_Get :: "string \<Rightarrow> int \<Rightarrow> Tracker \<Rightarrow> ConnectionRuntimeState" where
  "Tracker_Get now i t =
     (case tr_records t i of None \<Rightarrow> offline_state now i | Some r \<Rightarrow> buildState now i r)"

definition HasTerminalConnecting :: "int \<Rightarrow> Tracker \<Rightarrow> bool" where
  "HasTerminalConnecting i t = rs_TerminalConnecting (Tracker_Get [] i t)"

text \<open>The operations as values, so that a run of the tracker is a list of them.\<close>

datatype tracker_op =
    OpMonitor MonitorSnapshot
  | OpTerminal string int string "ConnectionError option"
  | OpSFTP SFTPState
  | OpFailure int ConnectionError
  | OpBeginConnect int
  | OpBeginDisconnect int
  | OpCompleteDisconnect int
  | OpRemove int

fun op_server :: "tracker_op \<Rightarrow> int" where
  "op_server (OpMonitor s) = snap_ConnectionID s"
| "op_server (OpTerminal _ i _ _) = i"
| "op_server (OpSFTP st) = sstate_ConnectionID st"
| "op_server (OpFailure i _) = i"
| "op_server (OpBeginConnect i) = i"
| "op_server (OpBeginDisconnect i) = i"
| "op_server (OpCompleteDisconnect i) = i"
| "op_server (OpRemove i) = i"

fun tracker_step :: "string \<Rightarrow> tracker_op \<Rightarrow> Tracker \<Rightarrow> tracker_result" where
  "tracker_step now (OpMonitor s) t = UpdateMonitor now s t"
| "tracker_step now (OpTerminal sid i status e) t = UpdateTerminal now sid i status e t"
| "tracker_step now (OpSFTP st) t = UpdateSFTP now st t"
| "tracker_step now (OpFailure i e) t = RecordFailure now i e t"
| "tracker_step now (OpBeginConnect i) t = BeginConnect i t"
| "tracker_step now (OpBeginDisconnect i) t = BeginDisconnect now i t"
| "tracker_step now (OpCompleteDisconnect i) t = CompleteDisconnect now i t"
| "tracker_step now (OpRemove i) t = Tracker_Remove now i t"

text \<open>What the other components send: an update or a failure.\<close>

fun is_report :: "tracker_op \<Rightarrow> bool" where
  "is_report (OpMonitor _) = True"
| "is_report (OpTerminal _ _ _ _) = True"
| "is_report (OpSFTP _) = True"
| "is_report (OpFailure _ _) = True"
| "is_report _ = False"

definition tracker_next :: "Tracker \<Rightarrow> string \<times> tracker_op \<Rightarrow> Tracker" where
  "tracker_next t x = fst (tracker_step (fst x) (snd x) t)"

definition tracker_run :: "Tracker \<Rightarrow> (string \<times> tracker_op) list \<Rightarrow> Tracker" where
  "tracker_run t xs = foldl tracker_next t xs"

lemmas tracker_defs =
  UpdateMonitor_def UpdateTerminal_def UpdateSFTP_def RecordFailure_def BeginConnect_def
  BeginDisconnect_def CompleteDisconnect_def Tracker_Remove_def save_publish_def put_record_def

section \<open>The invariant of the tracker\<close>

text \<open>
  Session identifiers are distinct keys, a live terminal is connecting or online, the file
  browser is active only when it is, and a blocked server has no live session on record.
\<close>

definition record_ok :: "conn_record \<Rightarrow> bool" where
  "record_ok r \<longleftrightarrow>
     gomap_ok (cr_terminals r) \<and>
     (\<forall>p \<in> set (cr_terminals r). snd p = ''connecting'' \<or> snd p = ''online'') \<and>
     (cr_sftpActive r \<longrightarrow>
        cr_sftpStatus r = SFTPStatusConnecting \<or> cr_sftpStatus r = SFTPStatusOnline)"

definition idle_record :: "conn_record \<Rightarrow> bool" where
  "idle_record r \<longleftrightarrow> \<not> cr_monitorActive r \<and> cr_terminals r = [] \<and> \<not> cr_sftpActive r \<and>
     (cr_monitorStatus r = StatusDisconnected \<or> cr_monitorStatus r = StatusOffline) \<and>
     cr_lastError r = None"

definition tracker_ok :: "Tracker \<Rightarrow> bool" where
  "tracker_ok t \<longleftrightarrow>
     (\<forall>i r. tr_records t i = Some r \<longrightarrow> record_ok r \<and> (tr_blocked t i \<longrightarrow> idle_record r))"

lemma record_ok_fresh [simp]: "record_ok fresh_record"
  by (simp add: record_ok_def fresh_record_def)

lemma record_ok_get: "tracker_ok t \<Longrightarrow> record_ok (get_record t i)"
  by (auto simp: tracker_ok_def get_record_def split: option.splits)

lemma tracker_ok_new [simp]: "tracker_ok (new_tracker emit)"
  by (simp add: tracker_ok_def new_tracker_def)

lemma tracker_ok_put:
  "tracker_ok t \<Longrightarrow> record_ok r \<Longrightarrow> (tr_blocked t i \<longrightarrow> idle_record r) \<Longrightarrow> tracker_ok (put_record t i r)"
  by (auto simp: tracker_ok_def put_record_def)

lemma record_ok_terminal:
  assumes "record_ok r"
  shows "record_ok (r\<lparr>cr_terminals :=
    (if status = ''connecting'' \<or> status = ''online''
     then AList.update sid status (cr_terminals r) else AList.delete sid (cr_terminals r))\<rparr>)"
  using assms set_gomap_update_subset [of sid status "cr_terminals r"]
  by (auto simp: record_ok_def set_gomap_delete)

lemma record_ok_error [simp]: "record_ok (r\<lparr>cr_lastError := e\<rparr>) = record_ok r"
  by (simp add: record_ok_def)

lemma tracker_next_ok:
  assumes "tracker_ok t"
  shows "tracker_ok (tracker_next t x)"
proof (cases "snd x")
  case (OpMonitor s)
  have "record_ok (get_record t (snap_ConnectionID s))" using assms by (rule record_ok_get)
  then have "record_ok ((get_record t (snap_ConnectionID s))
      \<lparr>cr_monitorStatus := snap_Status s, cr_monitorActive := snap_MonitorActive s\<rparr>)"
    by (simp add: record_ok_def)
  with OpMonitor assms show ?thesis
    by (auto simp: tracker_next_def UpdateMonitor_def Let_def save_publish_def
        intro!: tracker_ok_put split: option.splits)
next
  case (OpTerminal sid i status e)
  have "record_ok (get_record t i)" using assms by (rule record_ok_get)
  from record_ok_terminal [OF this, of status sid] OpTerminal assms show ?thesis
    by (auto simp: tracker_next_def UpdateTerminal_def Let_def save_publish_def
        intro!: tracker_ok_put split: option.splits)
next
  case (OpSFTP st)
  have "record_ok (get_record t (sstate_ConnectionID st))" using assms by (rule record_ok_get)
  with OpSFTP assms show ?thesis
    by (auto simp: tracker_next_def UpdateSFTP_def Let_def save_publish_def record_ok_def
        intro!: tracker_ok_put)
next
  case (OpFailure i e)
  with assms show ?thesis
    by (auto simp: tracker_next_def RecordFailure_def save_publish_def
        intro!: tracker_ok_put record_ok_get)
next
  case (OpBeginConnect i)
  have "record_ok (get_record t i)" using assms by (rule record_ok_get)
  with OpBeginConnect assms show ?thesis
    by (auto simp: tracker_next_def BeginConnect_def tracker_ok_def put_record_def record_ok_def)
next
  case (OpBeginDisconnect i)
  have "record_ok (get_record t i)" using assms by (rule record_ok_get)
  then have "record_ok ((get_record t i)\<lparr>cr_disconnecting := True\<rparr>)" by (simp add: record_ok_def)
  moreover have "tr_blocked t i \<longrightarrow> idle_record ((get_record t i)\<lparr>cr_disconnecting := True\<rparr>)"
    using assms
    by (auto simp: tracker_ok_def get_record_def idle_record_def fresh_record_def
        split: option.splits)
  ultimately show ?thesis
    using OpBeginDisconnect assms
    by (auto simp: tracker_next_def BeginDisconnect_def save_publish_def intro!: tracker_ok_put)
next
  case (OpCompleteDisconnect i)
  with assms show ?thesis
    by (auto simp: tracker_next_def CompleteDisconnect_def Let_def save_publish_def
        put_record_def tracker_ok_def record_ok_def idle_record_def)
next
  case (OpRemove i)
  with assms show ?thesis
    by (auto simp: tracker_next_def Tracker_Remove_def tracker_ok_def)
qed

interpretation tracker: invariant_component tracker_next tracker_ok
  by unfold_locales (rule tracker_next_ok)

lemma tracker_run_ok: "tracker_ok t \<Longrightarrow> tracker_ok (tracker_run t xs)"
  unfolding tracker_run_def by (rule tracker.run_keeps)

lemma tracker_run_simps [simp]:
  "tracker_run t [] = t"
  "tracker_run t (x # xs) = tracker_run (tracker_next t x) xs"
  by (simp_all add: tracker_run_def)

section \<open>What an operation changes and what it publishes\<close>

lemma tracker_step_other:
  assumes "op_server op \<noteq> j"
  shows "tr_records (fst (tracker_step now op t)) j = tr_records t j"
    and "tr_blocked (fst (tracker_step now op t)) j = tr_blocked t j"
  using assms by (cases op; auto simp: tracker_defs Let_def)+

lemma tracker_step_emit [simp]: "tr_emit (fst (tracker_step now op t)) = tr_emit t"
  by (cases op) (auto simp: tracker_defs Let_def)

lemma tracker_step_blocked_report:
  "is_report op \<Longrightarrow> tr_blocked t (op_server op) \<Longrightarrow> tracker_step now op t = (t, [])"
  by (cases op) (auto simp: tracker_defs Let_def)

lemma publish_cases: "publish t st = [] \<or> publish t st = [st]"
  by (simp add: publish_def)

lemma tracker_step_publishes_get:
  "st \<in> set (snd (tracker_step now op t)) \<Longrightarrow>
     st = Tracker_Get now (op_server op) (fst (tracker_step now op t))"
  by (cases op) (auto simp: tracker_defs Let_def Tracker_Get_def publish_def split: if_splits)

lemma tracker_step_publishes_once:
  "length (snd (tracker_step now op t)) =
     (if tr_emit t \<and> (is_report op \<longrightarrow> \<not> tr_blocked t (op_server op)) \<and>
         op \<noteq> OpBeginConnect (op_server op) then 1 else 0)"
  by (cases op) (auto simp: tracker_defs Let_def publish_def)

text \<open>A run in which server \<open>i\<close> is blocked and only reported on leaves its record alone.\<close>

lemma blocked_run:
  assumes "tr_blocked t i"
    and "\<forall>x \<in> set xs. op_server (snd x) = i \<longrightarrow> is_report (snd x)"
  shows "tr_records (tracker_run t xs) i = tr_records t i \<and> tr_blocked (tracker_run t xs) i"
  using assms
proof (induction xs arbitrary: t)
  case (Cons x xs)
  have "tr_records (tracker_next t x) i = tr_records t i \<and> tr_blocked (tracker_next t x) i"
  proof (cases "op_server (snd x) = i")
    case True
    with Cons.prems have "tracker_step (fst x) (snd x) t = (t, [])"
      by (intro tracker_step_blocked_report) auto
    with Cons.prems show ?thesis by (simp add: tracker_next_def)
  next
    case False
    with Cons.prems show ?thesis by (simp add: tracker_next_def tracker_step_other)
  qed
  with Cons show ?case by simp
qed simp

lemma CompleteDisconnect_record:
  "tr_records (fst (CompleteDisconnect now i t)) i = Some disconnected_record"
  "tr_blocked (fst (CompleteDisconnect now i t)) i"
  by (simp_all add: CompleteDisconnect_def Let_def save_publish_def put_record_def
      disconnected_record_def)

lemma buildState_disconnected:
  "buildState now i disconnected_record =
     (offline_state now i)\<lparr>rs_Status := StatusDisconnected\<rparr>"
  by (simp add: buildState_def disconnected_record_def offline_state_def Let_def)

lemma buildState_idle:
  "idle_record r \<Longrightarrow> \<not> rs_HasActiveSession (buildState now i r) \<and> \<not> rs_Connecting (buildState now i r) \<and>
     rs_Status (buildState now i r) \<in> {StatusDisconnecting, StatusDisconnected, StatusOffline}"
  by (auto simp: buildState_def idle_record_def Let_def)

lemma buildState_connecting:
  "rs_Connecting (buildState now i r) \<Longrightarrow> rs_HasActiveSession (buildState now i r)"
  by (auto simp: buildState_def Let_def)

lemma disconnected_sticks:
  assumes "\<forall>x \<in> set xs. op_server (snd x) = i \<longrightarrow> is_report (snd x)"
  shows "Tracker_Get later i (tracker_run (fst (CompleteDisconnect now i t)) xs) =
    (offline_state later i)\<lparr>rs_Status := StatusDisconnected\<rparr>"
  using blocked_run [OF CompleteDisconnect_record(2) assms, of now t]
  by (simp add: Tracker_Get_def CompleteDisconnect_record(1) buildState_disconnected)

section \<open>Properties\<close>

text \<open>
  C8: Once the disconnect of a server is complete, nothing the monitor, the terminals or the
  file browser still report of it revives it: after any sequence of operations in which that
  server is only reported on, whatever happens to other servers, its state is disconnected,
  without a session and without an error.
\<close>

theorem CompleteDisconnect_sticks:
  assumes "\<forall>x \<in> set xs. op_server (snd x) = i \<longrightarrow> is_report (snd x)"
  shows "Tracker_Get later i (tracker_run (fst (CompleteDisconnect now i t)) xs) =
    \<lparr>rs_ConnectionID = i, rs_Status = StatusDisconnected, rs_MonitorActive = False,
     rs_TerminalActive = False, rs_TerminalConnecting = False, rs_SFTPActive = False,
     rs_Connecting = False, rs_HasActiveSession = False, rs_LastError = None,
     rs_UpdatedAt = later\<rparr>"
  using disconnected_sticks [OF assms] by (simp add: offline_state_def)

definition sample_snapshot :: MonitorSnapshot where
  "sample_snapshot =
     \<lparr>snap_ConnectionID = 7, snap_Status = StatusOnline, snap_MonitorActive = True,
      snap_ConnectionError = None\<rparr>"

theorem CompleteDisconnect_sticks_witness:
  "rs_Status (Tracker_Get ''t3'' 7
     (tracker_run (fst (CompleteDisconnect ''t1'' 7 (new_tracker True)))
        [(''t2'', OpMonitor sample_snapshot), (''t2'', OpTerminal ''s1'' 7 ''online'' None),
         (''t2'', OpBeginConnect 8)])) = StatusDisconnected"
  by (subst CompleteDisconnect_sticks) (simp_all add: sample_snapshot_def)

text \<open>
  Every state the tracker publishes is the state a reader gets at that moment for the same
  server, and an operation publishes exactly one state unless nobody listens, the server is
  blocked against reports, or the operation is the start of a connection.
\<close>

theorem tracker_publishes_what_it_stores:
  "snd (tracker_step now op t) =
     (if tr_emit t \<and> (is_report op \<longrightarrow> \<not> tr_blocked t (op_server op)) \<and>
         op \<noteq> OpBeginConnect (op_server op)
      then [Tracker_Get now (op_server op) (fst (tracker_step now op t))] else [])"
proof (cases "snd (tracker_step now op t)")
  case Nil
  with tracker_step_publishes_once [of now op t] show ?thesis by (auto split: if_splits)
next
  case (Cons st sts)
  with tracker_step_publishes_once [of now op t] have "sts = []"
    by (auto split: if_splits)
  moreover have "st = Tracker_Get now (op_server op) (fst (tracker_step now op t))"
    using Cons by (intro tracker_step_publishes_get) simp
  ultimately show ?thesis
    using Cons tracker_step_publishes_once [of now op t] by (auto split: if_splits)
qed

theorem tracker_publishes_what_it_stores_witness:
  "snd (tracker_step ''t'' (OpMonitor sample_snapshot) (new_tracker True)) =
     [Tracker_Get ''t'' 7 (fst (tracker_step ''t'' (OpMonitor sample_snapshot) (new_tracker True)))]"
  by (subst tracker_publishes_what_it_stores) (simp add: sample_snapshot_def new_tracker_def)

text \<open>
  Servers are independent: an operation on one server leaves the state and the block of
  every other server as they were.
\<close>

theorem tracker_isolation:
  assumes "op_server op \<noteq> j"
  shows "Tracker_Get now' j (fst (tracker_step now op t)) = Tracker_Get now' j t \<and>
    tr_blocked (fst (tracker_step now op t)) j = tr_blocked t j"
  using tracker_step_other [OF assms] by (simp add: Tracker_Get_def)

theorem tracker_isolation_witness:
  "Tracker_Get ''t'' 8 (fst (tracker_step ''t'' (OpMonitor sample_snapshot) (new_tracker True))) =
     offline_state ''t'' 8"
  using tracker_isolation [of "OpMonitor sample_snapshot" 8 "''t''" "''t''" "new_tracker True"]
  by (simp add: sample_snapshot_def Tracker_Get_def new_tracker_def)

text \<open>
  In every state the tracker can reach, a blocked server shows no active session, is not
  connecting, and is disconnecting, disconnected or offline; and a server that connects without
  being blocked has an active session.
\<close>

theorem tracker_blocked_idle:
  assumes "t = tracker_run (new_tracker emit) xs"
  shows "(tr_blocked t i \<longrightarrow>
      \<not> rs_HasActiveSession (Tracker_Get now i t) \<and> \<not> rs_Connecting (Tracker_Get now i t) \<and>
      rs_Status (Tracker_Get now i t) \<in> {StatusDisconnecting, StatusDisconnected, StatusOffline}) \<and>
    (rs_Connecting (Tracker_Get now i t) \<longrightarrow> rs_HasActiveSession (Tracker_Get now i t))"
proof -
  have ok: "tracker_ok t" unfolding assms by (intro tracker_run_ok) simp
  show ?thesis
  proof (cases "tr_records t i")
    case None
    then show ?thesis by (simp add: Tracker_Get_def offline_state_def)
  next
    case (Some r)
    with ok have "tr_blocked t i \<longrightarrow> idle_record r" by (simp add: tracker_ok_def)
    then show ?thesis
      using Some buildState_idle [of r now i] buildState_connecting [of now i r]
      by (auto simp: Tracker_Get_def)
  qed
qed

theorem tracker_blocked_idle_witness:
  "\<not> rs_HasActiveSession (Tracker_Get ''t'' 7 (tracker_run (new_tracker True)
     [(''t1'', OpMonitor sample_snapshot), (''t2'', OpRemove 7),
      (''t3'', OpBeginDisconnect 7)]))"
proof -
  have "tr_blocked (tracker_run (new_tracker True)
     [(''t1'', OpMonitor sample_snapshot), (''t2'', OpRemove 7), (''t3'', OpBeginDisconnect 7)]) 7"
    by (simp add: tracker_next_def tracker_defs new_tracker_def sample_snapshot_def)
  then show ?thesis
    using tracker_blocked_idle [OF refl] by blast
qed

end
