(* ===== verification/LinuxParsers.thy ===== *)
theory LinuxParsers
  imports GoStrings "HOL-Library.Product_Lexorder" "HOL-Library.List_Lexorder" "HOL-Library.Char_ord"
begin

text \<open>
  Package \<open>internal/linuxmonitor\<close>, \<open>parsers.go\<close>: what the monitor reads from the text a server
  prints (\<open>/proc/stat\<close>, \<open>/proc/meminfo\<close>, routes, \<open>/proc/net/dev\<close>, \<open>ip\<close>, \<open>ifconfig\<close>, \<open>df\<close>,
  \<open>/proc\<close> processes). A \<open>uint64\<close> is a 64 bit word, so sums and products wrap as they do there. A
  quotient of floating point numbers is kept as the exact pair of numerator and denominator it
  is computed from. The functions on text that is a floating point number (load average,
  up-time, \<open>ps\<close> percentages, the rendering of a rate) are not modelled.
\<close>

type_synonym u64 = "64 word"

definition ParseUint64 :: "string \<Rightarrow> num_err + u64" where
  "ParseUint64 s =
     (case ParseUint s 10 of Inl e \<Rightarrow> Inl e | Inr n \<Rightarrow> Inr (of_nat n))"

section \<open>Processor\<close>

record CPUCounters =
  cpu_User :: u64
  cpu_Nice :: u64
  cpu_System :: u64
  cpu_Idle :: u64
  cpu_IOWait :: u64
  cpu_IRQ :: u64
  cpu_SoftIRQ :: u64
  cpu_Steal :: u64
  cpu_Cores :: u64

definition cpu_total :: "CPUCounters \<Rightarrow> u64" where
  "cpu_total c =
     cpu_User c + cpu_Nice c + cpu_System c + cpu_Idle c + cpu_IOWait c + cpu_IRQ c
       + cpu_SoftIRQ c + cpu_Steal c"

definition cpu_idleTotal :: "CPUCounters \<Rightarrow> u64" where
  "cpu_idleTotal c = cpu_Idle c + cpu_IOWait c"

text \<open>The values of at most eight fds; a missing one is zero, a malformed one an error.\<close>

fun parse_cpu_fields :: "nat \<Rightarrow> string list \<Rightarrow> string + u64 list" where
  "parse_cpu_fields 0 fds = Inr []"
| "parse_cpu_fields (Suc k) [] = Inr (replicate (Suc k) 0)"
| "parse_cpu_fields (Suc k) (f # fs) =
     (case ParseUint64 f of
        Inl _ \<Rightarrow> Inl ''parse cpu field''
      | Inr v \<Rightarrow> bind_res (parse_cpu_fields k fs) (\<lambda>vs. Inr (v # vs)))"

fun parse_cpu_lines ::
  "string list \<Rightarrow> CPUCounters option \<Rightarrow> u64 \<Rightarrow> string + (CPUCounters option \<times> u64)" where
  "parse_cpu_lines [] found cores = Inr (found, cores)"
| "parse_cpu_lines (line # rest) found cores =
     (case Fields line of
        [] \<Rightarrow> parse_cpu_lines rest found cores
      | f # fs \<Rightarrow>
          if HasPrefix f ''cpu'' \<and> f \<noteq> ''cpu'' then
            parse_cpu_lines rest found
              (if is_ok (ParseUint64 (TrimPrefix f ''cpu'')) then cores + 1 else cores)
          else if f \<noteq> ''cpu'' then parse_cpu_lines rest found cores
          else if length (f # fs) < 5 then Inl ''cpu line has too few fds''
          else case parse_cpu_fields 8 fs of
            Inl e \<Rightarrow> Inl e
          | Inr vs \<Rightarrow>
              parse_cpu_lines rest
                (Some \<lparr>cpu_User = vs ! 0, cpu_Nice = vs ! 1, cpu_System = vs ! 2,
                       cpu_Idle = vs ! 3, cpu_IOWait = vs ! 4, cpu_IRQ = vs ! 5,
                       cpu_SoftIRQ = vs ! 6, cpu_Steal = vs ! 7, cpu_Cores = 0\<rparr>) cores)"

definition ParseCPUStat :: "string \<Rightarrow> string + CPUCounters" where
  "ParseCPUStat input =
     (case parse_cpu_lines (Lines input) None 0 of
        Inl e \<Rightarrow> Inl e
      | Inr (None, cores) \<Rightarrow> Inl ''aggregate cpu line not found''
      | Inr (Some c, cores) \<Rightarrow> Inr (c\<lparr>cpu_Cores := if cores = 0 then 1 else cores\<rparr>))"

text \<open>The usage is \<open>(busy / total) * 100\<close> of the pair.\<close>

definition CPUUsage :: "CPUCounters \<Rightarrow> CPUCounters \<Rightarrow> (u64 \<times> u64) option" where
  "CPUUsage previous current =
     (let previousTotal = cpu_total previous; currentTotal = cpu_total current;
          previousIdle = cpu_idleTotal previous; currentIdle = cpu_idleTotal current;
          totalDelta = currentTotal - previousTotal;
          idleDelta = currentIdle - previousIdle
      in if currentTotal \<le> previousTotal \<or> currentIdle < previousIdle then None
         else if idleDelta > totalDelta then None
         else Some (totalDelta - idleDelta, totalDelta))"

section \<open>Memory\<close>

record MemoryInfo =
  mem_Total :: u64
  mem_Available :: u64
  mem_SwapTotal :: u64
  mem_SwapFree :: u64

definition kibibyte :: u64 where "kibibyte = 1024"

definition mem_line :: "(string \<Rightarrow> u64 option) \<Rightarrow> string \<Rightarrow> (string \<Rightarrow> u64 option)" where
  "mem_line values line =
     (case Fields line of
        key # val # _ \<Rightarrow>
          (case ParseUint64 val of
             Inl _ \<Rightarrow> values | Inr v \<Rightarrow> values(TrimSuffix key '':'' \<mapsto> v * kibibyte))
      | _ \<Rightarrow> values)"

definition map_zero :: "(string \<Rightarrow> u64 option) \<Rightarrow> string \<Rightarrow> u64" where
  "map_zero values key = (case values key of None \<Rightarrow> 0 | Some v \<Rightarrow> v)"

definition ParseMemInfo :: "string \<Rightarrow> string + MemoryInfo" where
  "ParseMemInfo input =
     (let values = foldl mem_line (\<lambda>_. None) (Lines input)
      in if map_zero values ''MemTotal'' = 0 then Inl ''MemTotal not found''
         else Inr \<lparr>mem_Total = map_zero values ''MemTotal'',
                   mem_Available =
                     (case values ''MemAvailable'' of
                        Some v \<Rightarrow> v
                      | None \<Rightarrow> map_zero values ''MemFree'' + map_zero values ''Buffers''
                                 + map_zero values ''Cached''),
                   mem_SwapTotal = map_zero values ''SwapTotal'',
                   mem_SwapFree = map_zero values ''SwapFree''\<rparr>)"

section \<open>Routes and counters\<close>

fun dev_after :: "string list \<Rightarrow> string option" where
  "dev_after (a # b # rest) = (if a = ''dev'' \<and> b \<noteq> [] then Some b else dev_after (b # rest))"
| "dev_after _ = None"

fun default_dev :: "string list \<Rightarrow> string option" where
  "default_dev [] = None"
| "default_dev (line # rest) =
     (case Fields line of
        [] \<Rightarrow> default_dev rest
      | f # fs \<Rightarrow>
          if f \<noteq> ''default'' then default_dev rest
          else case dev_after fs of Some d \<Rightarrow> Some d | None \<Rightarrow> default_dev rest)"

definition ParseDefaultInterfaceIPRoute :: "string \<Rightarrow> string + string" where
  "ParseDefaultInterfaceIPRoute input =
     (case default_dev (Lines input) of
        None \<Rightarrow> Inl ''default interface not found in ip route'' | Some d \<Rightarrow> Inr d)"

text \<open>
  \<open>bufio.Scanner\<close> on lines drops the line feed and a carriage return before it, and stops with
  an error at a line that does not fit its buffer.
\<close>

definition max_scan_token :: nat where "max_scan_token = 65536"

definition scan_text :: "string \<Rightarrow> string" where
  "scan_text line = TrimSuffix (TrimSuffix line [CHR 0x0A]) [CHR 0x0D]"

definition proc_route_dev :: "string list \<Rightarrow> string option" where
  "proc_route_dev fds =
     (case fds of
        iface # dest # gateway # flags # _ \<Rightarrow>
          if iface = ''Iface'' \<or> dest \<noteq> ''00000000'' then None
          else (case ParseUint flags 16 of
                  Inl _ \<Rightarrow> None
                | Inr v \<Rightarrow> if and v 2 \<noteq> 0 then Some iface else None)
      | _ \<Rightarrow> None)"

fun scan_proc_route :: "string list \<Rightarrow> string + string" where
  "scan_proc_route [] = Inl ''default interface not found in proc route''"
| "scan_proc_route (line # rest) =
     (if length (TrimSuffix line [CHR 0x0A]) \<ge> max_scan_token
      then Inl ''scan proc route: bufio.Scanner: token too long''
      else case proc_route_dev (Fields (scan_text line)) of
        Some d \<Rightarrow> Inr d | None \<Rightarrow> scan_proc_route rest)"

definition ParseDefaultInterfaceProcRoute :: "string \<Rightarrow> string + string" where
  "ParseDefaultInterfaceProcRoute input = scan_proc_route (Lines input)"

definition ParseNetworkCounters :: "string \<Rightarrow> string \<Rightarrow> string + (u64 \<times> u64)" where
  "ParseNetworkCounters rxInput txInput =
     (case ParseUint64 (TrimSpace rxInput) of
        Inl _ \<Rightarrow> Inl ''parse rx bytes''
      | Inr rx \<Rightarrow>
          (case ParseUint64 (TrimSpace txInput) of
             Inl _ \<Rightarrow> Inl ''parse tx bytes'' | Inr tx \<Rightarrow> Inr (rx, tx)))"

record NetworkInterfaceCounters =
  nic_Name :: string
  nic_RXBytes :: u64
  nic_TXBytes :: u64
  nic_RXPackets :: u64
  nic_TXPackets :: u64

definition proc_net_line :: "string \<Rightarrow> NetworkInterfaceCounters option" where
  "proc_net_line line =
     (case Cut line (CHR '':'') of
        None \<Rightarrow> None
      | Some (namePart, valuePart) \<Rightarrow>
          let name = TrimSpace namePart; fds = Fields valuePart
          in if name = [] \<or> length fds < 10 then None
             else case (ParseUint64 (fds ! 0), ParseUint64 (fds ! 1),
                        ParseUint64 (fds ! 8), ParseUint64 (fds ! 9)) of
               (Inr rxB, Inr rxP, Inr txB, Inr txP) \<Rightarrow>
                 Some \<lparr>nic_Name = name, nic_RXBytes = rxB, nic_TXBytes = txB,
                       nic_RXPackets = rxP, nic_TXPackets = txP\<rparr>
             | _ \<Rightarrow> None)"

definition ParseProcNetDev :: "string \<Rightarrow> string + NetworkInterfaceCounters list" where
  "ParseProcNetDev input =
     (let counters = List.map_filter proc_net_line (Lines input)
      in if counters = [] then Inl ''proc net dev data row not found'' else Inr counters)"

section \<open>Network rates\<close>

text \<open>
  A rate is a number of bytes over a time; the result carries both differences and the elapsed
  nanoseconds they are divided by.
\<close>

record NetworkRates =
  rate_download :: u64
  rate_upload :: u64
  rate_elapsed :: int

record NetworkCalculator =
  calc_baseline :: bool
  calc_iface :: string
  calc_rx :: u64
  calc_tx :: u64
  calc_at :: int

definition calc_Reset :: "NetworkCalculator \<Rightarrow> NetworkCalculator" where
  "calc_Reset c =
     \<lparr>calc_baseline = False, calc_iface = [], calc_rx = 0, calc_tx = 0, calc_at = 0\<rparr>"

definition calc_Sample ::
  "string \<Rightarrow> u64 \<Rightarrow> u64 \<Rightarrow> int \<Rightarrow> NetworkCalculator \<Rightarrow> NetworkCalculator \<times> NetworkRates option" where
  "calc_Sample iface rx tx at c =
     (if \<not> calc_baseline c \<or> iface = [] \<or> iface \<noteq> calc_iface c \<or> \<not> at > calc_at c
         \<or> rx < calc_rx c \<or> tx < calc_tx c
      then (\<lparr>calc_baseline = True, calc_iface = iface, calc_rx = rx, calc_tx = tx, calc_at = at\<rparr>,
            None)
      else (c\<lparr>calc_iface := iface, calc_rx := rx, calc_tx := tx, calc_at := at\<rparr>,
            Some \<lparr>rate_download = rx - calc_rx c, rate_upload = tx - calc_tx c,
                  rate_elapsed = at - calc_at c\<rparr>))"

section \<open>Disks\<close>

text \<open>The used percentage is \<open>(used / total) * 100\<close>, zero for an empty file system.\<close>

record DiskMount =
  mnt_Filesystem :: string
  mnt_MountPath :: string
  mnt_Total :: u64
  mnt_Used :: u64
  mnt_Available :: u64
  mnt_UsedPercent :: "(u64 \<times> u64) option"

definition block_size_line :: "u64 \<Rightarrow> string \<Rightarrow> u64" where
  "block_size_line bsize line =
     (if HasPrefix (TrimSpace line) ''block_size='' then
        (case ParseUint64 (TrimPrefix (TrimSpace line) ''block_size='') of
           Inl _ \<Rightarrow> bsize | Inr v \<Rightarrow> if v > 0 then v else bsize)
      else bsize)"

definition max_u64 :: u64 where "max_u64 = 0xFFFFFFFFFFFFFFFF"

definition df_line :: "u64 \<Rightarrow> string \<Rightarrow> DiskMount option" where
  "df_line blockSize line =
     (let fds = Fields line; n = length fds
      in if n < 6 then None
         else case (ParseUint64 (fds ! (n - 5)), ParseUint64 (fds ! (n - 4)),
                    ParseUint64 (fds ! (n - 3))) of
           (Inr tot, Inr used, Inr free) \<Rightarrow>
             if tot > max_u64 div blockSize \<or> used > max_u64 div blockSize
                \<or> free > max_u64 div blockSize then None
             else Some \<lparr>mnt_Filesystem = fds ! 0, mnt_MountPath = fds ! (n - 1),
                        mnt_Total = tot * blockSize, mnt_Used = used * blockSize,
                        mnt_Available = free * blockSize,
                        mnt_UsedPercent =
                          (if tot * blockSize > 0
                           then Some (used * blockSize, tot * blockSize) else None)\<rparr>
         | _ \<Rightarrow> None)"

fun df_mounts :: "u64 \<Rightarrow> string set \<Rightarrow> string list \<Rightarrow> DiskMount list" where
  "df_mounts blockSize seen [] = []"
| "df_mounts blockSize seen (line # rest) =
     (case df_line blockSize line of
        None \<Rightarrow> df_mounts blockSize seen rest
      | Some m \<Rightarrow>
          if mnt_MountPath m \<in> seen then df_mounts blockSize seen rest
          else m # df_mounts blockSize (insert (mnt_MountPath m) seen) rest)"

definition ParseDFMounts :: "string \<Rightarrow> string + DiskMount list" where
  "ParseDFMounts input =
     (let lines = Split (TrimSpace input) (CHR 0x0A);
          blockSize = foldl block_size_line 1 lines;
          mounts = df_mounts blockSize {} lines
      in if mounts = [] then Inl ''df data row not found'' else Inr mounts)"

record DiskUsage =
  du_Total :: u64
  du_Used :: u64
  du_Free :: u64

definition ParseDF :: "string \<Rightarrow> string + DiskUsage" where
  "ParseDF input =
     bind_res (ParseDFMounts input) (\<lambda>mounts.
       case find (\<lambda>m. mnt_MountPath m = ''/'') mounts of
         None \<Rightarrow> Inl ''df root data row not found''
       | Some m \<Rightarrow> Inr \<lparr>du_Total = mnt_Total m, du_Used = mnt_Used m, du_Free = mnt_Available m\<rparr>)"

section \<open>Processes of /proc\<close>

record ProcProcessSample =
  pps_PID :: int
  pps_CPUTicks :: u64
  pps_RSSBytes :: u64
  pps_Command :: string

definition proc_line :: "string list \<Rightarrow> ProcProcessSample option" where
  "proc_line fds =
     (case fds of
        f0 # f1 # f2 # rest \<Rightarrow>
          (case (ParseInt f0 10, ParseUint64 f1, ParseUint64 f2) of
             (Inr pid, Inr ticks, Inr rss) \<Rightarrow>
               if pid \<le> 0 then None
               else Some \<lparr>pps_PID = pid, pps_CPUTicks = ticks, pps_RSSBytes = rss,
                          pps_Command =
                            (let command = TrimSpace (Join rest '' '')
                             in if command = [] then ''['' @ Itoa pid @ '']'' else command)\<rparr>
           | _ \<Rightarrow> None)
      | _ \<Rightarrow> None)"

definition ParseProcProcesses :: "string \<Rightarrow> string + ProcProcessSample list" where
  "ParseProcProcesses input =
     (let rows = filter (\<lambda>fds. fds \<noteq> []) (map Fields (Lines input));
          processes = List.map_filter proc_line rows
      in if rows \<noteq> [] \<and> processes = [] then Inl ''procfs process data row not found''
         else Inr processes)"

section \<open>Lemmas\<close>

lemma ParseUint64_Inr: "ParseUint64 s = Inr v \<Longrightarrow> \<exists>n. ParseUint s 10 = Inr n \<and> n < 2 ^ 64 \<and> v = of_nat n"
  by (auto simp: ParseUint64_def split: sum.splits dest: ParseUint_bound)

lemma u64_mult_guard:
  fixes a b :: u64
  assumes "b > 0" "\<not> a > max_u64 div b"
  shows "unat (a * b) = unat a * unat b"
proof -
  have "a \<le> max_u64 div b" using assms(2) by (simp add: not_less)
  then have "unat a \<le> unat max_u64 div unat b"
    by (simp add: word_le_nat_alt unat_div)
  then have "unat a * unat b \<le> unat max_u64"
    by (metis div_times_less_eq_dividend dual_order.trans mult_le_mono1)
  then have "unat a * unat b < 2 ^ 64" by (simp add: max_u64_def)
  then show ?thesis by (simp add: unat_word_ariths)
qed

lemma block_size_positive: "bsize > 0 \<Longrightarrow> block_size_line bsize line > 0"
  by (auto simp: block_size_line_def split: sum.splits)

lemma block_sizes_positive: "bsize > 0 \<Longrightarrow> foldl block_size_line bsize lines > 0"
  by (induction lines arbitrary: bsize) (auto simp: block_size_positive)

lemma df_mounts_paths:
  "distinct (map mnt_MountPath (df_mounts b seen lines)) \<and>
   mnt_MountPath ` set (df_mounts b seen lines) \<inter> seen = {}"
  by (induction b seen lines rule: df_mounts.induct) (auto split: option.splits)

lemma df_mounts_lines: "m \<in> set (df_mounts b seen lines) \<Longrightarrow> \<exists>line \<in> set lines. df_line b line = Some m"
  by (induction b seen lines rule: df_mounts.induct) (auto split: option.splits if_splits)

section \<open>Properties\<close>

text \<open>
  The processor usage is a fraction of a nonempty interval: whenever it is reported, the busy
  ticks are at most the ticks that passed, which are not zero, so it is between 0 and 100
  percent; and it is not reported when the total has not grown or the idle time shrank.
\<close>

theorem CPUUsage_fraction:
  "(case CPUUsage previous current of
      None \<Rightarrow> True
    | Some (busy, passed) \<Rightarrow> 0 < passed \<and> busy \<le> passed \<and>
        unat passed = unat (cpu_total current) - unat (cpu_total previous) \<and>
        unat busy = unat passed
          - (unat (cpu_idleTotal current) - unat (cpu_idleTotal previous))) \<and>
   (cpu_total current \<le> cpu_total previous \<or> cpu_idleTotal current < cpu_idleTotal previous
      \<longrightarrow> CPUUsage previous current = None)"
proof -
  let ?pt = "cpu_total previous" and ?ct = "cpu_total current"
  let ?pi = "cpu_idleTotal previous" and ?ci = "cpu_idleTotal current"
  have "0 < ?ct - ?pt \<and> ?ct - ?pt - (?ci - ?pi) \<le> ?ct - ?pt \<and>
      unat (?ct - ?pt) = unat ?ct - unat ?pt \<and>
      unat (?ct - ?pt - (?ci - ?pi)) = unat (?ct - ?pt) - (unat ?ci - unat ?pi)"
    if "\<not> ?ct \<le> ?pt" "\<not> ?ci < ?pi" "\<not> ?ci - ?pi > ?ct - ?pt"
  proof -
    have a: "unat (?ct - ?pt) = unat ?ct - unat ?pt" "unat (?ci - ?pi) = unat ?ci - unat ?pi"
      using that by (simp_all add: unat_sub)
    moreover have b: "unat (?ct - ?pt - (?ci - ?pi)) = unat (?ct - ?pt) - unat (?ci - ?pi)"
      using that(3) by (simp add: unat_sub)
    moreover have "unat ?pt < unat ?ct" using that(1) by (simp add: word_le_nat_alt)
    ultimately show ?thesis by (simp add: word_le_nat_alt word_less_nat_alt)
  qed
  then show ?thesis by (auto simp: CPUUsage_def Let_def)
qed

text \<open>
  C40: The mounts of \<open>df\<close> have distinct mount paths, there is at least one, and no size wrapped:
  every size is the number printed times the block size, as natural numbers, because a row
  whose product would not fit is left out.
\<close>

theorem ParseDFMounts_exact:
  assumes "ParseDFMounts input = Inr mounts"
  shows "mounts \<noteq> [] \<and> distinct (map mnt_MountPath mounts) \<and>
    (\<exists>block > 0. \<forall>m \<in> set mounts. \<exists>line \<in> set (Split (TrimSpace input) (CHR 0x0A)).
       \<exists>tot used free.
         ParseUint (Fields line ! (length (Fields line) - 5)) 10 = Inr tot \<and>
         ParseUint (Fields line ! (length (Fields line) - 4)) 10 = Inr used \<and>
         ParseUint (Fields line ! (length (Fields line) - 3)) 10 = Inr free \<and>
         unat (mnt_Total m) = tot * block \<and> unat (mnt_Used m) = used * block \<and>
         unat (mnt_Available m) = free * block \<and>
         mnt_MountPath m = last (Fields line))"
proof -
  let ?lines = "Split (TrimSpace input) (CHR 0x0A)"
  let ?row = "\<lambda>block m. \<exists>line \<in> set ?lines. \<exists>tot used free.
      ParseUint (Fields line ! (length (Fields line) - 5)) 10 = Inr tot \<and>
      ParseUint (Fields line ! (length (Fields line) - 4)) 10 = Inr used \<and>
      ParseUint (Fields line ! (length (Fields line) - 3)) 10 = Inr free \<and>
      unat (mnt_Total m) = tot * block \<and> unat (mnt_Used m) = used * block \<and>
      unat (mnt_Available m) = free * block \<and> mnt_MountPath m = last (Fields line)"
  define b where "b = foldl block_size_line 1 ?lines"
  have b: "b > 0" unfolding b_def by (rule block_sizes_positive) simp
  have mounts: "mounts = df_mounts b {} ?lines" "mounts \<noteq> []"
    using assms by (auto simp: ParseDFMounts_def b_def Let_def split: if_splits)
  have "?row (unat b) m" if "m \<in> set mounts" for m
  proof -
    obtain line where line: "line \<in> set ?lines" "df_line b line = Some m"
      using df_mounts_lines \<open>m \<in> set mounts\<close> mounts(1) by blast
    obtain tot used free where n:
        "ParseUint64 (Fields line ! (length (Fields line) - 5)) = Inr tot"
        "ParseUint64 (Fields line ! (length (Fields line) - 4)) = Inr used"
        "ParseUint64 (Fields line ! (length (Fields line) - 3)) = Inr free"
        "\<not> tot > max_u64 div b" "\<not> used > max_u64 div b" "\<not> free > max_u64 div b"
        "mnt_Total m = tot * b" "mnt_Used m = used * b" "mnt_Available m = free * b"
        "mnt_MountPath m = Fields line ! (length (Fields line) - 1)"
      using line(2) by (auto simp: df_line_def Let_def split: sum.splits if_splits)
    have ne: "Fields line \<noteq> []"
      using line(2) by (auto simp: df_line_def Let_def)
    have num: "\<exists>k. ParseUint s 10 = Inr k \<and> unat v = k" if "ParseUint64 s = Inr v" for s v
      using ParseUint64_Inr [OF that] by (auto simp: unat_of_nat)
    show ?thesis
      using line(1) num [OF n(1)] num [OF n(2)] num [OF n(3)] n b ne
      by (intro bexI [of _ line]) (auto simp: u64_mult_guard last_conv_nth)
  qed
  then have "\<forall>m \<in> set mounts. ?row (unat b) m" by (rule ballI)
  moreover have "unat b > 0" using b by (simp add: word_less_nat_alt)
  ultimately have "\<exists>block > 0. \<forall>m \<in> set mounts. ?row block m" by (intro exI conjI)
  moreover have "distinct (map mnt_MountPath mounts)"
    using mounts(1) df_mounts_paths [of b "{}" ?lines] by simp
  ultimately show ?thesis using mounts(2) by (intro conjI)
qed

text \<open>
  A network rate is reported only for the same interface as before, over a positive time, and
  its differences are the true differences of the counters: a counter that went back (a reboot,
  an interface that changed) starts a new baseline and never shows as a huge rate. Every sample
  becomes the next baseline.
\<close>

theorem calc_Sample_rate:
  "(case snd (calc_Sample iface rx tx at c) of
      None \<Rightarrow> True
    | Some r \<Rightarrow> calc_baseline c \<and> iface = calc_iface c \<and> iface \<noteq> [] \<and> rate_elapsed r > 0 \<and>
        rate_elapsed r = at - calc_at c \<and>
        unat (calc_rx c) + unat (rate_download r) = unat rx \<and>
        unat (calc_tx c) + unat (rate_upload r) = unat tx) \<and>
   fst (calc_Sample iface rx tx at c) =
     \<lparr>calc_baseline = True, calc_iface = iface, calc_rx = rx, calc_tx = tx, calc_at = at\<rparr>"
proof -
  have "unat a + unat (b - a) = unat b" if "\<not> b < a" for a b :: u64
  proof -
    have "a \<le> b" using that by (simp add: not_less)
    then have "unat (b - a) = unat b - unat a" "unat a \<le> unat b"
      by (simp_all add: unat_sub word_le_nat_alt)
    then show ?thesis by simp
  qed
  then show ?thesis
    by (cases c) (auto simp: calc_Sample_def)
qed

lemma unat_kibibyte_mult:
  assumes "n < 2 ^ 54"
  shows "unat ((of_nat n :: u64) * kibibyte) = n * 1024"
proof -
  have "n * 1024 < 2 ^ 64" using assms by simp
  moreover have "(of_nat n :: u64) * kibibyte = of_nat (n * 1024)"
    by (simp add: kibibyte_def)
  ultimately show ?thesis by (simp only: unat_of_nat) simp
qed

lemma mem_wrap_sample:
  "ParseMemInfo ''MemTotal: 18014398509481985 kB'' =
     Inr \<lparr>mem_Total = 1024, mem_Available = 0, mem_SwapTotal = 0, mem_SwapFree = 0\<rparr>"
proof -
  have num: "ParseUint ''18014398509481985'' 10 = Inr 18014398509481985"
    by (simp add: ParseUint_def digit_val_def)
  have lines: "Lines ''MemTotal: 18014398509481985 kB'' = [''MemTotal: 18014398509481985 kB'']"
    "Fields ''MemTotal: 18014398509481985 kB'' = [''MemTotal:'', ''18014398509481985'', ''kB'']"
    "TrimSuffix ''MemTotal:'' '':'' = ''MemTotal''"
    by code_simp+
  show ?thesis
    by (simp add: ParseMemInfo_def lines mem_line_def ParseUint64_def num map_zero_def kibibyte_def)
qed

text \<open>
  A row of \<open>/proc/meminfo\<close> sets its key to the printed number of kibibytes in bytes, exactly
  as long as the number is below \<open>2^54\<close>; the code does not check it, and one above wraps: a total
  of \<open>2^54 + 1\<close> kibibytes is read as 1024 bytes.
\<close>

theorem mem_line_scaled:
  assumes "Fields line = key # val # rest" "ParseUint val 10 = Inr n" "n < 2 ^ 54"
  shows "(\<exists>v. mem_line values line = values(TrimSuffix key '':'' \<mapsto> v) \<and> unat v = n * 1024) \<and>
    ParseMemInfo ''MemTotal: 18014398509481985 kB'' =
      Inr \<lparr>mem_Total = 1024, mem_Available = 0, mem_SwapTotal = 0, mem_SwapFree = 0\<rparr>"
  using assms mem_wrap_sample unat_kibibyte_mult
  by (auto simp: mem_line_def ParseUint64_def)

theorem mem_line_scaled_witness:
  "\<exists>v. mem_line (\<lambda>_. None) ''MemFree: 12 kB'' = [TrimSuffix ''MemFree:'' '':'' \<mapsto> v] \<and> unat v = 12288"
proof -
  have "Fields ''MemFree: 12 kB'' = ''MemFree:'' # ''12'' # [''kB'']" by code_simp
  moreover have "ParseUint ''12'' 10 = Inr 12" by (simp add: ParseUint_def digit_val_def)
  ultimately show ?thesis
    using mem_line_scaled [of "''MemFree: 12 kB''" "''MemFree:''" "''12''" "[''kB'']" 12 "\<lambda>_. None"]
    by simp
qed

definition sample_df :: string where
  "sample_df = ''block_size=16'' @ [CHR 0x0A] @ ''/d 9 6 3 6% /''"

definition sample_mount :: DiskMount where
  "sample_mount = \<lparr>mnt_Filesystem = ''/d'', mnt_MountPath = ''/'', mnt_Total = 144, mnt_Used = 96,
     mnt_Available = 48, mnt_UsedPercent = Some (96, 144)\<rparr>"

lemma sample_df_parsed: "ParseDFMounts sample_df = Inr [sample_mount]"
proof -
  have lines: "Split (TrimSpace sample_df) (CHR 0x0A) = [''block_size=16'', ''/d 9 6 3 6% /'']"
    by code_simp
  have block: "HasPrefix (TrimSpace ''block_size=16'') ''block_size=''"
    "TrimPrefix (TrimSpace ''block_size=16'') ''block_size='' = ''16''"
    "\<not> HasPrefix (TrimSpace ''/d 9 6 3 6% /'') ''block_size=''"
    by code_simp+
  have fds: "Fields ''block_size=16'' = [''block_size=16'']"
    "Fields ''/d 9 6 3 6% /'' = [''/d'', ''9'', ''6'', ''3'', ''6%'', ''/'']"
    by code_simp+
  have nums: "ParseUint ''16'' 10 = Inr 16" "ParseUint ''9'' 10 = Inr 9" "ParseUint ''6'' 10 = Inr 6"
    "ParseUint ''3'' 10 = Inr 3"
    by (simp_all add: ParseUint_def digit_val_def)
  show ?thesis
    by (simp add: ParseDFMounts_def lines block_size_line_def block ParseUint64_def nums df_line_def
        fds max_u64_def sample_mount_def)
qed

theorem ParseDFMounts_exact_witness:
  "ParseDFMounts sample_df = Inr [sample_mount] \<and> distinct (map mnt_MountPath [sample_mount])"
  using ParseDFMounts_exact [OF sample_df_parsed] sample_df_parsed by blast

definition sample_cpu :: "u64 \<Rightarrow> u64 \<Rightarrow> CPUCounters" where
  "sample_cpu busy idle =
     \<lparr>cpu_User = busy, cpu_Nice = 0, cpu_System = 0, cpu_Idle = idle, cpu_IOWait = 0, cpu_IRQ = 0,
      cpu_SoftIRQ = 0, cpu_Steal = 0, cpu_Cores = 1\<rparr>"

theorem CPUUsage_fraction_witness:
  "CPUUsage (sample_cpu 10 90) (sample_cpu 40 160) = Some (30, 100) \<and>
   CPUUsage (sample_cpu 40 160) (sample_cpu 10 90) = None"
proof -
  have "cpu_total (sample_cpu 10 90) \<le> cpu_total (sample_cpu 40 160)"
    by (simp add: sample_cpu_def cpu_total_def)
  with CPUUsage_fraction [of "sample_cpu 40 160" "sample_cpu 10 90"]
  show ?thesis
    by (simp add: CPUUsage_def Let_def sample_cpu_def cpu_total_def cpu_idleTotal_def)
qed

end
