(* ===== verification/LinuxInterfaces.thy ===== *)
theory LinuxInterfaces
  imports LinuxParsers
begin

text \<open>
  Package \<open>internal/linuxmonitor\<close>, the network interfaces of a server (\<open>parsers.go\<close>, and
  \<open>splitSections\<close> of \<open>collector.go\<close>): what \<open>ip\<close>, \<open>ifconfig\<close> and \<open>/sys/class/net\<close> say is merged by
  name, and one interface is recommended for the traffic display. The rows that
  \<open>encoding/json\<close> decodes from \<open>ip -j\<close> are an argument: the text of the section is decoded by
  a function \<open>unmarshal\<close> that gives the rows or nothing.
\<close>

section \<open>Network interfaces\<close>

record NetworkInterface =
  ni_ServerID :: int
  ni_Name :: string
  ni_DisplayName :: string
  ni_IsUp :: bool
  ni_IsLoopback :: bool
  ni_IPv4 :: "string list"
  ni_IPv6 :: "string list"
  ni_MAC :: string
  ni_RXBytes :: u64
  ni_TXBytes :: u64
  ni_RXPackets :: u64
  ni_TXPackets :: u64
  ni_SpeedMbps :: "int option"
  ni_MTU :: "int option"
  ni_LastUpdatedAt :: string

record interfaceAccumulator =
  acc_item :: NetworkInterface
  acc_flags :: "string list"

type_synonym iface_map = "(string, interfaceAccumulator) gomap"

definition iface_key :: "string \<Rightarrow> string" where
  "iface_key name = TrimSpace (TrimSuffix (hd (Split name (CHR ''@''))) '':'')"

definition new_accumulator :: "int \<Rightarrow> string \<Rightarrow> string \<Rightarrow> interfaceAccumulator" where
  "new_accumulator serverID updatedAt name =
     \<lparr>acc_item =
        \<lparr>ni_ServerID = serverID, ni_Name = name, ni_DisplayName = name, ni_IsUp = False,
         ni_IsLoopback = False, ni_IPv4 = [], ni_IPv6 = [], ni_MAC = [], ni_RXBytes = 0,
         ni_TXBytes = 0, ni_RXPackets = 0, ni_TXPackets = 0, ni_SpeedMbps = None,
         ni_MTU = None, ni_LastUpdatedAt = updatedAt\<rparr>,
      acc_flags = []\<rparr>"

text \<open>
  The closure \<open>ensure\<close>: the accumulator of a name, made when it is new; no name gives none.
  The accumulator is a pointer into the map, here the key.
\<close>

definition ensure ::
  "int \<Rightarrow> string \<Rightarrow> string \<Rightarrow> iface_map \<Rightarrow> string option \<times> iface_map" where
  "ensure serverID updatedAt name m =
     (let key = iface_key name
      in if key = [] then (None, m)
         else (Some key,
               case map_of m key of
                 Some _ \<Rightarrow> m
               | None \<Rightarrow> AList.update key (new_accumulator serverID updatedAt key) m))"

definition change_acc ::
  "(interfaceAccumulator \<Rightarrow> interfaceAccumulator) \<Rightarrow> string \<Rightarrow> iface_map \<Rightarrow> iface_map" where
  "change_acc f key m =
     (case map_of m key of None \<Rightarrow> m | Some a \<Rightarrow> AList.update key (f a) m)"

definition change_item :: "(NetworkInterface \<Rightarrow> NetworkInterface) \<Rightarrow> string \<Rightarrow> iface_map \<Rightarrow> iface_map" where
  "change_item f = change_acc (\<lambda>a. a\<lparr>acc_item := f (acc_item a)\<rparr>)"

definition add_flag :: "string \<Rightarrow> string \<Rightarrow> iface_map \<Rightarrow> iface_map" where
  "add_flag flag = change_acc (\<lambda>a. a\<lparr>acc_flags := List.insert flag (acc_flags a)\<rparr>)"

definition ToUpper :: "string \<Rightarrow> string" where
  "ToUpper s =
     map (\<lambda>c. let n = of_char c :: nat in if 97 \<le> n \<and> n \<le> 122 then char_of (n - 32) else c) s"

definition appendUnique :: "string list \<Rightarrow> string \<Rightarrow> string list" where
  "appendUnique values val =
     (let v = TrimSpace val in if v = [] \<or> v \<in> set values then values else values @ [v])"

definition add_IPv4 :: "string \<Rightarrow> string \<Rightarrow> iface_map \<Rightarrow> iface_map" where
  "add_IPv4 v = change_item (\<lambda>i. i\<lparr>ni_IPv4 := appendUnique (ni_IPv4 i) v\<rparr>)"

definition add_IPv6 :: "string \<Rightarrow> string \<Rightarrow> iface_map \<Rightarrow> iface_map" where
  "add_IPv6 v = change_item (\<lambda>i. i\<lparr>ni_IPv6 := appendUnique (ni_IPv6 i) v\<rparr>)"

definition set_MAC :: "string \<Rightarrow> string \<Rightarrow> iface_map \<Rightarrow> iface_map" where
  "set_MAC v = change_item (\<lambda>i. i\<lparr>ni_MAC := v\<rparr>)"

definition set_up :: "string \<Rightarrow> iface_map \<Rightarrow> iface_map" where
  "set_up = change_item (\<lambda>i. i\<lparr>ni_IsUp := True\<rparr>)"

text \<open>\<open>mtu, err := strconv.ParseInt(...); err == nil && mtu > 0\<close>.\<close>

definition positive_int :: "string \<Rightarrow> int option" where
  "positive_int s =
     (case ParseInt s 10 of Inl _ \<Rightarrow> None | Inr v \<Rightarrow> if v > 0 then Some v else None)"

definition set_MTU :: "string \<Rightarrow> string \<Rightarrow> iface_map \<Rightarrow> iface_map" where
  "set_MTU text =
     (case positive_int text of
        None \<Rightarrow> (\<lambda>_ m. m) | Some v \<Rightarrow> change_item (\<lambda>i. i\<lparr>ni_MTU := Some v\<rparr>))"

definition set_counters :: "NetworkInterfaceCounters \<Rightarrow> string \<Rightarrow> iface_map \<Rightarrow> iface_map" where
  "set_counters c =
     change_item (\<lambda>i. i\<lparr>ni_RXBytes := nic_RXBytes c, ni_TXBytes := nic_TXBytes c,
                        ni_RXPackets := nic_RXPackets c, ni_TXPackets := nic_TXPackets c\<rparr>)"

text \<open>Every pair of a field and the field after it, in order.\<close>

fun field_pairs :: "string list \<Rightarrow> (string \<times> string) list" where
  "field_pairs (a # b # rest) = (a, b) # field_pairs (b # rest)"
| "field_pairs _ = []"

definition zero_mac :: string where "zero_mac = ''00:00:00:00:00:00''"

subsection \<open>ip address\<close>

text \<open>One line of \<open>ip addr\<close>; the state is the interface the lines belong to and the map.\<close>

definition ip_header ::
  "int \<Rightarrow> string \<Rightarrow> string \<Rightarrow> string list \<Rightarrow> iface_map \<Rightarrow> string option \<times> iface_map" where
  "ip_header serverID updatedAt trimmed fds m =
     (case ensure serverID updatedAt (TrimSuffix (fds ! 1) '':'') m of
        (None, m1) \<Rightarrow> (None, m1)
      | (Some key, m1) \<Rightarrow>
          let flags = (case Cut trimmed (CHR ''<'') of
                         None \<Rightarrow> []
                       | Some (_, rest) \<Rightarrow>
                           (case Cut rest (CHR ''>'') of
                              None \<Rightarrow> [] | Some (text, _) \<Rightarrow> Split text (CHR '','')));
              m2 = fold (\<lambda>f m. add_flag (ToUpper (TrimSpace f)) key m) flags m1;
              m3 = fold (\<lambda>p m. if fst p = ''mtu'' then set_MTU (snd p) key m else m)
                     (field_pairs fds) m2
          in (Some key, m3))"

definition ip_detail :: "string \<Rightarrow> string list \<Rightarrow> iface_map \<Rightarrow> iface_map" where
  "ip_detail key fds m =
     (case fds of
        kind # val # _ \<Rightarrow>
          if kind = ''inet'' then add_IPv4 val key m
          else if kind = ''inet6'' then add_IPv6 val key m
          else if kind = ''link/ether'' \<and> val \<noteq> zero_mac then set_MAC val key m
          else m
      | _ \<Rightarrow> m)"

definition ip_line ::
  "int \<Rightarrow> string \<Rightarrow> string option \<times> iface_map \<Rightarrow> string \<Rightarrow> string option \<times> iface_map" where
  "ip_line serverID updatedAt st line =
     (let trimmed = TrimSpace line; fds = Fields trimmed
      in if trimmed = [] then st
         else if length fds \<ge> 2 \<and> HasSuffix (fds ! 0) '':''
           then ip_header serverID updatedAt trimmed fds (snd st)
         else case fst st of
           None \<Rightarrow> st
         | Some key \<Rightarrow> (Some key, ip_detail key fds (snd st)))"

definition parseIPAddrInterfaces :: "int \<Rightarrow> string \<Rightarrow> string \<Rightarrow> iface_map \<Rightarrow> iface_map" where
  "parseIPAddrInterfaces serverID updatedAt input m =
     snd (foldl (ip_line serverID updatedAt) (None, m) (Lines input))"

subsection \<open>ifconfig\<close>

fun after_text :: "string \<Rightarrow> string \<Rightarrow> string option" where
  "after_text p [] = (if p = [] then Some [] else None)"
| "after_text p (c # s) =
     (if HasPrefix (c # s) p then Some (drop (length p) (c # s)) else after_text p s)"

definition ifconfig_header ::
  "int \<Rightarrow> string \<Rightarrow> string \<Rightarrow> iface_map \<Rightarrow> string option \<times> iface_map" where
  "ifconfig_header serverID updatedAt line m =
     (case ensure serverID updatedAt (TrimSuffix (hd (Fields line)) '':'') m of
        (None, m1) \<Rightarrow> (None, m1)
      | (Some key, m1) \<Rightarrow>
          let m2 = (if Contains line ''UP'' then add_flag ''UP'' key m1 else m1);
              m3 = (if Contains (ToLower line) ''loopback'' then add_flag ''LOOPBACK'' key m2 else m2);
              m4 = (case after_text ''HWaddr '' line of
                      None \<Rightarrow> m3
                    | Some rest \<Rightarrow>
                        (case Fields rest of [] \<Rightarrow> m3 | mac # _ \<Rightarrow> set_MAC mac key m3))
          in (Some key, m4))"

text \<open>A field of a detail line, with the field after it when there is one.\<close>

definition ifconfig_field :: "string \<Rightarrow> string \<times> string option \<Rightarrow> iface_map \<Rightarrow> iface_map" where
  "ifconfig_field key fn m =
     (let field = fst fn;
          with_next = (\<lambda>name f m. case snd fn of
                         None \<Rightarrow> m | Some v \<Rightarrow> if field = name then f v key m else m);
          m1 = with_next ''inet'' add_IPv4 m;
          m2 = (if HasPrefix field ''addr:'' then
                  let v = TrimPrefix field ''addr:''
                  in if CHR '':'' \<in> set v then add_IPv6 v key m1 else add_IPv4 v key m1
                else m1);
          m3 = with_next ''inet6'' (\<lambda>v. add_IPv6 (TrimPrefix v ''addr:'')) m2;
          m4 = with_next ''ether'' set_MAC m3
      in with_next ''mtu'' set_MTU m4)"

fun with_next_field :: "string list \<Rightarrow> (string \<times> string option) list" where
  "with_next_field [] = []"
| "with_next_field [a] = [(a, None)]"
| "with_next_field (a # b # rest) = (a, Some b) # with_next_field (b # rest)"

definition ifconfig_line ::
  "int \<Rightarrow> string \<Rightarrow> string option \<times> iface_map \<Rightarrow> string \<Rightarrow> string option \<times> iface_map" where
  "ifconfig_line serverID updatedAt st line =
     (if TrimSpace line = [] then st
      else if hd line \<noteq> CHR '' '' \<and> hd line \<noteq> CHR 0x09 then
        (if Fields line = [] then st else ifconfig_header serverID updatedAt line (snd st))
      else case fst st of
        None \<Rightarrow> st
      | Some key \<Rightarrow>
          (Some key, fold (ifconfig_field key) (with_next_field (Fields (TrimSpace line))) (snd st)))"

definition parseIfconfigInterfaces :: "int \<Rightarrow> string \<Rightarrow> string \<Rightarrow> iface_map \<Rightarrow> iface_map" where
  "parseIfconfigInterfaces serverID updatedAt input m =
     snd (foldl (ifconfig_line serverID updatedAt) (None, m) (Lines input))"

subsection \<open>/sys/class/net\<close>

definition sys_line :: "int \<Rightarrow> string \<Rightarrow> string \<Rightarrow> iface_map \<Rightarrow> iface_map" where
  "sys_line serverID updatedAt line m =
     (case Split (TrimSpace line) (CHR 0x09) of
        f0 # f1 # f2 # f3 # f4 # _ \<Rightarrow>
          (case ensure serverID updatedAt f0 m of
             (None, m1) \<Rightarrow> m1
           | (Some key, m1) \<Rightarrow>
               let m2 = (if ToLower f1 = ''up'' \<or> ToLower f1 = ''unknown''
                         then set_up key m1 else m1);
                   m3 = set_MTU f2 key m2;
                   m4 = (if f3 \<noteq> [] \<and> f3 \<noteq> zero_mac then set_MAC f3 key m3 else m3)
               in case positive_int f4 of
                    None \<Rightarrow> m4
                  | Some v \<Rightarrow> change_item (\<lambda>i. i\<lparr>ni_SpeedMbps := Some v\<rparr>) key m4)
      | _ \<Rightarrow> m)"

definition parseSysClassNet :: "int \<Rightarrow> string \<Rightarrow> string \<Rightarrow> iface_map \<Rightarrow> iface_map" where
  "parseSysClassNet serverID updatedAt input m =
     fold (sys_line serverID updatedAt) (Lines input) m"

subsection \<open>ip -j\<close>

record ip_address_row =
  ipa_Family :: string
  ipa_Local :: string
  ipa_PrefixLen :: int

record ipJSONInterface =
  ipj_IfName :: string
  ipj_Flags :: "string list"
  ipj_MTU :: int
  ipj_Address :: string
  ipj_OperState :: string
  ipj_AddrInfo :: "ip_address_row list"

definition json_address :: "string \<Rightarrow> ip_address_row \<Rightarrow> iface_map \<Rightarrow> iface_map" where
  "json_address key a m =
     (let val = (if ipa_PrefixLen a > 0 then ipa_Local a @ ''/'' @ Itoa (ipa_PrefixLen a)
                 else ipa_Local a)
      in if ipa_Local a = [] then m
         else if ipa_Family a = ''inet'' then add_IPv4 val key m
         else if ipa_Family a = ''inet6'' then add_IPv6 val key m
         else m)"

definition json_row :: "int \<Rightarrow> string \<Rightarrow> ipJSONInterface \<Rightarrow> iface_map \<Rightarrow> iface_map" where
  "json_row serverID updatedAt row m =
     (case ensure serverID updatedAt (ipj_IfName row) m of
        (None, m1) \<Rightarrow> m1
      | (Some key, m1) \<Rightarrow>
          let m2 = fold (\<lambda>f m. add_flag (ToUpper f) key m) (ipj_Flags row) m1;
              m3 = (if ipj_MTU row > 0
                    then change_item (\<lambda>i. i\<lparr>ni_MTU := Some (ipj_MTU row)\<rparr>) key m2 else m2);
              m4 = (if ipj_Address row \<noteq> [] \<and> ipj_Address row \<noteq> zero_mac
                    then set_MAC (ipj_Address row) key m3 else m3);
              m5 = (if ToLower (ipj_OperState row) = ''up'' then set_up key m4 else m4)
          in fold (json_address key) (ipj_AddrInfo row) m5)"

definition parseIPJSONInterfaces ::
  "(string \<Rightarrow> ipJSONInterface list option) \<Rightarrow> int \<Rightarrow> string \<Rightarrow> string \<Rightarrow> iface_map \<Rightarrow> iface_map" where
  "parseIPJSONInterfaces unmarshal serverID updatedAt input m =
     (let text = TrimSpace input
      in if text = [] \<or> hd text \<noteq> CHR ''['' then m
         else case unmarshal text of
           None \<Rightarrow> m | Some rows \<Rightarrow> fold (json_row serverID updatedAt) rows m)"

section \<open>Sections of the output\<close>

text \<open>
  The output is cut at lines that begin with two at signs; the state is the name of the section,
  empty for none, its text so far and the sections done.
\<close>

type_synonym section_state = "string \<times> string \<times> (string \<Rightarrow> string option)"

definition flush_section :: "section_state \<Rightarrow> string \<Rightarrow> string option" where
  "flush_section st =
     (case st of (name, text, result) \<Rightarrow>
        if name \<noteq> [] then result(name \<mapsto> TrimSpace text) else result)"

definition section_line :: "section_state \<Rightarrow> string \<Rightarrow> section_state" where
  "section_line st line =
     (let trimmed = TrimSpace line; name = TrimPrefix trimmed ''@@''
      in if HasPrefix trimmed ''@@''
         then (if name = ''END'' then [] else name, [], flush_section st)
         else if fst st \<noteq> [] then (fst st, fst (snd st) @ line, snd (snd st)) else st)"

definition splitSections :: "string \<Rightarrow> string \<Rightarrow> string option" where
  "splitSections input = flush_section (foldl section_line ([], [], \<lambda>_. None) (Lines input))"

definition get_section :: "(string \<Rightarrow> string option) \<Rightarrow> string \<Rightarrow> string" where
  "get_section sections name = (case sections name of None \<Rightarrow> [] | Some s \<Rightarrow> s)"

section \<open>The list of interfaces\<close>

definition isLoopbackName :: "string \<Rightarrow> bool" where
  "isLoopbackName name = (name = ''lo'' \<or> HasPrefix name ''lo:'')"

definition finish_interface :: "string \<times> interfaceAccumulator \<Rightarrow> NetworkInterface" where
  "finish_interface p =
     (let item = acc_item (snd p); flags = set (acc_flags (snd p))
      in item\<lparr>ni_IsLoopback := ni_IsLoopback item \<or> isLoopbackName (fst p) \<or> ''LOOPBACK'' \<in> flags,
              ni_IsUp := ni_IsUp item \<or> ''UP'' \<in> flags \<or> ''LOWER_UP'' \<in> flags,
              ni_DisplayName :=
                (if ni_DisplayName item = [] then ni_Name item else ni_DisplayName item)\<rparr>)"

definition counter_row :: "int \<Rightarrow> string \<Rightarrow> NetworkInterfaceCounters \<Rightarrow> iface_map \<Rightarrow> iface_map" where
  "counter_row serverID updatedAt c m =
     (case ensure serverID updatedAt (nic_Name c) m of
        (None, m1) \<Rightarrow> m1 | (Some key, m1) \<Rightarrow> set_counters c key m1)"

definition collect_interfaces ::
  "(string \<Rightarrow> ipJSONInterface list option) \<Rightarrow> int \<Rightarrow> (string \<Rightarrow> string option) \<Rightarrow> string \<Rightarrow> iface_map" where
  "collect_interfaces unmarshal serverID sections updatedAt =
     (let sec = get_section sections;
          counters = (case ParseProcNetDev (sec ''PROC_NET_DEV'') of Inl _ \<Rightarrow> [] | Inr cs \<Rightarrow> cs);
          m1 = fold (counter_row serverID updatedAt) counters [];
          m2 = parseIPJSONInterfaces unmarshal serverID updatedAt (sec ''IP_J_ADDR'') m1;
          m3 = parseIPJSONInterfaces unmarshal serverID updatedAt (sec ''IP_J_LINK'') m2;
          m4 = parseIPAddrInterfaces serverID updatedAt (sec ''IP_ADDR'') m3;
          m5 = parseIfconfigInterfaces serverID updatedAt (sec ''IFCONFIG'') m4
      in parseSysClassNet serverID updatedAt (sec ''SYS_CLASS_NET'') m5)"

definition parseNetworkInterfacesSections ::
  "(string \<Rightarrow> ipJSONInterface list option) \<Rightarrow> int \<Rightarrow> (string \<Rightarrow> string option) \<Rightarrow> string
     \<Rightarrow> NetworkInterface list" where
  "parseNetworkInterfacesSections unmarshal serverID sections updatedAt =
     sort_key (\<lambda>i. (ni_IsLoopback i, ni_Name i))
       (map finish_interface (collect_interfaces unmarshal serverID sections updatedAt))"

section \<open>The recommended interface\<close>

definition normalizeIP :: "string \<Rightarrow> string" where
  "normalizeIP val =
     (let v = TrimSpace val;
          v = (case Cut v (CHR ''/'') of None \<Rightarrow> v | Some (host, _) \<Rightarrow> host);
          v = (case Cut v (CHR ''%'') of None \<Rightarrow> v | Some (host, _) \<Rightarrow> host)
      in ToLower v)"

definition parseSSHConnectionIPs :: "string \<Rightarrow> string \<times> string" where
  "parseSSHConnectionIPs input =
     (let fds = Fields (TrimSpace input)
      in if length fds < 4 then ([], []) else (normalizeIP (fds ! 0), normalizeIP (fds ! 2)))"

fun route_dev :: "string list \<Rightarrow> string" where
  "route_dev (a # b # rest) = (if a = ''dev'' then TrimSpace b else route_dev (b # rest))"
| "route_dev _ = []"

definition parseRouteDev :: "string \<Rightarrow> string" where
  "parseRouteDev input = route_dev (Fields input)"

definition interfaceHasIP :: "NetworkInterface \<Rightarrow> string \<Rightarrow> bool" where
  "interfaceHasIP item ip =
     (let ip = normalizeIP ip
      in ip \<noteq> [] \<and> list_ex (\<lambda>a. normalizeIP a = ip) (ni_IPv4 item @ ni_IPv6 item))"

text \<open>
  The closure \<open>accept\<close>: the name of a listed interface, and of a loopback interface only when
  there is no other. The Go map keeps the last of two interfaces of one name.
\<close>

definition accept_interface :: "NetworkInterface list \<Rightarrow> string \<Rightarrow> string" where
  "accept_interface interfaces name =
     (case find (\<lambda>i. ni_Name i = TrimSpace name) (rev interfaces) of
        None \<Rightarrow> []
      | Some item \<Rightarrow>
          if ni_IsLoopback item \<and> list_ex (\<lambda>i. \<not> ni_IsLoopback i) interfaces then []
          else ni_Name item)"

fun accept_with_ip ::
  "NetworkInterface list \<Rightarrow> string \<Rightarrow> NetworkInterface list \<Rightarrow> string" where
  "accept_with_ip interfaces ip [] = []"
| "accept_with_ip interfaces ip (item # rest) =
     (if interfaceHasIP item ip \<and> accept_interface interfaces (ni_Name item) \<noteq> []
      then accept_interface interfaces (ni_Name item)
      else accept_with_ip interfaces ip rest)"

definition recommend_default :: "NetworkInterface list \<Rightarrow> string \<Rightarrow> string \<times> string" where
  "recommend_default interfaces defaultRoute =
     (let name = accept_interface interfaces (parseRouteDev defaultRoute)
      in if name \<noteq> [] then (name, ''default_route'')
         else case find (\<lambda>i. ni_IsUp i \<and> \<not> ni_IsLoopback i) interfaces of
           Some item \<Rightarrow> (ni_Name item, ''first_active_non_loopback'')
         | None \<Rightarrow> (''all'', ''fallback_all''))"

definition RecommendNetworkInterface ::
  "NetworkInterface list \<Rightarrow> string \<Rightarrow> string \<Rightarrow> string \<Rightarrow> string \<times> string" where
  "RecommendNetworkInterface interfaces sshConnection routeToClient defaultRoute =
     (if interfaces = [] then (''all'', ''fallback_all'')
      else case parseSSHConnectionIPs sshConnection of
        (clientIP, serverIP) \<Rightarrow>
          let byIP = accept_with_ip interfaces serverIP interfaces;
              byRoute = accept_interface interfaces (parseRouteDev routeToClient)
          in if serverIP \<noteq> [] \<and> byIP \<noteq> [] then (byIP, ''ssh_connection_local_ip'')
             else if (serverIP = [] \<or> clientIP \<noteq> []) \<and> byRoute \<noteq> [] then (byRoute, ''route_to_client'')
             else recommend_default interfaces defaultRoute)"

record ListNetworkInterfacesResponse =
  lnr_ServerID :: int
  lnr_Interfaces :: "NetworkInterface list"
  lnr_UpdatedAt :: string
  lnr_RecommendedInterface :: string
  lnr_RecommendedInterfaceReason :: string

definition ParseNetworkInterfacesResponse ::
  "(string \<Rightarrow> ipJSONInterface list option) \<Rightarrow> int \<Rightarrow> string \<Rightarrow> string
     \<Rightarrow> ListNetworkInterfacesResponse" where
  "ParseNetworkInterfacesResponse unmarshal serverID input updatedAt =
     (let sections = splitSections input;
          interfaces = parseNetworkInterfacesSections unmarshal serverID sections updatedAt;
          r = RecommendNetworkInterface interfaces
                (get_section sections ''SSH_CONNECTION'')
                (get_section sections ''ROUTE_TO_CLIENT'')
                (get_section sections ''DEFAULT_ROUTE'')
      in \<lparr>lnr_ServerID = serverID, lnr_Interfaces = interfaces, lnr_UpdatedAt = updatedAt,
          lnr_RecommendedInterface = fst r, lnr_RecommendedInterfaceReason = snd r\<rparr>)"

section \<open>The map of interfaces\<close>

text \<open>Every key is the name of its interface, is not empty and occurs once.\<close>

definition iface_ok :: "iface_map \<Rightarrow> bool" where
  "iface_ok m \<longleftrightarrow> gomap_ok m \<and> (\<forall>p \<in> set m. ni_Name (acc_item (snd p)) = fst p \<and> fst p \<noteq> [])"

named_theorems iface_keeps \<open>operations that keep the map of interfaces well formed\<close>

lemma iface_ok_Nil [simp]: "iface_ok []"
  by (simp add: iface_ok_def)

lemma iface_ok_update:
  assumes "iface_ok m" "ni_Name (acc_item a) = key" "key \<noteq> []"
  shows "iface_ok (AList.update key a m)"
proof -
  have "set (AList.update key a m) \<subseteq> insert (key, a) (set m)" by (rule set_gomap_update_subset)
  then show ?thesis using assms by (auto simp: iface_ok_def)
qed

lemma ensure_keeps [iface_keeps]: "iface_ok m \<Longrightarrow> iface_ok (snd (ensure sid at name m))"
  by (auto simp: ensure_def Let_def new_accumulator_def intro: iface_ok_update split: option.splits)

lemma change_acc_keeps:
  assumes "\<And>a. ni_Name (acc_item (f a)) = ni_Name (acc_item a)" "iface_ok m"
  shows "iface_ok (change_acc f key m)"
proof (cases "map_of m key")
  case (Some a)
  then have "(key, a) \<in> set m" by (rule map_of_SomeD)
  with assms have "ni_Name (acc_item (f a)) = key" "key \<noteq> []" by (auto simp: iface_ok_def)
  with assms(2) have "iface_ok (AList.update key (f a) m)" by (rule iface_ok_update)
  with Some show ?thesis by (simp add: change_acc_def)
qed (use assms in \<open>simp add: change_acc_def\<close>)

lemma change_item_keeps:
  "(\<And>i. ni_Name (f i) = ni_Name i) \<Longrightarrow> iface_ok m \<Longrightarrow> iface_ok (change_item f key m)"
  unfolding change_item_def by (rule change_acc_keeps) simp_all

lemma item_changes_keep [iface_keeps]:
  assumes "iface_ok m"
  shows "iface_ok (add_flag f key m)" "iface_ok (add_IPv4 v key m)" "iface_ok (add_IPv6 v key m)"
    "iface_ok (set_MAC v key m)" "iface_ok (set_up key m)" "iface_ok (set_MTU v key m)"
    "iface_ok (set_counters c key m)"
    "iface_ok (change_item (\<lambda>i. i\<lparr>ni_MTU := x\<rparr>) key m)"
    "iface_ok (change_item (\<lambda>i. i\<lparr>ni_SpeedMbps := x\<rparr>) key m)"
  using assms
  by (auto simp: add_flag_def add_IPv4_def add_IPv6_def set_MAC_def set_up_def set_MTU_def
      set_counters_def intro!: change_item_keeps change_acc_keeps split: option.split)

lemma ensure_case_keeps:
  assumes "iface_ok m" "\<And>key m1. iface_ok m1 \<Longrightarrow> iface_ok (f key m1)"
  shows "iface_ok (case ensure sid at name m of (None, m1) \<Rightarrow> m1 | (Some key, m1) \<Rightarrow> f key m1)"
  using ensure_keeps [OF assms(1), of sid at name] assms(2)
  by (cases "ensure sid at name m") (auto split: option.splits)

lemma ip_header_keeps [iface_keeps]: "iface_ok m \<Longrightarrow> iface_ok (snd (ip_header sid at t fds m))"
  using ensure_keeps [of m sid at "TrimSuffix (fds ! 1) '':''"]
  by (auto simp: ip_header_def Let_def split: option.splits prod.splits
      intro!: fold_invariant_keeps [where P = iface_ok] iface_keeps)

lemma ip_detail_keeps [iface_keeps]: "iface_ok m \<Longrightarrow> iface_ok (ip_detail key fds m)"
  by (auto simp: ip_detail_def split: list.splits intro!: iface_keeps)

lemma parseIPAddrInterfaces_keeps [iface_keeps]:
  "iface_ok m \<Longrightarrow> iface_ok (parseIPAddrInterfaces sid at input m)"
  unfolding parseIPAddrInterfaces_def
  by (rule foldl_invariant_keeps [where P = "\<lambda>st. iface_ok (snd st)"])
    (auto simp: ip_line_def Let_def intro!: iface_keeps split: option.splits)

lemma ifconfig_header_keeps [iface_keeps]:
  "iface_ok m \<Longrightarrow> iface_ok (snd (ifconfig_header sid at line m))"
  using ensure_keeps [of m sid at "TrimSuffix (hd (Fields line)) '':''"]
  by (auto simp: ifconfig_header_def Let_def split: option.splits prod.splits list.splits
      intro!: iface_keeps)

lemma ifconfig_field_keeps [iface_keeps]: "iface_ok m \<Longrightarrow> iface_ok (ifconfig_field key fn m)"
  by (cases "snd fn") (auto simp: ifconfig_field_def Let_def intro!: iface_keeps)

lemma parseIfconfigInterfaces_keeps [iface_keeps]:
  "iface_ok m \<Longrightarrow> iface_ok (parseIfconfigInterfaces sid at input m)"
  unfolding parseIfconfigInterfaces_def
  by (rule foldl_invariant_keeps [where P = "\<lambda>st. iface_ok (snd st)"])
    (auto simp: ifconfig_line_def Let_def intro!: iface_keeps fold_invariant_keeps [where P = iface_ok]
      split: option.splits)

lemma sys_line_keeps [iface_keeps]: "iface_ok m \<Longrightarrow> iface_ok (sys_line sid at line m)"
  by (auto simp: sys_line_def Let_def split: list.splits option.splits
      intro!: ensure_case_keeps iface_keeps)

lemma parseSysClassNet_keeps [iface_keeps]: "iface_ok m \<Longrightarrow> iface_ok (parseSysClassNet sid at input m)"
  unfolding parseSysClassNet_def
  by (rule fold_invariant_keeps [where P = iface_ok]) (auto intro: iface_keeps)

lemma json_address_keeps [iface_keeps]: "iface_ok m \<Longrightarrow> iface_ok (json_address key a m)"
  by (auto simp: json_address_def Let_def intro!: iface_keeps)

lemma json_row_keeps [iface_keeps]: "iface_ok m \<Longrightarrow> iface_ok (json_row sid at row m)"
  by (auto simp: json_row_def Let_def
      intro!: ensure_case_keeps iface_keeps fold_invariant_keeps [where P = iface_ok])

lemma parseIPJSONInterfaces_keeps [iface_keeps]:
  "iface_ok m \<Longrightarrow> iface_ok (parseIPJSONInterfaces u sid at input m)"
  by (auto simp: parseIPJSONInterfaces_def Let_def split: option.splits
      intro!: iface_keeps fold_invariant_keeps [where P = iface_ok])

lemma counter_row_keeps [iface_keeps]: "iface_ok m \<Longrightarrow> iface_ok (counter_row sid at c m)"
  by (auto simp: counter_row_def intro!: ensure_case_keeps iface_keeps)

lemma collect_interfaces_ok: "iface_ok (collect_interfaces u sid sections at)"
  unfolding collect_interfaces_def Let_def
  by (intro parseSysClassNet_keeps parseIfconfigInterfaces_keeps parseIPAddrInterfaces_keeps
      parseIPJSONInterfaces_keeps fold_invariant_keeps [where P = iface_ok] counter_row_keeps
      iface_ok_Nil)

lemma finish_interface_name [simp]: "ni_Name (finish_interface p) = ni_Name (acc_item (snd p))"
  by (simp add: finish_interface_def Let_def)

lemma accept_interface_props:
  assumes "accept_interface interfaces name \<noteq> []"
  shows "\<exists>i \<in> set interfaces. ni_Name i = accept_interface interfaces name \<and>
    (ni_IsLoopback i \<longrightarrow> (\<forall>j \<in> set interfaces. ni_IsLoopback j))"
proof (cases "find (\<lambda>i. ni_Name i = TrimSpace name) (rev interfaces)")
  case None
  with assms show ?thesis by (simp add: accept_interface_def)
next
  case (Some item)
  then have "item \<in> set interfaces" by (auto dest: find_SomeD)
  moreover have "accept_interface interfaces name = ni_Name item"
    "ni_IsLoopback item \<longrightarrow> (\<forall>j \<in> set interfaces. ni_IsLoopback j)"
    using assms Some by (auto simp: accept_interface_def list_ex_iff split: if_splits)
  ultimately show ?thesis by auto
qed

lemma accept_with_ip_props:
  assumes "accept_with_ip interfaces ip items \<noteq> []"
  shows "\<exists>item \<in> set items. interfaceHasIP item ip \<and>
    accept_with_ip interfaces ip items = accept_interface interfaces (ni_Name item) \<and>
    accept_interface interfaces (ni_Name item) \<noteq> []"
  using assms by (induction items) (auto split: if_splits)

section \<open>Properties\<close>

text \<open>
  The list of interfaces has each name once, no empty name, and puts the loopback interfaces
  last, each part sorted by name, whichever of the tools of the server gave the data.
\<close>

theorem interface_list_sorted:
  "distinct (map ni_Name (parseNetworkInterfacesSections u sid sections at)) \<and>
   [] \<notin> ni_Name ` set (parseNetworkInterfacesSections u sid sections at) \<and>
   sorted (map (\<lambda>i. (ni_IsLoopback i, ni_Name i))
     (parseNetworkInterfacesSections u sid sections at))"
proof -
  let ?m = "collect_interfaces u sid sections at"
  have ok: "gomap_ok ?m" "\<forall>p \<in> set ?m. ni_Name (acc_item (snd p)) = fst p \<and> fst p \<noteq> []"
    using collect_interfaces_ok [of u sid sections at] by (auto simp: iface_ok_def)
  have names: "map ni_Name (map finish_interface ?m) = map fst ?m"
    using ok(2) by (simp add: comp_def)
  have "distinct (map ni_Name (map finish_interface ?m))"
    unfolding names using ok(1) by (simp add: gomap_ok_def)
  then have "distinct (map ni_Name (parseNetworkInterfacesSections u sid sections at))"
    unfolding parseNetworkInterfacesSections_def
    by (simp only: distinct_map distinct_sort set_sort)
  then show ?thesis
    using ok(2) by (auto simp: parseNetworkInterfacesSections_def)
qed

text \<open>
  The recommended interface is \<open>all\<close> or the name of a listed interface, never a loopback
  interface as long as another one is listed; and when the server's address of the session
  is on an acceptable interface, that interface is chosen and the reason says so.
\<close>

theorem RecommendNetworkInterface_sound:
  "(fst (RecommendNetworkInterface interfaces ssh client route) = ''all'' \<or>
    (\<exists>i \<in> set interfaces. ni_Name i = fst (RecommendNetworkInterface interfaces ssh client route) \<and>
       (ni_IsLoopback i \<longrightarrow> (\<forall>j \<in> set interfaces. ni_IsLoopback j)))) \<and>
   (interfaces \<noteq> [] \<and> snd (parseSSHConnectionIPs ssh) \<noteq> [] \<and>
    accept_with_ip interfaces (snd (parseSSHConnectionIPs ssh)) interfaces \<noteq> [] \<longrightarrow>
    (\<exists>i \<in> set interfaces. interfaceHasIP i (snd (parseSSHConnectionIPs ssh))) \<and>
    snd (RecommendNetworkInterface interfaces ssh client route) = ''ssh_connection_local_ip'')"
proof -
  obtain c s where cs: "parseSSHConnectionIPs ssh = (c, s)" by (cases "parseSSHConnectionIPs ssh")
  have good: "\<exists>i \<in> set interfaces. ni_Name i = n \<and> (ni_IsLoopback i \<longrightarrow> (\<forall>j \<in> set interfaces. ni_IsLoopback j))"
    if "n = accept_interface interfaces x" "n \<noteq> []" for n x
    using that accept_interface_props by blast
  have byIP: "\<exists>i \<in> set interfaces. ni_Name i = accept_with_ip interfaces s interfaces \<and>
      (ni_IsLoopback i \<longrightarrow> (\<forall>j \<in> set interfaces. ni_IsLoopback j))"
    if "accept_with_ip interfaces s interfaces \<noteq> []"
    using accept_with_ip_props [OF that] good by metis
  have def: "fst (recommend_default interfaces d) = ''all'' \<or>
      (\<exists>i \<in> set interfaces. ni_Name i = fst (recommend_default interfaces d) \<and>
         (ni_IsLoopback i \<longrightarrow> (\<forall>j \<in> set interfaces. ni_IsLoopback j)))" for d
  proof (cases "accept_interface interfaces (parseRouteDev d) = []")
    case True
    then show ?thesis
      using find_SomeD [of "\<lambda>i. ni_IsUp i \<and> \<not> ni_IsLoopback i" interfaces]
      by (cases "find (\<lambda>i. ni_IsUp i \<and> \<not> ni_IsLoopback i) interfaces")
        (auto simp: recommend_default_def)
  next
    case False
    with good [OF refl False] show ?thesis by (simp add: recommend_default_def)
  qed
  let ?r = "RecommendNetworkInterface interfaces ssh client route"
  have "?r = (''all'', ''fallback_all'') \<or> ?r = recommend_default interfaces route \<or>
      (\<exists>reason. ?r = (accept_with_ip interfaces s interfaces, reason) \<and>
         accept_with_ip interfaces s interfaces \<noteq> []) \<or>
      (\<exists>reason. ?r = (accept_interface interfaces (parseRouteDev client), reason) \<and>
         accept_interface interfaces (parseRouteDev client) \<noteq> [])"
    by (simp add: RecommendNetworkInterface_def Let_def cs)
  then have "fst ?r = ''all'' \<or> (\<exists>i \<in> set interfaces. ni_Name i = fst ?r \<and>
      (ni_IsLoopback i \<longrightarrow> (\<forall>j \<in> set interfaces. ni_IsLoopback j)))"
    using byIP def [of route] good [OF refl, of "parseRouteDev client"] by (elim disjE exE conjE) simp_all
  moreover have "(\<exists>i \<in> set interfaces. interfaceHasIP i s) \<and> snd ?r = ''ssh_connection_local_ip''"
    if "interfaces \<noteq> []" "s \<noteq> []" "accept_with_ip interfaces s interfaces \<noteq> []"
    using that accept_with_ip_props [OF that(3)]
    by (auto simp: RecommendNetworkInterface_def cs)
  ultimately show ?thesis by (simp add: cs)
qed

text \<open>A server reached over its second interface, next to a loopback interface.\<close>

definition sample_interface :: "string \<Rightarrow> bool \<Rightarrow> string list \<Rightarrow> NetworkInterface" where
  "sample_interface name loop ips =
     (acc_item (new_accumulator 7 [] name))\<lparr>ni_IsLoopback := loop, ni_IPv4 := ips\<rparr>"

definition sample_interfaces :: "NetworkInterface list" where
  "sample_interfaces =
     [sample_interface ''eth1'' False [''10.0.0.7/24''], sample_interface ''lo'' True [''127.0.0.1'']]"

theorem RecommendNetworkInterface_sound_witness:
  "snd (RecommendNetworkInterface sample_interfaces ''10.0.0.2 50000 10.0.0.7 22'' [] [])
     = ''ssh_connection_local_ip''"
proof -
  have "sample_interfaces \<noteq> []" "snd (parseSSHConnectionIPs ''10.0.0.2 50000 10.0.0.7 22'') \<noteq> []"
    "accept_with_ip sample_interfaces (snd (parseSSHConnectionIPs ''10.0.0.2 50000 10.0.0.7 22''))
       sample_interfaces \<noteq> []"
    by code_simp+
  then show ?thesis using RecommendNetworkInterface_sound by blast
qed

end
