(* ===== verification/GoPath.thy ===== *)
theory GoPath
  imports GoStrings
begin

text \<open>
  Go's package \<open>path\<close>, on slash separated paths. \<open>path.Clean\<close> is described by the components it
  keeps: it splits at slashes, drops empty components and dots, and lets a double dot remove
  the component before it (or nothing at the root).
\<close>

section \<open>Cleaning\<close>

definition path_comps :: "string \<Rightarrow> string list" where
  "path_comps p = filter (\<lambda>c. c \<noteq> [] \<and> c \<noteq> ''.'') (Split p (CHR ''/''))"

text \<open>The stack of kept components has the last one first.\<close>

definition clean_step :: "bool \<Rightarrow> string list \<Rightarrow> string \<Rightarrow> string list" where
  "clean_step rooted stack c =
     (if c \<noteq> ''..'' then c # stack
      else case stack of
        [] \<Rightarrow> if rooted then [] else [''..'']
      | t # rest \<Rightarrow> if t = ''..'' then ''..'' # stack else rest)"

definition clean_comps :: "bool \<Rightarrow> string list \<Rightarrow> string list" where
  "clean_comps rooted cs = rev (foldl (clean_step rooted) [] cs)"

definition rooted_path :: "string \<Rightarrow> bool" where
  "rooted_path p = HasPrefix p ''/''"

definition path_text :: "bool \<Rightarrow> string list \<Rightarrow> string" where
  "path_text rooted cs =
     (if rooted then ''/'' @ Join cs ''/'' else if cs = [] then ''.'' else Join cs ''/'')"

definition path_Clean :: "string \<Rightarrow> string" where
  "path_Clean p = path_text (rooted_path p) (clean_comps (rooted_path p) (path_comps p))"

section \<open>The other functions\<close>

definition path_Join :: "string \<Rightarrow> string \<Rightarrow> string" where
  "path_Join a b =
     (if a = [] \<and> b = [] then []
      else if a = [] then path_Clean b else path_Clean (a @ ''/'' @ b))"

text \<open>\<open>path.Split\<close>: the part up to the last slash, and the rest.\<close>

definition path_Split :: "string \<Rightarrow> string \<times> string" where
  "path_Split p =
     (let file = rev (takeWhile (\<lambda>c. c \<noteq> CHR ''/'') (rev p))
      in (take (length p - length file) p, file))"

definition path_Dir :: "string \<Rightarrow> string" where
  "path_Dir p = path_Clean (fst (path_Split p))"

definition path_Base :: "string \<Rightarrow> string" where
  "path_Base p =
     (if p = [] then ''.''
      else let q = TrimRightChars p ''/''
           in if q = [] then ''/'' else snd (path_Split q))"

text \<open>\<open>path.Ext\<close>: from the last dot of the last element.\<close>

definition path_Ext :: "string \<Rightarrow> string" where
  "path_Ext p =
     (let file = snd (path_Split p)
      in if CHR ''.'' \<in> set file
         then ''.'' @ rev (takeWhile (\<lambda>c. c \<noteq> CHR ''.'') (rev file)) else [])"

section \<open>Components of a clean path\<close>

definition plain_comp :: "string \<Rightarrow> bool" where
  "plain_comp c \<longleftrightarrow> c \<noteq> [] \<and> c \<noteq> ''.'' \<and> CHR ''/'' \<notin> set c"

text \<open>What \<open>Clean\<close> leaves: double dots only in front, and none at the root.\<close>

definition clean_stack :: "bool \<Rightarrow> string list \<Rightarrow> bool" where
  "clean_stack rooted cs \<longleftrightarrow>
     (\<forall>c \<in> set cs. plain_comp c) \<and>
     (\<exists>n rest. cs = replicate n ''..'' @ rest \<and> ''..'' \<notin> set rest \<and> (rooted \<longrightarrow> n = 0))"

lemma path_comps_plain: "c \<in> set (path_comps p) \<Longrightarrow> plain_comp c"
  by (auto simp: path_comps_def plain_comp_def dest: Split_noc)

lemma clean_step_stack:
  assumes "clean_stack rooted (rev stack)" "plain_comp c"
  shows "clean_stack rooted (rev (clean_step rooted stack c))"
proof -
  obtain n rest where st: "rev stack = replicate n ''..'' @ rest" "''..'' \<notin> set rest" "rooted \<longrightarrow> n = 0"
    and plain: "\<forall>c \<in> set stack. plain_comp c"
    using assms(1) by (auto simp: clean_stack_def)
  have dots: "plain_comp ''..''" by (simp add: plain_comp_def)
  show ?thesis
  proof (cases "c = ''..''")
    case False
    then have "rev (clean_step rooted stack c) = replicate n ''..'' @ (rest @ [c])"
      using st(1) by (simp add: clean_step_def)
    moreover have "\<forall>d \<in> set (rev (clean_step rooted stack c)). plain_comp d"
      using False plain assms(2) by (simp add: clean_step_def)
    moreover have "''..'' \<notin> set (rest @ [c])" using False st(2) by auto
    ultimately show ?thesis using st(3) unfolding clean_stack_def by blast
  next
    case True
    show ?thesis
    proof (cases stack)
      case Nil
      with True dots show ?thesis
        by (auto simp: clean_step_def clean_stack_def intro: exI [of _ "Suc 0"])
    next
      case (Cons t ts)
      show ?thesis
      proof (cases "t = ''..''")
        case True
        have "rest = []"
        proof (rule ccontr)
          assume "rest \<noteq> []"
          then have "last (rev stack) = last rest" using st(1) by simp
          with Cons True st(2) \<open>rest \<noteq> []\<close> show False by (metis last_in_set last_rev list.sel(1))
        qed
        with st(1) have "rev stack = replicate n ''..''" by simp
        then have "rev (''..'' # stack) = replicate (Suc n) ''..'' @ []"
          by (simp add: replicate_append_same)
        moreover have "\<not> rooted"
          using st(1,3) \<open>rest = []\<close> Cons by auto
        ultimately show ?thesis
          using True \<open>c = ''..''\<close> Cons plain dots
          unfolding clean_stack_def
          by (intro conjI exI [of _ "Suc n"] exI [of _ "[]"]) (auto simp: clean_step_def)
      next
        case False
        have "rest \<noteq> []"
        proof
          assume "rest = []"
          with st(1) have "set stack \<subseteq> {''..''}" by (metis append_Nil2 set_replicate_conv_if set_rev subset_singleton_iff empty_subsetI subset_refl)
          with Cons False show False by simp
        qed
        then obtain r l where r: "rest = r @ [l]" by (metis rev_exhaust)
        with st(1) Cons have "rev ts = replicate n ''..'' @ r" by simp
        moreover have "rev (clean_step rooted stack c) = rev ts"
          using False \<open>c = ''..''\<close> Cons by (simp add: clean_step_def)
        moreover have "\<forall>d \<in> set (rev ts). plain_comp d" using plain Cons by simp
        moreover have "''..'' \<notin> set r" using st(2) r by simp
        ultimately show ?thesis using st(3) unfolding clean_stack_def by metis
      qed
    qed
  qed
qed

lemma clean_comps_stack:
  assumes "\<forall>c \<in> set cs. plain_comp c"
  shows "clean_stack rooted (clean_comps rooted cs)"
proof -
  have "clean_stack rooted (rev (foldl (clean_step rooted) st cs))"
    if "clean_stack rooted (rev st)" for st
    using assms that by (induction cs arbitrary: st) (auto intro: clean_step_stack)
  moreover have "clean_stack rooted []" by (simp add: clean_stack_def)
  ultimately show ?thesis by (simp add: clean_comps_def)
qed

text \<open>A clean stack is left alone.\<close>

lemma clean_comps_id:
  assumes "clean_stack rooted cs"
  shows "clean_comps rooted cs = cs"
proof -
  obtain n rest where cs: "cs = replicate n ''..'' @ rest" "''..'' \<notin> set rest" "rooted \<longrightarrow> n = 0"
    using assms by (auto simp: clean_stack_def)
  have dots: "foldl (clean_step rooted) (replicate k ''..'') (replicate n ''..'')
      = replicate (k + n) ''..''" if "rooted \<longrightarrow> n = 0" for k n
    using that
  proof (induction n arbitrary: k)
    case (Suc n)
    have "clean_step rooted (replicate k ''..'') ''..'' = replicate (Suc k) ''..''"
      using Suc.prems by (cases k) (simp_all add: clean_step_def)
    then have "foldl (clean_step rooted) (replicate k ''..'') (replicate (Suc n) ''..'')
        = foldl (clean_step rooted) (replicate (Suc k) ''..'') (replicate n ''..'')"
      by simp
    also have "\<dots> = replicate (Suc k + n) ''..''" using Suc by blast
    finally show ?case by simp
  qed simp
  have plain: "foldl (clean_step rooted) st rest = rev rest @ st" if "''..'' \<notin> set rest" for st rest
    using that by (induction rest arbitrary: st) (auto simp: clean_step_def)
  show ?thesis
    using dots [of n 0] plain [OF cs(2)] cs by (simp add: clean_comps_def)
qed

lemma Join_nonempty: "cs \<noteq> [] \<Longrightarrow> [] \<notin> set cs \<Longrightarrow> Join cs sep \<noteq> []"
  by (cases cs; cases "tl cs") auto

lemma Join_head: "cs \<noteq> [] \<Longrightarrow> [] \<notin> set cs \<Longrightarrow> hd (Join cs sep) = hd (hd cs)"
  by (cases cs; cases "tl cs") auto

lemma Split_rooted: "Split (c # s) c = [] # Split s c"
  by (simp add: Split_def)

lemma path_comps_text:
  assumes "\<forall>c \<in> set cs. plain_comp c"
  shows "path_comps (path_text rooted cs) = cs"
proof (cases "cs = []")
  case True
  then show ?thesis by (cases rooted) (simp_all add: path_text_def path_comps_def Split_def)
next
  case False
  have "Split (Join cs ''/'') (CHR ''/'') = cs"
    using False assms by (intro Split_Join_inverse) (auto simp: plain_comp_def)
  moreover have "filter (\<lambda>c. c \<noteq> [] \<and> c \<noteq> ''.'') cs = cs"
    using assms by (auto simp: plain_comp_def filter_id_conv)
  ultimately show ?thesis using False
    by (simp add: path_text_def path_comps_def Split_rooted)
qed

lemma rooted_path_text:
  assumes "\<forall>c \<in> set cs. plain_comp c"
  shows "rooted_path (path_text rooted cs) = rooted"
proof (cases "rooted \<or> cs = []")
  case False
  moreover have "[] \<notin> set cs" using assms by (auto simp: plain_comp_def)
  ultimately have "hd (Join cs ''/'') = hd (hd cs)" "Join cs ''/'' \<noteq> []"
    using Join_head Join_nonempty by auto
  moreover have "hd cs \<noteq> []" "CHR ''/'' \<notin> set (hd cs)"
    using False assms by (simp_all add: plain_comp_def)
  then have "hd (hd cs) \<noteq> CHR ''/''" by (cases "hd cs") auto
  ultimately show ?thesis using False
    by (cases "Join cs ''/''") (auto simp: path_text_def rooted_path_def HasPrefix_def)
qed (auto simp: path_text_def rooted_path_def HasPrefix_def)

lemma clean_stack_plain: "clean_stack rooted cs \<Longrightarrow> \<forall>c \<in> set cs. plain_comp c"
  by (simp add: clean_stack_def)

lemma path_Clean_text:
  "clean_stack rooted cs \<Longrightarrow> path_Clean (path_text rooted cs) = path_text rooted cs"
  by (simp add: path_Clean_def clean_stack_plain rooted_path_text path_comps_text clean_comps_id)

lemma path_Clean_form:
  "\<exists>cs. clean_stack (rooted_path p) cs \<and> path_Clean p = path_text (rooted_path p) cs"
  using clean_comps_stack [of "path_comps p" "rooted_path p"] path_comps_plain
  by (auto simp: path_Clean_def)

lemma path_Clean_idem [simp]: "path_Clean (path_Clean p) = path_Clean p"
  using path_Clean_form [of p] path_Clean_text by metis

end
