(* ===== verification/SftpPaths.thy ===== *)
theory SftpPaths
  imports GoPath ConnError "HOL-Library.Product_Lexorder" "HOL-Library.List_Lexorder" "HOL-Library.Char_ord"
begin

text \<open>
  Package \<open>internal/sftpmanager\<close>, what it does with paths and errors: \<open>path.go\<close>, \<open>manager_paths.go\<close>,
  the normal form of a request to delete (\<open>recursive_delete.go\<close>), the paths of a transfer plan
  (\<open>recursive.go\<close>), the conflict policies (\<open>manager_conflict.go\<close>) and the classification of
  errors (\<open>manager_errors.go\<close>).
\<close>

section \<open>Remote paths\<close>

text \<open>\<open>strings.ReplaceAll\<close> of the backslash by the slash.\<close>

definition slashed :: "string \<Rightarrow> string" where
  "slashed s = ReplaceChar s (CHR 0x5C) ''/''"

definition cleanRemotePath :: "string \<Rightarrow> string" where
  "cleanRemotePath val =
     (let val = TrimSpace (slashed val)
      in if val = [] \<or> val = ''.'' then ''.''
         else if val = ''/'' then ''/''
         else let cleaned = path_Clean val
              in if HasPrefix val ''/'' \<and> \<not> HasPrefix cleaned ''/'' then ''/'' @ cleaned
                 else cleaned)"

definition joinRemotePath :: "string \<Rightarrow> string \<Rightarrow> string" where
  "joinRemotePath parentPath name =
     (let parentPath = cleanRemotePath parentPath; name = TrimSpace (slashed name)
      in if name = [] then parentPath
         else if HasPrefix name ''/'' then cleanRemotePath name
         else if parentPath = ''.'' then cleanRemotePath name
         else cleanRemotePath (path_Join parentPath name))"

definition resolveRemotePath :: "string \<Rightarrow> string \<Rightarrow> string" where
  "resolveRemotePath currentPath candidate =
     (let candidate = TrimSpace (slashed candidate)
      in if candidate = [] then cleanRemotePath currentPath
         else if HasPrefix candidate ''/'' \<or> candidate = ''.'' \<or> HasPrefix candidate ''./''
           then cleanRemotePath candidate
         else joinRemotePath currentPath candidate)"

definition parentRemotePath :: "string \<Rightarrow> string" where
  "parentRemotePath val =
     (let val = cleanRemotePath val
      in if val = ''/'' \<or> val = ''.'' then val
         else let parent = path_Dir val
              in if parent = ''.'' \<and> HasPrefix val ''/'' then ''/'' else cleanRemotePath parent)"

definition baseRemotePath :: "string \<Rightarrow> string" where
  "baseRemotePath val =
     (let val = cleanRemotePath val
      in if val = ''/'' \<or> val = ''.'' then val else path_Base val)"

definition validateRemoteName :: "string \<Rightarrow> string option" where
  "validateRemoteName name =
     (let name = TrimSpace name
      in if name = [] then Some ''name is empty''
         else if CHR ''/'' \<in> set name \<or> CHR 0x5C \<in> set name
           then Some ''name must not contain a path separator''
         else if name = ''.'' \<or> name = ''..'' then Some ''name is reserved''
         else None)"

definition remoteRenameCandidate :: "string \<Rightarrow> nat \<Rightarrow> string" where
  "remoteRenameCandidate original index =
     (let (dir, base) = path_Split (cleanRemotePath original);
          ext = path_Ext base;
          stem = TrimSuffix base ext;
          (stem, ext) = (if stem = [] then (base, []) else (stem, ext))
      in cleanRemotePath (path_Join dir (stem @ '' ('' @ nat_digits index @ '')'' @ ext)))"

text \<open>\<open>hasParentTraversal\<close> looks for a double dot between separators.\<close>

definition hasParentTraversal :: "string \<Rightarrow> bool" where
  "hasParentTraversal val = list_ex (\<lambda>part. part = ''..'') (Split (slashed val) (CHR ''/''))"

definition validateRemoteItemPath :: "string \<Rightarrow> string option" where
  "validateRemoteItemPath remotePath =
     (if TrimSpace remotePath = [] then Some (zh [36828, 31243, 36335, 24452, 19981, 33021, 20026, 31354])
      else if ContainsAnyChar remotePath [CHR 0x00, CHR 0x0D, CHR 0x0A]
        then Some (zh [36828, 31243, 36335, 24452, 21253, 21547, 38750, 27861, 25511, 21046, 23383, 31526])
      else if hasParentTraversal remotePath then Some (zh [36828, 31243, 36335, 24452, 19981, 33021, 21253, 21547, 32, 46, 46])
      else let cleaned = cleanRemotePath remotePath
           in if cleaned = [] \<or> cleaned = ''.'' \<or> cleaned = ''..'' \<or> baseRemotePath cleaned = ''..''
              then Some (zh [36828, 31243, 36335, 24452, 26080, 25928]) else None)"

definition validateOperationGeneration :: "int \<Rightarrow> int \<Rightarrow> string option" where
  "validateOperationGeneration current_generation generation =
     (if generation > 0 \<and> current_generation > 0 \<and> generation \<noteq> current_generation
      then Some (zh [83, 70, 84, 80, 32, 36830, 25509, 19978, 19979, 25991, 24050, 36807, 26399, 65292, 35831, 37325, 26032, 21152, 36733, 21518, 20877, 35797]) else None)"

section \<open>Names in a transfer plan\<close>

definition safeRemoteChildName :: "string \<Rightarrow> bool" where
  "safeRemoteChildName name \<longleftrightarrow>
     name \<noteq> [] \<and> name \<noteq> ''.'' \<and> name \<noteq> ''..'' \<and> CHR ''/'' \<notin> set name \<and> CHR 0x5C \<notin> set name"

definition joinRelativePath :: "string \<Rightarrow> string \<Rightarrow> string" where
  "joinRelativePath parent name =
     (if parent = [] \<or> parent = ''.'' then name else path_Clean (parent @ ''/'' @ name))"

text \<open>\<open>filepath.ToSlash\<close> is the identity where the separator is the slash.\<close>

definition uploadRemotePath :: "string \<Rightarrow> string \<Rightarrow> string + string" where
  "uploadRemotePath remoteRoot relativePath =
     (if relativePath = [] \<or> relativePath = ''.'' then Inr (cleanRemotePath remoteRoot)
      else if hasParentTraversal relativePath \<or> HasPrefix relativePath ''/''
        then Inl (zh [30456, 23545, 36335, 24452, 19981, 23433, 20840])
      else Inr (joinRemotePath remoteRoot relativePath))"

definition safeDownloadRootName :: "string \<Rightarrow> string" where
  "safeDownloadRootName remoteRoot =
     (let name = baseRemotePath remoteRoot
      in if name = [] \<or> name = ''.'' \<or> name = ''/'' \<or> name = ''..'' then ''remote-root''
         else ReplaceChar (ReplaceChar name (CHR ''/'') ''_'') (CHR 0x5C) ''_'')"

section \<open>The paths of a request to delete\<close>

definition isRemoteDescendant :: "string \<Rightarrow> string \<Rightarrow> bool" where
  "isRemoteDescendant parent child =
     (let parent = cleanRemotePath parent; child = cleanRemotePath child
      in if parent = child then True
         else if parent = ''/'' \<or> parent = ''.'' then False
         else HasPrefix child (parent @ ''/''))"

definition normalizeDeletePath :: "string \<Rightarrow> string \<Rightarrow> string + string" where
  "normalizeDeletePath base rawPath =
     (let rawPath = TrimSpace (slashed rawPath)
      in if rawPath = [] then Inl (zh [36828, 31243, 36335, 24452, 19981, 33021, 20026, 31354])
         else if hasParentTraversal rawPath then Inl (zh [21024, 38500, 36335, 24452, 19981, 33021, 21253, 21547, 32, 46, 46])
         else let remotePath = resolveRemotePath base rawPath
              in if remotePath = [] \<or> remotePath = ''.'' \<or> remotePath = ''/'' \<or> remotePath = ''..''
                   then Inl (zh [25298, 32477, 21024, 38500, 26681, 30446, 24405, 25110, 20445, 30041, 36335, 24452])
                 else if hasParentTraversal remotePath then Inl (zh [21024, 38500, 36335, 24452, 19981, 33021, 21253, 21547, 32, 46, 46])
                 else Inr remotePath)"

fun normalize_all :: "string \<Rightarrow> string list \<Rightarrow> string + string list" where
  "normalize_all base [] = Inr []"
| "normalize_all base (rawPath # rest) =
     bind_res (normalizeDeletePath base rawPath)
       (\<lambda>p. bind_res (normalize_all base rest) (\<lambda>ps. Inr (p # ps)))"

text \<open>The loop that drops a path below one already kept.\<close>

definition collapse_step :: "string list \<Rightarrow> string \<Rightarrow> string list" where
  "collapse_step collapsed candidate =
     (if list_ex (\<lambda>parent. isRemoteDescendant parent candidate) collapsed
      then collapsed else collapsed @ [candidate])"

definition normalizeDeletePaths :: "string \<Rightarrow> string list \<Rightarrow> string + string list" where
  "normalizeDeletePaths base rawPaths =
     (if rawPaths = [] then Inl (zh [35831, 36873, 25321, 35201, 21024, 38500, 30340, 36828, 31243, 39033, 30446])
      else bind_res (normalize_all base rawPaths)
        (\<lambda>ps. Inr (foldl collapse_step []
                     (sort_key (\<lambda>p. (length p, p)) (uniq_seen {} ps)))))"


section \<open>A tidy path and its children\<close>

text \<open>
  A tidy path is one the code's normalisation leaves alone: no backslash, no space at either
  end, clean, and not the relative path of the session's own directory.
\<close>

definition tidy_path :: "string \<Rightarrow> bool" where
  "tidy_path p \<longleftrightarrow> slashed p = p \<and> TrimSpace p = p \<and> path_Clean p = p \<and> p \<noteq> ''.''"

definition tidy_name :: "string \<Rightarrow> bool" where
  "tidy_name name \<longleftrightarrow> safeRemoteChildName name \<and> TrimSpace name = name"

definition child_path :: "string \<Rightarrow> string \<Rightarrow> string" where
  "child_path p name = (if p = ''/'' then ''/'' @ name else p @ ''/'' @ name)"

lemma slashed_id: "CHR 0x5C \<notin> set s \<Longrightarrow> slashed s = s"
  by (induction s) (auto simp: slashed_def ReplaceChar_def)

lemma slashed_append: "slashed (s @ t) = slashed s @ slashed t"
  by (simp add: slashed_def ReplaceChar_def)

lemma slashed_slash: "slashed ''/'' = ''/''"
  by (simp add: slashed_def ReplaceChar_def)

lemma path_Clean_rooted: "HasPrefix v ''/'' \<Longrightarrow> HasPrefix (path_Clean v) ''/''"
  by (simp add: path_Clean_def path_text_def rooted_path_def HasPrefix_def)

lemma path_text_nonempty:
  assumes "clean_stack r cs" shows "path_text r cs \<noteq> []"
proof -
  have "[] \<notin> set cs" using clean_stack_plain [OF assms] by (auto simp: plain_comp_def)
  then show ?thesis by (auto simp: path_text_def dest: Join_nonempty)
qed

lemma path_Clean_nonempty: "path_Clean p \<noteq> []"
  using path_Clean_form [of p] path_text_nonempty by metis

lemma tidy_path_nonempty: "tidy_path p \<Longrightarrow> p \<noteq> []"
  using path_Clean_nonempty by (auto simp: tidy_path_def)

lemma tidy_path_fixed: "tidy_path p \<Longrightarrow> cleanRemotePath p = p"
  using tidy_path_nonempty path_Clean_rooted [of p]
  by (auto simp: tidy_path_def cleanRemotePath_def Let_def)

lemma space_runes_no_slash: "r \<in> set space_runes \<Longrightarrow> CHR ''/'' \<notin> set r"
  by (auto simp: space_runes_def)

lemma space_runes_Cons_slash:
  "r \<in> set space_runes \<Longrightarrow> prefix r (a @ CHR ''/'' # b) \<Longrightarrow> prefix r a"
  "r \<in> set space_runes \<Longrightarrow> suffix r (a @ CHR ''/'' # b) \<Longrightarrow> suffix r b"
  by (auto simp: prefix_append prefix_Cons suffix_append suffix_Cons dest: space_runes_no_slash)

lemma TrimSpace_slash_join:
  assumes "TrimSpace a = a" "TrimSpace b = b" "b \<noteq> []"
  shows "TrimSpace (a @ CHR ''/'' # b) = a @ CHR ''/'' # b"
proof (rule TrimSpace_id)
  show "space_len (a @ CHR ''/'' # b) = 0"
    unfolding space_len_0_iff
  proof (intro ballI notI)
    fix r assume r: "r \<in> set space_runes" "prefix r (a @ CHR ''/'' # b)"
    then have "prefix r a" by (rule space_runes_Cons_slash)
    moreover from this r have "a \<noteq> []" using space_runes_nonempty by auto
    then have "space_len a = 0" using TrimSpace_ends [of a] assms(1) by auto
    ultimately show False using r(1) by (simp add: space_len_0_iff)
  qed
  show "space_len_end (a @ CHR ''/'' # b) = 0"
    unfolding space_len_end_0_iff
  proof (intro ballI notI)
    fix r assume r: "r \<in> set space_runes" "suffix r (a @ CHR ''/'' # b)"
    then have "suffix r b" by (rule space_runes_Cons_slash)
    moreover have "space_len_end b = 0" using TrimSpace_ends [of b] assms(2,3) by auto
    ultimately show False using r(1) by (simp add: space_len_end_0_iff)
  qed
qed

lemma Join_snoc: "cs \<noteq> [] \<Longrightarrow> Join (cs @ [c]) sep = Join cs sep @ sep @ c"
proof (induction cs)
  case (Cons d ds)
  then show ?case by (cases ds) auto
qed simp

lemma clean_stack_snoc:
  assumes "clean_stack r cs" "plain_comp c" "c \<noteq> ''..''"
  shows "clean_stack r (cs @ [c])"
proof -
  obtain n rest where "cs = replicate n ''..'' @ rest" "''..'' \<notin> set rest" "r \<longrightarrow> n = 0"
    using assms(1) by (auto simp: clean_stack_def)
  then have "cs @ [c] = replicate n ''..'' @ (rest @ [c])" "''..'' \<notin> set (rest @ [c])" "r \<longrightarrow> n = 0"
    using assms(3) by auto
  moreover have "\<forall>d \<in> set (cs @ [c]). plain_comp d"
    using clean_stack_plain [OF assms(1)] assms(2) by simp
  ultimately show ?thesis unfolding clean_stack_def by blast
qed

lemma tidy_path_text:
  assumes "tidy_path p"
  obtains r cs where "clean_stack r cs" "p = path_text r cs" "r \<or> cs \<noteq> []"
proof -
  obtain cs where "clean_stack (rooted_path p) cs" "path_Clean p = path_text (rooted_path p) cs"
    using path_Clean_form by blast
  moreover from this assms have "p = path_text (rooted_path p) cs" by (simp add: tidy_path_def)
  moreover from this assms have "rooted_path p \<or> cs \<noteq> []"
    unfolding tidy_path_def path_text_def by metis
  ultimately show thesis using that by blast
qed

lemma child_path_text:
  assumes "clean_stack r cs" "r \<or> cs \<noteq> []" "p = path_text r cs"
  shows "child_path p name = path_text r (cs @ [name])"
proof (cases "cs = []")
  case True
  then show ?thesis using assms(2,3) by (simp add: child_path_def path_text_def)
next
  case False
  have "\<forall>c \<in> set cs. plain_comp c" by (rule clean_stack_plain [OF assms(1)])
  then have "path_comps p = cs" using assms(3) by (simp add: path_comps_text)
  moreover have "path_comps ''/'' = []" by (simp add: path_comps_def Split_def)
  ultimately have "p \<noteq> ''/''" using False by auto
  then show ?thesis using False assms(3) by (simp add: child_path_def path_text_def Join_snoc)
qed

lemma tidy_name_plain: "tidy_name name \<Longrightarrow> plain_comp name \<and> name \<noteq> ''..''"
  by (auto simp: tidy_name_def safeRemoteChildName_def plain_comp_def)

lemma child_path_tidy:
  assumes "tidy_path p" "tidy_name name"
  shows "tidy_path (child_path p name)"
proof -
  obtain r cs where cs: "clean_stack r cs" "p = path_text r cs" "r \<or> cs \<noteq> []"
    using assms(1) by (rule tidy_path_text)
  have child: "child_path p name = path_text r (cs @ [name])"
    using cs by (intro child_path_text)
  have plain: "plain_comp name" "name \<noteq> ''..''" using tidy_name_plain [OF assms(2)] by auto
  have "path_Clean (child_path p name) = child_path p name"
    unfolding child using clean_stack_snoc [OF cs(1) plain] by (rule path_Clean_text)
  moreover have "slashed name = name" "slashed p = p"
    using assms slashed_id [of name]
    by (simp_all add: tidy_path_def tidy_name_def safeRemoteChildName_def)
  then have "slashed (child_path p name) = child_path p name"
    unfolding child_path_def by (simp only: slashed_append slashed_slash split: if_splits) simp
  moreover have trims: "TrimSpace name = name" "TrimSpace p = p" "name \<noteq> []"
    using assms by (simp_all add: tidy_path_def tidy_name_def safeRemoteChildName_def)
  have "TrimSpace (child_path p name) = child_path p name"
    using TrimSpace_slash_join [of "[]" name, OF TrimSpace_Nil trims(1,3)]
      TrimSpace_slash_join [OF trims(2,1,3)]
    by (simp add: child_path_def)
  moreover have "CHR ''/'' \<in> set (child_path p name)" by (simp add: child_path_def)
  ultimately show ?thesis by (auto simp: tidy_path_def)
qed

lemma path_Join_child:
  assumes "clean_stack r cs" "r \<or> cs \<noteq> []" "plain_comp name" "name \<noteq> ''..''"
  shows "path_Join (path_text r cs) name = path_text r (cs @ [name])"
proof -
  define p where "p = path_text r cs"
  have pne: "p \<noteq> []" using path_text_nonempty [OF assms(1)] by (simp add: p_def)
  have plain: "\<forall>c \<in> set cs. plain_comp c" by (rule clean_stack_plain [OF assms(1)])
  have "rooted_path (p @ ''/'' @ name) = rooted_path p"
    using pne by (cases p) (simp_all add: rooted_path_def HasPrefix_def)
  then have rooted: "rooted_path (p @ ''/'' @ name) = r"
    using rooted_path_text [OF plain, of r] by (simp add: p_def)
  have "Split (p @ ''/'' @ name) (CHR ''/'') = Split p (CHR ''/'') @ [name]"
  proof -
    have "split_acc c acc (p @ c # name) = split_acc c acc p @ split_acc c [] name" for c acc p
      by (induction p arbitrary: acc) auto
    then show ?thesis using assms(3) by (simp add: Split_def split_acc_last plain_comp_def)
  qed
  then have "path_comps (p @ ''/'' @ name) = cs @ [name]"
    using assms(3) plain path_comps_text [of cs r] by (simp add: path_comps_def plain_comp_def p_def)
  then have "path_Clean (p @ ''/'' @ name) = path_text r (cs @ [name])"
    using rooted clean_comps_id [OF clean_stack_snoc [OF assms(1,3,4)]] by (simp add: path_Clean_def)
  then show ?thesis using pne by (simp add: path_Join_def p_def)
qed

lemma join_child_path:
  assumes "tidy_path p" "tidy_name name"
  shows "joinRemotePath p name = child_path p name"
proof -
  obtain r cs where cs: "clean_stack r cs" "p = path_text r cs" "r \<or> cs \<noteq> []"
    using assms(1) by (rule tidy_path_text)
  have plain: "plain_comp name" "name \<noteq> ''..''" using tidy_name_plain [OF assms(2)] by auto
  have name: "slashed name = name" "TrimSpace name = name" "name \<noteq> []" "\<not> HasPrefix name ''/''"
    using assms(2) slashed_id [of name]
    by (auto simp: tidy_name_def safeRemoteChildName_def HasPrefix_iff prefix_def)
  have pne: "p \<noteq> []" "p \<noteq> ''.''" using assms(1) tidy_path_nonempty by (auto simp: tidy_path_def)
  have "path_Join p name = child_path p name"
    using path_Join_child [OF cs(1,3) plain] child_path_text [OF cs(1,3,2)] cs(2) by simp
  then show ?thesis
    using name pne tidy_path_fixed [OF assms(1)] tidy_path_fixed [OF child_path_tidy [OF assms]]
    by (simp add: joinRemotePath_def Let_def)
qed


text \<open>A path is another one or below it, written out.\<close>

definition path_under :: "string \<Rightarrow> string \<Rightarrow> bool" where
  "path_under root p \<longleftrightarrow> p = root \<or> HasPrefix p (root @ ''/'')"

lemma isRemoteDescendant_tidy:
  "tidy_path p \<Longrightarrow> tidy_path q \<Longrightarrow> p \<noteq> ''/'' \<Longrightarrow> isRemoteDescendant p q = path_under p q"
  by (auto simp: isRemoteDescendant_def path_under_def tidy_path_fixed tidy_path_def)

lemma path_under_length: "path_under p q \<Longrightarrow> p \<noteq> q \<Longrightarrow> length p < length q"
  by (auto simp: path_under_def HasPrefix_iff prefix_def)

lemma isRemoteDescendant_refl [simp]: "isRemoteDescendant p p"
  by (simp add: isRemoteDescendant_def)

lemma child_path_descendant:
  assumes "tidy_path root" "root \<noteq> ''/''" "tidy_path p" "p = root \<or> HasPrefix p (root @ ''/'')"
    "tidy_name name"
  shows "HasPrefix (child_path p name) (root @ ''/'')"
proof -
  have "p \<noteq> ''/''"
    using assms(1,2,4) tidy_path_nonempty [OF assms(1)]
    by (auto simp: HasPrefix_iff prefix_Cons prefix_def Cons_eq_append_conv)
  then show ?thesis
    using assms(4) by (auto simp: child_path_def HasPrefix_iff prefix_def)
qed

section \<open>What normalising the paths of a delete gives\<close>

text \<open>A result of the normalisation is tidy, unless a component at an end of it has a space at that end.\<close>

lemma set_Join: "set (Join cs sep) \<subseteq> (\<Union>c \<in> set cs. set c) \<union> set sep"
proof (induction cs)
  case (Cons d ds)
  then show ?case by (cases ds) auto
qed simp

lemma set_Join_comp: "c \<in> set cs \<Longrightarrow> set c \<subseteq> set (Join cs sep)"
proof (induction cs)
  case (Cons d ds)
  then show ?case by (cases ds) auto
qed simp

lemma set_path_comps: "c \<in> set (path_comps v) \<Longrightarrow> set c \<subseteq> set v"
  using set_Join_comp [of c "Split v (CHR ''/'')" "''/''"] Split_Join [of v "CHR ''/''"]
  by (auto simp: path_comps_def)

lemma set_clean_comps: "set (clean_comps r cs) \<subseteq> insert ''..'' (set cs)"
proof -
  have "set (foldl (clean_step r) st cs) \<subseteq> insert ''..'' (set st \<union> set cs)" for st
  proof (induction cs arbitrary: st)
    case (Cons c cs)
    have "set (clean_step r st c) \<subseteq> insert ''..'' (insert c (set st))"
      by (auto simp: clean_step_def split: list.splits)
    then show ?case using Cons.IH [of "clean_step r st c"] by auto
  qed auto
  then show ?thesis by (fastforce simp: clean_comps_def)
qed

lemma path_Clean_no_backslash:
  assumes "CHR 0x5C \<notin> set v"
  shows "CHR 0x5C \<notin> set (path_Clean v)"
proof -
  have "CHR 0x5C \<notin> set c" if "c \<in> set (clean_comps (rooted_path v) (path_comps v))" for c
    using set_clean_comps [of "rooted_path v" "path_comps v"] that set_path_comps [of c v] assms by fastforce
  then have "CHR 0x5C \<notin> set (Join (clean_comps (rooted_path v) (path_comps v)) ''/'')"
    using set_Join [of "clean_comps (rooted_path v) (path_comps v)" "''/''"] by auto
  then show ?thesis by (cases "rooted_path v") (simp_all add: path_Clean_def path_text_def)
qed

lemma cleanRemotePath_tidy:
  assumes "TrimSpace (cleanRemotePath v) = cleanRemotePath v" "cleanRemotePath v \<noteq> ''.''"
  shows "tidy_path (cleanRemotePath v)"
proof -
  define u where "u = TrimSpace (slashed v)"
  have u: "CHR 0x5C \<notin> set u"
    using set_TrimSpace [of "slashed v"] ReplaceChar_removes [of "CHR 0x5C" "''/''" v] by (auto simp: u_def slashed_def)
  have "cleanRemotePath v = ''/'' \<or> cleanRemotePath v = path_Clean u"
    using assms(2) path_Clean_rooted [of u] by (auto simp: cleanRemotePath_def Let_def u_def)
  then show ?thesis
  proof
    assume "cleanRemotePath v = path_Clean u"
    then show ?thesis
      using assms slashed_id [OF path_Clean_no_backslash [OF u]] path_Clean_idem [of u] by (simp add: tidy_path_def)
  next
    assume "cleanRemotePath v = ''/''"
    moreover have "tidy_path ''/''" by code_simp
    ultimately show ?thesis by simp
  qed
qed

lemma resolveRemotePath_clean: "resolveRemotePath base p \<in> range cleanRemotePath"
proof -
  have choice: "a \<in> S \<Longrightarrow> b \<in> S \<Longrightarrow> (if c then a else b) \<in> S" for a b :: string and c S by simp
  show ?thesis unfolding resolveRemotePath_def joinRemotePath_def Let_def by (intro choice rangeI)
qed

lemma normalize_all_from:
  "normalize_all base raws = Inr ps \<Longrightarrow> p \<in> set ps \<Longrightarrow>
   \<exists>raw \<in> set raws. normalizeDeletePath base raw = Inr p"
  by (induction raws arbitrary: ps) (auto simp: bind_res_Inr_iff)

lemma normalize_all_each:
  "normalize_all base raws = Inr ps \<Longrightarrow> raw \<in> set raws \<Longrightarrow>
   \<exists>p \<in> set ps. normalizeDeletePath base raw = Inr p"
  by (induction raws arbitrary: ps) (auto simp: bind_res_Inr_iff)

lemma collapse_step_set: "set (collapse_step ps p) \<subseteq> insert p (set ps) \<and> set ps \<subseteq> set (collapse_step ps p)"
  by (auto simp: collapse_step_def)

lemma collapse_set: "set (foldl collapse_step acc ps) \<subseteq> set acc \<union> set ps"
  using collapse_step_set by (induction ps arbitrary: acc) fastforce+

lemma collapse_mono: "set acc \<subseteq> set (foldl collapse_step acc ps)"
  using collapse_step_set by (induction ps arbitrary: acc) fastforce+

lemma collapse_covers:
  "p \<in> set ps \<Longrightarrow> \<exists>q \<in> set (foldl collapse_step acc ps). isRemoteDescendant q p"
proof (induction ps arbitrary: acc)
  case (Cons a ps)
  show ?case
  proof (cases "p = a")
    case True
    have "\<exists>q \<in> set (collapse_step acc a). isRemoteDescendant q a"
      by (auto simp: collapse_step_def list_ex_iff)
    with True show ?thesis using collapse_mono [of "collapse_step acc a" ps] by auto
  qed (use Cons in auto)
qed simp

lemma collapse_apart:
  "sorted_wrt (\<lambda>p q. \<not> isRemoteDescendant p q) acc \<Longrightarrow>
   sorted_wrt (\<lambda>p q. \<not> isRemoteDescendant p q) (foldl collapse_step acc ps)"
  by (rule foldl_invariant_keeps) (auto simp: collapse_step_def sorted_wrt_append list_ex_iff)

lemma collapse_sorted:
  "sorted_wrt R (acc @ ps) \<Longrightarrow> sorted_wrt R (foldl collapse_step acc ps)"
proof (induction ps arbitrary: acc)
  case (Cons p ps)
  then show ?case by (auto simp: collapse_step_def sorted_wrt_append intro!: Cons.IH)
qed simp

lemma normalizeDeletePath_tidy:
  assumes "normalizeDeletePath base raw = Inr p" "TrimSpace p = p"
  shows "tidy_path p \<and> p \<noteq> ''/''"
proof -
  have "p = resolveRemotePath base (TrimSpace (slashed raw))" "p \<noteq> ''.''" "p \<noteq> ''/''"
    using assms(1) unfolding normalizeDeletePath_def Let_def by (auto split: if_splits)
  then show ?thesis
    using cleanRemotePath_tidy assms(2) resolveRemotePath_clean [of base "TrimSpace (slashed raw)"] by auto
qed

lemma normalizeDeletePath_Inr:
  assumes "normalizeDeletePath base raw = Inr p"
  shows "p \<notin> {[], ''.'', ''/'', ''..''} \<and> \<not> hasParentTraversal p"
  using assms unfolding normalizeDeletePath_def Let_def
  by (auto split: if_splits simp del: hasParentTraversal_def)

text \<open>
  C34: The paths of a delete. When every requested path is accepted, no resulting path is empty,
  the root, the session's own directory or a double dot, or has a double dot among its
  components, and each comes from a requested path. If none of the accepted paths has a space at an
  end, then each requested path is a resulting path or below one, and of two resulting paths
  none is the other or below it, so nothing is deleted twice.
\<close>

theorem normalizeDeletePaths_sound:
  assumes "normalizeDeletePaths base raws = Inr ps"
  shows "ps \<noteq> [] \<and>
   (\<forall>p \<in> set ps. p \<notin> {[], ''.'', ''/'', ''..''} \<and> \<not> hasParentTraversal p \<and>
      (\<exists>raw \<in> set raws. normalizeDeletePath base raw = Inr p)) \<and>
   ((\<forall>raw \<in> set raws. \<forall>p. normalizeDeletePath base raw = Inr p \<longrightarrow> TrimSpace p = p) \<longrightarrow>
     (\<forall>raw \<in> set raws. \<exists>p. normalizeDeletePath base raw = Inr p \<and> (\<exists>q \<in> set ps. path_under q p)) \<and>
     (\<forall>i < length ps. \<forall>j < length ps. i \<noteq> j \<longrightarrow> \<not> path_under (ps ! i) (ps ! j)))"
proof -
  define sorted_paths where
    "sorted_paths qs = sort_key (\<lambda>p. (length p, p)) (uniq_seen {} qs)" for qs :: "string list"
  obtain qs where qs: "normalize_all base raws = Inr qs"
      "ps = foldl collapse_step [] (sorted_paths qs)" "raws \<noteq> []"
    using assms by (auto simp: normalizeDeletePaths_def bind_res_Inr_iff sorted_paths_def split: if_splits)
  have same: "set (sorted_paths qs) = set qs" by (simp add: sorted_paths_def set_uniq_seen)
  have "set ps \<subseteq> set qs"
    using collapse_set [of "[]" "sorted_paths qs"] same qs(2) by simp
  then have from_raw: "\<exists>raw \<in> set raws. normalizeDeletePath base raw = Inr p" if "p \<in> set ps" for p
    using that normalize_all_from [OF qs(1)] by blast
  have covered: "\<exists>p. normalizeDeletePath base raw = Inr p \<and> (\<exists>q \<in> set ps. isRemoteDescendant q p)"
    if raw: "raw \<in> set raws" for raw
  proof -
    obtain p where p: "p \<in> set qs" "normalizeDeletePath base raw = Inr p"
      using normalize_all_each [OF qs(1) raw] by blast
    then show ?thesis
      using collapse_covers [of p "sorted_paths qs" "[]"] same qs(2) by blast
  qed
  have "ps \<noteq> []" using covered [of "hd raws"] qs(3) by auto
  moreover have "(\<forall>raw \<in> set raws. \<exists>p. normalizeDeletePath base raw = Inr p \<and> (\<exists>q \<in> set ps. path_under q p)) \<and>
     (\<forall>i < length ps. \<forall>j < length ps. i \<noteq> j \<longrightarrow> \<not> path_under (ps ! i) (ps ! j))"
    if trimmed: "\<forall>raw \<in> set raws. \<forall>p. normalizeDeletePath base raw = Inr p \<longrightarrow> TrimSpace p = p"
  proof -
    have tidy: "tidy_path p \<and> p \<noteq> ''/''" if "raw \<in> set raws" "normalizeDeletePath base raw = Inr p" for raw p
      using normalizeDeletePath_tidy [OF that(2)] trimmed that by blast
    then have under: "isRemoteDescendant q p = path_under q p"
      if "q \<in> set ps" "raw \<in> set raws" "normalizeDeletePath base raw = Inr p" for q p raw
      using isRemoteDescendant_tidy from_raw that by metis
    have apart: "sorted_wrt (\<lambda>p q. \<not> isRemoteDescendant p q) ps"
      unfolding qs(2) by (rule collapse_apart) simp
    have "sorted (map (\<lambda>p. (length p, p)) (sorted_paths qs))" by (simp add: sorted_paths_def)
    then have "sorted_wrt (\<lambda>p q. length p \<le> length q) (sorted_paths qs)"
      by (auto simp: sorted_map less_eq_prod_def elim: sorted_wrt_mono_rel [rotated])
    then have short: "sorted_wrt (\<lambda>p q. length p \<le> length q) ps"
      unfolding qs(2) using collapse_sorted [of _ "[]"] by simp
    have "\<not> path_under (ps ! i) (ps ! j)" if ij: "i < length ps" "j < length ps" "i \<noteq> j" for i j
    proof (cases "i < j")
      case True
      then show ?thesis using sorted_wrt_nth_less [OF apart True ij(2)] under from_raw ij(1,2) nth_mem by metis
    next
      case False
      then have lt: "j < i" using ij(3) by simp
      have "ps ! i \<noteq> ps ! j" using sorted_wrt_nth_less [OF apart lt ij(1)] by auto
      then show ?thesis
        using path_under_length [of "ps ! i" "ps ! j"] sorted_wrt_nth_less [OF short lt ij(1)] by auto
    qed
    then show ?thesis using covered under by metis
  qed
  moreover have "p \<notin> {[], ''.'', ''/'', ''..''} \<and> \<not> hasParentTraversal p" if "p \<in> set ps" for p
    using from_raw [OF that] normalizeDeletePath_Inr by blast
  ultimately show ?thesis using from_raw by blast
qed

lemma sample_delete:
  "normalizeDeletePaths ''/x'' [''y/z'', ''y'', ''/a//b/c/''] = Inr [''/x/y'', ''/a/b/c'']"
  by code_simp

lemma normalizeDeletePaths_sound_witness:
  "normalizeDeletePaths ''/x'' [''y/z'', ''y'', ''/a//b/c/''] = Inr [''/x/y'', ''/a/b/c''] \<and>
   (\<exists>p. normalizeDeletePath ''/x'' ''y/z'' = Inr p \<and> (path_under ''/x/y'' p \<or> path_under ''/a/b/c'' p))"
proof -
  have "list_all (\<lambda>raw. case normalizeDeletePath ''/x'' raw of Inl _ \<Rightarrow> True | Inr p \<Rightarrow> TrimSpace p = p)
      [''y/z'', ''y'', ''/a//b/c/'']"
    by code_simp
  then have trimmed: "\<forall>raw \<in> set [''y/z'', ''y'', ''/a//b/c/'']. \<forall>p. normalizeDeletePath ''/x'' raw = Inr p \<longrightarrow> TrimSpace p = p"
    by (fastforce simp: list_all_iff)
  note sound = normalizeDeletePaths_sound [OF sample_delete, THEN conjunct2, THEN conjunct2, THEN mp, OF trimmed]
  show ?thesis using sound [THEN conjunct1, THEN bspec, of "''y/z''"] sample_delete by auto
qed

text \<open>
  With a space at the end of a path the check for nested paths looks for the wrong parent: both paths
  stay, and the second is deleted after the directory it is in.
\<close>

lemma nested_delete_kept:
  "normalizeDeletePaths ''/'' [''/a /'', ''/a /b''] = Inr [''/a '', ''/a /b''] \<and> path_under ''/a '' ''/a /b''"
  by (intro conjI) code_simp+

text \<open>
  The guard against double dots has a hole. The check runs before the spaces around the
  joined path are trimmed, so a relative path that ends in a double dot, a space and a slash
  passes it and names the parent of the current directory, which is then what is deleted. In
  the same way a child name of a double dot and a space, which the check of child names
  accepts, is joined to its directory's parent.
\<close>

theorem normalizeDeletePath_escapes:
  "\<not> hasParentTraversal ''.. /'' \<and>
   normalizeDeletePath ''/srv/app'' ''.. /'' = Inr ''/srv'' \<and>
   safeRemoteChildName ''.. '' \<and> joinRemotePath ''/srv/app'' ''.. '' = ''/srv''"
  by (intro conjI) code_simp+

text \<open>
  Normalisation confuses two different remote files whose names differ by a space at the
  end: a request to delete both keeps only one of them, and the entries of a directory whose
  name ends in a space are joined to the directory without the space.
\<close>

theorem trimmed_names_collide:
  "normalizeDeletePaths ''/'' [''/a'', ''/a /''] = Inr [''/a''] \<and>
   normalizeDeletePaths ''/'' [''/a /''] = Inr [''/a ''] \<and>
   joinRemotePath ''/a '' ''b'' = ''/a/b''"
  by (intro conjI) code_simp+

end
