(* ===== verification/SftpErrors.thy ===== *)
theory SftpErrors
  imports ConnError
begin

text \<open>
  Package \<open>internal/sftpmanager\<close>, \<open>manager_errors.go\<close> and the error test of
  \<open>manager_conflict.go\<close>: the code and message the user sees for a failed remote file operation,
  whether the session is given up for it, and whether a transfer may be retried.
\<close>

record sftpClassifiedError =
  sce_code :: string
  sce_message :: string

definition classified :: "string \<Rightarrow> string \<Rightarrow> sftpClassifiedError" where
  "classified code message = \<lparr>sce_code = code, sce_message = message\<rparr>"

definition isClosedTransportError :: "goerr \<Rightarrow> bool" where
  "isClosedTransportError err =
     (if errors_Is KEOF err \<or> errors_Is KClosedPipe err \<or> errors_Is KNetClosed err \<or>
         errors_Is KDeadlineExceeded err then True
      else let message = ToLower (err_Error err)
        in Contains message ''connection reset'' \<or>
           Contains message ''broken pipe'' \<or>
           Contains message ''ssh: session closed'' \<or>
           Contains message ''sftp connection lost'' \<or>
           Contains message ''operation timeout'' \<or>
           Contains message ''route transport closed'' \<or>
           Contains message ''use of closed network connection'' \<or>
           Contains message ''client connection lost'' \<or>
           Contains message ''server unexpectedly closed network connection'' \<or>
           Contains message ''connection closed'' \<or>
           Contains message ''closed pipe'' \<or>
           Contains message ''eof'')"

definition classifySFTPError :: "goerr \<Rightarrow> sftpClassifiedError" where
  "classifySFTPError err =
     (let message = ToLower (err_Error err)
      in if errors_Is KCanceled err then classified ''SFTP_CANCELED'' (zh [25805, 20316, 24050, 21462, 28040])
         else if isClosedTransportError err
           then classified ''SFTP_CONNECTION_CLOSED'' (zh [83, 70, 84, 80, 32, 36830, 25509, 24050, 20851, 38381])
         else if Contains message ''scp'' then classified ''SCP_TRANSFER_FAILED'' (zh [83, 67, 80, 32, 20256, 36755, 22833, 36133])
         else if Contains message ''permission denied''
           then classified ''SFTP_PERMISSION_DENIED'' (zh [26435, 38480, 19981, 36275])
         else if Contains message ''no such file'' \<or> Contains message ''not exist''
           then classified ''SFTP_NOT_FOUND'' (zh [25991, 20214, 25110, 30446, 24405, 19981, 23384, 22312])
         else if Contains message ''failure'' \<and> Contains message ''directory''
           then classified ''SFTP_DIRECTORY_NOT_EMPTY'' (zh [30446, 24405, 19981, 26159, 31354, 30446, 24405, 25110, 26080, 27861, 21024, 38500])
         else if Contains message ''exists'' then classified ''SFTP_EXISTS'' (zh [25991, 20214, 25110, 30446, 24405, 24050, 23384, 22312])
         else if Contains message ''space'' then classified ''SFTP_NO_SPACE'' (zh [30913, 30424, 31354, 38388, 19981, 36275])
         else if Contains message ''closed'' \<or> Contains message ''eof'' \<or>
                 Contains message ''connection''
           then classified ''SFTP_CONNECTION_CLOSED'' (zh [83, 70, 84, 80, 32, 36830, 25509, 24050, 20851, 38381])
         else classified ''SFTP_UNKNOWN'' (zh [83, 70, 84, 80, 32, 25805, 20316, 22833, 36133]))"

definition isRetryableSFTPError :: "goerr \<Rightarrow> bool" where
  "isRetryableSFTPError err =
     (sce_code (classifySFTPError err) = ''SFTP_CONNECTION_CLOSED'' \<or>
      sce_code (classifySFTPError err) = ''SFTP_CANCELED'' \<or>
      sce_code (classifySFTPError err) = ''SFTP_UNKNOWN'')"

definition saveCodeForError :: "goerr \<Rightarrow> string" where
  "saveCodeForError err =
     (let code = sce_code (classifySFTPError err)
      in if code = ''SFTP_PERMISSION_DENIED'' then ''SFTP_SAVE_PERMISSION_DENIED''
         else if code = ''SFTP_NOT_FOUND'' then ''SFTP_SAVE_NOT_FOUND''
         else if code = ''SFTP_NO_SPACE'' then ''SFTP_SAVE_NO_SPACE''
         else if code = ''SFTP_CONNECTION_CLOSED'' \<or> code = ''SFTP_CANCELED''
           then ''SFTP_SAVE_CONNECTION_CLOSED''
         else if code = ''SFTP_EXISTS'' then ''SFTP_SAVE_TARGET_EXISTS''
         else ''SFTP_SAVE_UNKNOWN'')"

definition saveMessageForStage :: "string \<Rightarrow> goerr \<Rightarrow> string" where
  "saveMessageForStage stage err =
     (let code = sce_code (classifySFTPError err)
      in if code = ''SFTP_PERMISSION_DENIED'' then zh [20445, 23384, 22833, 36133, 65306, 27809, 26377, 20889, 20837, 26435, 38480, 12290]
         else if code = ''SFTP_NOT_FOUND'' then zh [20445, 23384, 22833, 36133, 65306, 30446, 26631, 25991, 20214, 19981, 23384, 22312, 25110, 24050, 34987, 21024, 38500, 12290]
         else if code = ''SFTP_NO_SPACE'' then zh [20445, 23384, 22833, 36133, 65306, 36828, 31243, 30913, 30424, 31354, 38388, 19981, 36275, 12290]
         else if code = ''SFTP_CONNECTION_CLOSED'' \<or> code = ''SFTP_CANCELED''
           then zh [20445, 23384, 22833, 36133, 65306, 36830, 25509, 24050, 26029, 24320, 12290]
         else if stage = ''stat_before_save'' then zh [20445, 23384, 22833, 36133, 65306, 26080, 27861, 35835, 21462, 36828, 31243, 25991, 20214, 29366, 24577, 12290]
         else if stage = ''create_temp_file'' then zh [20445, 23384, 22833, 36133, 65306, 26080, 27861, 21019, 24314, 20020, 26102, 25991, 20214, 12290]
         else if stage = ''write_temp_file'' then zh [20445, 23384, 22833, 36133, 65306, 26080, 27861, 20889, 20837, 20020, 26102, 25991, 20214, 12290]
         else if stage = ''close_temp_file'' then zh [20445, 23384, 22833, 36133, 65306, 26080, 27861, 23436, 25104, 20020, 26102, 25991, 20214, 20889, 20837, 12290]
         else if stage = ''rename_temp_to_target''
           then zh [20445, 23384, 22833, 36133, 65306, 26381, 21153, 22120, 19981, 25903, 25345, 35206, 30422, 24335, 37325, 21629, 21517, 65292, 19988, 30452, 25509, 20889, 20837, 20828, 24213, 22833, 36133, 12290]
         else if stage = ''fallback_direct_write'' then zh [20445, 23384, 22833, 36133, 65306, 26080, 27861, 30452, 25509, 20889, 20837, 30446, 26631, 25991, 20214, 12290]
         else if stage = ''stat_after_save''
           then zh [20445, 23384, 22833, 36133, 65306, 25991, 20214, 24050, 20889, 20837, 65292, 20294, 26080, 27861, 21047, 26032, 36828, 31243, 25991, 20214, 29366, 24577, 12290]
         else zh [20445, 23384, 22833, 36133, 65306, 26410, 30693, 38169, 35823, 65292, 35831, 26597, 30475, 25216, 26415, 35814, 24773, 12290])"

text \<open>\<open>isRemoteNotExistError\<close> of a possible error.\<close>

definition isRemoteNotExistError :: "goerr option \<Rightarrow> bool" where
  "isRemoteNotExistError err =
     (case err of None \<Rightarrow> False
      | Some err \<Rightarrow>
          errors_Is KNotExist err \<or>
          (let message = ToLower (err_Error err)
           in Contains message ''no such file'' \<or> Contains message ''not exist'' \<or>
              Contains message ''not_found''))"

text \<open>
  An error that opens no SFTP channel: the server may have no SFTP subsystem, and then the
  manager falls back to SCP.
\<close>

definition isSCPFallbackError :: "goerr \<Rightarrow> bool" where
  "isSCPFallbackError err =
     (let message = ToLower (err_Error err)
      in Contains message ''sftp_unsupported'' \<or>
         Contains message ''subsystem request failed'' \<or>
         (Contains message ''subsystem'' \<and> Contains message ''failed'') \<or>
         Contains message ''remote closed during init'' \<or>
         Contains message ''remote command exited'' \<or>
         (Contains message ''sftp-server'' \<and>
            (Contains message ''not found'' \<or> Contains message ''no such file'')) \<or>
         (Contains message ''openssh-sftp-server'' \<and>
            (Contains message ''not found'' \<or> Contains message ''no such file'')) \<or>
         (Contains message ''channel'' \<and> Contains message ''closed'') \<or>
         Contains message ''eof'' \<or>
         Contains message ''connection closed'')"

definition classifySFTPOpenError ::
  "platform_errno \<Rightarrow> goerr \<Rightarrow> Connection \<Rightarrow> string \<Rightarrow> ConnectionError" where
  "classifySFTPOpenError plat err connection stamp =
     (let message = ToLower (err_Error err)
      in if Contains message ''subsystem request failed'' \<or>
            (Contains message ''subsystem'' \<and> Contains message ''failed'') \<or>
            Contains message ''remote command exited'' \<or>
            (Contains message ''sftp-server'' \<and> Contains message ''not found'') \<or>
            (Contains message ''openssh-sftp-server'' \<and> Contains message ''not found'')
         then \<lparr>ce_Code = ''SFTP_UNSUPPORTED'',
               ce_UserMessage = zh [24403, 21069, 26381, 21153, 22120, 26410, 21551, 29992, 32, 83, 70, 84, 80, 32, 23376, 31995, 32479, 65292, 83, 83, 72, 32, 32456, 31471, 20173, 21487, 27491, 24120, 20351, 29992, 12290, 79, 112, 101, 110, 87, 114, 116, 47, 73, 109, 109, 111, 114, 116, 97, 108, 87, 114, 116, 32, 21487, 23581, 35797, 23433, 35013, 32, 111, 112, 101, 110, 115, 115, 104, 45, 115, 102, 116, 112, 45, 115, 101, 114, 118, 101, 114, 65306, 111, 112, 107, 103, 32, 117, 112, 100, 97, 116, 101, 32, 38, 38, 32, 111, 112, 107, 103, 32, 105, 110, 115, 116, 97, 108, 108, 32, 111, 112, 101, 110, 115, 115, 104, 45, 115, 102, 116, 112, 45, 115, 101, 114, 118, 101, 114, 12290],
               ce_TechnicalMessage = err_Error err, ce_Retryable = False,
               ce_ServerID = conn_ID connection, ce_Operation = ''sftp.open'',
               ce_Timestamp = stamp, ce_Stage = [], ce_CredentialServerID = 0,
               ce_CredentialServerName = [], ce_CredentialFromStore = False,
               ce_ExpectedFingerprint = [], ce_ObservedFingerprint = []\<rparr>
         else if Contains message ''channel'' \<and> Contains message ''closed''
         then \<lparr>ce_Code = ''SFTP_REMOTE_CLOSED_DURING_INIT'',
               ce_UserMessage = zh [36828, 31471, 22312, 21021, 22987, 21270, 32, 83, 70, 84, 80, 32, 26102, 20851, 38381, 20102, 36890, 36947, 12290, 83, 83, 72, 32, 32456, 31471, 21487, 33021, 20173, 21487, 20351, 29992, 65292, 35831, 26816, 26597, 26381, 21153, 22120, 26159, 21542, 21551, 29992, 20102, 32, 83, 70, 84, 80, 32, 23376, 31995, 32479, 12290],
               ce_TechnicalMessage = err_Error err, ce_Retryable = False,
               ce_ServerID = conn_ID connection, ce_Operation = ''sftp.open'',
               ce_Timestamp = stamp, ce_Stage = [], ce_CredentialServerID = 0,
               ce_CredentialServerName = [], ce_CredentialFromStore = False,
               ce_ExpectedFingerprint = [], ce_ObservedFingerprint = []\<rparr>
         else let classified = Classify plat (Some err) connection ''sftp.open'' stamp
           in if Contains message ''eof'' \<or> Contains message ''connection closed''
              then classified
                \<lparr>ce_Code := ''SFTP_REMOTE_CLOSED_DURING_INIT'',
                 ce_UserMessage := zh [36828, 31471, 22312, 21021, 22987, 21270, 32, 83, 70, 84, 80, 32, 26102, 20851, 38381, 20102, 36830, 25509, 12290, 83, 83, 72, 32, 32456, 31471, 21487, 33021, 20173, 21487, 20351, 29992, 65292, 35831, 26816, 26597, 26381, 21153, 22120, 26159, 21542, 21551, 29992, 20102, 32, 83, 70, 84, 80, 32, 23376, 31995, 32479, 12290]\<rparr>
              else classified)"

section \<open>What the classification promises\<close>

lemma X_if_code:
  "(c \<Longrightarrow> P a) \<Longrightarrow> (\<not> c \<Longrightarrow> P b) \<Longrightarrow> P (if c then a else b)"
  by simp

lemma sce_code_classified [simp]: "sce_code (classified c m) = c"
  by (simp add: classified_def)

text \<open>
  A dead transport is always reported as one. When the error chain holds an end of file, a
  closed pipe or socket or an exceeded deadline, or the text says so, and the operation was not
  canceled, the code is that of a closed connection, the transfer may be retried, and a save
  that failed with it reports the closed connection, whatever stage it was in.
\<close>

theorem closed_transport_retryable:
  assumes "isClosedTransportError err" "\<not> errors_Is KCanceled err"
  shows "sce_code (classifySFTPError err) = ''SFTP_CONNECTION_CLOSED'' \<and>
    isRetryableSFTPError err \<and> saveCodeForError err = ''SFTP_SAVE_CONNECTION_CLOSED'' \<and>
    saveMessageForStage stage err = zh [20445, 23384, 22833, 36133, 65306, 36830, 25509, 24050, 26029, 24320, 12290]"
proof -
  have "sce_code (classifySFTPError err) = ''SFTP_CONNECTION_CLOSED''"
    using assms by (simp add: classifySFTPError_def)
  then show ?thesis
    by (simp add: isRetryableSFTPError_def saveCodeForError_def saveMessageForStage_def)
qed

definition eof_error :: goerr where
  "eof_error =
     GoErr \<lparr>node_text = ''read'', node_kind = KPlain, node_fingerprints = None, node_timeout = None\<rparr>
       [GoErr \<lparr>node_text = ''end'', node_kind = KEOF, node_fingerprints = None, node_timeout = None\<rparr> []]"

lemma closed_transport_retryable_witness:
  "isRetryableSFTPError eof_error \<and> \<not> Contains (err_Error eof_error) ''eof''"
proof -
  have "isClosedTransportError eof_error" "\<not> errors_Is KCanceled eof_error"
    by (simp_all add: isClosedTransportError_def eof_error_def errors_Is_def)
  from closed_transport_retryable [OF this] show ?thesis
    by (simp add: eof_error_def err_Error_def HasPrefix_def)
qed

lemma geoffrey_closed: "isClosedTransportError (errors_New ''geoffrey: permission denied'')"
proof -
  have "Contains (ToLower (err_Error (errors_New ''geoffrey: permission denied''))) ''eof''"
    by code_simp
  then show ?thesis unfolding isClosedTransportError_def Let_def by simp
qed

lemma guest_text: "ToLower (err_Error (errors_New ''guest: permission denied'')) = ''guest: permission denied''"
  by code_simp

lemma guest_open: "\<not> isClosedTransportError (errors_New ''guest: permission denied'')"
  by code_simp

text \<open>
  The name of a file can decide the class of its error. The letters \<open>eof\<close> anywhere in the
  text make the error one of a closed transport, so a denied access that names
  \<open>geoffrey\<close> is reported as a lost connection, may be retried, and gives the session up.
\<close>

theorem file_name_closes_session:
  "isClosedTransportError (errors_New ''geoffrey: permission denied'') \<and>
   sce_code (classifySFTPError (errors_New ''geoffrey: permission denied''))
     = ''SFTP_CONNECTION_CLOSED'' \<and>
   sce_code (classifySFTPError (errors_New ''guest: permission denied''))
     = ''SFTP_PERMISSION_DENIED''"
proof (intro conjI)
  show "isClosedTransportError (errors_New ''geoffrey: permission denied'')"
    by (rule geoffrey_closed)
  then show "sce_code (classifySFTPError (errors_New ''geoffrey: permission denied''))
     = ''SFTP_CONNECTION_CLOSED''"
    by (simp add: classifySFTPError_def errors_Is_def errors_New_def)
  have "\<not> errors_Is KCanceled (errors_New ''guest: permission denied'')"
    by (simp add: errors_Is_def errors_New_def)
  moreover have "\<not> Contains ''guest: permission denied'' ''scp''"
    "Contains ''guest: permission denied'' ''permission denied''" by code_simp+
  ultimately show "sce_code (classifySFTPError (errors_New ''guest: permission denied''))
     = ''SFTP_PERMISSION_DENIED''"
    unfolding classifySFTPError_def Let_def guest_text
    by (simp only: guest_open if_False if_True sce_code_classified)
qed

text \<open>
  Every class is one of nine codes, and the three that a transfer may retry are exactly those
  of a connection that went away, of a canceled operation and of an unrecognised error.
\<close>

theorem classifySFTPError_codes:
  "(sce_code (classifySFTPError err), isRetryableSFTPError err) \<in>
     {(''SFTP_CANCELED'', True), (''SFTP_CONNECTION_CLOSED'', True), (''SFTP_UNKNOWN'', True),
      (''SCP_TRANSFER_FAILED'', False), (''SFTP_PERMISSION_DENIED'', False),
      (''SFTP_NOT_FOUND'', False), (''SFTP_DIRECTORY_NOT_EMPTY'', False),
      (''SFTP_EXISTS'', False), (''SFTP_NO_SPACE'', False)}"
proof -
  have "sce_code (classifySFTPError err) \<in> {''SFTP_CANCELED'', ''SFTP_CONNECTION_CLOSED'',
      ''SCP_TRANSFER_FAILED'', ''SFTP_PERMISSION_DENIED'', ''SFTP_NOT_FOUND'',
      ''SFTP_DIRECTORY_NOT_EMPTY'', ''SFTP_EXISTS'', ''SFTP_NO_SPACE'', ''SFTP_UNKNOWN''}"
    unfolding classifySFTPError_def Let_def
    by (intro X_if_code [where P = "\<lambda>x. sce_code x \<in> _"]) simp_all
  then show ?thesis
    unfolding isRetryableSFTPError_def by (elim insertE emptyE) simp_all
qed

end
