(* ===== verification/GoIO.thy ===== *)
theory GoIO
  imports Prelude
begin

text \<open>
  Code that calls a server: a function of the state of the world whose result is a value or an
  error and the state after it, or nothing where a recursion was cut off by its fuel. A call of
  the server itself always returns, with a value or an error.
\<close>

type_synonym ('s, 'e, 'a) call = "'s \<Rightarrow> ('e + 'a) \<times> 's"
type_synonym ('s, 'e, 'a) io = "'s \<Rightarrow> (('e + 'a) \<times> 's) option"

definition io_return :: "'a \<Rightarrow> ('s, 'e, 'a) io" where
  "io_return x = (\<lambda>s. Some (Inr x, s))"

definition io_throw :: "'e \<Rightarrow> ('s, 'e, 'a) io" where
  "io_throw e = (\<lambda>s. Some (Inl e, s))"

definition io_diverge :: "('s, 'e, 'a) io" where
  "io_diverge = (\<lambda>s. None)"

definition io_call :: "('s, 'e, 'a) call \<Rightarrow> ('s, 'e, 'a) io" where
  "io_call f = (\<lambda>s. Some (f s))"

definition io_bind :: "('s, 'e, 'a) io \<Rightarrow> ('a \<Rightarrow> ('s, 'e, 'b) io) \<Rightarrow> ('s, 'e, 'b) io" where
  "io_bind m f = (\<lambda>s. case m s of
       None \<Rightarrow> None
     | Some (Inl e, t) \<Rightarrow> Some (Inl e, t)
     | Some (Inr x, t) \<Rightarrow> f x t)"

text \<open>The call, with its error handed to the caller as a value.\<close>

definition io_try :: "('s, 'e, 'a) io \<Rightarrow> ('s, 'f, 'e + 'a) io" where
  "io_try m = (\<lambda>s. case m s of None \<Rightarrow> None | Some (r, t) \<Rightarrow> Some (Inr r, t))"

definition io_error :: "('e \<Rightarrow> 'e) \<Rightarrow> ('s, 'e, 'a) io \<Rightarrow> ('s, 'e, 'a) io" where
  "io_error g m = (\<lambda>s. case m s of
       None \<Rightarrow> None
     | Some (Inl e, t) \<Rightarrow> Some (Inl (g e), t)
     | Some (Inr x, t) \<Rightarrow> Some (Inr x, t))"

definition io_update :: "('s \<Rightarrow> 's) \<Rightarrow> ('s, 'e, unit) io" where
  "io_update f = (\<lambda>s. Some (Inr (), f s))"

text \<open>
  What a piece of code does to the state, whatever its result: the triple of a precondition, the
  code and a postcondition on every outcome, errors included. The postcondition of a value is
  a function of the value.
\<close>

definition io_triple ::
  "('s \<Rightarrow> bool) \<Rightarrow> ('s, 'e, 'a) io \<Rightarrow> ('a \<Rightarrow> 's \<Rightarrow> bool) \<Rightarrow> ('s \<Rightarrow> bool) \<Rightarrow> bool" where
  "io_triple P m Q E \<longleftrightarrow>
     (\<forall>s. P s \<longrightarrow> (case m s of
        None \<Rightarrow> True
      | Some (Inl e, t) \<Rightarrow> E t
      | Some (Inr x, t) \<Rightarrow> Q x t))"

named_theorems io_rules \<open>triples of the combinators\<close>

lemma io_triple_return [io_rules]: "(\<And>s. P s \<Longrightarrow> Q x s) \<Longrightarrow> io_triple P (io_return x) Q E"
  by (simp add: io_triple_def io_return_def)

lemma io_triple_throw [io_rules]: "(\<And>s. P s \<Longrightarrow> E s) \<Longrightarrow> io_triple P (io_throw e) Q E"
  by (simp add: io_triple_def io_throw_def)

lemma io_triple_diverge [io_rules]: "io_triple P io_diverge Q E"
  by (simp add: io_triple_def io_diverge_def)

lemma io_triple_bind:
  assumes "io_triple P m R E" "\<And>x. io_triple (R x) (f x) Q E"
  shows "io_triple P (io_bind m f) Q E"
  using assms unfolding io_triple_def io_bind_def
  by (fastforce split: option.splits sum.splits)

lemma io_triple_error: "io_triple P m Q E \<Longrightarrow> io_triple P (io_error g m) Q E"
  unfolding io_triple_def io_error_def by (fastforce split: option.splits sum.splits)

lemma io_triple_try:
  assumes "io_triple P m (\<lambda>x. R (Inr x)) (\<lambda>s. \<forall>e. R (Inl e) s)"
  shows "io_triple P (io_try m) R E"
  unfolding io_triple_def
proof (intro allI impI)
  fix s assume "P s"
  with assms have *: "case m s of None \<Rightarrow> True | Some (Inl e, t) \<Rightarrow> \<forall>e. R (Inl e) t
      | Some (Inr x, t) \<Rightarrow> R (Inr x) t"
    by (simp add: io_triple_def)
  show "case io_try m s of None \<Rightarrow> True | Some (Inl e, t) \<Rightarrow> E t | Some (Inr x, t) \<Rightarrow> R x t"
  proof (cases "m s")
    case (Some rt)
    obtain r t where "rt = (r, t)" by force
    with * Some show ?thesis by (cases r) (simp_all add: io_try_def)
  qed (simp add: io_try_def)
qed

lemma io_triple_if:
  "(b \<Longrightarrow> io_triple P m Q E) \<Longrightarrow> (\<not> b \<Longrightarrow> io_triple P m' Q E) \<Longrightarrow> io_triple P (if b then m else m') Q E"
  by simp

lemma io_triple_update: "(\<And>s. P s \<Longrightarrow> Q () (f s)) \<Longrightarrow> io_triple P (io_update f) Q E"
  by (simp add: io_triple_def io_update_def)

lemma io_tripleD:
  assumes "io_triple P m Q E" "P s" "m s = Some (r, t)"
  shows "case r of Inl _ \<Rightarrow> E t | Inr x \<Rightarrow> Q x t"
  using assms unfolding io_triple_def by (fastforce split: sum.splits)

lemma io_triple_conseq:
  "io_triple P m Q E \<Longrightarrow> (\<And>s. P' s \<Longrightarrow> P s) \<Longrightarrow> (\<And>x s. Q x s \<Longrightarrow> Q' x s) \<Longrightarrow> (\<And>s. E s \<Longrightarrow> E' s) \<Longrightarrow>
   io_triple P' m Q' E'"
  unfolding io_triple_def by (fastforce split: option.splits sum.splits)

text \<open>An invariant kept by every outcome.\<close>

definition io_keeps :: "('s \<Rightarrow> bool) \<Rightarrow> ('s, 'e, 'a) io \<Rightarrow> bool" where
  "io_keeps I m \<longleftrightarrow> io_triple I m (\<lambda>_. I) I"

lemma io_keeps_simps [simp]:
  "io_keeps I (io_return x)" "io_keeps I (io_throw e)" "io_keeps I io_diverge"
  by (simp_all add: io_keeps_def io_rules)

lemma io_keeps_bind: "io_keeps I m \<Longrightarrow> (\<And>x. io_keeps I (f x)) \<Longrightarrow> io_keeps I (io_bind m f)"
  unfolding io_keeps_def by (rule io_triple_bind)

lemma io_keeps_error: "io_keeps I m \<Longrightarrow> io_keeps I (io_error g m)"
  unfolding io_keeps_def by (rule io_triple_error)

lemma io_keeps_try: "io_keeps I m \<Longrightarrow> io_keeps I (io_try m)"
  unfolding io_keeps_def by (rule io_triple_try) (auto elim: io_triple_conseq)

lemma io_keeps_if: "io_keeps I m \<Longrightarrow> io_keeps I m' \<Longrightarrow> io_keeps I (if b then m else m')"
  by simp

lemma io_keeps_update: "(\<And>s. I s \<Longrightarrow> I (f s)) \<Longrightarrow> io_keeps I (io_update f)"
  unfolding io_keeps_def by (rule io_triple_update)

lemma io_keepsD: "io_keeps I m \<Longrightarrow> I s \<Longrightarrow> m s = Some (r, t) \<Longrightarrow> I t"
  unfolding io_keeps_def by (drule io_tripleD) (auto split: sum.splits)

text \<open>To prove a triple, fix the state before the code.\<close>

lemma io_triple_state:
  "(\<And>s. P s \<Longrightarrow> io_triple (\<lambda>t. t = s) m Q E) \<Longrightarrow> io_triple P m Q E"
  by (auto simp: io_triple_def)

lemma io_keeps_call: "(\<And>s r t. I s \<Longrightarrow> f s = (r, t) \<Longrightarrow> I t) \<Longrightarrow> io_keeps I (io_call f)"
  unfolding io_keeps_def io_triple_def io_call_def by (fastforce split: sum.splits)

text \<open>What follows a piece of code may rely on the values it can return.\<close>

definition io_returns :: "('s, 'e, 'a) io \<Rightarrow> ('a \<Rightarrow> bool) \<Rightarrow> bool" where
  "io_returns m V \<longleftrightarrow> (\<forall>s x t. m s = Some (Inr x, t) \<longrightarrow> V x)"

lemma io_keeps_bind_value:
  assumes "io_keeps I m" "io_returns m V" "\<And>x. V x \<Longrightarrow> io_keeps I (f x)"
  shows "io_keeps I (io_bind m f)"
  unfolding io_keeps_def
proof (rule io_triple_bind)
  show "io_triple I m (\<lambda>x s. I s \<and> V x) I"
    using assms(1,2) unfolding io_keeps_def io_triple_def io_returns_def
    by (auto split: option.splits sum.splits; blast)
  show "io_triple (\<lambda>s. I s \<and> V x) (f x) (\<lambda>_. I) I" for x
    using assms(3) [of x] by (auto simp: io_keeps_def io_triple_def)
qed

lemma io_returns_return: "V x \<Longrightarrow> io_returns (io_return x) V"
  by (simp add: io_returns_def io_return_def)

lemma io_returns_bind_value:
  assumes "io_returns m V" "\<And>x. V x \<Longrightarrow> io_returns (f x) W"
  shows "io_returns (io_bind m f) W"
  unfolding io_returns_def
proof (intro allI impI)
  fix s y u
  assume "io_bind m f s = Some (Inr y, u)"
  then obtain x t where "m s = Some (Inr x, t)" "f x t = Some (Inr y, u)"
    by (auto simp: io_bind_def split: option.splits sum.splits)
  with assms show "W y" unfolding io_returns_def by blast
qed

lemma io_returns_bind: "(\<And>x. io_returns (f x) V) \<Longrightarrow> io_returns (io_bind m f) V"
  by (rule io_returns_bind_value [where V = "\<lambda>_. True"]) (simp_all add: io_returns_def)

lemma io_bind_Some_iff:
  "io_bind m f s = Some (Inr y, t) \<longleftrightarrow> (\<exists>x u. m s = Some (Inr x, u) \<and> f x u = Some (Inr y, t))"
  by (auto simp: io_bind_def split: option.splits sum.splits)

lemma io_call_Some_iff: "io_call f s = Some (r, t) \<longleftrightarrow> f s = (r, t)"
  by (simp add: io_call_def)

lemma io_return_Some_iff: "io_return x s = Some (Inr y, t) \<longleftrightarrow> y = x \<and> t = s"
  by (auto simp: io_return_def)

lemma io_throw_Some_iff [simp]: "io_throw e s \<noteq> Some (Inr y, t)"
  by (simp add: io_throw_def)

lemma io_error_Some_iff: "io_error g m s = Some (Inr y, t) \<longleftrightarrow> m s = Some (Inr y, t)"
  by (auto simp: io_error_def split: option.splits sum.splits)

lemmas io_inversion = io_bind_Some_iff io_call_Some_iff io_return_Some_iff io_error_Some_iff

text \<open>
  The code returns from a state, with a value that satisfies \<open>Q\<close> or an error after which \<open>E\<close> holds. The
  rules work backwards through the code.
\<close>

definition io_ends :: "('s, 'e, 'a) io \<Rightarrow> 's \<Rightarrow> ('a \<Rightarrow> 's \<Rightarrow> bool) \<Rightarrow> ('s \<Rightarrow> bool) \<Rightarrow> bool" where
  "io_ends m s Q E \<longleftrightarrow> (\<exists>r t. m s = Some (r, t) \<and> (case r of Inl e \<Rightarrow> E t | Inr x \<Rightarrow> Q x t))"

named_theorems io_ends_rules \<open>rules for code that returns\<close>

lemma io_ends_return [io_ends_rules]: "Q x s \<Longrightarrow> io_ends (io_return x) s Q E"
  by (simp add: io_ends_def io_return_def)

lemma io_ends_throw [io_ends_rules]: "E s \<Longrightarrow> io_ends (io_throw e) s Q E"
  by (simp add: io_ends_def io_throw_def)

lemma io_ends_update [io_ends_rules]: "Q () (f s) \<Longrightarrow> io_ends (io_update f) s Q E"
  by (simp add: io_ends_def io_update_def)

lemma io_ends_bind [io_ends_rules]:
  assumes "io_ends m s (\<lambda>x t. io_ends (f x) t Q E) E"
  shows "io_ends (io_bind m f) s Q E"
proof -
  obtain r t where "m s = Some (r, t)" "case r of Inl e \<Rightarrow> E t | Inr x \<Rightarrow> io_ends (f x) t Q E"
    using assms unfolding io_ends_def [of m] by blast
  then show ?thesis by (cases r) (auto simp: io_ends_def io_bind_def)
qed

lemma io_ends_error [io_ends_rules]: "io_ends m s Q E \<Longrightarrow> io_ends (io_error g m) s Q E"
  unfolding io_ends_def io_error_def by (elim exE conjE) (auto split: sum.splits)

lemma io_ends_try [io_ends_rules]:
  "io_ends m s (\<lambda>x. Q (Inr x)) (\<lambda>t. \<forall>e. Q (Inl e) t) \<Longrightarrow> io_ends (io_try m) s Q E"
  unfolding io_ends_def io_try_def by (elim exE conjE) (auto split: sum.splits)

lemma io_ends_call:
  assumes "\<And>x t. f s = (Inr x, t) \<Longrightarrow> Q x t" "\<And>e t. f s = (Inl e, t) \<Longrightarrow> E t"
  shows "io_ends (io_call f) s Q E"
  using assms by (cases "f s"; cases "fst (f s)") (auto simp: io_ends_def io_call_def)

lemma io_ends_conseq:
  "io_ends m s Q E \<Longrightarrow> (\<And>x t. Q x t \<Longrightarrow> Q' x t) \<Longrightarrow> (\<And>t. E t \<Longrightarrow> E' t) \<Longrightarrow> io_ends m s Q' E'"
  unfolding io_ends_def by (fastforce split: sum.splits)

text \<open>
  Running code on a concrete state: each combinator on the state it gets, with what follows left
  alone until the state before it is known.
\<close>

lemma io_run:
  "io_bind m f s = (case m s of None \<Rightarrow> None | Some (Inl e, t) \<Rightarrow> Some (Inl e, t) | Some (Inr x, t) \<Rightarrow> f x t)"
  "io_try m s = (case m s of None \<Rightarrow> None | Some (r, t) \<Rightarrow> Some (Inr r, t))"
  "io_error g m s = (case m s of None \<Rightarrow> None | Some (Inl e, t) \<Rightarrow> Some (Inl (g e), t) | Some (Inr x, t) \<Rightarrow> Some (Inr x, t))"
  "io_return x s = Some (Inr x, s)" "io_throw e s = Some (Inl e, s)" "io_call c s = Some (c s)"
  "io_update u s = Some (Inr (), u s)"
  by (simp_all add: io_bind_def io_try_def io_error_def io_return_def io_throw_def io_call_def io_update_def)

lemma io_run_cong: "m = m' \<Longrightarrow> io_bind m f = io_bind m' f"
  by simp

lemma io_run_value:
  "(case r of Some (Inr x, t) \<Rightarrow> P x t | _ \<Rightarrow> False) \<Longrightarrow> \<exists>x t. r = Some (Inr x, t) \<and> P x t"
  by (cases r; cases "fst (the r)") auto

end
