(* ===== verification/SftpDelete.thy ===== *)
theory SftpDelete
  imports SftpPaths SftpErrors GoIO
begin

text \<open>
  Package \<open>internal/sftpmanager\<close>, \<open>recursive_delete.go\<close>: inspecting and deleting remote files and
  directories over SFTP. The server is a record of calls on an unknown state; a context that
  may be canceled at any moment is one more call. The recursion into directories carries fuel,
  because what the server lists is not bounded by anything in the code.
\<close>

section \<open>The server\<close>

text \<open>The parts of \<open>fs.FileInfo\<close> the code reads.\<close>

record FileInfo =
  fi_Name :: string
  fi_Size :: "64 word"
  fi_IsDir :: bool
  fi_Symlink :: bool

record error_event =
  ev_ConnectionID :: int
  ev_ContextID :: string
  ev_Operation :: string
  ev_Code :: string
  ev_Message :: string
  ev_Technical :: string

text \<open>
  The interface \<open>Client\<close>, the context and the emitter, as far as these functions use them. A
  listing may hold a nil entry.
\<close>

record 's sftp_client =
  cl_ReadDir :: "string \<Rightarrow> ('s, goerr, FileInfo option list) call"
  cl_Lstat :: "string \<Rightarrow> ('s, goerr, FileInfo) call"
  cl_Remove :: "string \<Rightarrow> ('s, goerr, unit) call"
  cl_RemoveDirectory :: "string \<Rightarrow> ('s, goerr, unit) call"
  ctx_Err :: "('s, goerr, unit) call"
  em_Error :: "error_event \<Rightarrow> 's \<Rightarrow> 's"

record sftp_session =
  ses_contextID :: string
  ses_currentPath :: string

section \<open>Warnings\<close>

definition sanitizeError :: "goerr option \<Rightarrow> string" where
  "sanitizeError err =
     (case err of
        None \<Rightarrow> []
      | Some err \<Rightarrow>
          let message = ReplaceChar (ReplaceChar (err_Error err) (CHR 0x0D) '' '') (CHR 0x0A) '' ''
          in if length message > 160 then take 160 message @ ''...'' else message)"

text \<open>\<open>filepath.Base\<close> is \<open>path.Base\<close> where the separator is the slash.\<close>

definition safePathWarning :: "string \<Rightarrow> string \<Rightarrow> goerr option \<Rightarrow> string" where
  "safePathWarning before pathValue err =
     (let name = (if CHR ''/'' \<in> set pathValue then path_Base (slashed pathValue)
                  else path_Base pathValue);
          name = (if name = ''.'' \<or> name = ''/'' \<or> name = [] then zh [39033, 30446] else name)
      in case err of
           None \<Rightarrow> before @ zh [65306] @ name
         | Some e \<Rightarrow> before @ zh [65306] @ name @ zh [65288] @ sanitizeError (Some e) @ zh [65289])"

section \<open>Inspecting\<close>

record SFTPInspectDeleteResponse =
  ir_ConnectionID :: int
  ir_ContextID :: string
  ir_Paths :: "string list"
  ir_FileCount :: int
  ir_DirectoryCount :: int
  ir_SymlinkCount :: int
  ir_TotalBytes :: "64 word"
  ir_Warnings :: "string list"
  ir_RequiresRecursive :: bool

definition add_warning :: "string \<Rightarrow> SFTPInspectDeleteResponse \<Rightarrow> SFTPInspectDeleteResponse" where
  "add_warning w r = r\<lparr>ir_Warnings := ir_Warnings r @ [w]\<rparr>"

text \<open>The loop over the entries of a directory, with the recursive call as an argument.\<close>

fun inspect_entries ::
  "'s sftp_client \<Rightarrow>
   (string \<Rightarrow> FileInfo \<Rightarrow> bool \<Rightarrow> SFTPInspectDeleteResponse \<Rightarrow>
      ('s, goerr, SFTPInspectDeleteResponse) io) \<Rightarrow>
   string \<Rightarrow> FileInfo option list \<Rightarrow> SFTPInspectDeleteResponse \<Rightarrow>
   ('s, goerr, SFTPInspectDeleteResponse) io" where
  "inspect_entries c inspect remotePath [] response = io_return response"
| "inspect_entries c inspect remotePath (entry # entries) response =
     io_bind (io_call (ctx_Err c)) (\<lambda>_.
       case entry of
         None \<Rightarrow> inspect_entries c inspect remotePath entries response
       | Some info \<Rightarrow>
           let name = fi_Name info
           in if \<not> safeRemoteChildName name
              then inspect_entries c inspect remotePath entries
                     (add_warning (safePathWarning (zh [36339, 36807, 19981, 23433, 20840, 36828, 31243, 21517, 31216]) name None) response)
              else io_bind (inspect (joinRemotePath remotePath name) info False response)
                     (inspect_entries c inspect remotePath entries))"

fun inspectDeleteEntry ::
  "nat \<Rightarrow> 's sftp_client \<Rightarrow> string \<Rightarrow> FileInfo \<Rightarrow> bool \<Rightarrow> SFTPInspectDeleteResponse \<Rightarrow>
   ('s, goerr, SFTPInspectDeleteResponse) io" where
  "inspectDeleteEntry 0 c remotePath info root response = io_diverge"
| "inspectDeleteEntry (Suc n) c remotePath info root response =
     (if fi_Symlink info
      then io_return (response\<lparr>ir_SymlinkCount := ir_SymlinkCount response + 1,
                               ir_TotalBytes := ir_TotalBytes response + fi_Size info\<rparr>)
      else if \<not> fi_IsDir info
      then io_return (response\<lparr>ir_FileCount := ir_FileCount response + 1,
                               ir_TotalBytes := ir_TotalBytes response + fi_Size info\<rparr>)
      else let response = response\<lparr>ir_DirectoryCount := ir_DirectoryCount response + 1,
                                   ir_RequiresRecursive := True\<rparr>
        in io_bind (io_try (io_call (cl_ReadDir c remotePath))) (\<lambda>listing.
             case listing of
               Inl err \<Rightarrow>
                 if root
                 then io_throw (errorf_wrap (zh [26080, 27861, 35835, 21462, 30446, 24405, 20869, 23481, 32] @ baseRemotePath remotePath @ '': '') err)
                 else io_return
                   (add_warning (safePathWarning (zh [36339, 36807, 19981, 21487, 35835, 21462, 30446, 24405]) remotePath (Some err)) response)
             | Inr entries \<Rightarrow>
                 inspect_entries c (inspectDeleteEntry n c) remotePath entries response))"

text \<open>\<open>normalizeContextID\<close> and \<open>operationError\<close>: the event, and the error the caller sees.\<close>

definition normalizeContextID :: "int \<Rightarrow> string \<Rightarrow> string" where
  "normalizeContextID connectionID contextID =
     (let contextID = TrimSpace contextID
      in if contextID = [] then ''server:'' @ Itoa connectionID else contextID)"

definition operationError ::
  "'s sftp_client \<Rightarrow> int \<Rightarrow> string \<Rightarrow> string \<Rightarrow> goerr \<Rightarrow> ('s, goerr, 'a) io" where
  "operationError c connectionID contextID operation err =
     io_bind (io_update (em_Error c
        \<lparr>ev_ConnectionID = connectionID, ev_ContextID = normalizeContextID connectionID contextID,
         ev_Operation = operation, ev_Code = sce_code (classifySFTPError err),
         ev_Message = sce_message (classifySFTPError err), ev_Technical = err_Error err\<rparr>))
       (\<lambda>_. io_throw (errors_New (sce_message (classifySFTPError err))))"

text \<open>A call whose error goes through \<open>operationError\<close>.\<close>

definition op_call ::
  "'s sftp_client \<Rightarrow> int \<Rightarrow> string \<Rightarrow> string \<Rightarrow> ('s, goerr, 'a) io \<Rightarrow> ('s, goerr, 'a) io" where
  "op_call c connectionID contextID operation m =
     io_bind (io_try m) (\<lambda>r. case r of
         Inl err \<Rightarrow> operationError c connectionID contextID operation err
       | Inr x \<Rightarrow> io_return x)"

record SFTPDeleteRequest =
  dr_ConnectionID :: int
  dr_ContextID :: string
  dr_Path :: string
  dr_Paths :: "string list"
  dr_Recursive :: bool

fun inspect_paths ::
  "nat \<Rightarrow> 's sftp_client \<Rightarrow> int \<Rightarrow> string \<Rightarrow> string list \<Rightarrow> SFTPInspectDeleteResponse \<Rightarrow>
   ('s, goerr, SFTPInspectDeleteResponse) io" where
  "inspect_paths n c connectionID contextID [] response = io_return response"
| "inspect_paths n c connectionID contextID (remotePath # paths) response =
     io_bind (io_call (ctx_Err c)) (\<lambda>_.
     io_bind (op_call c connectionID contextID ''sftp.delete.inspect.stat''
                (io_call (cl_Lstat c remotePath))) (\<lambda>info.
     io_bind (op_call c connectionID contextID ''sftp.delete.inspect''
                (inspectDeleteEntry n c remotePath info True response))
       (inspect_paths n c connectionID contextID paths)))"

text \<open>\<open>InspectDelete\<close> on an SFTP session.\<close>

definition InspectDelete ::
  "nat \<Rightarrow> 's sftp_client \<Rightarrow> sftp_session \<Rightarrow> int \<Rightarrow> string \<Rightarrow> string list \<Rightarrow>
   ('s, goerr, SFTPInspectDeleteResponse) io" where
  "InspectDelete n c ses connectionID contextID rawPaths =
     (case normalizeDeletePaths (ses_currentPath ses) rawPaths of
        Inl err \<Rightarrow> io_throw (errors_New err)
      | Inr paths \<Rightarrow> inspect_paths n c connectionID contextID paths
          \<lparr>ir_ConnectionID = connectionID, ir_ContextID = ses_contextID ses, ir_Paths = paths,
           ir_FileCount = 0, ir_DirectoryCount = 0, ir_SymlinkCount = 0, ir_TotalBytes = 0,
           ir_Warnings = [], ir_RequiresRecursive = False\<rparr>)"

section \<open>Deleting\<close>

fun delete_entries ::
  "'s sftp_client \<Rightarrow> (string \<Rightarrow> bool \<Rightarrow> ('s, goerr, unit) io) \<Rightarrow> string \<Rightarrow> FileInfo option list \<Rightarrow>
   ('s, goerr, unit) io" where
  "delete_entries c delete_dir remotePath [] = io_return ()"
| "delete_entries c delete_dir remotePath (entry # entries) =
     io_bind (io_call (ctx_Err c)) (\<lambda>_.
       case entry of
         None \<Rightarrow> delete_entries c delete_dir remotePath entries
       | Some info \<Rightarrow>
           let name = fi_Name info
           in if \<not> safeRemoteChildName name
              then io_throw (errors_New (zh [36828, 31243, 21517, 31216, 19981, 23433, 20840, 58, 32] @ name))
              else let childPath = joinRemotePath remotePath name
                in if fi_Symlink info \<or> \<not> fi_IsDir info
                   then io_bind
                          (io_error (errorf_wrap (zh [21024, 38500, 25991, 20214, 22833, 36133, 32] @ name @ '': ''))
                            (io_call (cl_Remove c childPath)))
                          (\<lambda>_. delete_entries c delete_dir remotePath entries)
                   else io_bind (delete_dir childPath False)
                          (\<lambda>_. delete_entries c delete_dir remotePath entries))"

fun deleteDirectoryRecursive ::
  "nat \<Rightarrow> 's sftp_client \<Rightarrow> string \<Rightarrow> bool \<Rightarrow> ('s, goerr, unit) io" where
  "deleteDirectoryRecursive 0 c remotePath root = io_diverge"
| "deleteDirectoryRecursive (Suc n) c remotePath root =
     io_bind (io_call (ctx_Err c)) (\<lambda>_.
     io_bind (io_error (errorf_wrap (zh [25195, 25551, 30446, 24405, 22833, 36133, 32] @ baseRemotePath remotePath @ '': ''))
                (io_call (cl_ReadDir c remotePath))) (\<lambda>entries.
     io_bind (delete_entries c (deleteDirectoryRecursive n c) remotePath entries) (\<lambda>_.
       io_error
         (errorf_wrap ((if root then zh [21024, 38500, 30446, 26631, 30446, 24405, 22833, 36133, 32] else zh [21024, 38500, 23376, 30446, 24405, 22833, 36133, 32]) @
            baseRemotePath remotePath @ '': ''))
         (io_call (cl_RemoveDirectory c remotePath)))))"

definition plain_directory :: "FileInfo \<Rightarrow> bool" where
  "plain_directory info \<longleftrightarrow> fi_IsDir info \<and> \<not> fi_Symlink info"

text \<open>The first loop of \<open>Delete\<close>: what each path is, and that a directory may be removed.\<close>

fun check_targets ::
  "'s sftp_client \<Rightarrow> SFTPDeleteRequest \<Rightarrow> string list \<Rightarrow> ('s, goerr, (string \<times> FileInfo) list) io" where
  "check_targets c request [] = io_return []"
| "check_targets c request (remotePath # paths) =
     io_bind (io_call (ctx_Err c)) (\<lambda>_.
     io_bind (op_call c (dr_ConnectionID request) (dr_ContextID request) ''sftp.delete.stat''
                (io_call (cl_Lstat c remotePath))) (\<lambda>info.
     io_bind (if plain_directory info \<and> \<not> dr_Recursive request
              then io_bind
                (op_call c (dr_ConnectionID request) (dr_ContextID request) ''sftp.delete.inspect_dir''
                  (io_call (cl_ReadDir c remotePath)))
                (\<lambda>entries. if entries \<noteq> [] then io_throw (errors_New (zh [30446, 24405, 38750, 31354, 65292, 35831, 20351, 29992, 36882, 24402, 21024, 38500]))
                           else io_return ())
              else io_return ()) (\<lambda>_.
     io_bind (check_targets c request paths) (\<lambda>targets.
       io_return ((remotePath, info) # targets)))))"

text \<open>The second loop.\<close>

fun delete_targets ::
  "nat \<Rightarrow> 's sftp_client \<Rightarrow> SFTPDeleteRequest \<Rightarrow> (string \<times> FileInfo) list \<Rightarrow> ('s, goerr, unit) io" where
  "delete_targets n c request [] = io_return ()"
| "delete_targets n c request ((path, info) # targets) =
     io_bind (io_call (ctx_Err c)) (\<lambda>_.
     io_bind
       (if plain_directory info
        then if dr_Recursive request
             then io_error (errorf_wrap (zh [36882, 24402, 21024, 38500, 30446, 24405, 22833, 36133, 58, 32])) (deleteDirectoryRecursive n c path True)
             else op_call c (dr_ConnectionID request) (dr_ContextID request) ''sftp.delete.rmdir''
                    (io_call (cl_RemoveDirectory c path))
        else op_call c (dr_ConnectionID request) (dr_ContextID request) ''sftp.delete.remove''
               (io_call (cl_Remove c path)))
       (\<lambda>_. delete_targets n c request targets))"

definition delete_raw_paths :: "SFTPDeleteRequest \<Rightarrow> string list" where
  "delete_raw_paths request =
     (if dr_Paths request = [] \<and> TrimSpace (dr_Path request) \<noteq> [] then [dr_Path request]
      else dr_Paths request)"

text \<open>\<open>Delete\<close> on an SFTP session.\<close>

definition Delete ::
  "nat \<Rightarrow> 's sftp_client \<Rightarrow> sftp_session \<Rightarrow> SFTPDeleteRequest \<Rightarrow> ('s, goerr, unit) io" where
  "Delete n c ses request =
     (case normalizeDeletePaths (ses_currentPath ses) (delete_raw_paths request) of
        Inl err \<Rightarrow> io_throw (errors_New err)
      | Inr paths \<Rightarrow> io_bind (check_targets c request paths) (delete_targets n c request))"

section \<open>The log of a server\<close>

text \<open>
  The same server with a log of what it was asked, and of what it answered where the answer
  matters.
\<close>

datatype fs_event =
    EvReadDir string "FileInfo option list option"
  | EvLstat string "FileInfo option"
  | EvRemove string
  | EvRemoveDirectory string

definition ok_value :: "'e + 'a \<Rightarrow> 'a option" where
  "ok_value r = (case r of Inl _ \<Rightarrow> None | Inr x \<Rightarrow> Some x)"

definition log_call ::
  "('e + 'a \<Rightarrow> fs_event list) \<Rightarrow> ('s, 'e, 'a) call \<Rightarrow> ('s \<times> fs_event list, 'e, 'a) call" where
  "log_call ev f = (\<lambda>(s, l). case f s of (r, t) \<Rightarrow> (r, (t, l @ ev r)))"

definition logged :: "'s sftp_client \<Rightarrow> ('s \<times> fs_event list) sftp_client" where
  "logged c =
     \<lparr>cl_ReadDir = (\<lambda>p. log_call (\<lambda>r. [EvReadDir p (ok_value r)]) (cl_ReadDir c p)),
      cl_Lstat = (\<lambda>p. log_call (\<lambda>r. [EvLstat p (ok_value r)]) (cl_Lstat c p)),
      cl_Remove = (\<lambda>p. log_call (\<lambda>r. [EvRemove p]) (cl_Remove c p)),
      cl_RemoveDirectory = (\<lambda>p. log_call (\<lambda>r. [EvRemoveDirectory p]) (cl_RemoveDirectory c p)),
      ctx_Err = log_call (\<lambda>r. []) (ctx_Err c),
      em_Error = (\<lambda>e (s, l). (em_Error c e s, l))\<rparr>"

text \<open>An entry the code acts on, in a listing it was given.\<close>

definition listed :: "fs_event list \<Rightarrow> string \<Rightarrow> FileInfo \<Rightarrow> bool" where
  "listed l p info \<longleftrightarrow>
     (\<exists>es. EvReadDir p (Some es) \<in> set l \<and> Some info \<in> set es) \<and> safeRemoteChildName (fi_Name info)"

lemma listed_grow: "listed l p info \<Longrightarrow> prefix l l' \<Longrightarrow> listed l' p info"
  by (auto simp: listed_def prefix_def)

lemma check_targets_paths: "io_returns (check_targets c request ps) (\<lambda>ts. map fst ts = ps)"
proof (induction ps)
  case (Cons p ps)
  show ?case
    unfolding check_targets.simps
    by (intro io_returns_bind io_returns_bind_value [OF Cons.IH] io_returns_return) simp
qed (simp add: io_returns_return)

text \<open>
  A policy says which logs are fine and which directories may be deleted given the log so far.
  What it must allow: reading and removing such a directory, removing a listed entry of it that
  is no directory, descending into a listed directory, and the targets.
\<close>

locale delete_policy =
  fixes fine :: "fs_event list \<Rightarrow> bool"
    and may :: "string \<Rightarrow> fs_event list \<Rightarrow> bool"
    and target :: "string \<Rightarrow> bool"
  assumes may_grow: "may p l \<Longrightarrow> may p (l @ [e])"
    and fine_stat: "fine l \<Longrightarrow> fine (l @ [EvLstat p r])"
    and fine_read: "may p l \<Longrightarrow> fine l \<Longrightarrow> fine (l @ [EvReadDir p es])"
    and fine_rmdir: "may p l \<Longrightarrow> fine l \<Longrightarrow> fine (l @ [EvRemoveDirectory p])"
    and fine_remove: "may p l \<Longrightarrow> listed l p info \<Longrightarrow> \<not> plain_directory info \<Longrightarrow> fine l \<Longrightarrow>
      fine (l @ [EvRemove (joinRemotePath p (fi_Name info))])"
    and may_child: "may p l \<Longrightarrow> listed l p info \<Longrightarrow> plain_directory info \<Longrightarrow>
      may (joinRemotePath p (fi_Name info)) l"
    and target_may: "target p \<Longrightarrow> may p l"
    and fine_target: "target p \<Longrightarrow> fine l \<Longrightarrow> fine (l @ [EvRemove p])"
begin

definition kept :: "fs_event list \<Rightarrow> 's \<times> fs_event list \<Rightarrow> bool" where
  "kept l0 = (\<lambda>(s, l). fine l \<and> prefix l0 l)"

lemma may_prefix: "may p l \<Longrightarrow> prefix l l' \<Longrightarrow> may p l'"
proof -
  have "may p l \<Longrightarrow> may p (l @ es)" for es
    by (induction es rule: rev_induct) (auto intro: may_grow simp flip: append_assoc)
  then show "may p l \<Longrightarrow> prefix l l' \<Longrightarrow> may p l'" by (auto simp: prefix_def)
qed

lemma keeps_ctx: "io_keeps (kept l0) (io_call (ctx_Err (logged c)))"
  by (rule io_keeps_call) (auto simp: kept_def logged_def log_call_def split: prod.splits)

lemma keeps_remove:
  assumes "\<And>l. prefix l0 l \<Longrightarrow> fine l \<Longrightarrow> fine (l @ [EvRemove p])"
  shows "io_keeps (kept l0) (io_call (cl_Remove (logged c) p))"
  by (rule io_keeps_call)
    (auto simp: kept_def logged_def log_call_def intro: assms split: prod.splits)

lemma keeps_rmdir: "may p l0 \<Longrightarrow> io_keeps (kept l0) (io_call (cl_RemoveDirectory (logged c) p))"
  by (rule io_keeps_call)
    (auto simp: kept_def logged_def log_call_def intro: fine_rmdir may_prefix split: prod.splits)

lemma keeps_lstat: "io_keeps (kept l0) (io_call (cl_Lstat (logged c) p))"
  by (rule io_keeps_call)
    (auto simp: kept_def logged_def log_call_def intro: fine_stat split: prod.splits)

lemma keeps_op_call:
  "io_keeps (kept l0) m \<Longrightarrow> io_keeps (kept l0) (op_call (logged c) cid ctx operation m)"
  unfolding op_call_def operationError_def
  by (intro io_keeps_bind io_keeps_try)
    (auto split: sum.split intro!: io_keeps_bind io_keeps_update simp: kept_def logged_def)

lemma read_listing:
  assumes "may p l0"
  shows "io_triple (kept l0) (io_call (cl_ReadDir (logged c) p))
    (\<lambda>es (s, l). kept l0 (s, l) \<and> EvReadDir p (Some es) \<in> set l) (kept l0)"
  using assms
  by (auto simp: io_triple_def io_call_def kept_def logged_def log_call_def ok_value_def
      split: prod.splits sum.splits intro: fine_read may_prefix)

lemma keeps_entries:
  assumes "\<And>q l1. may q l1 \<Longrightarrow> io_keeps (kept l1) (delete_dir q False)"
    and "may p l0" "\<forall>info. Some info \<in> set es \<longrightarrow> safeRemoteChildName (fi_Name info) \<longrightarrow> listed l0 p info"
  shows "io_keeps (kept l0) (delete_entries (logged c) delete_dir p es)"
  using assms(3)
proof (induction es)
  case (Cons e es)
  have rest: "io_keeps (kept l0) (delete_entries (logged c) delete_dir p es)"
    using Cons by simp
  show ?case
  proof (cases e)
    case (Some info)
    have removed: "io_keeps (kept l0)
        (io_call (cl_Remove (logged c) (joinRemotePath p (fi_Name info))))"
      if "safeRemoteChildName (fi_Name info)" "\<not> plain_directory info"
      using that Cons.prems Some assms(2)
      by (intro keeps_remove fine_remove) (auto intro: may_prefix listed_grow)
    have descended: "io_keeps (kept l0) (delete_dir (joinRemotePath p (fi_Name info)) False)"
      if "safeRemoteChildName (fi_Name info)" "plain_directory info"
      using that Cons.prems Some assms(2) by (intro assms(1) may_child) auto
    show ?thesis
      using rest removed descended Some
      by (auto simp: Let_def plain_directory_def
          intro!: io_keeps_bind keeps_ctx io_keeps_error io_keeps_if)
  qed (use rest in \<open>auto intro!: io_keeps_bind keeps_ctx\<close>)
qed simp

lemma keeps_directory:
  fixes c :: "'b sftp_client"
  shows "may p l0 \<Longrightarrow> io_keeps (kept l0) (deleteDirectoryRecursive n (logged c) p root)"
proof (induction n arbitrary: p root l0)
  case (Suc n)
  have entries: "io_triple (\<lambda>(s, l). kept l0 (s, l) \<and> EvReadDir p (Some es) \<in> set l)
      (delete_entries (logged c) (deleteDirectoryRecursive n (logged c)) p es) (\<lambda>_. kept l0) (kept l0)"
    for es
  proof (rule io_triple_state)
    fix t :: "'b \<times> fs_event list"
    assume t: "case t of (s, l) \<Rightarrow> kept l0 (s, l) \<and> EvReadDir p (Some es) \<in> set l"
    obtain s l where [simp]: "t = (s, l)" by force
    from t have l: "fine l" "prefix l0 l" "EvReadDir p (Some es) \<in> set l" by (auto simp: kept_def)
    have "io_keeps (kept l) (delete_entries (logged c) (deleteDirectoryRecursive n (logged c)) p es)"
      using l Suc.prems
      by (intro keeps_entries Suc.IH) (auto intro: may_prefix simp: listed_def)
    then show "io_triple (\<lambda>t'. t' = t)
        (delete_entries (logged c) (deleteDirectoryRecursive n (logged c)) p es) (\<lambda>_. kept l0) (kept l0)"
      unfolding io_keeps_def
      by (rule io_triple_conseq) (use l in \<open>auto simp: kept_def intro: prefix_order.trans\<close>)
  qed
  show ?case
    unfolding deleteDirectoryRecursive.simps io_keeps_def
  proof (rule io_triple_bind [where R = "\<lambda>_. kept l0"])
    show "io_triple (kept l0) (io_call (ctx_Err (logged c))) (\<lambda>_. kept l0) (kept l0)"
      using keeps_ctx by (simp add: io_keeps_def)
    fix u
    show "io_triple (kept l0) (io_bind (io_error (errorf_wrap
          (zh [25195, 25551, 30446, 24405, 22833, 36133, 32] @ baseRemotePath p @ '': '')) (io_call (cl_ReadDir (logged c) p))) (\<lambda>entries.
        io_bind (delete_entries (logged c) (deleteDirectoryRecursive n (logged c)) p entries) (\<lambda>_.
          io_error (errorf_wrap ((if root then zh [21024, 38500, 30446, 26631, 30446, 24405, 22833, 36133, 32] else zh [21024, 38500, 23376, 30446, 24405, 22833, 36133, 32]) @
            baseRemotePath p @ '': '')) (io_call (cl_RemoveDirectory (logged c) p)))))
      (\<lambda>_. kept l0) (kept l0)"
      using keeps_rmdir [OF Suc.prems, unfolded io_keeps_def]
      by (rule io_triple_bind [OF io_triple_error [OF read_listing [OF Suc.prems]]
            io_triple_bind [OF entries io_triple_error]])
  qed
qed simp

lemma keeps_check: "\<forall>p \<in> set ps. target p \<Longrightarrow> io_keeps (kept l0) (check_targets (logged c) request ps)"
proof (induction ps)
  case (Cons p ps)
  have "io_keeps (kept l0) (io_call (cl_ReadDir (logged c) p))"
    using read_listing [OF target_may] Cons.prems
    unfolding io_keeps_def by (fastforce elim: io_triple_conseq)
  with Cons show ?case
    by (auto intro!: io_keeps_bind keeps_ctx keeps_op_call keeps_lstat)
qed simp

lemma keeps_targets:
  "\<forall>(p, info) \<in> set ts. target p \<Longrightarrow> io_keeps (kept l0) (delete_targets n (logged c) request ts)"
proof (induction ts)
  case (Cons t ts)
  obtain p info where "t = (p, info)" by force
  with Cons show ?case
    by (auto intro!: io_keeps_bind io_keeps_if keeps_ctx keeps_op_call keeps_rmdir io_keeps_error
        keeps_directory target_may keeps_remove fine_target)
qed simp

lemma keeps_Delete:
  assumes "\<forall>p \<in> set ps. target p"
  shows "io_keeps (kept l0)
    (io_bind (check_targets (logged c) request ps) (delete_targets n (logged c) request))"
  using keeps_check [OF assms] check_targets_paths
proof (rule io_keeps_bind_value)
  fix ts :: "(string \<times> FileInfo) list"
  assume "map fst ts = ps"
  with assms show "io_keeps (kept l0) (delete_targets n (logged c) request ts)"
    by (intro keeps_targets) force
qed

lemma Delete_fine:
  assumes "normalizeDeletePaths (ses_currentPath ses) (delete_raw_paths request) = Inr ps"
    and "\<forall>p \<in> set ps. target p"
    and "Delete n (logged c) ses request (s, []) = Some (r, (t, l))"
    and "fine []"
  shows "fine l"
  using io_keepsD [OF keeps_Delete [OF assms(2), of "[]" c request n], of "(s, [])" r "(t, l)"]
    assms(1,3,4)
  by (simp add: Delete_def kept_def)

end

section \<open>Nothing outside the targets\<close>

text \<open>The paths a log removed, and the servers that list no name with a space at an end.\<close>

fun removed_path :: "fs_event \<Rightarrow> string list" where
  "removed_path (EvRemove p) = [p]"
| "removed_path (EvRemoveDirectory p) = [p]"
| "removed_path (EvReadDir p es) = []"
| "removed_path (EvLstat p info) = []"

definition removals :: "fs_event list \<Rightarrow> string list" where
  "removals l = concat (map removed_path l)"

fun honest_event :: "fs_event \<Rightarrow> bool" where
  "honest_event (EvReadDir p (Some es)) =
     list_all (\<lambda>e. case e of None \<Rightarrow> True
       | Some info \<Rightarrow> safeRemoteChildName (fi_Name info) \<longrightarrow> TrimSpace (fi_Name info) = fi_Name info) es"
| "honest_event (EvReadDir p None) = True"
| "honest_event (EvLstat p info) = True"
| "honest_event (EvRemove p) = True"
| "honest_event (EvRemoveDirectory p) = True"

definition tidy_roots :: "string list \<Rightarrow> bool" where
  "tidy_roots roots = list_all (\<lambda>r. tidy_path r \<and> r \<noteq> ''/'') roots"

definition confined :: "string list \<Rightarrow> fs_event list \<Rightarrow> bool" where
  "confined roots l \<longleftrightarrow> tidy_roots roots \<and> list_all honest_event l \<longrightarrow>
     (\<forall>q \<in> set (removals l). \<exists>r \<in> set roots. path_under r q)"

definition confined_dir :: "string list \<Rightarrow> string \<Rightarrow> fs_event list \<Rightarrow> bool" where
  "confined_dir roots p l \<longleftrightarrow> tidy_roots roots \<and> list_all honest_event l \<longrightarrow>
     tidy_path p \<and> (\<exists>r \<in> set roots. path_under r p)"

lemma listed_tidy: "listed l p info \<Longrightarrow> list_all honest_event l \<Longrightarrow> tidy_name (fi_Name info)"
  by (fastforce simp: listed_def tidy_name_def list_all_iff)

lemma path_under_child:
  assumes "tidy_path r" "r \<noteq> ''/''" "tidy_path p" "path_under r p" "tidy_name name"
  shows "path_under r (joinRemotePath p name)"
  using child_path_descendant [OF assms(1,2,3) _ assms(5)] assms(4) join_child_path [OF assms(3,5)]
  by (simp add: path_under_def)

lemma confined_child:
  assumes "confined_dir roots p l" "listed l p info" "tidy_roots roots" "list_all honest_event l"
  shows "tidy_path (joinRemotePath p (fi_Name info)) \<and>
    (\<exists>r \<in> set roots. path_under r (joinRemotePath p (fi_Name info)))"
proof -
  have name: "tidy_name (fi_Name info)" using assms(2,4) by (rule listed_tidy)
  obtain r where r: "tidy_path p" "r \<in> set roots" "path_under r p"
    using assms by (auto simp: confined_dir_def)
  moreover from r have "tidy_path r" "r \<noteq> ''/''"
    using assms(3) by (auto simp: tidy_roots_def list_all_iff)
  ultimately show ?thesis
    using name path_under_child child_path_tidy join_child_path by metis
qed

interpretation confinement: delete_policy
  "confined roots" "confined_dir roots" "\<lambda>p. p \<in> set roots" for roots
proof
  fix p l info
  assume a: "confined_dir roots p l" "listed l p info"
  show "confined_dir roots (joinRemotePath p (fi_Name info)) l"
    using confined_child [OF a] by (simp add: confined_dir_def)
  assume "confined roots l"
  then show "confined roots (l @ [EvRemove (joinRemotePath p (fi_Name info))])"
    using confined_child [OF a] by (auto simp: confined_def removals_def)
qed (auto simp: confined_def confined_dir_def removals_def tidy_roots_def list_all_iff
      path_under_def)

text \<open>
  C1: A delete stays inside its targets. When every path to delete is tidy (which excludes the
  root) and the server lists no name with a space at either end, every path that is removed,
  file or directory, at any depth, is one of the requested paths or below one of them, however
  the calls of the server turn out and whenever the context is canceled.
\<close>

theorem Delete_confined:
  assumes "normalizeDeletePaths (ses_currentPath ses) (delete_raw_paths request) = Inr ps"
    and "tidy_roots ps"
    and "Delete n (logged c) ses request (s, []) = Some (r, (t, l))"
    and "list_all honest_event l"
  shows "\<forall>q \<in> set (removals l). \<exists>p \<in> set ps. path_under p q"
  using confinement.Delete_fine [OF assms(1) _ assms(3)] assms(2,4)
  by (simp add: confined_def removals_def)

section \<open>Nothing that was not listed\<close>

definition listed_dir :: "string list \<Rightarrow> string \<Rightarrow> fs_event list \<Rightarrow> bool" where
  "listed_dir roots q l \<longleftrightarrow> q \<in> set roots \<or>
     (\<exists>p info. listed l p info \<and> plain_directory info \<and> q = joinRemotePath p (fi_Name info))"

fun event_listed :: "string list \<Rightarrow> fs_event list \<Rightarrow> fs_event \<Rightarrow> bool" where
  "event_listed roots l (EvReadDir q es) = listed_dir roots q l"
| "event_listed roots l (EvRemoveDirectory q) = listed_dir roots q l"
| "event_listed roots l (EvRemove q) =
     (q \<in> set roots \<or>
      (\<exists>p info. listed l p info \<and> \<not> plain_directory info \<and> q = joinRemotePath p (fi_Name info)))"
| "event_listed roots l (EvLstat q info) = True"

lemma listed_dir_grow: "listed_dir roots q l \<Longrightarrow> listed_dir roots q (l @ l')"
  unfolding listed_dir_def using listed_grow [of l _ _ "l @ l'"] by fastforce

lemma listed_dir_root: "q \<in> set roots \<Longrightarrow> listed_dir roots q l"
  by (simp add: listed_dir_def)

lemma listed_dir_child:
  "listed l p info \<Longrightarrow> plain_directory info \<Longrightarrow> listed_dir roots (joinRemotePath p (fi_Name info)) l"
  by (auto simp: listed_dir_def)

lemma event_listed_grow: "event_listed roots l e \<Longrightarrow> event_listed roots (l @ l') e"
proof (cases e)
  case (EvRemove q)
  then show "event_listed roots l e \<Longrightarrow> event_listed roots (l @ l') e"
    using listed_grow [of l _ _ "l @ l'"] by fastforce
qed (auto intro: listed_dir_grow)

definition all_listed :: "string list \<Rightarrow> fs_event list \<Rightarrow> bool" where
  "all_listed roots l \<longleftrightarrow> (\<forall>e \<in> set l. event_listed roots l e)"

lemma all_listed_snoc:
  "all_listed roots l \<Longrightarrow> event_listed roots (l @ [e]) e \<Longrightarrow> all_listed roots (l @ [e])"
  by (auto simp: all_listed_def intro: event_listed_grow)

lemma all_listed_dir:
  assumes "listed_dir roots p l" "all_listed roots l"
  shows "all_listed roots (l @ [EvReadDir p es])" "all_listed roots (l @ [EvRemoveDirectory p])"
  using assms listed_dir_grow by (simp_all add: all_listed_snoc)

interpretation listing: delete_policy
  "all_listed roots" "listed_dir roots" "\<lambda>p. p \<in> set roots" for roots
proof
  fix p l info
  assume a: "listed_dir roots p l" "listed l p info" "\<not> plain_directory info" "all_listed roots l"
  then have "event_listed roots (l @ [EvRemove (joinRemotePath p (fi_Name info))])
      (EvRemove (joinRemotePath p (fi_Name info)))"
    using listed_grow [of l p info] by (auto simp: prefix_def)
  with a(4) show "all_listed roots (l @ [EvRemove (joinRemotePath p (fi_Name info))])"
    by (rule all_listed_snoc)
qed (auto intro: all_listed_snoc all_listed_dir listed_dir_grow listed_dir_root listed_dir_child)

text \<open>
  A delete follows no symbolic link. Whatever the server answers, every directory that is
  read or removed is a requested path or was listed, by a directory read before in the same way,
  as a directory that is no symbolic link; and every file that is removed is a requested path or
  was listed as something else than a plain directory.
\<close>

theorem Delete_only_listed:
  assumes "normalizeDeletePaths (ses_currentPath ses) (delete_raw_paths request) = Inr ps"
    and "Delete n (logged c) ses request (s, []) = Some (r, (t, l))"
  shows "\<forall>e \<in> set l. event_listed ps l e"
  using listing.Delete_fine [OF assms(1) _ assms(2)] by (simp add: all_listed_def)

section \<open>Servers\<close>

definition dir_info :: "string \<Rightarrow> FileInfo" where
  "dir_info name = \<lparr>fi_Name = name, fi_Size = 0, fi_IsDir = True, fi_Symlink = False\<rparr>"

definition file_info :: "string \<Rightarrow> FileInfo" where
  "file_info name = \<lparr>fi_Name = name, fi_Size = 7, fi_IsDir = False, fi_Symlink = False\<rparr>"

definition link_info :: "string \<Rightarrow> FileInfo" where
  "link_info name = \<lparr>fi_Name = name, fi_Size = 3, fi_IsDir = True, fi_Symlink = True\<rparr>"

text \<open>A server that answers listings from a table and does everything it is asked.\<close>

definition table_server :: "(string \<times> FileInfo option list) list \<Rightarrow> unit sftp_client" where
  "table_server dirs =
     \<lparr>cl_ReadDir = (\<lambda>p s. (case map_of dirs p of
          None \<Rightarrow> Inl (errors_New ''no such file'') | Some es \<Rightarrow> Inr es, s)),
      cl_Lstat = (\<lambda>p s. (Inr (if map_of dirs p = None then file_info p else dir_info p), s)),
      cl_Remove = (\<lambda>p s. (Inr (), s)),
      cl_RemoveDirectory = (\<lambda>p s. (Inr (), s)),
      ctx_Err = (\<lambda>s. (Inr (), s)),
      em_Error = (\<lambda>e s. s)\<rparr>"

definition sample_tree :: "(string \<times> FileInfo option list) list" where
  "sample_tree = [(''/a'', [Some (file_info ''f''), Some (link_info ''l''), Some (dir_info ''d'')]),
     (''/a/d'', [None, Some (file_info ''g'')])]"

definition sample_request :: SFTPDeleteRequest where
  "sample_request = \<lparr>dr_ConnectionID = 1, dr_ContextID = [], dr_Path = [],
     dr_Paths = [''/a''], dr_Recursive = True\<rparr>"

definition sample_session :: sftp_session where
  "sample_session = \<lparr>ses_contextID = ''server:1'', ses_currentPath = ''/''\<rparr>"

definition sample_log :: "fs_event list" where
  "sample_log = [EvLstat ''/a'' (Some (dir_info ''/a'')),
     EvReadDir ''/a'' (Some [Some (file_info ''f''), Some (link_info ''l''), Some (dir_info ''d'')]),
     EvRemove ''/a/f'', EvRemove ''/a/l'',
     EvReadDir ''/a/d'' (Some [None, Some (file_info ''g'')]),
     EvRemove ''/a/d/g'', EvRemoveDirectory ''/a/d'', EvRemoveDirectory ''/a'']"

lemma sample_paths:
  "normalizeDeletePaths (ses_currentPath sample_session) (delete_raw_paths sample_request) = Inr [''/a'']"
  by code_simp

lemma sample_names: "safeRemoteChildName ''f'' \<and> safeRemoteChildName ''l'' \<and>
   safeRemoteChildName ''d'' \<and> safeRemoteChildName ''g''"
  by code_simp

lemma sample_joins: "joinRemotePath ''/a'' ''f'' = ''/a/f''" "joinRemotePath ''/a'' ''l'' = ''/a/l''"
  "joinRemotePath ''/a'' ''d'' = ''/a/d''" "joinRemotePath ''/a/d'' ''g'' = ''/a/d/g''"
  by code_simp+

lemmas io_eval = io_bind_def io_call_def io_return_def io_throw_def io_try_def io_error_def
  op_call_def logged_def log_call_def ok_value_def table_server_def plain_directory_def
  dir_info_def file_info_def link_info_def

lemma sample_run:
  "Delete (Suc (Suc (Suc 0))) (logged (table_server sample_tree)) sample_session sample_request
     ((), []) = Some (Inr (), ((), sample_log))"
  unfolding Delete_def sample_paths
  by (simp add: io_eval sample_tree_def sample_request_def sample_log_def
      sample_names sample_joins Let_def)

lemma sample_honest: "list_all honest_event sample_log"
  by code_simp

lemma sample_tidy: "tidy_roots [''/a'']"
  by code_simp

lemma Delete_confined_witness:
  "removals sample_log = [''/a/f'', ''/a/l'', ''/a/d/g'', ''/a/d'', ''/a''] \<and>
   list_all (path_under ''/a'') (removals sample_log)"
  using Delete_confined [OF sample_paths sample_tidy sample_run sample_honest]
  by (simp add: sample_log_def removals_def)

lemma Delete_only_listed_witness:
  "event_listed [''/a''] sample_log (EvRemove ''/a/l'') \<and>
   event_listed [''/a''] sample_log (EvRemoveDirectory ''/a/d'')"
  using Delete_only_listed [OF sample_paths sample_run]
  by (metis (no_types, lifting) list.set_intros sample_log_def)

definition hostile_tree :: "(string \<times> FileInfo option list) list" where
  "hostile_tree = [(''/a/b'', [Some (file_info ''.. '')])]"

definition hostile_request :: SFTPDeleteRequest where
  "hostile_request = \<lparr>dr_ConnectionID = 1, dr_ContextID = [], dr_Path = [],
     dr_Paths = [''/a/b''], dr_Recursive = True\<rparr>"

lemma hostile_facts:
  "normalizeDeletePaths (ses_currentPath sample_session) (delete_raw_paths hostile_request) = Inr [''/a/b'']"
  "safeRemoteChildName ''.. ''" "joinRemotePath ''/a/b'' ''.. '' = ''/a''"
  by code_simp+

text \<open>
  What the trimming of names costs. In a directory with a file named by two dots and a
  space, a recursive delete asks the server to remove the parent of the directory.
\<close>

theorem Delete_leaves_target:
  "\<exists>l. Delete (Suc (Suc 0)) (logged (table_server hostile_tree)) sample_session hostile_request
     ((), []) = Some (Inr (), ((), l)) \<and> EvRemove ''/a'' \<in> set l"
  unfolding Delete_def hostile_facts(1)
  by (simp add: io_eval hostile_tree_def hostile_request_def hostile_facts Let_def)

section \<open>Whether the recursion ends\<close>

text \<open>
  The listings of a server are ranked when a number drops from each directory to each directory
  listed in it, by the path the code forms for it.
\<close>

definition ranked :: "'s sftp_client \<Rightarrow> (string \<Rightarrow> nat) \<Rightarrow> bool" where
  "ranked c rank \<longleftrightarrow> (\<forall>p s es t info. cl_ReadDir c p s = (Inr es, t) \<longrightarrow> Some info \<in> set es \<longrightarrow>
     safeRemoteChildName (fi_Name info) \<longrightarrow> plain_directory info \<longrightarrow>
     rank (joinRemotePath p (fi_Name info)) < rank p)"

definition io_total :: "('s, 'e, 'a) io \<Rightarrow> bool" where
  "io_total m \<longleftrightarrow> (\<forall>s. m s \<noteq> None)"

lemma io_total_simps [simp]:
  "io_total (io_return x)" "io_total (io_throw e)" "io_total (io_call f)" "io_total (io_update g)"
  by (simp_all add: io_total_def io_return_def io_throw_def io_call_def io_update_def)

lemma io_total_error: "io_total m \<Longrightarrow> io_total (io_error g m)"
  by (auto simp: io_total_def io_error_def split: option.splits sum.splits)

lemma io_total_try: "io_total m \<Longrightarrow> io_total (io_try m)"
  by (auto simp: io_total_def io_try_def split: option.splits)

lemma io_total_bind_value:
  "io_total m \<Longrightarrow> io_returns m V \<Longrightarrow> (\<And>x. V x \<Longrightarrow> io_total (f x)) \<Longrightarrow> io_total (io_bind m f)"
  unfolding io_total_def io_returns_def io_bind_def
  by (auto split: option.splits sum.splits; blast)

lemma io_total_bind: "io_total m \<Longrightarrow> (\<And>x. io_total (f x)) \<Longrightarrow> io_total (io_bind m f)"
  by (rule io_total_bind_value [where V = "\<lambda>_. True"]) (simp_all add: io_returns_def)

lemma io_total_op_call: "io_total m \<Longrightarrow> io_total (op_call c cid ctx operation m)"
  unfolding op_call_def operationError_def
  by (intro io_total_bind io_total_try) (auto split: sum.split intro!: io_total_bind)

lemma total_entries:
  assumes "\<And>info. Some info \<in> set es \<Longrightarrow> safeRemoteChildName (fi_Name info) \<Longrightarrow> plain_directory info \<Longrightarrow>
      io_total (delete_dir (joinRemotePath p (fi_Name info)) False)"
  shows "io_total (delete_entries c delete_dir p es)"
  using assms
proof (induction es)
  case (Cons e es)
  have rest: "io_total (delete_entries c delete_dir p es)" using Cons by simp
  show ?case
  proof (cases e)
    case (Some info)
    with rest Cons.prems [of info] show ?thesis
      by (auto simp: Let_def plain_directory_def intro!: io_total_bind io_total_error)
  qed (use rest in \<open>auto intro!: io_total_bind\<close>)
qed simp

lemma total_directory:
  assumes "ranked c rank"
  shows "rank p < n \<Longrightarrow> io_total (deleteDirectoryRecursive n c p root)"
proof (induction n arbitrary: p root)
  case (Suc n)
  have listing: "io_returns (io_error g (io_call (cl_ReadDir c p)))
      (\<lambda>es. \<forall>info. Some info \<in> set es \<longrightarrow> safeRemoteChildName (fi_Name info) \<longrightarrow>
         plain_directory info \<longrightarrow> rank (joinRemotePath p (fi_Name info)) < rank p)" for g
    using assms unfolding io_returns_def io_error_def io_call_def ranked_def
    by (auto split: sum.splits prod.splits)
  show ?case
    unfolding deleteDirectoryRecursive.simps
    by (intro io_total_bind io_total_bind_value [OF _ listing] io_total_error io_total_simps
        total_entries Suc.IH) (use Suc.prems in auto)
qed simp

text \<open>
  C37: Enough fuel is a bound on the depth. When the listings of the server are ranked and the
  fuel exceeds the rank of every path to delete, the delete returns, with a value or an error.
\<close>

theorem Delete_returns:
  assumes "ranked c rank"
    and "\<forall>ps. normalizeDeletePaths (ses_currentPath ses) (delete_raw_paths request) = Inr ps \<longrightarrow>
      (\<forall>p \<in> set ps. rank p < n)"
  shows "\<exists>result. Delete n c ses request s = Some result"
proof -
  have check: "io_total (check_targets c request ps)" for ps
    by (induction ps) (auto intro!: io_total_bind io_total_op_call)
  have targets: "\<forall>(p, info) \<in> set ts. rank p < n \<Longrightarrow> io_total (delete_targets n c request ts)" for ts
  proof (induction ts)
    case (Cons t ts)
    obtain p info where "t = (p, info)" by force
    with Cons show ?case
      by (auto intro!: io_total_bind io_total_error io_total_op_call total_directory [OF assms(1)])
  qed simp
  have "io_total (Delete n c ses request)"
  proof (cases "normalizeDeletePaths (ses_currentPath ses) (delete_raw_paths request)")
    case (Inr ps)
    have "io_total (delete_targets n c request ts)" if "map fst ts = ps" for ts
      using assms(2) Inr that by (intro targets) force
    with Inr show ?thesis
      by (simp add: Delete_def io_total_bind_value [OF check check_targets_paths])
  qed (simp add: Delete_def)
  then show ?thesis by (simp add: io_total_def)
qed

definition sample_rank :: "string \<Rightarrow> nat" where
  "sample_rank p = (if p = ''/a'' then 1 else 0)"

lemma Delete_returns_witness:
  "\<exists>result. Delete 2 (table_server sample_tree) sample_session sample_request () = Some result"
proof (rule Delete_returns [where rank = sample_rank])
  show "ranked (table_server sample_tree) sample_rank"
    by (auto simp: ranked_def table_server_def sample_tree_def sample_rank_def sample_joins
        file_info_def link_info_def dir_info_def plain_directory_def split: if_splits)
  show "\<forall>ps. normalizeDeletePaths (ses_currentPath sample_session) (delete_raw_paths sample_request)
      = Inr ps \<longrightarrow> (\<forall>p \<in> set ps. sample_rank p < 2)"
    by (simp add: sample_paths sample_rank_def)
qed

definition looping_tree :: "(string \<times> FileInfo option list) list" where
  "looping_tree = [(''/a'', [Some (dir_info '' '')])]"

lemma looping_facts: "safeRemoteChildName '' ''" "joinRemotePath ''/a'' '' '' = ''/a''"
  by code_simp+

text \<open>
  The recursion need not end. A directory that holds a directory named by a single space is
  joined to itself, so the recursive delete of it never returns, whatever the fuel.
\<close>

theorem Delete_may_not_return:
  "Delete n (table_server looping_tree) sample_session sample_request () = None"
proof -
  have "deleteDirectoryRecursive n (table_server looping_tree) ''/a'' root () = None" for n root
  proof (induction n arbitrary: root)
    case (Suc n)
    then show ?case
      by (simp add: io_eval looping_tree_def looping_facts Let_def)
  qed (simp add: io_diverge_def)
  then show ?thesis
    unfolding Delete_def sample_paths
    by (simp add: io_eval looping_tree_def sample_request_def)
qed

end
