(* ===== verification/Lifecycle.thy ===== *)
theory Lifecycle
  imports ConnState BatchRun
begin

text \<open>
  Package \<open>internal/serverlifecycle\<close> (\<open>coordinator.go\<close>) and \<open>newServerLifecycle\<close> of \<open>app.go\<close>:
  the explicit disconnect of a server, which calls every manager in a fixed order. Here the
  components meet: the state tracker, which the managers report to from their own goroutines,
  and the batch manager, whose goroutines go on while the disconnect is under way.
\<close>

section \<open>The coordinator\<close>

text \<open>
  A manager is its stop operation on an unknown world, or nil. The tracker has the two
  operations the coordinator calls.
\<close>

type_synonym 'w resource = "(int \<Rightarrow> 'w \<Rightarrow> 'w) option"

record 'w Coordinator =
  co_monitor :: "'w resource"
  co_terminal :: "'w resource"
  co_sftp :: "'w resource"
  co_tunnel :: "'w resource"
  co_docker :: "'w resource"
  co_process :: "'w resource"
  co_batch :: "'w resource"
  co_service :: "'w resource"
  co_network :: "'w resource"
  co_states :: "((int \<Rightarrow> 'w \<Rightarrow> 'w) \<times> (int \<Rightarrow> 'w \<Rightarrow> 'w)) option"

definition stop_resource :: "'w resource \<Rightarrow> int \<Rightarrow> 'w \<Rightarrow> 'w" where
  "stop_resource r connectionID w = (case r of None \<Rightarrow> w | Some stop \<Rightarrow> stop connectionID w)"

definition Disconnect :: "'w Coordinator \<Rightarrow> int \<Rightarrow> 'w \<Rightarrow> 'w" where
  "Disconnect c connectionID w =
     (let w = (case co_states c of None \<Rightarrow> w | Some (begin_op, _) \<Rightarrow> begin_op connectionID w);
          w = stop_resource (co_monitor c) connectionID w;
          w = stop_resource (co_terminal c) connectionID w;
          w = stop_resource (co_sftp c) connectionID w;
          w = stop_resource (co_tunnel c) connectionID w;
          w = stop_resource (co_docker c) connectionID w;
          w = stop_resource (co_process c) connectionID w;
          w = stop_resource (co_batch c) connectionID w;
          w = stop_resource (co_service c) connectionID w;
          w = stop_resource (co_network c) connectionID w
      in case co_states c of None \<Rightarrow> w | Some (_, complete_op) \<Rightarrow> complete_op connectionID w)"

section \<open>The world of the application\<close>

text \<open>
  The tracker and the batch manager as they are modelled, and the rest of the world, on which
  the other managers' stop operations are unknown functions.
\<close>

record 'r app_world =
  aw_tracker :: Tracker
  aw_batch :: batch_world
  aw_rest :: 'r

record 'r other_managers =
  om_monitor :: "int \<Rightarrow> 'r \<Rightarrow> 'r"
  om_terminal :: "int \<Rightarrow> 'r \<Rightarrow> 'r"
  om_sftp :: "int \<Rightarrow> 'r \<Rightarrow> 'r"
  om_tunnel :: "int \<Rightarrow> 'r \<Rightarrow> 'r"
  om_docker :: "int \<Rightarrow> 'r \<Rightarrow> 'r"
  om_process :: "int \<Rightarrow> 'r \<Rightarrow> 'r"
  om_service :: "int \<Rightarrow> 'r \<Rightarrow> 'r"
  om_network :: "int \<Rightarrow> 'r \<Rightarrow> 'r"

text \<open>
  One step of the world: an operation of the tracker, a step of a batch goroutine or operation,
  or anything else.
\<close>

datatype 'r app_step =
    StepTracker string tracker_op
  | StepBatch int batch_label
  | StepRest "'r \<Rightarrow> 'r"

fun app_next :: "platform_errno \<Rightarrow> 'r app_world \<Rightarrow> 'r app_step \<Rightarrow> 'r app_world" where
  "app_next pf w (StepTracker now op) = w\<lparr>aw_tracker := tracker_next (aw_tracker w) (now, op)\<rparr>"
| "app_next pf w (StepBatch now label) = w\<lparr>aw_batch := batch_next pf (aw_batch w) (now, label)\<rparr>"
| "app_next pf w (StepRest f) = w\<lparr>aw_rest := f (aw_rest w)\<rparr>"

definition app_run :: "platform_errno \<Rightarrow> 'r app_world \<Rightarrow> 'r app_step list \<Rightarrow> 'r app_world" where
  "app_run pf w xs = foldl (app_next pf) w xs"

text \<open>
  \<open>newServerLifecycle\<close> with every manager present; the tracker's times are texts, those of the
  batch manager instants.
\<close>

definition newServerLifecycle ::
  "platform_errno \<Rightarrow> string \<Rightarrow> int \<Rightarrow> 'r other_managers \<Rightarrow> 'r app_world Coordinator" where
  "newServerLifecycle pf now at ms =
     (let rest = (\<lambda>f. Some (\<lambda>sid w. app_next pf w (StepRest (f sid))))
      in \<lparr>co_monitor = rest (om_monitor ms), co_terminal = rest (om_terminal ms),
          co_sftp = rest (om_sftp ms), co_tunnel = rest (om_tunnel ms),
          co_docker = rest (om_docker ms), co_process = rest (om_process ms),
          co_batch = Some (\<lambda>sid w. app_next pf w (StepBatch at (LStopServer sid))),
          co_service = rest (om_service ms), co_network = rest (om_network ms),
          co_states = Some (\<lambda>sid w. app_next pf w (StepTracker now (OpBeginDisconnect sid)),
                            \<lambda>sid w. app_next pf w (StepTracker now (OpCompleteDisconnect sid)))\<rparr>)"

text \<open>The calls of a disconnect, in order.\<close>

definition disconnect_steps :: "string \<Rightarrow> int \<Rightarrow> 'r other_managers \<Rightarrow> int \<Rightarrow> 'r app_step list" where
  "disconnect_steps now at ms sid =
     [StepTracker now (OpBeginDisconnect sid), StepRest (om_monitor ms sid),
      StepRest (om_terminal ms sid), StepRest (om_sftp ms sid), StepRest (om_tunnel ms sid),
      StepRest (om_docker ms sid), StepRest (om_process ms sid), StepBatch at (LStopServer sid),
      StepRest (om_service ms sid), StepRest (om_network ms sid),
      StepTracker now (OpCompleteDisconnect sid)]"

lemma Disconnect_steps:
  "Disconnect (newServerLifecycle pf now at ms) sid w = app_run pf w (disconnect_steps now at ms sid)"
  by (simp add: Disconnect_def newServerLifecycle_def stop_resource_def app_run_def
      disconnect_steps_def Let_def)

section \<open>Interleaving\<close>

fun tracker_part :: "'r app_step \<Rightarrow> (string \<times> tracker_op) list" where
  "tracker_part (StepTracker now op) = [(now, op)]"
| "tracker_part (StepBatch now label) = []"
| "tracker_part (StepRest f) = []"

fun batch_part :: "'r app_step \<Rightarrow> (int \<times> batch_label) list" where
  "batch_part (StepTracker now op) = []"
| "batch_part (StepBatch now label) = [(now, label)]"
| "batch_part (StepRest f) = []"

lemma app_run_parts:
  "aw_tracker (app_run pf w xs) = tracker_run (aw_tracker w) (concat (map tracker_part xs))"
  "aw_batch (app_run pf w xs) = batch_run pf (aw_batch w) (concat (map batch_part xs))"
proof (induction xs arbitrary: w)
  case (Cons x xs)
  { case 1 show ?case
      using Cons(1) [of "app_next pf w x"]
      by (cases x) (simp_all add: app_run_def tracker_run_def)
  next
    case 2 show ?case
      using Cons(2) [of "app_next pf w x"]
      by (cases x) (simp_all add: app_run_def batch_run_def) }
qed (simp_all add: app_run_def tracker_run_def batch_run_def)

text \<open>
  What may happen of its own while a server is disconnected: anything, except that the user
  begins to connect or disconnect the same server, or removes it.
\<close>

fun own_step :: "int \<Rightarrow> 'r app_step \<Rightarrow> bool" where
  "own_step i (StepTracker now op) = (op_server op = i \<longrightarrow> is_report op)"
| "own_step i (StepBatch now label) = True"
| "own_step i (StepRest f) = True"

text \<open>While the flag is set, reports do not clear it.\<close>

definition leaving :: "int \<Rightarrow> Tracker \<Rightarrow> bool" where
  "leaving i t \<longleftrightarrow> (\<exists>r. tr_records t i = Some r \<and> cr_disconnecting r)"

lemma leaving_begin: "leaving i (tracker_next t (now, OpBeginDisconnect i))"
  by (simp add: leaving_def tracker_next_def tracker_defs)

lemma leaving_report:
  assumes "op_server op = i \<longrightarrow> is_report op" "leaving i t"
  shows "leaving i (tracker_next t (now, op))"
proof (cases "op_server op = i")
  case True
  with assms show ?thesis
    by (cases op) (auto simp: leaving_def tracker_next_def tracker_defs get_record_def Let_def
        split: if_splits option.splits)
next
  case False
  with assms(2) show ?thesis by (simp add: leaving_def tracker_next_def tracker_step_other)
qed

lemma leaving_run:
  "\<forall>x \<in> set xs. op_server (snd x) = i \<longrightarrow> is_report (snd x) \<Longrightarrow> leaving i t \<Longrightarrow> leaving i (tracker_run t xs)"
  unfolding tracker_run_def
  by (rule foldl_invariant_keeps) (auto simp: leaving_report)

lemma leaving_status: "leaving i t \<Longrightarrow> rs_Status (Tracker_Get later i t) = StatusDisconnecting"
  by (auto simp: leaving_def Tracker_Get_def buildState_def Let_def)


lemma disconnect_parts:
  assumes "x \<in> set (tl (disconnect_steps now at ms i)) \<union> set env" "\<forall>e \<in> set env. own_step i e"
    and "y \<in> set (tracker_part x)" "op_server (snd y) = i"
  shows "is_report (snd y) \<or> x = StepTracker now (OpCompleteDisconnect i)"
  using assms by (cases x) (auto simp: disconnect_steps_def)

lemma disconnect_parts_all:
  assumes "set zs \<subseteq> set (tl (disconnect_steps now at ms i)) \<union> set env"
    and "\<forall>e \<in> set env. own_step i e" "StepTracker now (OpCompleteDisconnect i) \<notin> set zs"
  shows "\<forall>y \<in> set (concat (map tracker_part zs)). op_server (snd y) = i \<longrightarrow> is_report (snd y)"
proof (intro ballI impI)
  fix y assume y: "y \<in> set (concat (map tracker_part zs))" "op_server (snd y) = i"
  then obtain x where "x \<in> set zs" "y \<in> set (tracker_part x)" by auto
  with disconnect_parts [of x now at ms i env y] assms y(2) show "is_report (snd y)" by blast
qed

lemma leaving_or_left:
  assumes "set zs \<subseteq> set (tl (disconnect_steps now at ms i)) \<union> set env" "\<forall>e \<in> set env. own_step i e"
    and "leaving i t"
  shows "if StepTracker now (OpCompleteDisconnect i) \<in> set zs
    then Tracker_Get later i (tracker_run t (concat (map tracker_part zs))) =
      (offline_state later i)\<lparr>rs_Status := StatusDisconnected\<rparr>
    else rs_Status (Tracker_Get later i (tracker_run t (concat (map tracker_part zs))))
      = StatusDisconnecting"
proof (cases "StepTracker now (OpCompleteDisconnect i) \<in> set zs")
  case True
  then obtain a b where ab: "zs = a @ StepTracker now (OpCompleteDisconnect i) # b"
      "StepTracker now (OpCompleteDisconnect i) \<notin> set b"
    by (meson split_list_last)
  have "\<forall>y \<in> set (concat (map tracker_part b)). op_server (snd y) = i \<longrightarrow> is_report (snd y)"
    using ab assms(1) by (intro disconnect_parts_all [OF _ assms(2)]) auto
  from disconnected_sticks [OF this] show ?thesis
    using True ab(1) by (simp add: tracker_run_def tracker_next_def)
next
  case False
  then have "\<forall>y \<in> set (concat (map tracker_part zs)). op_server (snd y) = i \<longrightarrow> is_report (snd y)"
    by (rule disconnect_parts_all [OF assms(1,2)])
  from leaving_status [OF leaving_run [OF this assms(3)]] False show ?thesis by simp
qed

lemma stopped_in_run:
  assumes "StepBatch at (LStopServer i) \<in> set zs" "world_ok (aw_batch w)" "i > 0"
    and "bw_runs (aw_batch w) tid \<noteq> None"
    and "map_of (bw_tasks (aw_batch (app_run pf w zs))) tid = Some c"
  shows "\<not> has_active_server i c"
proof -
  obtain a b where "zs = a @ StepBatch at (LStopServer i) # b"
    using assms(1) by (meson split_list)
  moreover have "batch_later (aw_batch w) (batch_run pf (aw_batch w) (concat (map batch_part a)))"
    using assms(2) by (rule batch_run_later)
  then have "bw_runs (batch_run pf (aw_batch w) (concat (map batch_part a))) tid \<noteq> None"
    using assms(4) by (auto simp: batch_later_def)
  ultimately show ?thesis
    using stopped_server_final [OF batch_run_ok [OF assms(2)] assms(3)] assms(5)
    by (simp add: app_run_parts(2) batch_run_append)
qed

text \<open>
  C9: A disconnect ends every use of the server, whatever goes on at the same time. The calls of
  the disconnect may interleave with any reports of the server's monitor, terminals and file
  browser, any operation on other servers and any step of the batch goroutines. From the first
  call on the server is shown as disconnecting or disconnected; when the last call has returned
  it is shown as disconnected without a session and without an error, and no batch task that
  existed before has an active result for it.
\<close>

theorem Disconnect_interleaved:
  assumes "zs @ rest \<in> shuffles (tl (disconnect_steps now at ms i)) env"
    and "\<forall>e \<in> set env. own_step i e"
    and "aw_batch w = batch_run pf no_batches past" "i > 0"
    and "v = app_run pf w (StepTracker now (OpBeginDisconnect i) # zs)"
  shows "rs_Status (Tracker_Get later i (aw_tracker v)) \<in> {StatusDisconnecting, StatusDisconnected} \<and>
    (rest = [] \<longrightarrow>
      Tracker_Get later i (aw_tracker v) = (offline_state later i)\<lparr>rs_Status := StatusDisconnected\<rparr> \<and>
      (\<forall>tid c. bw_runs (aw_batch w) tid \<noteq> None \<and> map_of (bw_tasks (aw_batch v)) tid = Some c \<longrightarrow>
         \<not> has_active_server i c))"
proof -
  have sets: "set zs \<union> set rest = set (tl (disconnect_steps now at ms i)) \<union> set env"
    using set_shuffles [OF assms(1)] by simp
  have tracker: "aw_tracker v = tracker_run (tracker_next (aw_tracker w) (now, OpBeginDisconnect i))
      (concat (map tracker_part zs))"
    by (simp add: assms(5) app_run_parts(1) tracker_run_def)
  have "if StepTracker now (OpCompleteDisconnect i) \<in> set zs
      then Tracker_Get later i (aw_tracker v) = (offline_state later i)\<lparr>rs_Status := StatusDisconnected\<rparr>
      else rs_Status (Tracker_Get later i (aw_tracker v)) = StatusDisconnecting"
    unfolding tracker using sets assms(2) by (intro leaving_or_left leaving_begin) auto
  moreover have "\<not> has_active_server i c"
    if "rest = []" "bw_runs (aw_batch w) tid \<noteq> None" "map_of (bw_tasks (aw_batch v)) tid = Some c"
    for tid c
    using stopped_in_run [of at i "StepTracker now (OpBeginDisconnect i) # zs" w tid pf c]
      that sets assms(3,4,5) batch_run_ok [OF no_batches_ok]
    by (simp add: disconnect_steps_def)
  moreover have "StepTracker now (OpCompleteDisconnect i) \<in> set zs" if "rest = []"
    using that sets by (simp add: disconnect_steps_def)
  ultimately show ?thesis by (auto split: if_splits simp: offline_state_def)
qed

definition idle_managers :: "unit other_managers" where
  "idle_managers =
     \<lparr>om_monitor = (\<lambda>_ w. w), om_terminal = (\<lambda>_ w. w), om_sftp = (\<lambda>_ w. w), om_tunnel = (\<lambda>_ w. w),
      om_docker = (\<lambda>_ w. w), om_process = (\<lambda>_ w. w), om_service = (\<lambda>_ w. w), om_network = (\<lambda>_ w. w)\<rparr>"

definition first_world :: "unit app_world" where
  "first_world = \<lparr>aw_tracker = new_tracker True, aw_batch = no_batches, aw_rest = ()\<rparr>"

definition late_report :: "unit app_step" where
  "late_report = StepTracker ''t1'' (OpMonitor sample_snapshot)"

theorem Disconnect_interleaved_witness:
  "rs_Status (Tracker_Get ''t2'' 7 (aw_tracker (app_run linux_errno first_world
     (StepTracker ''t'' (OpBeginDisconnect 7) #
      late_report # tl (disconnect_steps ''t'' 0 idle_managers 7))))) = StatusDisconnected"
proof -
  have shuffle: "(late_report # tl (disconnect_steps ''t'' 0 idle_managers 7)) @ []
      \<in> shuffles (tl (disconnect_steps ''t'' 0 idle_managers 7)) [late_report]"
    by (auto intro: Cons_in_shuffles_rightI)
  have own: "\<forall>e \<in> set [late_report]. own_step 7 e" by (simp add: late_report_def)
  have batch: "aw_batch first_world = batch_run linux_errno no_batches []"
    by (simp add: first_world_def batch_run_def)
  from Disconnect_interleaved [OF shuffle own batch _ refl, of "''t2''"] show ?thesis
    by (simp add: offline_state_def)
qed

end
