(* ===== verification/SftpMode.thy ===== *)
theory SftpMode
  imports SftpDelete
begin

unbundle bit_operations_syntax

text \<open>
  Package \<open>internal/sftpmanager\<close>, \<open>manager_properties.go\<close>: the Unix mode of a remote item, its
  text, and changing its permission bits. A mode is Go's \<open>fs.FileMode\<close>, a 32 bit word whose low
  nine bits are the permissions and whose special bits stand elsewhere than in Unix.
\<close>

section \<open>Modes\<close>

type_synonym u32 = "32 word"

definition perm_mask :: u32 where "perm_mask = 0x1FF"
definition ModeDir :: u32 where "ModeDir = 0x80000000"
definition ModeSymlink :: u32 where "ModeSymlink = 0x8000000"
definition ModeSetuid :: u32 where "ModeSetuid = 0x800000"
definition ModeSetgid :: u32 where "ModeSetgid = 0x400000"
definition ModeSticky :: u32 where "ModeSticky = 0x100000"

lemmas mode_defs = perm_mask_def ModeDir_def ModeSymlink_def ModeSetuid_def ModeSetgid_def
  ModeSticky_def

definition has_bits :: "u32 \<Rightarrow> u32 \<Rightarrow> bool" where
  "has_bits mode flag \<longleftrightarrow> mode AND flag \<noteq> 0"

definition unixModeBits :: "u32 \<Rightarrow> u32" where
  "unixModeBits mode =
     (let bits = mode AND perm_mask;
          bits = (if has_bits mode ModeSetuid then bits OR 0x800 else bits);
          bits = (if has_bits mode ModeSetgid then bits OR 0x400 else bits)
      in if has_bits mode ModeSticky then bits OR 0x200 else bits)"

definition fileModeFromUnixMode :: "u32 \<Rightarrow> u32" where
  "fileModeFromUnixMode bits =
     (let mode = bits AND perm_mask;
          mode = (if has_bits bits 0x800 then mode OR ModeSetuid else mode);
          mode = (if has_bits bits 0x400 then mode OR ModeSetgid else mode)
      in if has_bits bits 0x200 then mode OR ModeSticky else mode)"

definition flag_char :: "u32 \<Rightarrow> u32 \<Rightarrow> char \<Rightarrow> char" where
  "flag_char mode flag c = (if has_bits mode flag then c else CHR ''-'')"

text \<open>The execute position of a class, with the special bit shown over it.\<close>

definition exec_char :: "u32 \<Rightarrow> u32 \<Rightarrow> u32 \<Rightarrow> char \<Rightarrow> char \<Rightarrow> char" where
  "exec_char mode exec special lower upper =
     (if has_bits mode special then if has_bits mode exec then lower else upper
      else flag_char mode exec (CHR ''x''))"

definition unixPermissionString :: "u32 \<Rightarrow> string" where
  "unixPermissionString mode =
     [if has_bits mode ModeDir then CHR ''d''
      else if has_bits mode ModeSymlink then CHR ''l'' else CHR ''-'',
      flag_char mode 0x100 (CHR ''r''), flag_char mode 0x80 (CHR ''w''),
      exec_char mode 0x40 ModeSetuid (CHR ''s'') (CHR ''S''),
      flag_char mode 0x20 (CHR ''r''), flag_char mode 0x10 (CHR ''w''),
      exec_char mode 0x8 ModeSetgid (CHR ''s'') (CHR ''S''),
      flag_char mode 0x4 (CHR ''r''), flag_char mode 0x2 (CHR ''w''),
      exec_char mode 0x1 ModeSticky (CHR ''t'') (CHR ''T'')]"

definition remoteItemType :: "bool \<Rightarrow> bool \<Rightarrow> string" where
  "remoteItemType isDir isSymlink =
     (if isSymlink then ''symlink'' else if isDir then ''directory'' else ''file'')"

definition parse_octal32 :: "string \<Rightarrow> u32 option" where
  "parse_octal32 val =
     (case ParseUint val 8 of Inl _ \<Rightarrow> None
      | Inr n \<Rightarrow> if n < 2 ^ 32 then Some (of_nat n) else None)"

definition parseUnixMode :: "string \<Rightarrow> u32 option" where
  "parseUnixMode val =
     (let val = TrimSpace val
      in if val = [] then None
         else case parse_octal32 val of None \<Rightarrow> None | Some parsed \<Rightarrow> Some (parsed AND 0xFFF))"

text \<open>\<open>fileModeFromNumeric\<close> of \<open>scp_shell_compat.go\<close>.\<close>

definition fileModeFromNumeric :: "string \<Rightarrow> bool \<Rightarrow> bool \<Rightarrow> u32" where
  "fileModeFromNumeric val isDir isSymlink =
     (case parse_octal32 (TrimSpace val) of
        None \<Rightarrow> if isDir then ModeDir OR 0x1ED else if isSymlink then ModeSymlink OR 0x1FF else 0x1A4
      | Some parsed \<Rightarrow>
          let mode = parsed AND perm_mask;
              mode = (if isDir then mode OR ModeDir else mode)
          in if isSymlink then mode OR ModeSymlink else mode)"

text \<open>\<open>FileMode.String\<close> of the library: the letters of the set flags, then the permissions.\<close>

definition mode_letters :: "(nat \<times> char) list" where
  "mode_letters = zip [31, 30, 29, 28, 27, 26, 25, 24, 23, 22, 21, 20, 19] ''dalTLDpSugct?''"

definition mode_String :: "u32 \<Rightarrow> string" where
  "mode_String mode =
     (let letters = [c. (n, c) \<leftarrow> mode_letters, bit mode n]
      in (if letters = [] then ''-'' else letters) @
         [if bit mode n then c else CHR ''-''. (n, c) \<leftarrow> zip (rev [0..<9]) ''rwxrwxrwx''])"

section \<open>Entries and properties\<close>

record SFTPEntry =
  se_Name :: string
  se_Path :: string
  se_ParentPath :: string
  se_Size :: "64 word"
  se_IsDir :: bool
  se_IsSymlink :: bool
  se_Permissions :: string
  se_Owner :: string
  se_Group :: string
  se_ModTime :: string

definition unixModeFromEntry :: "SFTPEntry \<Rightarrow> u32" where
  "unixModeFromEntry entry =
     (case parseUnixMode (se_Permissions entry) of
        Some mode \<Rightarrow> mode
      | None \<Rightarrow> unixModeBits
          (fileModeFromNumeric (se_Permissions entry) (se_IsDir entry) (se_IsSymlink entry)))"

text \<open>
  What the server says of an item: the attributes of \<open>fs.FileInfo\<close>, with the owner and group
  of the SFTP attributes when there are any, and the time already as text.
\<close>

record mode_info =
  mi_Name :: string
  mi_Size :: "64 word"
  mi_Mode :: u32
  mi_Ids :: "(nat \<times> nat) option"
  mi_ModTime :: string

definition mi_IsDir :: "mode_info \<Rightarrow> bool" where
  "mi_IsDir info = has_bits (mi_Mode info) ModeDir"

definition fileInfoToEntry :: "string \<Rightarrow> mode_info \<Rightarrow> SFTPEntry" where
  "fileInfoToEntry parentPath info =
     \<lparr>se_Name = mi_Name info, se_Path = joinRemotePath parentPath (mi_Name info),
      se_ParentPath = parentPath, se_Size = mi_Size info, se_IsDir = mi_IsDir info,
      se_IsSymlink = has_bits (mi_Mode info) ModeSymlink,
      se_Permissions = mode_String (mi_Mode info),
      se_Owner = (case mi_Ids info of None \<Rightarrow> zh [8212] | Some (uid, gid) \<Rightarrow> nat_digits uid),
      se_Group = (case mi_Ids info of None \<Rightarrow> zh [8212] | Some (uid, gid) \<Rightarrow> nat_digits gid),
      se_ModTime = mi_ModTime info\<rparr>"

record SFTPItemProperties =
  ip_ConnectionID :: int
  ip_ContextID :: string
  ip_TerminalSessionID :: string
  ip_Generation :: int
  ip_RequestID :: string
  ip_Path :: string
  ip_Name :: string
  ip_Type :: string
  ip_Size :: "64 word"
  ip_ModTime :: string
  ip_Permissions :: string
  ip_Mode :: u32
  ip_Owner :: string
  ip_Group :: string
  ip_IsDir :: bool
  ip_IsSymlink :: bool
  ip_SymlinkTarget :: string
  ip_Entry :: SFTPEntry

text \<open>The fields of the session these functions read.\<close>

record mode_session =
  ms_connectionID :: int
  ms_contextID :: string
  ms_terminalSessionID :: string
  ms_generation :: int
  ms_currentPath :: string

definition properties_of ::
  "mode_session \<Rightarrow> string \<Rightarrow> SFTPEntry \<Rightarrow> string \<Rightarrow> u32 \<Rightarrow> SFTPEntry \<Rightarrow> SFTPItemProperties" where
  "properties_of current requestID entry permissions mode stored =
     \<lparr>ip_ConnectionID = ms_connectionID current, ip_ContextID = ms_contextID current,
      ip_TerminalSessionID = ms_terminalSessionID current,
      ip_Generation = ms_generation current, ip_RequestID = requestID,
      ip_Path = se_Path entry, ip_Name = se_Name entry,
      ip_Type = remoteItemType (se_IsDir entry) (se_IsSymlink entry),
      ip_Size = se_Size entry, ip_ModTime = se_ModTime entry, ip_Permissions = permissions,
      ip_Mode = mode, ip_Owner = se_Owner entry, ip_Group = se_Group entry,
      ip_IsDir = se_IsDir entry, ip_IsSymlink = se_IsSymlink entry, ip_SymlinkTarget = [],
      ip_Entry = stored\<rparr>"

definition propertiesFromInfo ::
  "mode_session \<Rightarrow> string \<Rightarrow> string \<Rightarrow> mode_info \<Rightarrow> SFTPItemProperties" where
  "propertiesFromInfo current requestID parentPath info =
     (let permissions = unixPermissionString (mi_Mode info);
          entry = (fileInfoToEntry parentPath info)\<lparr>se_Permissions := permissions\<rparr>
      in properties_of current requestID entry permissions (unixModeBits (mi_Mode info)) entry)"

definition propertiesFromEntry :: "mode_session \<Rightarrow> string \<Rightarrow> SFTPEntry \<Rightarrow> SFTPItemProperties" where
  "propertiesFromEntry current requestID entry =
     (let mode = unixModeFromEntry entry;
          typedMode = fileModeFromUnixMode mode;
          typedMode = (if se_IsDir entry then typedMode OR ModeDir else typedMode);
          typedMode = (if se_IsSymlink entry then typedMode OR ModeSymlink else typedMode)
      in properties_of current requestID entry (unixPermissionString typedMode) mode entry)"


section \<open>Changing permissions\<close>

text \<open>
  The calls of \<open>UpdateItemPermissions\<close> on an SFTP session. \<open>mc_fail\<close> is what
  \<open>operationErrorForSession\<close> does to the manager with an error: it gives the session up when the
  transport is dead, and tells the window.
\<close>

record 's mode_client =
  mc_Lstat :: "string \<Rightarrow> ('s, goerr, mode_info) call"
  mc_Chmod :: "string \<Rightarrow> u32 \<Rightarrow> ('s, goerr, unit) call"
  mc_ctx_Err :: "('s, goerr, unit) call"
  mc_fail :: "string \<Rightarrow> goerr \<Rightarrow> 's \<Rightarrow> 's"

record SFTPUpdateItemPermissionsRequest =
  ur_Generation :: int
  ur_RequestID :: string
  ur_Path :: string
  ur_Mode :: u32
  ur_PreserveSpecialBits :: bool

definition session_call ::
  "'s mode_client \<Rightarrow> string \<Rightarrow> ('s, goerr, 'a) io \<Rightarrow> ('s, goerr, 'a) io" where
  "session_call c operation m =
     io_bind (io_try m) (\<lambda>r. case r of
         Inl err \<Rightarrow> io_bind (io_update (mc_fail c operation err))
                     (\<lambda>_. io_throw (errors_New (sce_message (classifySFTPError err))))
       | Inr x \<Rightarrow> io_return x)"

definition reject :: "string option \<Rightarrow> ('s, goerr, unit) io" where
  "reject problem = (case problem of None \<Rightarrow> io_return () | Some text \<Rightarrow> io_throw (errors_New text))"

definition next_mode :: "SFTPUpdateItemPermissionsRequest \<Rightarrow> u32 \<Rightarrow> u32" where
  "next_mode request old =
     (let nextMode = ur_Mode request AND perm_mask
      in if ur_PreserveSpecialBits request then nextMode OR (old AND 0xE00) else nextMode)"

definition UpdateItemPermissions ::
  "'s mode_client \<Rightarrow> (goerr + mode_session) \<Rightarrow> SFTPUpdateItemPermissionsRequest \<Rightarrow>
   ('s, goerr, SFTPItemProperties) io" where
  "UpdateItemPermissions c active request =
     io_bind (reject (validateRemoteItemPath (ur_Path request))) (\<lambda>_.
     io_bind (reject (if ur_Mode request AND NOT perm_mask \<noteq> 0
                      then Some (zh [26412, 36718, 20165, 25903, 25345, 32534, 36753, 26222, 36890, 32, 85, 110, 105, 120, 32, 26435, 38480, 20301]) else None)) (\<lambda>_.
     case active of
       Inl err \<Rightarrow> io_throw err
     | Inr current \<Rightarrow>
     io_bind (reject (validateOperationGeneration (ms_generation current) (ur_Generation request))) (\<lambda>_.
     let remotePath = resolveRemotePath (ms_currentPath current) (ur_Path request) in
     io_bind (reject (validateRemoteItemPath remotePath)) (\<lambda>_.
     io_bind (io_call (mc_ctx_Err c)) (\<lambda>_.
     io_bind (session_call c ''sftp.chmod.stat'' (io_call (mc_Lstat c remotePath))) (\<lambda>info.
     if has_bits (mi_Mode info) ModeSymlink
     then io_throw (errors_New (zh [31526, 21495, 38142, 25509, 26435, 38480, 19981, 22312, 26412, 36718, 20462, 25913, 33539, 22260]))
     else
     io_bind (session_call c ''sftp.chmod''
                (io_call (mc_Chmod c remotePath
                   (fileModeFromUnixMode (next_mode request (unixModeBits (mi_Mode info))))))) (\<lambda>_.
     io_bind (session_call c ''sftp.chmod.stat_after'' (io_call (mc_Lstat c remotePath))) (\<lambda>after.
       io_return (propertiesFromInfo current (ur_RequestID request)
                    (parentRemotePath remotePath) after)))))))))"

text \<open>\<open>GetItemProperties\<close> on an SFTP session.\<close>

definition GetItemProperties ::
  "'s mode_client \<Rightarrow> (goerr + mode_session) \<Rightarrow> int \<Rightarrow> string \<Rightarrow> string \<Rightarrow> ('s, goerr, SFTPItemProperties) io" where
  "GetItemProperties c active generation requestID path =
     io_bind (reject (validateRemoteItemPath path)) (\<lambda>_.
     case active of
       Inl err \<Rightarrow> io_throw err
     | Inr current \<Rightarrow>
     io_bind (reject (validateOperationGeneration (ms_generation current) generation)) (\<lambda>_.
     let remotePath = resolveRemotePath (ms_currentPath current) path in
     io_bind (reject (validateRemoteItemPath remotePath)) (\<lambda>_.
     io_bind (io_call (mc_ctx_Err c)) (\<lambda>_.
     io_bind (session_call c ''sftp.properties'' (io_call (mc_Lstat c remotePath))) (\<lambda>info.
       io_return (propertiesFromInfo current requestID (parentRemotePath remotePath) info))))))"

section \<open>The bits of a mode\<close>

lemma has_bits_power: "has_bits m (2 ^ n) \<longleftrightarrow> bit m n"
  by (simp add: has_bits_def and_exp_eq_0_iff_not_bit)

lemma has_bits_numerals:
  "has_bits m 0x800 \<longleftrightarrow> bit m 11" "has_bits m 0x400 \<longleftrightarrow> bit m 10" "has_bits m 0x200 \<longleftrightarrow> bit m 9"
  "has_bits m 0x100 \<longleftrightarrow> bit m 8" "has_bits m 0x80 \<longleftrightarrow> bit m 7" "has_bits m 0x40 \<longleftrightarrow> bit m 6"
  "has_bits m 0x20 \<longleftrightarrow> bit m 5" "has_bits m 0x10 \<longleftrightarrow> bit m 4" "has_bits m 0x8 \<longleftrightarrow> bit m 3"
  "has_bits m 0x4 \<longleftrightarrow> bit m 2" "has_bits m 0x2 \<longleftrightarrow> bit m 1" "has_bits m 0x1 \<longleftrightarrow> bit m 0"
  "has_bits m ModeSetuid \<longleftrightarrow> bit m 23" "has_bits m ModeSetgid \<longleftrightarrow> bit m 22"
  "has_bits m ModeSticky \<longleftrightarrow> bit m 20" "has_bits m ModeDir \<longleftrightarrow> bit m 31"
  "has_bits m ModeSymlink \<longleftrightarrow> bit m 27"
  using has_bits_power [of m 11] has_bits_power [of m 10] has_bits_power [of m 9]
    has_bits_power [of m 8] has_bits_power [of m 7] has_bits_power [of m 6]
    has_bits_power [of m 5] has_bits_power [of m 4] has_bits_power [of m 3]
    has_bits_power [of m 2] has_bits_power [of m 1] has_bits_power [of m 0]
    has_bits_power [of m 23] has_bits_power [of m 22] has_bits_power [of m 20]
    has_bits_power [of m 31] has_bits_power [of m 27]
  by (simp_all add: mode_defs)

lemma bit_power: "bit (2 ^ k :: u32) n \<longleftrightarrow> n = k \<and> k < 32"
  by (auto simp: bit_exp_iff)

lemma bit_numerals:
  "bit (0x800 :: u32) n \<longleftrightarrow> n = 11" "bit (0x400 :: u32) n \<longleftrightarrow> n = 10" "bit (0x200 :: u32) n \<longleftrightarrow> n = 9"
  "bit ModeSetuid n \<longleftrightarrow> n = 23" "bit ModeSetgid n \<longleftrightarrow> n = 22" "bit ModeSticky n \<longleftrightarrow> n = 20"
  using bit_power [of 11 n] bit_power [of 10 n] bit_power [of 9 n] bit_power [of 23 n]
    bit_power [of 22 n] bit_power [of 20 n]
  by (simp_all add: mode_defs)

lemma bit_perm_mask: "bit perm_mask n \<longleftrightarrow> n < 9"
  using bit_mask_iff [of 9 n, where 'a = "32 word"]
  by (auto simp: mode_defs mask_eq_exp_minus_1)

lemma bit_unix_mask: "bit (0xFFF :: u32) n \<longleftrightarrow> n < 12"
  using bit_mask_iff [of 12 n, where 'a = "32 word"]
  by (auto simp: mask_eq_exp_minus_1)

lemmas mode_bits = has_bits_numerals bit_numerals bit_perm_mask bit_unix_mask bit_and_iff bit_or_iff

lemma bit_unixModeBits:
  "bit (unixModeBits m) n \<longleftrightarrow> n < 9 \<and> bit m n \<or> n = 11 \<and> bit m 23 \<or> n = 10 \<and> bit m 22 \<or> n = 9 \<and> bit m 20"
  unfolding unixModeBits_def Let_def by (auto simp: mode_bits simp del: bit_numeral_word_iff)

lemma bit_fileModeFromUnixMode:
  "bit (fileModeFromUnixMode b) n \<longleftrightarrow>
     n < 9 \<and> bit b n \<or> n = 23 \<and> bit b 11 \<or> n = 22 \<and> bit b 10 \<or> n = 20 \<and> bit b 9"
  unfolding fileModeFromUnixMode_def Let_def by (auto simp: mode_bits simp del: bit_numeral_word_iff)

lemma unixModeBits_fileMode: "unixModeBits (fileModeFromUnixMode b) = b AND 0xFFF"
proof (rule bit_word_eqI)
  fix n :: nat
  have "n < 12 \<longleftrightarrow> n < 9 \<or> n = 9 \<or> n = 10 \<or> n = 11" by auto
  then show "bit (unixModeBits (fileModeFromUnixMode b)) n \<longleftrightarrow> bit (b AND 0xFFF) n"
    by (auto simp: bit_unixModeBits bit_fileModeFromUnixMode mode_bits
        simp del: bit_numeral_word_iff)
qed

text \<open>
  The two representations of a mode carry the same bits: a Unix mode comes back from Go's
  representation with its twelve bits, and Go's permissions and special bits come back from the
  Unix mode, so no bit is lost or moved on the way to the server.
\<close>

theorem mode_roundtrip:
  "unixModeBits (fileModeFromUnixMode b) = b AND 0xFFF \<and>
   fileModeFromUnixMode (unixModeBits m) =
     m AND (perm_mask OR ModeSetuid OR ModeSetgid OR ModeSticky)"
proof
  show "unixModeBits (fileModeFromUnixMode b) = b AND 0xFFF" by (rule unixModeBits_fileMode)
  show "fileModeFromUnixMode (unixModeBits m) =
     m AND (perm_mask OR ModeSetuid OR ModeSetgid OR ModeSticky)"
    by (rule bit_word_eqI) (auto simp: bit_unixModeBits bit_fileModeFromUnixMode mode_bits
        simp del: bit_numeral_word_iff)
qed


lemma session_call_Some_iff:
  "session_call c operation m s = Some (Inr x, t) \<longleftrightarrow> m s = Some (Inr x, t)"
  by (auto simp: session_call_def io_bind_def io_try_def io_return_def io_throw_def io_update_def
      split: option.splits sum.splits)

lemma reject_Some_iff: "reject problem s = Some (Inr u, t) \<longleftrightarrow> problem = None \<and> t = s"
  by (auto simp: reject_def io_return_def split: option.splits)

lemma bit_special_mask: "bit (0xE00 :: u32) n \<longleftrightarrow> n = 9 \<or> n = 10 \<or> n = 11"
proof -
  have "(0xE00 :: u32) = 0x800 OR 0x400 OR 0x200" by simp
  then show ?thesis by (simp only: bit_or_iff bit_numerals) auto
qed

lemma perm_only:
  assumes "m AND NOT perm_mask = 0" "bit m n" shows "n < 9"
proof -
  have "n < 32" using bit_imp_le_length [OF assms(2)] by simp
  moreover have "\<not> bit (m AND NOT perm_mask) n" using assms(1) by simp
  ultimately show ?thesis using assms(2) by (simp add: mode_bits bit_not_iff)
qed

lemma next_mode_bits:
  assumes "ur_Mode request AND NOT perm_mask = 0"
  shows "next_mode request old AND perm_mask = ur_Mode request"
    and "next_mode request old AND 0xE00 = (if ur_PreserveSpecialBits request then old AND 0xE00 else 0)"
    and "next_mode request old AND 0xFFF = next_mode request old"
proof -
  show "next_mode request old AND perm_mask = ur_Mode request"
    by (rule bit_word_eqI)
      (auto simp: next_mode_def Let_def mode_bits bit_special_mask dest: perm_only [OF assms]
        simp del: bit_numeral_word_iff)
  show "next_mode request old AND 0xE00 = (if ur_PreserveSpecialBits request then old AND 0xE00 else 0)"
    by (rule bit_word_eqI)
      (auto simp: next_mode_def Let_def mode_bits bit_special_mask simp del: bit_numeral_word_iff)
  show "next_mode request old AND 0xFFF = next_mode request old"
    by (rule bit_word_eqI)
      (auto simp: next_mode_def Let_def mode_bits bit_special_mask simp del: bit_numeral_word_iff)
qed

text \<open>
  Changing permissions changes the permission bits only. When the change succeeds, the item
  was no symbolic link, one change was made, on the path the request resolves to; its permission
  bits are those asked for, its special bits are those the item had or none as the request says,
  no other bit is set, and what is returned is what the server reports afterwards.
\<close>

theorem UpdateItemPermissions_effect:
  assumes "UpdateItemPermissions c (Inr current) request s = Some (Inr props, t)"
  shows "\<exists>info after new s1 s2 s3.
    mc_ctx_Err c s = (Inr (), s1) \<and>
    mc_Lstat c (resolveRemotePath (ms_currentPath current) (ur_Path request)) s1 = (Inr info, s2) \<and>
    \<not> has_bits (mi_Mode info) ModeSymlink \<and>
    mc_Chmod c (resolveRemotePath (ms_currentPath current) (ur_Path request))
      (fileModeFromUnixMode new) s2 = (Inr (), s3) \<and>
    mc_Lstat c (resolveRemotePath (ms_currentPath current) (ur_Path request)) s3 = (Inr after, t) \<and>
    unixModeBits (fileModeFromUnixMode new) = new \<and>
    new AND perm_mask = ur_Mode request \<and>
    new AND 0xE00 =
      (if ur_PreserveSpecialBits request then unixModeBits (mi_Mode info) AND 0xE00 else 0) \<and>
    ip_Mode props = unixModeBits (mi_Mode after)"
proof -
  obtain info after s1 s2 s3 where run:
    "ur_Mode request AND NOT perm_mask = 0"
    "mc_ctx_Err c s = (Inr (), s1)"
    "mc_Lstat c (resolveRemotePath (ms_currentPath current) (ur_Path request)) s1 = (Inr info, s2)"
    "\<not> has_bits (mi_Mode info) ModeSymlink"
    "mc_Chmod c (resolveRemotePath (ms_currentPath current) (ur_Path request))
      (fileModeFromUnixMode (next_mode request (unixModeBits (mi_Mode info)))) s2 = (Inr (), s3)"
    "mc_Lstat c (resolveRemotePath (ms_currentPath current) (ur_Path request)) s3 = (Inr after, t)"
    "props = propertiesFromInfo current (ur_RequestID request)
       (parentRemotePath (resolveRemotePath (ms_currentPath current) (ur_Path request))) after"
    using assms unfolding UpdateItemPermissions_def
    by (auto simp: io_inversion session_call_Some_iff reject_Some_iff Let_def split: if_splits)
  moreover have "unixModeBits (fileModeFromUnixMode (next_mode request (unixModeBits (mi_Mode info))))
      = next_mode request (unixModeBits (mi_Mode info))"
    using next_mode_bits(3) [OF run(1)] by (simp add: unixModeBits_fileMode)
  moreover have "ip_Mode props = unixModeBits (mi_Mode after)"
    by (simp add: run(7) propertiesFromInfo_def properties_of_def Let_def)
  ultimately show ?thesis using next_mode_bits [OF run(1)] by blast
qed


definition setuid_info :: mode_info where
  "setuid_info = \<lparr>mi_Name = ''a'', mi_Size = 10, mi_Mode = 0x8001ED, mi_Ids = Some (0, 0),
     mi_ModTime = ''t''\<rparr>"

definition setuid_server :: "u32 mode_client" where
  "setuid_server =
     \<lparr>mc_Lstat = (\<lambda>p s. (Inr (setuid_info\<lparr>mi_Mode := s\<rparr>), s)), mc_Chmod = (\<lambda>p m s. (Inr (), m)),
      mc_ctx_Err = (\<lambda>s. (Inr (), s)), mc_fail = (\<lambda>_ _ s. s)\<rparr>"

definition sample_mode_session :: mode_session where
  "sample_mode_session = \<lparr>ms_connectionID = 1, ms_contextID = [], ms_terminalSessionID = [],
     ms_generation = 1, ms_currentPath = ''/''\<rparr>"

definition keep_setuid :: SFTPUpdateItemPermissionsRequest where
  "keep_setuid = \<lparr>ur_Generation = 1, ur_RequestID = [], ur_Path = ''/a'', ur_Mode = 0x180,
     ur_PreserveSpecialBits = True\<rparr>"

lemma keep_setuid_paths: "validateRemoteItemPath ''/a'' = None" "resolveRemotePath ''/'' ''/a'' = ''/a''"
  by code_simp+

lemma keep_setuid_run:
  "\<exists>props. UpdateItemPermissions setuid_server (Inr sample_mode_session) keep_setuid 0x8001ED =
     Some (Inr props, 0x800180)"
  by (simp add: UpdateItemPermissions_def keep_setuid_def sample_mode_session_def keep_setuid_paths
      reject_def io_bind_def io_call_def io_return_def io_try_def session_call_def
      setuid_server_def setuid_info_def mode_defs validateOperationGeneration_def
      next_mode_def fileModeFromUnixMode_def unixModeBits_def has_bits_def Let_def)

theorem UpdateItemPermissions_effect_witness:
  "\<exists>new. fileModeFromUnixMode new = 0x800180 \<and> new AND perm_mask = 0x180"
proof -
  obtain props where "UpdateItemPermissions setuid_server (Inr sample_mode_session) keep_setuid 0x8001ED =
     Some (Inr props, 0x800180)"
    using keep_setuid_run by blast
  from UpdateItemPermissions_effect [OF this] show ?thesis
    by (auto simp: setuid_server_def keep_setuid_def)
qed

section \<open>The text of a mode\<close>

lemma flag_char_eq: "c \<noteq> CHR ''-'' \<Longrightarrow> flag_char m f c = flag_char m' f c \<longleftrightarrow> (has_bits m f \<longleftrightarrow> has_bits m' f)"
  by (auto simp: flag_char_def)

lemma exec_char_eq:
  assumes "lower \<noteq> upper" "lower \<notin> {CHR ''x'', CHR ''-''}" "upper \<notin> {CHR ''x'', CHR ''-''}"
  shows "exec_char m x sp lower upper = exec_char m' x sp lower upper \<longleftrightarrow>
    (has_bits m x \<longleftrightarrow> has_bits m' x) \<and> (has_bits m sp \<longleftrightarrow> has_bits m' sp)"
  by (cases "has_bits m x"; cases "has_bits m' x"; cases "has_bits m sp"; cases "has_bits m' sp")
    (use assms in \<open>simp_all add: exec_char_def flag_char_def eq_commute\<close>)

lemma nat_less_9: "(\<forall>n<9. P n) \<longleftrightarrow> P 0 \<and> P 1 \<and> P 2 \<and> P 3 \<and> P 4 \<and> P 5 \<and> P 6 \<and> P 7 \<and> P (8::nat)"
proof -
  have "(\<forall>n<9. P n) \<longleftrightarrow> list_all P [0..<9]" by (auto simp: list_all_iff)
  moreover have "[0..<9] = [0, 1, 2, 3, 4, 5, 6, 7, 8]" by code_simp
  ultimately show ?thesis by simp
qed

lemma unixModeBits_eq_iff:
  "unixModeBits m = unixModeBits m' \<longleftrightarrow>
     (\<forall>n<9. bit m n = bit m' n) \<and> bit m 23 = bit m' 23 \<and> bit m 22 = bit m' 22 \<and> bit m 20 = bit m' 20"
proof
  assume "unixModeBits m = unixModeBits m'"
  then have *: "bit (unixModeBits m) n = bit (unixModeBits m') n" for n by simp
  show "(\<forall>n<9. bit m n = bit m' n) \<and> bit m 23 = bit m' 23 \<and> bit m 22 = bit m' 22 \<and> bit m 20 = bit m' 20"
  proof (intro conjI allI impI)
    fix n :: nat assume "n < 9"
    then show "bit m n = bit m' n" using * [of n] by (simp add: bit_unixModeBits)
  qed (use * [of 11] * [of 10] * [of 9] in \<open>simp_all add: bit_unixModeBits\<close>)
next
  assume "(\<forall>n<9. bit m n = bit m' n) \<and> bit m 23 = bit m' 23 \<and> bit m 22 = bit m' 22 \<and> bit m 20 = bit m' 20"
  then show "unixModeBits m = unixModeBits m'"
    by (intro bit_word_eqI) (auto simp: bit_unixModeBits)
qed

text \<open>
  The text of a mode loses nothing: two modes are shown by the same ten characters exactly
  when their permission and special bits agree and they are both directories, or both symbolic
  links, or neither.
\<close>

theorem unixPermissionString_injective:
  "unixPermissionString m = unixPermissionString m' \<longleftrightarrow>
     unixModeBits m = unixModeBits m' \<and> has_bits m ModeDir = has_bits m' ModeDir \<and>
     (has_bits m ModeDir \<or> has_bits m ModeSymlink = has_bits m' ModeSymlink)"
proof -
  have kind: "((if d then CHR ''d'' else if l then CHR ''l'' else CHR ''-'') =
      (if d' then CHR ''d'' else if l' then CHR ''l'' else CHR ''-'')) \<longleftrightarrow> d = d' \<and> (d \<or> l = l')"
    for d d' l l'
    by (cases d; cases d'; cases l; cases l') simp_all
  have chars: "flag_char m f (CHR ''r'') = flag_char m' f (CHR ''r'') \<longleftrightarrow> has_bits m f = has_bits m' f"
    "flag_char m f (CHR ''w'') = flag_char m' f (CHR ''w'') \<longleftrightarrow> has_bits m f = has_bits m' f"
    "exec_char m x sp (CHR ''s'') (CHR ''S'') = exec_char m' x sp (CHR ''s'') (CHR ''S'') \<longleftrightarrow>
      (has_bits m x = has_bits m' x) \<and> (has_bits m sp = has_bits m' sp)"
    "exec_char m x sp (CHR ''t'') (CHR ''T'') = exec_char m' x sp (CHR ''t'') (CHR ''T'') \<longleftrightarrow>
      (has_bits m x = has_bits m' x) \<and> (has_bits m sp = has_bits m' sp)" for f x sp
    by (simp_all add: flag_char_eq exec_char_eq)
  show ?thesis
    unfolding unixPermissionString_def list.inject kind unixModeBits_eq_iff nat_less_9 chars
      has_bits_numerals
    by (simp only: conj_ac simp_thms)
qed

end
