(* ===== verification/ScpShell.thy ===== *)
theory ScpShell
  imports SftpMode GoTime
begin

text \<open>
  Package \<open>internal/sftpmanager\<close>, \<open>scp_shell_compat.go\<close> and the validations of \<open>scp_compat.go\<close>:
  file management on a server without SFTP, by shell scripts. The scripts go through the input
  of \<open>sh -s\<close>, their arguments through the command line; what comes back are lines of fields
  separated by tabs.
\<close>

section \<open>The command line\<close>

definition QuotePOSIXArg :: "string \<Rightarrow> string" where
  "QuotePOSIXArg val =
     [CHR 0x27] @ ReplaceChar val (CHR 0x27) [CHR 0x27, CHR 0x5C, CHR 0x27, CHR 0x27] @ [CHR 0x27]"

definition scp_commandText :: "string list \<Rightarrow> string" where
  "scp_commandText args = ''sh -s --'' @ concat (map (\<lambda>arg. '' '' @ QuotePOSIXArg arg) args)"

text \<open>\<open>fmt.Sprintf\<close> with \<open>%04o\<close>.\<close>

fun octal_digits :: "nat \<Rightarrow> string" where
  "octal_digits n = (if n < 8 then [digit_char n] else octal_digits (n div 8) @ [digit_char (n mod 8)])"

declare octal_digits.simps [simp del]

definition octal4 :: "nat \<Rightarrow> string" where
  "octal4 n = replicate (4 - length (octal_digits n)) (CHR ''0'') @ octal_digits n"

section \<open>Paths\<close>

definition validateSCPRemoteTarget :: "string \<Rightarrow> string option" where
  "validateSCPRemoteTarget remotePath =
     (if hasParentTraversal remotePath then Some (zh [83, 67, 80, 32, 36828, 31243, 36335, 24452, 19981, 33021, 21253, 21547, 32, 46, 46])
      else let remotePath = cleanRemotePath remotePath
           in if remotePath = [] \<or> remotePath = ''.'' \<or> remotePath = ''/'' \<or> remotePath = ''..''
              then Some (zh [83, 67, 80, 32, 36828, 31243, 36335, 24452, 19981, 33021, 20026, 26681, 30446, 24405, 25110, 20445, 30041, 36335, 24452]) else None)"

definition validateSCPRemoteReadablePath :: "string \<Rightarrow> string option" where
  "validateSCPRemoteReadablePath remotePath =
     (if hasParentTraversal remotePath then Some (zh [83, 67, 80, 32, 36828, 31243, 36335, 24452, 19981, 33021, 21253, 21547, 32, 46, 46])
      else if ContainsAnyChar remotePath [CHR 0x00, CHR 0x0D, CHR 0x0A]
        then Some (zh [83, 67, 80, 32, 36828, 31243, 36335, 24452, 21253, 21547, 38750, 27861, 25511, 21046, 23383, 31526])
      else let remotePath = cleanRemotePath remotePath
           in if remotePath = [] \<or> remotePath = ''.'' \<or> remotePath = ''..''
              then Some (zh [83, 67, 80, 32, 36828, 31243, 36335, 24452, 26080, 25928]) else None)"

function strip_dots :: "string \<Rightarrow> string" where
  "strip_dots rawPath =
     (if rawPath = ''.'' \<or> HasPrefix rawPath ''./''
      then if rawPath = ''.'' \<or> rawPath = ''./'' then []
           else strip_dots (TrimPrefix rawPath ''./'')
      else rawPath)"
  by auto
termination
proof (relation "measure length")
  fix rawPath :: string
  assume "rawPath = ''.'' \<or> HasPrefix rawPath ''./''" "\<not> (rawPath = ''.'' \<or> rawPath = ''./'')"
  then show "(TrimPrefix rawPath ''./'', rawPath) \<in> measure length"
    by (auto simp: TrimPrefix_def elim: HasPrefixE)
qed simp

declare strip_dots.simps [simp del]

definition normalizeSCPRelativePath :: "string \<Rightarrow> string" where
  "normalizeSCPRelativePath rawPath = strip_dots (TrimSpace (slashed rawPath))"

definition normalizeSCPRequestPath :: "string \<Rightarrow> string \<Rightarrow> bool \<Rightarrow> string + string" where
  "normalizeSCPRequestPath base rawPath allowRoot =
     (if hasParentTraversal rawPath then Inl (zh [83, 67, 80, 32, 36828, 31243, 36335, 24452, 19981, 33021, 21253, 21547, 32, 46, 46])
      else let remotePath = resolveRemotePath base (normalizeSCPRelativePath rawPath);
               remotePath =
                 (if remotePath = ''.''
                  then let home = cleanRemotePath base
                       in if HasPrefix home ''/'' then home else ''/''
                  else remotePath)
           in if ContainsAnyChar remotePath [CHR 0x00, CHR 0x0D, CHR 0x0A]
                then Inl (zh [83, 67, 80, 32, 36828, 31243, 36335, 24452, 21253, 21547, 38750, 27861, 25511, 21046, 23383, 31526])
              else if \<not> allowRoot
                then (case validateSCPRemoteTarget remotePath of
                        Some err \<Rightarrow> Inl err | None \<Rightarrow> Inr remotePath)
              else Inr remotePath)"

definition scpShellPathArg :: "string \<Rightarrow> string" where
  "scpShellPathArg remotePath =
     (let remotePath = cleanRemotePath remotePath
      in if \<not> HasPrefix remotePath ''/'' \<and> CHR ''/'' \<notin> set remotePath \<and> HasPrefix remotePath ''-''
         then ''./'' @ remotePath else remotePath)"

definition unsafeSCPEntryName :: "string \<Rightarrow> bool" where
  "unsafeSCPEntryName name =
     (let name = TrimSpace name
      in name = [] \<or> name = ''.'' \<or> name = ''..'' \<or> CHR ''/'' \<in> set name \<or> CHR 0x5C \<in> set name \<or>
         ContainsAnyChar name [CHR 0x00, CHR 0x0D, CHR 0x0A])"

definition safeSCPRecordName :: "string \<Rightarrow> string + string" where
  "safeSCPRecordName name =
     (let name = TrimSpace name
      in if name = [] \<or> name = ''.'' \<or> name = ''..'' then Inl (zh [83, 67, 80, 32, 25991, 20214, 21517, 19981, 23433, 20840])
         else if CHR ''/'' \<in> set name \<or> CHR 0x5C \<in> set name \<or>
                 ContainsAnyChar name [CHR 0x0D, CHR 0x0A, CHR 0x00]
           then Inl (zh [83, 67, 80, 32, 25991, 20214, 21517, 19981, 23433, 20840])
         else Inr name)"

definition emptyAsUnknown :: "string \<Rightarrow> string" where
  "emptyAsUnknown val = (if TrimSpace val = [] then ''-'' else val)"

section \<open>What the scripts print\<close>

text \<open>\<open>strings.SplitN\<close>: at most \<open>n\<close> parts, the last one unsplit.\<close>

fun SplitN :: "nat \<Rightarrow> string \<Rightarrow> char \<Rightarrow> string list" where
  "SplitN 0 s c = []"
| "SplitN (Suc 0) s c = [s]"
| "SplitN (Suc (Suc n)) s c =
     (case Cut s c of None \<Rightarrow> [s] | Some (a, b) \<Rightarrow> a # SplitN (Suc n) b c)"

text \<open>The value of \<open>strconv.ParseInt\<close> where the code ignores its error.\<close>

definition ParseInt_value :: "string \<Rightarrow> int" where
  "ParseInt_value s =
     (case ParseInt s 10 of
        Inr i \<Rightarrow> i
      | Inl ErrSyntax \<Rightarrow> 0
      | Inl ErrRange \<Rightarrow> if HasPrefix s ''-'' then - (2 ^ 63) else 2 ^ 63 - 1)"

definition scp_entry :: "string \<Rightarrow> string list \<Rightarrow> SFTPEntry" where
  "scp_entry parentPath parts =
     (let mtime = ParseInt_value (parts ! 3); name = parts ! 7
      in \<lparr>se_Name = name, se_Path = joinRemotePath parentPath name, se_ParentPath = parentPath,
          se_Size = of_int (ParseInt_value (parts ! 2)),
          se_IsDir = (parts ! 1 = ''dir''), se_IsSymlink = (parts ! 1 = ''symlink''),
          se_Permissions = parts ! 4, se_Owner = emptyAsUnknown (parts ! 5),
          se_Group = emptyAsUnknown (parts ! 6),
          se_ModTime = (if mtime > 0 then RFC3339Nano (mtime * 1000000000) else [])\<rparr>)"

fun scp_entries :: "string \<Rightarrow> string list \<Rightarrow> string + SFTPEntry list" where
  "scp_entries parentPath [] = Inr []"
| "scp_entries parentPath (line # lines) =
     (if TrimSpace line = [] \<or> HasPrefix line (''SP_PATH'' @ [CHR 0x09])
        then scp_entries parentPath lines
      else if HasPrefix line (''SP_ERROR'' @ [CHR 0x09])
        then Inl (zh [83, 67, 80, 32, 20860, 23481, 27169, 24335, 26080, 27861, 35835, 21462, 36828, 31243, 30446, 24405])
      else let parts = SplitN 8 line (CHR 0x09)
        in if length parts \<noteq> 8 \<or> parts ! 0 \<noteq> ''SP_ENTRY'' \<or> unsafeSCPEntryName (parts ! 7)
           then scp_entries parentPath lines
           else bind_res (scp_entries parentPath lines)
                  (\<lambda>entries. Inr (scp_entry parentPath parts # entries)))"

definition parseSCPShellEntries :: "string \<Rightarrow> string \<Rightarrow> string + SFTPEntry list" where
  "parseSCPShellEntries parentPath output =
     scp_entries parentPath (Split (TrimRightChars output [CHR 0x0A]) (CHR 0x0A))"

definition inspect_line :: "SFTPInspectDeleteResponse \<Rightarrow> string \<Rightarrow> SFTPInspectDeleteResponse" where
  "inspect_line response line =
     (let parts = Split line (CHR 0x09)
      in if TrimSpace line = [] \<or> length parts < 3 \<or> parts ! 0 \<noteq> ''SP_ITEM'' then response
         else let size = of_int (ParseInt_value (parts ! 2))
           in if parts ! 1 = ''dir''
                then response\<lparr>ir_DirectoryCount := ir_DirectoryCount response + 1,
                              ir_RequiresRecursive := True\<rparr>
              else if parts ! 1 = ''symlink''
                then response\<lparr>ir_SymlinkCount := ir_SymlinkCount response + 1,
                              ir_TotalBytes := ir_TotalBytes response + size\<rparr>
              else response\<lparr>ir_FileCount := ir_FileCount response + 1,
                            ir_TotalBytes := ir_TotalBytes response + size\<rparr>)"

section \<open>Running a script\<close>

text \<open>
  The scripts are constants of the source, in the language of the remote shell; here each is its
  name. \<open>scpShellResolveHomeScript\<close> and so on.
\<close>

datatype shell_script =
    scpShellListScript | scpShellResolveHomeScript | scpShellStatScript | scpShellMkdirScript
  | scpShellChmodScript | scpShellRenameScript | scpShellReadTextScript
  | scpShellInspectDeleteScript | scpShellDeleteScript

text \<open>
  The interface \<open>Transport\<close> as these functions use it: a command is started from its text, and
  its handle takes the script, ends its input, gives what it prints, and reports how it ended.
  \<open>cmd_Stdout\<close> reads to the end, or to the number of bytes its reader is limited to.
\<close>

record ('s, 'h) shell_transport =
  tr_StartCommand :: "string \<Rightarrow> ('s, goerr, 'h) call"
  cmd_WriteString :: "'h \<Rightarrow> shell_script \<Rightarrow> ('s, goerr, unit) call"
  cmd_CloseStdin :: "'h \<Rightarrow> ('s, goerr, unit) call"
  cmd_Stdout :: "'h \<Rightarrow> nat option \<Rightarrow> ('s, goerr, string) call"
  cmd_Wait :: "'h \<Rightarrow> ('s, goerr, unit) call"
  cmd_Close :: "'h \<Rightarrow> 's \<Rightarrow> 's"

definition io_finally :: "('s \<Rightarrow> 's) \<Rightarrow> ('s, 'e, 'a) io \<Rightarrow> ('s, 'e, 'a) io" where
  "io_finally f m = (\<lambda>s. case m s of None \<Rightarrow> None | Some (r, t) \<Rightarrow> Some (r, f t))"

text \<open>\<open>io.ReadAll\<close> of an \<open>io.LimitReader\<close>.\<close>

definition read_all ::
  "('s, 'h) shell_transport \<Rightarrow> 'h \<Rightarrow> nat option \<Rightarrow> ('s, goerr, string) io" where
  "read_all t h limit =
     io_bind (io_call (cmd_Stdout t h limit))
       (\<lambda>output. io_return (case limit of None \<Rightarrow> output | Some n \<Rightarrow> take n output))"

definition scpShellOutputLimit :: nat where
  "scpShellOutputLimit = 8 * 1024 * 1024"

definition too_large :: goerr where
  "too_large = errors_New (zh [83, 67, 80, 32, 20860, 23481, 27169, 24335, 36820, 22238, 25968, 25454, 36807, 22823])"

definition command_failed :: "goerr \<Rightarrow> goerr" where
  "command_failed = errorf_wrap (zh [83, 67, 80, 32, 20860, 23481, 27169, 24335, 36828, 31243, 21629, 20196, 22833, 36133, 58, 32])"

definition runSCPShellScript ::
  "('s, 'h) shell_transport \<Rightarrow> shell_script \<Rightarrow> nat \<Rightarrow> string list \<Rightarrow> ('s, goerr, string) io" where
  "runSCPShellScript t script maxBytes args =
     io_bind (io_call (tr_StartCommand t (scp_commandText args))) (\<lambda>h.
     io_finally (cmd_Close t h)
       (io_bind (io_call (cmd_WriteString t h script)) (\<lambda>_.
        io_bind (io_call (cmd_CloseStdin t h)) (\<lambda>_.
        io_bind (io_try (read_all t h (if maxBytes > 0 then Some (maxBytes + 1) else None))) (\<lambda>output.
        io_bind (io_try (io_call (cmd_Wait t h))) (\<lambda>waited.
          case output of
            Inl readErr \<Rightarrow> io_throw readErr
          | Inr output \<Rightarrow>
              if maxBytes > 0 \<and> length output > maxBytes then io_throw too_large
              else (case waited of
                      Inl waitErr \<Rightarrow> io_throw (command_failed waitErr)
                    | Inr _ \<Rightarrow> io_return output)))))))"

text \<open>The output, and the error of a command that failed after it printed.\<close>

definition runSCPShellStatScript ::
  "('s, 'h) shell_transport \<Rightarrow> string \<Rightarrow> ('s, goerr, string \<times> goerr option) io" where
  "runSCPShellStatScript t pathArg =
     io_bind (io_call (tr_StartCommand t (''sh -s -- '' @ QuotePOSIXArg pathArg))) (\<lambda>h.
     io_finally (cmd_Close t h)
       (io_bind (io_call (cmd_WriteString t h scpShellStatScript)) (\<lambda>_.
        io_bind (io_call (cmd_CloseStdin t h)) (\<lambda>_.
        io_bind (io_try (read_all t h (Some (scpShellOutputLimit + 1)))) (\<lambda>output.
        io_bind (io_try (io_call (cmd_Wait t h))) (\<lambda>waited.
          case output of
            Inl readErr \<Rightarrow> io_throw readErr
          | Inr output \<Rightarrow>
              if length output > scpShellOutputLimit then io_throw too_large
              else (case waited of
                      Inl waitErr \<Rightarrow> io_return (output, Some (command_failed waitErr))
                    | Inr _ \<Rightarrow> io_return (output, None))))))))"

definition runSCPShellScriptNoOutput ::
  "('s, 'h) shell_transport \<Rightarrow> shell_script \<Rightarrow> string list \<Rightarrow> ('s, goerr, unit) io" where
  "runSCPShellScriptNoOutput t script args =
     io_bind (runSCPShellScript t script scpShellOutputLimit args) (\<lambda>_. io_return ())"

section \<open>The operations\<close>

text \<open>A validation whose message is an error, and \<open>os.ErrNotExist\<close>.\<close>

definition io_check :: "string option \<Rightarrow> ('s, goerr, unit) io" where
  "io_check verdict =
     (case verdict of Some message \<Rightarrow> io_throw (errors_New message) | None \<Rightarrow> io_return ())"

definition io_result :: "string + 'a \<Rightarrow> ('s, goerr, 'a) io" where
  "io_result r = (case r of Inl message \<Rightarrow> io_throw (errors_New message) | Inr x \<Rightarrow> io_return x)"

definition ErrNotExist :: goerr where
  "ErrNotExist =
     GoErr \<lparr>node_text = ''file does not exist'', node_kind = KNotExist, node_fingerprints = None,
            node_timeout = None\<rparr> []"

fun first_home :: "string list \<Rightarrow> string" where
  "first_home [] = ''/''"
| "first_home (line # lines) =
     (let home = cleanRemotePath line
      in if HasPrefix home ''/'' \<and> \<not> ContainsAnyChar home [CHR 0x00, CHR 0x0D, CHR 0x0A]
         then home else first_home lines)"

definition resolveSCPShellHome :: "('s, 'h) shell_transport \<Rightarrow> ('s, goerr, string) io" where
  "resolveSCPShellHome t =
     io_bind (io_try (runSCPShellScript t scpShellResolveHomeScript 4096 [])) (\<lambda>r.
       case r of Inl err \<Rightarrow> io_return ''/''
       | Inr output \<Rightarrow> io_return (first_home (Split output (CHR 0x0A))))"

definition scpShellStat :: "('s, 'h) shell_transport \<Rightarrow> string \<Rightarrow> ('s, goerr, SFTPEntry) io" where
  "scpShellStat t remotePath =
     io_bind (io_check (validateSCPRemoteReadablePath remotePath)) (\<lambda>_.
     io_bind (io_try (runSCPShellStatScript t (scpShellPathArg remotePath))) (\<lambda>r.
       case r of
         Inl err \<Rightarrow> io_throw err
       | Inr (output, Some err) \<Rightarrow>
           if Contains output (''SP_ERROR'' @ [CHR 0x09] @ ''NOT_FOUND'') then io_throw ErrNotExist
           else io_throw err
       | Inr (output, None) \<Rightarrow>
           io_bind (io_result (parseSCPShellEntries (parentRemotePath remotePath) output)) (\<lambda>entries.
             case entries of
               [] \<Rightarrow> io_throw (errors_New (zh [83, 67, 80, 32, 20860, 23481, 27169, 24335, 26080, 27861, 35835, 21462, 36828, 31243, 25991, 20214, 23646, 24615]))
             | entry # _ \<Rightarrow> io_return entry)))"

record SFTPListResult =
  lr_ConnectionID :: int
  lr_ContextID :: string
  lr_Path :: string
  lr_ParentPath :: string
  lr_Entries :: "SFTPEntry list"

text \<open>Directories first, then by the name in lower case; the sort is stable.\<close>

definition sort_entries :: "SFTPEntry list \<Rightarrow> SFTPEntry list" where
  "sort_entries = sort_key (\<lambda>e. (\<not> se_IsDir e, ToLower (se_Name e)))"

definition scpShellList ::
  "('s, 'h) shell_transport \<Rightarrow> int \<Rightarrow> string \<Rightarrow> string \<Rightarrow> ('s, goerr, SFTPListResult) io" where
  "scpShellList t connectionID contextID remotePath =
     io_bind (io_check (validateSCPRemoteReadablePath remotePath)) (\<lambda>_.
     io_bind (runSCPShellScript t scpShellListScript scpShellOutputLimit [scpShellPathArg remotePath])
       (\<lambda>output.
     io_bind (io_result (parseSCPShellEntries remotePath output)) (\<lambda>entries.
       io_return \<lparr>lr_ConnectionID = connectionID, lr_ContextID = contextID, lr_Path = remotePath,
                  lr_ParentPath = parentRemotePath remotePath, lr_Entries = sort_entries entries\<rparr>)))"

definition scpShellMkdir :: "('s, 'h) shell_transport \<Rightarrow> string \<Rightarrow> ('s, goerr, unit) io" where
  "scpShellMkdir t remotePath =
     io_bind (io_check (validateSCPRemoteTarget remotePath)) (\<lambda>_.
       runSCPShellScriptNoOutput t scpShellMkdirScript [scpShellPathArg remotePath])"

definition scpShellChmod :: "('s, 'h) shell_transport \<Rightarrow> string \<Rightarrow> 32 word \<Rightarrow> ('s, goerr, unit) io" where
  "scpShellChmod t remotePath mode =
     io_bind (io_check (validateSCPRemoteTarget remotePath)) (\<lambda>_.
       runSCPShellScriptNoOutput t scpShellChmodScript
         [octal4 (unat (mode AND 0xFFF)), scpShellPathArg remotePath])"

definition scpShellRename :: "('s, 'h) shell_transport \<Rightarrow> string \<Rightarrow> string \<Rightarrow> ('s, goerr, unit) io" where
  "scpShellRename t oldPath newPath =
     io_bind (io_check (validateSCPRemoteTarget oldPath)) (\<lambda>_.
     io_bind (io_check (validateSCPRemoteTarget newPath)) (\<lambda>_.
       if baseRemotePath newPath = [] \<or> CHR ''/'' \<in> set (baseRemotePath newPath)
       then io_throw (errors_New (zh [83, 67, 80, 32, 20860, 23481, 27169, 24335, 21482, 25903, 25345, 21516, 30446, 24405, 23433, 20840, 37325, 21629, 21517]))
       else runSCPShellScriptNoOutput t scpShellRenameScript
              [scpShellPathArg oldPath, scpShellPathArg newPath]))"

text \<open>The arguments for a list of targets: the first that is refused decides.\<close>

fun target_args :: "string list \<Rightarrow> string + string list" where
  "target_args [] = Inr []"
| "target_args (remotePath # paths) =
     (case validateSCPRemoteTarget remotePath of
        Some err \<Rightarrow> Inl err
      | None \<Rightarrow> bind_res (target_args paths) (\<lambda>args. Inr (scpShellPathArg remotePath # args)))"

definition scpShellInspectDelete ::
  "('s, 'h) shell_transport \<Rightarrow> int \<Rightarrow> string \<Rightarrow> string list \<Rightarrow> ('s, goerr, SFTPInspectDeleteResponse) io" where
  "scpShellInspectDelete t connectionID contextID paths =
     (if paths = [] then io_throw (errors_New (zh [35831, 36873, 25321, 35201, 21024, 38500, 30340, 36828, 31243, 39033, 30446]))
      else io_bind (io_result (target_args paths)) (\<lambda>args.
           io_bind (runSCPShellScript t scpShellInspectDeleteScript scpShellOutputLimit args) (\<lambda>output.
             io_return (foldl inspect_line
               \<lparr>ir_ConnectionID = connectionID, ir_ContextID = contextID, ir_Paths = paths,
                ir_FileCount = 0, ir_DirectoryCount = 0, ir_SymlinkCount = 0, ir_TotalBytes = 0,
                ir_Warnings = [], ir_RequiresRecursive = False\<rparr>
               (Split (TrimRightChars output [CHR 0x0A]) (CHR 0x0A))))))"

definition scpShellDelete ::
  "('s, 'h) shell_transport \<Rightarrow> string list \<Rightarrow> bool \<Rightarrow> ('s, goerr, unit) io" where
  "scpShellDelete t paths recursive =
     (if paths = [] then io_throw (errors_New (zh [35831, 36873, 25321, 35201, 21024, 38500, 30340, 36828, 31243, 39033, 30446]))
      else io_bind (io_result (target_args paths)) (\<lambda>args.
             runSCPShellScriptNoOutput t scpShellDeleteScript
               ((if recursive then ''recursive'' else ''plain'') # args)))"

section \<open>What the remote shell reads\<close>

text \<open>
  How a POSIX shell splits a command line into words, as a reference: blanks separate words,
  single quotes keep everything up to the next one, a backslash outside them keeps the next
  character. A line with an unquoted character that means more than itself is not a plain list
  of words, and a command line holds no NUL: the reader then gives nothing.
\<close>

definition sh_blank :: "char \<Rightarrow> bool" where
  "sh_blank c \<longleftrightarrow> c = CHR 0x20 \<or> c = CHR 0x09"

definition sh_special :: "char \<Rightarrow> bool" where
  "sh_special c \<longleftrightarrow> c \<in> set (''|&;<>()$`*?[]#~%{}!='' @ [CHR 0x22, CHR 0x0A, CHR 0x0D, CHR 0x00])"

definition sh_more :: "string option \<Rightarrow> string \<Rightarrow> string" where
  "sh_more w s = (case w of None \<Rightarrow> s | Some x \<Rightarrow> x @ s)"

definition sh_word :: "string option \<Rightarrow> string list \<Rightarrow> string list" where
  "sh_word w ws = (case w of None \<Rightarrow> ws | Some x \<Rightarrow> x # ws)"

fun sh_scan :: "bool \<Rightarrow> string option \<Rightarrow> string \<Rightarrow> string list option" where
  "sh_scan True w [] = None"
| "sh_scan True w (c # s) =
     (if c = CHR 0x27 then sh_scan False w s
      else if c = CHR 0x00 then None
      else sh_scan True (Some (sh_more w [c])) s)"
| "sh_scan False w [] = Some (sh_word w [])"
| "sh_scan False w (c # s) =
     (if c = CHR 0x27 then sh_scan True (Some (sh_more w [])) s
      else if c = CHR 0x5C
        then (case s of
                [] \<Rightarrow> None
              | d # s' \<Rightarrow> if d = CHR 0x0A \<or> d = CHR 0x00 then None
                         else sh_scan False (Some (sh_more w [d])) s')
      else if sh_blank c then map_option (sh_word w) (sh_scan False None s)
      else if sh_special c then None
      else sh_scan False (Some (sh_more w [c])) s)"

definition sh_words :: "string \<Rightarrow> string list option" where
  "sh_words line = sh_scan False None line"

text \<open>A quoted argument, read inside the quotes and then whole, before any rest of the line.\<close>

lemma sh_scan_quoted:
  "CHR 0x00 \<notin> set a \<Longrightarrow>
   sh_scan True (Some x) (ReplaceChar a (CHR 0x27) [CHR 0x27, CHR 0x5C, CHR 0x27, CHR 0x27] @ CHR 0x27 # rest) =
   sh_scan False (Some (x @ a)) rest"
  by (induction a arbitrary: x) (auto simp: ReplaceChar_def sh_more_def)

lemma sh_scan_arg:
  "CHR 0x00 \<notin> set a \<Longrightarrow> sh_scan False None (QuotePOSIXArg a @ rest) = sh_scan False (Some a) rest"
  using sh_scan_quoted [of a "[]" rest] by (simp add: QuotePOSIXArg_def sh_more_def)

lemma sh_scan_args:
  "list_all (\<lambda>a. CHR 0x00 \<notin> set a) args \<Longrightarrow>
   sh_scan False (Some w) (concat (map (\<lambda>a. '' '' @ QuotePOSIXArg a) args)) = Some (w # args)"
  by (induction args arbitrary: w) (simp_all add: sh_word_def sh_blank_def sh_scan_arg)

text \<open>
  C26: The remote shell reads the command line of a script as \<open>sh\<close>, \<open>-s\<close>, \<open>--\<close> and exactly the
  arguments the code was given, whatever blanks, quotes, dollar signs or semicolons a remote
  path holds: a path cannot inject a command, and it cannot be taken for an option of the shell.
\<close>
theorem scp_commandText_words:
  "list_all (\<lambda>a. CHR 0x00 \<notin> set a) args \<Longrightarrow>
   sh_words (scp_commandText args) = Some ([''sh'', ''-s'', ''--''] @ args)"
proof -
  assume args: "list_all (\<lambda>a. CHR 0x00 \<notin> set a) args"
  show ?thesis
    using sh_scan_args [OF args, of "''--''"]
    by (simp add: sh_words_def scp_commandText_def sh_blank_def sh_special_def sh_more_def sh_word_def)
qed

lemma scp_commandText_words_witness:
  "sh_words (scp_commandText [''/tmp/a b; rm -rf $HOME'', [CHR 0x27, CHR ''&'']]) =
   Some [''sh'', ''-s'', ''--'', ''/tmp/a b; rm -rf $HOME'', [CHR 0x27, CHR ''&'']]"
  using scp_commandText_words [of "[''/tmp/a b; rm -rf $HOME'', [CHR 0x27, CHR ''&'']]"] by simp

section \<open>What the scripts print, read back\<close>

lemma octal_digits_length: "n < 8 ^ Suc k \<Longrightarrow> length (octal_digits n) \<le> Suc k"
proof (induction k arbitrary: n)
  case 0
  then show ?case by (subst octal_digits.simps) simp
next
  case (Suc k)
  then have "n div 8 < 8 ^ Suc k" by (simp add: less_mult_imp_div_less mult.commute)
  then have "length (octal_digits (n div 8)) \<le> Suc k" by (rule Suc.IH)
  then show ?case by (subst octal_digits.simps) simp
qed

lemma parse_octal_digits: "n < 2 ^ 64 \<Longrightarrow> parse_digits 8 0 (octal_digits n) = Inr n"
proof (induction n rule: octal_digits.induct)
  case (1 n)
  show ?case
  proof (cases "n < 8")
    case True
    then show ?thesis by (subst octal_digits.simps) (simp add: digit_val_digit_char)
  next
    case False
    then have IH: "parse_digits 8 0 (octal_digits (n div 8)) = Inr (n div 8)" using 1 by simp
    have "n div 8 * 8 + n mod 8 = n" by simp
    with False IH 1(2) show ?thesis
      by (subst octal_digits.simps) (simp add: parse_digits_append digit_val_digit_char)
  qed
qed

lemma octal_digits_chars: "c \<in> set (octal_digits n) \<Longrightarrow> \<exists>d < 8. c = digit_char d"
proof (induction n rule: octal_digits.induct)
  case (1 n)
  show ?case
  proof (cases "n < 8")
    case True
    then show ?thesis using "1.prems" by (subst (asm) octal_digits.simps) auto
  next
    case False
    then have "c \<in> set (octal_digits (n div 8)) \<or> c = digit_char (n mod 8)"
      using "1.prems" by (subst (asm) octal_digits.simps) auto
    then show ?thesis using "1.IH" [OF False] by (auto intro: exI [of _ "n mod 8"])
  qed
qed

lemma parse_zeros: "parse_digits 8 0 (replicate k (CHR ''0'') @ s) = parse_digits 8 0 s"
  by (induction k) (simp_all add: digit_val_def Let_def)

text \<open>
  The mode argument of the chmod script has exactly four octal digits, as the script demands,
  and read in octal it is the requested mode cut to its twelve bits.
\<close>
theorem chmod_argument:
  "length (octal4 (unat ((mode :: 32 word) AND 0xFFF))) = 4 \<and>
   list_all (\<lambda>c. list_ex (\<lambda>d. c = digit_char d) [0 ..< 8]) (octal4 (unat (mode AND 0xFFF))) \<and>
   ParseUint (octal4 (unat (mode AND 0xFFF))) 8 = Inr (unat mode mod 4096)"
proof -
  have mask: "unat (mode AND 0xFFF) = unat mode mod 4096"
  proof -
    have "mode AND 0xFFF = take_bit 12 mode" by (simp add: take_bit_eq_mask mask_eq_exp_minus_1)
    then have "unat (mode AND 0xFFF) = take_bit 12 (unat mode)" by (simp only: unsigned_take_bit_eq)
    then show ?thesis by (simp add: take_bit_eq_mod)
  qed
  let ?n = "unat mode mod 4096"
  have n: "?n < 8 ^ Suc 3" by simp
  then have small: "?n < 2 ^ 64" by simp
  have len: "length (octal_digits ?n) \<le> 4" using octal_digits_length [OF n] by simp
  have ne: "octal4 ?n \<noteq> []" using len by (auto simp: octal4_def)
  have chars: "\<exists>d < 8. c = digit_char d" if "c \<in> set (octal4 ?n)" for c
  proof -
    from that have "c \<in> set (octal_digits ?n) \<or> c = CHR ''0''" by (auto simp: octal4_def)
    moreover have "CHR ''0'' = digit_char 0" by code_simp
    ultimately show ?thesis using octal_digits_chars by (metis zero_less_numeral)
  qed
  have "parse_digits 8 0 (octal4 ?n) = Inr ?n"
    unfolding octal4_def parse_zeros by (rule parse_octal_digits [OF small])
  then have "ParseUint (octal4 ?n) 8 = Inr ?n" using ne by (simp add: ParseUint_def)
  moreover have "length (octal4 ?n) = 4" using len by (simp add: octal4_def)
  moreover have "list_all (\<lambda>c. list_ex (\<lambda>d. c = digit_char d) [0 ..< 8]) (octal4 ?n)"
    unfolding list_all_iff list_ex_iff by (metis chars atLeastLessThan_iff le0 set_upt)
  ultimately show ?thesis by (simp only: mask)
qed

text \<open>The fields of one line of \<open>emit_entry\<close>, and what the listing must make of it.\<close>

record emitted =
  em_Type :: string
  em_Size :: int
  em_MTime :: int
  em_Mode :: string
  em_User :: string
  em_Group :: string
  em_Name :: string

definition tab :: char where "tab = CHR 0x09"
definition newline :: char where "newline = CHR 0x0A"

definition emit_entry :: "emitted \<Rightarrow> string" where
  "emit_entry e = Join [''SP_ENTRY'', em_Type e, Itoa (em_Size e), Itoa (em_MTime e), em_Mode e,
                       em_User e, em_Group e, em_Name e] [tab]"

definition emitted_ok :: "emitted \<Rightarrow> bool" where
  "emitted_ok e \<longleftrightarrow>
     em_Type e \<in> {''file'', ''dir'', ''symlink''} \<and>
     - (2 ^ 63) \<le> em_Size e \<and> em_Size e < 2 ^ 63 \<and> - (2 ^ 63) \<le> em_MTime e \<and> em_MTime e < 2 ^ 63 \<and>
     list_all (\<lambda>f. tab \<notin> set f \<and> newline \<notin> set f) [em_Mode e, em_User e, em_Group e] \<and>
     newline \<notin> set (em_Name e)"

definition listed_entry :: "string \<Rightarrow> emitted \<Rightarrow> SFTPEntry" where
  "listed_entry parentPath e =
     \<lparr>se_Name = em_Name e, se_Path = joinRemotePath parentPath (em_Name e), se_ParentPath = parentPath,
      se_Size = of_int (em_Size e), se_IsDir = (em_Type e = ''dir''),
      se_IsSymlink = (em_Type e = ''symlink''), se_Permissions = em_Mode e,
      se_Owner = emptyAsUnknown (em_User e), se_Group = emptyAsUnknown (em_Group e),
      se_ModTime = (if em_MTime e > 0 then RFC3339Nano (em_MTime e * 1000000000) else [])\<rparr>"

definition printed :: "string list \<Rightarrow> string" where
  "printed ls = concat (map (\<lambda>l. l @ [newline]) ls)"

lemma printed_Join: "ls \<noteq> [] \<Longrightarrow> printed ls = Join ls [newline] @ [newline]"
  by (induction ls "[newline]" rule: Join.induct) (simp_all add: printed_def)

lemma last_Join: "ls \<noteq> [] \<Longrightarrow> [] \<notin> set ls \<Longrightarrow> last (Join ls sep) = last (last ls)"
  by (induction ls sep rule: Join.induct) (auto simp: Join_nonempty)

lemma TrimRightChars_snoc: "s \<noteq> [] \<Longrightarrow> last s \<noteq> c \<Longrightarrow> TrimRightChars (s @ [c]) [c] = s"
  by (cases s rule: rev_cases) (auto simp: TrimRightChars_def)

lemma printed_lines:
  assumes "list_all (\<lambda>l. l \<noteq> [] \<and> newline \<notin> set l) ls" "ls \<noteq> []"
  shows "Split (TrimRightChars (printed ls) [newline]) newline = ls"
proof -
  have ne: "[] \<notin> set ls" and each: "\<forall>l \<in> set ls. newline \<notin> set l" using assms by (auto simp: list_all_iff)
  have "last (Join ls [newline]) = last (last ls)" using assms(2) ne by (rule last_Join)
  also have "\<dots> \<noteq> newline" using each ne assms(2) by (metis last_in_set)
  finally show ?thesis
    using assms(2) ne each by (simp add: printed_Join TrimRightChars_snoc Join_nonempty Split_Join_inverse)
qed

lemma SplitN_Join:
  "ps \<noteq> [] \<Longrightarrow> list_all (\<lambda>p. c \<notin> set p) (butlast ps) \<Longrightarrow> SplitN (length ps) (Join ps [c]) c = ps"
proof (induction ps)
  case (Cons x xs)
  show ?case
  proof (cases xs)
    case (Cons y ys)
    then have "Cut (x @ c # Join xs [c]) c = Some (x, Join xs [c])"
      using Cons.prems by (simp add: Cut_Some_iff)
    with Cons Cons.IH Cons.prems show ?thesis by simp
  qed simp
qed simp

lemma Itoa_white: "tab \<notin> set (Itoa i)" "newline \<notin> set (Itoa i)"
proof -
  show "tab \<notin> set (Itoa i)" by (rule Itoa_noc) (simp_all add: tab_def digit_char_white(1) [symmetric])
  show "newline \<notin> set (Itoa i)" by (rule Itoa_noc) (simp_all add: newline_def digit_char_white(2) [symmetric])
qed

lemma emit_entry_parts: "emitted_ok e \<Longrightarrow> SplitN 8 (emit_entry e) tab =
   [''SP_ENTRY'', em_Type e, Itoa (em_Size e), Itoa (em_MTime e), em_Mode e, em_User e, em_Group e, em_Name e]"
proof -
  assume ok: "emitted_ok e"
  let ?ps = "[''SP_ENTRY'', em_Type e, Itoa (em_Size e), Itoa (em_MTime e), em_Mode e, em_User e, em_Group e, em_Name e]"
  have "list_all (\<lambda>p. tab \<notin> set p) (butlast ?ps)"
    using ok Itoa_white by (auto simp: emitted_ok_def tab_def)
  then have "SplitN (length ?ps) (Join ?ps [tab]) tab = ?ps" by (intro SplitN_Join) simp_all
  moreover have "length ?ps = 8" by simp
  ultimately show ?thesis unfolding emit_entry_def by metis
qed

lemma ParseInt_value_Itoa: "- (2 ^ 63) \<le> i \<Longrightarrow> i < 2 ^ 63 \<Longrightarrow> ParseInt_value (Itoa i) = i"
  by (simp add: ParseInt_value_def ParseInt_Itoa)

lemma emit_entry_text: "emitted_ok e \<Longrightarrow>
   emit_entry e \<noteq> [] \<and> newline \<notin> set (emit_entry e) \<and> TrimSpace (emit_entry e) \<noteq> [] \<and>
   \<not> HasPrefix (emit_entry e) (''SP_PATH'' @ [tab]) \<and> \<not> HasPrefix (emit_entry e) (''SP_ERROR'' @ [tab])"
proof -
  assume ok: "emitted_ok e"
  obtain rest where shape: "emit_entry e = ''SP_ENTRY'' @ tab # rest" by (simp add: emit_entry_def)
  then have "space_len (emit_entry e) = 0" by (simp add: space_len_0_iff space_runes_def)
  then have "TrimSpace (emit_entry e) \<noteq> []" using TrimSpace_empty shape by force
  moreover have "newline \<notin> set (emit_entry e)"
    using ok Itoa_white by (auto simp: emit_entry_def emitted_ok_def newline_def tab_def)
  ultimately show ?thesis using shape by (simp add: HasPrefix_def)
qed

lemma scp_entries_emitted:
  "list_all emitted_ok es \<Longrightarrow>
   scp_entries p (map emit_entry es) =
   Inr (map (listed_entry p) (filter (\<lambda>e. \<not> unsafeSCPEntryName (em_Name e)) es))"
proof (induction es)
  case (Cons e es)
  then have ok: "emitted_ok e" and rest: "list_all emitted_ok es" by simp_all
  have "scp_entry p [''SP_ENTRY'', em_Type e, Itoa (em_Size e), Itoa (em_MTime e), em_Mode e,
          em_User e, em_Group e, em_Name e] = listed_entry p e"
    using ok by (simp add: scp_entry_def listed_entry_def Let_def emitted_ok_def ParseInt_value_Itoa)
  with emit_entry_text [OF ok] emit_entry_parts [OF ok] Cons.IH [OF rest] show ?case
    by (simp add: tab_def)
qed simp

text \<open>
  C38: What the listing script prints for the entries of a directory, the server lists back: one
  entry for each line whose name is safe, in the order printed, with the name exactly as printed,
  tabs included, and the numbers of the file; nothing else.
\<close>
theorem parseSCPShellEntries_printed:
  "list_all emitted_ok es \<Longrightarrow> newline \<notin> set target \<Longrightarrow>
   parseSCPShellEntries p (printed ((''SP_PATH'' @ tab # target) # map emit_entry es)) =
   Inr (map (listed_entry p) (filter (\<lambda>e. \<not> unsafeSCPEntryName (em_Name e)) es))"
proof -
  assume es: "list_all emitted_ok es" and target: "newline \<notin> set target"
  let ?head = "''SP_PATH'' @ tab # target"
  have "list_all (\<lambda>l. l \<noteq> [] \<and> newline \<notin> set l) (?head # map emit_entry es)"
    using es target emit_entry_text by (auto simp: list_all_iff newline_def tab_def)
  from printed_lines [OF this] have
    "Split (TrimRightChars (printed (?head # map emit_entry es)) [newline]) newline = ?head # map emit_entry es"
    by simp
  with scp_entries_emitted [OF es, of p] show ?thesis
    by (simp add: parseSCPShellEntries_def newline_def tab_def HasPrefix_def)
qed

definition sample_printed :: "emitted list" where
  "sample_printed =
     [\<lparr>em_Type = ''dir'', em_Size = 4096, em_MTime = 0, em_Mode = ''755'', em_User = ''0'', em_Group = ''0'',
       em_Name = ''src''\<rparr>,
      \<lparr>em_Type = ''file'', em_Size = 12, em_MTime = 1, em_Mode = ''644'', em_User = ''-'', em_Group = ''0'',
       em_Name = ''a'' @ [tab] @ ''b''\<rparr>,
      \<lparr>em_Type = ''file'', em_Size = 12, em_MTime = 1, em_Mode = ''644'', em_User = ''0'', em_Group = ''0'',
       em_Name = [CHR 0x5C]\<rparr>]"

lemma parseSCPShellEntries_printed_witness:
  "parseSCPShellEntries ''/r'' (printed ((''SP_PATH'' @ tab # ''/r'') # map emit_entry sample_printed)) =
   Inr (map (listed_entry ''/r'') (take 2 sample_printed))"
proof -
  have ok: "list_all emitted_ok sample_printed"
    by (simp add: sample_printed_def emitted_ok_def tab_def newline_def)
  have "filter (\<lambda>e. \<not> unsafeSCPEntryName (em_Name e)) sample_printed = take 2 sample_printed" by code_simp
  with parseSCPShellEntries_printed [OF ok, of "''/r''" "''/r''"] show ?thesis by (simp add: newline_def)
qed

section \<open>The path of a request\<close>

lemma rooted_trim: "HasPrefix v ''/'' \<Longrightarrow> HasPrefix (TrimSpace v) ''/''"
proof -
  assume "HasPrefix v ''/''"
  then obtain r where v: "v = CHR ''/'' # r" by (auto elim: HasPrefixE)
  then have len: "space_len v = 0" by (simp add: space_len_0_iff space_runes_def)
  then have "TrimSpace v \<noteq> []" using TrimSpace_empty [of v] v by auto
  moreover have "prefix (TrimSpace v) v"
    using TrimRightSpace_prefix [of v] len by (simp add: TrimSpace_def TrimLeftSpace.simps [of v])
  ultimately show ?thesis using v by (cases "TrimSpace v") (auto simp: HasPrefix_def)
qed

lemma rooted_slashed: "HasPrefix v ''/'' \<Longrightarrow> HasPrefix (slashed v) ''/''"
  by (cases v) (auto simp: slashed_def ReplaceChar_def HasPrefix_def)

lemma rooted_clean: "HasPrefix (TrimSpace (slashed v)) ''/'' \<Longrightarrow> HasPrefix (cleanRemotePath v) ''/''"
  using path_Clean_rooted [of "TrimSpace (slashed v)"]
  by (auto simp: cleanRemotePath_def Let_def HasPrefix_def)

lemma rooted_cleanRemotePath: "HasPrefix v ''/'' \<Longrightarrow> HasPrefix (cleanRemotePath v) ''/''"
  by (intro rooted_clean rooted_trim rooted_slashed)

lemma rooted_joinRemotePath: "HasPrefix base ''/'' \<Longrightarrow> HasPrefix (joinRemotePath base name) ''/''"
proof -
  assume "HasPrefix base ''/''"
  then have base: "HasPrefix (cleanRemotePath base) ''/''" by (rule rooted_cleanRemotePath)
  then have "HasPrefix (path_Join (cleanRemotePath base) n) ''/''" for n
    using path_Clean_rooted [of "cleanRemotePath base @ CHR ''/'' # n"]
    by (cases "cleanRemotePath base") (auto simp: path_Join_def HasPrefix_def)
  with base show ?thesis
    by (auto simp: joinRemotePath_def Let_def intro: rooted_cleanRemotePath) (simp add: HasPrefix_def)
qed

lemma rooted_resolve:
  "HasPrefix base ''/'' \<Longrightarrow> c \<noteq> ''.'' \<Longrightarrow> \<not> HasPrefix c ''./'' \<Longrightarrow> TrimSpace (slashed c) = c \<Longrightarrow>
   HasPrefix (resolveRemotePath base c) ''/''"
  by (auto simp: resolveRemotePath_def Let_def intro: rooted_cleanRemotePath rooted_joinRemotePath)

lemma strip_dots_done: "strip_dots c \<noteq> ''.'' \<and> \<not> HasPrefix (strip_dots c) ''./''"
proof (induction c rule: strip_dots.induct)
  case (1 c)
  then show ?case by (auto simp: strip_dots.simps [of c] HasPrefix_def)
qed

lemma set_strip_dots: "set (strip_dots c) \<subseteq> set c"
proof (induction c rule: strip_dots.induct)
  case (1 c)
  show ?case
  proof (cases "HasPrefix c ''./'' \<and> c \<noteq> ''./''")
    case True
    moreover from this have "c \<noteq> ''.''" by (auto simp: HasPrefix_def)
    ultimately have "set (strip_dots (TrimPrefix c ''./'')) \<subseteq> set (TrimPrefix c ''./'')" using 1 by auto
    also have "\<dots> \<subseteq> set c" by (simp add: TrimPrefix_def set_drop_subset)
    finally show ?thesis using True by (auto simp: strip_dots.simps [of c])
  next
    case False
    then show ?thesis by (auto simp: strip_dots.simps [of c])
  qed
qed

lemma slashed_no_backslash: "CHR 0x5C \<notin> set (slashed v)"
  by (auto simp: slashed_def ReplaceChar_def)

lemma slashed_relative: "slashed (normalizeSCPRelativePath raw) = normalizeSCPRelativePath raw"
  using set_strip_dots [of "TrimSpace (slashed raw)"] set_TrimSpace [of "slashed raw"]
    slashed_no_backslash [of raw]
  by (intro slashed_id) (auto simp: normalizeSCPRelativePath_def)

text \<open>
  A request in the shell mode whose base is absolute names an absolute path: the result is
  not the root, holds no NUL and no line end, and the argument for the scripts is that absolute
  path cleaned, so no tool of the remote shell can take it for an option. The request may not
  put white space right after leading \<open>./\<close>, which the code strips only once.
\<close>
theorem normalizeSCPRequestPath_absolute:
  "HasPrefix base ''/'' \<Longrightarrow>
   TrimSpace (normalizeSCPRelativePath raw) = normalizeSCPRelativePath raw \<Longrightarrow>
   normalizeSCPRequestPath base raw False = Inr p \<Longrightarrow>
   HasPrefix p ''/'' \<and> p \<noteq> ''/'' \<and> \<not> ContainsAnyChar p [CHR 0x00, CHR 0x0D, CHR 0x0A] \<and>
   scpShellPathArg p = cleanRemotePath p \<and> HasPrefix (scpShellPathArg p) ''/''"
proof -
  assume base: "HasPrefix base ''/''"
    and trimmed: "TrimSpace (normalizeSCPRelativePath raw) = normalizeSCPRelativePath raw"
    and result: "normalizeSCPRequestPath base raw False = Inr p"
  let ?c = "normalizeSCPRelativePath raw"
  have c: "?c \<noteq> ''.''" "\<not> HasPrefix ?c ''./''"
    using strip_dots_done [of "TrimSpace (slashed raw)"] by (simp_all add: normalizeSCPRelativePath_def)
  have rooted: "HasPrefix (resolveRemotePath base ?c) ''/''"
    using rooted_resolve [OF base c] trimmed slashed_relative by simp
  then have here: "resolveRemotePath base ?c \<noteq> ''.''" by (auto simp: HasPrefix_def)
  define bad where "bad = [CHR 0x00, CHR 0x0D, CHR 0x0A]"
  define q where "q = resolveRemotePath base ?c"
  have "normalizeSCPRequestPath base raw False = Inr p \<Longrightarrow>
    q = p \<and> \<not> ContainsAnyChar q bad \<and> validateSCPRemoteTarget q = None"
    using here unfolding normalizeSCPRequestPath_def Let_def q_def [symmetric] bad_def [symmetric]
    by (simp split: if_split_asm option.split_asm)
  with result have p: "p = resolveRemotePath base ?c" and safe: "\<not> ContainsAnyChar p [CHR 0x00, CHR 0x0D, CHR 0x0A]"
    and valid: "validateSCPRemoteTarget p = None"
    by (auto simp: q_def bad_def)
  have "HasPrefix (cleanRemotePath p) ''/''" using rooted p by (simp add: rooted_cleanRemotePath)
  moreover have "p \<noteq> ''/''"
  proof
    assume "p = ''/''"
    moreover have "cleanRemotePath ''/'' = ''/''" by code_simp
    then have "validateSCPRemoteTarget ''/'' \<noteq> None" by (simp add: validateSCPRemoteTarget_def)
    ultimately show False using valid by simp
  qed
  ultimately show ?thesis using rooted p safe by (simp add: scpShellPathArg_def)
qed

lemma normalizeSCPRequestPath_absolute_witness:
  "normalizeSCPRequestPath ''/home/u'' ''./-rf'' False = Inr ''/home/u/-rf'' \<and>
   HasPrefix (scpShellPathArg ''/home/u/-rf'') ''/''"
proof -
  have "normalizeSCPRequestPath ''/home/u'' ''./-rf'' False = Inr ''/home/u/-rf''" by code_simp
  moreover have "HasPrefix ''/home/u'' ''/''" "TrimSpace (normalizeSCPRelativePath ''./-rf'') = normalizeSCPRelativePath ''./-rf''"
    by code_simp+
  ultimately show ?thesis using normalizeSCPRequestPath_absolute [of "''/home/u''" "''./-rf''" "''/home/u/-rf''"] by blast
qed

text \<open>
  What the precondition is for: a space after the dots makes the path relative to whatever
  directory the remote shell starts in, and a space after a double dot hides it from the check.
\<close>

lemma normalizeSCPRequestPath_spaces:
  "normalizeSCPRequestPath ''/srv/app'' ''./ ./x'' False = Inr ''x''"
  "normalizeSCPRequestPath ''/srv/app'' ''.. '' False = Inr ''/srv''"
  by code_simp+

text \<open>A list of targets is accepted as a whole or not at all, before any command is started.\<close>

lemma target_args_Inr_iff:
  "target_args paths = Inr args \<longleftrightarrow>
   list_all (\<lambda>p. validateSCPRemoteTarget p = None) paths \<and> args = map scpShellPathArg paths"
  by (induction paths arbitrary: args) (auto simp: bind_res_Inr_iff split: option.splits)

lemma target_args_Inl: "list_ex (\<lambda>p. validateSCPRemoteTarget p \<noteq> None) paths \<Longrightarrow> \<exists>e. target_args paths = Inl e"
  by (cases "target_args paths") (auto simp: target_args_Inr_iff list_all_iff list_ex_iff)

text \<open>
  A delete or an inspection in the shell mode with one target that is the root, the session's
  directory or holds a double dot starts no command at all: the server is left as it was, and
  the caller gets an error, whatever the other targets are.
\<close>
theorem scp_delete_all_or_nothing:
  "list_ex (\<lambda>p. validateSCPRemoteTarget p \<noteq> None) paths \<Longrightarrow>
   (\<exists>e. scpShellDelete t paths recursive s = Some (Inl e, s)) \<and>
   (\<exists>e. scpShellInspectDelete t connectionID contextID paths s = Some (Inl e, s))"
  using target_args_Inl [of paths]
  by (auto simp: scpShellDelete_def scpShellInspectDelete_def io_result_def io_bind_def io_throw_def)

definition no_transport :: "(unit, unit) shell_transport" where
  "no_transport =
     \<lparr>tr_StartCommand = (\<lambda>c s. (Inr (), s)), cmd_WriteString = (\<lambda>h x s. (Inr (), s)),
      cmd_CloseStdin = (\<lambda>h s. (Inr (), s)), cmd_Stdout = (\<lambda>h n s. (Inr [], s)),
      cmd_Wait = (\<lambda>h s. (Inr (), s)), cmd_Close = (\<lambda>h s. s)\<rparr>"

lemma scp_delete_all_or_nothing_witness:
  "\<exists>e. scpShellDelete no_transport [''/tmp/a'', ''/tmp/..''] True () = Some (Inl e, ())"
proof -
  have "hasParentTraversal ''/tmp/..''" by code_simp
  then have "list_ex (\<lambda>p. validateSCPRemoteTarget p \<noteq> None) [''/tmp/a'', ''/tmp/..'']"
    by (simp add: validateSCPRemoteTarget_def)
  from scp_delete_all_or_nothing [OF this, of no_transport True "()"] show ?thesis by (rule conjunct1)
qed

end
