(* ===== verification/SftpTransfer.thy ===== *)
theory SftpTransfer
  imports SftpDelete
begin

text \<open>
  Package \<open>internal/sftpmanager\<close>, the control of a transfer (\<open>manager_transfer.go\<close>, the progress
  updates of \<open>recursive_transfer.go\<close>): pausing, resuming, canceling, the goroutine that waits
  while paused, and how a transfer ends. The operations of the window and the goroutine meet at
  the transfer's mutex; a critical section is one step. The percentage and the speed are floating
  point numbers that only the display reads, and are left out.
\<close>

section \<open>The state of a transfer\<close>

datatype SFTPMode = SFTPModeSFTP | SFTPModeSCP | SFTPModeOther string

record SFTPTransferState =
  ts_ID :: string
  ts_ConnectionID :: int
  ts_ContextID :: string
  ts_TerminalSessionID :: string
  ts_Generation :: int
  ts_Mode :: SFTPMode
  ts_Direction :: SFTPTransferDirection
  ts_Recursive :: bool
  ts_SourceType :: string
  ts_LocalPath :: string
  ts_RemotePath :: string
  ts_FileName :: string
  ts_CurrentFile :: string
  ts_TotalBytes :: int
  ts_TransferredBytes :: int
  ts_CurrentFileBytesDone :: int
  ts_CurrentFileBytesTotal :: int
  ts_ResumeOffset :: int
  ts_FilesTotal :: int
  ts_FilesDone :: int
  ts_FailedCount :: int
  ts_SkippedCount :: int
  ts_Status :: SFTPTransferStatus
  ts_ErrorMessage :: string
  ts_PauseRequested :: bool
  ts_CanPause :: bool
  ts_CanResume :: bool
  ts_CanCancel :: bool
  ts_Cancelable :: bool
  ts_StartedAt :: string
  ts_FinishedAt :: string

definition isTransferCancelable :: "SFTPTransferStatus \<Rightarrow> bool" where
  "isTransferCancelable status \<longleftrightarrow>
     status \<in> {SFTPTransferQueued, SFTPTransferPlanning, SFTPTransferRunning, SFTPTransferPausing,
               SFTPTransferPaused, SFTPTransferResuming}"

definition applyTransferControls :: "SFTPTransferState \<Rightarrow> SFTPTransferState" where
  "applyTransferControls st =
     st\<lparr>ts_CanPause := ts_Status st \<in> {SFTPTransferQueued, SFTPTransferPlanning, SFTPTransferRunning,
                                       SFTPTransferResuming},
        ts_CanResume := ts_Status st = SFTPTransferPaused,
        ts_CanCancel := isTransferCancelable (ts_Status st),
        ts_Cancelable := isTransferCancelable (ts_Status st)\<rparr>"

text \<open>
  A transfer: its state, the channel a paused goroutine waits on, and whether its context was
  canceled. A channel is a number.
\<close>

record transfer =
  tf_state :: SFTPTransferState
  tf_conflictPolicy :: SFTPConflictPolicy
  tf_resumeCh :: "nat option"
  tf_canceled :: bool

definition updateTransfer :: "(SFTPTransferState \<Rightarrow> SFTPTransferState) \<Rightarrow> transfer \<Rightarrow> transfer" where
  "updateTransfer mutate item = item\<lparr>tf_state := applyTransferControls (mutate (tf_state item))\<rparr>"

definition transfer_final :: "SFTPTransferStatus \<Rightarrow> bool" where
  "transfer_final status \<longleftrightarrow>
     status \<in> {SFTPTransferCompleted, SFTPTransferPartialFailed, SFTPTransferFailed,
               SFTPTransferCanceled, SFTPTransferSkipped}"

definition transfer_status_text :: "SFTPTransferStatus \<Rightarrow> string" where
  "transfer_status_text status =
     (case status of
        SFTPTransferQueued \<Rightarrow> ''queued'' | SFTPTransferPlanning \<Rightarrow> ''planning''
      | SFTPTransferRunning \<Rightarrow> ''running'' | SFTPTransferPausing \<Rightarrow> ''pausing''
      | SFTPTransferPaused \<Rightarrow> ''paused'' | SFTPTransferResuming \<Rightarrow> ''resuming''
      | SFTPTransferCompleted \<Rightarrow> ''completed'' | SFTPTransferPartialFailed \<Rightarrow> ''partial_failed''
      | SFTPTransferFailed \<Rightarrow> ''failed'' | SFTPTransferCanceled \<Rightarrow> ''canceled''
      | SFTPTransferSkipped \<Rightarrow> ''skipped'')"

section \<open>The operations of the window\<close>

text \<open>The new transfer, and an error or the status of the response.\<close>

definition PauseTransfer :: "transfer \<Rightarrow> transfer \<times> (string + SFTPTransferStatus)" where
  "PauseTransfer item =
     (let st = tf_state item in
      if ts_Status st \<in> {SFTPTransferPaused, SFTPTransferPausing}
        then (updateTransfer (\<lambda>s. s) item, Inr (ts_Status st))
      else if ts_Status st \<in> {SFTPTransferQueued, SFTPTransferPlanning, SFTPTransferRunning,
                              SFTPTransferResuming}
        then (updateTransfer
                (\<lambda>s. let s = s\<lparr>ts_PauseRequested := True, ts_Status := SFTPTransferPausing\<rparr>
                     in if ts_Mode s = SFTPModeSCP
                        then s\<lparr>ts_ErrorMessage := (zh [83, 67, 80, 32, 27169, 24335, 23558, 22312, 24403, 21069, 25991, 20214, 23436, 25104, 21518, 26242, 20572])\<rparr> else s) item,
              Inr SFTPTransferPausing)
      else (item, Inl ((zh [20256, 36755, 24050, 32467, 26463, 65292, 26080, 27861, 26242, 20572, 65288, 24403, 21069, 29366, 24577, 65306]) @ transfer_status_text (ts_Status st) @ (zh [65289]))))"

text \<open>The third result is the channel the call is about to close.\<close>

definition ResumeTransfer ::
  "transfer \<Rightarrow> transfer \<times> (string + SFTPTransferStatus) \<times> nat option" where
  "ResumeTransfer item =
     (let st = tf_state item in
      if ts_Status st = SFTPTransferPaused
        then (updateTransfer (\<lambda>s. s\<lparr>ts_PauseRequested := False, ts_Status := SFTPTransferResuming,
                                    ts_ErrorMessage := []\<rparr>) (item\<lparr>tf_resumeCh := None\<rparr>),
              Inr SFTPTransferResuming, tf_resumeCh item)
      else if ts_Status st = SFTPTransferPausing
        then let next = (if tf_resumeCh item \<noteq> None then SFTPTransferResuming else SFTPTransferRunning)
             in (updateTransfer (\<lambda>s. s\<lparr>ts_Status := next, ts_PauseRequested := False,
                                       ts_ErrorMessage := []\<rparr>) (item\<lparr>tf_resumeCh := None\<rparr>),
                 Inr next, tf_resumeCh item)
      else if ts_Status st \<in> {SFTPTransferRunning, SFTPTransferPlanning, SFTPTransferQueued,
                              SFTPTransferResuming}
        then (updateTransfer (\<lambda>s. s\<lparr>ts_PauseRequested := False\<rparr>) item, Inr (ts_Status st), None)
      else (item, Inl ((zh [24403, 21069, 29366, 24577, 26080, 27861, 32487, 32493, 65306]) @ transfer_status_text (ts_Status st)), None))"

definition CancelTransfer :: "transfer \<Rightarrow> transfer" where
  "CancelTransfer item = item\<lparr>tf_canceled := True\<rparr>"

text \<open>\<open>transferForControl\<close>: which transfer a request may control.\<close>

definition transferForControl ::
  "(string \<Rightarrow> transfer option) \<Rightarrow> int \<Rightarrow> string \<Rightarrow> string \<Rightarrow> string + transfer" where
  "transferForControl transfers connectionID contextID transferID =
     (let transferID = TrimSpace transferID in
      if transferID = [] then Inl (zh [20256, 36755, 20219, 21153, 19981, 23384, 22312])
      else case transfers transferID of
          None \<Rightarrow> Inl (zh [20256, 36755, 20219, 21153, 19981, 23384, 22312])
        | Some item \<Rightarrow>
            if ts_ConnectionID (tf_state item) \<noteq> connectionID then Inl (zh [20256, 36755, 20219, 21153, 19981, 23646, 20110, 24403, 21069, 26381, 21153, 22120])
            else if ts_ContextID (tf_state item) \<noteq> normalizeContextID connectionID contextID
              then Inl (zh [20256, 36755, 20219, 21153, 19981, 23646, 20110, 24403, 21069, 32, 83, 70, 84, 80, 32, 19978, 19979, 25991])
            else Inr item)"

section \<open>The goroutine\<close>

definition start_state :: "string \<Rightarrow> SFTPTransferState \<Rightarrow> SFTPTransferState" where
  "start_state now st =
     (if ts_Recursive st
      then st\<lparr>ts_Status := SFTPTransferPlanning, ts_CurrentFile := (zh [25195, 25551, 20013]), ts_StartedAt := now\<rparr>
      else st\<lparr>ts_Status := SFTPTransferRunning, ts_StartedAt := now\<rparr>)"

text \<open>
  \<open>waitIfPaused\<close> up to the wait: the channel to wait on, made if there is none yet (\<open>fresh\<close> is
  its number), or nothing when no pause is requested.
\<close>

definition wait_enter :: "nat \<Rightarrow> int \<Rightarrow> transfer \<Rightarrow> transfer \<times> nat option" where
  "wait_enter fresh offset item =
     (if \<not> ts_PauseRequested (tf_state item) then (item, None)
      else let ch = (case tf_resumeCh item of None \<Rightarrow> fresh | Some ch \<Rightarrow> ch)
        in (updateTransfer
              (\<lambda>s. let s = s\<lparr>ts_Status := SFTPTransferPaused\<rparr>
                   in if offset \<ge> 0
                      then s\<lparr>ts_ResumeOffset := offset, ts_CurrentFileBytesDone := offset\<rparr> else s)
              (item\<lparr>tf_resumeCh := Some ch\<rparr>), Some ch))"

text \<open>The update after a resume.\<close>

definition wait_leave :: "transfer \<Rightarrow> transfer" where
  "wait_leave = updateTransfer (\<lambda>s.
     (if ts_Status s \<in> {SFTPTransferPaused, SFTPTransferResuming}
      then s\<lparr>ts_Status := SFTPTransferRunning\<rparr> else s)
     \<lparr>ts_PauseRequested := False, ts_ErrorMessage := []\<rparr>)"

definition finish_state ::
  "string \<Rightarrow> SFTPTransferStatus \<Rightarrow> string \<Rightarrow> SFTPTransferState \<Rightarrow> SFTPTransferState" where
  "finish_state now status message st =
     (let st = st\<lparr>ts_Status := status, ts_FinishedAt := now, ts_ErrorMessage := message,
                  ts_Cancelable := False\<rparr>
      in if status \<in> {SFTPTransferCompleted, SFTPTransferPartialFailed}
         then let st = (if \<not> ts_Recursive st \<or> ts_TransferredBytes st \<ge> ts_TotalBytes st
                        then st\<lparr>ts_TransferredBytes := ts_TotalBytes st\<rparr> else st)
              in if ts_FilesTotal st > 0 \<and> ts_FilesDone st < ts_FilesTotal st
                 then st\<lparr>ts_FilesDone := ts_FilesTotal st\<rparr> else st
         else st)"

definition finishTransfer :: "string \<Rightarrow> SFTPTransferStatus \<Rightarrow> string \<Rightarrow> transfer \<Rightarrow> transfer" where
  "finishTransfer now status message = updateTransfer (finish_state now status message)"

text \<open>How \<open>runTransfer\<close> ends once its work returned an error or nothing.\<close>

definition end_transfer :: "string \<Rightarrow> goerr option \<Rightarrow> transfer \<Rightarrow> transfer" where
  "end_transfer now err item =
     (case err of
        Some e \<Rightarrow>
          if errors_Is KCanceled e \<or> tf_canceled item
          then finishTransfer now SFTPTransferCanceled (zh [20256, 36755, 24050, 21462, 28040]) item
          else finishTransfer now SFTPTransferFailed (sce_message (classifySFTPError e)) item
      | None \<Rightarrow>
          if ts_FailedCount (tf_state item) > 0
          then finishTransfer now SFTPTransferPartialFailed (zh [37096, 20998, 25991, 20214, 20256, 36755, 22833, 36133]) item
          else finishTransfer now SFTPTransferCompleted [] item)"

text \<open>The updates the work makes on its way.\<close>

datatype progress =
    ProgressBytes int
  | FileTotal int
  | NewFile int
  | FileBytes int
  | CurrentFile string
  | PlanApplied "(string \<times> string) option" int nat int
  | RecursiveBytes int
  | FileFinished string int
  | FileSkipped string bool
  | FileFailed string goerr bool

definition baseTransferName :: "SFTPTransferState \<Rightarrow> string" where
  "baseTransferName st =
     (if ts_Direction st = SFTPTransferUpload then path_Base (path_Clean (ts_LocalPath st))
      else baseRemotePath (ts_RemotePath st))"

fun progress_state :: "progress \<Rightarrow> SFTPTransferState \<Rightarrow> SFTPTransferState" where
  "progress_state (ProgressBytes done) st =
     st\<lparr>ts_TransferredBytes := done, ts_CurrentFileBytesDone := done, ts_ResumeOffset := done\<rparr>"
| "progress_state (FileTotal n) st = st\<lparr>ts_CurrentFileBytesTotal := n\<rparr>"
| "progress_state (NewFile n) st =
     st\<lparr>ts_CurrentFileBytesTotal := n, ts_CurrentFileBytesDone := 0, ts_ResumeOffset := 0\<rparr>"
| "progress_state (FileBytes done) st = st\<lparr>ts_CurrentFileBytesDone := done, ts_ResumeOffset := done\<rparr>"
| "progress_state (CurrentFile name) st = st\<lparr>ts_CurrentFile := name\<rparr>"
| "progress_state (PlanApplied root bytes files skipped) st =
     (let st = (case root of
                  Some (remote, localPath) \<Rightarrow>
                    let st = st\<lparr>ts_RemotePath := remote, ts_LocalPath := localPath\<rparr>
                    in st\<lparr>ts_FileName := baseTransferName st\<rparr>
                | None \<Rightarrow> st)
      in st\<lparr>ts_Status := SFTPTransferRunning, ts_TotalBytes := bytes, ts_FilesTotal := int files,
            ts_FilesDone := 0, ts_SkippedCount := ts_SkippedCount st + skipped, ts_CurrentFile := []\<rparr>)"
| "progress_state (RecursiveBytes done) st = st\<lparr>ts_TransferredBytes := done\<rparr>"
| "progress_state (FileFinished name done) st =
     st\<lparr>ts_CurrentFile := name, ts_FilesDone := ts_FilesDone st + 1, ts_TransferredBytes := done\<rparr>"
| "progress_state (FileSkipped name counts) st =
     (let st = st\<lparr>ts_CurrentFile := name, ts_SkippedCount := ts_SkippedCount st + 1\<rparr>
      in if counts then st\<lparr>ts_FilesDone := ts_FilesDone st + 1\<rparr> else st)"
| "progress_state (FileFailed name err counts) st =
     (let st = st\<lparr>ts_CurrentFile := name, ts_FailedCount := ts_FailedCount st + 1\<rparr>;
          st = (if counts then st\<lparr>ts_FilesDone := ts_FilesDone st + 1\<rparr> else st)
      in st\<lparr>ts_ErrorMessage := sce_message (classifySFTPError err)\<rparr>)"

section \<open>Starting a transfer\<close>

record SFTPTransferRequest =
  tq_ConnectionID :: int
  tq_ContextID :: string
  tq_TerminalSessionID :: string
  tq_LocalPath :: string
  tq_RemotePath :: string
  tq_ConflictPolicy :: SFTPConflictPolicy

text \<open>The parts of the session that go into the state of its transfers.\<close>

record transfer_session =
  sx_contextID :: string
  sx_terminalSessionID :: string
  sx_generation :: int
  sx_mode :: SFTPMode

definition startTransfer ::
  "string \<Rightarrow> string \<Rightarrow> transfer_session \<Rightarrow> SFTPTransferDirection \<Rightarrow> SFTPTransferRequest \<Rightarrow> int \<Rightarrow>
   string \<Rightarrow> string \<Rightarrow> bool \<Rightarrow> transfer" where
  "startTransfer newID now current direction request bytes fileName sourceType recursive =
     \<lparr>tf_state = applyTransferControls
        \<lparr>ts_ID = newID, ts_ConnectionID = tq_ConnectionID request,
         ts_ContextID = sx_contextID current, ts_TerminalSessionID = sx_terminalSessionID current,
         ts_Generation = sx_generation current, ts_Mode = sx_mode current,
         ts_Direction = direction, ts_Recursive = recursive, ts_SourceType = sourceType,
         ts_LocalPath = tq_LocalPath request, ts_RemotePath = tq_RemotePath request,
         ts_FileName = fileName, ts_CurrentFile = [], ts_TotalBytes = bytes,
         ts_TransferredBytes = 0, ts_CurrentFileBytesDone = 0, ts_CurrentFileBytesTotal = bytes,
         ts_ResumeOffset = 0, ts_FilesTotal = (if recursive then 0 else 1), ts_FilesDone = 0,
         ts_FailedCount = 0, ts_SkippedCount = 0, ts_Status = SFTPTransferQueued,
         ts_ErrorMessage = [], ts_PauseRequested = False, ts_CanPause = False,
         ts_CanResume = False, ts_CanCancel = False, ts_Cancelable = True, ts_StartedAt = now,
         ts_FinishedAt = []\<rparr>,
      tf_conflictPolicy = tq_ConflictPolicy request, tf_resumeCh = None, tf_canceled = False\<rparr>"

section \<open>The transfer and the window, interleaved\<close>

text \<open>
  Where the goroutine is: waiting for the session's slot; about to look for a pause request, at
  an offset; working; waiting on a channel; woken, with the check before resuming to do; on its
  way out with an error or none; ended.
\<close>

datatype transfer_pc =
    TpQueued
  | TpCheck int
  | TpWork
  | TpBlocked nat int
  | TpWoken
  | TpEnding "goerr option"
  | TpEnded

text \<open>
  \<open>tw_closing\<close> are the channels that calls of \<open>ResumeTransfer\<close> have taken and not closed yet,
  \<open>tw_closed\<close> the closed ones.
\<close>

record transfer_world =
  tw_item :: transfer
  tw_pc :: transfer_pc
  tw_next :: nat
  tw_closing :: "nat list"
  tw_closed :: "nat list"

definition ErrCanceled :: goerr where
  "ErrCanceled =
     GoErr \<lparr>node_text = ''context canceled'', node_kind = KCanceled, node_fingerprints = None,
            node_timeout = None\<rparr> []"

definition go_on :: "transfer_world \<Rightarrow> transfer_world" where
  "go_on w = w\<lparr>tw_pc := (if tf_canceled (tw_item w) then TpEnding (Some ErrCanceled) else TpWork)\<rparr>"

inductive transfer_step :: "transfer_world \<Rightarrow> transfer_world \<Rightarrow> bool" where
  Pause: "transfer_step w (w\<lparr>tw_item := fst (PauseTransfer (tw_item w))\<rparr>)"
| Resume: "ResumeTransfer (tw_item w) = (item, response, ch) \<Longrightarrow>
    transfer_step w (w\<lparr>tw_item := item,
      tw_closing := (case ch of None \<Rightarrow> tw_closing w | Some c \<Rightarrow> c # tw_closing w)\<rparr>)"
| Close: "ch \<in> set (tw_closing w) \<Longrightarrow>
    transfer_step w (w\<lparr>tw_closing := remove1 ch (tw_closing w), tw_closed := ch # tw_closed w\<rparr>)"
| Cancel: "transfer_step w (w\<lparr>tw_item := CancelTransfer (tw_item w)\<rparr>)"
| Slot: "tw_pc w = TpQueued \<Longrightarrow> \<not> tf_canceled (tw_item w) \<Longrightarrow>
    transfer_step w (w\<lparr>tw_item := updateTransfer (start_state now) (tw_item w), tw_pc := TpCheck (-1)\<rparr>)"
| NoSlot: "tw_pc w = TpQueued \<Longrightarrow> tf_canceled (tw_item w) \<Longrightarrow>
    transfer_step w (w\<lparr>tw_item := finishTransfer now SFTPTransferCanceled (zh [20256, 36755, 24050, 21462, 28040]) (tw_item w),
                       tw_pc := TpEnded\<rparr>)"
| NotPaused: "tw_pc w = TpCheck offset \<Longrightarrow> wait_enter (tw_next w) offset (tw_item w) = (item, None) \<Longrightarrow>
    transfer_step w (go_on (w\<lparr>tw_item := item\<rparr>))"
| Paused: "tw_pc w = TpCheck offset \<Longrightarrow> wait_enter (tw_next w) offset (tw_item w) = (item, Some ch) \<Longrightarrow>
    transfer_step w (w\<lparr>tw_item := item, tw_pc := TpBlocked ch offset,
      tw_next := (if tf_resumeCh (tw_item w) = None then tw_next w + 1 else tw_next w)\<rparr>)"
| Wake: "tw_pc w = TpBlocked ch offset \<Longrightarrow> ch \<in> set (tw_closed w) \<Longrightarrow> transfer_step w (w\<lparr>tw_pc := TpWoken\<rparr>)"
| WaitCanceled: "tw_pc w = TpBlocked ch offset \<Longrightarrow> tf_canceled (tw_item w) \<Longrightarrow>
    transfer_step w (w\<lparr>tw_pc := TpEnding (Some ErrCanceled)\<rparr>)"
| Resumed: "tw_pc w = TpWoken \<Longrightarrow> transfer_step w (go_on (w\<lparr>tw_item := wait_leave (tw_item w)\<rparr>))"
| ResumeFailed: "tw_pc w = TpWoken \<Longrightarrow> transfer_step w (w\<lparr>tw_pc := TpEnding (Some err)\<rparr>)"
| FileGivenUp: "tw_pc w = TpWoken \<Longrightarrow> transfer_step w (w\<lparr>tw_pc := TpWork\<rparr>)"
| Progress: "tw_pc w = TpWork \<Longrightarrow>
    transfer_step w (w\<lparr>tw_item := updateTransfer (progress_state p) (tw_item w)\<rparr>)"
| Chunk: "tw_pc w = TpWork \<Longrightarrow> transfer_step w (w\<lparr>tw_pc := TpCheck offset\<rparr>)"
| WorkEnds: "tw_pc w = TpWork \<Longrightarrow> transfer_step w (w\<lparr>tw_pc := TpEnding err\<rparr>)"
| End: "tw_pc w = TpEnding err \<Longrightarrow>
    transfer_step w (w\<lparr>tw_item := end_transfer now err (tw_item w), tw_pc := TpEnded\<rparr>)"

definition first_transfer :: "transfer \<Rightarrow> transfer_world" where
  "first_transfer item =
     \<lparr>tw_item = item, tw_pc = TpQueued, tw_next = 0, tw_closing = [], tw_closed = []\<rparr>"

inductive transfer_reaches :: "transfer_world \<Rightarrow> transfer_world \<Rightarrow> bool" where
  reaches_refl: "transfer_reaches w w"
| reaches_step: "transfer_reaches w v \<Longrightarrow> transfer_step v u \<Longrightarrow> transfer_reaches w u"

section \<open>The invariant\<close>

definition channels_ok :: "transfer_world \<Rightarrow> bool" where
  "channels_ok w \<longleftrightarrow>
     distinct (tw_closing w @ tw_closed w) \<and>
     list_all (\<lambda>c. c < tw_next w) (tw_closing w @ tw_closed w) \<and>
     (\<forall>c. tf_resumeCh (tw_item w) = Some c \<longrightarrow>
        c < tw_next w \<and> c \<notin> set (tw_closing w @ tw_closed w) \<and>
        ((\<exists>offset. tw_pc w = TpBlocked c offset) \<or> (\<exists>err. tw_pc w = TpEnding err) \<or> tw_pc w = TpEnded))"

definition blocked_ok :: "transfer_world \<Rightarrow> bool" where
  "blocked_ok w \<longleftrightarrow>
     (\<forall>ch offset. tw_pc w = TpBlocked ch offset \<longrightarrow>
        (tf_resumeCh (tw_item w) = Some ch \<and> ts_Status (tf_state (tw_item w)) = SFTPTransferPaused) \<or>
        ch \<in> set (tw_closing w @ tw_closed w))"

definition status_ok :: "transfer_world \<Rightarrow> bool" where
  "status_ok w \<longleftrightarrow>
     applyTransferControls (tf_state (tw_item w)) = tf_state (tw_item w) \<and>
     (if tw_pc w = TpEnded then transfer_final (ts_Status (tf_state (tw_item w)))
      else isTransferCancelable (ts_Status (tf_state (tw_item w))))"

definition transfer_ok :: "transfer_world \<Rightarrow> bool" where
  "transfer_ok w \<longleftrightarrow> channels_ok w \<and> blocked_ok w \<and> status_ok w"

lemmas control_defs = applyTransferControls_def updateTransfer_def isTransferCancelable_def transfer_final_def

lemma controls_idem [simp]: "applyTransferControls (applyTransferControls st) = applyTransferControls st"
  by (simp add: applyTransferControls_def)

lemma controls_status [simp]:
  "ts_Status (applyTransferControls st) = ts_Status st"
  "ts_PauseRequested (applyTransferControls st) = ts_PauseRequested st"
  "ts_FailedCount (applyTransferControls st) = ts_FailedCount st"
  by (simp_all add: applyTransferControls_def)

lemma updateTransfer_simps [simp]:
  "tf_state (updateTransfer f item) = applyTransferControls (f (tf_state item))"
  "tf_resumeCh (updateTransfer f item) = tf_resumeCh item"
  "tf_canceled (updateTransfer f item) = tf_canceled item"
  by (simp_all add: updateTransfer_def)

abbreviation item_status :: "transfer \<Rightarrow> SFTPTransferStatus" where
  "item_status item \<equiv> ts_Status (tf_state item)"

abbreviation controlled :: "transfer \<Rightarrow> bool" where
  "controlled item \<equiv> applyTransferControls (tf_state item) = tf_state item"

lemma final_iff: "transfer_final status \<longleftrightarrow> \<not> isTransferCancelable status"
  by (cases status) (simp_all add: transfer_final_def isTransferCancelable_def)

lemma PauseTransfer_keeps:
  "tf_resumeCh (fst (PauseTransfer item)) = tf_resumeCh item"
  "tf_canceled (fst (PauseTransfer item)) = tf_canceled item"
  "controlled item \<Longrightarrow> controlled (fst (PauseTransfer item))"
  "isTransferCancelable (item_status (fst (PauseTransfer item))) = isTransferCancelable (item_status item)"
  "item_status item = SFTPTransferPaused \<Longrightarrow> item_status (fst (PauseTransfer item)) = SFTPTransferPaused"
  "transfer_final (item_status item) \<Longrightarrow> fst (PauseTransfer item) = item"
  by (cases "item_status item";
      simp add: PauseTransfer_def Let_def isTransferCancelable_def transfer_final_def)+

lemma ResumeTransfer_parts:
  "tf_canceled (fst (ResumeTransfer item)) = tf_canceled item"
  "controlled item \<Longrightarrow> controlled (fst (ResumeTransfer item))"
  "isTransferCancelable (item_status (fst (ResumeTransfer item))) = isTransferCancelable (item_status item)"
  "transfer_final (item_status item) \<Longrightarrow>
     fst (ResumeTransfer item) = item \<and> snd (snd (ResumeTransfer item)) = None"
  "snd (snd (ResumeTransfer item)) = None \<and> tf_resumeCh (fst (ResumeTransfer item)) = tf_resumeCh item \<or>
   snd (snd (ResumeTransfer item)) = tf_resumeCh item \<and> tf_resumeCh (fst (ResumeTransfer item)) = None"
  "item_status item = SFTPTransferPaused \<Longrightarrow>
     snd (snd (ResumeTransfer item)) = tf_resumeCh item \<and> tf_resumeCh (fst (ResumeTransfer item)) = None"
  by (cases "item_status item";
      simp add: ResumeTransfer_def Let_def isTransferCancelable_def transfer_final_def)+

lemma ResumeTransfer_keeps:
  assumes "ResumeTransfer item = (item', response, ch)"
  shows "tf_canceled item' = tf_canceled item"
    "controlled item \<Longrightarrow> controlled item'"
    "isTransferCancelable (item_status item') = isTransferCancelable (item_status item)"
    "transfer_final (item_status item) \<Longrightarrow> item' = item \<and> ch = None"
    "ch = None \<and> tf_resumeCh item' = tf_resumeCh item \<or> ch = tf_resumeCh item \<and> tf_resumeCh item' = None"
    "item_status item = SFTPTransferPaused \<Longrightarrow> ch = tf_resumeCh item \<and> tf_resumeCh item' = None"
  using ResumeTransfer_parts [of item] by (simp_all add: assms)

lemma wait_enter_None: "wait_enter fresh offset item = (item', None) \<longleftrightarrow>
   item' = item \<and> \<not> ts_PauseRequested (tf_state item)"
  by (auto simp: wait_enter_def Let_def)

lemma wait_enter_Some:
  "wait_enter fresh offset item = (item', Some ch) \<Longrightarrow>
   ts_PauseRequested (tf_state item) \<and> ch = (case tf_resumeCh item of None \<Rightarrow> fresh | Some c \<Rightarrow> c) \<and>
   tf_resumeCh item' = Some ch \<and> item_status item' = SFTPTransferPaused \<and>
   controlled item' \<and> tf_canceled item' = tf_canceled item"
  by (auto simp: wait_enter_def Let_def split: if_splits option.splits)

lemma progress_cancelable:
  "isTransferCancelable (ts_Status (progress_state p st)) \<or> progress_state p st = st \<or>
   ts_Status (progress_state p st) = ts_Status st"
  by (cases p) (auto simp: Let_def isTransferCancelable_def)

lemma progress_status:
  "isTransferCancelable (ts_Status st) \<Longrightarrow> isTransferCancelable (ts_Status (progress_state p st))"
  using progress_cancelable [of p st] by auto

lemma end_transfer_final:
  "transfer_final (item_status (end_transfer now err item)) \<and> controlled (end_transfer now err item) \<and>
   tf_resumeCh (end_transfer now err item) = tf_resumeCh item"
  by (auto simp: end_transfer_def finishTransfer_def finish_state_def Let_def transfer_final_def split: option.splits)

lemma finishTransfer_final:
  "transfer_final status \<Longrightarrow> transfer_final (item_status (finishTransfer now status message item))"
  "controlled (finishTransfer now status message item)"
  "tf_resumeCh (finishTransfer now status message item) = tf_resumeCh item"
  by (auto simp: finishTransfer_def finish_state_def Let_def)

lemma status_step: "transfer_step w w' \<Longrightarrow> status_ok w \<Longrightarrow> status_ok w'"
proof (induction rule: transfer_step.induct)
  case (Pause w)
  then show ?case using PauseTransfer_keeps [of "tw_item w"] by (auto simp: status_ok_def final_iff)
next
  case (Resume w item response ch)
  then show ?case using ResumeTransfer_keeps [of "tw_item w" item response ch]
    by (auto simp: status_ok_def final_iff)
next
  case (Paused w offset item ch)
  then show ?case using wait_enter_Some [of "tw_next w" offset "tw_item w" item ch]
    by (auto simp: status_ok_def isTransferCancelable_def)
next
  case (Progress w p)
  then show ?case using progress_status [of "tf_state (tw_item w)" p] by (simp add: status_ok_def)
next
  case (End w err now)
  then show ?case using end_transfer_final by (auto simp: status_ok_def)
next
  case (NoSlot w now)
  then show ?case using finishTransfer_final by (auto simp: status_ok_def transfer_final_def)
qed (auto simp: status_ok_def CancelTransfer_def go_on_def wait_enter_None wait_leave_def start_state_def
      isTransferCancelable_def split: if_splits)

text \<open>A step that leaves the channel of the transfer and the goroutine's place alone.\<close>

lemma channels_same:
  assumes "channels_ok w" "tf_resumeCh (tw_item w') = tf_resumeCh (tw_item w)"
    "tw_next w' = tw_next w" "tw_closing w' = tw_closing w" "tw_closed w' = tw_closed w"
    "tw_pc w' = tw_pc w"
  shows "channels_ok w'"
  using assms by (simp add: channels_ok_def)

text \<open>A step of a goroutine that is not waiting, in its way out or out: then no channel is open.\<close>

lemma channels_moves:
  assumes "channels_ok w" "tf_resumeCh (tw_item w') = tf_resumeCh (tw_item w)"
    "tw_next w' = tw_next w" "tw_closing w' = tw_closing w" "tw_closed w' = tw_closed w"
    "(\<forall>ch offset. tw_pc w \<noteq> TpBlocked ch offset) \<and> (\<forall>err. tw_pc w \<noteq> TpEnding err) \<and> tw_pc w \<noteq> TpEnded"
  shows "channels_ok w'"
  using assms by (auto simp: channels_ok_def)

lemma channels_step: "transfer_step w w' \<Longrightarrow> channels_ok w \<Longrightarrow> channels_ok w'"
proof (induction rule: transfer_step.induct)
  case (Pause w)
  then show ?case by (intro channels_same [OF Pause]) (simp_all add: PauseTransfer_keeps)
next
  case (Resume w item response ch)
  show ?case
  proof (cases ch)
    case None
    then show ?thesis
      using Resume ResumeTransfer_keeps(5) [OF Resume(1)] by (auto simp: channels_ok_def)
  next
    case (Some c)
    then have "tf_resumeCh (tw_item w) = Some c" "tf_resumeCh item = None"
      using ResumeTransfer_keeps(5) [OF Resume(1)] by auto
    then show ?thesis using Resume(2) Some by (auto simp: channels_ok_def)
  qed
next
  case (Close ch w)
  then show ?case by (auto simp: channels_ok_def list_all_iff dest: in_set_remove1)
next
  case (Cancel w)
  then show ?case by (intro channels_same [OF Cancel]) (simp_all add: CancelTransfer_def)
next
  case (Paused w offset item ch)
  then have enter: "ch = (case tf_resumeCh (tw_item w) of None \<Rightarrow> tw_next w | Some c \<Rightarrow> c)"
    "tf_resumeCh item = Some ch" using wait_enter_Some by blast+
  have "tf_resumeCh (tw_item w) = None" using Paused by (auto simp: channels_ok_def)
  then show ?case using enter Paused(3)
    by (auto simp: channels_ok_def list_all_iff intro: less_SucI)
next
  case (WaitCanceled w ch offset)
  then show ?case by (auto simp: channels_ok_def)
next
  case (End w err now)
  then show ?case using end_transfer_final by (auto simp: channels_ok_def)
next
  case (Wake w ch offset)
  then show ?case by (auto simp: channels_ok_def)
next
  case (NoSlot w now)
  then show ?case by (intro channels_moves [OF NoSlot(3)]) (simp_all add: finishTransfer_final)
next
  case (NotPaused w offset item)
  then show ?case by (intro channels_moves [OF NotPaused(3)]) (simp_all add: go_on_def wait_enter_None)
next
  case (Resumed w)
  then show ?case by (intro channels_moves [OF Resumed(2)]) (simp_all add: go_on_def wait_leave_def)
qed (erule channels_moves; simp)+

lemma blocked_step: "transfer_step w w' \<Longrightarrow> channels_ok w \<Longrightarrow> blocked_ok w \<Longrightarrow> blocked_ok w'"
proof (induction rule: transfer_step.induct)
  case (Pause w)
  then show ?case using PauseTransfer_keeps(1,5) [of "tw_item w"] by (auto simp: blocked_ok_def)
next
  case (Resume w item response ch)
  then show ?case using ResumeTransfer_keeps(5,6) [OF Resume(1)]
    by (cases "tf_resumeCh (tw_item w)"; cases ch; auto simp: blocked_ok_def)
next
  case (Close ch w)
  then show ?case by (auto simp: blocked_ok_def channels_ok_def)
next
  case (Paused w offset item ch)
  then show ?case using wait_enter_Some [OF Paused(2)] by (auto simp: blocked_ok_def)
qed (auto simp: blocked_ok_def go_on_def CancelTransfer_def)

lemma transfer_ok_step: "transfer_step w w' \<Longrightarrow> transfer_ok w \<Longrightarrow> transfer_ok w'"
  using channels_step blocked_step status_step by (auto simp: transfer_ok_def)

lemma transfer_ok_reaches: "transfer_reaches w w' \<Longrightarrow> transfer_ok w \<Longrightarrow> transfer_ok w'"
  by (induction rule: transfer_reaches.induct) (auto intro: transfer_ok_step)

lemma transfer_ok_first: "transfer_ok (first_transfer (startTransfer i now ses dir req n name src rec))"
  by (simp add: transfer_ok_def channels_ok_def blocked_ok_def status_ok_def first_transfer_def
      startTransfer_def isTransferCancelable_def)

lemma reaches_trans: "transfer_reaches v u \<Longrightarrow> transfer_reaches w v \<Longrightarrow> transfer_reaches w u"
  by (induction rule: transfer_reaches.induct) (auto intro: transfer_reaches.intros)

section \<open>What holds of every interleaving\<close>

text \<open>
  C30: A paused transfer never hangs. In every interleaving of the window's calls and the
  goroutine, a goroutine that waits for a resume waits on a channel that a call of resume has
  closed or is about to close, or else the transfer is shown as paused, can be resumed and
  canceled, and the next call of resume takes exactly that channel to close it. No channel is
  closed twice, which would be a panic.
\<close>
theorem paused_transfer_can_resume:
  assumes "transfer_reaches (first_transfer (startTransfer i now ses dir req n name src rec)) w"
    and "tw_pc w = TpBlocked ch offset"
  shows "(ch \<in> set (tw_closing w @ tw_closed w) \<or>
      (ts_CanResume (tf_state (tw_item w)) \<and> ts_CanCancel (tf_state (tw_item w)) \<and>
       snd (snd (ResumeTransfer (tw_item w))) = Some ch)) \<and>
    distinct (tw_closing w @ tw_closed w)"
proof -
  have ok: "transfer_ok w" using transfer_ok_reaches [OF assms(1) transfer_ok_first] .
  then have once: "distinct (tw_closing w @ tw_closed w)" by (simp add: transfer_ok_def channels_ok_def)
  have "ts_CanResume (tf_state item) \<and> ts_CanCancel (tf_state item)"
    if "item_status item = SFTPTransferPaused" "controlled item" for item
  proof -
    have "ts_CanResume (applyTransferControls (tf_state item)) \<and> ts_CanCancel (applyTransferControls (tf_state item))"
      using that(1) by (simp add: applyTransferControls_def isTransferCancelable_def)
    then show ?thesis using that(2) by simp
  qed
  with ok once assms(2) show ?thesis
    using ResumeTransfer_parts(6) [of "tw_item w"]
    by (auto simp: transfer_ok_def blocked_ok_def status_ok_def)
qed

lemma ended_stays:
  assumes "transfer_reaches w w'" "transfer_ok w" "tw_pc w = TpEnded"
  shows "tf_state (tw_item w') = tf_state (tw_item w) \<and> tw_pc w' = TpEnded"
  using assms
proof (induction rule: transfer_reaches.induct)
  case (reaches_step w v u)
  then have v: "tw_pc v = TpEnded" "tf_state (tw_item v) = tf_state (tw_item w)" "transfer_ok v"
    using transfer_ok_reaches by auto
  then have final: "transfer_final (item_status (tw_item v))"
    by (simp add: transfer_ok_def status_ok_def)
  from reaches_step(2) v final have "tf_state (tw_item u) = tf_state (tw_item v) \<and> tw_pc u = TpEnded"
    by (cases rule: transfer_step.cases)
      (auto simp: PauseTransfer_keeps(6) CancelTransfer_def dest: ResumeTransfer_keeps(4))
  then show ?case using v by simp
qed simp

lemma final_controls:
  assumes "transfer_final (ts_Status st)" "applyTransferControls st = st"
  shows "\<not> ts_CanPause st \<and> \<not> ts_CanResume st \<and> \<not> ts_CanCancel st"
proof -
  have "\<not> ts_CanPause (applyTransferControls st) \<and> \<not> ts_CanResume (applyTransferControls st) \<and>
        \<not> ts_CanCancel (applyTransferControls st)"
    using assms(1) by (cases "ts_Status st")
      (simp_all add: applyTransferControls_def isTransferCancelable_def transfer_final_def)
  then show ?thesis using assms(2) by simp
qed

text \<open>
  C31: An ended transfer stays as it ended. After the goroutine ended the status is a final one,
  the transfer can be neither paused nor resumed nor canceled, and no later call changes its
  state.
\<close>
theorem ended_transfer_final:
  assumes "transfer_reaches (first_transfer (startTransfer i now ses dir req n name src rec)) w"
    and "tw_pc w = TpEnded" and "transfer_reaches w w'"
  shows "tf_state (tw_item w') = tf_state (tw_item w) \<and>
    transfer_final (ts_Status (tf_state (tw_item w'))) \<and>
    \<not> ts_CanPause (tf_state (tw_item w')) \<and> \<not> ts_CanResume (tf_state (tw_item w')) \<and>
    \<not> ts_CanCancel (tf_state (tw_item w'))"
proof -
  have ok: "transfer_ok w" using transfer_ok_reaches [OF assms(1) transfer_ok_first] .
  then have "transfer_ok w'" using transfer_ok_reaches assms(3) by blast
  moreover have same: "tf_state (tw_item w') = tf_state (tw_item w)" "tw_pc w' = TpEnded"
    using ended_stays [OF assms(3) ok assms(2)] by simp_all
  ultimately have "transfer_final (item_status (tw_item w'))" "controlled (tw_item w')"
    by (simp_all add: transfer_ok_def status_ok_def)
  then show ?thesis using final_controls same(1) by metis
qed

section \<open>Resuming works, pausing may not\<close>

definition waiting_status :: "transfer_world \<Rightarrow> bool" where
  "waiting_status w \<longleftrightarrow>
     (\<forall>ch offset. tw_pc w = TpBlocked ch offset \<or> tw_pc w = TpWoken \<longrightarrow>
        item_status (tw_item w) \<in> {SFTPTransferPaused, SFTPTransferResuming, SFTPTransferPausing,
                                    SFTPTransferRunning})"

lemma waiting_ops:
  "item_status item \<in> {SFTPTransferPaused, SFTPTransferResuming, SFTPTransferPausing, SFTPTransferRunning} \<Longrightarrow>
   item_status (fst (PauseTransfer item)) \<in> {SFTPTransferPaused, SFTPTransferPausing}"
  "item_status item \<in> {SFTPTransferPaused, SFTPTransferResuming, SFTPTransferPausing, SFTPTransferRunning} \<Longrightarrow>
   item_status (fst (ResumeTransfer item)) \<in> {SFTPTransferResuming, SFTPTransferRunning}"
  "item_status item \<in> {SFTPTransferPaused, SFTPTransferResuming, SFTPTransferPausing, SFTPTransferRunning} \<Longrightarrow>
   \<not> ts_PauseRequested (tf_state (fst (ResumeTransfer item)))"
  by (auto simp: PauseTransfer_def ResumeTransfer_def Let_def)

lemma waiting_step: "transfer_step w w' \<Longrightarrow> waiting_status w \<Longrightarrow> waiting_status w'"
proof (induction rule: transfer_step.induct)
  case (Pause w)
  then show ?case using waiting_ops(1) [of "tw_item w"] by (auto simp: waiting_status_def)
next
  case (Resume w item response ch)
  then show ?case using waiting_ops(2) [of "tw_item w"] by (auto simp: waiting_status_def)
next
  case (Paused w offset item ch)
  then show ?case using wait_enter_Some by (auto simp: waiting_status_def)
qed (auto simp: waiting_status_def CancelTransfer_def go_on_def)

lemma waiting_reaches: "transfer_reaches w w' \<Longrightarrow> waiting_status w \<Longrightarrow> waiting_status w'"
  by (induction rule: transfer_reaches.induct) (auto intro: waiting_step)

lemma wait_leave_running:
  "item_status item \<in> {SFTPTransferResuming, SFTPTransferRunning} \<Longrightarrow>
   item_status (wait_leave item) = SFTPTransferRunning \<and> \<not> ts_PauseRequested (tf_state (wait_leave item))"
  by (auto simp: wait_leave_def)

text \<open>The goroutine runs on from a closed channel.\<close>

lemma closed_channel_runs_on:
  assumes "tw_pc w = TpBlocked ch offset" "ch \<in> set (tw_closing w @ tw_closed w)"
    "\<not> tf_canceled (tw_item w)" "item_status (tw_item w) \<in> {SFTPTransferResuming, SFTPTransferRunning}"
  shows "\<exists>w'. transfer_reaches w w' \<and> tw_pc w' = TpWork \<and> item_status (tw_item w') = SFTPTransferRunning \<and>
    \<not> ts_PauseRequested (tf_state (tw_item w'))"
proof -
  define w2 where "w2 = (if ch \<in> set (tw_closed w) then w
    else w\<lparr>tw_closing := remove1 ch (tw_closing w), tw_closed := ch # tw_closed w\<rparr>)"
  have w2: "transfer_reaches w w2" "tw_pc w2 = TpBlocked ch offset" "ch \<in> set (tw_closed w2)"
      "tw_item w2 = tw_item w"
    using assms(1,2) by (auto simp: w2_def intro: transfer_reaches.intros transfer_step.Close)
  define w3 where "w3 = w2\<lparr>tw_pc := TpWoken\<rparr>"
  have "transfer_step w2 w3" unfolding w3_def by (rule transfer_step.Wake [OF w2(2,3)])
  with w2 have w3: "transfer_reaches w w3" "tw_pc w3 = TpWoken" "tw_item w3 = tw_item w"
    by (auto simp: w3_def intro: transfer_reaches.intros)
  define w4 where "w4 = go_on (w3\<lparr>tw_item := wait_leave (tw_item w3)\<rparr>)"
  have "transfer_step w3 w4" unfolding w4_def by (rule transfer_step.Resumed [OF w3(2)])
  with w3 have "transfer_reaches w w4" by (auto intro: transfer_reaches.intros)
  moreover have "tw_item w4 = wait_leave (tw_item w)" "tw_pc w4 = TpWork"
    using assms(3) w3(3) by (simp_all add: w4_def go_on_def wait_leave_def)
  ultimately show ?thesis using wait_leave_running [OF assms(4)] by auto
qed

text \<open>
  Resuming works. From every state in which the goroutine waits and the transfer is not
  canceled, one call of resume lets it go on working, shown as running, with no pause pending.
\<close>
theorem resume_runs_on:
  assumes "transfer_reaches (first_transfer (startTransfer i now ses dir req n name src rec)) w"
    and "tw_pc w = TpBlocked ch offset" and "\<not> tf_canceled (tw_item w)"
  shows "\<exists>w'. transfer_reaches w w' \<and> tw_pc w' = TpWork \<and>
    ts_Status (tf_state (tw_item w')) = SFTPTransferRunning \<and>
    \<not> ts_PauseRequested (tf_state (tw_item w'))"
proof -
  have ok: "transfer_ok w" using transfer_ok_reaches [OF assms(1) transfer_ok_first] .
  have "waiting_status (first_transfer (startTransfer i now ses dir req n name src rec))"
    by (simp add: waiting_status_def first_transfer_def)
  then have status: "item_status (tw_item w) \<in>
      {SFTPTransferPaused, SFTPTransferResuming, SFTPTransferPausing, SFTPTransferRunning}"
    using waiting_reaches [OF assms(1)] assms(2) by (auto simp: waiting_status_def)
  obtain item response c where r: "ResumeTransfer (tw_item w) = (item, response, c)"
    by (cases "ResumeTransfer (tw_item w)")
  define w1 where "w1 = w\<lparr>tw_item := item,
      tw_closing := (case c of None \<Rightarrow> tw_closing w | Some d \<Rightarrow> d # tw_closing w)\<rparr>"
  have "transfer_step w w1" unfolding w1_def by (rule transfer_step.Resume [OF r])
  then have w1: "transfer_reaches w w1" by (auto intro: transfer_reaches.intros)
  have "ch \<in> set (tw_closing w1 @ tw_closed w1)"
    using ok assms(2) ResumeTransfer_keeps(6) [OF r]
    by (auto simp: w1_def transfer_ok_def blocked_ok_def split: option.splits)
  moreover have "tw_pc w1 = TpBlocked ch offset" "\<not> tf_canceled (tw_item w1)"
      "item_status (tw_item w1) \<in> {SFTPTransferResuming, SFTPTransferRunning}"
    using assms(2,3) ResumeTransfer_keeps(1) [OF r] waiting_ops(2) [OF status] r by (simp_all add: w1_def)
  ultimately obtain w' where "transfer_reaches w1 w'" "tw_pc w' = TpWork"
      "item_status (tw_item w') = SFTPTransferRunning" "\<not> ts_PauseRequested (tf_state (tw_item w'))"
    using closed_channel_runs_on by blast
  then show ?thesis using reaches_trans [OF _ w1] by blast
qed

text \<open>The runs the witnesses use: a pause before the slot, the slot, the wait.\<close>

definition demo_request :: SFTPTransferRequest where
  "demo_request = \<lparr>tq_ConnectionID = 1, tq_ContextID = [], tq_TerminalSessionID = [],
     tq_LocalPath = ''/tmp/a'', tq_RemotePath = ''/srv/a'', tq_ConflictPolicy = SFTPConflictOverwrite\<rparr>"

definition demo_session :: transfer_session where
  "demo_session = \<lparr>sx_contextID = ''server:1'', sx_terminalSessionID = [], sx_generation = 1,
     sx_mode = SFTPModeSFTP\<rparr>"

abbreviation started ::
  "string \<Rightarrow> string \<Rightarrow> transfer_session \<Rightarrow> SFTPTransferDirection \<Rightarrow> SFTPTransferRequest \<Rightarrow> int \<Rightarrow> transfer" where
  "started i now ses dir req n \<equiv> startTransfer i now ses dir req n ''a'' ''file'' False"

definition paused_item :: "transfer \<Rightarrow> transfer" where
  "paused_item item =
     (let item = updateTransfer (start_state ''t'') (fst (PauseTransfer item))
      in fst (wait_enter 0 (-1) item))"

definition paused_world :: "transfer \<Rightarrow> transfer_world" where
  "paused_world item =
     \<lparr>tw_item = paused_item item, tw_pc = TpBlocked 0 (-1), tw_next = 1, tw_closing = [], tw_closed = []\<rparr>"

lemma paused_world_reached:
  assumes "item_status item = SFTPTransferQueued" "tf_resumeCh item = None" "\<not> tf_canceled item"
  shows "transfer_reaches (first_transfer item) (paused_world item)"
proof -
  define w0 where "w0 = first_transfer item"
  define w1 where "w1 = w0\<lparr>tw_item := fst (PauseTransfer (tw_item w0))\<rparr>"
  define w2 where "w2 = w1\<lparr>tw_item := updateTransfer (start_state ''t'') (tw_item w1), tw_pc := TpCheck (-1)\<rparr>"
  have s1: "transfer_step w0 w1" unfolding w1_def by (rule transfer_step.Pause)
  have "tw_pc w1 = TpQueued" "\<not> tf_canceled (tw_item w1)"
    using assms(3) by (simp_all add: w1_def w0_def first_transfer_def PauseTransfer_keeps)
  then have s2: "transfer_step w1 w2" unfolding w2_def by (rule transfer_step.Slot)
  have req: "ts_PauseRequested (tf_state (tw_item w2))"
    using assms(1) by (simp add: w2_def w1_def w0_def first_transfer_def PauseTransfer_def Let_def start_state_def)
  have ch: "tf_resumeCh (tw_item w2) = None"
    using assms(2) by (simp add: w2_def w1_def w0_def first_transfer_def PauseTransfer_keeps)
  obtain it where it: "wait_enter (tw_next w2) (-1) (tw_item w2) = (it, Some 0)"
    using req ch by (simp add: wait_enter_def Let_def w2_def w1_def w0_def first_transfer_def)
  have "tw_pc w2 = TpCheck (-1)" by (simp add: w2_def)
  from transfer_step.Paused [OF this it] have "transfer_step w2 (paused_world item)"
    using it ch by (simp add: paused_world_def paused_item_def Let_def w2_def w1_def w0_def first_transfer_def)
  then have "transfer_reaches w0 (paused_world item)"
    using s1 s2 by (meson transfer_reaches.intros)
  then show ?thesis by (simp add: w0_def)
qed

lemma paused_item_parts:
  assumes "item_status item = SFTPTransferQueued" "tf_resumeCh item = None" "\<not> tf_canceled item"
  shows "tf_resumeCh (paused_item item) = Some 0" "item_status (paused_item item) = SFTPTransferPaused"
    "\<not> tf_canceled (paused_item item)"
  using assms
  by (auto simp: paused_item_def Let_def wait_enter_def PauseTransfer_def start_state_def split: option.splits)

lemma started_parts:
  "item_status (started i now ses dir req n) = SFTPTransferQueued"
  "tf_resumeCh (started i now ses dir req n) = None" "\<not> tf_canceled (started i now ses dir req n)"
  by (simp_all add: startTransfer_def)

text \<open>
  A pause can be lost. From a paused transfer, a resume and then another pause before the
  goroutine has woken: the goroutine clears the request of the second pause and works on, while
  the transfer is shown as pausing, can be neither paused nor resumed by its flags, and a further
  call of pause changes nothing and still answers that it is pausing. This can happen to every
  transfer of a single file.
\<close>
theorem pause_lost:
  "\<exists>w. transfer_reaches (first_transfer (startTransfer i now ses dir req n ''a'' ''file'' False)) w \<and>
     tw_pc w = TpWork \<and> ts_Status (tf_state (tw_item w)) = SFTPTransferPausing \<and>
     \<not> ts_PauseRequested (tf_state (tw_item w)) \<and>
     \<not> ts_CanPause (tf_state (tw_item w)) \<and> \<not> ts_CanResume (tf_state (tw_item w)) \<and>
     PauseTransfer (tw_item w) = (tw_item w, Inr SFTPTransferPausing)"
proof -
  let ?item = "started i now ses dir req n"
  define p where "p = paused_item ?item"
  have p: "tf_resumeCh p = Some 0" "item_status p = SFTPTransferPaused" "\<not> tf_canceled p"
    unfolding p_def by (rule paused_item_parts [OF started_parts])+
  define r where "r = fst (ResumeTransfer p)"
  have r: "ResumeTransfer p = (r, Inr SFTPTransferResuming, Some 0)" "item_status r = SFTPTransferResuming"
      "\<not> tf_canceled r"
    using p by (simp_all add: r_def ResumeTransfer_def Let_def)
  define q where "q = fst (PauseTransfer r)"
  have q: "item_status q = SFTPTransferPausing" "\<not> tf_canceled q"
    using r by (auto simp: q_def PauseTransfer_def Let_def)
  define w1 where "w1 = paused_world ?item"
  define w2 where "w2 = w1\<lparr>tw_item := r, tw_closing := [0]\<rparr>"
  define w3 where "w3 = w2\<lparr>tw_closing := [], tw_closed := [0]\<rparr>"
  define w4 where "w4 = w3\<lparr>tw_item := q\<rparr>"
  define w5 where "w5 = w4\<lparr>tw_pc := TpWoken\<rparr>"
  define w6 where "w6 = go_on (w5\<lparr>tw_item := wait_leave (tw_item w5)\<rparr>)"
  have w1: "transfer_reaches (first_transfer ?item) w1" "tw_item w1 = p" "tw_closing w1 = []" "tw_closed w1 = []"
      "tw_pc w1 = TpBlocked 0 (-1)"
    unfolding w1_def by (rule paused_world_reached [OF started_parts]) (simp_all add: paused_world_def p_def)
  have "transfer_step w1 w2"
    using transfer_step.Resume [of w1 r "Inr SFTPTransferResuming" "Some 0"] w1 r by (simp add: w2_def)
  moreover have "transfer_step w2 w3"
    using transfer_step.Close [of 0 w2] w1 by (simp add: w2_def w3_def)
  moreover have "transfer_step w3 w4"
    using transfer_step.Pause [of w3] by (simp add: w4_def w3_def w2_def q_def)
  moreover have "transfer_step w4 w5"
    using transfer_step.Wake [of w4 0 "-1"] w1 by (simp add: w5_def w4_def w3_def w2_def)
  moreover have "transfer_step w5 w6"
    unfolding w6_def by (rule transfer_step.Resumed) (simp add: w5_def)
  ultimately have "transfer_reaches (first_transfer ?item) w6"
    using w1(1) by (meson transfer_reaches.intros)
  moreover have "tw_item w6 = wait_leave q" "tw_pc w6 = TpWork"
    using q(2) by (simp_all add: w6_def w5_def w4_def go_on_def wait_leave_def)
  moreover have "item_status (wait_leave q) = SFTPTransferPausing" "\<not> ts_PauseRequested (tf_state (wait_leave q))"
      "controlled (wait_leave q)"
    using q(1) by (simp_all add: wait_leave_def)
  moreover have "\<not> ts_CanPause st \<and> \<not> ts_CanResume st"
    if "ts_Status st = SFTPTransferPausing" "applyTransferControls st = st" for st
  proof -
    have "\<not> ts_CanPause (applyTransferControls st) \<and> \<not> ts_CanResume (applyTransferControls st)"
      using that(1) by (simp add: applyTransferControls_def)
    then show ?thesis using that(2) by simp
  qed
  moreover have "PauseTransfer (wait_leave q) = (wait_leave q, Inr SFTPTransferPausing)"
    using q(1) by (simp add: PauseTransfer_def wait_leave_def updateTransfer_def)
  ultimately show ?thesis by metis
qed

abbreviation demo_transfer :: transfer where
  "demo_transfer \<equiv> startTransfer ''id'' ''t'' demo_session SFTPTransferUpload demo_request 3 ''a'' ''file'' False"

lemma demo_paused:
  "transfer_reaches (first_transfer demo_transfer) (paused_world demo_transfer)"
  "tw_pc (paused_world demo_transfer) = TpBlocked 0 (-1)" "tw_closing (paused_world demo_transfer) = []"
  "tw_closed (paused_world demo_transfer) = []" "\<not> tf_canceled (tw_item (paused_world demo_transfer))"
  using paused_world_reached [OF started_parts] paused_item_parts(3) [OF started_parts]
  by (simp_all add: paused_world_def)

lemma paused_transfer_can_resume_witness:
  "ts_CanResume (tf_state (tw_item (paused_world demo_transfer))) \<and>
   snd (snd (ResumeTransfer (tw_item (paused_world demo_transfer)))) = Some 0"
  using paused_transfer_can_resume [OF demo_paused(1,2)] demo_paused(3,4) by simp

lemma resume_runs_on_witness:
  "\<exists>w. transfer_reaches (paused_world demo_transfer) w \<and>
       ts_Status (tf_state (tw_item w)) = SFTPTransferRunning"
  using resume_runs_on [OF demo_paused(1,2,5)] by blast

definition ended_world :: transfer_world where
  "ended_world =
     (let w = first_transfer demo_transfer; item = CancelTransfer demo_transfer
      in w\<lparr>tw_item := finishTransfer ''t'' SFTPTransferCanceled (zh [20256, 36755, 24050, 21462, 28040]) item, tw_pc := TpEnded\<rparr>)"

lemma ended_world_reached: "transfer_reaches (first_transfer demo_transfer) ended_world"
proof -
  define w0 where "w0 = first_transfer demo_transfer"
  define w1 where "w1 = w0\<lparr>tw_item := CancelTransfer (tw_item w0)\<rparr>"
  have "transfer_step w0 w1" unfolding w1_def by (rule transfer_step.Cancel)
  moreover have "transfer_step w1 ended_world"
    using transfer_step.NoSlot [of w1 "''t''"]
    by (simp add: w1_def w0_def first_transfer_def CancelTransfer_def ended_world_def Let_def)
  ultimately show ?thesis unfolding w0_def by (meson transfer_reaches.intros)
qed

lemma ended_transfer_final_witness:
  "transfer_final (ts_Status (tf_state (tw_item ended_world))) \<and> \<not> ts_CanPause (tf_state (tw_item ended_world))"
proof -
  have "tw_pc ended_world = TpEnded" by (simp add: ended_world_def Let_def)
  from ended_transfer_final [OF ended_world_reached this reaches_refl] show ?thesis by blast
qed

text \<open>
  The end of a transfer is honest. It is reported completed only if its work returned no
  error and no file failed, partly failed only if some file failed, and an error is reported as
  a cancellation only if the context was canceled or the error says so; a single file's
  completion reports all its bytes.
\<close>
theorem end_transfer_honest:
  "(ts_Status (tf_state (end_transfer now err item)) = SFTPTransferCompleted \<longleftrightarrow>
      err = None \<and> ts_FailedCount (tf_state item) \<le> 0) \<and>
   (ts_Status (tf_state (end_transfer now err item)) = SFTPTransferPartialFailed \<longleftrightarrow>
      err = None \<and> ts_FailedCount (tf_state item) > 0) \<and>
   (ts_Status (tf_state (end_transfer now err item)) = SFTPTransferCanceled \<longleftrightarrow>
      (\<exists>e. err = Some e \<and> (errors_Is KCanceled e \<or> tf_canceled item))) \<and>
   (ts_Recursive (tf_state item) \<or> err \<noteq> None \<or>
      ts_TransferredBytes (tf_state (end_transfer now err item)) = ts_TotalBytes (tf_state item))"
  by (auto simp: end_transfer_def finishTransfer_def finish_state_def applyTransferControls_def Let_def
      split: option.splits)

lemma end_transfer_honest_witness:
  "ts_Status (tf_state (end_transfer ''t'' None demo_transfer)) = SFTPTransferCompleted \<and>
   ts_TransferredBytes (tf_state (end_transfer ''t'' None demo_transfer)) = 3"
proof -
  have "ts_FailedCount (tf_state demo_transfer) = 0" "ts_TotalBytes (tf_state demo_transfer) = 3"
      "\<not> ts_Recursive (tf_state demo_transfer)"
    by (simp_all add: startTransfer_def applyTransferControls_def)
  then show ?thesis using end_transfer_honest [of "''t''" None demo_transfer] by simp
qed

end
