(* ===== verification/GoText.thy ===== *)
theory GoText
  imports GoStrings
begin

text \<open>
  Lemmas about texts that programs print: words of visible ASCII characters between blanks, and
  numbers. They let the parsers be compared with the lines the tools write.
\<close>

section \<open>Visible characters\<close>

definition visible :: "char \<Rightarrow> bool" where
  "visible c \<longleftrightarrow> 32 < (of_char c :: nat) \<and> (of_char c :: nat) < 127"

definition is_word :: "string \<Rightarrow> bool" where
  "is_word w \<longleftrightarrow> w \<noteq> [] \<and> list_all visible w"

lemma space_runes_not_visible: "r \<in> set space_runes \<Longrightarrow> r \<noteq> [] \<and> \<not> visible (hd r) \<and> \<not> visible (last r)"
  by (auto simp: space_runes_def visible_def)

lemma space_len_visible: "visible c \<Longrightarrow> space_len (c # s) = 0"
  unfolding space_len_0_iff
proof (intro ballI notI)
  fix r assume "visible c" and r: "r \<in> set space_runes" "prefix r (c # s)"
  then have "hd r = c" using space_runes_not_visible [OF r(1)] by (cases r) (auto simp: prefix_def)
  then show False using space_runes_not_visible [OF r(1)] \<open>visible c\<close> by simp
qed

lemma space_len_end_visible: "visible c \<Longrightarrow> space_len_end (s @ [c]) = 0"
  unfolding space_len_end_0_iff
proof (intro ballI notI)
  fix r assume "visible c" and r: "r \<in> set space_runes" "suffix r (s @ [c])"
  obtain t where "s @ [c] = t @ r" using r(2) by (auto simp: suffix_def)
  then have "last r = c" using space_runes_not_visible [OF r(1)] by (metis last_appendR last_snoc)
  then show False using space_runes_not_visible [OF r(1)] \<open>visible c\<close> by simp
qed

lemma TrimSpace_visible: "s = [] \<or> visible (hd s) \<and> visible (last s) \<Longrightarrow> TrimSpace s = s"
proof -
  assume ends: "s = [] \<or> visible (hd s) \<and> visible (last s)"
  show ?thesis
  proof (cases "s = []")
    case False
    then have v: "visible (hd s)" "visible (last s)" and s: "hd s # tl s = s" "butlast s @ [last s] = s"
      using ends by simp_all
    show ?thesis
      using space_len_visible [OF v(1), of "tl s"] space_len_end_visible [OF v(2), of "butlast s"]
      unfolding s by (rule TrimSpace_id)
  qed simp
qed

lemma TrimSpace_word: "is_word w \<Longrightarrow> TrimSpace w = w"
  by (intro TrimSpace_visible) (auto simp: is_word_def list_all_iff)

section \<open>Fields\<close>

lemma fields_from_visible:
  "list_all visible w \<Longrightarrow> fields_from acc (w @ s) = fields_from (acc @ w) s"
proof (induction w arbitrary: acc)
  case (Cons c w)
  then have "fields_from acc ((c # w) @ s) = fields_from (acc @ [c]) (w @ s)"
    by (subst fields_from.simps) (simp add: space_len_visible)
  with Cons show ?case by simp
qed simp

lemma fields_from_blank: "fields_from acc (CHR '' '' # s) = (if acc = [] then [] else [acc]) @ fields_from [] s"
proof -
  have "space_len (CHR '' '' # s) = 1" by (simp add: space_len_def space_runes_def HasPrefix_def)
  then show ?thesis by (subst fields_from.simps) simp
qed

lemma fields_from_words:
  "is_word w \<Longrightarrow> list_all is_word ws \<Longrightarrow> fields_from [] (Join (w # ws) '' '') = w # ws"
proof (induction ws arbitrary: w)
  case Nil
  then show ?case
    using fields_from_visible [of w "[]" "[]"] by (simp add: is_word_def) (simp add: fields_from.simps [of w "[]"])
next
  case (Cons v vs)
  then have "fields_from [] (Join (w # v # vs) '' '') = fields_from w (CHR '' '' # Join (v # vs) '' '')"
    using fields_from_visible [of w "[]"] by (simp add: is_word_def)
  also have "\<dots> = w # fields_from [] (Join (v # vs) '' '')"
    using Cons.prems by (simp add: fields_from_blank is_word_def)
  finally show ?case using Cons by simp
qed

lemma Fields_words: "list_all is_word ws \<Longrightarrow> Fields (Join ws '' '') = ws"
  using fields_from_words by (cases ws) (simp_all add: Fields_def fields_from.simps [of "[]" "[]"])

section \<open>Numbers\<close>

definition digits_value :: "string \<Rightarrow> nat" where
  "digits_value s = foldl (\<lambda>a c. a * 10 + (of_char c - 48)) 0 s"

lemma digits_value_nat_digits: "digits_value (nat_digits n) = n"
proof (induction n rule: nat_digits.induct)
  case (1 n)
  show ?case
  proof (cases "n < 10")
    case True
    then show ?thesis by (subst nat_digits.simps) (simp add: digits_value_def of_char_digit_char)
  next
    case False
    then have "digits_value (nat_digits (n div 10)) = n div 10" using 1 by simp
    then show ?thesis
      using False by (subst nat_digits.simps) (simp add: digits_value_def of_char_digit_char)
  qed
qed

lemma nat_digits_inject [simp]: "nat_digits m = nat_digits n \<longleftrightarrow> m = n"
  by (metis digits_value_nat_digits)

lemma Itoa_inject [simp]: "Itoa i = Itoa j \<longleftrightarrow> i = j"
proof -
  have minus: "nat_digits n \<noteq> CHR ''-'' # s" for n s
    using nat_digits_sign(1) [of n] by (auto simp: HasPrefix_def)
  show ?thesis
    by (auto simp: Itoa_def minus minus [symmetric] split: if_splits)
qed

lemma digit_char_code: "d < 10 \<Longrightarrow> c = digit_char d \<Longrightarrow> 48 \<le> (of_char c :: nat) \<and> (of_char c :: nat) \<le> 57"
  using of_char_digit_char [of d] by simp

lemma Itoa_without: "c \<noteq> CHR ''-'' \<Longrightarrow> (of_char c :: nat) < 48 \<or> 57 < (of_char c :: nat) \<Longrightarrow> c \<notin> set (Itoa i)"
  by (rule Itoa_noc) (use digit_char_code in fastforce)+

lemma Itoa_no_nul: "CHR 0x00 \<notin> set (Itoa i)"
  by (rule Itoa_without) simp_all

lemma Itoa_last_digit: "\<exists>d < 10. last (Itoa i) = digit_char d"
  using nat_digits_chars [OF last_in_set] by (auto simp: Itoa_def)

lemma Itoa_nonempty [simp]: "Itoa i \<noteq> []"
  by (simp add: Itoa_def)

lemma visible_digit: "d < 10 \<Longrightarrow> visible (digit_char d)"
  using of_char_digit_char [of d] by (simp add: visible_def)

lemma Itoa_word: "is_word (Itoa i)"
proof -
  have "visible c" if "c \<in> set (nat_digits n)" for c n
    using nat_digits_chars [OF that] visible_digit by auto
  moreover have "visible (CHR ''-'')" by (simp add: visible_def)
  ultimately show ?thesis by (auto simp: is_word_def Itoa_def list_all_iff)
qed

section \<open>Pieces\<close>

lemma HasSuffix_same_length: "length a = length b \<Longrightarrow> HasSuffix (s @ a) b \<longleftrightarrow> a = b"
  by (auto simp: HasSuffix_iff suffix_def append_eq_append_conv2)

text \<open>Two ways to end a text with a separator and something without it.\<close>

lemma sep_suffix: "c \<notin> set a \<Longrightarrow> c \<notin> set b \<Longrightarrow> HasSuffix (s @ c # a) (c # b) \<longleftrightarrow> a = b"
proof
  assume noc: "c \<notin> set a" "c \<notin> set b" and "HasSuffix (s @ c # a) (c # b)"
  then obtain t where t: "s @ c # a = t @ c # b" by (auto simp: HasSuffix_iff suffix_def)
  have "rev (takeWhile (\<lambda>x. x \<noteq> c) (rev (s @ c # a))) = a" "rev (takeWhile (\<lambda>x. x \<noteq> c) (rev (t @ c # b))) = b"
    using noc by (simp_all add: takeWhile_append takeWhile_eq_all_conv [THEN iffD2])
  then show "a = b" using t by metis
qed (auto simp: HasSuffix_iff suffix_def)

lemma no_sep_no_suffix: "c \<notin> set s \<Longrightarrow> \<not> HasSuffix s (c # b)"
  by (auto simp: HasSuffix_iff suffix_def)

end
