(* ===== verification/SftpSession.thy ===== *)
theory SftpSession
  imports SftpTransfer ConnState GoText "HOL-Library.Code_Target_Numeral"
begin

text \<open>
  Package \<open>internal/sftpmanager\<close>, \<open>manager_session.go\<close> and \<open>manager_scp.go\<close>: the sessions of the
  file browser. Each context of a server has at most one session, a published state and a
  generation, which every opening and every stop raises; what finishes late compares its
  generation and gives up. Opening releases the manager's lock while it dials, so it is two
  steps here, and everything else can happen in between. So does listing a directory, which
  writes the state after it has checked that its session is current.
\<close>

section \<open>The manager\<close>

record SFTPCapabilities =
  cap_Browse :: string
  cap_UploadFile :: bool
  cap_DownloadFile :: bool
  cap_UploadDirectory :: bool
  cap_DownloadDirectory :: bool
  cap_Mkdir :: bool
  cap_Rename :: bool
  cap_Delete :: bool
  cap_EditText :: bool

definition sftpModeCapabilities :: "SFTPMode \<Rightarrow> SFTPCapabilities" where
  "sftpModeCapabilities mode =
     (let full = \<lparr>cap_Browse = ''full'', cap_UploadFile = True, cap_DownloadFile = True,
                  cap_UploadDirectory = True, cap_DownloadDirectory = True, cap_Mkdir = True,
                  cap_Rename = True, cap_Delete = True, cap_EditText = True\<rparr>
      in if mode = SFTPModeSCP then full else full)"

definition no_capabilities :: SFTPCapabilities where
  "no_capabilities =
     \<lparr>cap_Browse = [], cap_UploadFile = False, cap_DownloadFile = False,
      cap_UploadDirectory = False, cap_DownloadDirectory = False, cap_Mkdir = False,
      cap_Rename = False, cap_Delete = False, cap_EditText = False\<rparr>"

text \<open>The whole state; the tracker reads the fields of its parent record.\<close>

record browser_state = SFTPState +
  bs_ContextID :: string
  bs_TerminalSessionID :: string
  bs_Generation :: int
  bs_Mode :: SFTPMode
  bs_Capabilities :: SFTPCapabilities
  bs_CurrentPath :: string
  bs_Message :: string
  bs_UpdatedAt :: string

record session =
  sn_connectionID :: int
  sn_contextID :: string
  sn_terminalSessionID :: string
  sn_generation :: int
  sn_mode :: SFTPMode
  sn_currentPath :: string
  sn_homePath :: string
  sn_closed :: bool

text \<open>
  Sessions are pointers, here the places of \<open>sm_heap\<close>. \<open>sm_emitted\<close> are the published states, the
  last one first.
\<close>

record sftp_manager =
  sm_heap :: "session list"
  sm_sessions :: "(string, nat) gomap"
  sm_states :: "(string, browser_state) gomap"
  sm_transfers :: "(string, transfer) gomap"
  sm_generations :: "string \<Rightarrow> int"
  sm_emitted :: "browser_state list"

definition new_sftp_manager :: sftp_manager where
  "new_sftp_manager =
     \<lparr>sm_heap = [], sm_sessions = [], sm_states = [], sm_transfers = [], sm_generations = (\<lambda>_. 0),
      sm_emitted = []\<rparr>"

definition sftpSessionKey :: "int \<Rightarrow> string \<Rightarrow> string" where
  "sftpSessionKey connectionID contextID =
     Itoa connectionID @ CHR 0x00 # normalizeContextID connectionID contextID"

definition generationLocked :: "int \<Rightarrow> string \<Rightarrow> sftp_manager \<Rightarrow> int \<times> sftp_manager" where
  "generationLocked connectionID contextID m =
     (let key = sftpSessionKey connectionID contextID; g = sm_generations m key
      in if g > 0 then (g, m)
         else (1, m\<lparr>sm_generations := (sm_generations m)(key := 1)\<rparr>))"

text \<open>An \<open>int64\<close> that wraps is negative, and starts again at one.\<close>

definition wrap64 :: "int \<Rightarrow> int" where
  "wrap64 i = (i + 2 ^ 63) mod 2 ^ 64 - 2 ^ 63"

definition next_generation :: "int \<Rightarrow> int" where
  "next_generation g = (let n = wrap64 (g + 1) in if n \<le> 0 then 1 else n)"

definition nextGenerationLocked :: "int \<Rightarrow> string \<Rightarrow> sftp_manager \<Rightarrow> int \<times> sftp_manager" where
  "nextGenerationLocked connectionID contextID m =
     (let key = sftpSessionKey connectionID contextID; n = next_generation (sm_generations m key)
      in (n, m\<lparr>sm_generations := (sm_generations m)(key := n)\<rparr>))"

definition stateLocked :: "string \<Rightarrow> int \<Rightarrow> string \<Rightarrow> sftp_manager \<Rightarrow> browser_state" where
  "stateLocked now connectionID contextID m =
     (let contextID = normalizeContextID connectionID contextID;
          key = sftpSessionKey connectionID contextID
      in case map_of (sm_states m) key of
           Some st \<Rightarrow>
             let st = (if bs_Generation st = 0 then st\<lparr>bs_Generation := sm_generations m key\<rparr> else st);
                 st = (if bs_Mode st = SFTPModeOther [] then st\<lparr>bs_Mode := SFTPModeSFTP\<rparr> else st);
                 st = (if bs_ContextID st = [] then st\<lparr>bs_ContextID := contextID\<rparr> else st)
             in if cap_Browse (bs_Capabilities st) = []
                then st\<lparr>bs_Capabilities := sftpModeCapabilities (bs_Mode st)\<rparr> else st
         | None \<Rightarrow>
             \<lparr>sstate_ConnectionID = connectionID, sstate_Status = SFTPStatusOffline,
              sstate_Active = False, bs_ContextID = contextID, bs_TerminalSessionID = [],
              bs_Generation = sm_generations m key, bs_Mode = SFTPModeSFTP,
              bs_Capabilities = sftpModeCapabilities SFTPModeSFTP, bs_CurrentPath = [],
              bs_Message = (zh [83, 70, 84, 80, 32, 26410, 36830, 25509]), bs_UpdatedAt = now\<rparr>)"

definition setStateLocked :: "browser_state \<Rightarrow> sftp_manager \<Rightarrow> sftp_manager" where
  "setStateLocked st m =
     (let st = (if bs_Mode st = SFTPModeOther [] then st\<lparr>bs_Mode := SFTPModeSFTP\<rparr> else st);
          st = st\<lparr>bs_ContextID := normalizeContextID (sstate_ConnectionID st) (bs_ContextID st)\<rparr>;
          (g, m) = (if bs_Generation st = 0
                    then generationLocked (sstate_ConnectionID st) (bs_ContextID st) m
                    else (bs_Generation st, m));
          st = st\<lparr>bs_Generation := g\<rparr>;
          st = (if cap_Browse (bs_Capabilities st) = []
                then st\<lparr>bs_Capabilities := sftpModeCapabilities (bs_Mode st)\<rparr> else st)
      in m\<lparr>sm_states := AList.update (sftpSessionKey (sstate_ConnectionID st) (bs_ContextID st)) st
                          (sm_states m),
           sm_emitted := st # sm_emitted m\<rparr>)"

section \<open>Sessions\<close>

definition session_at :: "sftp_manager \<Rightarrow> nat \<Rightarrow> session" where
  "session_at m i = sm_heap m ! i"

definition isCurrentSessionLocked :: "nat \<Rightarrow> sftp_manager \<Rightarrow> bool" where
  "isCurrentSessionLocked i m =
     (let s = session_at m i; key = sftpSessionKey (sn_connectionID s) (sn_contextID s)
      in map_of (sm_sessions m) key = Some i \<and> sm_generations m key = sn_generation s)"

text \<open>Canceling the transfers that match.\<close>

definition cancel_transfers :: "(SFTPTransferState \<Rightarrow> bool) \<Rightarrow> sftp_manager \<Rightarrow> sftp_manager" where
  "cancel_transfers P m =
     m\<lparr>sm_transfers := map (\<lambda>(k, item).
         (k, if P (tf_state item) \<and> isTransferCancelable (ts_Status (tf_state item))
             then CancelTransfer item else item)) (sm_transfers m)\<rparr>"

text \<open>
  Closing cancels the session's context, and with it those of its transfers. The transport and
  the client are closed too; they are not part of the manager.
\<close>

definition closeSession :: "nat \<Rightarrow> sftp_manager \<Rightarrow> sftp_manager" where
  "closeSession i m =
     (let s = session_at m i in
      if sn_closed s then m
      else m\<lparr>sm_heap := (sm_heap m)[i := s\<lparr>sn_closed := True\<rparr>],
             sm_transfers := map (\<lambda>(k, item).
               (k, if ts_ConnectionID (tf_state item) = sn_connectionID s \<and>
                      ts_ContextID (tf_state item) = sn_contextID s \<and>
                      ts_Generation (tf_state item) = sn_generation s
                   then CancelTransfer item else item)) (sm_transfers m)\<rparr>)"

definition activeSession :: "int \<Rightarrow> string \<Rightarrow> sftp_manager \<Rightarrow> string + nat" where
  "activeSession connectionID contextID m =
     (case map_of (sm_sessions m) (sftpSessionKey connectionID contextID) of
        None \<Rightarrow> Inl (zh [83, 70, 84, 80, 32, 23578, 26410, 36830, 25509])
      | Some i \<Rightarrow> if sn_closed (session_at m i) then Inl (zh [83, 70, 84, 80, 32, 20250, 35805, 24050, 20851, 38381]) else Inr i)"

definition IsActive :: "int \<Rightarrow> sftp_manager \<Rightarrow> bool" where
  "IsActive connectionID m =
     list_ex (\<lambda>(key, i). sn_connectionID (session_at m i) = connectionID) (sm_sessions m)"

section \<open>Stopping\<close>

definition closed_state :: "string \<Rightarrow> int \<Rightarrow> string \<Rightarrow> string \<Rightarrow> int \<Rightarrow> browser_state" where
  "closed_state now connectionID contextID terminalSessionID generation =
     \<lparr>sstate_ConnectionID = connectionID, sstate_Status = SFTPStatusOffline, sstate_Active = False,
      bs_ContextID = contextID, bs_TerminalSessionID = terminalSessionID,
      bs_Generation = generation, bs_Mode = SFTPModeOther [], bs_Capabilities = no_capabilities,
      bs_CurrentPath = [], bs_Message = ''SFTP closed'', bs_UpdatedAt = now\<rparr>"

definition StopContext :: "string \<Rightarrow> int \<Rightarrow> string \<Rightarrow> sftp_manager \<Rightarrow> sftp_manager" where
  "StopContext now connectionID contextID m =
     (let contextID = normalizeContextID connectionID contextID;
          key = sftpSessionKey connectionID contextID;
          current = map_of (sm_sessions m) key;
          m = m\<lparr>sm_sessions := AList.delete key (sm_sessions m)\<rparr>;
          (generation, m) = nextGenerationLocked connectionID contextID m;
          terminal = (case current of None \<Rightarrow> [] | Some i \<Rightarrow> sn_terminalSessionID (session_at m i));
          m = setStateLocked (closed_state now connectionID contextID terminal generation) m;
          m = cancel_transfers (\<lambda>t. ts_ConnectionID t = connectionID \<and> ts_ContextID t = contextID) m
      in case current of None \<Rightarrow> m | Some i \<Rightarrow> closeSession i m)"

text \<open>
  The contexts of a server, with their terminal sessions: those of its sessions, and those of
  its states, which come later in the map and overwrite them.
\<close>

definition stop_contexts :: "int \<Rightarrow> sftp_manager \<Rightarrow> (string, string) gomap" where
  "stop_contexts connectionID m =
     foldl (\<lambda>cs (key, st). if sstate_ConnectionID st = connectionID
              then AList.update (normalizeContextID connectionID (bs_ContextID st))
                     (bs_TerminalSessionID st) cs
              else cs)
       (foldl (\<lambda>cs (key, i). if sn_connectionID (session_at m i) = connectionID
                then AList.update (sn_contextID (session_at m i))
                       (sn_terminalSessionID (session_at m i)) cs
                else cs) [] (sm_sessions m))
       (sm_states m)"

definition stop_context_state :: "string \<Rightarrow> int \<Rightarrow> sftp_manager \<Rightarrow> string \<times> string \<Rightarrow> sftp_manager" where
  "stop_context_state now connectionID m ctx =
     (let (generation, m) = nextGenerationLocked connectionID (fst ctx) m
      in setStateLocked (closed_state now connectionID (fst ctx) (snd ctx) generation) m)"

definition Stop :: "string \<Rightarrow> int \<Rightarrow> sftp_manager \<Rightarrow> sftp_manager" where
  "Stop now connectionID m =
     (let mine = (\<lambda>(key, i). sn_connectionID (session_at m i) = connectionID);
          sessions = map snd (filter mine (sm_sessions m));
          contexts = stop_contexts connectionID m;
          m = m\<lparr>sm_sessions := filter (\<lambda>e. \<not> mine e) (sm_sessions m)\<rparr>;
          m = (if contexts = [] then stop_context_state now connectionID m ([], []) else m);
          m = foldl (stop_context_state now connectionID) m contexts;
          m = cancel_transfers (\<lambda>t. ts_ConnectionID t = connectionID) m
      in fold closeSession sessions m)"

definition StopAll :: "string \<Rightarrow> sftp_manager \<Rightarrow> sftp_manager" where
  "StopAll now m =
     foldl (\<lambda>m connectionID. Stop now connectionID m) m
       (uniq_seen {} (map (\<lambda>(key, i). sn_connectionID (session_at m i)) (sm_sessions m)))"

section \<open>Losing a session\<close>

definition lost_state :: "string \<Rightarrow> session \<Rightarrow> int \<Rightarrow> string \<Rightarrow> browser_state" where
  "lost_state now s generation message =
     \<lparr>sstate_ConnectionID = sn_connectionID s, sstate_Status = SFTPStatusError,
      sstate_Active = False, bs_ContextID = sn_contextID s,
      bs_TerminalSessionID = sn_terminalSessionID s, bs_Generation = generation,
      bs_Mode = sn_mode s, bs_Capabilities = sftpModeCapabilities (sn_mode s),
      bs_CurrentPath = sn_currentPath s, bs_Message = message, bs_UpdatedAt = now\<rparr>"

text \<open>What the failure of the keepalive and of an operation on a dead transport share.\<close>

definition lose_session ::
  "string \<Rightarrow> nat \<Rightarrow> string \<Rightarrow> (SFTPTransferState \<Rightarrow> bool) \<Rightarrow> sftp_manager \<Rightarrow> sftp_manager" where
  "lose_session now i message P m =
     (if \<not> isCurrentSessionLocked i m then m
      else let s = session_at m i;
               key = sftpSessionKey (sn_connectionID s) (sn_contextID s);
               m = m\<lparr>sm_sessions := AList.delete key (sm_sessions m)\<rparr>;
               (generation, m) = nextGenerationLocked (sn_connectionID s) (sn_contextID s) m;
               m = setStateLocked (lost_state now s generation message) m;
               m = cancel_transfers P m
           in closeSession i m)"

definition handleKeepaliveFailure :: "string \<Rightarrow> nat \<Rightarrow> sftp_manager \<Rightarrow> sftp_manager" where
  "handleKeepaliveFailure now i m =
     (let s = session_at m i
      in lose_session now i (zh [83, 83, 72, 32, 20445, 27963, 22833, 36133, 65292, 83, 70, 84, 80, 32, 36830, 25509, 24050, 26029, 24320])
           (\<lambda>t. ts_ConnectionID t = sn_connectionID s \<and> ts_ContextID t = sn_contextID s) m)"

definition invalidateSession :: "string \<Rightarrow> nat \<Rightarrow> string \<Rightarrow> sftp_manager \<Rightarrow> sftp_manager" where
  "invalidateSession now i message m =
     (let s = session_at m i
      in lose_session now i message
           (\<lambda>t. ts_ConnectionID t = sn_connectionID s \<and> ts_ContextID t = sn_contextID s \<and>
                ts_Generation t = sn_generation s) m)"

section \<open>Opening\<close>

text \<open>
  The first half of \<open>open\<close>: the state to return at once, or the generation of an opening that
  has begun.
\<close>

definition open_begin ::
  "string \<Rightarrow> int \<Rightarrow> string \<Rightarrow> string \<Rightarrow> bool \<Rightarrow> sftp_manager \<Rightarrow> (browser_state + int) \<times> sftp_manager" where
  "open_begin now connectionID contextID terminalSessionID force m =
     (let contextID = normalizeContextID connectionID contextID;
          key = sftpSessionKey connectionID contextID;
          st = stateLocked now connectionID contextID m;
          (currentGeneration, m) = generationLocked connectionID contextID m;
          currentSession = map_of (sm_sessions m) key
      in if \<not> force \<and> sstate_Status st = SFTPStatusOnline \<and> currentSession \<noteq> None \<and>
            bs_Generation st = currentGeneration then (Inl st, m)
         else if \<not> force \<and> sstate_Status st = SFTPStatusConnecting \<and> bs_Generation st = currentGeneration
           then (Inl st, m)
         else if \<not> force \<and> currentSession \<noteq> None then (Inl st, m)
         else let (generation, m) = nextGenerationLocked connectionID contextID m
           in (Inr generation,
               setStateLocked
                 \<lparr>sstate_ConnectionID = connectionID, sstate_Status = SFTPStatusConnecting,
                  sstate_Active = True, bs_ContextID = contextID,
                  bs_TerminalSessionID = terminalSessionID, bs_Generation = generation,
                  bs_Mode = SFTPModeSFTP, bs_Capabilities = sftpModeCapabilities SFTPModeSFTP,
                  bs_CurrentPath = [], bs_Message = (zh [27491, 22312, 36830, 25509, 32, 83, 70, 84, 80]), bs_UpdatedAt = now\<rparr> m))"

text \<open>An opening under way, and how its dialing ended.\<close>

record pending_open =
  po_connection :: Connection
  po_contextID :: string
  po_terminalSessionID :: string
  po_generation :: int

datatype open_outcome = OpenFailed goerr | OpenedSFTP string | OpenedSCP string

definition failOpen ::
  "platform_errno \<Rightarrow> string \<Rightarrow> pending_open \<Rightarrow> goerr \<Rightarrow> sftp_manager \<Rightarrow> sftp_manager" where
  "failOpen pf now p err m =
     (let connectionID = conn_ID (po_connection p);
          contextID = normalizeContextID connectionID (po_contextID p);
          st = \<lparr>sstate_ConnectionID = connectionID, sstate_Status = SFTPStatusError,
                sstate_Active = False, bs_ContextID = contextID,
                bs_TerminalSessionID = po_terminalSessionID p, bs_Generation = po_generation p,
                bs_Mode = SFTPModeSFTP, bs_Capabilities = sftpModeCapabilities SFTPModeSFTP,
                bs_CurrentPath = [],
                bs_Message = ce_UserMessage (classifySFTPOpenError pf err (po_connection p) now),
                bs_UpdatedAt = now\<rparr>;
          key = sftpSessionKey connectionID contextID;
          m = (if sm_generations m key = po_generation p
               then m\<lparr>sm_states := AList.update key st (sm_states m),
                      sm_sessions := AList.delete key (sm_sessions m)\<rparr>
               else m)
      in m\<lparr>sm_emitted := st # sm_emitted m\<rparr>)"

text \<open>The second half of \<open>open\<close> and of \<open>openSCPFallback\<close>, once the server has answered.\<close>

definition install_session ::
  "string \<Rightarrow> pending_open \<Rightarrow> SFTPMode \<Rightarrow> string \<Rightarrow> string \<Rightarrow> sftp_manager \<Rightarrow> sftp_manager" where
  "install_session now p mode home message m =
     (let connectionID = conn_ID (po_connection p);
          key = sftpSessionKey connectionID (po_contextID p);
          i = length (sm_heap m);
          s = \<lparr>sn_connectionID = connectionID, sn_contextID = po_contextID p,
               sn_terminalSessionID = po_terminalSessionID p, sn_generation = po_generation p,
               sn_mode = mode, sn_currentPath = home, sn_homePath = home, sn_closed = False\<rparr>;
          m = m\<lparr>sm_heap := sm_heap m @ [s]\<rparr>
      in if sm_generations m key \<noteq> po_generation p then closeSession i m
         else let m = (case map_of (sm_sessions m) key of None \<Rightarrow> m | Some previous \<Rightarrow> closeSession previous m);
                  m = m\<lparr>sm_sessions := AList.update key i (sm_sessions m)\<rparr>
              in setStateLocked
                   \<lparr>sstate_ConnectionID = connectionID, sstate_Status = SFTPStatusOnline,
                    sstate_Active = True, bs_ContextID = po_contextID p,
                    bs_TerminalSessionID = po_terminalSessionID p, bs_Generation = po_generation p,
                    bs_Mode = mode, bs_Capabilities = sftpModeCapabilities mode,
                    bs_CurrentPath = home, bs_Message = message, bs_UpdatedAt = now\<rparr> m)"

definition open_finish ::
  "platform_errno \<Rightarrow> string \<Rightarrow> pending_open \<Rightarrow> open_outcome \<Rightarrow> sftp_manager \<Rightarrow> sftp_manager" where
  "open_finish pf now p outcome m =
     (case outcome of
        OpenFailed err \<Rightarrow> failOpen pf now p err m
      | OpenedSFTP home \<Rightarrow>
          install_session now p SFTPModeSFTP (cleanRemotePath home) (zh [83, 70, 84, 80, 32, 24050, 36830, 25509]) m
      | OpenedSCP home \<Rightarrow>
          install_session now p SFTPModeSCP home
            (zh [24403, 21069, 26381, 21153, 22120, 19981, 25903, 25345, 32, 83, 70, 84, 80, 65292, 24050, 20351, 29992, 32, 83, 67, 80, 32, 20860, 23481, 27169, 24335, 65292, 37096, 20998, 25991, 20214, 31649, 29702, 33021, 21147, 21463, 38480, 12290]) m)"

section \<open>Listing\<close>

text \<open>The two writes of \<open>List\<close> after its check, each in a critical section of its own.\<close>

definition list_set_path :: "nat \<Rightarrow> string \<Rightarrow> sftp_manager \<Rightarrow> sftp_manager" where
  "list_set_path i path m =
     (if sn_closed (session_at m i) then m
      else m\<lparr>sm_heap := (sm_heap m)[i := (session_at m i)\<lparr>sn_currentPath := path\<rparr>]\<rparr>)"

definition list_set_state :: "string \<Rightarrow> int \<Rightarrow> string \<Rightarrow> SFTPMode \<Rightarrow> string \<Rightarrow> sftp_manager \<Rightarrow> sftp_manager" where
  "list_set_state now connectionID contextID mode path m =
     setStateLocked ((stateLocked now connectionID contextID m)
       \<lparr>bs_CurrentPath := path, sstate_Status := SFTPStatusOnline, sstate_Active := True,
        bs_Mode := mode, bs_Capabilities := sftpModeCapabilities mode,
        bs_Message := (if mode = SFTPModeSCP
          then (zh [83, 67, 80, 32, 20860, 23481, 27169, 24335, 65306, 24050, 20351, 29992, 32, 83, 67, 80, 32, 43, 32, 83, 104, 101, 108, 108, 32, 20860, 23481, 25991, 20214, 31649, 29702, 12290]) else (zh [83, 70, 84, 80, 32, 24050, 36830, 25509])),
        bs_UpdatedAt := now\<rparr>) m"

section \<open>Everything interleaved\<close>

text \<open>
  The manager, the openings that are dialing, and the listings that have passed their check and
  not written yet. \<open>sw_clock\<close> counts the steps; the code does not have it.
\<close>

record pending_list =
  pl_session :: nat
  pl_path :: string
  pl_mode :: SFTPMode

record sftp_world =
  sw_m :: sftp_manager
  sw_opens :: "pending_open list"
  sw_lists :: "pending_list list"
  sw_clock :: nat

datatype sftp_label =
    LOpen Connection string string bool
  | LOpened nat open_outcome
  | LStopContext int string
  | LStop int
  | LKeepaliveFailed nat
  | LInvalidate nat string
  | LListChecked nat string SFTPMode
  | LListPath nat
  | LListState nat

definition remove_nth :: "nat \<Rightarrow> 'a list \<Rightarrow> 'a list" where
  "remove_nth n xs = take n xs @ drop (Suc n) xs"

fun sftp_effect :: "platform_errno \<Rightarrow> string \<Rightarrow> sftp_label \<Rightarrow> sftp_world \<Rightarrow> sftp_world" where
  "sftp_effect pf now (LOpen connection contextID terminal force) w =
     (case open_begin now (conn_ID connection) contextID terminal force (sw_m w) of
        (Inl st, m) \<Rightarrow> w\<lparr>sw_m := m\<rparr>
      | (Inr generation, m) \<Rightarrow>
          w\<lparr>sw_m := m,
            sw_opens := sw_opens w @
              [\<lparr>po_connection = connection,
                po_contextID = normalizeContextID (conn_ID connection) contextID,
                po_terminalSessionID = terminal, po_generation = generation\<rparr>]\<rparr>)"
| "sftp_effect pf now (LOpened n outcome) w =
     (if n < length (sw_opens w)
      then w\<lparr>sw_m := open_finish pf now (sw_opens w ! n) outcome (sw_m w),
             sw_opens := remove_nth n (sw_opens w)\<rparr>
      else w)"
| "sftp_effect pf now (LStopContext connectionID contextID) w =
     w\<lparr>sw_m := StopContext now connectionID contextID (sw_m w)\<rparr>"
| "sftp_effect pf now (LStop connectionID) w = w\<lparr>sw_m := Stop now connectionID (sw_m w)\<rparr>"
| "sftp_effect pf now (LKeepaliveFailed i) w =
     (if i < length (sm_heap (sw_m w)) then w\<lparr>sw_m := handleKeepaliveFailure now i (sw_m w)\<rparr> else w)"
| "sftp_effect pf now (LInvalidate i message) w =
     (if i < length (sm_heap (sw_m w)) then w\<lparr>sw_m := invalidateSession now i message (sw_m w)\<rparr> else w)"
| "sftp_effect pf now (LListChecked i path mode) w =
     (if i < length (sm_heap (sw_m w)) \<and> isCurrentSessionLocked i (sw_m w)
      then w\<lparr>sw_lists := sw_lists w @ [\<lparr>pl_session = i, pl_path = path, pl_mode = mode\<rparr>]\<rparr> else w)"
| "sftp_effect pf now (LListPath n) w =
     (if n < length (sw_lists w)
      then w\<lparr>sw_m := list_set_path (pl_session (sw_lists w ! n)) (pl_path (sw_lists w ! n)) (sw_m w)\<rparr>
      else w)"
| "sftp_effect pf now (LListState n) w =
     (if n < length (sw_lists w)
      then let l = sw_lists w ! n; s = session_at (sw_m w) (pl_session l)
        in w\<lparr>sw_m := list_set_state now (sn_connectionID s) (sn_contextID s) (pl_mode l) (pl_path l) (sw_m w),
             sw_lists := remove_nth n (sw_lists w)\<rparr>
      else w)"

definition sftp_next :: "platform_errno \<Rightarrow> sftp_world \<Rightarrow> string \<times> sftp_label \<Rightarrow> sftp_world" where
  "sftp_next pf w x = (sftp_effect pf (fst x) (snd x) w)\<lparr>sw_clock := Suc (sw_clock w)\<rparr>"

definition sftp_run :: "platform_errno \<Rightarrow> sftp_world \<Rightarrow> (string \<times> sftp_label) list \<Rightarrow> sftp_world" where
  "sftp_run pf w xs = foldl (sftp_next pf) w xs"

definition new_sftp_world :: sftp_world where
  "new_sftp_world = \<lparr>sw_m = new_sftp_manager, sw_opens = [], sw_lists = [], sw_clock = 0\<rparr>"

section \<open>Keys\<close>

lemma space_runes_last: "r \<in> set space_runes \<Longrightarrow> d < 10 \<Longrightarrow> last r \<noteq> digit_char d"
proof -
  assume r: "r \<in> set space_runes" and d: "d < 10"
  have "of_char (last r) < (48 :: nat) \<or> of_char (last r) > (57 :: nat)"
    using r by (auto simp: space_runes_def)
  then show ?thesis using of_char_digit_char [OF d] d by auto
qed

lemma server_context_trimmed: "TrimSpace (''server:'' @ Itoa i) = ''server:'' @ Itoa i"
proof (rule TrimSpace_id)
  show "space_len (''server:'' @ Itoa i) = 0" by (auto simp: space_len_0_iff space_runes_def)
  show "space_len_end (''server:'' @ Itoa i) = 0"
    unfolding space_len_end_0_iff
  proof (intro ballI notI)
    fix r assume r: "r \<in> set space_runes" "suffix r (''server:'' @ Itoa i)"
    then obtain t where t: "''server:'' @ Itoa i = t @ r" by (auto simp: suffix_def)
    have "last (t @ r) = last (Itoa i)" by (metis t Itoa_nonempty last_appendR)
    moreover have "r \<noteq> []" using r(1) by (rule space_runes_nonempty)
    ultimately show False using space_runes_last [OF r(1)] Itoa_last_digit [of i] by auto
  qed
qed

lemma normalizeContextID_idem [simp]:
  "normalizeContextID i (normalizeContextID i c) = normalizeContextID i c"
proof (cases "TrimSpace c = []")
  case True
  then have "normalizeContextID i c = ''server:'' @ Itoa i"
    unfolding normalizeContextID_def Let_def by simp
  moreover have "normalizeContextID i (''server:'' @ Itoa i) = ''server:'' @ Itoa i"
    unfolding normalizeContextID_def Let_def server_context_trimmed by simp
  ultimately show ?thesis by metis
next
  case False
  then show ?thesis by (simp add: normalizeContextID_def Let_def)
qed

lemma sftpSessionKey_normalize [simp]:
  "sftpSessionKey i (normalizeContextID i c) = sftpSessionKey i c"
  by (simp add: sftpSessionKey_def)

lemma takeWhile_before: "c \<notin> set a \<Longrightarrow> takeWhile (\<lambda>d. d \<noteq> c) (a @ c # x) = a"
  by (induction a) auto

lemma nul_split: "c \<notin> set a \<Longrightarrow> c \<notin> set b \<Longrightarrow> a @ c # x = b @ c # y \<longleftrightarrow> a = b \<and> x = y"
  by (metis takeWhile_before same_append_eq list.inject)

lemma sftpSessionKey_inject:
  "sftpSessionKey i c = sftpSessionKey j d \<longleftrightarrow> i = j \<and> normalizeContextID i c = normalizeContextID j d"
  by (auto simp: sftpSessionKey_def nul_split Itoa_no_nul Itoa_inject)

section \<open>The invariant\<close>

definition session_key :: "session \<Rightarrow> string" where
  "session_key s = sftpSessionKey (sn_connectionID s) (sn_contextID s)"

text \<open>
  Every session of the map is open, under its own key, and not younger than the generation of
  its context; every state is under its own key. No generation is beyond the bound.
\<close>

definition sessions_ok :: "sftp_manager \<Rightarrow> bool" where
  "sessions_ok m \<longleftrightarrow>
     gomap_ok (sm_sessions m) \<and>
     (\<forall>k i. map_of (sm_sessions m) k = Some i \<longrightarrow>
        i < length (sm_heap m) \<and> k = session_key (session_at m i) \<and> \<not> sn_closed (session_at m i) \<and>
        normalizeContextID (sn_connectionID (session_at m i)) (sn_contextID (session_at m i)) =
          sn_contextID (session_at m i) \<and>
        sn_generation (session_at m i) \<le> sm_generations m k)"

definition states_ok :: "sftp_manager \<Rightarrow> bool" where
  "states_ok m \<longleftrightarrow>
     gomap_ok (sm_states m) \<and>
     (\<forall>k st. map_of (sm_states m) k = Some st \<longrightarrow>
        k = sftpSessionKey (sstate_ConnectionID st) (bs_ContextID st) \<and>
        normalizeContextID (sstate_ConnectionID st) (bs_ContextID st) = bs_ContextID st)"

definition generations_ok :: "int \<Rightarrow> sftp_manager \<Rightarrow> bool" where
  "generations_ok B m \<longleftrightarrow> (\<forall>k. 0 \<le> sm_generations m k \<and> sm_generations m k \<le> B)"

definition manager_ok :: "int \<Rightarrow> sftp_manager \<Rightarrow> bool" where
  "manager_ok B m \<longleftrightarrow> sessions_ok m \<and> states_ok m \<and> generations_ok B m"

lemmas manager_ok_defs = manager_ok_def sessions_ok_def states_ok_def generations_ok_def

text \<open>
  What no operation undoes: generations and the heap only grow, a context that has a state keeps
  one, and a session keeps its server, its context and its generation.
\<close>

definition session_ident :: "sftp_manager \<Rightarrow> nat \<Rightarrow> int \<times> string \<times> int" where
  "session_ident m i =
     (let s = session_at m i in (sn_connectionID s, sn_contextID s, sn_generation s))"

definition grows :: "sftp_manager \<Rightarrow> sftp_manager \<Rightarrow> bool" where
  "grows m m' \<longleftrightarrow>
     (\<forall>k. sm_generations m k \<le> sm_generations m' k) \<and>
     dom (map_of (sm_states m)) \<subseteq> dom (map_of (sm_states m')) \<and>
     length (sm_heap m) \<le> length (sm_heap m') \<and>
     (\<forall>i < length (sm_heap m). session_ident m' i = session_ident m i)"

lemma grows_refl [simp]: "grows m m"
  by (simp add: grows_def)

lemma grows_ident: "grows m m' \<Longrightarrow> i < length (sm_heap m) \<Longrightarrow> session_ident m' i = session_ident m i"
  by (simp add: grows_def)

lemma grows_trans:
  assumes "grows m1 m2" "grows m2 m3"
  shows "grows m1 m3"
proof -
  have "sm_generations m1 k \<le> sm_generations m3 k" for k
    using assms order_trans [of "sm_generations m1 k" "sm_generations m2 k"] by (simp add: grows_def)
  moreover have "dom (map_of (sm_states m1)) \<subseteq> dom (map_of (sm_states m3))"
    using assms unfolding grows_def by (elim conjE) (erule (1) subset_trans)
  ultimately show ?thesis using assms by (simp add: grows_def)
qed

lemmas grows_defs = grows_def session_ident_def session_at_def

text \<open>Removing sessions from the map.\<close>

lemma drop_sessions:
  assumes "manager_ok B m" "gomap_ok ss"
    "\<forall>k i. map_of ss k = Some i \<longrightarrow> map_of (sm_sessions m) k = Some i"
  shows "manager_ok B (m\<lparr>sm_sessions := ss\<rparr>)" "grows m (m\<lparr>sm_sessions := ss\<rparr>)"
  using assms by (auto simp: manager_ok_defs grows_defs)

lemma delete_session:
  assumes "manager_ok B m"
  shows "manager_ok B (m\<lparr>sm_sessions := AList.delete k (sm_sessions m)\<rparr>)"
    "grows m (m\<lparr>sm_sessions := AList.delete k (sm_sessions m)\<rparr>)"
  by (rule drop_sessions [OF assms]; use assms in \<open>auto simp: manager_ok_defs gomap_simps\<close>)+

lemma next_generation_room: "0 \<le> g \<Longrightarrow> g + 1 < 2 ^ 63 \<Longrightarrow> next_generation g = g + 1"
  by (simp add: next_generation_def wrap64_def)

lemma sessions_raise:
  "sessions_ok m \<Longrightarrow> (\<forall>k. sm_generations m k \<le> gs k) \<Longrightarrow> sessions_ok (m\<lparr>sm_generations := gs\<rparr>)"
  unfolding sessions_ok_def session_at_def by (auto intro: order_trans)

lemma manager_ok_mono: "manager_ok B m \<Longrightarrow> B \<le> B' \<Longrightarrow> manager_ok B' m"
  by (auto simp: manager_ok_def generations_ok_def intro: order_trans)

lemma next_generation_ok:
  assumes "nextGenerationLocked i c m = (g, m')" "manager_ok B m"
    "sm_generations m (sftpSessionKey i c) + 1 \<le> B" "B < 2 ^ 63"
  shows "manager_ok B m'" "grows m m'" "g = sm_generations m (sftpSessionKey i c) + 1"
    "sm_generations m' = (sm_generations m)(sftpSessionKey i c := g)" "g > 0"
    "sm_sessions m' = sm_sessions m" "sm_states m' = sm_states m" "sm_heap m' = sm_heap m"
    "sm_transfers m' = sm_transfers m" "sm_emitted m' = sm_emitted m"
proof -
  let ?k = "sftpSessionKey i c"
  have range: "0 \<le> sm_generations m k \<and> sm_generations m k \<le> B" for k
    using assms(2) by (simp add: manager_ok_defs)
  then have n: "next_generation (sm_generations m ?k) = sm_generations m ?k + 1"
    using assms(3,4) by (intro next_generation_room) auto
  have eqs: "g = sm_generations m ?k + 1" "m' = m\<lparr>sm_generations := (sm_generations m)(?k := g)\<rparr>"
    using assms(1) n by (auto simp: nextGenerationLocked_def Let_def)
  show "g = sm_generations m ?k + 1" by (rule eqs(1))
  have "sessions_ok m'" unfolding eqs(2)
    by (rule sessions_raise) (use assms(2) eqs(1) in \<open>auto simp: manager_ok_def\<close>)
  moreover have "generations_ok B m'"
    using range range [of ?k] assms(3) eqs(1) unfolding eqs(2) by (auto simp: generations_ok_def)
  ultimately show "manager_ok B m'"
    using assms(2) by (simp add: manager_ok_def states_ok_def eqs(2))
  show "grows m m'" using eqs(1) unfolding eqs(2) by (simp add: grows_defs)
  show "g > 0" using eqs(1) range [of ?k] by simp
qed (use assms(1) in \<open>auto simp: nextGenerationLocked_def Let_def\<close>)

lemma generationLocked_shape:
  "generationLocked i c m =
     (if sm_generations m (sftpSessionKey i c) > 0 then sm_generations m (sftpSessionKey i c) else 1,
      m\<lparr>sm_generations := (sm_generations m)(sftpSessionKey i c :=
           if sm_generations m (sftpSessionKey i c) > 0 then sm_generations m (sftpSessionKey i c) else 1)\<rparr>)"
  by (simp add: generationLocked_def Let_def)

definition state_key :: "browser_state \<Rightarrow> string" where
  "state_key st = sftpSessionKey (sstate_ConnectionID st) (bs_ContextID st)"

definition state_generation :: "browser_state \<Rightarrow> sftp_manager \<Rightarrow> int" where
  "state_generation st m =
     (if bs_Generation st \<noteq> 0 then bs_Generation st
      else if sm_generations m (state_key st) > 0 then sm_generations m (state_key st) else 1)"

definition shown_state :: "browser_state \<Rightarrow> sftp_manager \<Rightarrow> browser_state" where
  "shown_state st m =
     (let mode = (if bs_Mode st = SFTPModeOther [] then SFTPModeSFTP else bs_Mode st)
      in st\<lparr>bs_Mode := mode,
            bs_ContextID := normalizeContextID (sstate_ConnectionID st) (bs_ContextID st),
            bs_Generation := state_generation st m,
            bs_Capabilities := (if cap_Browse (bs_Capabilities st) = []
              then sftpModeCapabilities mode else bs_Capabilities st)\<rparr>)"

lemma setStateLocked_shape:
  "setStateLocked st m =
     m\<lparr>sm_generations := (if bs_Generation st \<noteq> 0 then sm_generations m
                          else (sm_generations m)(state_key st := state_generation st m)),
       sm_states := AList.update (state_key st) (shown_state st m) (sm_states m),
       sm_emitted := shown_state st m # sm_emitted m\<rparr>"
  by (cases "bs_Generation st = 0"; cases "bs_Mode st = SFTPModeOther []";
      cases "cap_Browse (bs_Capabilities st) = []";
      simp add: setStateLocked_def generationLocked_shape Let_def shown_state_def state_generation_def state_key_def)

lemma shown_state_simps [simp]:
  "sstate_ConnectionID (shown_state st m) = sstate_ConnectionID st"
  "bs_ContextID (shown_state st m) = normalizeContextID (sstate_ConnectionID st) (bs_ContextID st)"
  "sstate_Status (shown_state st m) = sstate_Status st" "sstate_Active (shown_state st m) = sstate_Active st"
  "state_key (shown_state st m) = state_key st"
  by (simp_all add: shown_state_def Let_def state_key_def)

lemma setState_ok:
  assumes "manager_ok B m" "1 \<le> B"
  shows "manager_ok B (setStateLocked st m)" "grows m (setStateLocked st m)"
    "sm_sessions (setStateLocked st m) = sm_sessions m" "sm_heap (setStateLocked st m) = sm_heap m"
    "map_of (sm_states (setStateLocked st m)) (state_key st) \<noteq> None"
    "bs_Generation st \<noteq> 0 \<Longrightarrow> sm_generations (setStateLocked st m) = sm_generations m"
proof -
  define gs where "gs = (if bs_Generation st \<noteq> 0 then sm_generations m
    else (sm_generations m)(state_key st := state_generation st m))"
  have range: "0 \<le> sm_generations m k \<and> sm_generations m k \<le> B" for k
    using assms(1) by (simp add: manager_ok_defs)
  have gs: "0 \<le> gs k \<and> gs k \<le> B \<and> sm_generations m k \<le> gs k" for k
    using range [of k] assms(2) by (auto simp: gs_def state_generation_def)
  note shape = setStateLocked_shape [of st m, folded gs_def]
  have "sessions_ok (m\<lparr>sm_generations := gs\<rparr>)"
    using assms(1) gs by (auto simp: manager_ok_def intro: sessions_raise)
  then have "sessions_ok (setStateLocked st m)" by (simp add: shape sessions_ok_def session_at_def)
  moreover have "states_ok (setStateLocked st m)"
    using assms(1) by (auto simp: shape manager_ok_def states_ok_def gomap_simps state_key_def split: if_splits)
  ultimately show "manager_ok B (setStateLocked st m)"
    using gs by (simp add: manager_ok_def generations_ok_def shape)
  show "grows m (setStateLocked st m)"
    using gs by (auto simp: shape grows_defs gomap_simps)
qed (simp_all add: setStateLocked_shape gomap_simps)

lemma cancel_transfers_ok:
  "manager_ok B (cancel_transfers P m) = manager_ok B m" "grows m (cancel_transfers P m)"
  "sm_sessions (cancel_transfers P m) = sm_sessions m" "sm_heap (cancel_transfers P m) = sm_heap m"
  "sm_generations (cancel_transfers P m) = sm_generations m" "sm_states (cancel_transfers P m) = sm_states m"
  by (simp_all add: cancel_transfers_def manager_ok_defs grows_defs)

lemma closeSession_parts:
  "sm_sessions (closeSession i m) = sm_sessions m" "sm_generations (closeSession i m) = sm_generations m"
  "sm_states (closeSession i m) = sm_states m" "length (sm_heap (closeSession i m)) = length (sm_heap m)"
  "j \<noteq> i \<Longrightarrow> session_at (closeSession i m) j = session_at m j" "grows m (closeSession i m)"
  by (cases "i < length (sm_heap m)"; auto simp: closeSession_def Let_def grows_defs nth_list_update)+

lemma closeSession_ok:
  assumes "manager_ok B m" "\<forall>k. map_of (sm_sessions m) k \<noteq> Some i"
  shows "manager_ok B (closeSession i m)"
proof -
  have "session_at (closeSession i m) j = session_at m j" if "map_of (sm_sessions m) k = Some j" for k j
    using that assms(2) by (intro closeSession_parts(5)) auto
  then show ?thesis using assms(1) by (auto simp: manager_ok_defs closeSession_parts)
qed

lemma closeSessions_ok:
  "manager_ok B m \<Longrightarrow> (\<forall>i \<in> set is. \<forall>k. map_of (sm_sessions m) k \<noteq> Some i) \<Longrightarrow>
   manager_ok B (fold closeSession is m) \<and> grows m (fold closeSession is m) \<and>
   sm_sessions (fold closeSession is m) = sm_sessions m \<and>
   sm_generations (fold closeSession is m) = sm_generations m \<and>
   sm_states (fold closeSession is m) = sm_states m"
proof (induction "is" arbitrary: m)
  case (Cons i "is")
  have "manager_ok B (closeSession i m)" using Cons.prems by (intro closeSession_ok) auto
  moreover have "\<forall>i \<in> set is. \<forall>k. map_of (sm_sessions (closeSession i m)) k \<noteq> Some i"
    using Cons.prems by (simp add: closeSession_parts)
  ultimately show ?case
    using Cons.IH [of "closeSession i m"] Cons.prems grows_trans [OF closeSession_parts(6) [of m i]]
    by (auto simp: closeSession_parts)
qed simp

section \<open>The operations keep the invariant\<close>

lemma closed_state_simps [simp]:
  "sstate_ConnectionID (closed_state now i c t g) = i" "bs_ContextID (closed_state now i c t g) = c"
  "bs_Generation (closed_state now i c t g) = g" "sstate_Active (closed_state now i c t g) = False"
  "sstate_Status (closed_state now i c t g) = SFTPStatusOffline"
  "state_key (closed_state now i c t g) = sftpSessionKey i c"
  by (simp_all add: closed_state_def state_key_def)

lemma lost_state_simps [simp]:
  "state_key (lost_state now s g msg) = session_key s" "bs_Generation (lost_state now s g msg) = g"
  by (simp_all add: lost_state_def state_key_def session_key_def)

text \<open>A generation raised and the state that tells of it.\<close>

lemma raise_and_set:
  assumes "nextGenerationLocked i c m = (g, m')" "manager_ok B m"
    "sm_generations m (sftpSessionKey i c) + 1 \<le> B" "B < 2 ^ 63" "state_key st = sftpSessionKey i c"
    "bs_Generation st = g"
  shows "manager_ok B (setStateLocked st m')" "grows m (setStateLocked st m')"
    "sm_sessions (setStateLocked st m') = sm_sessions m" "sm_heap (setStateLocked st m') = sm_heap m"
    "sm_generations (setStateLocked st m') =
       (sm_generations m)(sftpSessionKey i c := sm_generations m (sftpSessionKey i c) + 1)"
    "map_of (sm_states (setStateLocked st m')) (sftpSessionKey i c) \<noteq> None"
proof -
  note n = next_generation_ok [OF assms(1-4)]
  have "0 \<le> sm_generations m (sftpSessionKey i c)" using assms(2) by (simp add: manager_ok_defs)
  then have "1 \<le> B" using assms(3) by simp
  note t = setState_ok [OF n(1) this, of st]
  have g: "bs_Generation st \<noteq> 0" using n(5) assms(6) by simp
  show "manager_ok B (setStateLocked st m')" by (rule t(1))
  show "grows m (setStateLocked st m')" by (rule grows_trans [OF n(2) t(2)])
  show "sm_sessions (setStateLocked st m') = sm_sessions m" using t(3) n(6) by simp
  show "sm_heap (setStateLocked st m') = sm_heap m" using t(4) n(8) by simp
  show "sm_generations (setStateLocked st m') =
       (sm_generations m)(sftpSessionKey i c := sm_generations m (sftpSessionKey i c) + 1)"
    using t(6) [OF g] n(3,4) by simp
  show "map_of (sm_states (setStateLocked st m')) (sftpSessionKey i c) \<noteq> None" using t(5) assms(5) by simp
qed

lemma manager_ok_gen: "manager_ok B m \<Longrightarrow> sm_generations m k \<le> B" "manager_ok B m \<Longrightarrow> 0 \<le> sm_generations m k"
  by (simp_all add: manager_ok_defs)

lemma session_of_key:
  "manager_ok B m \<Longrightarrow> map_of (sm_sessions m) k = Some i \<Longrightarrow>
   k = session_key (session_at m i) \<and> i < length (sm_heap m) \<and> \<not> sn_closed (session_at m i) \<and>
   normalizeContextID (sn_connectionID (session_at m i)) (sn_contextID (session_at m i)) =
     sn_contextID (session_at m i) \<and> sn_generation (session_at m i) \<le> sm_generations m k"
  unfolding manager_ok_def sessions_ok_def by blast

lemma map_of_deleted: "manager_ok B m \<Longrightarrow> map_of (sm_sessions m) k = Some i \<Longrightarrow>
   map_of (AList.delete k (sm_sessions m)) k' \<noteq> Some i"
  by (metis (no_types) session_of_key fun_upd_apply gomap_get_delete option.distinct(1))

lemma StopContext_ok:
  assumes "manager_ok B m" "B + 1 < 2 ^ 63"
  shows "manager_ok (B + 1) (StopContext now i c m) \<and> grows m (StopContext now i c m) \<and>
    map_of (sm_sessions (StopContext now i c m)) (sftpSessionKey i c) = None \<and>
    sm_generations m (sftpSessionKey i c) < sm_generations (StopContext now i c m) (sftpSessionKey i c) \<and>
    map_of (sm_states (StopContext now i c m)) (sftpSessionKey i c) \<noteq> None \<and>
    sm_sessions (StopContext now i c m) = AList.delete (sftpSessionKey i c) (sm_sessions m)"
proof -
  let ?k = "sftpSessionKey i c" and ?c = "normalizeContextID i c"
  define m1 where "m1 = m\<lparr>sm_sessions := AList.delete ?k (sm_sessions m)\<rparr>"
  have m1: "manager_ok B m1" "grows m m1" unfolding m1_def by (rule delete_session [OF assms(1)])+
  obtain g m2 where g: "nextGenerationLocked i ?c m1 = (g, m2)" by fastforce
  define term_id where
    "term_id = (case map_of (sm_sessions m) ?k of None \<Rightarrow> [] | Some j \<Rightarrow> sn_terminalSessionID (session_at m2 j))"
  define m3 where "m3 = setStateLocked (closed_state now i ?c term_id g) m2"
  have ok1: "manager_ok (B + 1) m1" using m1(1) by (rule manager_ok_mono) simp
  have room: "sm_generations m1 (sftpSessionKey i ?c) + 1 \<le> B + 1" using manager_ok_gen(1) [OF m1(1)] by simp
  have key: "state_key (closed_state now i ?c term_id g) = sftpSessionKey i ?c" by simp
  have gen: "bs_Generation (closed_state now i ?c term_id g) = g" by simp
  note r = raise_and_set [OF g ok1 room assms(2) key gen, folded m3_def]
  define m4 where "m4 = cancel_transfers (\<lambda>t. ts_ConnectionID t = i \<and> ts_ContextID t = ?c) m3"
  have m4: "manager_ok (B + 1) m4" "grows m m4" "sm_sessions m4 = AList.delete ?k (sm_sessions m)"
    "sm_generations m4 ?k = sm_generations m ?k + 1" "map_of (sm_states m4) ?k \<noteq> None"
    using r grows_trans [OF m1(2) grows_trans [OF r(2) cancel_transfers_ok(2)]]
    by (auto simp: m4_def cancel_transfers_ok m1_def)
  have stop: "StopContext now i c m =
      (case map_of (sm_sessions m) ?k of None \<Rightarrow> m4 | Some j \<Rightarrow> closeSession j m4)"
    using g by (simp add: StopContext_def Let_def m4_def m3_def m1_def term_id_def split: option.splits)
  show ?thesis
  proof (cases "map_of (sm_sessions m) ?k")
    case None
    then show ?thesis using m4 by (simp add: stop gomap_simps)
  next
    case (Some j)
    then have "manager_ok (B + 1) (closeSession j m4)"
      using m4 map_of_deleted [OF assms(1) Some] by (intro closeSession_ok) auto
    then show ?thesis
      using m4 Some grows_trans [OF m4(2) closeSession_parts(6)]
      by (simp add: stop closeSession_parts gomap_simps)
  qed
qed

lemma foldl_update_keys:
  "fst ` set (foldl (\<lambda>cs x. if P x then AList.update (f x) (g x) cs else cs) cs xs) =
   fst ` set cs \<union> f ` {x \<in> set xs. P x}"
proof (induction xs arbitrary: cs)
  case (Cons x xs)
  have "fst ` set (AList.update (f x) (g x) cs) = insert (f x) (fst ` set cs)"
    by (simp add: dom_update)
  then show ?case by (auto simp: Cons.IH)
qed simp

lemma foldl_update_gomap_ok:
  "gomap_ok cs \<Longrightarrow> gomap_ok (foldl (\<lambda>cs x. if P x then AList.update (f x) (g x) cs else cs) cs xs)"
  by (induction xs arbitrary: cs) simp_all

lemma stop_contexts_keys:
  "fst ` set (stop_contexts i m) =
     (\<lambda>e. sn_contextID (session_at m (snd e))) ` {e \<in> set (sm_sessions m). sn_connectionID (session_at m (snd e)) = i} \<union>
     (\<lambda>e. normalizeContextID i (bs_ContextID (snd e))) ` {e \<in> set (sm_states m). sstate_ConnectionID (snd e) = i}"
  "gomap_ok (stop_contexts i m)"
  unfolding stop_contexts_def case_prod_beta
  by (simp_all add: foldl_update_keys foldl_update_gomap_ok)

lemma stop_contexts_normal:
  assumes "manager_ok B m" "c \<in> fst ` set (stop_contexts i m)"
  shows "normalizeContextID i c = c"
proof -
  from assms(2) consider
      e where "e \<in> set (sm_sessions m)" "sn_connectionID (session_at m (snd e)) = i" "c = sn_contextID (session_at m (snd e))"
    | e where "e \<in> set (sm_states m)" "c = normalizeContextID i (bs_ContextID (snd e))"
    unfolding stop_contexts_keys by (elim UnE imageE CollectE conjE) blast+
  then show ?thesis
  proof cases
    case 1
    then have "map_of (sm_sessions m) (fst e) = Some (snd e)"
      using assms(1) by (simp add: manager_ok_def sessions_ok_def gomap_ok_def)
    then show ?thesis using session_of_key [OF assms(1)] 1 by blast
  qed simp
qed

lemma stop_context_keys_distinct:
  assumes "manager_ok B m"
  shows "distinct (map (\<lambda>c. sftpSessionKey i (fst c)) (stop_contexts i m))"
proof -
  have "inj_on (\<lambda>c. sftpSessionKey i c) (fst ` set (stop_contexts i m))"
    using stop_contexts_normal [OF assms] by (auto simp: inj_on_def sftpSessionKey_inject)
  then have "distinct (map (\<lambda>c. sftpSessionKey i c) (map fst (stop_contexts i m)))"
    using stop_contexts_keys(2) [of i m] by (simp add: distinct_map gomap_ok_def comp_inj_on)
  then show ?thesis by (simp add: comp_def)
qed

lemma stop_context_states_ok:
  assumes "manager_ok B m" "distinct (map (\<lambda>c. sftpSessionKey i (fst c)) cs)"
    "\<forall>c \<in> set cs. sm_generations m (sftpSessionKey i (fst c)) + 1 \<le> B" "B < 2 ^ 63"
  shows "manager_ok B (foldl (stop_context_state now i) m cs) \<and>
    grows m (foldl (stop_context_state now i) m cs) \<and>
    sm_sessions (foldl (stop_context_state now i) m cs) = sm_sessions m \<and>
    sm_heap (foldl (stop_context_state now i) m cs) = sm_heap m \<and>
    (\<forall>c \<in> set cs. sm_generations m (sftpSessionKey i (fst c)) <
       sm_generations (foldl (stop_context_state now i) m cs) (sftpSessionKey i (fst c)))"
  using assms
proof (induction cs arbitrary: m)
  case (Cons c cs)
  let ?k = "sftpSessionKey i (fst c)"
  obtain g m2 where g: "nextGenerationLocked i (fst c) m = (g, m2)" by fastforce
  define m' where "m' = stop_context_state now i m c"
  have m': "m' = setStateLocked (closed_state now i (fst c) (snd c) g) m2"
    by (simp add: m'_def stop_context_state_def g)
  have room: "sm_generations m ?k + 1 \<le> B" using Cons.prems(3) by simp
  note r = raise_and_set [OF g Cons.prems(1) room Cons.prems(4), of "closed_state now i (fst c) (snd c) g", folded m']
  have gens: "sm_generations m' = (sm_generations m)(?k := sm_generations m ?k + 1)" by (rule r(5)) simp_all
  have ok: "manager_ok B m'" "grows m m'" "sm_sessions m' = sm_sessions m" "sm_heap m' = sm_heap m"
    using r(1-4) by simp_all
  have other: "sftpSessionKey i (fst e) \<noteq> ?k" if "e \<in> set cs" for e
  proof -
    have "sftpSessionKey i (fst e) \<in> (\<lambda>c. sftpSessionKey i (fst c)) ` set cs" using that by simp
    moreover have "?k \<notin> (\<lambda>c. sftpSessionKey i (fst c)) ` set cs" using Cons.prems(2) by simp
    ultimately show ?thesis by metis
  qed
  have rest: "\<forall>c \<in> set cs. sm_generations m' (sftpSessionKey i (fst c)) + 1 \<le> B"
    using Cons.prems(3) gens other by simp
  have d: "distinct (map (\<lambda>c. sftpSessionKey i (fst c)) cs)" using Cons.prems(2) by simp
  note IH = Cons.IH [OF ok(1) d rest Cons.prems(4)]
  have mono: "sm_generations m' ?k \<le> sm_generations (foldl (stop_context_state now i) m' cs) ?k"
    using IH by (simp add: grows_def)
  have same: "sm_generations m' (sftpSessionKey i (fst e)) = sm_generations m (sftpSessionKey i (fst e))"
    if "e \<in> set cs" for e using other [OF that] gens by simp
  show ?case
    using IH ok grows_trans [OF ok(2)] mono gens same by (auto simp flip: m'_def)
qed simp

lemma Stop_ok:
  assumes "manager_ok B m" "B + 1 < 2 ^ 63"
  shows "manager_ok (B + 1) (Stop now i m) \<and> grows m (Stop now i m) \<and>
    (\<forall>k j. map_of (sm_sessions (Stop now i m)) k = Some j \<longrightarrow>
       map_of (sm_sessions m) k = Some j \<and> sn_connectionID (session_at (Stop now i m) j) \<noteq> i) \<and>
    (\<forall>c. map_of (sm_states m) (sftpSessionKey i c) \<noteq> None \<longrightarrow>
       sm_generations m (sftpSessionKey i c) < sm_generations (Stop now i m) (sftpSessionKey i c))"
proof -
  define mine where "mine = (\<lambda>(key :: string, j). sn_connectionID (session_at m j) = i)"
  define sessions where "sessions = map snd (filter mine (sm_sessions m))"
  define cs where "cs = stop_contexts i m"
  define m1 where "m1 = m\<lparr>sm_sessions := filter (\<lambda>e. \<not> mine e) (sm_sessions m)\<rparr>"
  define cs' where "cs' = (if cs = [] then [([], [])] else cs)"
  define m2 where "m2 = foldl (stop_context_state now i) m1 cs'"
  define m3 where "m3 = cancel_transfers (\<lambda>t. ts_ConnectionID t = i) m2"
  have gm: "gomap_ok (sm_sessions m)" using assms(1) by (simp add: manager_ok_defs)
  have filtered: "map_of (filter (\<lambda>e. \<not> mine e) (sm_sessions m)) k = Some j \<longleftrightarrow>
      map_of (sm_sessions m) k = Some j \<and> sn_connectionID (session_at m j) \<noteq> i" for k j
  proof -
    have "gomap_ok (filter (\<lambda>e. \<not> mine e) (sm_sessions m))"
      using gm by (simp add: gomap_ok_def distinct_map_filter)
    then show ?thesis using gm by (simp add: gomap_ok_def mine_def)
  qed
  have m1: "manager_ok B m1" "grows m m1"
    unfolding m1_def using gm filtered
    by (intro drop_sessions [OF assms(1)]; simp add: gomap_ok_def distinct_map_filter)+
  have "distinct (map (\<lambda>c. sftpSessionKey i (fst c)) cs')"
    using stop_context_keys_distinct [OF assms(1), of i] by (simp add: cs'_def cs_def)
  moreover have "\<forall>c \<in> set cs'. sm_generations m1 (sftpSessionKey i (fst c)) + 1 \<le> B + 1"
    using manager_ok_gen(1) [OF m1(1)] by simp
  ultimately have m2: "manager_ok (B + 1) m2" "grows m1 m2" "sm_sessions m2 = sm_sessions m1"
      "sm_heap m2 = sm_heap m1"
      "\<forall>c \<in> set cs'. sm_generations m1 (sftpSessionKey i (fst c)) < sm_generations m2 (sftpSessionKey i (fst c))"
    using stop_context_states_ok [OF manager_ok_mono [OF m1(1)], of "B + 1" i cs' now] assms(2)
    by (simp_all add: m2_def)
  have m3: "manager_ok (B + 1) m3" "grows m m3" "sm_sessions m3 = sm_sessions m1" "sm_heap m3 = sm_heap m"
      "sm_generations m3 = sm_generations m2"
    using m2 grows_trans [OF grows_trans [OF m1(2) m2(2)] cancel_transfers_ok(2)]
    by (simp_all add: m3_def cancel_transfers_ok m1_def)
  have stop: "Stop now i m = fold closeSession sessions m3"
    by (simp add: Stop_def Let_def m3_def m2_def m1_def cs'_def cs_def sessions_def mine_def)
  have gone: "\<forall>j \<in> set sessions. \<forall>k. map_of (sm_sessions m3) k \<noteq> Some j"
    using filtered by (auto simp: m3(3) m1_def sessions_def mine_def)
  note closed = closeSessions_ok [OF m3(1) gone, folded stop]
  have "map_of (sm_sessions m) k = Some j \<and> sn_connectionID (session_at (Stop now i m) j) \<noteq> i"
    if "map_of (sm_sessions (Stop now i m)) k = Some j" for k j
  proof -
    have j: "map_of (sm_sessions m) k = Some j" "sn_connectionID (session_at m j) \<noteq> i"
      using that closed filtered by (auto simp: m3(3) m1_def)
    then have "session_ident (Stop now i m) j = session_ident m j"
      by (intro grows_ident [OF grows_trans [OF m3(2)]])
        (simp_all add: closed session_of_key [OF assms(1) j(1)])
    then show ?thesis using j by (simp add: session_ident_def Let_def)
  qed
  moreover have "sm_generations m (sftpSessionKey i c) < sm_generations (Stop now i m) (sftpSessionKey i c)"
    if st: "map_of (sm_states m) (sftpSessionKey i c) \<noteq> None" for c
  proof -
    obtain st where st: "map_of (sm_states m) (sftpSessionKey i c) = Some st" using st by blast
    then have "sftpSessionKey i c = sftpSessionKey (sstate_ConnectionID st) (bs_ContextID st)"
      using assms(1) by (auto simp: manager_ok_def states_ok_def)
    then have "sstate_ConnectionID st = i" "normalizeContextID i (bs_ContextID st) = normalizeContextID i c"
      by (auto simp: sftpSessionKey_inject)
    then have "normalizeContextID i c \<in> fst ` set cs"
      using map_of_SomeD [OF st] unfolding cs_def stop_contexts_keys by force
    moreover from this have "cs' = cs" by (auto simp: cs'_def)
    ultimately obtain e where e: "e \<in> set cs'" "fst e = normalizeContextID i c" by auto
    have "sm_generations m (sftpSessionKey i c) < sm_generations m2 (sftpSessionKey i c)"
      using m2(5) e by (force simp: m1_def)
    then show ?thesis using closed m3(5) by simp
  qed
  ultimately show ?thesis using closed grows_trans [OF m3(2)] by blast
qed

lemma lose_session_ok:
  assumes "manager_ok B m" "B + 1 < 2 ^ 63"
  shows "manager_ok (B + 1) (lose_session now i message P m) \<and> grows m (lose_session now i message P m) \<and>
    (\<forall>k j. map_of (sm_sessions (lose_session now i message P m)) k = Some j \<longrightarrow>
       map_of (sm_sessions m) k = Some j)"
proof (cases "isCurrentSessionLocked i m")
  case True
  let ?s = "session_at m i"
  let ?k = "session_key ?s"
  have cur: "map_of (sm_sessions m) ?k = Some i"
    using True by (simp add: isCurrentSessionLocked_def Let_def session_key_def)
  define m1 where "m1 = m\<lparr>sm_sessions := AList.delete ?k (sm_sessions m)\<rparr>"
  have m1: "manager_ok B m1" "grows m m1" unfolding m1_def by (rule delete_session [OF assms(1)])+
  obtain g m2 where g: "nextGenerationLocked (sn_connectionID ?s) (sn_contextID ?s) m1 = (g, m2)" by fastforce
  define m3 where "m3 = setStateLocked (lost_state now ?s g message) m2"
  have ok1: "manager_ok (B + 1) m1" using m1(1) by (rule manager_ok_mono) simp
  have room: "sm_generations m1 (sftpSessionKey (sn_connectionID ?s) (sn_contextID ?s)) + 1 \<le> B + 1"
    using manager_ok_gen(1) [OF m1(1)] by simp
  note r = raise_and_set [OF g ok1 room assms(2), of "lost_state now ?s g message", folded m3_def]
  define m4 where "m4 = cancel_transfers P m3"
  have m4: "manager_ok (B + 1) m4" "grows m m4" "sm_sessions m4 = AList.delete ?k (sm_sessions m)"
    using r(1-3) grows_trans [OF m1(2) grows_trans [OF r(2) cancel_transfers_ok(2)]]
    by (simp_all add: m4_def cancel_transfers_ok m1_def session_key_def)
  have lost: "lose_session now i message P m = closeSession i m4"
    using True g by (simp add: lose_session_def Let_def m4_def m3_def m1_def session_key_def)
  have "manager_ok (B + 1) (closeSession i m4)"
    using m4 map_of_deleted [OF assms(1) cur] by (intro closeSession_ok) auto
  then show ?thesis
    using m4 grows_trans [OF m4(2) closeSession_parts(6)]
    by (auto simp: lost closeSession_parts gomap_simps split: if_splits)
next
  case False
  then show ?thesis using assms manager_ok_mono [of B m "B + 1"] by (simp add: lose_session_def)
qed

lemma append_session:
  assumes "manager_ok B m"
  shows "manager_ok B (m\<lparr>sm_heap := sm_heap m @ [s]\<rparr>)" "grows m (m\<lparr>sm_heap := sm_heap m @ [s]\<rparr>)"
proof -
  have same: "session_at (m\<lparr>sm_heap := sm_heap m @ [s]\<rparr>) j = session_at m j" if "j < length (sm_heap m)" for j
    using that by (simp add: session_at_def nth_append)
  have "sessions_ok (m\<lparr>sm_heap := sm_heap m @ [s]\<rparr>)"
    unfolding sessions_ok_def
  proof (intro conjI allI impI)
    show "gomap_ok (sm_sessions (m\<lparr>sm_heap := sm_heap m @ [s]\<rparr>))" using assms by (simp add: manager_ok_defs)
    fix k j assume "map_of (sm_sessions (m\<lparr>sm_heap := sm_heap m @ [s]\<rparr>)) k = Some j"
    then have j: "map_of (sm_sessions m) k = Some j" by simp
    note f = session_of_key [OF assms j]
    then have e: "session_at (m\<lparr>sm_heap := sm_heap m @ [s]\<rparr>) j = session_at m j" by (intro same) simp
    show "j < length (sm_heap (m\<lparr>sm_heap := sm_heap m @ [s]\<rparr>))" using f by simp
    show "k = session_key (session_at (m\<lparr>sm_heap := sm_heap m @ [s]\<rparr>) j)" using f e by simp
    show "\<not> sn_closed (session_at (m\<lparr>sm_heap := sm_heap m @ [s]\<rparr>) j)" using f e by simp
    show "normalizeContextID (sn_connectionID (session_at (m\<lparr>sm_heap := sm_heap m @ [s]\<rparr>) j))
         (sn_contextID (session_at (m\<lparr>sm_heap := sm_heap m @ [s]\<rparr>) j)) =
        sn_contextID (session_at (m\<lparr>sm_heap := sm_heap m @ [s]\<rparr>) j)" using f e by simp
    show "sn_generation (session_at (m\<lparr>sm_heap := sm_heap m @ [s]\<rparr>) j)
        \<le> sm_generations (m\<lparr>sm_heap := sm_heap m @ [s]\<rparr>) k" using f e by auto
  qed
  then show "manager_ok B (m\<lparr>sm_heap := sm_heap m @ [s]\<rparr>)"
    using assms by (simp add: manager_ok_def states_ok_def generations_ok_def)
  show "grows m (m\<lparr>sm_heap := sm_heap m @ [s]\<rparr>)"
    by (simp add: grows_def session_ident_def session_at_def nth_append)
qed

text \<open>Replacing the session of a key, the previous one closed.\<close>

lemma replace_session:
  assumes "manager_ok B m" "i < length (sm_heap m)" "k = session_key (session_at m i)"
    "\<not> sn_closed (session_at m i)" "\<forall>k. map_of (sm_sessions m) k \<noteq> Some i"
    "normalizeContextID (sn_connectionID (session_at m i)) (sn_contextID (session_at m i)) =
       sn_contextID (session_at m i)"
    "sn_generation (session_at m i) \<le> sm_generations m k"
    "m' = (case map_of (sm_sessions m) k of None \<Rightarrow> m | Some previous \<Rightarrow> closeSession previous m)"
  shows "manager_ok B (m'\<lparr>sm_sessions := AList.update k i (sm_sessions m')\<rparr>) \<and>
    grows m (m'\<lparr>sm_sessions := AList.update k i (sm_sessions m')\<rparr>)"
proof -
  let ?m = "m'\<lparr>sm_sessions := AList.update k i (sm_sessions m')\<rparr>"
  have parts: "sm_sessions m' = sm_sessions m" "sm_generations m' = sm_generations m"
      "sm_states m' = sm_states m" "length (sm_heap m') = length (sm_heap m)" "grows m m'"
    by (simp_all add: assms(8) closeSession_parts split: option.split)
  have same: "session_at m' j = session_at m j" if "map_of (sm_sessions m) k \<noteq> Some j" for j
    using that by (auto simp: assms(8) closeSession_parts split: option.split)
  have sessions: "sessions_ok ?m"
    unfolding sessions_ok_def
  proof (intro conjI allI impI)
    show "gomap_ok (sm_sessions ?m)" using assms(1) parts by (simp add: manager_ok_defs)
    fix l j assume "map_of (sm_sessions ?m) l = Some j"
    then have lj: "if l = k then j = i else map_of (sm_sessions m) l = Some j"
      using parts by (auto simp: gomap_simps split: if_splits)
    have "session_at m' j = session_at m j"
    proof (rule same)
      show "map_of (sm_sessions m) k \<noteq> Some j"
        using lj assms(5) session_of_key [OF assms(1), of k j] session_of_key [OF assms(1), of l j]
        by (auto split: if_splits)
    qed
    then have at: "session_at ?m j = session_at m j" by (simp add: session_at_def)
    have f: "j < length (sm_heap m) \<and> l = session_key (session_at m j) \<and> \<not> sn_closed (session_at m j) \<and>
      normalizeContextID (sn_connectionID (session_at m j)) (sn_contextID (session_at m j)) =
        sn_contextID (session_at m j) \<and> sn_generation (session_at m j) \<le> sm_generations m l"
      using lj assms(2-7) session_of_key [OF assms(1), of l j] by (auto split: if_splits)
    show "j < length (sm_heap ?m)" using f parts by simp
    show "l = session_key (session_at ?m j)" using f at by simp
    show "\<not> sn_closed (session_at ?m j)" using f at by simp
    show "normalizeContextID (sn_connectionID (session_at ?m j)) (sn_contextID (session_at ?m j)) =
        sn_contextID (session_at ?m j)" using f at by simp
    show "sn_generation (session_at ?m j) \<le> sm_generations ?m l" using f at parts by auto
  qed
  moreover have "grows m' ?m" by (simp add: grows_defs)
  ultimately show ?thesis
    using assms(1) parts grows_trans [OF parts(5)]
    by (auto simp: manager_ok_def states_ok_def generations_ok_def)
qed

section \<open>The invariant of the world\<close>

definition open_key :: "pending_open \<Rightarrow> string" where
  "open_key p = sftpSessionKey (conn_ID (po_connection p)) (po_contextID p)"

definition open_ok :: "sftp_manager \<Rightarrow> pending_open \<Rightarrow> bool" where
  "open_ok m p \<longleftrightarrow>
     normalizeContextID (conn_ID (po_connection p)) (po_contextID p) = po_contextID p \<and>
     po_generation p \<le> sm_generations m (open_key p) \<and>
     map_of (sm_states m) (open_key p) \<noteq> None"

lemma open_ok_grows: "open_ok m p \<Longrightarrow> grows m m' \<Longrightarrow> open_ok m' p"
  unfolding open_ok_def grows_def by (meson domIff order_trans subsetD)

lemma install_session_ok:
  assumes "manager_ok B m" "1 \<le> B" "open_ok m p"
  shows "manager_ok B (install_session now p mode home msg m) \<and> grows m (install_session now p mode home msg m) \<and>
    (\<forall>k j. map_of (sm_sessions (install_session now p mode home msg m)) k = Some j \<longrightarrow>
       map_of (sm_sessions m) k = Some j \<or>
       k = open_key p \<and> sm_generations m k = po_generation p)"
proof -
  let ?i = "length (sm_heap m)"
  define s where "s = \<lparr>sn_connectionID = conn_ID (po_connection p), sn_contextID = po_contextID p,
      sn_terminalSessionID = po_terminalSessionID p, sn_generation = po_generation p,
      sn_mode = mode, sn_currentPath = home, sn_homePath = home, sn_closed = False\<rparr>"
  define m1 where "m1 = m\<lparr>sm_heap := sm_heap m @ [s]\<rparr>"
  have m1: "manager_ok B m1" "grows m m1" unfolding m1_def by (rule append_session [OF assms(1)])+
  have at: "session_at m1 ?i = s" by (simp add: m1_def session_at_def)
  have key: "session_key s = open_key p" by (simp add: s_def session_key_def open_key_def)
  have fresh: "\<forall>k. map_of (sm_sessions m1) k \<noteq> Some ?i"
    using session_of_key [OF assms(1), of _ ?i] by (auto simp: m1_def)
  show ?thesis
  proof (cases "sm_generations m (open_key p) = po_generation p")
    case False
    then have stale: "install_session now p mode home msg m = closeSession ?i m1"
      by (simp add: install_session_def Let_def m1_def s_def open_key_def)
    show ?thesis
      using closeSession_ok [OF m1(1) fresh] grows_trans [OF m1(2) closeSession_parts(6)]
      by (simp add: stale closeSession_parts m1_def)
  next
    case True
    define m2 where "m2 = (case map_of (sm_sessions m1) (open_key p) of None \<Rightarrow> m1
        | Some previous \<Rightarrow> closeSession previous m1)"
    define m3 where "m3 = m2\<lparr>sm_sessions := AList.update (open_key p) ?i (sm_sessions m2)\<rparr>"
    have "manager_ok B m3 \<and> grows m1 m3" unfolding m3_def
    proof (rule replace_session [OF m1(1)])
      show "?i < length (sm_heap m1)" by (simp add: m1_def)
      show "open_key p = session_key (session_at m1 ?i)" by (simp add: at key)
      show "\<not> sn_closed (session_at m1 ?i)" unfolding at by (simp add: s_def)
      show "normalizeContextID (sn_connectionID (session_at m1 ?i)) (sn_contextID (session_at m1 ?i)) =
          sn_contextID (session_at m1 ?i)" unfolding at using assms(3) by (simp add: s_def open_ok_def)
      show "sn_generation (session_at m1 ?i) \<le> sm_generations m1 (open_key p)"
        unfolding at using True by (simp add: s_def m1_def)
    qed (use fresh in \<open>simp_all add: m2_def\<close>)
    then have m3: "manager_ok B m3" "grows m m3" using grows_trans [OF m1(2)] by blast+
    have "sm_sessions m2 = sm_sessions m" by (simp add: m2_def m1_def closeSession_parts split: option.split)
    then have sessions: "sm_sessions m3 = AList.update (open_key p) ?i (sm_sessions m)" by (simp add: m3_def)
    define st where "st = \<lparr>sstate_ConnectionID = conn_ID (po_connection p), sstate_Status = SFTPStatusOnline,
        sstate_Active = True, bs_ContextID = po_contextID p, bs_TerminalSessionID = po_terminalSessionID p,
        bs_Generation = po_generation p, bs_Mode = mode, bs_Capabilities = sftpModeCapabilities mode,
        bs_CurrentPath = home, bs_Message = msg, bs_UpdatedAt = now\<rparr>"
    have inst: "install_session now p mode home msg m = setStateLocked st m3"
      using True
      by (cases "map_of (sm_sessions m) (open_key p)")
        (simp_all add: install_session_def Let_def m3_def m2_def m1_def s_def open_key_def st_def)
    show ?thesis
      using setState_ok [OF m3(1) assms(2), of st] grows_trans [OF m3(2)] sessions True
      by (auto simp: inst gomap_simps)
  qed
qed

lemma failOpen_ok:
  assumes "manager_ok B m" "open_ok m p"
  shows "manager_ok B (failOpen pf now p err m) \<and> grows m (failOpen pf now p err m) \<and>
    (\<forall>k j. map_of (sm_sessions (failOpen pf now p err m)) k = Some j \<longrightarrow> map_of (sm_sessions m) k = Some j)"
proof -
  let ?k = "sftpSessionKey (conn_ID (po_connection p)) (normalizeContextID (conn_ID (po_connection p)) (po_contextID p))"
  show ?thesis
  proof (cases "sm_generations m ?k = po_generation p")
    case True
    have drop: "manager_ok B (m\<lparr>sm_sessions := AList.delete ?k (sm_sessions m)\<rparr>)"
      "grows m (m\<lparr>sm_sessions := AList.delete ?k (sm_sessions m)\<rparr>)" by (rule delete_session [OF assms(1)])+
    then show ?thesis
      using True
      by (auto simp: failOpen_def Let_def manager_ok_defs session_at_def grows_defs gomap_simps split: if_splits)
  next
    case False
    then show ?thesis using assms(1)
      by (auto simp: failOpen_def Let_def manager_ok_defs session_at_def grows_defs)
  qed
qed

lemma generationLocked_ok:
  assumes "generationLocked i c m = (g, m')" "manager_ok B m" "1 \<le> B"
  shows "manager_ok B m'" "grows m m'" "sm_sessions m' = sm_sessions m" "sm_heap m' = sm_heap m"
    "sm_states m' = sm_states m"
proof -
  let ?k = "sftpSessionKey i c"
  have range: "0 \<le> sm_generations m k \<and> sm_generations m k \<le> B" for k
    using assms(2) by (simp add: manager_ok_defs)
  define gs where "gs = (sm_generations m)(?k := if sm_generations m ?k > 0 then sm_generations m ?k else 1)"
  have m': "m' = m\<lparr>sm_generations := gs\<rparr>" using assms(1) by (auto simp: generationLocked_shape gs_def)
  have gs: "sm_generations m k \<le> gs k \<and> 0 \<le> gs k \<and> gs k \<le> B" for k
    using range [of k] assms(3) by (auto simp: gs_def)
  have "sessions_ok m'" unfolding m' using assms(2) gs by (auto simp: manager_ok_def intro: sessions_raise)
  then show "manager_ok B m'"
    using assms(2) gs by (simp add: m' manager_ok_def states_ok_def generations_ok_def)
  show "grows m m'" using gs by (simp add: m' grows_defs)
qed (use assms(1) in \<open>auto simp: generationLocked_shape\<close>)

lemma open_begin_ok:
  assumes "open_begin now i c t force m = (r, m')" "manager_ok B m" "1 \<le> B" "B + 1 < 2 ^ 63"
  shows "manager_ok (B + 1) m' \<and> grows m m' \<and> sm_sessions m' = sm_sessions m \<and>
    (\<forall>g. r = Inr g \<longrightarrow> g \<le> sm_generations m' (sftpSessionKey i c) \<and>
                      map_of (sm_states m') (sftpSessionKey i c) \<noteq> None)"
proof -
  let ?c = "normalizeContextID i c"
  obtain g1 m1 where g1: "generationLocked i ?c m = (g1, m1)" by fastforce
  note l = generationLocked_ok [OF g1 assms(2,3)]
  obtain g2 m2 where g2: "nextGenerationLocked i ?c m1 = (g2, m2)" by fastforce
  define st where "st = \<lparr>sstate_ConnectionID = i, sstate_Status = SFTPStatusConnecting, sstate_Active = True,
      bs_ContextID = ?c, bs_TerminalSessionID = t, bs_Generation = g2, bs_Mode = SFTPModeSFTP,
      bs_Capabilities = sftpModeCapabilities SFTPModeSFTP, bs_CurrentPath = [],
      bs_Message = (zh [27491, 22312, 36830, 25509, 32, 83, 70, 84, 80]), bs_UpdatedAt = now\<rparr>"
  have room: "sm_generations m1 (sftpSessionKey i ?c) + 1 \<le> B + 1" using manager_ok_gen(1) [OF l(1)] by simp
  have ok1: "manager_ok (B + 1) m1" using l(1) by (rule manager_ok_mono) simp
  have key: "state_key st = sftpSessionKey i ?c" by (simp add: st_def state_key_def)
  have gen: "bs_Generation st = g2" by (simp add: st_def)
  note r = raise_and_set [OF g2 ok1 room assms(4) key gen]
  note n = next_generation_ok [OF g2 ok1 room assms(4)]
  have "(\<exists>b. r = Inl b) \<and> m' = m1 \<or> r = Inr g2 \<and> m' = setStateLocked st m2"
    using assms(1) by (auto simp: open_begin_def Let_def g1 g2 st_def split: if_splits)
  then consider b where "r = Inl b" "m' = m1" | "r = Inr g2" "m' = setStateLocked st m2" by blast
  then show ?thesis
  proof cases
    case 1
    then show ?thesis using l(2,3) ok1 by simp
  next
    case 2
    then show ?thesis using r(1,3) grows_trans [OF l(2) r(2)] l(3) r(5,6) n(3) by simp
  qed
qed

lemma list_set_path_ok:
  assumes "manager_ok B m"
  shows "manager_ok B (list_set_path i path m)" "grows m (list_set_path i path m)"
    "sm_sessions (list_set_path i path m) = sm_sessions m"
proof -
  have at: "session_at (list_set_path i path m) j =
      (if j = i \<and> i < length (sm_heap m) \<and> \<not> sn_closed (session_at m i)
       then (session_at m j)\<lparr>sn_currentPath := path\<rparr> else session_at m j)" for j
    by (cases "i < length (sm_heap m)") (simp_all add: list_set_path_def session_at_def nth_list_update list_update_beyond)
  have rest: "sm_sessions (list_set_path i path m) = sm_sessions m"
    "sm_states (list_set_path i path m) = sm_states m"
    "sm_generations (list_set_path i path m) = sm_generations m"
    "length (sm_heap (list_set_path i path m)) = length (sm_heap m)"
    by (simp_all add: list_set_path_def)
  show "sm_sessions (list_set_path i path m) = sm_sessions m" by (rule rest(1))
  have same: "sn_connectionID (session_at (list_set_path i path m) j) = sn_connectionID (session_at m j)"
    "sn_contextID (session_at (list_set_path i path m) j) = sn_contextID (session_at m j)"
    "sn_generation (session_at (list_set_path i path m) j) = sn_generation (session_at m j)"
    "sn_closed (session_at (list_set_path i path m) j) = sn_closed (session_at m j)" for j
    by (simp_all add: at)
  show "manager_ok B (list_set_path i path m)"
    using assms unfolding manager_ok_defs rest same session_key_def .
  show "grows m (list_set_path i path m)"
    by (simp add: grows_def session_ident_def Let_def rest same)
qed

definition sftp_ok :: "sftp_world \<Rightarrow> bool" where
  "sftp_ok w \<longleftrightarrow>
     manager_ok (2 * int (sw_clock w) + 1) (sw_m w) \<and> list_all (open_ok (sw_m w)) (sw_opens w)"

text \<open>Where the sessions of the map come from in one step.\<close>

definition sessions_from :: "sftp_world \<Rightarrow> sftp_manager \<Rightarrow> bool" where
  "sessions_from w m \<longleftrightarrow>
     (\<forall>k j. map_of (sm_sessions m) k = Some j \<longrightarrow>
        map_of (sm_sessions (sw_m w)) k = Some j \<or>
        (\<exists>p \<in> set (sw_opens w). k = open_key p \<and> sm_generations (sw_m w) k = po_generation p))"

lemma sessions_from_same: "sm_sessions m = sm_sessions (sw_m w) \<Longrightarrow> sessions_from w m"
  by (simp add: sessions_from_def)

lemma set_remove_nth: "set (remove_nth n xs) \<subseteq> set xs"
  by (auto simp: remove_nth_def dest: in_set_takeD in_set_dropD)

lemma open_finish_shape:
  "(\<exists>err. open_finish pf now p outcome m = failOpen pf now p err m) \<or>
   (\<exists>mode home msg. open_finish pf now p outcome m = install_session now p mode home msg m)"
  by (cases outcome) (auto simp: open_finish_def)

lemma sftp_effect_ok:
  assumes "sftp_ok w" "sw_clock w < 2 ^ 61"
  shows "manager_ok (2 * int (sw_clock w) + 1 + 1) (sw_m (sftp_effect pf now x w)) \<and>
    grows (sw_m w) (sw_m (sftp_effect pf now x w)) \<and>
    sessions_from w (sw_m (sftp_effect pf now x w)) \<and>
    list_all (open_ok (sw_m (sftp_effect pf now x w))) (sw_opens (sftp_effect pf now x w))"
proof -
  let ?B = "2 * int (sw_clock w) + 1"
  have ok: "manager_ok ?B (sw_m w)" and opens: "list_all (open_ok (sw_m w)) (sw_opens w)"
    using assms(1) by (simp_all add: sftp_ok_def)
  have ok': "manager_ok (?B + 1) (sw_m w)" using ok by (rule manager_ok_mono) simp
  have room: "?B + 1 < 2 ^ 63" "1 \<le> ?B" using assms(2) by simp_all
  have kept: "list_all (open_ok m) ps" if "grows (sw_m w) m" "set ps \<subseteq> set (sw_opens w)" for m ps
    using that opens open_ok_grows unfolding list_all_iff by (meson subsetD)
  show ?thesis
  proof (cases x)
    case (LOpen connection c t force)
    obtain r m' where r: "open_begin now (conn_ID connection) c t force (sw_m w) = (r, m')" by fastforce
    note b = open_begin_ok [OF r ok room(2,1)]
    show ?thesis
    proof (cases r)
      case (Inl st)
      then show ?thesis using b LOpen r kept [of m' "sw_opens w"] by (simp add: sessions_from_same)
    next
      case (Inr g)
      then show ?thesis using b LOpen r kept [of m' "sw_opens w"]
        by (simp add: sessions_from_same open_ok_def open_key_def)
    qed
  next
    case (LOpened n outcome)
    show ?thesis
    proof (cases "n < length (sw_opens w)")
      case True
      let ?p = "sw_opens w ! n"
      have p: "open_ok (sw_m w) ?p" "?p \<in> set (sw_opens w)" using opens True by (simp_all add: list_all_length)
      have "manager_ok ?B (open_finish pf now ?p outcome (sw_m w)) \<and>
          grows (sw_m w) (open_finish pf now ?p outcome (sw_m w)) \<and>
          sessions_from w (open_finish pf now ?p outcome (sw_m w))"
        using install_session_ok [OF ok room(2) p(1)] failOpen_ok [OF ok p(1)] p(2)
          open_finish_shape [of pf now ?p outcome "sw_m w"]
        unfolding sessions_from_def by metis
      then show ?thesis
        using LOpened True kept [OF _ set_remove_nth] manager_ok_mono [of ?B _ "?B + 1"] by simp
    next
      case False
      then show ?thesis using LOpened ok' opens by (simp add: sessions_from_same)
    qed
  next
    case (LStopContext i c)
    then show ?thesis using StopContext_ok [OF ok room(1), of now i c] kept [of _ "sw_opens w"]
      by (auto simp: sessions_from_def gomap_simps split: if_splits)
  next
    case (LStop i)
    show ?thesis using Stop_ok [OF ok room(1), of now i] kept [of _ "sw_opens w"] LStop
      by (auto simp: sessions_from_def)
  next
    case (LKeepaliveFailed i)
    then show ?thesis using lose_session_ok [OF ok room(1)] kept [of _ "sw_opens w"] ok' opens
      by (auto simp: handleKeepaliveFailure_def Let_def sessions_from_def)
  next
    case (LInvalidate i message)
    then show ?thesis using lose_session_ok [OF ok room(1)] kept [of _ "sw_opens w"] ok' opens
      by (auto simp: invalidateSession_def Let_def sessions_from_def)
  next
    case (LListChecked i path mode)
    then show ?thesis using ok' opens by (simp add: sessions_from_same)
  next
    case (LListPath n)
    then show ?thesis using list_set_path_ok [OF ok'] kept [of _ "sw_opens w"] opens ok'
      by (auto simp: sessions_from_same)
  next
    case (LListState n)
    then show ?thesis using setState_ok [OF ok'] room kept [of _ "sw_opens w"] opens ok'
      by (auto simp: sessions_from_same list_set_state_def Let_def)
  qed
qed


lemma sw_clock_effect: "sw_clock (sftp_effect pf now x w) = sw_clock w"
  by (cases x) (auto simp: Let_def split: prod.splits sum.splits)

definition sftp_inv :: "sftp_world \<Rightarrow> bool" where
  "sftp_inv w \<longleftrightarrow> sw_clock w \<ge> 2 ^ 61 \<or> sftp_ok w"

lemma sftp_next_ok: "sftp_ok w \<Longrightarrow> sw_clock w < 2 ^ 61 \<Longrightarrow> sftp_ok (sftp_next pf w x)"
  using sftp_effect_ok [of w pf "fst x" "snd x"]
    manager_ok_mono [of "2 * int (sw_clock w) + 1 + 1" _ "2 * int (Suc (sw_clock w)) + 1"]
  by (simp add: sftp_next_def sftp_ok_def sw_clock_effect) 

interpretation sftp_sessions: invariant_component "sftp_next pf" sftp_inv
proof
  fix w x assume "sftp_inv w"
  moreover have "sw_clock (sftp_next pf w x) = Suc (sw_clock w)" by (simp add: sftp_next_def sw_clock_effect)
  ultimately show "sftp_inv (sftp_next pf w x)"
    using sftp_next_ok [of w pf x] by (cases "sw_clock w < 2 ^ 61") (auto simp: sftp_inv_def)
qed

lemma sw_clock_run: "sw_clock (sftp_run pf w xs) = sw_clock w + length xs"
  by (induction xs arbitrary: w) (simp_all add: sftp_run_def sftp_next_def sw_clock_effect)

lemma sftp_ok_new: "sftp_ok new_sftp_world"
  by (simp add: sftp_ok_def new_sftp_world_def new_sftp_manager_def manager_ok_defs gomap_ok_def)

lemma sftp_run_ok:
  assumes "length xs < 2 ^ 61"
  shows "sftp_ok (sftp_run pf new_sftp_world xs)" "sw_clock (sftp_run pf new_sftp_world xs) = length xs"
proof -
  show n: "sw_clock (sftp_run pf new_sftp_world xs) = length xs"
    by (simp add: sw_clock_run) (simp add: new_sftp_world_def)
  have "sftp_inv (sftp_run pf new_sftp_world xs)"
    unfolding sftp_run_def by (rule sftp_sessions.run_keeps) (simp add: sftp_inv_def sftp_ok_new)
  then show "sftp_ok (sftp_run pf new_sftp_world xs)" using n assms by (simp add: sftp_inv_def)
qed

section \<open>What a handler gets\<close>

definition demo_connection :: Connection where
  "demo_connection = sample_connection\<lparr>conn_ID := 1\<rparr>"

definition demo_runs :: "(string \<times> sftp_label) list" where
  "demo_runs =
     [(''t0'', LOpen demo_connection ''tab'' ''term'' False), (''t1'', LOpened 0 (OpenedSFTP ''/home/u''))]"

text \<open>
  C19: A handler never works on a foreign or a closed session. In every run of less than 2^61 openings,
  stops, failures and listings, the session a request gets is open, belongs to the server and the
  context of the request, and is of a generation the context has reached.
\<close>

theorem activeSession_sound:
  assumes "length xs < 2 ^ 61"
    and "activeSession i c (sw_m (sftp_run pf new_sftp_world xs)) = Inr j"
  shows "j < length (sm_heap (sw_m (sftp_run pf new_sftp_world xs))) \<and>
    \<not> sn_closed (session_at (sw_m (sftp_run pf new_sftp_world xs)) j) \<and>
    sn_connectionID (session_at (sw_m (sftp_run pf new_sftp_world xs)) j) = i \<and>
    sn_contextID (session_at (sw_m (sftp_run pf new_sftp_world xs)) j) = normalizeContextID i c \<and>
    sn_generation (session_at (sw_m (sftp_run pf new_sftp_world xs)) j) \<le>
      sm_generations (sw_m (sftp_run pf new_sftp_world xs)) (sftpSessionKey i c)"
proof -
  let ?m = "sw_m (sftp_run pf new_sftp_world xs)"
  have "sessions_ok ?m" using sftp_run_ok(1) [OF assms(1)] by (simp add: sftp_ok_def manager_ok_def)
  moreover have "map_of (sm_sessions ?m) (sftpSessionKey i c) = Some j"
    using assms(2) by (auto simp: activeSession_def split: option.splits if_splits)
  ultimately have "sftpSessionKey i c = session_key (session_at ?m j)"
      "normalizeContextID (sn_connectionID (session_at ?m j)) (sn_contextID (session_at ?m j)) =
         sn_contextID (session_at ?m j)"
      "j < length (sm_heap ?m)" "\<not> sn_closed (session_at ?m j)"
      "sn_generation (session_at ?m j) \<le> sm_generations ?m (sftpSessionKey i c)"
    by (simp_all add: sessions_ok_def)
  then show ?thesis by (metis session_key_def sftpSessionKey_inject)
qed

lemma activeSession_sound_witness:
  "activeSession 1 '' tab'' (sw_m (sftp_run linux_errno new_sftp_world demo_runs)) = Inr 0 \<and>
   sn_contextID (session_at (sw_m (sftp_run linux_errno new_sftp_world demo_runs)) 0) = ''tab''"
proof -
  have "activeSession 1 '' tab'' (sw_m (sftp_run linux_errno new_sftp_world demo_runs)) = Inr 0" by code_simp
  moreover have "length demo_runs < 2 ^ 61" by (simp add: demo_runs_def)
  moreover have "normalizeContextID 1 '' tab'' = ''tab''" by code_simp
  ultimately show ?thesis using activeSession_sound [of demo_runs 1 "'' tab''" linux_errno 0] by simp
qed

section \<open>Stopping is final\<close>

fun opens_for :: "int \<Rightarrow> sftp_label \<Rightarrow> bool" where
  "opens_for i (LOpen connection c t force) \<longleftrightarrow> conn_ID connection = i"
| "opens_for i x \<longleftrightarrow> False"

definition stopped :: "int \<Rightarrow> sftp_world \<Rightarrow> bool" where
  "stopped i w \<longleftrightarrow>
     (\<forall>k j. map_of (sm_sessions (sw_m w)) k = Some j \<longrightarrow> sn_connectionID (session_at (sw_m w) j) \<noteq> i) \<and>
     (\<forall>p \<in> set (sw_opens w). conn_ID (po_connection p) = i \<longrightarrow>
        po_generation p < sm_generations (sw_m w) (open_key p))"

lemma opens_of_effect:
  "\<not> opens_for i x \<Longrightarrow> p \<in> set (sw_opens (sftp_effect pf now x w)) \<Longrightarrow> conn_ID (po_connection p) = i \<Longrightarrow>
   p \<in> set (sw_opens w)"
  using set_remove_nth [of _ "sw_opens w", THEN subsetD]
  by (cases x) (auto simp: Let_def split: prod.splits sum.splits if_splits)

lemma stopped_step:
  assumes "stopped i w" "sftp_ok w" "sw_clock w < 2 ^ 61" "\<not> opens_for i x"
  shows "stopped i (sftp_effect pf now x w)"
proof -
  let ?w = "sftp_effect pf now x w"
  note e = sftp_effect_ok [OF assms(2,3), of pf now x]
  have mono: "sm_generations (sw_m w) k \<le> sm_generations (sw_m ?w) k" for k
    using e by (simp add: grows_def)
  have late: "po_generation p < sm_generations (sw_m w) (open_key p)"
    if "p \<in> set (sw_opens w)" "conn_ID (po_connection p) = i" for p
    using assms(1) that by (simp add: stopped_def)
  have "sn_connectionID (session_at (sw_m ?w) j) \<noteq> i" if j: "map_of (sm_sessions (sw_m ?w)) k = Some j" for k j
  proof -
    have "map_of (sm_sessions (sw_m w)) k = Some j \<or>
        (\<exists>p \<in> set (sw_opens w). k = open_key p \<and> sm_generations (sw_m w) k = po_generation p)"
      using e j unfolding sessions_from_def by blast
    then show ?thesis
    proof
      assume old: "map_of (sm_sessions (sw_m w)) k = Some j"
      then have "j < length (sm_heap (sw_m w))"
        using assms(2) by (simp add: sftp_ok_def manager_ok_def sessions_ok_def)
      then have "session_ident (sw_m ?w) j = session_ident (sw_m w) j" using e by (simp add: grows_def)
      moreover have "sn_connectionID (session_at (sw_m w) j) \<noteq> i" using assms(1) old by (simp add: stopped_def)
      ultimately show ?thesis by (simp add: session_ident_def Let_def)
    next
      assume "\<exists>p \<in> set (sw_opens w). k = open_key p \<and> sm_generations (sw_m w) k = po_generation p"
      then obtain p where p: "p \<in> set (sw_opens w)" "k = open_key p"
        "sm_generations (sw_m w) k = po_generation p" by blast
      then have "conn_ID (po_connection p) \<noteq> i" using late by fastforce
      moreover have "k = session_key (session_at (sw_m ?w) j)"
        using e j by (simp add: manager_ok_def sessions_ok_def)
      ultimately show ?thesis
        using p(2) by (simp add: session_key_def open_key_def sftpSessionKey_inject)
    qed
  qed
  moreover have "po_generation p < sm_generations (sw_m ?w) (open_key p)"
    if "p \<in> set (sw_opens ?w)" "conn_ID (po_connection p) = i" for p
    using late [OF opens_of_effect [OF assms(4) that] that(2)] mono [of "open_key p"] by simp
  ultimately show ?thesis by (simp add: stopped_def)
qed

lemma stopped_Stop:
  assumes "sftp_ok w" "sw_clock w < 2 ^ 61"
  shows "stopped i (sftp_effect pf now (LStop i) w)"
proof -
  have room: "2 * int (sw_clock w) + 1 + 1 < 2 ^ 63" using assms(2) by simp
  have ok: "manager_ok (2 * int (sw_clock w) + 1) (sw_m w)" using assms(1) by (simp add: sftp_ok_def)
  note s = Stop_ok [OF ok room, of now i]
  have "po_generation p < sm_generations (Stop now i (sw_m w)) (open_key p)"
    if "p \<in> set (sw_opens w)" "conn_ID (po_connection p) = i" for p
  proof -
    have "open_ok (sw_m w) p" using assms(1) that(1) by (auto simp: sftp_ok_def list_all_iff)
    then show ?thesis using s that(2) by (auto simp: open_ok_def open_key_def intro: le_less_trans)
  qed
  then show ?thesis using s by (auto simp: stopped_def)
qed

lemma stopped_run:
  "stopped i w \<Longrightarrow> sftp_ok w \<Longrightarrow> sw_clock w + length xs \<le> 2 ^ 61 \<Longrightarrow>
   list_all (\<lambda>x. \<not> opens_for i (snd x)) xs \<Longrightarrow> stopped i (sftp_run pf w xs)"
proof (induction xs arbitrary: w)
  case Nil
  then show ?case by (simp add: sftp_run_def)
next
  case (Cons x xs)
  have "stopped i (sftp_next pf w x)"
    using stopped_step [of i w "snd x" pf "fst x"] Cons.prems by (simp add: sftp_next_def stopped_def)
  moreover have "sftp_ok (sftp_next pf w x)" using Cons.prems by (intro sftp_next_ok) auto
  ultimately have "stopped i (sftp_run pf (sftp_next pf w x) xs)"
    using Cons.prems by (intro Cons.IH) (auto simp: sftp_next_def sw_clock_effect)
  then show ?case by (simp add: sftp_run_def)
qed

text \<open>
  C15: Stopping a server is final, in runs of less than 2^61 steps. After a stop, whatever happens - dialings that were under way
  succeed or fail, listings that were under way write their state, keepalives fail, other servers
  are opened and stopped - no context of the server has a session until someone opens it anew.
\<close>

theorem Stop_is_final:
  assumes "length past + length later < 2 ^ 61 - 1"
    and "list_all (\<lambda>x. \<not> opens_for i (snd x)) later"
  shows "\<not> IsActive i (sw_m (sftp_run pf new_sftp_world (past @ (now, LStop i) # later))) \<and>
    activeSession i c (sw_m (sftp_run pf new_sftp_world (past @ (now, LStop i) # later))) =
      Inl (zh [83, 70, 84, 80, 32, 23578, 26410, 36830, 25509])"
proof -
  let ?w = "sftp_run pf new_sftp_world past"
  let ?u = "sftp_run pf new_sftp_world (past @ (now, LStop i) # later)"
  have w: "sftp_ok ?w" "sw_clock ?w = length past" using assms(1) by (intro sftp_run_ok; simp)+
  have u: "?u = sftp_run pf (sftp_next pf ?w (now, LStop i)) later" by (simp add: sftp_run_def)
  have "stopped i (sftp_next pf ?w (now, LStop i))"
    using stopped_Stop [OF w(1), of i pf now] w(2) assms(1) by (simp add: sftp_next_def stopped_def)
  moreover have "sftp_ok (sftp_next pf ?w (now, LStop i))" using w assms(1) by (intro sftp_next_ok) auto
  moreover have "sw_clock (sftp_next pf ?w (now, LStop i)) + length later \<le> 2 ^ 61"
    using w(2) assms(1) by (simp add: sftp_next_def sw_clock_effect)
  ultimately have st: "stopped i ?u" unfolding u using assms(2) by (rule stopped_run)
  have ok: "sessions_ok (sw_m ?u)"
    using sftp_run_ok(1) [of "past @ (now, LStop i) # later"] assms(1) by (simp add: sftp_ok_def manager_ok_def)
  have none: "map_of (sm_sessions (sw_m ?u)) (sftpSessionKey i c) = None"
  proof (rule ccontr)
    assume "map_of (sm_sessions (sw_m ?u)) (sftpSessionKey i c) \<noteq> None"
    then obtain j where j: "map_of (sm_sessions (sw_m ?u)) (sftpSessionKey i c) = Some j" by blast
    then have "sftpSessionKey i c = session_key (session_at (sw_m ?u) j)"
      using ok by (simp add: sessions_ok_def)
    then have "sn_connectionID (session_at (sw_m ?u) j) = i" by (simp add: session_key_def sftpSessionKey_inject)
    then show False using st j by (auto simp: stopped_def)
  qed
  have "\<not> IsActive i (sw_m ?u)"
  proof
    assume "IsActive i (sw_m ?u)"
    then obtain k j where kj: "(k, j) \<in> set (sm_sessions (sw_m ?u))"
      "sn_connectionID (session_at (sw_m ?u) j) = i" by (auto simp: IsActive_def list_ex_iff)
    then have "map_of (sm_sessions (sw_m ?u)) k = Some j"
      using ok by (simp add: sessions_ok_def gomap_ok_def)
    then show False using st kj(2) by (auto simp: stopped_def)
  qed
  then show ?thesis using none by (simp add: activeSession_def)
qed

lemma Stop_is_final_witness:
  "\<not> IsActive 1 (sw_m (sftp_run linux_errno new_sftp_world
     ([(''t0'', LOpen demo_connection ''tab'' ''term'' False)] @ (''t1'', LStop 1) #
      [(''t2'', LOpened 0 (OpenedSFTP ''/home/u''))])))"
  using Stop_is_final [of "[(''t0'', LOpen demo_connection ''tab'' ''term'' False)]"
      "[(''t2'', LOpened 0 (OpenedSFTP ''/home/u''))]" 1] by simp

section \<open>What is shown may be wrong\<close>

definition shows_ghost :: "string \<Rightarrow> sftp_manager \<Rightarrow> bool" where
  "shows_ghost now m \<longleftrightarrow> sm_sessions m = [] \<and>
     sstate_Status (stateLocked now 1 ''tab'' m) = SFTPStatusOnline \<and>
     sstate_Active (stateLocked now 1 ''tab'' m)"

lemma ghost_run:
  "shows_ghost now (sw_m (sftp_run pf new_sftp_world (demo_runs @
     [(''t2'', LListChecked 0 ''/tmp'' SFTPModeSFTP), (''t3'', LStopContext 1 ''tab''), (''t4'', LListState 0)])))"
  by code_simp

text \<open>
  A listing can bring back a closed session. A listing that has checked its session, then
  the context is closed, then the listing writes its state: the context is shown online and
  active, of the newest generation, while it has no session and every request is refused.
\<close>

theorem list_shows_ghost:
  "sm_sessions (sw_m (sftp_run pf new_sftp_world (demo_runs @
     [(''t2'', LListChecked 0 ''/tmp'' SFTPModeSFTP), (''t3'', LStopContext 1 ''tab''), (''t4'', LListState 0)]))) = [] \<and>
   sstate_Status (stateLocked now 1 ''tab'' (sw_m (sftp_run pf new_sftp_world (demo_runs @
     [(''t2'', LListChecked 0 ''/tmp'' SFTPModeSFTP), (''t3'', LStopContext 1 ''tab''), (''t4'', LListState 0)])))) =
     SFTPStatusOnline \<and>
   sstate_Active (stateLocked now 1 ''tab'' (sw_m (sftp_run pf new_sftp_world (demo_runs @
     [(''t2'', LListChecked 0 ''/tmp'' SFTPModeSFTP), (''t3'', LStopContext 1 ''tab''), (''t4'', LListState 0)]))))"
  using ghost_run unfolding shows_ghost_def .

text \<open>What the tracker has heard of a run: \<open>app_sftp.go\<close> passes every published state on.\<close>

definition sftp_reports :: "string \<Rightarrow> sftp_world \<Rightarrow> Tracker \<Rightarrow> Tracker" where
  "sftp_reports now w t =
     foldr (\<lambda>st t. fst (UpdateSFTP now (SFTPState.truncate st) t)) (sm_emitted (sw_m w)) t"

definition loses_other :: "string \<Rightarrow> string \<Rightarrow> sftp_world \<Rightarrow> bool" where
  "loses_other now later w \<longleftrightarrow> IsActive 1 (sw_m w) \<and> activeSession 1 ''tab'' (sw_m w) = Inr 0 \<and>
     rs_Status (Tracker_Get later 1 (sftp_reports now w (new_tracker True))) = StatusOffline"

lemma two_tabs_run:
  "loses_other now later (sftp_run pf new_sftp_world (demo_runs @
     [(''t2'', LOpen demo_connection ''other'' ''term'' False), (''t3'', LOpened 0 (OpenedSFTP ''/'')),
      (''t4'', LStopContext 1 ''other'')]))"
  by code_simp

text \<open>
  One tab closes, the server is shown as not connected. The tracker keeps one SFTP status for
  a server while the browser has one per context: with two contexts online, closing one makes
  the tracker report the server offline although the other session is there and works.
\<close>

theorem tracker_loses_other_context:
  "IsActive 1 (sw_m (sftp_run pf new_sftp_world (demo_runs @
     [(''t2'', LOpen demo_connection ''other'' ''term'' False), (''t3'', LOpened 0 (OpenedSFTP ''/'')),
      (''t4'', LStopContext 1 ''other'')]))) \<and>
   activeSession 1 ''tab'' (sw_m (sftp_run pf new_sftp_world (demo_runs @
     [(''t2'', LOpen demo_connection ''other'' ''term'' False), (''t3'', LOpened 0 (OpenedSFTP ''/'')),
      (''t4'', LStopContext 1 ''other'')]))) = Inr 0 \<and>
   rs_Status (Tracker_Get later 1 (sftp_reports now (sftp_run pf new_sftp_world (demo_runs @
     [(''t2'', LOpen demo_connection ''other'' ''term'' False), (''t3'', LOpened 0 (OpenedSFTP ''/'')),
      (''t4'', LStopContext 1 ''other'')])) (new_tracker True))) = StatusOffline"
  using two_tabs_run unfolding loses_other_def .

end
