(* ===== verification/SftpPlan.thy ===== *)
theory SftpPlan
  imports SftpDelete "HOL-Library.Code_Target_Numeral"
begin

text \<open>
  Package \<open>internal/sftpmanager\<close>, \<open>recursive.go\<close>: planning the transfer of a directory. A plan lists
  the directories to make and the files to copy, each with its local and its remote path. A
  download walks what the server lists, an upload walks the local directory with
  \<open>filepath.WalkDir\<close>. Local paths are those of a system whose separator is the slash.
\<close>

section \<open>Local paths\<close>

text \<open>\<open>filepath.Abs\<close>; \<open>cwd\<close> is the answer of \<open>os.Getwd\<close>.\<close>

definition filepath_Abs :: "goerr + string \<Rightarrow> string \<Rightarrow> goerr + string" where
  "filepath_Abs cwd p =
     (if rooted_path p then Inr (path_Clean p)
      else case cwd of Inl err \<Rightarrow> Inl err | Inr wd \<Rightarrow> Inr (path_Join wd p))"

fun strip_common :: "string list \<Rightarrow> string list \<Rightarrow> string list \<times> string list" where
  "strip_common (b # base) (t # targ) = (if b = t then strip_common base targ else (b # base, t # targ))"
| "strip_common base targ = (base, targ)"

text \<open>\<open>filepath.Rel\<close>: up from what is left of the base, down what is left of the target.\<close>

definition filepath_Rel :: "string \<Rightarrow> string \<Rightarrow> goerr + string" where
  "filepath_Rel basepath targpath =
     (let base = path_Clean basepath; targ = path_Clean targpath;
          failure = errors_New (''Rel: can't make '' @ targpath @ '' relative to '' @ basepath)
      in if base = targ then Inr ''.''
         else if rooted_path base \<noteq> rooted_path targ then Inl failure
         else case strip_common (path_comps base) (path_comps targ) of
             (base, targ) \<Rightarrow>
               if ''..'' \<in> set base then Inl failure
               else Inr (Join (replicate (length base) ''..'' @ targ) ''/''))"

definition ensureLocalDescendant :: "goerr + string \<Rightarrow> string \<Rightarrow> string \<Rightarrow> goerr option" where
  "ensureLocalDescendant cwd root target =
     (case filepath_Abs cwd (path_Clean root) of
        Inl err \<Rightarrow> Some (errorf_wrap (zh [26412, 22320, 26681, 30446, 24405, 26080, 25928, 58, 32]) err)
      | Inr rootAbs \<Rightarrow>
          (case filepath_Abs cwd (path_Clean target) of
             Inl err \<Rightarrow> Some (errorf_wrap (zh [26412, 22320, 30446, 26631, 36335, 24452, 26080, 25928, 58, 32]) err)
           | Inr targetAbs \<Rightarrow>
               (case filepath_Rel rootAbs targetAbs of
                  Inl err \<Rightarrow> Some (errorf_wrap (zh [26412, 22320, 36335, 24452, 20851, 31995, 26080, 25928, 58, 32]) err)
                | Inr rel \<Rightarrow>
                    if rel = ''..'' \<or> HasPrefix rel ''../'' \<or> rooted_path rel
                    then Some (errors_New (zh [26412, 22320, 30446, 26631, 36335, 24452, 36234, 30028])) else None)))"

definition safeLocalJoin :: "goerr + string \<Rightarrow> string \<Rightarrow> string \<Rightarrow> goerr + string" where
  "safeLocalJoin cwd parent name =
     (if name = [] \<or> name = ''.'' \<or> name = ''..'' \<or> CHR ''/'' \<in> set name \<or> CHR 0x5C \<in> set name
      then Inl (errors_New (zh [26412, 22320, 30446, 26631, 21517, 31216, 19981, 23433, 20840]))
      else let target = path_Join parent name
        in case ensureLocalDescendant cwd parent target of
             Some err \<Rightarrow> Inl err
           | None \<Rightarrow> Inr target)"

definition sameLocalPath :: "goerr + string \<Rightarrow> string \<Rightarrow> string \<Rightarrow> bool" where
  "sameLocalPath cwd left right =
     (case (filepath_Abs cwd left, filepath_Abs cwd right) of
        (Inr leftAbs, Inr rightAbs) \<Rightarrow> path_Clean leftAbs = path_Clean rightAbs
      | _ \<Rightarrow> path_Clean left = path_Clean right)"

section \<open>The plan\<close>

record RecursivePlanEntry =
  pe_RelativePath :: string
  pe_LocalPath :: string
  pe_RemotePath :: string
  pe_Size :: "64 word"

record RecursiveTransferPlan =
  pl_Directories :: "RecursivePlanEntry list"
  pl_Files :: "RecursivePlanEntry list"
  pl_TotalBytes :: "64 word"
  pl_SkippedCount :: int
  pl_Warnings :: "string list"

definition plan_warn :: "string \<Rightarrow> RecursiveTransferPlan \<Rightarrow> RecursiveTransferPlan" where
  "plan_warn warning plan = plan\<lparr>pl_Warnings := pl_Warnings plan @ [warning]\<rparr>"

definition plan_skip :: "string \<Rightarrow> RecursiveTransferPlan \<Rightarrow> RecursiveTransferPlan" where
  "plan_skip warning plan =
     (plan_warn warning plan)\<lparr>pl_SkippedCount := pl_SkippedCount plan + 1\<rparr>"

definition plan_directory :: "string \<Rightarrow> string \<Rightarrow> string \<Rightarrow> RecursiveTransferPlan \<Rightarrow> RecursiveTransferPlan" where
  "plan_directory relative localPath remotePath plan =
     plan\<lparr>pl_Directories := pl_Directories plan @
       [\<lparr>pe_RelativePath = relative, pe_LocalPath = localPath, pe_RemotePath = remotePath, pe_Size = 0\<rparr>]\<rparr>"

definition plan_file ::
  "string \<Rightarrow> string \<Rightarrow> string \<Rightarrow> 64 word \<Rightarrow> RecursiveTransferPlan \<Rightarrow> RecursiveTransferPlan" where
  "plan_file relative localPath remotePath bytes plan =
     plan\<lparr>pl_Files := pl_Files plan @
            [\<lparr>pe_RelativePath = relative, pe_LocalPath = localPath, pe_RemotePath = remotePath,
              pe_Size = bytes\<rparr>],
          pl_TotalBytes := pl_TotalBytes plan + bytes\<rparr>"

definition empty_plan :: RecursiveTransferPlan where
  "empty_plan =
     \<lparr>pl_Directories = [], pl_Files = [], pl_TotalBytes = 0, pl_SkippedCount = 0, pl_Warnings = []\<rparr>"

section \<open>Planning a download\<close>

text \<open>The loop over the entries of a remote directory, with the recursive call as an argument.\<close>

fun plan_entries ::
  "'s sftp_client \<Rightarrow> goerr + string \<Rightarrow>
   (string \<Rightarrow> string \<Rightarrow> string \<Rightarrow> RecursiveTransferPlan \<Rightarrow> ('s, goerr, RecursiveTransferPlan) io) \<Rightarrow>
   string \<Rightarrow> string \<Rightarrow> string \<Rightarrow> FileInfo option list \<Rightarrow> RecursiveTransferPlan \<Rightarrow>
   ('s, goerr, RecursiveTransferPlan) io" where
  "plan_entries c cwd plan_dir remotePath localPath relativePath [] plan = io_return plan"
| "plan_entries c cwd plan_dir remotePath localPath relativePath (entry # entries) plan =
     io_bind (io_call (ctx_Err c)) (\<lambda>_.
       case entry of
         None \<Rightarrow> plan_entries c cwd plan_dir remotePath localPath relativePath entries plan
       | Some info \<Rightarrow>
           let name = fi_Name info;
               go_on = plan_entries c cwd plan_dir remotePath localPath relativePath entries
           in if name = ''.'' \<or> name = ''..'' \<or> CHR ''/'' \<in> set name \<or> CHR 0x5C \<in> set name
              then go_on (plan_skip (safePathWarning (zh [36339, 36807, 19981, 23433, 20840, 36828, 31243, 21517, 31216]) name None) plan)
              else let childRemote = joinRemotePath remotePath name;
                       childRelative = joinRelativePath relativePath name
                in case safeLocalJoin cwd localPath name of
                     Inl err \<Rightarrow> go_on (plan_skip (safePathWarning (zh [36339, 36807, 19981, 23433, 20840, 26412, 22320, 30446, 26631]) name (Some err)) plan)
                   | Inr childLocal \<Rightarrow>
                       if fi_Symlink info
                       then go_on (plan_skip (safePathWarning (zh [36339, 36807, 36828, 31243, 31526, 21495, 38142, 25509]) childRemote None) plan)
                       else if fi_IsDir info
                       then io_bind
                         (plan_dir childRemote childLocal childRelative
                           (plan_directory childRelative childLocal childRemote plan)) go_on
                       else go_on (plan_file childRelative childLocal childRemote (fi_Size info) plan))"

fun planRemoteDirectory ::
  "nat \<Rightarrow> 's sftp_client \<Rightarrow> goerr + string \<Rightarrow> bool \<Rightarrow> string \<Rightarrow> string \<Rightarrow> string \<Rightarrow>
   RecursiveTransferPlan \<Rightarrow> ('s, goerr, RecursiveTransferPlan) io" where
  "planRemoteDirectory 0 c cwd root remotePath localPath relativePath plan = io_diverge"
| "planRemoteDirectory (Suc n) c cwd root remotePath localPath relativePath plan =
     io_bind (io_call (ctx_Err c)) (\<lambda>_.
     io_bind (io_try (io_call (cl_ReadDir c remotePath))) (\<lambda>listing.
       case listing of
         Inl err \<Rightarrow>
           if root then io_throw (errorf_wrap (zh [25195, 25551, 36828, 31243, 30446, 24405, 22833, 36133, 58, 32]) err)
           else io_return (plan_skip (safePathWarning (zh [36339, 36807, 19981, 21487, 35835, 21462, 36828, 31243, 30446, 24405]) remotePath (Some err)) plan)
       | Inr entries \<Rightarrow>
           plan_entries c cwd (planRemoteDirectory n c cwd False) remotePath localPath relativePath
             entries plan))"

text \<open>The local root of a download, or the reason why there is none.\<close>

definition download_root :: "goerr + string \<Rightarrow> string \<Rightarrow> string \<Rightarrow> goerr + string \<times> string" where
  "download_root cwd remoteRoot localDirectory =
     (if hasParentTraversal remoteRoot then Inl (errors_New (zh [36828, 31243, 28304, 36335, 24452, 19981, 33021, 21253, 21547, 32, 46, 46]))
      else let remoteRoot = cleanRemotePath remoteRoot;
               localDirectory = path_Clean (TrimSpace localDirectory)
        in if localDirectory = [] \<or> localDirectory = ''.'' then Inl (errors_New (zh [35831, 36873, 25321, 26412, 22320, 20445, 23384, 30446, 24405]))
           else let localDirectory =
                      (case filepath_Abs cwd localDirectory of Inl err \<Rightarrow> localDirectory | Inr full \<Rightarrow> full);
                    localRoot = path_Join localDirectory (safeDownloadRootName remoteRoot)
             in case ensureLocalDescendant cwd localDirectory localRoot of
                  Some err \<Rightarrow> Inl err
                | None \<Rightarrow> Inr (remoteRoot, localRoot))"

definition PlanRecursiveDownload ::
  "nat \<Rightarrow> 's sftp_client option \<Rightarrow> goerr + string \<Rightarrow> string \<Rightarrow> string \<Rightarrow>
   ('s, goerr, RecursiveTransferPlan) io" where
  "PlanRecursiveDownload n client cwd remoteRoot localDirectory =
     (case client of
        None \<Rightarrow> io_throw (errors_New (zh [83, 70, 84, 80, 32, 20250, 35805, 19981, 21487, 29992]))
      | Some c \<Rightarrow>
          (case download_root cwd remoteRoot localDirectory of
             Inl err \<Rightarrow> io_throw err
           | Inr (remoteRoot, localRoot) \<Rightarrow>
               planRemoteDirectory n c cwd True remoteRoot localRoot ''.''
                 (plan_directory ''.'' localRoot remoteRoot empty_plan)))"

section \<open>Walking a local directory\<close>

text \<open>
  What the code asks of an \<open>fs.DirEntry\<close>. The entry of the root carries its information, the
  others look it up when asked.
\<close>

record DirEntry =
  de_Name :: string
  de_IsDir :: bool
  de_Symlink :: bool
  de_Info :: "FileInfo option"

record 's local_fs =
  lf_Lstat :: "string \<Rightarrow> ('s, goerr, FileInfo) call"
  lf_ReadDir :: "string \<Rightarrow> 's \<Rightarrow> (DirEntry list \<times> goerr option) \<times> 's"
  lf_ctx_Err :: "('s, goerr, unit) call"

definition io_state :: "('s \<Rightarrow> 'a \<times> 's) \<Rightarrow> ('s, 'e, 'a) io" where
  "io_state f = (\<lambda>s. case f s of (x, t) \<Rightarrow> Some (Inr x, t))"

text \<open>
  \<open>filepath.WalkDir\<close> of the standard library. The visitor gets the path, the entry and the error
  there was, and returns whether to skip the directory.
\<close>

type_synonym ('s, 'a) visitor =
  "string \<Rightarrow> DirEntry option \<Rightarrow> goerr option \<Rightarrow> 'a \<Rightarrow> ('s, goerr, bool \<times> 'a) io"

fun walk_entries ::
  "(string \<Rightarrow> DirEntry \<Rightarrow> 'a \<Rightarrow> ('s, goerr, bool \<times> 'a) io) \<Rightarrow> string \<Rightarrow> DirEntry list \<Rightarrow> 'a \<Rightarrow>
   ('s, goerr, bool \<times> 'a) io" where
  "walk_entries walk path [] st = io_return (False, st)"
| "walk_entries walk path (d # ds) st =
     io_bind (walk (path_Join path (de_Name d)) d st) (\<lambda>(skip, st).
       if skip then io_return (False, st) else walk_entries walk path ds st)"

fun walkDir ::
  "nat \<Rightarrow> 's local_fs \<Rightarrow> ('s, 'a) visitor \<Rightarrow> string \<Rightarrow> DirEntry \<Rightarrow> 'a \<Rightarrow> ('s, goerr, bool \<times> 'a) io" where
  "walkDir 0 fs visit path d st = io_diverge"
| "walkDir (Suc n) fs visit path d st =
     io_bind (visit path (Some d) None st) (\<lambda>(skip, st).
       if skip \<or> \<not> de_IsDir d then io_return (skip \<and> \<not> de_IsDir d, st)
       else io_bind (io_state (lf_ReadDir fs path)) (\<lambda>(dirs, err).
         io_bind (case err of None \<Rightarrow> io_return (False, st)
                  | Some e \<Rightarrow> visit path (Some d) (Some e) st) (\<lambda>(skip, st).
           if skip then io_return (False, st)
           else walk_entries (walkDir n fs visit) path dirs st)))"

definition WalkDir :: "nat \<Rightarrow> 's local_fs \<Rightarrow> ('s, 'a) visitor \<Rightarrow> string \<Rightarrow> 'a \<Rightarrow> ('s, goerr, 'a) io" where
  "WalkDir n fs visit root st =
     io_bind (io_try (io_call (lf_Lstat fs root))) (\<lambda>r.
     io_bind (case r of
         Inl err \<Rightarrow> visit root None (Some err) st
       | Inr info \<Rightarrow> walkDir n fs visit root
           \<lparr>de_Name = fi_Name info, de_IsDir = fi_IsDir info, de_Symlink = fi_Symlink info,
            de_Info = Some info\<rparr> st) (\<lambda>(skip, st). io_return st))"

section \<open>Planning an upload\<close>

definition entry_dir :: "DirEntry option \<Rightarrow> bool" where
  "entry_dir entry = (case entry of None \<Rightarrow> False | Some d \<Rightarrow> de_IsDir d)"

definition entry_info :: "'s local_fs \<Rightarrow> string \<Rightarrow> DirEntry \<Rightarrow> ('s, goerr, FileInfo) io" where
  "entry_info fs path d =
     (case de_Info d of Some info \<Rightarrow> io_return info | None \<Rightarrow> io_call (lf_Lstat fs path))"

text \<open>The function \<open>PlanRecursiveUpload\<close> passes to \<open>WalkDir\<close>.\<close>

definition upload_visit ::
  "'s local_fs \<Rightarrow> goerr + string \<Rightarrow> string \<Rightarrow> string \<Rightarrow> ('s, RecursiveTransferPlan) visitor" where
  "upload_visit fs cwd localRoot remoteRoot current entry walkErr plan =
     io_bind (io_call (lf_ctx_Err fs)) (\<lambda>_.
       case walkErr of
         Some err \<Rightarrow>
           if sameLocalPath cwd current localRoot then io_throw (errorf_wrap (zh [25195, 25551, 26412, 22320, 25991, 20214, 22841, 22833, 36133, 58, 32]) err)
           else io_return (entry_dir entry,
             plan_warn (safePathWarning (zh [36339, 36807, 19981, 21487, 35835, 26412, 22320, 39033, 30446]) current (Some err)) plan)
       | None \<Rightarrow>
         (case entry of
            None \<Rightarrow> io_return (False, plan)
          | Some d \<Rightarrow>
              if de_Symlink d
              then io_return (False, plan_skip (safePathWarning (zh [36339, 36807, 31526, 21495, 38142, 25509]) current None) plan)
              else (case filepath_Rel localRoot current of
                Inl err \<Rightarrow> io_return (de_IsDir d,
                  plan_warn (safePathWarning (zh [36339, 36807, 26080, 27861, 35745, 31639, 30456, 23545, 36335, 24452, 30340, 26412, 22320, 39033, 30446]) current (Some err)) plan)
              | Inr rel \<Rightarrow>
                  (case uploadRemotePath remoteRoot rel of
                     Inl err \<Rightarrow> io_return (de_IsDir d,
                       plan_warn (safePathWarning (zh [36339, 36807, 19981, 23433, 20840, 30340, 26412, 22320, 39033, 30446]) current (Some (errors_New err))) plan)
                   | Inr remotePath \<Rightarrow>
                       if de_IsDir d
                       then io_return (False, plan_directory rel current remotePath plan)
                       else io_bind (io_try (entry_info fs current d)) (\<lambda>r.
                         case r of
                           Inl err \<Rightarrow> io_return (False,
                             plan_skip (safePathWarning (zh [36339, 36807, 19981, 21487, 35835, 21462, 26412, 22320, 25991, 20214]) current (Some err)) plan)
                         | Inr info \<Rightarrow>
                             io_return (False, plan_file rel current remotePath (fi_Size info) plan))))))"

text \<open>The local directory of an upload, made absolute where that succeeds.\<close>

definition upload_local_root :: "goerr + string \<Rightarrow> string \<Rightarrow> string" where
  "upload_local_root cwd localRoot =
     (case filepath_Abs cwd (path_Clean (TrimSpace localRoot)) of
        Inl err \<Rightarrow> path_Clean (TrimSpace localRoot)
      | Inr full \<Rightarrow> full)"

definition PlanRecursiveUpload ::
  "nat \<Rightarrow> 's local_fs \<Rightarrow> goerr + string \<Rightarrow> string \<Rightarrow> string \<Rightarrow> ('s, goerr, RecursiveTransferPlan) io" where
  "PlanRecursiveUpload n fs cwd localRoot remoteDirectory =
     (let given = path_Clean (TrimSpace localRoot)
      in if given = [] \<or> given = ''.'' then io_throw (errors_New (zh [35831, 36873, 25321, 35201, 19978, 20256, 30340, 26412, 22320, 25991, 20214, 22841]))
         else let localRoot = upload_local_root cwd localRoot
           in io_bind (io_error (errorf_wrap (zh [26412, 22320, 25991, 20214, 22841, 19981, 21487, 35835, 21462, 58, 32])) (io_call (lf_Lstat fs localRoot))) (\<lambda>info.
             let rootName = path_Base localRoot
             in if fi_Symlink info then io_throw (errors_New (zh [26242, 19981, 25903, 25345, 19978, 20256, 31526, 21495, 38142, 25509, 25991, 20214, 22841]))
                else if \<not> fi_IsDir info then io_throw (errors_New (zh [35831, 36873, 25321, 26412, 22320, 25991, 20214, 22841]))
                else if rootName = ''.'' \<or> rootName = ''/'' \<or> rootName = []
                  then io_throw (errors_New (zh [26412, 22320, 25991, 20214, 22841, 21517, 31216, 19981, 21487, 29992]))
                else if hasParentTraversal remoteDirectory
                  then io_throw (errors_New (zh [36828, 31243, 30446, 26631, 36335, 24452, 19981, 33021, 21253, 21547, 32, 46, 46]))
                else WalkDir n fs
                  (upload_visit fs cwd localRoot (joinRemotePath (cleanRemotePath remoteDirectory) rootName))
                  localRoot empty_plan))"

section \<open>Below the local root\<close>

definition abs_clean :: "string \<Rightarrow> bool" where
  "abs_clean p \<longleftrightarrow> (\<exists>cs. clean_stack True cs \<and> p = path_text True cs)"

text \<open>\<open>os.Getwd\<close> answers with a rooted path.\<close>

definition cwd_ok :: "goerr + string \<Rightarrow> bool" where
  "cwd_ok cwd = (case cwd of Inl err \<Rightarrow> True | Inr wd \<Rightarrow> rooted_path wd)"

definition below :: "string \<Rightarrow> string \<Rightarrow> bool" where
  "below root p \<longleftrightarrow> path_Clean p = p \<and> (p = root \<or> HasPrefix p (root @ ''/''))"

lemma abs_clean_Clean: "rooted_path p \<Longrightarrow> abs_clean (path_Clean p)"
  using path_Clean_form [of p] by (auto simp: abs_clean_def)

lemma abs_clean_rooted: "abs_clean p \<Longrightarrow> rooted_path p \<and> path_Clean p = p"
  by (auto simp: abs_clean_def path_Clean_text rooted_path_text clean_stack_plain)

lemma rooted_path_append: "rooted_path a \<Longrightarrow> rooted_path (a @ b)"
  by (auto simp: rooted_path_def HasPrefix_iff prefix_def)

lemma filepath_Abs_clean: "cwd_ok cwd \<Longrightarrow> filepath_Abs cwd p = Inr q \<Longrightarrow> abs_clean q"
  by (auto simp: filepath_Abs_def cwd_ok_def path_Join_def rooted_path_def HasPrefix_iff
      intro!: abs_clean_Clean [unfolded rooted_path_def HasPrefix_iff] split: if_splits sum.splits
      intro: rooted_path_append)

lemma abs_clean_child:
  assumes "abs_clean p" "plain_comp name" "name \<noteq> ''..''"
  shows "path_Join p name = child_path p name \<and> abs_clean (child_path p name)"
proof -
  obtain cs where cs: "clean_stack True cs" "p = path_text True cs" using assms(1) by (auto simp: abs_clean_def)
  have "path_Join p name = path_text True (cs @ [name])"
    using path_Join_child [OF cs(1) _ assms(2,3)] cs(2) by simp
  moreover have "child_path p name = path_text True (cs @ [name])"
    using child_path_text [OF cs(1) _ cs(2)] by simp
  ultimately show ?thesis using clean_stack_snoc [OF cs(1) assms(2,3)] by (auto simp: abs_clean_def)
qed

lemma below_child: "below root p \<Longrightarrow> root \<noteq> ''/'' \<Longrightarrow> root \<noteq> [] \<Longrightarrow> path_Clean (child_path p name) = child_path p name \<Longrightarrow>
   below root (child_path p name)"
  by (auto simp: below_def child_path_def HasPrefix_iff prefix_def Cons_eq_append_conv append_eq_Cons_conv)

lemma safe_name_plain: "safeRemoteChildName name \<Longrightarrow> plain_comp name \<and> name \<noteq> ''..''"
  by (auto simp: safeRemoteChildName_def plain_comp_def)

lemma safeLocalJoin_Inr:
  assumes "abs_clean p" "safeLocalJoin cwd p name = Inr q"
  shows "q = child_path p name \<and> abs_clean q \<and> safeRemoteChildName name"
proof -
  have "safeRemoteChildName name" "q = path_Join p name"
    using assms(2) by (auto simp: safeLocalJoin_def safeRemoteChildName_def Let_def split: if_splits option.splits)
  then show ?thesis using abs_clean_child [OF assms(1)] safe_name_plain by metis
qed

lemma ReplaceChar_char: "ReplaceChar s c [d] = map (\<lambda>x. if x = c then d else x) s"
  by (induction s) (auto simp: ReplaceChar_def)

lemma safeDownloadRootName_plain:
  "plain_comp (safeDownloadRootName r) \<and> safeDownloadRootName r \<noteq> ''..''"
  by (auto simp: safeDownloadRootName_def Let_def plain_comp_def ReplaceChar_char map_eq_Cons_conv
      split: if_splits)

definition plan_below :: "string \<Rightarrow> RecursiveTransferPlan \<Rightarrow> bool" where
  "plan_below root plan \<longleftrightarrow>
     (\<forall>e \<in> set (pl_Directories plan) \<union> set (pl_Files plan). below root (pe_LocalPath e))"

lemma plan_below_simps [simp]:
  "plan_below root (plan_skip w plan) = plan_below root plan"
  "plan_below root (plan_warn w plan) = plan_below root plan"
  "plan_below root (plan_file rel p r n plan) \<longleftrightarrow> plan_below root plan \<and> below root p"
  "plan_below root (plan_directory rel p r plan) \<longleftrightarrow> plan_below root plan \<and> below root p"
  "plan_below root empty_plan"
  by (auto simp: plan_below_def plan_skip_def plan_warn_def plan_file_def plan_directory_def empty_plan_def)

lemma plan_entries_below:
  assumes dir: "\<And>r p rel plan. abs_clean p \<Longrightarrow> below L p \<Longrightarrow> plan_below L plan \<Longrightarrow>
      io_returns (plan_dir r p rel plan) (plan_below L)"
    and L: "L \<noteq> ''/''" "L \<noteq> []" and p: "abs_clean p" "below L p"
  shows "plan_below L plan \<Longrightarrow>
    io_returns (plan_entries c cwd plan_dir r p rel es plan) (plan_below L)"
proof (induction es arbitrary: plan)
  case (Cons e es)
  show ?case
  proof (cases e)
    case None
    then show ?thesis using Cons by (auto intro!: io_returns_bind)
  next
    case (Some info)
    have child: "q = child_path p (fi_Name info) \<and> abs_clean q \<and> below L q"
      if "safeLocalJoin cwd p (fi_Name info) = Inr q" for q
      using safeLocalJoin_Inr [OF p(1) that] below_child [OF p(2) L] abs_clean_rooted by metis
    have descend: "io_returns (io_bind
        (plan_dir r' q rel' (plan_directory rel' q r' plan))
        (plan_entries c cwd plan_dir r p rel es)) (plan_below L)"
      if "safeLocalJoin cwd p (fi_Name info) = Inr q" for q r' rel'
      using child [OF that] Cons by (intro io_returns_bind_value [OF dir]) auto
    show ?thesis
      unfolding plan_entries.simps
      by (rule io_returns_bind)
        (use Cons child Some in \<open>auto simp: Let_def split: sum.split intro!: descend\<close>)
  qed
qed (simp add: io_returns_return)

lemma planRemoteDirectory_below:
  assumes "L \<noteq> ''/''" "L \<noteq> []"
  shows "abs_clean p \<Longrightarrow> below L p \<Longrightarrow> plan_below L plan \<Longrightarrow>
    io_returns (planRemoteDirectory n c cwd root r p rel plan) (plan_below L)"
proof (induction n arbitrary: root r p rel plan)
  case (Suc n)
  show ?case
    using Suc.prems plan_entries_below [OF Suc.IH assms Suc.prems(1,2)]
    by (auto simp: io_returns_return io_returns_def [of "io_throw _"] split: sum.split intro!: io_returns_bind)
qed (simp add: io_returns_def io_diverge_def)

text \<open>
  C3: A download never leaves the directory the user chose, whatever names the server lists: every
  local path of the plan is clean and is the new directory in the chosen one, or below it.
\<close>

theorem PlanRecursiveDownload_confined:
  assumes "cwd_ok cwd"
    and "PlanRecursiveDownload n (Some c) cwd remoteRoot localDirectory s = Some (Inr plan, t)"
  shows "\<exists>dir name. filepath_Abs cwd (path_Clean (TrimSpace localDirectory)) = Inr dir \<and>
    plain_comp name \<and> name \<noteq> ''..'' \<and>
    (\<forall>e \<in> set (pl_Directories plan) \<union> set (pl_Files plan).
       path_Clean (pe_LocalPath e) = pe_LocalPath e \<and>
       (pe_LocalPath e = child_path dir name \<or> HasPrefix (pe_LocalPath e) (child_path dir name @ ''/'')))"
proof -
  let ?r = "cleanRemotePath remoteRoot" and ?d = "path_Clean (TrimSpace localDirectory)"
  obtain r L where root: "download_root cwd remoteRoot localDirectory = Inr (r, L)"
    and plan: "planRemoteDirectory n c cwd True r L ''.'' (plan_directory ''.'' L r empty_plan) s = Some (Inr plan, t)"
    using assms(2) by (auto simp: PlanRecursiveDownload_def split: sum.splits)
  define name where "name = safeDownloadRootName r"
  obtain dir where dir: "filepath_Abs cwd ?d = Inr dir" "L = path_Join dir name"
    using root by (auto simp: download_root_def Let_def ensureLocalDescendant_def name_def
        split: if_splits sum.splits option.splits)
  have abs: "abs_clean dir" using filepath_Abs_clean [OF assms(1) dir(1)] .
  have name: "plain_comp name" "name \<noteq> ''..''" using safeDownloadRootName_plain by (simp_all add: name_def)
  have L: "L = child_path dir name" "abs_clean L" using abs_clean_child [OF abs name] dir(2) by auto
  have "below L L" using abs_clean_rooted [OF L(2)] by (simp add: below_def)
  moreover have "L \<noteq> ''/''" "L \<noteq> []"
    using name(1) L(1) abs_clean_rooted [OF abs] by (auto simp: child_path_def plain_comp_def append_eq_Cons_conv)
  ultimately have "io_returns (planRemoteDirectory n c cwd True r L ''.''
      (plan_directory ''.'' L r empty_plan)) (plan_below L)"
    using L(2) by (intro planRemoteDirectory_below) simp_all
  then have "plan_below L plan" using plan unfolding io_returns_def by blast
  then show ?thesis using dir(1) name L(1) by (auto simp: plan_below_def below_def)
qed

section \<open>The plan of a tree\<close>

text \<open>
  The specification of a download: a remote tree of files, links and directories, the files and
  the directories of the tree as lists of names from its root.
\<close>

datatype rnode = RFile "64 word" | RLink | RDir rnodes
and rnodes = RNil | RCons string rnode rnodes

primrec node_files :: "string list \<Rightarrow> rnode \<Rightarrow> (string list \<times> 64 word) list"
  and nodes_files :: "string list \<Rightarrow> rnodes \<Rightarrow> (string list \<times> 64 word) list" where
  "node_files cs (RFile n) = [(cs, n)]"
| "node_files cs RLink = []"
| "node_files cs (RDir ts) = nodes_files cs ts"
| "nodes_files cs RNil = []"
| "nodes_files cs (RCons name t ts) = node_files (cs @ [name]) t @ nodes_files cs ts"

primrec node_dirs :: "string list \<Rightarrow> rnode \<Rightarrow> string list list"
  and nodes_dirs :: "string list \<Rightarrow> rnodes \<Rightarrow> string list list" where
  "node_dirs cs (RFile n) = []"
| "node_dirs cs RLink = []"
| "node_dirs cs (RDir ts) = cs # nodes_dirs cs ts"
| "nodes_dirs cs RNil = []"
| "nodes_dirs cs (RCons name t ts) = node_dirs (cs @ [name]) t @ nodes_dirs cs ts"

primrec node_links :: "rnode \<Rightarrow> nat" and nodes_links :: "rnodes \<Rightarrow> nat" where
  "node_links (RFile n) = 0"
| "node_links RLink = 1"
| "node_links (RDir ts) = nodes_links ts"
| "nodes_links RNil = 0"
| "nodes_links (RCons name t ts) = node_links t + nodes_links ts"

primrec node_depth :: "rnode \<Rightarrow> nat" and nodes_depth :: "rnodes \<Rightarrow> nat" where
  "node_depth (RFile n) = 0"
| "node_depth RLink = 0"
| "node_depth (RDir ts) = Suc (nodes_depth ts)"
| "nodes_depth RNil = 0"
| "nodes_depth (RCons name t ts) = max (node_depth t) (nodes_depth ts)"

primrec node_info :: "string \<Rightarrow> rnode \<Rightarrow> FileInfo" where
  "node_info name (RFile n) = \<lparr>fi_Name = name, fi_Size = n, fi_IsDir = False, fi_Symlink = False\<rparr>"
| "node_info name RLink = \<lparr>fi_Name = name, fi_Size = 0, fi_IsDir = False, fi_Symlink = True\<rparr>"
| "node_info name (RDir ts) = \<lparr>fi_Name = name, fi_Size = 0, fi_IsDir = True, fi_Symlink = False\<rparr>"

primrec nodes_listing :: "rnodes \<Rightarrow> FileInfo option list" where
  "nodes_listing RNil = []"
| "nodes_listing (RCons name t ts) = Some (node_info name t) # nodes_listing ts"

text \<open>The server lists this tree at this path, under tidy names.\<close>

primrec serves_node :: "'s sftp_client \<Rightarrow> string \<Rightarrow> rnode \<Rightarrow> bool"
  and serves_nodes :: "'s sftp_client \<Rightarrow> string \<Rightarrow> rnodes \<Rightarrow> bool" where
  "serves_node c p (RFile n) = True"
| "serves_node c p RLink = True"
| "serves_node c p (RDir ts) \<longleftrightarrow>
     (\<forall>s. fst (cl_ReadDir c p s) = Inr (nodes_listing ts)) \<and> serves_nodes c p ts"
| "serves_nodes c p RNil = True"
| "serves_nodes c p (RCons name t ts) \<longleftrightarrow>
     tidy_name name \<and> serves_node c (child_path p name) t \<and> serves_nodes c p ts"

definition relative_text :: "string list \<Rightarrow> string" where
  "relative_text cs = (if cs = [] then ''.'' else Join cs ''/'')"

definition entry_at :: "string \<Rightarrow> string \<Rightarrow> string list \<times> 64 word \<Rightarrow> RecursivePlanEntry" where
  "entry_at localRoot remoteRoot = (\<lambda>(cs, n).
     \<lparr>pe_RelativePath = relative_text cs, pe_LocalPath = foldl child_path localRoot cs,
      pe_RemotePath = foldl child_path remoteRoot cs, pe_Size = n\<rparr>)"

lemma filepath_Abs_id: "abs_clean p \<Longrightarrow> filepath_Abs cwd (path_Clean p) = Inr p"
  using abs_clean_rooted [of p] by (simp add: filepath_Abs_def)

lemma strip_common_prefix: "strip_common cs (cs @ ds) = ([], ds)"
  by (induction cs) auto

lemma filepath_Rel_child:
  assumes "abs_clean p" "plain_comp name" "name \<noteq> ''..''"
  shows "filepath_Rel p (child_path p name) = Inr name"
proof -
  obtain cs where cs: "clean_stack True cs" "p = path_text True cs" using assms(1) by (auto simp: abs_clean_def)
  have child: "child_path p name = path_text True (cs @ [name])"
    using child_path_text [OF cs(1) _ cs(2)] by simp
  have stack: "clean_stack True (cs @ [name])" using clean_stack_snoc [OF cs(1) assms(2,3)] .
  note plain = clean_stack_plain [OF cs(1)] clean_stack_plain [OF stack]
  have "path_comps p = cs" "path_comps (child_path p name) = cs @ [name]"
    unfolding child using plain cs(2) by (simp_all only: path_comps_text)
  moreover from this have "p \<noteq> child_path p name" by (metis append_self_conv not_Cons_self2)
  ultimately show ?thesis
    using abs_clean_rooted [OF assms(1)] abs_clean_child [OF assms] abs_clean_rooted [of "child_path p name"]
    by (simp add: filepath_Rel_def Let_def strip_common_prefix)
qed

lemma safeLocalJoin_child:
  assumes "abs_clean p" "safeRemoteChildName name"
  shows "safeLocalJoin cwd p name = Inr (child_path p name)"
proof -
  have name: "plain_comp name" "name \<noteq> ''..''" using safe_name_plain [OF assms(2)] by auto
  have "\<not> HasPrefix name ''../''" "\<not> rooted_path name"
    using assms(2) by (auto simp: safeRemoteChildName_def HasPrefix_iff prefix_def rooted_path_def)
  then have "ensureLocalDescendant cwd p (child_path p name) = None"
    using filepath_Rel_child [OF assms(1) name] filepath_Abs_id [OF assms(1)] name(2)
      filepath_Abs_id [of "child_path p name"] abs_clean_child [OF assms(1) name]
    by (simp add: ensureLocalDescendant_def)
  then show ?thesis
    using assms(2) abs_clean_child [OF assms(1) name]
    by (auto simp: safeLocalJoin_def safeRemoteChildName_def Let_def)
qed

lemma joinRelativePath_text:
  assumes "\<forall>c \<in> set cs. tidy_name c" "tidy_name name"
  shows "joinRelativePath (relative_text cs) name = relative_text (cs @ [name])"
proof (cases "cs = []")
  case False
  have plain: "\<forall>c \<in> set cs. plain_comp c \<and> c \<noteq> ''..''" "plain_comp name" "name \<noteq> ''..''"
    using assms tidy_name_plain by auto
  then have stack: "clean_stack False cs"
    unfolding clean_stack_def by (auto intro!: exI [of _ "0 :: nat"])
  have form: "relative_text cs = path_text False cs" for cs by (simp add: relative_text_def path_text_def)
  have "path_text False cs \<noteq> []" by (rule path_text_nonempty [OF stack])
  moreover have "path_text False cs \<noteq> ''.''"
    using path_comps_text [of cs False] plain(1) False by (auto simp: path_comps_def Split_def)
  ultimately show ?thesis
    using path_Join_child [OF stack _ plain(2,3)] False by (simp add: form joinRelativePath_def path_Join_def)
qed (simp add: joinRelativePath_def relative_text_def)

definition plan_adds ::
  "RecursivePlanEntry list \<Rightarrow> RecursivePlanEntry list \<Rightarrow> nat \<Rightarrow> RecursiveTransferPlan \<Rightarrow>
   RecursiveTransferPlan \<Rightarrow> bool" where
  "plan_adds ds fs k plan plan' \<longleftrightarrow>
     pl_Directories plan' = pl_Directories plan @ ds \<and> pl_Files plan' = pl_Files plan @ fs \<and>
     pl_TotalBytes plan' = pl_TotalBytes plan + (\<Sum>f\<leftarrow>fs. pe_Size f) \<and>
     pl_SkippedCount plan' = pl_SkippedCount plan + int k"

lemma plan_adds_trans:
  "plan_adds ds fs k p q \<Longrightarrow> plan_adds ds' fs' k' q r \<Longrightarrow> plan_adds (ds @ ds') (fs @ fs') (k + k') p r"
  by (simp add: plan_adds_def)

lemma plan_adds_steps:
  "plan_adds [] [\<lparr>pe_RelativePath = rel, pe_LocalPath = p, pe_RemotePath = r, pe_Size = n\<rparr>] 0 plan (plan_file rel p r n plan)"
  "plan_adds [\<lparr>pe_RelativePath = rel, pe_LocalPath = p, pe_RemotePath = r, pe_Size = 0\<rparr>] [] 0 plan (plan_directory rel p r plan)"
  "plan_adds [] [] 1 plan (plan_skip w plan)"
  by (simp_all add: plan_adds_def plan_file_def plan_directory_def plan_skip_def plan_warn_def)

lemma io_bind_call_ok: "fst (f s) = Inr x \<Longrightarrow> io_bind (io_call f) g s = g x (snd (f s))"
  by (cases "f s") (simp add: io_bind_def io_call_def)

lemma io_bind_try_ok: "fst (f s) = Inr x \<Longrightarrow> io_bind (io_try (io_call f)) g s = g (Inr x) (snd (f s))"
  by (cases "f s") (simp add: io_bind_def io_try_def io_call_def)

lemma io_bind_ok: "m s = Some (Inr x, t) \<Longrightarrow> io_bind m g s = g x t"
  by (simp add: io_bind_def)

text \<open>What the plan of the entries of a directory is, with a server that never fails.\<close>

definition plans ::
  "'s sftp_client \<Rightarrow> goerr + string \<Rightarrow> string \<Rightarrow> string \<Rightarrow> nat \<Rightarrow> string list \<Rightarrow> rnodes \<Rightarrow> bool" where
  "plans c cwd L R n cs ts \<longleftrightarrow>
     (\<forall>plan s. \<exists>plan' s'.
        plan_entries c cwd (planRemoteDirectory n c cwd False) (foldl child_path R cs)
          (foldl child_path L cs) (relative_text cs) (nodes_listing ts) plan s = Some (Inr plan', s') \<and>
        plan_adds (map (\<lambda>cs. entry_at L R (cs, 0)) (nodes_dirs cs ts))
          (map (entry_at L R) (nodes_files cs ts)) (nodes_links ts) plan plan')"

lemma foldl_child_tidy:
  "tidy_path p \<Longrightarrow> \<forall>c \<in> set cs. tidy_name c \<Longrightarrow> tidy_path (foldl child_path p cs)"
  by (induction cs arbitrary: p) (simp_all add: child_path_tidy)

lemma foldl_child_abs:
  "abs_clean p \<Longrightarrow> \<forall>c \<in> set cs. tidy_name c \<Longrightarrow> abs_clean (foldl child_path p cs)"
  by (induction cs arbitrary: p) (use tidy_name_plain abs_clean_child in \<open>auto simp: abs_clean_child\<close>)

lemma planRemoteDirectory_serves:
  assumes "\<forall>s. fst (ctx_Err c s) = Inr ()" "\<forall>s. fst (cl_ReadDir c r s) = Inr es"
  shows "planRemoteDirectory (Suc n) c cwd root r p rel plan s =
    plan_entries c cwd (planRemoteDirectory n c cwd False) r p rel es plan
      (snd (cl_ReadDir c r (snd (ctx_Err c s))))"
  using assms by (simp add: io_bind_call_ok io_bind_try_ok)

text \<open>One entry of a listing, when its name is tidy and the context lives.\<close>

lemma plan_entries_RCons:
  assumes "\<forall>s. fst (ctx_Err c s) = Inr ()" "abs_clean p" "tidy_path r"
    "\<forall>c \<in> set cs. tidy_name c" "tidy_name name"
  shows "plan_entries c cwd walk r p (relative_text cs) (nodes_listing (RCons name t ts)) plan s =
    (let go = plan_entries c cwd walk r p (relative_text cs) (nodes_listing ts);
         rel = relative_text (cs @ [name]); p' = child_path p name; r' = child_path r name
     in case t of
          RFile k \<Rightarrow> go (plan_file rel p' r' k plan)
        | RLink \<Rightarrow> go (plan_skip (safePathWarning (zh [36339, 36807, 36828, 31243, 31526, 21495, 38142, 25509]) r' None) plan)
        | RDir ts' \<Rightarrow> io_bind (walk r' p' rel (plan_directory rel p' r' plan)) go) (snd (ctx_Err c s))"
proof -
  have safe: "safeRemoteChildName name" using assms(5) by (simp add: tidy_name_def)
  then show ?thesis
    using join_child_path [OF assms(3,5)] joinRelativePath_text [OF assms(4,5)]
      safeLocalJoin_child [OF assms(2) safe, of cwd]
    by (cases t) (simp_all add: assms(1) io_bind_call_ok Let_def safeRemoteChildName_def)
qed

lemma entry_at_snoc:
  "entry_at L R (cs @ [name], k) =
    \<lparr>pe_RelativePath = relative_text (cs @ [name]), pe_LocalPath = child_path (foldl child_path L cs) name,
     pe_RemotePath = child_path (foldl child_path R cs) name, pe_Size = k\<rparr>"
  by (simp add: entry_at_def)

lemma plans_RCons:
  assumes ok: "\<forall>s. fst (ctx_Err c s) = Inr ()"
    and L: "abs_clean (foldl child_path L cs)" and R: "tidy_path (foldl child_path R cs)"
    and cs: "\<forall>c \<in> set cs. tidy_name c" and name: "tidy_name name"
    and served: "serves_node c (foldl child_path R (cs @ [name])) t"
    and sub: "\<And>ts' m. t = RDir ts' \<Longrightarrow> n = Suc m \<Longrightarrow> plans c cwd L R m (cs @ [name]) ts'"
    and depth: "node_depth t \<le> n" and rest: "plans c cwd L R n cs ts"
  shows "plans c cwd L R n cs (RCons name t ts)"
  unfolding plans_def
proof (intro allI)
  fix plan s
  let ?R = "foldl child_path R cs" and ?L = "foldl child_path L cs"
  let ?walk = "planRemoteDirectory n c cwd False"
  note step = plan_entries_RCons [OF ok L R cs name, of cwd ?walk t ts plan s]
  have finish: "\<exists>plan2 s2. plan_entries c cwd ?walk ?R ?L (relative_text cs) (nodes_listing ts) plan1 s1 =
        Some (Inr plan2, s2) \<and>
      plan_adds (ds @ map (\<lambda>cs. entry_at L R (cs, 0)) (nodes_dirs cs ts))
        (fs @ map (entry_at L R) (nodes_files cs ts)) (k + nodes_links ts) plan plan2"
    if "plan_adds ds fs k plan plan1" for ds fs k plan1 s1
    using rest plan_adds_trans [OF that] unfolding plans_def by blast
  show "\<exists>plan' s'. plan_entries c cwd ?walk ?R ?L (relative_text cs) (nodes_listing (RCons name t ts)) plan s =
       Some (Inr plan', s') \<and>
     plan_adds (map (\<lambda>cs. entry_at L R (cs, 0)) (nodes_dirs cs (RCons name t ts)))
        (map (entry_at L R) (nodes_files cs (RCons name t ts))) (nodes_links (RCons name t ts)) plan plan'"
  proof (cases t)
    case (RFile k)
    then show ?thesis using finish [OF plan_adds_steps(1)] unfolding step by (simp add: entry_at_snoc)
  next
    case RLink
    then show ?thesis using finish [OF plan_adds_steps(3)] unfolding step by simp
  next
    case (RDir ts')
    obtain m where m: "n = Suc m" using depth RDir by (cases n) auto
    let ?plan = "plan_directory (relative_text (cs @ [name])) (child_path ?L name) (child_path ?R name) plan"
    have "\<forall>s. fst (cl_ReadDir c (child_path ?R name) s) = Inr (nodes_listing ts')"
      using served RDir by simp
    note unfolded = planRemoteDirectory_serves [OF ok this, of m cwd False "child_path ?L name"
        "relative_text (cs @ [name])" ?plan "snd (ctx_Err c s)"]
    obtain plan1 s1 where one:
      "?walk (child_path ?R name) (child_path ?L name) (relative_text (cs @ [name])) ?plan
         (snd (ctx_Err c s)) = Some (Inr plan1, s1)"
      "plan_adds (map (\<lambda>cs. entry_at L R (cs, 0)) (nodes_dirs (cs @ [name]) ts'))
        (map (entry_at L R) (nodes_files (cs @ [name]) ts')) (nodes_links ts') ?plan plan1"
      using sub [OF RDir m] unfolded unfolding plans_def m by (simp del: planRemoteDirectory.simps) blast
    show ?thesis
      using finish [OF plan_adds_trans [OF plan_adds_steps(2) one(2)], of s1] one(1) RDir
      unfolding step by (simp add: Let_def io_bind_ok entry_at_snoc)
  qed
qed

lemma plans_tree:
  assumes "\<forall>s. fst (ctx_Err c s) = Inr ()" "abs_clean L" "tidy_path R"
  shows "\<forall>c \<in> set cs. tidy_name c \<Longrightarrow> serves_nodes c (foldl child_path R cs) ts \<Longrightarrow>
    nodes_depth ts \<le> n \<Longrightarrow> plans c cwd L R n cs ts"
proof (induction ts arbitrary: cs n rule: rnodes.induct
    [of "\<lambda>t. \<forall>cs ts n. t = RDir ts \<longrightarrow> (\<forall>c \<in> set cs. tidy_name c) \<longrightarrow>
       serves_nodes c (foldl child_path R cs) ts \<longrightarrow> nodes_depth ts \<le> n \<longrightarrow> plans c cwd L R n cs ts"])
  case (RCons name t ts)
  have names: "\<forall>c \<in> set (cs @ [name]). tidy_name c" using RCons.prems by simp
  show ?case
    using RCons names assms foldl_child_abs [OF assms(2) RCons.prems(1)]
      foldl_child_tidy [OF assms(3) RCons.prems(1)]
    by (intro plans_RCons) auto
qed (auto simp: plans_def plan_adds_def io_return_def)

text \<open>
  C21: Planning a download implements the specification: when the server lists a tree of tidy names
  (no slash, no space at an end, no dots) below a tidy path, the local root is a clean absolute path and the
  context is not canceled, the plan holds exactly the directories and the files of the tree, parents
  before children, each under its own path on both sides, and never what is behind a link. Fuel above
  the depth of the tree is enough.
\<close>

theorem PlanRecursiveDownload_tree:
  assumes "\<forall>s. fst (ctx_Err c s) = Inr ()" "serves_node c R (RDir ts)" "node_depth (RDir ts) \<le> n"
    and "download_root cwd remoteRoot localDirectory = Inr (R, L)" "tidy_path R" "abs_clean L"
  shows "\<exists>plan t. PlanRecursiveDownload n (Some c) cwd remoteRoot localDirectory s = Some (Inr plan, t) \<and>
    pl_Directories plan = map (\<lambda>cs. entry_at L R (cs, 0)) (node_dirs [] (RDir ts)) \<and>
    pl_Files plan = map (entry_at L R) (node_files [] (RDir ts)) \<and>
    pl_TotalBytes plan = sum_list (map snd (node_files [] (RDir ts))) \<and>
    pl_SkippedCount plan = int (node_links (RDir ts))"
proof -
  obtain m where m: "n = Suc m" "nodes_depth ts \<le> m" using assms(3) by (cases n) auto
  have listing: "\<forall>s. fst (cl_ReadDir c R s) = Inr (nodes_listing ts)" "serves_nodes c R ts"
    using assms(2) by simp_all
  have "plans c cwd L R m [] ts" using plans_tree [OF assms(1,6,5)] listing(2) m(2) by simp
  then obtain plan t where
    "PlanRecursiveDownload n (Some c) cwd remoteRoot localDirectory s = Some (Inr plan, t)"
    "plan_adds (map (\<lambda>cs. entry_at L R (cs, 0)) (nodes_dirs [] ts)) (map (entry_at L R) (nodes_files [] ts))
      (nodes_links ts) (plan_directory ''.'' L R empty_plan) plan"
    using planRemoteDirectory_serves [OF assms(1) listing(1), of m cwd True L]
    unfolding plans_def PlanRecursiveDownload_def assms(4) m(1)
    by (simp add: relative_text_def del: planRemoteDirectory.simps) blast
  then show ?thesis
    by (auto simp: plan_adds_def plan_directory_def empty_plan_def entry_at_def relative_text_def
        comp_def case_prod_beta)
qed

section \<open>The paths of an upload\<close>

lemma path_comps_Join:
  assumes "\<forall>c \<in> set ds. plain_comp c" "p \<noteq> []"
  shows "path_comps (p @ ''/'' @ Join ds ''/'') = path_comps p @ ds"
proof -
  have "split_acc c acc (p @ c # q) = split_acc c acc p @ split_acc c [] q" for c acc p q
    by (induction p arbitrary: acc) auto
  then have "path_comps (p @ ''/'' @ q) = path_comps p @ path_comps q" for q
    by (simp add: path_comps_def Split_def)
  moreover have "path_comps (path_text True ds) = ds" using path_comps_text [OF assms(1)] .
  then have "path_comps (Join ds ''/'') = ds" by (simp add: path_text_def path_comps_def Split_rooted)
  ultimately show ?thesis by simp
qed

lemma clean_comps_append: "''..'' \<notin> set ds \<Longrightarrow> clean_stack r cs \<Longrightarrow> clean_comps r (cs @ ds) = cs @ ds"
proof -
  have "foldl (clean_step r) st ds = rev ds @ st" if "''..'' \<notin> set ds" for st
    using that by (induction ds arbitrary: st) (auto simp: clean_step_def)
  moreover assume "''..'' \<notin> set ds" "clean_stack r cs"
  ultimately show ?thesis using clean_comps_id [of r cs] by (simp add: clean_comps_def)
qed

lemma Join_append: "cs \<noteq> [] \<Longrightarrow> ds \<noteq> [] \<Longrightarrow> Join (cs @ ds) sep = Join cs sep @ sep @ Join ds sep"
proof (induction cs)
  case (Cons c cs)
  then show ?case by (cases cs; cases ds) auto
qed simp

lemma child_path_Join:
  assumes "clean_stack r cs" "r \<or> cs \<noteq> []" "ds \<noteq> []"
  shows "path_text r (cs @ ds) = child_path (path_text r cs) (Join ds ''/'')"
proof (cases "cs = []")
  case False
  have "path_comps (path_text r cs) = cs" by (rule path_comps_text [OF clean_stack_plain [OF assms(1)]])
  moreover have "path_comps ''/'' = []" by (simp add: path_comps_def Split_def)
  ultimately have "path_text r cs \<noteq> ''/''" using False by auto
  then show ?thesis using False assms(3) by (simp add: child_path_def path_text_def Join_append)
qed (use assms(2,3) in \<open>simp add: child_path_def path_text_def\<close>)

lemma uploadRemotePath_child:
  assumes "tidy_path root" "tidy_path rel" "uploadRemotePath root rel = Inr p"
  shows "p = child_path root rel"
proof -
  obtain r cs where cs: "clean_stack r cs" "root = path_text r cs" "r \<or> cs \<noteq> []"
    using assms(1) by (rule tidy_path_text)
  have rel: "slashed rel = rel" "TrimSpace rel = rel" "path_Clean rel = rel" "rel \<noteq> []" "\<not> HasPrefix rel ''/''"
      "\<not> hasParentTraversal rel" "p = joinRemotePath root rel"
    using assms(2,3) tidy_path_nonempty [OF assms(2)]
    by (auto simp: tidy_path_def uploadRemotePath_def split: if_splits)
  obtain ds where ds: "clean_stack False ds" "rel = path_text False ds" "ds \<noteq> []"
    using path_Clean_form [of rel] rel(3,5) assms(2)
    by (auto simp: rooted_path_def tidy_path_def path_text_def split: if_splits)
  note plain = clean_stack_plain [OF cs(1)] clean_stack_plain [OF ds(1)]
  have join: "rel = Join ds ''/''" using ds by (simp add: path_text_def)
  have "Split rel (CHR ''/'') = ds"
    using ds plain(2) unfolding join by (intro Split_Join_inverse) (auto simp: plain_comp_def)
  then have up: "''..'' \<notin> set ds" using rel(1,6) by (auto simp: hasParentTraversal_def list_ex_iff)
  have ne: "root \<noteq> []" using tidy_path_nonempty [OF assms(1)] .
  have "rooted_path (root @ ''/'' @ rel) = rooted_path root"
    using ne by (cases root) (simp_all add: rooted_path_def HasPrefix_def)
  then have "rooted_path (root @ ''/'' @ rel) = r"
    using rooted_path_text [OF plain(1), of r] cs(2) by simp
  moreover have "path_comps (root @ ''/'' @ rel) = cs @ ds"
    using path_comps_Join [OF plain(2) ne] path_comps_text [OF plain(1)] cs(2) join by simp
  ultimately have clean: "path_Join root rel = path_text r (cs @ ds)"
    using clean_comps_append [OF up cs(1)] ne by (simp add: path_Join_def path_Clean_def)
  have child: "path_Join root rel = child_path root rel"
    using child_path_Join [OF cs(1,3) ds(3)] clean cs(2) join by simp
  have "TrimSpace root = root" "slashed root = root" using assms(1) by (simp_all add: tidy_path_def)
  then have "TrimSpace (child_path root rel) = child_path root rel"
      "slashed (child_path root rel) = child_path root rel"
    using TrimSpace_slash_join [of "[]" rel] TrimSpace_slash_join [of root rel] rel(1,2,4)
    by (simp_all add: child_path_def TrimSpace_Nil slashed_append slashed_slash flip: append_Cons)
       (simp_all add: slashed_def ReplaceChar_def)
  moreover have "path_Clean (child_path root rel) = child_path root rel"
    unfolding child [symmetric] clean
    using clean_comps_stack [of "cs @ ds" r] clean_comps_append [OF up cs(1)] plain path_Clean_text by auto
  moreover have "CHR ''/'' \<in> set (child_path root rel)" by (simp add: child_path_def)
  ultimately have "tidy_path (child_path root rel)" by (auto simp: tidy_path_def)
  moreover have "root \<noteq> ''.''" "rel \<noteq> ''.''" using assms(1,2) by (simp_all add: tidy_path_def)
  ultimately show ?thesis
    using rel child tidy_path_fixed [OF assms(1)] tidy_path_fixed [of "child_path root rel"]
    by (simp add: joinRemotePath_def Let_def)
qed

text \<open>An invariant of the visitor is an invariant of the walk.\<close>

lemma walkDir_returns:
  assumes visit: "\<And>p d e st. V st \<Longrightarrow> io_returns (visit p d e st) (\<lambda>x. V (snd x))"
  shows "V st \<Longrightarrow> io_returns (walkDir n fs visit p d st) (\<lambda>x. V (snd x))"
proof (induction n arbitrary: p d st)
  case (Suc n)
  have entries: "io_returns (walk_entries (walkDir n fs visit) p ds st) (\<lambda>x. V (snd x))" if "V st" for ds st
    using that
  proof (induction ds arbitrary: st)
    case (Cons d ds)
    show ?case
      unfolding walk_entries.simps
      by (rule io_returns_bind_value [OF Suc.IH [OF Cons.prems]])
        (auto simp: Cons.IH io_returns_return split: prod.splits)
  qed (simp add: io_returns_return)
  have second: "io_returns (case err of None \<Rightarrow> io_return (False, st) | Some e \<Rightarrow> visit p (Some d) (Some e) st)
      (\<lambda>x. V (snd x))" if "V st" for err st
    using that visit by (simp add: io_returns_return split: option.split)
  show ?case
    unfolding walkDir.simps
  proof (rule io_returns_bind_value [OF visit [OF Suc.prems]])
    fix x :: "bool \<times> 'a" assume x: "V (snd x)"
    obtain skip st1 where st1: "x = (skip, st1)" "V st1" using x by (cases x) simp
    have "io_returns (io_bind (io_state (lf_ReadDir fs p)) (\<lambda>(dirs, err).
        io_bind (case err of None \<Rightarrow> io_return (False, st1) | Some e \<Rightarrow> visit p (Some d) (Some e) st1) (\<lambda>(skip, st).
          if skip then io_return (False, st) else walk_entries (walkDir n fs visit) p dirs st)))
        (\<lambda>x. V (snd x))"
      by (rule io_returns_bind)
        (auto intro!: io_returns_bind_value [OF second [OF st1(2)]] entries io_returns_return split: prod.split)
    then show "io_returns (case x of (skip, st) \<Rightarrow>
        if skip \<or> \<not> de_IsDir d then io_return (skip \<and> \<not> de_IsDir d, st)
        else io_bind (io_state (lf_ReadDir fs p)) (\<lambda>(dirs, err).
          io_bind (case err of None \<Rightarrow> io_return (False, st) | Some e \<Rightarrow> visit p (Some d) (Some e) st) (\<lambda>(skip, st).
            if skip then io_return (False, st) else walk_entries (walkDir n fs visit) p dirs st)))
        (\<lambda>x. V (snd x))"
      using st1 by (simp add: io_returns_return)
  qed
qed (simp add: io_returns_def io_diverge_def)

lemma WalkDir_returns:
  assumes "\<And>p d e st. V st \<Longrightarrow> io_returns (visit p d e st) (\<lambda>x. V (snd x))" "V st"
  shows "io_returns (WalkDir n fs visit root st) V"
proof -
  have "io_returns (case r of
        Inl err \<Rightarrow> visit root None (Some err) st
      | Inr info \<Rightarrow> walkDir n fs visit root
          \<lparr>de_Name = fi_Name info, de_IsDir = fi_IsDir info, de_Symlink = fi_Symlink info,
           de_Info = Some info\<rparr> st) (\<lambda>x. V (snd x))" for r
    using assms(1) [OF assms(2)] walkDir_returns [of V visit, OF assms] by (simp split: sum.split)
  then show ?thesis
    unfolding WalkDir_def
    by (intro io_returns_bind io_returns_bind_value [where V = "\<lambda>x. V (snd x)"])
      (auto simp: io_returns_return)
qed

definition upload_paths :: "string \<Rightarrow> RecursiveTransferPlan \<Rightarrow> bool" where
  "upload_paths root plan \<longleftrightarrow>
     (\<forall>e \<in> set (pl_Directories plan) \<union> set (pl_Files plan).
        uploadRemotePath root (pe_RelativePath e) = Inr (pe_RemotePath e))"

lemma upload_paths_simps [simp]:
  "upload_paths root (plan_skip w plan) = upload_paths root plan"
  "upload_paths root (plan_warn w plan) = upload_paths root plan"
  "upload_paths root (plan_file rel p r n plan) \<longleftrightarrow> upload_paths root plan \<and> uploadRemotePath root rel = Inr r"
  "upload_paths root (plan_directory rel p r plan) \<longleftrightarrow> upload_paths root plan \<and> uploadRemotePath root rel = Inr r"
  "upload_paths root empty_plan"
  by (auto simp: upload_paths_def plan_skip_def plan_warn_def plan_file_def plan_directory_def empty_plan_def)

lemma io_returns_throw: "io_returns (io_throw e) V"
  by (simp add: io_returns_def)

lemma upload_visit_paths:
  "upload_paths root plan \<Longrightarrow>
   io_returns (upload_visit fs cwd localRoot root p d err plan) (\<lambda>x. upload_paths root (snd x))"
  unfolding upload_visit_def
  by (auto simp: io_returns_return io_returns_throw split: option.split sum.split intro!: io_returns_bind)

text \<open>
  Where an upload puts a file. An entry whose path below the local directory is tidy goes to the
  same path below the new remote directory, which is named after the local one.
\<close>

theorem PlanRecursiveUpload_paths:
  assumes "PlanRecursiveUpload n fs cwd localRoot remoteDirectory s = Some (Inr plan, t)"
    and "e \<in> set (pl_Directories plan) \<union> set (pl_Files plan)"
    and "tidy_path (pe_RelativePath e)"
    and "tidy_path (joinRemotePath (cleanRemotePath remoteDirectory) (path_Base (upload_local_root cwd localRoot)))"
  shows "pe_RemotePath e = child_path
    (joinRemotePath (cleanRemotePath remoteDirectory) (path_Base (upload_local_root cwd localRoot)))
    (pe_RelativePath e)"
proof -
  let ?root = "joinRemotePath (cleanRemotePath remoteDirectory) (path_Base (upload_local_root cwd localRoot))"
  have "io_returns (WalkDir n fs (upload_visit fs cwd (upload_local_root cwd localRoot) ?root)
      (upload_local_root cwd localRoot) empty_plan) (upload_paths ?root)"
    by (intro WalkDir_returns upload_visit_paths) simp_all
  then have "io_returns (PlanRecursiveUpload n fs cwd localRoot remoteDirectory) (upload_paths ?root)"
    by (auto simp: PlanRecursiveUpload_def Let_def io_returns_throw intro!: io_returns_bind)
  then have "upload_paths ?root plan" using assms(1) unfolding io_returns_def by blast
  then show ?thesis
    using uploadRemotePath_child [OF assms(4,3)] assms(2) by (simp add: upload_paths_def)
qed

text \<open>
  A local name with a backslash is different: the check for a leading slash comes before the
  backslashes are turned into slashes, so a file of this name is uploaded to an absolute path.
\<close>

lemma uploadRemotePath_escapes:
  "uploadRemotePath ''/srv/up'' (CHR 0x5C # ''etc'' @ CHR 0x5C # ''x'') = Inr ''/etc/x''"
  by code_simp

section \<open>A download and an upload\<close>

definition plan_tree :: rnodes where
  "plan_tree = RCons ''f'' (RFile 7) (RCons ''l'' RLink (RCons ''d'' (RDir (RCons ''g'' (RFile 5) RNil)) RNil))"

definition plan_server :: "unit sftp_client" where
  "plan_server = table_server
     [(''/a'', nodes_listing plan_tree), (''/a/d'', nodes_listing (RCons ''g'' (RFile 5) RNil)),
      (''/h'', [Some (file_info ''..''), Some (file_info ''x/y''), Some (file_info '' z'')])]"

lemma plan_server_serves: "serves_node plan_server ''/a'' (RDir plan_tree)"
  by (simp add: plan_server_def table_server_def plan_tree_def child_path_def tidy_name_def
      safeRemoteChildName_def TrimSpace_id space_len_def space_len_end_def) (code_simp)

lemma plan_roots:
  "download_root (Inr ''/home/u'') ''/a'' '' down '' = Inr (''/a'', ''/home/u/down/a'')"
  "download_root (Inr ''/home/u'') ''/h'' '' down '' = Inr (''/h'', ''/home/u/down/h'')"
  by code_simp+

lemma abs_clean_down: "abs_clean ''/home/u/down/a''"
proof -
  have "rooted_path ''/home/u/down/a''" "path_Clean ''/home/u/down/a'' = ''/home/u/down/a''" by code_simp+
  then show ?thesis using abs_clean_Clean by metis
qed

lemma PlanRecursiveDownload_tree_witness:
  "\<exists>plan t. PlanRecursiveDownload 2 (Some plan_server) (Inr ''/home/u'') ''/a'' '' down '' () = Some (Inr plan, t) \<and>
     map (\<lambda>e. (pe_LocalPath e, pe_RemotePath e)) (pl_Files plan) =
       [(''/home/u/down/a/f'', ''/a/f''), (''/home/u/down/a/d/g'', ''/a/d/g'')] \<and>
     pl_TotalBytes plan = 12"
proof -
  have live: "\<forall>s. fst (ctx_Err plan_server s) = Inr ()" by (simp add: plan_server_def table_server_def)
  have depth: "node_depth (RDir plan_tree) \<le> 2" by (simp add: plan_tree_def)
  have tidy: "tidy_path ''/a''" by code_simp
  show ?thesis
    using PlanRecursiveDownload_tree [OF live plan_server_serves depth plan_roots(1) tidy abs_clean_down, of "()"]
    by (auto simp: plan_tree_def entry_at_def child_path_def)
qed

lemma hostile_plan:
  "(case PlanRecursiveDownload 2 (Some plan_server) (Inr ''/home/u'') ''/h'' '' down '' () of
      Some (Inr plan, t) \<Rightarrow> length (pl_Files plan) = 1 \<and> pl_SkippedCount plan = 2 | _ \<Rightarrow> False)"
  by code_simp

lemma PlanRecursiveDownload_confined_witness:
  "\<exists>plan t dir name. PlanRecursiveDownload 2 (Some plan_server) (Inr ''/home/u'') ''/h'' '' down '' () = Some (Inr plan, t) \<and>
     filepath_Abs (Inr ''/home/u'') (path_Clean (TrimSpace '' down '')) = Inr dir \<and> name \<noteq> ''..'' \<and>
     list_all (\<lambda>e. pe_LocalPath e = child_path dir name \<or>
       HasPrefix (pe_LocalPath e) (child_path dir name @ ''/'')) (pl_Files plan) \<and> pl_Files plan \<noteq> []"
proof -
  obtain plan t where run:
    "PlanRecursiveDownload 2 (Some plan_server) (Inr ''/home/u'') ''/h'' '' down '' () = Some (Inr plan, t)"
    "length (pl_Files plan) = 1"
    using hostile_plan by (auto split: option.splits sum.splits)
  have "cwd_ok (Inr ''/home/u'')" by code_simp
  moreover have "pl_Files plan \<noteq> []" using run(2) by auto
  ultimately show ?thesis
    using PlanRecursiveDownload_confined [OF _ run(1)] run(1) by (auto simp: list_all_iff)
qed

text \<open>A local directory with one file.\<close>

definition plan_local :: "unit local_fs" where
  "plan_local =
     \<lparr>lf_Lstat = (\<lambda>p s. (Inr (if p = ''/home/u/d'' then dir_info ''d'' else file_info ''n''), s)),
      lf_ReadDir = (\<lambda>p s. (([\<lparr>de_Name = ''n'', de_IsDir = False, de_Symlink = False, de_Info = None\<rparr>], None), s)),
      lf_ctx_Err = (\<lambda>s. (Inr (), s))\<rparr>"

lemma upload_run:
  "(case PlanRecursiveUpload 2 plan_local (Inr ''/'') ''/home/u/d'' ''/srv'' () of
      Some (Inr plan, t) \<Rightarrow> map pe_RelativePath (pl_Files plan) = [''n''] | _ \<Rightarrow> False)"
  by code_simp

lemma PlanRecursiveUpload_paths_witness:
  "\<exists>plan t e. PlanRecursiveUpload 2 plan_local (Inr ''/'') ''/home/u/d'' ''/srv'' () = Some (Inr plan, t) \<and>
     e \<in> set (pl_Files plan) \<and> pe_RemotePath e = ''/srv/d/n''"
proof -
  obtain plan t e where run:
    "PlanRecursiveUpload 2 plan_local (Inr ''/'') ''/home/u/d'' ''/srv'' () = Some (Inr plan, t)"
    "pl_Files plan = [e]" "pe_RelativePath e = ''n''"
    using upload_run by (auto split: option.splits sum.splits)
  have root: "joinRemotePath (cleanRemotePath ''/srv'') (path_Base (upload_local_root (Inr ''/'') ''/home/u/d'')) = ''/srv/d''"
    by code_simp
  have "tidy_path ''n''" "tidy_path ''/srv/d''" by code_simp+
  then have "pe_RemotePath e = child_path ''/srv/d'' ''n''"
    using PlanRecursiveUpload_paths [OF run(1), of e] run(2,3) by (simp add: root)
  then show ?thesis using run(1,2) by (auto simp: child_path_def)
qed

end
