(* ===== verification/SftpCopy.thy ===== *)
theory SftpCopy
  imports SftpPlan SftpTransfer "HOL-Library.Code_Target_Numeral"
begin

text \<open>
  Package \<open>internal/sftpmanager\<close>, the work of a transfer: the loop that copies bytes, the files of a
  plan one after the other, and the conflicts with what is already there (\<open>manager_transfer.go\<close>,
  \<open>recursive_transfer.go\<close>, \<open>manager_conflict.go\<close>). Files, the server and the clock are calls on an
  unknown state; a file handle is a number. The loops carry fuel.
\<close>

section \<open>The copy loop\<close>

text \<open>
  What the loop uses: the context, a reader, a writer, the clock in nanoseconds, the report of the
  progress, and the check for a pause, which may be missing.
\<close>

record 's copy_io =
  ci_ctx :: "('s, goerr, unit) call"
  ci_Read :: "nat \<Rightarrow> 's \<Rightarrow> (string \<times> goerr option) \<times> 's"
  ci_Write :: "string \<Rightarrow> ('s, goerr, unit) call"
  ci_now :: "'s \<Rightarrow> int"
  ci_update :: "int \<Rightarrow> ('s, goerr, unit) io"
  ci_pause :: "(int \<Rightarrow> ('s, goerr, unit) io) option"

definition transferBufferSize :: nat where
  "transferBufferSize = 256 * 1024"

definition is_EOF :: "goerr option \<Rightarrow> bool" where
  "is_EOF err = (case err of None \<Rightarrow> False | Some e \<Rightarrow> errors_Is KEOF e)"

definition pause_check :: "'s copy_io \<Rightarrow> int \<Rightarrow> ('s, goerr, unit) io" where
  "pause_check c written = (case ci_pause c of None \<Rightarrow> io_return () | Some pause \<Rightarrow> pause written)"

text \<open>The report of the progress: at most five times a second, and when everything is written.\<close>

definition emit_progress :: "'s copy_io \<Rightarrow> int \<Rightarrow> int \<Rightarrow> int \<Rightarrow> ('s, goerr, int) io" where
  "emit_progress c bytes written lastEmit =
     (\<lambda>s. if ci_now c s - lastEmit \<ge> 200000000 \<or> written = bytes
          then io_bind (ci_update c written) (\<lambda>_. \<lambda>s. io_return (ci_now c s) s) s
          else io_return lastEmit s)"

text \<open>
  \<open>copyWithProgress\<close>: an error of any call ends the copy. What follows a read has the next round
  of the loop as an argument.
\<close>

definition plain_chunk ::
  "'s copy_io \<Rightarrow> int \<Rightarrow> (int \<Rightarrow> int \<Rightarrow> ('s, goerr, unit) io) \<Rightarrow> int \<Rightarrow> int \<Rightarrow>
   string \<times> goerr option \<Rightarrow> ('s, goerr, unit) io" where
  "plain_chunk c bytes again written lastEmit = (\<lambda>(data, readErr).
     let go_on = (\<lambda>written lastEmit.
         if is_EOF readErr then ci_update c written
         else case readErr of Some e \<Rightarrow> io_throw e | None \<Rightarrow> again written lastEmit)
     in if data = [] then go_on written lastEmit
        else io_bind (io_call (ci_ctx c)) (\<lambda>_.
             io_bind (io_call (ci_Write c data)) (\<lambda>_.
             let written = written + int (length data)
             in io_bind (pause_check c written) (\<lambda>_.
                io_bind (emit_progress c bytes written lastEmit) (go_on written)))))"

fun copy_plain :: "nat \<Rightarrow> 's copy_io \<Rightarrow> int \<Rightarrow> int \<Rightarrow> int \<Rightarrow> ('s, goerr, unit) io" where
  "copy_plain 0 c bytes written lastEmit = io_diverge"
| "copy_plain (Suc n) c bytes written lastEmit =
     io_bind (io_call (ci_ctx c)) (\<lambda>_.
     io_bind (io_state (ci_Read c transferBufferSize))
       (plain_chunk c bytes (copy_plain n c bytes) written lastEmit))"

definition copyWithProgress :: "nat \<Rightarrow> 's copy_io \<Rightarrow> int \<Rightarrow> ('s, goerr, unit) io" where
  "copyWithProgress n c bytes = (\<lambda>s. copy_plain n c bytes 0 (ci_now c s) s)"

text \<open>\<open>copyWithProgressCountPause\<close>: the number of bytes written comes with the error.\<close>

definition or_stop ::
  "int \<Rightarrow> ('s, goerr, unit) io \<Rightarrow> ('s, goerr, int \<times> goerr option) io \<Rightarrow> ('s, goerr, int \<times> goerr option) io" where
  "or_stop written m rest =
     io_bind (io_try m) (\<lambda>r. case r of Inl e \<Rightarrow> io_return (written, Some e) | Inr _ \<Rightarrow> rest)"

definition count_chunk ::
  "'s copy_io \<Rightarrow> int \<Rightarrow> (int \<Rightarrow> int \<Rightarrow> ('s, goerr, int \<times> goerr option) io) \<Rightarrow> int \<Rightarrow> int \<Rightarrow>
   string \<times> goerr option \<Rightarrow> ('s, goerr, int \<times> goerr option) io" where
  "count_chunk c bytes again written lastEmit = (\<lambda>(data, readErr).
     let go_on = (\<lambda>written lastEmit.
         if is_EOF readErr then io_bind (ci_update c written) (\<lambda>_. io_return (written, None))
         else case readErr of Some e \<Rightarrow> io_return (written, Some e) | None \<Rightarrow> again written lastEmit)
     in if data = [] then go_on written lastEmit
        else or_stop written (io_call (ci_ctx c))
            (or_stop written (io_call (ci_Write c data))
              (let written = written + int (length data)
               in or_stop written (pause_check c written)
                    (io_bind (emit_progress c bytes written lastEmit) (go_on written)))))"

fun copy_count :: "nat \<Rightarrow> 's copy_io \<Rightarrow> int \<Rightarrow> int \<Rightarrow> int \<Rightarrow> ('s, goerr, int \<times> goerr option) io" where
  "copy_count 0 c bytes written lastEmit = io_diverge"
| "copy_count (Suc n) c bytes written lastEmit =
     or_stop written (io_call (ci_ctx c))
       (io_bind (io_state (ci_Read c transferBufferSize))
         (count_chunk c bytes (copy_count n c bytes) written lastEmit))"

definition copyWithProgressCountPause ::
  "nat \<Rightarrow> 's copy_io \<Rightarrow> int \<Rightarrow> ('s, goerr, int \<times> goerr option) io" where
  "copyWithProgressCountPause n c bytes = (\<lambda>s. copy_count n c bytes 0 (ci_now c s) s)"

definition copyWithProgressCount ::
  "nat \<Rightarrow> 's copy_io \<Rightarrow> int \<Rightarrow> ('s, goerr, int \<times> goerr option) io" where
  "copyWithProgressCount n c bytes = copyWithProgressCountPause n (c\<lparr>ci_pause := None\<rparr>) bytes"

section \<open>The world of a transfer\<close>

record StatInfo = FileInfo +
  fi_ModTime :: int

text \<open>
  The transfer the goroutine works on, the local files, the server, and handles of open files.
  \<open>wk_block\<close> waits on a channel until it is closed or the context is canceled; in the meantime the
  window may have changed the transfer. \<open>wk_fail\<close> is what \<open>operationErrorForSession\<close> does to the
  manager.
\<close>

record 's work =
  wk_ctx :: "('s, goerr, unit) call"
  wk_now :: "'s \<Rightarrow> int"
  wk_item :: "'s \<Rightarrow> transfer"
  wk_set_item :: "transfer \<Rightarrow> 's \<Rightarrow> 's"
  wk_fresh :: "'s \<Rightarrow> nat"
  wk_block :: "nat \<Rightarrow> ('s, goerr, unit) call"
  wk_cwd :: "goerr + string"
  wk_local :: "'s local_fs"
  wk_remote :: "'s sftp_client"
  wk_Read :: "nat \<Rightarrow> nat \<Rightarrow> 's \<Rightarrow> (string \<times> goerr option) \<times> 's"
  wk_Write :: "nat \<Rightarrow> string \<Rightarrow> ('s, goerr, unit) call"
  wk_Seek :: "nat \<Rightarrow> int \<Rightarrow> ('s, goerr, unit) call"
  wk_Close :: "nat \<Rightarrow> ('s, goerr, unit) call"
  wk_FStat :: "nat \<Rightarrow> ('s, goerr, StatInfo) call"
  lo_Open :: "string \<Rightarrow> ('s, goerr, nat) call"
  lo_Create :: "string \<Rightarrow> ('s, goerr, nat) call"
  lo_Stat :: "string \<Rightarrow> ('s, goerr, StatInfo) call"
  lo_MkdirAll :: "string \<Rightarrow> ('s, goerr, unit) call"
  re_Stat :: "string \<Rightarrow> ('s, goerr, StatInfo) call"
  re_Open :: "string \<Rightarrow> ('s, goerr, nat) call"
  re_Create :: "string \<Rightarrow> ('s, goerr, nat) call"
  re_Mkdir :: "string \<Rightarrow> ('s, goerr, unit) call"
  wk_fail :: "string \<Rightarrow> goerr \<Rightarrow> 's \<Rightarrow> 's"

definition lo_Lstat :: "'s work \<Rightarrow> string \<Rightarrow> ('s, goerr, FileInfo) call" where
  "lo_Lstat w = lf_Lstat (wk_local w)"

text \<open>\<open>updateTransfer\<close> with one of the changes of the work.\<close>

definition report :: "'s work \<Rightarrow> progress \<Rightarrow> ('s, goerr, unit) io" where
  "report w p = io_update (\<lambda>s. wk_set_item w (updateTransfer (progress_state p) (wk_item w s)) s)"

definition waitIfPaused ::
  "'s work \<Rightarrow> int \<Rightarrow> ('s, goerr, unit) io \<Rightarrow> ('s, goerr, unit) io" where
  "waitIfPaused w offset beforeResume =
     (\<lambda>s. case wait_enter (wk_fresh w s) offset (wk_item w s) of
        (item, None) \<Rightarrow> io_call (wk_ctx w) s
      | (item, Some ch) \<Rightarrow>
          io_bind (io_update (wk_set_item w item)) (\<lambda>_.
          io_bind (io_call (wk_block w ch)) (\<lambda>_.
          io_bind beforeResume (\<lambda>_.
          io_bind (io_update (\<lambda>s. wk_set_item w (wait_leave (wk_item w s)) s)) (\<lambda>_.
            io_call (wk_ctx w))))) s)"

section \<open>Before a resume\<close>

definition seekBoth :: "'s work \<Rightarrow> nat \<Rightarrow> nat \<Rightarrow> int \<Rightarrow> ('s, goerr, unit) io" where
  "seekBoth w src dst offset =
     io_bind (io_error (errorf_wrap ''seek source: '') (io_call (wk_Seek w src offset))) (\<lambda>_.
       io_error (errorf_wrap ''seek target: '') (io_call (wk_Seek w dst offset)))"

definition ErrChanged :: goerr where
  "ErrChanged = errors_New (zh [25991, 20214, 24050, 21464, 21270, 65292, 26080, 27861, 32487, 32493, 20256, 36755])"

definition validate_source ::
  "('s, goerr, StatInfo) call \<Rightarrow> StatInfo \<Rightarrow> ('s, goerr, unit) io" where
  "validate_source stat expected =
     io_bind (io_error (\<lambda>_. ErrChanged) (io_call stat)) (\<lambda>current.
       if fi_Size current \<noteq> fi_Size expected \<or> fi_ModTime current \<noteq> fi_ModTime expected
       then io_throw ErrChanged else io_return ())"

definition validateLocalResumeSource :: "'s work \<Rightarrow> string \<Rightarrow> StatInfo \<Rightarrow> ('s, goerr, unit) io" where
  "validateLocalResumeSource w path = validate_source (lo_Stat w path)"

definition validateRemoteResumeSource :: "'s work \<Rightarrow> string \<Rightarrow> StatInfo \<Rightarrow> ('s, goerr, unit) io" where
  "validateRemoteResumeSource w path = validate_source (re_Stat w path)"

definition validateLocalResumeTarget :: "'s work \<Rightarrow> string \<Rightarrow> int \<Rightarrow> ('s, goerr, unit) io" where
  "validateLocalResumeTarget w path offset =
     io_bind (io_error (\<lambda>_. ErrChanged) (io_call (lo_Stat w path))) (\<lambda>current.
       if sint (fi_Size current) < offset then io_throw ErrChanged else io_return ())"

section \<open>One file\<close>

text \<open>A deferred \<open>Close\<close>, whose error nobody sees.\<close>

definition deferred_close :: "'s work \<Rightarrow> nat \<Rightarrow> ('s, goerr, 'a) io \<Rightarrow> ('s, goerr, 'a) io" where
  "deferred_close w h m =
     io_bind (io_try m) (\<lambda>r.
     io_bind (io_try (io_call (wk_Close w h))) (\<lambda>_.
       case r of Inl e \<Rightarrow> io_throw e | Inr x \<Rightarrow> io_return x))"

definition file_copy ::
  "'s work \<Rightarrow> nat \<Rightarrow> nat \<Rightarrow> (int \<Rightarrow> ('s, goerr, unit) io) \<Rightarrow> (int \<Rightarrow> ('s, goerr, unit) io) \<Rightarrow> 's copy_io" where
  "file_copy w source target update pause =
     \<lparr>ci_ctx = wk_ctx w, ci_Read = wk_Read w source, ci_Write = wk_Write w target, ci_now = wk_now w,
      ci_update = update, ci_pause = Some pause\<rparr>"

definition runUpload :: "nat \<Rightarrow> 's work \<Rightarrow> ('s, goerr, unit) io" where
  "runUpload n w = (\<lambda>s0. let st = tf_state (wk_item w s0) in
     io_bind (io_error (errorf_wrap ''open local file: '') (io_call (lo_Open w (ts_LocalPath st)))) (\<lambda>source.
     deferred_close w source (
       io_bind (io_error (errorf_wrap ''stat local file: '') (io_call (wk_FStat w source))) (\<lambda>sourceInfo.
       io_bind (io_error (errorf_wrap ''create remote file: '') (io_call (re_Create w (ts_RemotePath st)))) (\<lambda>target.
       deferred_close w target (
         io_bind (report w (FileTotal (sint (fi_Size sourceInfo)))) (\<lambda>_.
           copyWithProgress n
             (file_copy w source target (\<lambda>done. report w (ProgressBytes done))
               (\<lambda>done. waitIfPaused w done
                 (io_bind (validateLocalResumeSource w (ts_LocalPath st) sourceInfo) (\<lambda>_.
                   seekBoth w source target done))))
             (ts_TotalBytes st))))))) s0)"

definition runDownload :: "nat \<Rightarrow> 's work \<Rightarrow> ('s, goerr, unit) io" where
  "runDownload n w = (\<lambda>s0. let st = tf_state (wk_item w s0) in
     io_bind (io_error (errorf_wrap ''stat remote file: '') (io_call (re_Stat w (ts_RemotePath st)))) (\<lambda>remoteInfo.
     io_bind (io_error (errorf_wrap ''open remote file: '') (io_call (re_Open w (ts_RemotePath st)))) (\<lambda>source.
     deferred_close w source (
       io_bind (io_error (errorf_wrap ''create local directory: '')
         (io_call (lo_MkdirAll w (path_Dir (ts_LocalPath st))))) (\<lambda>_.
       io_bind (io_error (errorf_wrap ''create local file: '') (io_call (lo_Create w (ts_LocalPath st)))) (\<lambda>target.
       deferred_close w target (
         io_bind (report w (FileTotal (sint (fi_Size remoteInfo)))) (\<lambda>_.
           copyWithProgress n
             (file_copy w source target (\<lambda>done. report w (ProgressBytes done))
               (\<lambda>done. waitIfPaused w done
                 (io_bind (validateRemoteResumeSource w (ts_RemotePath st) remoteInfo) (\<lambda>_.
                  io_bind (validateLocalResumeTarget w (ts_LocalPath st) done) (\<lambda>_.
                    seekBoth w source target done)))))
             (ts_TotalBytes st)))))))) s0)"

text \<open>The end of a planned file: the error of the copy, or of closing the target.\<close>

definition close_target ::
  "'s work \<Rightarrow> nat \<Rightarrow> int \<times> goerr option \<Rightarrow> ('s, goerr, int \<times> goerr option) io" where
  "close_target w target = (\<lambda>(written, copyErr).
     io_bind (io_try (io_call (wk_Close w target))) (\<lambda>closeErr.
       io_return (written, case copyErr of
           Some e \<Rightarrow> Some e
         | None \<Rightarrow> (case closeErr of Inl e \<Rightarrow> Some e | Inr _ \<Rightarrow> None))))"

text \<open>An error before the copy started: nothing was written.\<close>

definition or_failed ::
  "('s, goerr, int \<times> goerr option) io \<Rightarrow> ('s, goerr, int \<times> goerr option) io" where
  "or_failed m =
     io_bind (io_try m) (\<lambda>r. io_return (case r of Inl e \<Rightarrow> (0, Some e) | Inr x \<Rightarrow> x))"

definition uploadPlannedFile ::
  "nat \<Rightarrow> 's work \<Rightarrow> string \<Rightarrow> string \<Rightarrow> int \<Rightarrow> (int \<Rightarrow> ('s, goerr, unit) io) \<Rightarrow>
   (int \<Rightarrow> nat \<Rightarrow> nat \<Rightarrow> StatInfo \<Rightarrow> ('s, goerr, unit) io) \<Rightarrow> ('s, goerr, int \<times> goerr option) io" where
  "uploadPlannedFile n w localPath remotePath bytes update pause = or_failed (
     io_bind (io_error (errorf_wrap ''open local file: '') (io_call (lo_Open w localPath))) (\<lambda>source.
     deferred_close w source (
       io_bind (io_error (errorf_wrap ''stat local file: '') (io_call (wk_FStat w source))) (\<lambda>sourceInfo.
       io_bind (io_error (errorf_wrap ''create remote file: '') (io_call (re_Create w remotePath))) (\<lambda>target.
       io_bind (copyWithProgressCountPause n
           (file_copy w source target update (\<lambda>done. pause done source target sourceInfo)) bytes)
         (close_target w target))))))"

definition downloadPlannedFile ::
  "nat \<Rightarrow> 's work \<Rightarrow> string \<Rightarrow> string \<Rightarrow> int \<Rightarrow> (int \<Rightarrow> ('s, goerr, unit) io) \<Rightarrow>
   (int \<Rightarrow> nat \<Rightarrow> nat \<Rightarrow> StatInfo \<Rightarrow> ('s, goerr, unit) io) \<Rightarrow> ('s, goerr, int \<times> goerr option) io" where
  "downloadPlannedFile n w remotePath localPath bytes update pause = or_failed (
     io_bind (io_error (errorf_wrap ''stat remote file: '') (io_call (re_Stat w remotePath))) (\<lambda>remoteInfo.
     io_bind (io_error (errorf_wrap ''open remote file: '') (io_call (re_Open w remotePath))) (\<lambda>source.
     deferred_close w source (
       io_bind (io_error (errorf_wrap ''create local directory: '')
         (io_call (lo_MkdirAll w (path_Dir localPath)))) (\<lambda>_.
       io_bind (io_error (errorf_wrap ''create local file: '') (io_call (lo_Create w localPath))) (\<lambda>target.
       io_bind (copyWithProgressCountPause n
           (file_copy w source target update (\<lambda>done. pause done source target remoteInfo)) bytes)
         (close_target w target)))))))"

section \<open>What is already there\<close>

fun remote_candidates :: "'s work \<Rightarrow> string \<Rightarrow> nat list \<Rightarrow> ('s, goerr, string \<times> bool) io" where
  "remote_candidates w remotePath [] = io_throw (errors_New (zh [26080, 27861, 29983, 25104, 21487, 29992, 30340, 36828, 31243, 37325, 21629, 21517, 25991, 20214, 21517]))"
| "remote_candidates w remotePath (index # rest) =
     io_bind (io_try (io_call (re_Stat w (remoteRenameCandidate remotePath index)))) (\<lambda>r. case r of
         Inl _ \<Rightarrow> io_return (remoteRenameCandidate remotePath index, False)
       | Inr _ \<Rightarrow> remote_candidates w remotePath rest)"

text \<open>The path to write to, and whether to skip the file.\<close>

definition resolveRemoteConflict ::
  "'s work \<Rightarrow> string \<Rightarrow> SFTPConflictPolicy \<Rightarrow> ('s, goerr, string \<times> bool) io" where
  "resolveRemoteConflict w remotePath policy =
     io_bind (io_try (io_call (re_Stat w remotePath))) (\<lambda>r. case r of
         Inl _ \<Rightarrow> io_return (remotePath, False)
       | Inr _ \<Rightarrow>
           (case policy of
              SFTPConflictOverwrite \<Rightarrow> io_return (remotePath, False)
            | SFTPConflictSkip \<Rightarrow> io_return (remotePath, True)
            | SFTPConflictRename \<Rightarrow> remote_candidates w remotePath [1..<1000]
            | _ \<Rightarrow> io_throw (errors_New (zh [36828, 31243, 25991, 20214, 24050, 23384, 22312]))))"

definition localRenameCandidate :: "string \<Rightarrow> nat \<Rightarrow> string" where
  "localRenameCandidate original index =
     (let base = path_Base original; ext = path_Ext base; stem = TrimSuffix base ext;
          (stem, ext) = (if stem = [] then (base, []) else (stem, ext))
      in path_Join (path_Dir original) (stem @ '' ('' @ nat_digits index @ '')'' @ ext))"

text \<open>\<open>os.IsNotExist\<close>, of the errors that \<open>os\<close> gives.\<close>

definition os_IsNotExist :: "goerr \<Rightarrow> bool" where
  "os_IsNotExist err = errors_Is KNotExist err"

fun local_candidates :: "(string \<Rightarrow> ('s, goerr, 'i) call) \<Rightarrow> string \<Rightarrow> nat list \<Rightarrow> ('s, goerr, string \<times> bool) io" where
  "local_candidates stat localPath [] = io_throw (errors_New (zh [26080, 27861, 29983, 25104, 21487, 29992, 30340, 26412, 22320, 37325, 21629, 21517, 25991, 20214, 21517]))"
| "local_candidates stat localPath (index # rest) =
     io_bind (io_try (io_call (stat (localRenameCandidate localPath index)))) (\<lambda>r.
       if (case r of Inl e \<Rightarrow> os_IsNotExist e | Inr _ \<Rightarrow> False)
       then io_return (localRenameCandidate localPath index, False)
       else local_candidates stat localPath rest)"

definition local_policy ::
  "(string \<Rightarrow> ('s, goerr, 'i) call) \<Rightarrow> string \<Rightarrow> SFTPConflictPolicy \<Rightarrow> ('s, goerr, string \<times> bool) io" where
  "local_policy stat localPath policy =
     (case policy of
        SFTPConflictOverwrite \<Rightarrow> io_return (localPath, False)
      | SFTPConflictSkip \<Rightarrow> io_return (localPath, True)
      | SFTPConflictRename \<Rightarrow> local_candidates stat localPath [1..<1000]
      | _ \<Rightarrow> io_throw (errors_New (zh [26412, 22320, 25991, 20214, 24050, 23384, 22312])))"

definition resolveLocalConflict ::
  "'s work \<Rightarrow> string \<Rightarrow> SFTPConflictPolicy \<Rightarrow> ('s, goerr, string \<times> bool) io" where
  "resolveLocalConflict w localPath policy =
     io_bind (io_try (io_call (lo_Stat w localPath))) (\<lambda>r. case r of
         Inl err \<Rightarrow> if os_IsNotExist err then io_return (localPath, False)
                    else io_throw (errorf_wrap (zh [26816, 26597, 26412, 22320, 25991, 20214, 22833, 36133, 58, 32]) err)
       | Inr _ \<Rightarrow> local_policy (lo_Stat w) localPath policy)"

definition resolveLocalConflictNoSymlink ::
  "'s work \<Rightarrow> string \<Rightarrow> SFTPConflictPolicy \<Rightarrow> ('s, goerr, string \<times> bool) io" where
  "resolveLocalConflictNoSymlink w localPath policy =
     io_bind (io_try (io_call (lo_Lstat w localPath))) (\<lambda>r. case r of
         Inl err \<Rightarrow> if os_IsNotExist err then io_return (localPath, False)
                    else io_throw (errorf_wrap (zh [26816, 26597, 26412, 22320, 25991, 20214, 22833, 36133, 58, 32]) err)
       | Inr info \<Rightarrow> if fi_Symlink info then io_return ([], True)
                     else local_policy (lo_Lstat w) localPath policy)"

definition ensureRemoteDirectory :: "'s work \<Rightarrow> string \<Rightarrow> ('s, goerr, unit) io" where
  "ensureRemoteDirectory w remotePath =
     io_bind (io_try (io_call (re_Stat w remotePath))) (\<lambda>r. case r of
         Inr info \<Rightarrow> if fi_IsDir info then io_return ()
                     else io_throw (errors_New (zh [36828, 31243, 30446, 26631, 36335, 24452, 24050, 23384, 22312, 19988, 19981, 26159, 30446, 24405]))
       | Inl _ \<Rightarrow>
           io_bind (io_try (io_call (re_Mkdir w remotePath))) (\<lambda>made. case made of
             Inr _ \<Rightarrow> io_return ()
           | Inl err \<Rightarrow> io_bind (io_try (io_call (re_Stat w remotePath))) (\<lambda>again. case again of
               Inr info \<Rightarrow> if fi_IsDir info then io_return () else io_throw err
             | Inl _ \<Rightarrow> io_throw err)))"

definition splitLocalRelative :: "string \<Rightarrow> string list" where
  "splitLocalRelative val = filter (\<lambda>part. part \<noteq> [] \<and> part \<noteq> ''.'') (Split val (CHR ''/''))"

fun no_symlink_below :: "'s work \<Rightarrow> string \<Rightarrow> string list \<Rightarrow> ('s, goerr, unit) io" where
  "no_symlink_below w current [] = io_return ()"
| "no_symlink_below w current (part # parts) =
     (let current = path_Join current part
      in io_bind (io_try (io_call (lo_Lstat w current))) (\<lambda>r. case r of
           Inl err \<Rightarrow> if os_IsNotExist err then no_symlink_below w current parts else io_throw err
         | Inr info \<Rightarrow>
             if fi_Symlink info then io_throw (errors_New (zh [26412, 22320, 30446, 26631, 36335, 24452, 21253, 21547, 31526, 21495, 38142, 25509]))
             else no_symlink_below w current parts))"

definition ensureNoSymlinkInPath :: "'s work \<Rightarrow> string \<Rightarrow> string \<Rightarrow> ('s, goerr, unit) io" where
  "ensureNoSymlinkInPath w root target =
     (case filepath_Abs (wk_cwd w) (path_Clean root) of
        Inl err \<Rightarrow> io_throw (errorf_wrap (zh [26412, 22320, 26681, 30446, 24405, 26080, 25928, 58, 32]) err)
      | Inr rootAbs \<Rightarrow>
     (case filepath_Abs (wk_cwd w) (path_Clean target) of
        Inl err \<Rightarrow> io_throw (errorf_wrap (zh [26412, 22320, 30446, 26631, 36335, 24452, 26080, 25928, 58, 32]) err)
      | Inr targetAbs \<Rightarrow>
     (case filepath_Rel rootAbs targetAbs of
        Inl err \<Rightarrow> io_throw (errorf_wrap (zh [26412, 22320, 36335, 24452, 20851, 31995, 26080, 25928, 58, 32]) err)
      | Inr rel \<Rightarrow>
          if rel = ''..'' \<or> rooted_path rel \<or> HasPrefix rel ''../''
          then io_throw (errors_New (zh [26412, 22320, 30446, 26631, 36335, 24452, 36234, 30028]))
          else io_bind (io_try (io_call (lo_Lstat w rootAbs))) (\<lambda>r.
            if (case r of Inl _ \<Rightarrow> False | Inr info \<Rightarrow> fi_Symlink info)
            then io_throw (errors_New (zh [26412, 22320, 30446, 26631, 36335, 24452, 21253, 21547, 31526, 21495, 38142, 25509]))
            else if rel = ''.'' then io_return ()
            else no_symlink_below w rootAbs (splitLocalRelative rel)))))"

section \<open>The files of a plan\<close>

definition plan_local_fs :: "'s work \<Rightarrow> 's local_fs" where
  "plan_local_fs w = (wk_local w)\<lparr>lf_ctx_Err := wk_ctx w\<rparr>"

definition plan_client :: "'s work \<Rightarrow> 's sftp_client" where
  "plan_client w = (wk_remote w)\<lparr>ctx_Err := wk_ctx w\<rparr>"

definition applyRecursivePlan :: "'s work \<Rightarrow> RecursiveTransferPlan \<Rightarrow> ('s, goerr, unit) io" where
  "applyRecursivePlan w plan =
     report w (PlanApplied
       (case pl_Directories plan of [] \<Rightarrow> None | d # _ \<Rightarrow> Some (pe_RemotePath d, pe_LocalPath d))
       (sint (pl_TotalBytes plan)) (length (pl_Files plan)) (pl_SkippedCount plan))"

text \<open>A step that may fail without ending the transfer.\<close>

definition or_count_failure ::
  "'s work \<Rightarrow> string \<Rightarrow> bool \<Rightarrow> ('s, goerr, unit) io \<Rightarrow> ('s, goerr, unit) io" where
  "or_count_failure w name counts m =
     io_bind (io_try m) (\<lambda>r. case r of Inl err \<Rightarrow> report w (FileFailed name err counts) | Inr _ \<Rightarrow> io_return ())"

fun make_remote_directories :: "'s work \<Rightarrow> RecursivePlanEntry list \<Rightarrow> ('s, goerr, unit) io" where
  "make_remote_directories w [] = io_return ()"
| "make_remote_directories w (d # ds) =
     io_bind (io_call (wk_ctx w)) (\<lambda>_.
     io_bind (or_count_failure w (pe_RelativePath d) False (ensureRemoteDirectory w (pe_RemotePath d))) (\<lambda>_.
       make_remote_directories w ds))"

fun make_local_directories :: "'s work \<Rightarrow> string \<Rightarrow> RecursivePlanEntry list \<Rightarrow> ('s, goerr, unit) io" where
  "make_local_directories w root [] = io_return ()"
| "make_local_directories w root (d # ds) =
     io_bind (io_call (wk_ctx w)) (\<lambda>_.
     io_bind (or_count_failure w (pe_RelativePath d) False
       (io_bind (ensureNoSymlinkInPath w root (pe_LocalPath d)) (\<lambda>_.
          io_call (lo_MkdirAll w (pe_LocalPath d))))) (\<lambda>_.
       make_local_directories w root ds))"

definition ctx_done :: "'s work \<Rightarrow> ('s, goerr, bool) io" where
  "ctx_done w = io_bind (io_try (io_call (wk_ctx w))) (\<lambda>r. io_return (case r of Inl _ \<Rightarrow> True | Inr _ \<Rightarrow> False))"

text \<open>After the copy of a file: the bytes done so far, of this file too.\<close>

definition after_copy ::
  "'s work \<Rightarrow> string \<Rightarrow> int \<Rightarrow> int \<times> goerr option \<Rightarrow> ('s, goerr, int) io" where
  "after_copy w name bytesDone = (\<lambda>(written, copyErr).
     case copyErr of
       Some err \<Rightarrow>
         io_bind (if errors_Is KCanceled err then io_return True else ctx_done w) (\<lambda>canceled.
           if canceled then io_throw ErrCanceled
           else io_bind (report w (FileFailed name err True)) (\<lambda>_. io_return (bytesDone + written)))
     | None \<Rightarrow>
         io_bind (report w (FileFinished name (bytesDone + written))) (\<lambda>_. io_return (bytesDone + written)))"

definition file_progress :: "'s work \<Rightarrow> int \<Rightarrow> int \<Rightarrow> ('s, goerr, unit) io" where
  "file_progress w bytesDone done =
     io_bind (report w (RecursiveBytes (bytesDone + done))) (\<lambda>_. report w (FileBytes done))"

text \<open>One file of a plan; the result is the bytes done.\<close>

definition upload_file ::
  "nat \<Rightarrow> 's work \<Rightarrow> SFTPConflictPolicy \<Rightarrow> int \<Rightarrow> RecursivePlanEntry \<Rightarrow> ('s, goerr, int) io" where
  "upload_file n w policy bytesDone file =
     io_bind (io_call (wk_ctx w)) (\<lambda>_.
     io_bind (waitIfPaused w (-1) (io_return ())) (\<lambda>_.
     io_bind (report w (CurrentFile (pe_RelativePath file))) (\<lambda>_.
     io_bind (io_try (resolveRemoteConflict w (pe_RemotePath file) policy)) (\<lambda>r. case r of
         Inl err \<Rightarrow> io_bind (report w (FileFailed (pe_RelativePath file) err True)) (\<lambda>_. io_return bytesDone)
       | Inr (remotePath, skipped) \<Rightarrow>
           if skipped
           then io_bind (report w (FileSkipped (pe_RelativePath file) True)) (\<lambda>_. io_return bytesDone)
           else io_bind (report w (NewFile (sint (pe_Size file)))) (\<lambda>_.
             io_bind (uploadPlannedFile n w (pe_LocalPath file) remotePath (sint (pe_Size file))
               (file_progress w bytesDone)
               (\<lambda>done source target sourceInfo. waitIfPaused w done
                 (io_bind (validateLocalResumeSource w (pe_LocalPath file) sourceInfo) (\<lambda>_.
                   seekBoth w source target done))))
               (after_copy w (pe_RelativePath file) bytesDone))))))"

definition download_file ::
  "nat \<Rightarrow> 's work \<Rightarrow> string \<Rightarrow> SFTPConflictPolicy \<Rightarrow> int \<Rightarrow> RecursivePlanEntry \<Rightarrow> ('s, goerr, int) io" where
  "download_file n w root policy bytesDone file =
     io_bind (io_call (wk_ctx w)) (\<lambda>_.
     io_bind (waitIfPaused w (-1) (io_return ())) (\<lambda>_.
     io_bind (report w (CurrentFile (pe_RelativePath file))) (\<lambda>_.
     io_bind (io_try (io_bind (ensureNoSymlinkInPath w root (path_Dir (pe_LocalPath file))) (\<lambda>_.
         resolveLocalConflictNoSymlink w (pe_LocalPath file) policy))) (\<lambda>r. case r of
         Inl err \<Rightarrow> io_bind (report w (FileFailed (pe_RelativePath file) err True)) (\<lambda>_. io_return bytesDone)
       | Inr (localPath, skipped) \<Rightarrow>
           if skipped
           then io_bind (report w (FileSkipped (pe_RelativePath file) True)) (\<lambda>_. io_return bytesDone)
           else io_bind (report w (NewFile (sint (pe_Size file)))) (\<lambda>_.
             io_bind (downloadPlannedFile n w (pe_RemotePath file) localPath (sint (pe_Size file))
               (file_progress w bytesDone)
               (\<lambda>done source target remoteInfo. waitIfPaused w done
                 (io_bind (validateRemoteResumeSource w (pe_RemotePath file) remoteInfo) (\<lambda>_.
                  io_bind (validateLocalResumeTarget w localPath done) (\<lambda>_.
                    seekBoth w source target done)))))
               (after_copy w (pe_RelativePath file) bytesDone))))))"

fun each_file :: "(int \<Rightarrow> RecursivePlanEntry \<Rightarrow> ('s, goerr, int) io) \<Rightarrow> int \<Rightarrow> RecursivePlanEntry list \<Rightarrow>
    ('s, goerr, unit) io" where
  "each_file work bytesDone [] = io_return ()"
| "each_file work bytesDone (file # files) =
     io_bind (work bytesDone file) (\<lambda>bytesDone. each_file work bytesDone files)"

definition runDirectoryUpload :: "nat \<Rightarrow> 's work \<Rightarrow> ('s, goerr, unit) io" where
  "runDirectoryUpload n w = (\<lambda>s0.
     let item = wk_item w s0; st = tf_state item in
     io_bind (PlanRecursiveUpload n (plan_local_fs w) (wk_cwd w) (ts_LocalPath st)
                (parentRemotePath (ts_RemotePath st))) (\<lambda>plan.
     io_bind (applyRecursivePlan w plan) (\<lambda>_.
     io_bind (make_remote_directories w (pl_Directories plan)) (\<lambda>_.
     io_bind (each_file (upload_file n w (tf_conflictPolicy item)) 0 (pl_Files plan)) (\<lambda>_.
       report w (CurrentFile []))))) s0)"

definition runDirectoryDownload :: "nat \<Rightarrow> 's work \<Rightarrow> ('s, goerr, unit) io" where
  "runDirectoryDownload n w = (\<lambda>s0.
     let item = wk_item w s0; st = tf_state item in
     io_bind (PlanRecursiveDownload n (Some (plan_client w)) (wk_cwd w) (ts_RemotePath st)
                (path_Dir (ts_LocalPath st))) (\<lambda>plan.
     io_bind (applyRecursivePlan w plan) (\<lambda>_.
     io_bind (make_local_directories w (ts_LocalPath st) (pl_Directories plan)) (\<lambda>_.
     io_bind (each_file (download_file n w (ts_LocalPath st) (tf_conflictPolicy item)) 0 (pl_Files plan)) (\<lambda>_.
       report w (CurrentFile []))))) s0)"

section \<open>The requests\<close>

text \<open>
  What a request for a transfer comes to: a transfer of the given direction, request, size, name and
  type of the source, a transfer that was skipped, or the SCP mode of the manager takes over.
\<close>

datatype transfer_start =
    StartTransfer SFTPTransferDirection SFTPTransferRequest int string string bool
  | StartSkipped SFTPTransferDirection SFTPTransferRequest string int
  | StartSCP

definition session_op :: "'s work \<Rightarrow> string \<Rightarrow> ('s, goerr, 'a) io \<Rightarrow> ('s, goerr, 'a) io" where
  "session_op w operation m =
     io_bind (io_try m) (\<lambda>r. case r of
         Inl err \<Rightarrow> io_bind (io_update (wk_fail w operation err))
                     (\<lambda>_. io_throw (errors_New (sce_message (classifySFTPError err))))
       | Inr x \<Rightarrow> io_return x)"

definition base_name :: "string \<Rightarrow> string" where
  "base_name p = path_Base (path_Clean p)"

definition uploadDirectory ::
  "'s work \<Rightarrow> SFTPMode \<Rightarrow> string \<Rightarrow> SFTPTransferRequest \<Rightarrow> string \<Rightarrow> ('s, goerr, transfer_start) io" where
  "uploadDirectory w mode base request directory =
     io_bind (io_error (errorf_wrap (zh [26412, 22320, 25991, 20214, 22841, 19981, 21487, 35835, 21462, 58, 32])) (io_call (lo_Lstat w (tq_LocalPath request)))) (\<lambda>info.
       if fi_Symlink info then io_throw (errors_New (zh [26242, 19981, 25903, 25345, 19978, 20256, 31526, 21495, 38142, 25509, 25991, 20214, 22841]))
       else if \<not> fi_IsDir info then io_throw (errors_New (zh [35831, 36873, 25321, 26412, 22320, 25991, 20214, 22841]))
       else let remoteDirectory = resolveRemotePath base directory
         in if hasParentTraversal directory then io_throw (errors_New (zh [36828, 31243, 30446, 26631, 36335, 24452, 19981, 33021, 21253, 21547, 32, 46, 46]))
            else let name = base_name (tq_LocalPath request); remoteRoot = joinRemotePath remoteDirectory name
              in if mode = SFTPModeSCP then io_return StartSCP
                 else io_return (StartTransfer SFTPTransferUpload (request\<lparr>tq_RemotePath := remoteRoot\<rparr>) 0 name
                        ''directory'' True))"

definition Upload ::
  "'s work \<Rightarrow> SFTPMode \<Rightarrow> string \<Rightarrow> SFTPTransferRequest \<Rightarrow> ('s, goerr, transfer_start) io" where
  "Upload w mode base request =
     io_bind (io_error (errorf_wrap (zh [26412, 22320, 25991, 20214, 19981, 21487, 35835, 21462, 58, 32])) (io_call (lo_Stat w (tq_LocalPath request)))) (\<lambda>info.
       let remotePath = resolveRemotePath base (tq_RemotePath request); bytes = sint (fi_Size info)
       in if fi_IsDir info then uploadDirectory w mode base request (parentRemotePath remotePath)
          else if mode = SFTPModeSCP then io_return StartSCP
          else io_bind (resolveRemoteConflict w remotePath (tq_ConflictPolicy request)) (\<lambda>(resolvedPath, skipped).
            io_return (if skipped then StartSkipped SFTPTransferUpload request remotePath bytes
              else StartTransfer SFTPTransferUpload (request\<lparr>tq_RemotePath := resolvedPath\<rparr>) bytes
                     (baseRemotePath resolvedPath) ''file'' False)))"

definition Download ::
  "'s work \<Rightarrow> SFTPMode \<Rightarrow> string \<Rightarrow> SFTPTransferRequest \<Rightarrow> ('s, goerr, transfer_start) io" where
  "Download w mode base request =
     (if mode = SFTPModeSCP then io_return StartSCP
      else let remotePath = resolveRemotePath base (tq_RemotePath request)
        in io_bind (session_op w ''sftp.download.stat'' (io_call (re_Stat w remotePath))) (\<lambda>info.
          if fi_IsDir info then io_throw (errors_New (zh [26242, 19981, 25903, 25345, 19979, 36733, 36828, 31243, 25991, 20214, 22841]))
          else if tq_LocalPath request = [] then io_throw (errors_New (zh [35831, 36873, 25321, 26412, 22320, 20445, 23384, 30446, 24405]))
          else io_bind (io_try (io_call (lo_Stat w (tq_LocalPath request)))) (\<lambda>r.
            let isDir = (case r of Inl _ \<Rightarrow> False | Inr localInfo \<Rightarrow> fi_IsDir localInfo);
                localPath = (if isDir then path_Join (tq_LocalPath request) (baseRemotePath remotePath)
                             else tq_LocalPath request);
                bytes = sint (fi_Size info)
            in io_bind (resolveLocalConflict w localPath (tq_ConflictPolicy request)) (\<lambda>(resolvedPath, skipped).
              io_return (if skipped
                then StartSkipped SFTPTransferDownload (request\<lparr>tq_LocalPath := localPath\<rparr>) remotePath bytes
                else StartTransfer SFTPTransferDownload
                       (request\<lparr>tq_LocalPath := resolvedPath, tq_RemotePath := remotePath\<rparr>) bytes
                       (baseRemotePath remotePath) ''file'' False)))))"

text \<open>The local path of this request is the directory to put the new one in.\<close>

definition DownloadDirectory ::
  "'s work \<Rightarrow> SFTPMode \<Rightarrow> string \<Rightarrow> SFTPTransferRequest \<Rightarrow> ('s, goerr, transfer_start) io" where
  "DownloadDirectory w mode base request =
     (if mode = SFTPModeSCP then io_return StartSCP
      else let remotePath = resolveRemotePath base (tq_RemotePath request)
        in if hasParentTraversal (tq_RemotePath request) then io_throw (errors_New (zh [36828, 31243, 28304, 36335, 24452, 19981, 33021, 21253, 21547, 32, 46, 46]))
           else io_bind (session_op w ''sftp.download_dir.stat'' (io_call (cl_Lstat (wk_remote w) remotePath))) (\<lambda>info.
             if fi_Symlink info then io_throw (errors_New (zh [26242, 19981, 25903, 25345, 19979, 36733, 31526, 21495, 38142, 25509, 30446, 24405]))
             else if \<not> fi_IsDir info then io_throw (errors_New (zh [35831, 36873, 25321, 36828, 31243, 30446, 24405]))
             else if TrimSpace (tq_LocalPath request) = [] then io_throw (errors_New (zh [35831, 36873, 25321, 26412, 22320, 20445, 23384, 30446, 24405]))
             else let localRoot = path_Join (path_Clean (tq_LocalPath request)) (safeDownloadRootName remotePath)
               in case ensureLocalDescendant (wk_cwd w) (tq_LocalPath request) localRoot of
                    Some err \<Rightarrow> io_throw err
                  | None \<Rightarrow> io_return (StartTransfer SFTPTransferDownload
                      (request\<lparr>tq_LocalPath := localRoot, tq_RemotePath := remotePath\<rparr>) 0
                      (baseRemotePath remotePath) ''directory'' True)))"

section \<open>The two loops agree\<close>

text \<open>What is left of the counting loop when the count is forgotten.\<close>

definition forget_count :: "('s, goerr, int \<times> goerr option) io \<Rightarrow> ('s, goerr, unit) io" where
  "forget_count m = io_bind m (\<lambda>(written, err). case err of None \<Rightarrow> io_return () | Some e \<Rightarrow> io_throw e)"

lemma io_bind_assoc: "io_bind (io_bind m f) g = io_bind m (\<lambda>x. io_bind (f x) g)"
  by (rule ext) (simp add: io_bind_def split: option.split sum.split)

lemma io_bind_return [simp]: "io_bind (io_return x) f = f x"
  by (rule ext) (simp add: io_bind_def io_return_def)

lemma io_bind_try_throw:
  "io_bind (io_try m) (\<lambda>r. case r of Inl e \<Rightarrow> io_throw e | Inr x \<Rightarrow> f x) = io_bind m f"
  by (rule ext) (simp add: io_bind_def io_try_def io_throw_def split: option.split sum.split)

lemma forget_count_simps:
  "forget_count (io_return (written, Some e)) = io_throw e"
  "forget_count (io_return (written, None)) = io_return ()"
  "forget_count io_diverge = io_diverge"
  "forget_count (io_bind m f) = io_bind m (\<lambda>x. forget_count (f x))"
  by (simp_all add: forget_count_def io_bind_assoc) (simp add: io_bind_def io_diverge_def)

lemma forget_or_stop: "forget_count (or_stop written m rest) = io_bind m (\<lambda>_. forget_count rest)"
proof -
  have step: "forget_count (case r of Inl e \<Rightarrow> io_return (written, Some e) | Inr _ \<Rightarrow> rest) =
      (case r of Inl e \<Rightarrow> io_throw e | Inr _ \<Rightarrow> forget_count rest)" for r
    by (simp add: forget_count_simps split: sum.split)
  show ?thesis unfolding or_stop_def forget_count_simps(4) step by (rule io_bind_try_throw)
qed

lemma io_bind_unit_return: "io_bind m io_return = m"
  by (rule ext) (simp add: io_bind_def io_return_def split: option.split sum.split)

lemma forget_chunk:
  "forget_count (count_chunk c bytes again written lastEmit x) =
   plain_chunk c bytes (\<lambda>written lastEmit. forget_count (again written lastEmit)) written lastEmit x"
  by (cases x) (auto simp: count_chunk_def plain_chunk_def Let_def forget_or_stop forget_count_simps
      io_bind_unit_return intro!: arg_cong2 [where f = io_bind] split: option.split)

lemma copy_plain_count:
  "copy_plain n c bytes written lastEmit = forget_count (copy_count n c bytes written lastEmit)"
proof (induction n arbitrary: written lastEmit)
  case (Suc n)
  have "copy_plain n c bytes = (\<lambda>written lastEmit. forget_count (copy_count n c bytes written lastEmit))"
    by (intro ext) (simp add: Suc)
  then show ?case by (simp add: forget_count_simps forget_or_stop forget_chunk)
qed (simp add: forget_count_simps)

lemma copyWithProgress_forget:
  "copyWithProgress n c bytes = forget_count (copyWithProgressCountPause n c bytes)"
  by (rule ext) (simp add: copyWithProgress_def copyWithProgressCountPause_def copy_plain_count
      forget_count_def io_bind_def)

text \<open>
  C32: The two copies of the loop are the same program: copying without a count is copying with the
  count forgotten, for every reader, writer and pause, errors included.
\<close>

theorem copyWithProgress_equiv:
  "copyWithProgress n c bytes = forget_count (copyWithProgressCountPause n c bytes)"
  by (rule copyWithProgress_forget)

section \<open>A copy is the whole source\<close>

text \<open>
  What the loop relies on. \<open>left\<close> is what the reader has still to give, \<open>out\<close> what the target holds,
  \<open>good\<close> an invariant of the open files and \<open>all\<close> the whole source. A read takes the next bytes, an end of file is one, a write
  appends, or appends a part when it fails; and a pause leaves both as they were, when it is told
  the right offset.
\<close>

locale copy_files =
  fixes c :: "'s copy_io" and left :: "'s \<Rightarrow> string" and out :: "'s \<Rightarrow> string" and good :: "'s \<Rightarrow> bool"
    and all :: string
  assumes ctx_keeps: "good s \<Longrightarrow> ci_ctx c s = (r, t) \<Longrightarrow> left t = left s \<and> out t = out s \<and> good t"
    and read_takes: "good s \<Longrightarrow> ci_Read c k s = ((data, e), t) \<Longrightarrow> left s = data @ left t \<and> out t = out s \<and> good t"
    and read_end: "good s \<Longrightarrow> k > 0 \<Longrightarrow> ci_Read c k s = ((data, e), t) \<Longrightarrow> is_EOF e \<Longrightarrow> left t = []"
    and read_live: "good s \<Longrightarrow> k > 0 \<Longrightarrow> ci_Read c k s = (([], e), t) \<Longrightarrow> e \<noteq> None"
    and write_appends: "good s \<Longrightarrow> ci_Write c data s = (Inr u, t) \<Longrightarrow>
      left t = left s \<and> out t = out s @ data \<and> good t"
    and write_partial: "good s \<Longrightarrow> ci_Write c data s = (Inl err, t) \<Longrightarrow> prefix (out t) (out s @ data)"
    and update_keeps: "good s \<Longrightarrow> \<exists>t. ci_update c d s = Some (Inr (), t) \<and> left t = left s \<and> out t = out s \<and> good t"
    and pause_keeps: "good s \<Longrightarrow> out s @ left s = all \<Longrightarrow> \<exists>r t. pause_check c (int (length (out s))) s = Some (r, t) \<and>
      out t = out s \<and> (r = Inr () \<longrightarrow> left t = left s \<and> good t)"
begin

text \<open>A run that ends, with a prefix of the copy, and with the whole copy unless it reports an error.\<close>

definition copies :: "('s, goerr, int \<times> goerr option) io \<Rightarrow> 's \<Rightarrow> bool" where
  "copies m s \<longleftrightarrow> (\<exists>w err t. m s = Some (Inr (w, err), t) \<and> prefix (out t) all \<and>
     (err = None \<longrightarrow> out t = all \<and> w = int (length all)))"

lemma copies_stop: "m s = Some (Inr (w, Some e), t) \<Longrightarrow> prefix (out t) all \<Longrightarrow> copies m s"
  by (simp add: copies_def)

lemma copies_or_stop:
  assumes "m s = Some (r, t)" "prefix (out t) all" "r = Inr () \<Longrightarrow> copies rest t"
  shows "copies (or_stop w m rest) s"
proof (cases r)
  case (Inl e)
  then show ?thesis using assms
    by (intro copies_stop [of _ _ w e t]) (simp_all add: or_stop_def io_bind_def io_try_def io_return_def)
next
  case (Inr u)
  then have "or_stop w m rest s = rest t" using assms(1) by (simp add: or_stop_def io_bind_def io_try_def)
  then show ?thesis using assms(3) Inr by (simp add: copies_def)
qed

lemma copies_bind: "m s = Some (Inr x, t) \<Longrightarrow> copies (f x) t \<Longrightarrow> copies (io_bind m f) s"
  by (simp add: copies_def io_bind_def)

lemma emit_keeps:
  "good s \<Longrightarrow> \<exists>x t. emit_progress c bytes written lastEmit s = Some (Inr x, t) \<and>
     left t = left s \<and> out t = out s \<and> good t"
  using update_keeps [of s written] by (auto simp: emit_progress_def io_bind_def io_return_def)

lemma copies_go_on:
  assumes "good s" "out s @ left s = all" "is_EOF readErr \<Longrightarrow> left s = []"
    and "readErr = None \<Longrightarrow> copies (again (int (length (out s))) lastEmit) s"
  shows "copies
    (if is_EOF readErr then io_bind (ci_update c (int (length (out s)))) (\<lambda>_. io_return (int (length (out s)), None))
     else case readErr of Some e \<Rightarrow> io_return (int (length (out s)), Some e)
       | None \<Rightarrow> again (int (length (out s))) lastEmit) s"
proof (cases "is_EOF readErr")
  case True
  obtain t where "ci_update c (int (length (out s))) s = Some (Inr (), t)" "out t = out s"
    using update_keeps [OF assms(1)] by blast
  then show ?thesis using True assms(2,3) by (auto simp: copies_def io_bind_def io_return_def)
next
  case False
  then show ?thesis using assms(2,4)
    by (cases readErr) (auto simp: is_EOF_def copies_def io_return_def prefix_def)
qed

lemma copies_chunk:
  assumes good: "good s" and whole: "out s @ data @ left s = all" and read: "is_EOF readErr \<Longrightarrow> left s = []" "data = [] \<Longrightarrow> readErr \<noteq> None"
    and again: "\<And>t l. good t \<Longrightarrow> out t @ left t = all \<Longrightarrow> length (left t) < n \<Longrightarrow> copies (again (int (length (out t))) l) t"
    and n: "length (data @ left s) < Suc n"
  shows "copies (count_chunk c bytes again (int (length (out s))) lastEmit (data, readErr)) s"
proof (cases "data = []")
  case True
  then show ?thesis
    using copies_go_on [of s readErr again lastEmit] good whole read by (simp add: count_chunk_def Let_def)
next
  case False
  obtain r1 t1 where t1: "ci_ctx c s = (r1, t1)" "left t1 = left s" "out t1 = out s" "good t1"
    using ctx_keeps [OF good] by (cases "ci_ctx c s") blast
  obtain r2 t2 where t2: "ci_Write c data t1 = (r2, t2)" "prefix (out t2) (out s @ data)"
    "r2 = Inr () \<longrightarrow> left t2 = left s \<and> out t2 = out s @ data \<and> good t2"
    using write_appends [of t1 data] write_partial [of t1 data] t1
    by (cases "ci_Write c data t1"; cases "fst (ci_Write c data t1)") auto
  have sum: "int (length (out s)) + int (length data) = int (length (out t2))" if "r2 = Inr ()"
    using t2(3) that by simp
  have third: "copies (or_stop (int (length (out s)) + int (length data)) (pause_check c (int (length (out s)) + int (length data)))
      (io_bind (emit_progress c bytes (int (length (out s)) + int (length data)) lastEmit)
        (\<lambda>lastEmit. if is_EOF readErr
          then io_bind (ci_update c (int (length (out s)) + int (length data))) (\<lambda>_. io_return (int (length (out s)) + int (length data), None))
          else case readErr of Some e \<Rightarrow> io_return (int (length (out s)) + int (length data), Some e)
            | None \<Rightarrow> again (int (length (out s)) + int (length data)) lastEmit))) t2" if "r2 = Inr ()"
  proof -
    have all2: "out t2 @ left t2 = all" "left t2 = left s" and good2: "good t2"
      using t2(3) that whole by auto
    obtain r3 t3 where t3: "pause_check c (int (length (out t2))) t2 = Some (r3, t3)"
      "out t3 = out t2" "r3 = Inr () \<longrightarrow> left t3 = left s \<and> good t3"
      using pause_keeps [OF good2 all2(1)] all2(2) by auto
    have "copies (io_bind (emit_progress c bytes (int (length (out t2))) lastEmit)
        (\<lambda>lastEmit. if is_EOF readErr
          then io_bind (ci_update c (int (length (out t2)))) (\<lambda>_. io_return (int (length (out t2)), None))
          else case readErr of Some e \<Rightarrow> io_return (int (length (out t2)), Some e)
            | None \<Rightarrow> again (int (length (out t2))) lastEmit)) t3" if ok: "r3 = Inr ()"
    proof -
      obtain l t4 where t4: "emit_progress c bytes (int (length (out t2))) lastEmit t3 = Some (Inr l, t4)"
        "left t4 = left s" "out t4 = out t2" "good t4"
        using emit_keeps [of t3 bytes "int (length (out t2))" lastEmit] t3 ok by auto
      have "copies (again (int (length (out t4))) l) t4"
        using n False t4 all2 by (intro again; cases data) auto
      then show ?thesis
        using copies_go_on [OF t4(4), of readErr again l] read(1) all2 unfolding t4(2,3)
        by (intro copies_bind [where x = l and t = t4]) (simp_all add: t4(1))
    qed
    then show ?thesis
      unfolding sum [OF that] using t3 all2(1)
      by (intro copies_or_stop [where r = r3 and t = t3]) (auto simp: prefix_def)
  qed
  have part: "prefix (out t2) all" "prefix (out s) all"
    using prefix_prefix [OF t2(2), of "left s"] whole by (auto simp: prefix_def)
  show ?thesis
    unfolding count_chunk_def prod.case Let_def if_not_P [OF False]
    by (rule copies_or_stop [where r = r1 and t = t1];
        (rule copies_or_stop [where r = r2 and t = t2])?)
      (simp_all add: io_call_def t1 t2(1) part third)
qed

lemma copy_count_copies:
  "good s \<Longrightarrow> out s @ left s = all \<Longrightarrow> length (left s) < n \<Longrightarrow>
   copies (copy_count n c bytes (int (length (out s))) lastEmit) s"
proof (induction n arbitrary: s lastEmit)
  case (Suc n)
  obtain r1 t1 where t1: "ci_ctx c s = (r1, t1)" "left t1 = left s" "out t1 = out s" "good t1"
    using ctx_keeps [OF Suc.prems(1)] by (cases "ci_ctx c s") blast
  obtain data e t2 where t2: "ci_Read c transferBufferSize t1 = ((data, e), t2)" by (metis surj_pair)
  have size: "transferBufferSize > 0" by (simp add: transferBufferSize_def)
  have read: "left s = data @ left t2" "out t2 = out s" "good t2" "is_EOF e \<Longrightarrow> left t2 = []" "data = [] \<Longrightarrow> e \<noteq> None"
    using read_takes [OF t1(4) t2] read_end [OF t1(4) size t2] read_live [OF t1(4) size] t2 t1 by auto
  have "copies (count_chunk c bytes (copy_count n c bytes) (int (length (out t2))) lastEmit (data, e)) t2"
    using Suc.prems read by (intro copies_chunk [where n = n] Suc.IH) auto
  moreover have "io_state (ci_Read c transferBufferSize) t1 = Some (Inr (data, e), t2)"
    using t2 by (simp add: io_state_def)
  moreover have "prefix (out s) all" using Suc.prems(2) by (auto simp: prefix_def)
  ultimately show ?case
    unfolding copy_count.simps
    by (intro copies_or_stop [where r = r1 and t = t1] copies_bind [where x = "(data, e)" and t = t2])
      (simp_all add: io_call_def t1(1,3) read(2))
qed simp

text \<open>Both loops, from an empty target.\<close>

lemma copy_whole:
  assumes "good s" "out s = []" "left s = all" "length all < n"
  shows "copies (copyWithProgressCountPause n c bytes) s"
    and "\<exists>r t. copyWithProgress n c bytes s = Some (r, t) \<and> prefix (out t) all \<and> (r = Inr () \<longrightarrow> out t = all)"
proof -
  show one: "copies (copyWithProgressCountPause n c bytes) s"
    using copy_count_copies [OF assms(1), of n bytes "ci_now c s"] assms(2-4)
    by (simp add: copyWithProgressCountPause_def copies_def)
  then obtain w err t where "copyWithProgressCountPause n c bytes s = Some (Inr (w, err), t)"
    "prefix (out t) all" "err = None \<longrightarrow> out t = all"
    unfolding copies_def by blast
  then show "\<exists>r t. copyWithProgress n c bytes s = Some (r, t) \<and> prefix (out t) all \<and> (r = Inr () \<longrightarrow> out t = all)"
    by (cases err) (auto simp: copyWithProgress_forget forget_count_def io_bind_def io_return_def io_throw_def)
qed

end

section \<open>Files that keep their promises\<close>

text \<open>
  What a transfer of one file relies on. The world has the bytes of the file that is read, the bytes
  of the file that is written, and the positions of the open files; opening gives a file of the
  reading side, creating one of the writing side. Every call may fail, closing included. A read
  delivers the next bytes, a write stores its bytes or, when it fails, some first ones; creating
  empties the file or, when it fails, may leave it; the other calls leave the files alone.
\<close>

definition leaves_files ::
  "('s \<Rightarrow> string) \<Rightarrow> ('s \<Rightarrow> string) \<Rightarrow> ('s \<Rightarrow> nat \<Rightarrow> nat) \<Rightarrow> ('s \<Rightarrow> 'a \<times> 's) \<Rightarrow> bool" where
  "leaves_files content target position f \<longleftrightarrow>
     (\<forall>s r t. f s = (r, t) \<longrightarrow> content t = content s \<and> target t = target s \<and> position t = position s)"

locale file_world =
  fixes w :: "'s work" and content :: "'s \<Rightarrow> string" and target :: "'s \<Rightarrow> string"
    and position :: "'s \<Rightarrow> nat \<Rightarrow> nat" and reading :: "nat \<Rightarrow> bool"
  assumes quiet_ctx: "leaves_files content target position (wk_ctx w)"
    and quiet_block: "leaves_files content target position (wk_block w ch)"
    and quiet_close: "leaves_files content target position (wk_Close w h)"
    and quiet_fstat: "leaves_files content target position (wk_FStat w h)"
    and quiet_local_stat: "leaves_files content target position (lo_Stat w p)"
    and quiet_remote_stat: "leaves_files content target position (re_Stat w p)"
    and quiet_mkdir: "leaves_files content target position (lo_MkdirAll w p)"
    and quiet_item: "content (wk_set_item w item s) = content s" "target (wk_set_item w item s) = target s"
      "position (wk_set_item w item s) = position s"
    and opens: "open = lo_Open w \<or> open = re_Open w \<Longrightarrow> open p s = (r, t) \<Longrightarrow>
      content t = content s \<and> target t = target s \<and> (case r of Inl e \<Rightarrow> True | Inr h \<Rightarrow> reading h \<and> position t h = 0)"
    and creates: "create = lo_Create w \<or> create = re_Create w \<Longrightarrow> create p s = (r, t) \<Longrightarrow>
      content t = content s \<and> (\<forall>k. reading k \<longrightarrow> position t k = position s k) \<and>
      (case r of Inl e \<Rightarrow> target t = target s \<or> target t = []
       | Inr h \<Rightarrow> \<not> reading h \<and> target t = [] \<and> position t h = 0)"
    and reads: "reading h \<Longrightarrow> wk_Read w h k s = ((data, e), t) \<Longrightarrow>
      content t = content s \<and> target t = target s \<and> (\<forall>j. \<not> reading j \<longrightarrow> position t j = position s j) \<and>
      prefix data (drop (position s h) (content s)) \<and> position t h = position s h + length data"
    and reads_end: "reading h \<Longrightarrow> k > 0 \<Longrightarrow> wk_Read w h k s = ((data, e), t) \<Longrightarrow>
      (is_EOF e \<longrightarrow> length (content s) \<le> position t h) \<and> (data = [] \<longrightarrow> e \<noteq> None)"
    and writes: "\<not> reading h \<Longrightarrow> position s h = length (target s) \<Longrightarrow> wk_Write w h data s = (res, t) \<Longrightarrow>
      content t = content s \<and> (\<forall>j. reading j \<longrightarrow> position t j = position s j) \<and>
      (case res of Inl e \<Rightarrow> prefix (target t) (target s @ data)
       | Inr u \<Rightarrow> target t = target s @ data \<and> position t h = length (target t))"
    and seeks: "0 \<le> offset \<Longrightarrow> wk_Seek w h offset s = (res, t) \<Longrightarrow>
      content t = content s \<and> target t = target s \<and> (\<forall>j. reading j \<noteq> reading h \<longrightarrow> position t j = position s j) \<and>
      (case res of Inl e \<Rightarrow> True | Inr u \<Rightarrow> position t h = nat offset)"
begin

definition kept :: "'s \<Rightarrow> 's \<Rightarrow> bool" where
  "kept s t \<longleftrightarrow> content t = content s \<and> target t = target s"

definition still :: "'s \<Rightarrow> 's \<Rightarrow> bool" where
  "still s t \<longleftrightarrow> kept s t \<and> position t = position s"

lemma still_kept: "still s t \<Longrightarrow> kept s t"
  by (simp add: still_def)

lemma ends_quiet:
  assumes "leaves_files content target position f" "\<And>x t. still s t \<Longrightarrow> Q x t" "\<And>t. still s t \<Longrightarrow> E t"
  shows "io_ends (io_call f) s Q E"
  using assms by (intro io_ends_call) (auto simp: leaves_files_def still_def kept_def)

lemma still_set: "still s (wk_set_item w item s)"
  by (simp add: still_def kept_def quiet_item)

text \<open>The checks before a resume, and the positions after it.\<close>

lemma ends_validate:
  assumes "leaves_files content target position stat"
  shows "io_ends (validate_source stat expected) s (\<lambda>_. still s) (still s)"
  unfolding validate_source_def
  by (intro io_ends_rules ends_quiet [OF assms]) (auto intro: io_ends_rules)

lemma ends_seek:
  assumes "reading src" "\<not> reading dst" "0 \<le> offset"
  shows "io_ends (seekBoth w src dst offset) s
    (\<lambda>_ t. kept s t \<and> position t src = nat offset \<and> position t dst = nat offset) (kept s)"
  unfolding seekBoth_def
proof (intro io_ends_rules io_ends_call)
  fix x t y u
  assume t: "wk_Seek w src offset s = (Inr x, t)" and u: "wk_Seek w dst offset t = (Inr y, u)"
  show "kept s u \<and> position u src = nat offset \<and> position u dst = nat offset"
    using seeks [OF assms(3) t] seeks [OF assms(3) u] assms(1,2) by (simp add: kept_def)
next
  fix x t e u
  assume "wk_Seek w src offset s = (Inr x, t)" "wk_Seek w dst offset t = (Inl e, u)"
  then show "kept s u" using seeks [OF assms(3)] unfolding kept_def by metis
next
  fix e t assume "wk_Seek w src offset s = (Inl e, t)"
  then show "kept s t" using seeks [OF assms(3)] by (metis kept_def)
qed

lemma ends_wait:
  assumes "\<And>t. kept s t \<Longrightarrow> io_ends before t (\<lambda>_ u. kept t u \<and> P u) (kept t)"
    and P: "\<And>t u. P t \<Longrightarrow> still t u \<Longrightarrow> P u"
  shows "io_ends (waitIfPaused w offset before) s (\<lambda>_ t. kept s t \<and> (still s t \<or> P t)) (kept s)"
proof -
  obtain item ch where enter: "wait_enter (wk_fresh w s) offset (wk_item w s) = (item, ch)" by force
  have trans: "kept t u \<Longrightarrow> kept s t \<Longrightarrow> kept s u" for t u by (simp add: kept_def)
  have resumed: "io_ends (io_bind before (\<lambda>_.
      io_bind (io_update (\<lambda>s. wk_set_item w (wait_leave (wk_item w s)) s)) (\<lambda>_. io_call (wk_ctx w)))) t
    (\<lambda>_ t. kept s t \<and> (still s t \<or> P t)) (kept s)" if t: "kept s t" for t
  proof (rule io_ends_bind, rule io_ends_conseq [OF assms(1) [OF t]])
    fix x :: unit and u assume u: "kept t u \<and> P u"
    let ?u = "wk_set_item w (wait_leave (wk_item w u)) u"
    have "kept s ?u" "P ?u" using trans [OF still_kept [OF still_set]] trans [OF _ t] P [OF _ still_set] u by blast+
    then have "kept s v \<and> P v" if "still ?u v" for v using trans [OF still_kept [OF that]] P [OF _ that] by blast
    then show "io_ends (io_bind (io_update (\<lambda>s. wk_set_item w (wait_leave (wk_item w s)) s)) (\<lambda>_. io_call (wk_ctx w))) u
        (\<lambda>_ t. kept s t \<and> (still s t \<or> P t)) (kept s)"
      by (intro io_ends_bind io_ends_update ends_quiet [OF quiet_ctx]) blast+
  qed (use trans t in blast)
  show ?thesis
  proof (cases ch)
    case None
    then show ?thesis
      using enter ends_quiet [OF quiet_ctx, of s "\<lambda>_ t. kept s t \<and> (still s t \<or> P t)" "kept s"]
      by (simp add: waitIfPaused_def io_ends_def still_kept)
  next
    case (Some c)
    have k: "kept s t" if "still (wk_set_item w item s) t" for t
      using trans [OF still_kept [OF that] still_kept [OF still_set]] .
    have "io_ends (io_bind (io_update (wk_set_item w item)) (\<lambda>_. io_bind (io_call (wk_block w c)) (\<lambda>_.
        io_bind before (\<lambda>_. io_bind (io_update (\<lambda>s. wk_set_item w (wait_leave (wk_item w s)) s)) (\<lambda>_.
          io_call (wk_ctx w)))))) s (\<lambda>_ t. kept s t \<and> (still s t \<or> P t)) (kept s)"
      by (intro io_ends_bind io_ends_update ends_quiet [OF quiet_block] resumed) (rule k, assumption)+
    then show ?thesis using enter Some by (simp add: waitIfPaused_def io_ends_def)
  qed
qed

text \<open>The copy of a file whose pause checks something and then sets both positions.\<close>

definition resumes :: "nat \<Rightarrow> nat \<Rightarrow> (int \<Rightarrow> ('s, goerr, unit) io) \<Rightarrow> bool" where
  "resumes src dst before \<longleftrightarrow> (\<forall>offset s. 0 \<le> offset \<longrightarrow>
     io_ends (before offset) s
       (\<lambda>_ t. kept s t \<and> position t src = nat offset \<and> position t dst = nat offset) (kept s))"

definition copies_to :: "string \<Rightarrow> nat \<Rightarrow> 's \<Rightarrow> bool" where
  "copies_to all dst s \<longleftrightarrow> content s = all \<and> position s dst = length (target s)"

definition unread :: "nat \<Rightarrow> 's \<Rightarrow> string" where
  "unread src s = drop (position s src) (content s)"

lemma pause_resumes:
  assumes "resumes src dst before" "copies_to all dst s" "target s @ unread src s = all"
  shows "\<exists>r t. waitIfPaused w (int (length (target s))) (before (int (length (target s)))) s = Some (r, t) \<and>
    target t = target s \<and> (r = Inr () \<longrightarrow> unread src t = unread src s \<and> copies_to all dst t)"
proof -
  let ?n = "length (target s)"
  let ?P = "\<lambda>t. position t src = ?n \<and> position t dst = ?n"
  have rest: "drop ?n (content s) = unread src s"
    using assms(2,3) by (metis append_eq_conv_conj copies_to_def)
  have "io_ends (waitIfPaused w (int ?n) (before (int ?n))) s (\<lambda>_ t. kept s t \<and> (still s t \<or> ?P t)) (kept s)"
  proof (rule ends_wait)
    fix t
    show "io_ends (before (int ?n)) t (\<lambda>_ u. kept t u \<and> ?P u) (kept t)"
      using assms(1) [unfolded resumes_def, rule_format, of "int ?n" t] by simp
  qed (simp add: still_def)
  then obtain r t where t: "waitIfPaused w (int ?n) (before (int ?n)) s = Some (r, t)"
    "case r of Inl e \<Rightarrow> kept s t | Inr x \<Rightarrow> kept s t \<and> (still s t \<or> ?P t)"
    unfolding io_ends_def by blast
  have "unread src t = unread src s \<and> copies_to all dst t" if "kept s t" "still s t \<or> ?P t"
    using that(2)
  proof
    assume "still s t"
    then show ?thesis using assms(2) by (simp add: still_def kept_def copies_to_def unread_def)
  next
    assume "?P t"
    then show ?thesis using that(1) assms(2) rest by (simp add: kept_def copies_to_def unread_def)
  qed
  then show ?thesis using t by (intro exI [of _ r] exI [of _ t]) (auto simp: kept_def split: sum.splits)
qed

lemma file_copy_copies:
  assumes "reading src" "\<not> reading dst" "resumes src dst before"
  shows "copy_files (file_copy w src dst (\<lambda>done. report w (ProgressBytes done))
      (\<lambda>done. waitIfPaused w done (before done))) (unread src) target (copies_to all dst) all"
proof
  let ?c = "file_copy w src dst (\<lambda>done. report w (ProgressBytes done)) (\<lambda>done. waitIfPaused w done (before done))"
  fix s
  assume good: "copies_to all dst s"
  show "unread src t = unread src s \<and> target t = target s \<and> copies_to all dst t" if "ci_ctx ?c s = (r, t)" for r t
    using good that quiet_ctx by (simp add: file_copy_def leaves_files_def copies_to_def unread_def)
  show "unread src s = data @ unread src t \<and> target t = target s \<and> copies_to all dst t"
    if "ci_Read ?c k s = ((data, e), t)" for k data e t
  proof -
    have r: "content t = content s" "target t = target s" "position t dst = position s dst"
      "prefix data (unread src s)" "position t src = length data + position s src"
      using reads [OF assms(1), of k s data e t] that assms(2) by (simp_all add: file_copy_def unread_def)
    then have "unread src t = drop (length data) (unread src s)" by (simp add: unread_def)
    then have "unread src s = data @ unread src t" using r(4) by (auto simp: prefix_def)
    then show ?thesis using r(1-3) good by (simp add: copies_to_def)
  qed
  show "unread src t = []" if "k > 0" "ci_Read ?c k s = ((data, e), t)" "is_EOF e" for k data e t
    using reads_end [OF assms(1) that(1), of s data e t] reads [OF assms(1), of k s data e t] that
    by (simp add: file_copy_def unread_def)
  show "e \<noteq> None" if "k > 0" "ci_Read ?c k s = (([], e), t)" for k e t
    using reads_end [OF assms(1) that(1), of s "[]" e t] that(2) by (simp add: file_copy_def)
  show "unread src t = unread src s \<and> target t = target s @ data \<and> copies_to all dst t"
    if "ci_Write ?c data s = (Inr u, t)" for data u t
    using good writes [OF assms(2), of s data "Inr u" t] that assms(1)
    by (simp add: file_copy_def copies_to_def unread_def)
  show "prefix (target t) (target s @ data)" if "ci_Write ?c data s = (Inl err, t)" for data err t
    using good writes [OF assms(2), of s data "Inl err" t] that by (simp add: file_copy_def copies_to_def)
  show "\<exists>t. ci_update ?c d s = Some (Inr (), t) \<and> unread src t = unread src s \<and> target t = target s \<and> copies_to all dst t" for d
    using good by (simp add: file_copy_def report_def io_update_def copies_to_def unread_def quiet_item)
  show "\<exists>r t. pause_check ?c (int (length (target s))) s = Some (r, t) \<and> target t = target s \<and>
      (r = Inr () \<longrightarrow> unread src t = unread src s \<and> copies_to all dst t)" if "target s @ unread src s = all"
    using pause_resumes [OF assms(3) good that] by (simp add: pause_check_def file_copy_def)
qed

text \<open>From the moment the target is created.\<close>

lemma ends_copy:
  assumes "reading src" "\<not> reading dst" "resumes src dst before" "content s = all" "target s = []"
    "position s src = 0" "position s dst = 0" "length all < n"
  shows "io_ends (copyWithProgress n (file_copy w src dst (\<lambda>done. report w (ProgressBytes done))
      (\<lambda>done. waitIfPaused w done (before done))) bytes) s (\<lambda>_ t. target t = all) (\<lambda>t. prefix (target t) all)"
proof -
  have "copies_to all dst s" "unread src s = all" using assms(4-7) by (simp_all add: copies_to_def unread_def)
  from copy_files.copy_whole(2) [OF file_copy_copies [OF assms(1-3)] this(1) assms(5) this(2) assms(8), of bytes]
  obtain r t where "copyWithProgress n (file_copy w src dst (\<lambda>done. report w (ProgressBytes done))
      (\<lambda>done. waitIfPaused w done (before done))) bytes s = Some (r, t)"
    "prefix (target t) all" "r = Inr () \<longrightarrow> target t = all"
    by blast
  then show ?thesis by (cases r) (auto simp: io_ends_def)
qed

lemma ends_deferred:
  assumes "io_ends m s (\<lambda>_ t. Q (target t)) (\<lambda>t. E (target t))"
  shows "io_ends (deferred_close w h m) s (\<lambda>_ t. Q (target t)) (\<lambda>t. E (target t))"
proof -
  have close:
    "Q (target t) \<Longrightarrow> io_ends (io_bind (io_try (io_call (wk_Close w h))) (\<lambda>_. io_return x)) t
       (\<lambda>_ t. Q (target t)) (\<lambda>t. E (target t))"
    "E (target t) \<Longrightarrow> io_ends (io_bind (io_try (io_call (wk_Close w h))) (\<lambda>_. io_throw e)) t
       (\<lambda>_ t. Q (target t)) (\<lambda>t. E (target t))" for t x e
    by (auto intro!: io_ends_rules ends_quiet [OF quiet_close] dest!: still_kept simp: kept_def)
  show ?thesis
    unfolding deferred_close_def
    by (rule io_ends_bind, rule io_ends_try, rule io_ends_conseq [OF assms])
      (simp_all add: close)
qed

lemma resumes_checked:
  assumes "reading src" "\<not> reading dst" "\<And>offset s. io_ends (check offset) s (\<lambda>_. kept s) (kept s)"
  shows "resumes src dst (\<lambda>offset. io_bind (check offset) (\<lambda>_. seekBoth w src dst offset))"
  unfolding resumes_def
proof (intro allI impI io_ends_bind)
  fix offset :: int and s assume o: "0 \<le> offset"
  have "io_ends (seekBoth w src dst offset) t
      (\<lambda>_ t. kept s t \<and> position t src = nat offset \<and> position t dst = nat offset) (kept s)" if "kept s t" for t
    by (rule io_ends_conseq [OF ends_seek [OF assms(1,2) o]]) (use that in \<open>auto simp: kept_def\<close>)
  then show "io_ends (check offset) s (\<lambda>_ t. io_ends (seekBoth w src dst offset) t
      (\<lambda>_ t. kept s t \<and> position t src = nat offset \<and> position t dst = nat offset) (kept s)) (kept s)"
    by (intro io_ends_conseq [OF assms(3)])
qed

text \<open>What a transfer of the file \<open>all\<close> gives, in a world whose target held \<open>old\<close>.\<close>

abbreviation transfers :: "('s, goerr, unit) io \<Rightarrow> string \<Rightarrow> string \<Rightarrow> 's \<Rightarrow> bool" where
  "transfers m all old s \<equiv> io_ends m s (\<lambda>_ t. target t = all) (\<lambda>t. target t = old \<or> prefix (target t) all)"

lemma transfers_copy:
  assumes "reading src" "resumes src dst before" "content s = all" "position s src = 0" "length all < n"
    "\<not> reading dst" "target s = []" "position s dst = 0"
  shows "transfers (deferred_close w dst (io_bind (report w p) (\<lambda>_.
      copyWithProgress n (file_copy w src dst (\<lambda>done. report w (ProgressBytes done))
        (\<lambda>done. waitIfPaused w done (before done))) bytes))) all old s"
proof (rule ends_deferred)
  let ?s = "wk_set_item w (updateTransfer (progress_state p) (wk_item w s)) s"
  have "io_ends (copyWithProgress n (file_copy w src dst (\<lambda>done. report w (ProgressBytes done))
      (\<lambda>done. waitIfPaused w done (before done))) bytes) ?s (\<lambda>_ t. target t = all) (\<lambda>t. prefix (target t) all)"
    using assms by (intro ends_copy) (simp_all add: quiet_item)
  then show "transfers (io_bind (report w p) (\<lambda>_. copyWithProgress n (file_copy w src dst
      (\<lambda>done. report w (ProgressBytes done)) (\<lambda>done. waitIfPaused w done (before done))) bytes)) all old s"
    unfolding report_def [of w p] by (intro io_ends_bind io_ends_update) (auto elim: io_ends_conseq)
qed

lemma transfers_create:
  assumes "create = lo_Create w \<or> create = re_Create w" "reading src" "content s = all" "position s src = 0"
    and "target s = old" and rest: "\<And>dst t. content t = all \<Longrightarrow> position t src = 0 \<Longrightarrow> \<not> reading dst \<Longrightarrow> target t = [] \<Longrightarrow>
      position t dst = 0 \<Longrightarrow> transfers (rest dst) all old t"
  shows "transfers (io_bind (io_error f (io_call (create p))) rest) all old s"
proof (intro io_ends_bind io_ends_error io_ends_call)
  fix dst t assume c: "create p s = (Inr dst, t)"
  show "transfers (rest dst) all old t"
    using creates [OF assms(1) c] assms(2-4) by (intro rest) simp_all
next
  fix e t assume c: "create p s = (Inl e, t)"
  show "target t = old \<or> prefix (target t) all" using creates [OF assms(1) c] assms(5) by auto
qed

lemma transfers_open:
  assumes "open = lo_Open w \<or> open = re_Open w" "content s = all" "target s = old"
    and rest: "\<And>src t. reading src \<Longrightarrow> content t = all \<Longrightarrow> target t = old \<Longrightarrow> position t src = 0 \<Longrightarrow> transfers (rest src) all old t"
  shows "transfers (io_bind (io_error f (io_call (open p))) rest) all old s"
proof (intro io_ends_bind io_ends_error io_ends_call)
  fix src t assume c: "open p s = (Inr src, t)"
  show "transfers (rest src) all old t" using opens [OF assms(1) c] assms(2,3) by (intro rest) simp_all
next
  fix e t assume c: "open p s = (Inl e, t)"
  show "target t = old \<or> prefix (target t) all" using opens [OF assms(1) c] assms(3) by simp
qed

lemma transfers_quiet:
  assumes "leaves_files content target position call" "target s = old"
    and "\<And>x t. still s t \<Longrightarrow> transfers (rest x) all old t"
  shows "transfers (io_bind (io_error f (io_call call)) rest) all old s"
  by (intro io_ends_bind io_ends_error ends_quiet [OF assms(1)] assms(3)) (simp_all add: assms(2) still_def kept_def)

lemma checks_keep:
  "io_ends (validateLocalResumeSource w p info) s (\<lambda>_. kept s) (kept s)"
  "io_ends (validateRemoteResumeSource w p info) s (\<lambda>_. kept s) (kept s)"
  "io_ends (validateLocalResumeTarget w p offset) s (\<lambda>_. kept s) (kept s)"
proof -
  show "io_ends (validateLocalResumeSource w p info) s (\<lambda>_. kept s) (kept s)"
    unfolding validateLocalResumeSource_def by (rule io_ends_conseq [OF ends_validate [OF quiet_local_stat]]) (rule still_kept, assumption)+
  show "io_ends (validateRemoteResumeSource w p info) s (\<lambda>_. kept s) (kept s)"
    unfolding validateRemoteResumeSource_def by (rule io_ends_conseq [OF ends_validate [OF quiet_remote_stat]]) (rule still_kept, assumption)+
  show "io_ends (validateLocalResumeTarget w p offset) s (\<lambda>_. kept s) (kept s)"
    unfolding validateLocalResumeTarget_def
    by (intro io_ends_bind io_ends_error ends_quiet [OF quiet_local_stat])
      (auto intro!: io_ends_rules simp: still_def)
qed

lemma resumes_checked_twice:
  assumes "reading src" "\<not> reading dst"
  shows "resumes src dst (\<lambda>offset. io_bind (validateRemoteResumeSource w p info) (\<lambda>_.
    io_bind (validateLocalResumeTarget w q offset) (\<lambda>_. seekBoth w src dst offset)))"
proof -
  have "io_ends (io_bind (validateRemoteResumeSource w p info) (\<lambda>_. validateLocalResumeTarget w q offset)) s
      (\<lambda>_. kept s) (kept s)" for offset s
    by (intro io_ends_bind io_ends_conseq [OF checks_keep(2)] io_ends_conseq [OF checks_keep(3)])
      (auto simp: kept_def)
  from resumes_checked [OF assms this] show ?thesis by (simp add: io_bind_assoc)
qed

lemma runUpload_transfers:
  assumes "content s = all" "target s = old" "length all < n"
  shows "transfers (runUpload n w) all old s"
proof -
  let ?st = "tf_state (wk_item w s)"
  have "transfers (io_bind (io_error (errorf_wrap ''open local file: '') (io_call (lo_Open w (ts_LocalPath ?st)))) (\<lambda>source.
     deferred_close w source (
       io_bind (io_error (errorf_wrap ''stat local file: '') (io_call (wk_FStat w source))) (\<lambda>sourceInfo.
       io_bind (io_error (errorf_wrap ''create remote file: '') (io_call (re_Create w (ts_RemotePath ?st)))) (\<lambda>target.
       deferred_close w target (
         io_bind (report w (FileTotal (sint (fi_Size sourceInfo)))) (\<lambda>_.
           copyWithProgress n
             (file_copy w source target (\<lambda>done. report w (ProgressBytes done))
               (\<lambda>done. waitIfPaused w done
                 (io_bind (validateLocalResumeSource w (ts_LocalPath ?st) sourceInfo) (\<lambda>_.
                   seekBoth w source target done))))
             (ts_TotalBytes ?st)))))))) all old s"
    by (rule transfers_open [OF disjI1 [OF refl] assms(1,2)], rule ends_deferred, rule transfers_quiet [OF quiet_fstat], assumption,
        rule transfers_create [OF disjI2 [OF refl]])
      (use assms(3) in \<open>auto simp: still_def kept_def intro!: transfers_copy resumes_checked checks_keep\<close>)
  then show ?thesis by (simp add: runUpload_def io_ends_def Let_def)
qed

lemma runDownload_transfers:
  assumes "content s = all" "target s = old" "length all < n"
  shows "transfers (runDownload n w) all old s"
proof -
  let ?st = "tf_state (wk_item w s)"
  have "transfers (io_bind (io_error (errorf_wrap ''stat remote file: '') (io_call (re_Stat w (ts_RemotePath ?st)))) (\<lambda>remoteInfo.
     io_bind (io_error (errorf_wrap ''open remote file: '') (io_call (re_Open w (ts_RemotePath ?st)))) (\<lambda>source.
     deferred_close w source (
       io_bind (io_error (errorf_wrap ''create local directory: '')
         (io_call (lo_MkdirAll w (path_Dir (ts_LocalPath ?st))))) (\<lambda>_.
       io_bind (io_error (errorf_wrap ''create local file: '') (io_call (lo_Create w (ts_LocalPath ?st)))) (\<lambda>target.
       deferred_close w target (
         io_bind (report w (FileTotal (sint (fi_Size remoteInfo)))) (\<lambda>_.
           copyWithProgress n
             (file_copy w source target (\<lambda>done. report w (ProgressBytes done))
               (\<lambda>done. waitIfPaused w done
                 (io_bind (validateRemoteResumeSource w (ts_RemotePath ?st) remoteInfo) (\<lambda>_.
                  io_bind (validateLocalResumeTarget w (ts_LocalPath ?st) done) (\<lambda>_.
                    seekBoth w source target done)))))
             (ts_TotalBytes ?st))))))))) all old s"
    by (rule transfers_quiet [OF quiet_remote_stat assms(2)], rule transfers_open [OF disjI2 [OF refl]],
        (simp add: still_def kept_def assms)+, rule ends_deferred, rule transfers_quiet [OF quiet_mkdir], assumption,
        rule transfers_create [OF disjI1 [OF refl]])
      (use assms(3) in \<open>auto simp: still_def kept_def intro!: transfers_copy resumes_checked_twice\<close>)
  then show ?thesis by (simp add: runDownload_def io_ends_def Let_def)
qed

end

section \<open>A disk and a user\<close>

text \<open>
  Two open files, a source and a target, with their positions. A read delivers as much as the
  schedule says, and the end of the file with the last bytes or after them. After each write the
  user may pause or cancel the transfer; once it waits, the user resumes or cancels it.
\<close>

datatype press = NoPress | PressPause | PressCancel

record disk =
  dk_item :: transfer
  dk_source :: string
  dk_rpos :: nat
  dk_target :: string
  dk_wpos :: nat
  dk_reads :: "nat list"
  dk_eager :: bool
  dk_presses :: "press list"
  dk_clock :: int

definition ErrEOF :: goerr where
  "ErrEOF = GoErr \<lparr>node_text = ''EOF'', node_kind = KEOF, node_fingerprints = None, node_timeout = None\<rparr> []"

definition next_press :: "disk \<Rightarrow> disk" where
  "next_press d =
     (case dk_presses d of
        [] \<Rightarrow> d
      | p # ps \<Rightarrow> d\<lparr>dk_presses := ps,
          dk_item := (case p of NoPress \<Rightarrow> dk_item d
            | PressPause \<Rightarrow> fst (PauseTransfer (dk_item d))
            | PressCancel \<Rightarrow> CancelTransfer (dk_item d))\<rparr>)"

definition disk_read :: "nat \<Rightarrow> disk \<Rightarrow> (string \<times> goerr option) \<times> disk" where
  "disk_read k d =
     (let n = (case dk_reads d of [] \<Rightarrow> k | r # _ \<Rightarrow> max 1 (min r k));
          data = take n (drop (dk_rpos d) (dk_source d));
          d' = d\<lparr>dk_rpos := dk_rpos d + length data, dk_reads := tl (dk_reads d),
                 dk_clock := dk_clock d + 1\<rparr>
      in ((data, if data = [] \<or> dk_eager d \<and> dk_rpos d' \<ge> length (dk_source d) then Some ErrEOF else None), d'))"

definition disk_write :: "string \<Rightarrow> disk \<Rightarrow> disk" where
  "disk_write data d =
     next_press (d\<lparr>dk_target := take (dk_wpos d) (dk_target d) @ data @ drop (dk_wpos d + length data) (dk_target d),
                    dk_wpos := dk_wpos d + length data\<rparr>)"

definition disk_info :: "disk \<Rightarrow> StatInfo" where
  "disk_info d = \<lparr>fi_Name = ''f'', fi_Size = of_nat (length (dk_source d)), fi_IsDir = False,
     fi_Symlink = False, fi_ModTime = 0\<rparr>"

definition disk_ctx :: "(disk, goerr, unit) call" where
  "disk_ctx d = (if tf_canceled (dk_item d) then Inl ErrCanceled else Inr (), d)"

definition disk_block :: "nat \<Rightarrow> (disk, goerr, unit) call" where
  "disk_block ch d =
     (let d = next_press d
      in if tf_canceled (dk_item d) then (Inl ErrCanceled, d)
         else (Inr (), d\<lparr>dk_item := fst (ResumeTransfer (dk_item d))\<rparr>))"

text \<open>
  A local directory with two files. Handle 0 is the source, handle 1 the target; creating the target
  empties it.
\<close>

definition disk_tree :: "disk local_fs" where
  "disk_tree =
     (let entry = (\<lambda>name. \<lparr>de_Name = name, de_IsDir = False, de_Symlink = False, de_Info = None\<rparr>)
      in \<lparr>lf_Lstat = (\<lambda>p d. (Inr (if p = ''/home/u/d'' then dir_info ''d'' else file_info ''n''), d)),
          lf_ReadDir = (\<lambda>p d. (([entry ''n'', entry ''m''], None), d)), lf_ctx_Err = disk_ctx\<rparr>)"

definition disk_work :: "disk work" where
  "disk_work =
     \<lparr>wk_ctx = disk_ctx, wk_now = dk_clock, wk_item = dk_item, wk_set_item = (\<lambda>item d. d\<lparr>dk_item := item\<rparr>),
      wk_fresh = (\<lambda>_. 0), wk_block = disk_block, wk_cwd = Inr ''/'',
      wk_local = disk_tree,
      wk_remote = \<lparr>cl_ReadDir = (\<lambda>p d. (Inr [], d)), cl_Lstat = (\<lambda>p d. (Inr (file_info p), d)),
        cl_Remove = (\<lambda>p d. (Inr (), d)), cl_RemoveDirectory = (\<lambda>p d. (Inr (), d)), ctx_Err = disk_ctx,
        em_Error = (\<lambda>e d. d)\<rparr>,
      wk_Read = (\<lambda>h. disk_read), wk_Write = (\<lambda>h data d. (Inr (), disk_write data d)),
      wk_Seek = (\<lambda>h offset d. (Inr (), if h = 0 then d\<lparr>dk_rpos := nat offset\<rparr> else d\<lparr>dk_wpos := nat offset\<rparr>)),
      wk_Close = (\<lambda>h d. (Inr (), d)), wk_FStat = (\<lambda>h d. (Inr (disk_info d), d)),
      lo_Open = (\<lambda>p d. (Inr 0, d\<lparr>dk_rpos := 0\<rparr>)), lo_Create = (\<lambda>p d. (Inr 1, d\<lparr>dk_target := [], dk_wpos := 0\<rparr>)),
      lo_Stat = (\<lambda>p d. (Inr (disk_info d), d)), lo_MkdirAll = (\<lambda>p d. (Inr (), d)),
      re_Stat = (\<lambda>p d. (Inr ((disk_info d)\<lparr>fi_IsDir := p = ''/srv/d''\<rparr>), d)), re_Open = (\<lambda>p d. (Inr 0, d\<lparr>dk_rpos := 0\<rparr>)),
      re_Create = (\<lambda>p d. (Inr 1, d\<lparr>dk_target := [], dk_wpos := 0\<rparr>)), re_Mkdir = (\<lambda>p d. (Inr (), d)),
      wk_fail = (\<lambda>operation err d. d)\<rparr>"

lemma next_press_keeps [simp]:
  "dk_source (next_press d) = dk_source d" "dk_rpos (next_press d) = dk_rpos d"
  "dk_target (next_press d) = dk_target d" "dk_wpos (next_press d) = dk_wpos d"
  by (simp_all add: next_press_def split: list.split)

text \<open>The positions of the two files, and the promises of this world.\<close>

definition disk_position :: "disk \<Rightarrow> nat \<Rightarrow> nat" where
  "disk_position d h = (if h = 0 then dk_rpos d else dk_wpos d)"

lemmas disk_work_defs = disk_work_def disk_ctx_def disk_block_def disk_position_def disk_write_def leaves_files_def Let_def

lemma disk_reads:
  assumes "disk_read k d = ((data, e), t)"
  shows "prefix data (drop (dk_rpos d) (dk_source d))" "dk_rpos t = dk_rpos d + length data"
    "dk_source t = dk_source d" "dk_target t = dk_target d" "dk_wpos t = dk_wpos d"
    "k > 0 \<Longrightarrow> is_EOF e \<Longrightarrow> length (dk_source d) \<le> dk_rpos t" "k > 0 \<Longrightarrow> data = [] \<Longrightarrow> e \<noteq> None"
  using assms
  by (auto simp: disk_read_def Let_def take_is_prefix is_EOF_def ErrEOF_def errors_Is_def split: list.splits if_splits)

interpretation disk: file_world disk_work dk_source dk_target disk_position "\<lambda>h. h = 0"
proof unfold_locales
  fix h k s data e t
  assume h: "h = (0 :: nat)" and r: "wk_Read disk_work h k s = ((data, e), t)"
  then have d: "disk_read k s = ((data, e), t)" by (simp add: disk_work_def)
  show "dk_source t = dk_source s \<and> dk_target t = dk_target s \<and>
      (\<forall>j. j \<noteq> 0 \<longrightarrow> disk_position t j = disk_position s j) \<and>
      prefix data (drop (disk_position s h) (dk_source s)) \<and> disk_position t h = disk_position s h + length data"
    using disk_reads(1-5) [OF d] by (simp add: h disk_position_def)
  show "(is_EOF e \<longrightarrow> length (dk_source s) \<le> disk_position t h) \<and> (data = [] \<longrightarrow> e \<noteq> None)" if "0 < k"
    using disk_reads(6,7) [OF d that] by (simp add: h disk_position_def)
qed (auto simp: disk_work_defs split: if_splits)

text \<open>
  The same world with a limit for the target and a connection that is lost at the end: a write above
  the limit stores what fits and fails, and so does every close.
\<close>

definition full_work :: "nat \<Rightarrow> disk work" where
  "full_work limit = disk_work
     \<lparr>wk_Write := (\<lambda>h data d.
        if length (dk_target d) + length data \<le> limit then (Inr (), disk_write data d)
        else (Inl (errors_New ''no space left''), disk_write (take (limit - length (dk_target d)) data) d)),
      wk_Close := (\<lambda>h d. (Inl (errors_New ''connection lost''), d))\<rparr>"

interpretation full: file_world "full_work limit" dk_source dk_target disk_position "\<lambda>h. h = 0" for limit
proof unfold_locales
  fix h k s data e t
  assume h: "h = (0 :: nat)" and r: "wk_Read (full_work limit) h k s = ((data, e), t)"
  then have d: "wk_Read disk_work h k s = ((data, e), t)" by (simp add: full_work_def)
  show "dk_source t = dk_source s \<and> dk_target t = dk_target s \<and>
      (\<forall>j. j \<noteq> 0 \<longrightarrow> disk_position t j = disk_position s j) \<and>
      prefix data (drop (disk_position s h) (dk_source s)) \<and> disk_position t h = disk_position s h + length data"
    by (rule disk.reads [OF h d])
  show "(is_EOF e \<longrightarrow> length (dk_source s) \<le> disk_position t h) \<and> (data = [] \<longrightarrow> e \<noteq> None)" if "0 < k"
    by (rule disk.reads_end [OF h that d])
qed (auto simp: full_work_def disk_work_defs take_is_prefix split: if_splits)

interpretation disk_copy: copy_files
  "file_copy disk_work 0 1 (\<lambda>done. report disk_work (ProgressBytes done))
     (\<lambda>done. waitIfPaused disk_work done (io_bind (validateLocalResumeSource disk_work path info) (\<lambda>_. seekBoth disk_work 0 1 done)))"
  "disk.unread 0" dk_target "disk.copies_to all 1" all for path info all
  by (intro disk.file_copy_copies disk.resumes_checked disk.checks_keep) simp_all

text \<open>
  C12: A transfer of one file copies it, in either direction, in every world whose reads deliver the next
  bytes of the source, whose successful writes have stored their bytes, and where nobody else changes the
  two files: with fuel above the length of the source the call returns, whatever sizes the reads have, whichever calls fail and however often the user pauses and
  resumes; the target is then as it was or a prefix of the source, and without an error it is the
  source. A server that loses stored bytes in a failing close breaks that promise, and the code
  does not notice: it does not look at the error of closing the target.
\<close>

theorem transfer_copies:
  assumes "file_world w content target position reading"
    and "m = runUpload n w \<or> m = runDownload n w" "length (content s) < n"
  shows "\<exists>r t. m s = Some (r, t) \<and> (target t = target s \<or> prefix (target t) (content s)) \<and>
    (r = Inr () \<longrightarrow> target t = content s)"
proof -
  have "io_ends m s (\<lambda>_ t. target t = content s) (\<lambda>t. target t = target s \<or> prefix (target t) (content s))"
    using assms(2) file_world.runUpload_transfers [OF assms(1) refl refl assms(3)]
      file_world.runDownload_transfers [OF assms(1) refl refl assms(3)] by blast
  then obtain r t where "m s = Some (r, t)"
    "case r of Inl e \<Rightarrow> target t = target s \<or> prefix (target t) (content s) | Inr x \<Rightarrow> target t = content s"
    unfolding io_ends_def by blast
  then show ?thesis by (intro exI [of _ r] exI [of _ t]) (auto split: sum.splits)
qed

section \<open>Every file of a plan is counted\<close>

definition file_counts :: "transfer \<Rightarrow> int \<times> int" where
  "file_counts item = (ts_FilesTotal (tf_state item), ts_FilesDone (tf_state item))"

definition call_keeps :: "'s work \<Rightarrow> ('s \<Rightarrow> 'a \<times> 's) \<Rightarrow> bool" where
  "call_keeps w f \<longleftrightarrow> (\<forall>s r t. f s = (r, t) \<longrightarrow> file_counts (wk_item w t) = file_counts (wk_item w s))"

lemma io_bind_update: "io_bind (io_update f) g s = g () (f s)"
  by (simp add: io_bind_def io_update_def)

text \<open>Code that chooses what to do by the state.\<close>

lemma io_keeps_choose:
  assumes "\<And>s. I s \<Longrightarrow> \<exists>m t. f s = m t \<and> I t \<and> io_keeps I m"
  shows "io_keeps I f"
  unfolding io_keeps_def io_triple_def
proof (intro allI impI)
  fix s assume "I s"
  then obtain m t where "f s = m t" "I t" "io_keeps I m" using assms by blast
  then show "case f s of None \<Rightarrow> True | Some (Inl e, t) \<Rightarrow> I t | Some (Inr x, t) \<Rightarrow> I t"
    by (simp add: io_keeps_def io_triple_def)
qed

text \<open>
  No call of the system, and nothing the window does meanwhile, changes how many files a transfer
  has and how many are done.
\<close>

locale counted_work =
  fixes w :: "'s work"
  assumes item_set: "wk_item w (wk_set_item w item s) = item"
    and ctx_counts: "call_keeps w (wk_ctx w)"
    and block_counts: "call_keeps w (wk_block w ch)"
    and read_counts: "call_keeps w (wk_Read w h k)"
    and write_counts: "call_keeps w (wk_Write w h data)"
    and seek_counts: "call_keeps w (wk_Seek w h offset)"
    and close_counts: "call_keeps w (wk_Close w h)"
    and fstat_counts: "call_keeps w (wk_FStat w h)"
    and open_counts: "call_keeps w (lo_Open w p)" "call_keeps w (re_Open w p)"
    and create_counts: "call_keeps w (lo_Create w p)" "call_keeps w (re_Create w p)"
    and stat_counts: "call_keeps w (lo_Stat w p)" "call_keeps w (re_Stat w p)" "call_keeps w (lo_Lstat w p)"
    and mkdir_counts: "call_keeps w (lo_MkdirAll w p)" "call_keeps w (re_Mkdir w p)"
begin

definition counted :: "int \<times> int \<Rightarrow> 's \<Rightarrow> bool" where
  "counted k s \<longleftrightarrow> file_counts (wk_item w s) = k"

lemma keeps_call: "call_keeps w f \<Longrightarrow> io_keeps (counted k) (io_call f)"
  by (rule io_keeps_call) (simp add: counted_def call_keeps_def)

lemma keeps_state: "call_keeps w f \<Longrightarrow> io_keeps (counted k) (io_state f)"
  by (auto simp: io_keeps_def io_triple_def io_state_def counted_def call_keeps_def split: prod.split)

lemmas keeps_calls = ctx_counts [THEN keeps_call] block_counts [THEN keeps_call] write_counts [THEN keeps_call]
  seek_counts [THEN keeps_call] close_counts [THEN keeps_call] fstat_counts [THEN keeps_call]
  open_counts [THEN keeps_call] create_counts [THEN keeps_call] stat_counts [THEN keeps_call]
  mkdir_counts [THEN keeps_call] read_counts [THEN keeps_state]

lemma wait_counts:
  "file_counts (fst (wait_enter fresh offset item)) = file_counts item"
  "file_counts (wait_leave item) = file_counts item"
  by (simp_all add: file_counts_def wait_enter_def wait_leave_def updateTransfer_def applyTransferControls_def Let_def)

lemma report_counts:
  "counted (tt, d) s \<Longrightarrow>
   (case p of PlanApplied root bytes files skipped \<Rightarrow> counted (int files, 0)
     | FileFinished name done \<Rightarrow> counted (tt, d + 1)
     | FileSkipped name counts \<Rightarrow> counted (tt, if counts then d + 1 else d)
     | FileFailed name err counts \<Rightarrow> counted (tt, if counts then d + 1 else d)
     | _ \<Rightarrow> counted (tt, d)) (wk_set_item w (updateTransfer (progress_state p) (wk_item w s)) s)"
  by (cases p) (auto simp: counted_def file_counts_def item_set updateTransfer_def applyTransferControls_def
      Let_def split: option.split)

lemma keeps_report:
  "io_keeps (counted k) (report w (ProgressBytes n))" "io_keeps (counted k) (report w (FileTotal n))"
  "io_keeps (counted k) (report w (NewFile n))" "io_keeps (counted k) (report w (FileBytes n))"
  "io_keeps (counted k) (report w (CurrentFile name))" "io_keeps (counted k) (report w (RecursiveBytes n))"
  "io_keeps (counted k) (report w (FileFailed name err False))"
  unfolding report_def using report_counts by (cases k; force intro!: io_keeps_update split: progress.splits)+

lemma keeps_wait: "io_keeps (counted k) m \<Longrightarrow> io_keeps (counted k) (waitIfPaused w offset m)"
proof -
  assume m: "io_keeps (counted k) m"
  have set: "io_keeps (counted k) (io_update (\<lambda>s. wk_set_item w (wait_leave (wk_item w s)) s))"
    by (rule io_keeps_update) (simp add: counted_def item_set wait_counts)
  have rest: "io_keeps (counted k) (io_bind (io_call (wk_block w ch)) (\<lambda>_. io_bind m (\<lambda>_.
      io_bind (io_update (\<lambda>s. wk_set_item w (wait_leave (wk_item w s)) s)) (\<lambda>_. io_call (wk_ctx w)))))" for ch
    by (intro io_keeps_bind keeps_calls m set)
  show ?thesis
  proof (rule io_keeps_choose)
    fix s assume s: "counted k s"
    obtain item ch where enter: "wait_enter (wk_fresh w s) offset (wk_item w s) = (item, ch)" by force
    have "counted k (wk_set_item w item s)"
      using s wait_counts(1) [of "wk_fresh w s" offset "wk_item w s"] by (simp add: enter counted_def item_set)
    moreover have "waitIfPaused w offset m s =
        (case ch of None \<Rightarrow> io_call (wk_ctx w) s
         | Some c \<Rightarrow> io_bind (io_call (wk_block w c)) (\<lambda>_. io_bind m (\<lambda>_.
             io_bind (io_update (\<lambda>s. wk_set_item w (wait_leave (wk_item w s)) s)) (\<lambda>_. io_call (wk_ctx w))))
             (wk_set_item w item s))"
      by (simp add: waitIfPaused_def enter io_bind_update split: option.split)
    ultimately show "\<exists>m' t. waitIfPaused w offset m s = m' t \<and> counted k t \<and> io_keeps (counted k) m'"
      using s keeps_calls(1) [of k] rest by (cases ch) (simp, blast)+
  qed
qed

text \<open>Everything but the reports of a finished, skipped or failed file keeps the counts.\<close>

lemma keeps_or_stop: "io_keeps I m \<Longrightarrow> io_keeps I rest \<Longrightarrow> io_keeps I (or_stop n m rest)"
  unfolding or_stop_def by (rule io_keeps_bind [OF io_keeps_try]) (simp_all split: sum.split)

lemma keeps_emit:
  assumes "\<And>n. io_keeps I (ci_update c n)"
  shows "io_keeps I (emit_progress c bytes written lastEmit)"
proof -
  have "io_keeps I (\<lambda>s. io_return (ci_now c s) s)"
    by (auto simp: io_keeps_def io_triple_def io_return_def)
  then have "io_keeps I (io_bind (ci_update c written) (\<lambda>_. \<lambda>s. io_return (ci_now c s) s))"
    using assms by (intro io_keeps_bind)
  then show ?thesis
    by (auto simp: io_keeps_def io_triple_def emit_progress_def io_return_def)
qed

lemma keeps_copy_count:
  fixes c :: "'b copy_io"
  assumes "\<And>n. io_keeps I (ci_update c n)" "\<And>n. io_keeps I (pause_check c n)" "io_keeps I (io_call (ci_ctx c))"
    "\<And>data. io_keeps I (io_call (ci_Write c data))" "\<And>k. io_keeps I (io_state (ci_Read c k) :: ('b, goerr, string \<times> goerr option) io)"
  shows "io_keeps I (copy_count n c bytes written lastEmit)"
proof (induction n arbitrary: written lastEmit)
  case (Suc n)
  have "io_keeps I (count_chunk c bytes (copy_count n c bytes) written lastEmit x)" for x
    by (cases x)
      (auto simp: count_chunk_def Let_def Suc.IH intro!: keeps_or_stop io_keeps_bind assms keeps_emit
        split: option.split)
  then show ?case
    using assms unfolding copy_count.simps by (intro keeps_or_stop io_keeps_bind)
qed simp

lemma keeps_file_copy:
  assumes "\<And>n. io_keeps (counted k) (update n)" "\<And>n. io_keeps (counted k) (pause n)"
  shows "io_keeps (counted k) (copyWithProgressCountPause n (file_copy w source target update pause) bytes)"
proof (rule io_keeps_choose)
  fix s assume "counted k s"
  let ?c = "file_copy w source target update pause"
  have "io_keeps (counted k) (copy_count n ?c bytes 0 (ci_now ?c s))"
    by (rule keeps_copy_count) (use assms keeps_calls in \<open>simp_all add: file_copy_def pause_check_def\<close>)
  then show "\<exists>m t. copyWithProgressCountPause n ?c bytes s = m t \<and> counted k t \<and> io_keeps (counted k) m"
    using \<open>counted k s\<close> unfolding copyWithProgressCountPause_def by blast
qed

lemma keeps_close:
  "io_keeps (counted k) m \<Longrightarrow> io_keeps (counted k) (deferred_close w h m)"
  "io_keeps (counted k) (close_target w h res)"
  by (auto simp: deferred_close_def close_target_def intro!: io_keeps_bind io_keeps_try keeps_calls
      split: sum.split prod.split)

lemma keeps_or_failed: "io_keeps (counted k) m \<Longrightarrow> io_keeps (counted k) (or_failed m)"
  unfolding or_failed_def by (intro io_keeps_bind io_keeps_try) simp_all

lemma keeps_validate:
  "io_keeps (counted k) (validateLocalResumeSource w path info)"
  "io_keeps (counted k) (validateRemoteResumeSource w path info)"
  "io_keeps (counted k) (validateLocalResumeTarget w path offset)"
  "io_keeps (counted k) (seekBoth w source target offset)"
  by (auto simp: validateLocalResumeSource_def validateRemoteResumeSource_def validate_source_def
      validateLocalResumeTarget_def seekBoth_def intro!: io_keeps_bind io_keeps_error keeps_calls)

lemma keeps_planned:
  assumes "\<And>n. io_keeps (counted k) (update n)" "\<And>n a b i. io_keeps (counted k) (pause n a b i)"
  shows "io_keeps (counted k) (uploadPlannedFile n w p q bytes update pause)"
    and "io_keeps (counted k) (downloadPlannedFile n w p q bytes update pause)"
  unfolding uploadPlannedFile_def downloadPlannedFile_def
  by (intro keeps_or_failed io_keeps_bind io_keeps_error keeps_calls keeps_close keeps_file_copy assms)+

lemma keeps_remote_candidates: "io_keeps (counted k) (remote_candidates w p is)"
  by (induction "is") (auto intro!: io_keeps_bind io_keeps_try keeps_calls split: sum.split)

lemma keeps_local_candidates:
  "(\<And>p. call_keeps w (stat p)) \<Longrightarrow> io_keeps (counted k) (local_candidates stat p is)"
  by (induction "is") (auto intro!: io_keeps_bind io_keeps_try keeps_call split: sum.split)

lemma keeps_conflict:
  "io_keeps (counted k) (resolveRemoteConflict w p policy)"
  "io_keeps (counted k) (resolveLocalConflictNoSymlink w p policy)"
  by (auto simp: resolveRemoteConflict_def resolveLocalConflictNoSymlink_def local_policy_def
      intro!: io_keeps_bind io_keeps_try keeps_calls keeps_remote_candidates keeps_local_candidates stat_counts
      split: sum.split SFTPConflictPolicy.split)

lemma keeps_directory: "io_keeps (counted k) (ensureRemoteDirectory w p)"
  by (auto simp: ensureRemoteDirectory_def intro!: io_keeps_bind io_keeps_try keeps_calls split: sum.split)

lemma keeps_no_symlink_below: "io_keeps (counted k) (no_symlink_below w p parts)"
  by (induction parts arbitrary: p)
    (auto simp: Let_def intro!: io_keeps_bind io_keeps_try keeps_calls split: sum.split)

lemma keeps_no_symlink: "io_keeps (counted k) (ensureNoSymlinkInPath w root p)"
  by (auto simp: ensureNoSymlinkInPath_def intro!: io_keeps_bind io_keeps_try keeps_calls
      keeps_no_symlink_below split: sum.split)

text \<open>The reports that end a file count it, the others do not.\<close>

abbreviation takes :: "int \<times> int \<Rightarrow> ('s, goerr, 'a) io \<Rightarrow> int \<times> int \<Rightarrow> bool" where
  "takes k m k' \<equiv> io_triple (counted k) m (\<lambda>_. counted k') (\<lambda>_. True)"

lemma takes_keeps: "io_keeps (counted k) m \<Longrightarrow> takes k m k"
  unfolding io_keeps_def by (erule io_triple_conseq) simp_all

lemma takes_step: "io_keeps (counted k) m \<Longrightarrow> (\<And>x. takes k (f x) k') \<Longrightarrow> takes k (io_bind m f) k'"
  using takes_keeps by (rule io_triple_bind)

lemma takes_return: "takes k (io_return x) k"
  by (simp add: io_triple_return)

lemma takes_report:
  "takes (tt, d) (report w (FileFinished name bytes)) (tt, d + 1)"
  "takes (tt, d) (report w (FileSkipped name True)) (tt, d + 1)"
  "takes (tt, d) (report w (FileFailed name err True)) (tt, d + 1)"
  unfolding report_def by (rule io_triple_update; drule report_counts; force split: progress.splits)+

lemma takes_report_return:
  "takes k (report w p) k' \<Longrightarrow> takes k (io_bind (report w p) (\<lambda>_. io_return x)) k'"
  by (erule io_triple_bind) (rule takes_return)

lemma takes_after_copy: "takes (tt, d) (after_copy w name bytes res) (tt, d + 1)"
proof -
  have "io_keeps (counted k) (ctx_done w)" for k
    by (auto simp: ctx_done_def intro!: io_keeps_bind io_keeps_try keeps_calls)
  then show ?thesis
    by (auto simp: after_copy_def io_triple_throw split: prod.split option.split
        intro!: takes_report_return takes_report takes_step)
qed

lemma keeps_progress: "io_keeps (counted k) (file_progress w bytes done)"
  by (auto simp: file_progress_def intro!: io_keeps_bind keeps_report)

lemma takes_file:
  "takes (tt, d) (upload_file n w policy bytes file) (tt, d + 1)"
  "takes (tt, d) (download_file n w root policy bytes file) (tt, d + 1)"
  unfolding upload_file_def download_file_def
  by (intro takes_step io_keeps_try io_keeps_bind keeps_calls keeps_wait io_keeps_simps keeps_report keeps_conflict
      keeps_no_symlink;
      auto split: sum.split intro!: takes_report_return takes_report takes_step keeps_report keeps_planned
      keeps_progress keeps_wait io_keeps_bind keeps_validate takes_after_copy)+

lemma takes_each_file:
  assumes "\<And>d bytes file. takes (tt, d) (m bytes file) (tt, d + 1)"
  shows "takes (tt, d) (each_file m bytes files) (tt, d + int (length files))"
proof (induction files arbitrary: d bytes)
  case (Cons f files)
  have "takes (tt, d) (each_file m bytes (f # files)) (tt, d + 1 + int (length files))"
    unfolding each_file.simps by (rule io_triple_bind, rule assms, rule Cons.IH)
  then show ?case by (simp add: ac_simps)
qed (simp add: takes_return)

lemma keeps_count_failure: "io_keeps (counted k) m \<Longrightarrow> io_keeps (counted k) (or_count_failure w name False m)"
  by (auto simp: or_count_failure_def intro!: io_keeps_bind io_keeps_try keeps_report split: sum.split)

lemma keeps_directories:
  "io_keeps (counted k) (make_remote_directories w ds)"
  "io_keeps (counted k) (make_local_directories w root ds)"
  by (induction ds) (auto intro!: io_keeps_bind keeps_calls keeps_count_failure keeps_directory keeps_no_symlink)

lemma applies_plan:
  "io_triple (\<lambda>_. True) (applyRecursivePlan w plan) (\<lambda>_. counted (int (length (pl_Files plan)), 0)) (\<lambda>_. True)"
proof -
  have "counted (int files, 0)
      (wk_set_item w (updateTransfer (progress_state (PlanApplied root bytes files skipped)) (wk_item w s)) s)"
    for root bytes files skipped s
    using report_counts [of "fst (file_counts (wk_item w s))" "snd (file_counts (wk_item w s))" s
        "PlanApplied root bytes files skipped"]
    by (simp add: counted_def)
  then show ?thesis
    unfolding applyRecursivePlan_def report_def by (rule io_triple_update)
qed

text \<open>A planned transfer that ends without an error has seen every file of its plan.\<close>

lemma planned_run:
  assumes "\<And>k. io_keeps (counted k) (dirs (pl_Directories plan))"
    and "\<And>tt d bytes file. takes (tt, d) (step bytes file) (tt, d + 1)"
  shows "io_triple (\<lambda>_. True)
    (io_bind (applyRecursivePlan w plan) (\<lambda>_. io_bind (dirs (pl_Directories plan)) (\<lambda>_.
       io_bind (each_file step 0 (pl_Files plan)) (\<lambda>_. report w (CurrentFile [])))))
    (\<lambda>_ s. fst (file_counts (wk_item w s)) = snd (file_counts (wk_item w s))) (\<lambda>_. True)"
proof -
  let ?n = "int (length (pl_Files plan))"
  have "takes (?n, 0) (io_bind (dirs (pl_Directories plan)) (\<lambda>_.
      io_bind (each_file step 0 (pl_Files plan)) (\<lambda>_. report w (CurrentFile [])))) (?n, ?n)"
    by (rule takes_step, rule assms, rule io_triple_bind [where R = "\<lambda>_. counted (?n, ?n)"])
      (use takes_each_file [of ?n step 0 0 "pl_Files plan"] assms(2) in \<open>auto intro: takes_keeps keeps_report\<close>)
  then show ?thesis
    by (rule io_triple_conseq [OF io_triple_bind [OF applies_plan]]) (auto simp: counted_def)
qed

lemma run_counts_all:
  assumes "m s0 = Some (Inr (), t)" "m = runDirectoryUpload n w \<or> m = runDirectoryDownload n w"
  shows "fst (file_counts (wk_item w t)) = snd (file_counts (wk_item w t))"
proof -
  let ?Q = "\<lambda>_ t. fst (file_counts (wk_item w t)) = snd (file_counts (wk_item w t))"
  have any: "io_triple P p (\<lambda>_ _. True) (\<lambda>_. True)" for P and p :: "('s, goerr, RecursiveTransferPlan) io"
    by (simp add: io_triple_def split: option.split sum.split)
  from assms(2) have "io_triple (\<lambda>s. s = s0) m ?Q (\<lambda>_. True)"
  proof
    assume m: "m = runDirectoryUpload n w"
    have "io_triple (\<lambda>_. True) (io_bind p (\<lambda>plan.
        io_bind (applyRecursivePlan w plan) (\<lambda>_.
        io_bind (make_remote_directories w (pl_Directories plan)) (\<lambda>_.
        io_bind (each_file (upload_file n w policy) 0 (pl_Files plan)) (\<lambda>_.
          report w (CurrentFile [])))))) ?Q (\<lambda>_. True)" for p policy
      by (rule io_triple_bind, rule any, rule planned_run) (simp_all add: keeps_directories takes_file)
    then show ?thesis unfolding m runDirectoryUpload_def io_triple_def Let_def by blast
  next
    assume m: "m = runDirectoryDownload n w"
    have "io_triple (\<lambda>_. True) (io_bind p (\<lambda>plan.
        io_bind (applyRecursivePlan w plan) (\<lambda>_.
        io_bind (make_local_directories w root (pl_Directories plan)) (\<lambda>_.
        io_bind (each_file (download_file n w root policy) 0 (pl_Files plan)) (\<lambda>_.
          report w (CurrentFile [])))))) ?Q (\<lambda>_. True)" for p policy root
      by (rule io_triple_bind, rule any, rule planned_run) (simp_all add: keeps_directories takes_file)
    then show ?thesis unfolding m runDirectoryDownload_def io_triple_def Let_def by blast
  qed
  from io_tripleD [OF this refl assms(1)] show ?thesis by simp
qed

end

lemma button_counts:
  "file_counts (fst (PauseTransfer item)) = file_counts item"
  "file_counts (fst (ResumeTransfer item)) = file_counts item"
  "file_counts (CancelTransfer item) = file_counts item"
  by (simp_all add: file_counts_def PauseTransfer_def ResumeTransfer_def CancelTransfer_def updateTransfer_def
      applyTransferControls_def Let_def)

lemma next_press_counts: "file_counts (dk_item (next_press d)) = file_counts (dk_item d)"
  by (simp add: next_press_def button_counts split: list.split press.split)

interpretation disk_count: counted_work disk_work
  by unfold_locales
    (auto simp: disk_work_def call_keeps_def disk_ctx_def disk_block_def disk_read_def disk_write_def
      lo_Lstat_def disk_tree_def Let_def next_press_counts button_counts split: if_splits)

text \<open>
  C14: A recursive transfer that ends without an error has counted every file of its plan, as
  uploaded or downloaded, as skipped, or as failed: no conflict, no failed file, no symbolic link and
  no pause loses one. This holds for any world whose calls leave the two counters alone.
\<close>

theorem recursive_transfer_counts:
  assumes "counted_work w"
    and "m = runDirectoryUpload n w \<or> m = runDirectoryDownload n w"
    and "m s = Some (Inr (), t)"
  shows "ts_FilesDone (tf_state (wk_item w t)) = ts_FilesTotal (tf_state (wk_item w t))"
  using counted_work.run_counts_all [OF assms(1,3,2)] by (simp add: file_counts_def)

section \<open>Running the code\<close>

text \<open>The code and the disk, on the state they get.\<close>

lemma copy_loop_run:
  "n > 0 \<Longrightarrow> copy_plain n c bytes written lastEmit s =
     io_bind (io_call (ci_ctx c)) (\<lambda>_. io_bind (io_state (ci_Read c transferBufferSize))
       (plain_chunk c bytes (copy_plain (n - 1) c bytes) written lastEmit)) s"
  "n > 0 \<Longrightarrow> copy_count n c bytes written lastEmit s =
     or_stop written (io_call (ci_ctx c)) (io_bind (io_state (ci_Read c transferBufferSize))
       (count_chunk c bytes (copy_count (n - 1) c bytes) written lastEmit)) s"
  "io_state f s = (case f s of (x, t) \<Rightarrow> Some (Inr x, t))"
  by (cases n; simp add: io_state_def)+

lemmas copy_defs = deferred_close_def plain_chunk_def pause_check_def report_def validateLocalResumeSource_def
  validate_source_def seekBoth_def runUpload_def copyWithProgress_def emit_progress_def waitIfPaused_def
  runDirectoryUpload_def upload_file_def or_failed_def uploadPlannedFile_def close_target_def after_copy_def
  ctx_done_def file_progress_def count_chunk_def or_stop_def copyWithProgressCountPause_def
  resolveRemoteConflict_def ensureRemoteDirectory_def applyRecursivePlan_def or_count_failure_def
  make_remote_directories.simps each_file.simps

lemmas copy_run = io_run copy_loop_run copy_defs [THEN fun_cong]

lemma disk_calls:
  "wk_ctx disk_work = disk_ctx" "wk_now disk_work = dk_clock" "wk_item disk_work = dk_item"
  "wk_set_item disk_work item d = d\<lparr>dk_item := item\<rparr>" "wk_fresh disk_work d = 0"
  "wk_block disk_work = disk_block" "wk_Read disk_work h = disk_read"
  "wk_Write disk_work h data d = (Inr (), disk_write data d)"
  "wk_Seek disk_work h offset d =
     (Inr (), if h = 0 then d\<lparr>dk_rpos := nat offset\<rparr> else d\<lparr>dk_wpos := nat offset\<rparr>)"
  "wk_Close disk_work h d = (Inr (), d)" "wk_FStat disk_work h d = (Inr (disk_info d), d)"
  "lo_Open disk_work p d = (Inr 0, d\<lparr>dk_rpos := 0\<rparr>)" "lo_Stat disk_work p d = (Inr (disk_info d), d)"
  "re_Stat disk_work p d = (Inr ((disk_info d)\<lparr>fi_IsDir := p = ''/srv/d''\<rparr>), d)"
  "re_Create disk_work p d = (Inr 1, d\<lparr>dk_target := [], dk_wpos := 0\<rparr>)"
  "re_Open disk_work p d = (Inr 0, d\<lparr>dk_rpos := 0\<rparr>)" "lo_MkdirAll disk_work p d = (Inr (), d)"
  "lo_Create disk_work p d = (Inr 1, d\<lparr>dk_target := [], dk_wpos := 0\<rparr>)"
  by (simp_all add: disk_work_def)

lemmas disk_run = disk_calls disk_ctx_def disk_block_def disk_read_def disk_write_def disk_info_def next_press_def
  transferBufferSize_def is_EOF_def errors_Is_def ErrEOF_def file_copy_def Let_def
  updateTransfer_def applyTransferControls_def PauseTransfer_def ResumeTransfer_def startTransfer_def
  start_state_def demo_session_def demo_request_def wait_enter_def wait_leave_def

section \<open>Two uploads\<close>

text \<open>
  The user pauses after the first write and resumes; the reads deliver two bytes, one byte, then the
  rest.
\<close>

definition demo_disk :: disk where
  "demo_disk =
     \<lparr>dk_item = updateTransfer (start_state ''t'') demo_transfer, dk_source = ''abcdef'', dk_rpos = 0,
      dk_target = [], dk_wpos = 0, dk_reads = [2, 1], dk_eager = True,
      dk_presses = [PressPause, NoPress], dk_clock = 0\<rparr>"

lemma demo_upload: "(case runUpload 7 disk_work demo_disk of Some (Inr u, t) \<Rightarrow> dk_presses t = [] | _ \<Rightarrow> False)"
  by (simp add: copy_run disk_run demo_disk_def cong: io_run_cong let_weak_cong)

lemma demo_download: "(case runDownload 7 disk_work demo_disk of Some (Inr u, t) \<Rightarrow> dk_presses t = [] | _ \<Rightarrow> False)"
  by (simp add: copy_run runDownload_def [THEN fun_cong] validateRemoteResumeSource_def [THEN fun_cong]
      validateLocalResumeTarget_def [THEN fun_cong] disk_run demo_disk_def cong: io_run_cong let_weak_cong)

text \<open>A target that is full after three bytes; the close fails as well.\<close>

lemma demo_full: "(case runUpload 7 (full_work 3) demo_disk of Some (Inl e, t) \<Rightarrow> dk_target t = ''abc'' | _ \<Rightarrow> False)"
  by (simp add: copy_run disk_run full_work_def demo_disk_def cong: io_run_cong let_weak_cong)

lemma transfer_copies_witness:
  "(\<exists>t. runUpload 7 disk_work demo_disk = Some (Inr (), t) \<and> dk_presses t = [] \<and> dk_target t = ''abcdef'') \<and>
   (\<exists>t. runDownload 7 disk_work demo_disk = Some (Inr (), t) \<and> dk_target t = ''abcdef'') \<and>
   (\<exists>r t. runUpload 7 (full_work 3) demo_disk = Some (r, t) \<and> prefix (dk_target t) ''abcdef'')"
proof -
  have src: "dk_source demo_disk = ''abcdef''" "dk_target demo_disk = []" by (simp_all add: demo_disk_def)
  obtain t where run: "runUpload 7 disk_work demo_disk = Some (Inr (), t)" "dk_presses t = []"
    using io_run_value [OF demo_upload] by auto
  then have "dk_target t = ''abcdef''"
    using transfer_copies [OF disk.file_world_axioms disjI1 [OF refl], of demo_disk 7] by (simp add: src)
  moreover obtain u where down: "runDownload 7 disk_work demo_disk = Some (Inr (), u)"
    using io_run_value [OF demo_download] by auto
  then have "dk_target u = ''abcdef''"
    using transfer_copies [OF disk.file_world_axioms disjI2 [OF refl], of demo_disk 7] by (simp add: src)
  moreover have "\<exists>r t. runUpload 7 (full_work 3) demo_disk = Some (r, t) \<and> prefix (dk_target t) ''abcdef''"
    using transfer_copies [OF full.file_world_axioms disjI1 [OF refl], of demo_disk 7 3] by (auto simp: src)
  ultimately show ?thesis using run down by blast
qed

definition demo_tree_disk :: disk where
  "demo_tree_disk = demo_disk\<lparr>dk_item := updateTransfer (start_state ''t'')
     (startTransfer ''id'' ''t'' demo_session SFTPTransferUpload
       (demo_request\<lparr>tq_LocalPath := ''/home/u/d'', tq_RemotePath := ''/srv/d''\<rparr>) 0 ''d'' ''directory'' True)\<rparr>"

lemma demo_plan:
  "PlanRecursiveUpload 7 (plan_local_fs disk_work) (wk_cwd disk_work) ''/home/u/d'' (parentRemotePath ''/srv/d'')
     demo_tree_disk =
   Some (Inr
     \<lparr>pl_Directories =
        [\<lparr>pe_RelativePath = ''.'', pe_LocalPath = ''/home/u/d'', pe_RemotePath = ''/srv/d'', pe_Size = 0\<rparr>],
      pl_Files =
        [\<lparr>pe_RelativePath = ''n'', pe_LocalPath = ''/home/u/d/n'', pe_RemotePath = ''/srv/d/n'', pe_Size = 7\<rparr>,
         \<lparr>pe_RelativePath = ''m'', pe_LocalPath = ''/home/u/d/m'', pe_RemotePath = ''/srv/d/m'', pe_Size = 7\<rparr>],
      pl_TotalBytes = 14, pl_SkippedCount = 0, pl_Warnings = []\<rparr>, demo_tree_disk)"
  by code_simp

lemma demo_tree_upload:
  "(case runDirectoryUpload 7 disk_work demo_tree_disk of
      Some (Inr u, t) \<Rightarrow> ts_FilesTotal (tf_state (dk_item t)) = 2 | _ \<Rightarrow> False)"
proof -
  have item: "ts_LocalPath (tf_state (dk_item demo_tree_disk)) = ''/home/u/d''"
    "ts_RemotePath (tf_state (dk_item demo_tree_disk)) = ''/srv/d''"
    "tf_conflictPolicy (dk_item demo_tree_disk) = SFTPConflictOverwrite"
    by (simp_all add: demo_tree_disk_def disk_run)
  show ?thesis
    by (simp add: item io_run runDirectoryUpload_def [THEN fun_cong] demo_plan [unfolded disk_calls] disk_calls Let_def
        cong: io_run_cong let_weak_cong)
      (simp add: demo_tree_disk_def demo_disk_def copy_run disk_run cong: io_run_cong let_weak_cong)
qed

lemma recursive_transfer_counts_witness:
  "\<exists>t. runDirectoryUpload 7 disk_work demo_tree_disk = Some (Inr (), t) \<and> ts_FilesDone (tf_state (dk_item t)) = 2"
proof -
  obtain t where run: "runDirectoryUpload 7 disk_work demo_tree_disk = Some (Inr (), t)"
      "ts_FilesTotal (tf_state (dk_item t)) = 2"
    using io_run_value [OF demo_tree_upload] by auto
  have "wk_item disk_work = dk_item" by (simp add: disk_work_def)
  then show ?thesis
    using recursive_transfer_counts
      [of disk_work "runDirectoryUpload 7 disk_work" 7 demo_tree_disk t, OF disk_count.counted_work_axioms _ run(1)] run(2)
    by (simp add: run(1))
qed

text \<open>
  Any error of the stat of the target is taken to mean that nothing is there, so a file whose stat
  fails is overwritten even when the user asked to be asked first.
\<close>

lemma resolveRemoteConflict_error:
  assumes "re_Stat w p s = (Inl err, t)"
  shows "resolveRemoteConflict w p policy s = Some (Inr (p, False), t)"
  using assms by (simp add: resolveRemoteConflict_def io_bind_def io_try_def io_call_def io_return_def)

text \<open>The error of closing the remote file is not the error of an upload.\<close>

lemma deferred_close_error:
  assumes "m s = Some (Inr x, t)" "wk_Close w h t = (Inl err, u)"
  shows "deferred_close w h m s = Some (Inr x, u)"
  using assms by (simp add: deferred_close_def io_bind_def io_try_def io_call_def io_return_def)

end
