(* ===== verification/GoNet.thy ===== *)
theory GoNet
  imports GoStrings "HOL-Library.Code_Target_Numeral"
begin

text \<open>
  What the program uses of the Go package \<open>net\<close>: \<open>ParseIP\<close>, the text of an address and
  \<open>IsLoopback\<close>. An address is its sixteen bytes, as \<open>ParseIP\<close> returns it; an
  IPv4 address is mapped to IPv6.
\<close>

section \<open>Reading an address\<close>

definition parse_octet :: "string \<Rightarrow> nat option" where
  "parse_octet s =
     (case ParseUint s 10 of
        Inr n \<Rightarrow> if n \<le> 255 \<and> (length s = 1 \<or> hd s \<noteq> CHR ''0'') then Some n else None
      | Inl _ \<Rightarrow> None)"

definition parse_ipv4 :: "string \<Rightarrow> nat list option" where
  "parse_ipv4 s =
     (case map parse_octet (Split s (CHR ''.'')) of
        [Some a, Some b, Some c, Some d] \<Rightarrow> Some [a, b, c, d]
      | _ \<Rightarrow> None)"

definition hex_digit :: "char \<Rightarrow> bool" where
  "hex_digit c = (case digit_val c of None \<Rightarrow> False | Some d \<Rightarrow> d < 16)"

definition hex_value :: "string \<Rightarrow> nat" where
  "hex_value s = foldl (\<lambda>acc c. acc * 16 + the (digit_val c)) 0 s"

text \<open>
  The loop of \<open>parseIPv6\<close>: the bytes so far, where the double colon was, and the rest of the
  text. Each turn adds two bytes, so it ends.
\<close>

function parse_ipv6_loop ::
  "nat list \<Rightarrow> nat option \<Rightarrow> string \<Rightarrow> (nat list \<times> nat option \<times> string) option" where
  "parse_ipv6_loop ip ellipsis s =
     (if length ip \<ge> 16 then Some (ip, ellipsis, s)
      else let digits = takeWhile hex_digit s; rest = dropWhile hex_digit s;
               n = hex_value digits; ip2 = ip @ [n div 256, n mod 256]
        in if digits = [] \<or> length digits > 4 then None
           else if HasPrefix rest ''.'' then
             (if ellipsis = None \<and> length ip \<noteq> 12 then None
              else if length ip + 4 > 16 then None
              else map_option (\<lambda>quad. (ip @ quad, ellipsis, [])) (parse_ipv4 s))
           else if rest = [] then Some (ip2, ellipsis, [])
           else if hd rest \<noteq> CHR '':'' \<or> length rest = 1 then None
           else if HasPrefix (tl rest) '':'' then
             (if ellipsis \<noteq> None then None
              else if length rest = 2 then Some (ip2, Some (length ip2), [])
              else parse_ipv6_loop ip2 (Some (length ip2)) (drop 2 rest))
           else parse_ipv6_loop ip2 ellipsis (tl rest))"
  by pat_completeness auto
termination by (relation "measure (\<lambda>(ip, ellipsis, s). 16 - length ip)") (auto simp: Let_def)

declare parse_ipv6_loop.simps [simp del]

definition parse_ipv6 :: "string \<Rightarrow> nat list option" where
  "parse_ipv6 s =
     (if CHR ''%'' \<in> set s then None
      else if s = ''::'' then Some (replicate 16 0)
      else case (if HasPrefix s ''::'' then parse_ipv6_loop [] (Some 0) (drop 2 s)
                 else parse_ipv6_loop [] None s) of
          None \<Rightarrow> None
        | Some (ip, ellipsis, rest) \<Rightarrow>
            if rest \<noteq> [] then None
            else if length ip < 16 then
              map_option (\<lambda>e. take e ip @ replicate (16 - length ip) 0 @ drop e ip) ellipsis
            else if ellipsis \<noteq> None then None else Some ip)"

definition mapped_ipv4 :: "nat list \<Rightarrow> nat list" where
  "mapped_ipv4 quad = replicate 10 0 @ [255, 255] @ quad"

definition ParseIP :: "string \<Rightarrow> nat list option" where
  "ParseIP s =
     (case find (\<lambda>c. c \<in> set ''.:%'') s of
        None \<Rightarrow> None
      | Some c \<Rightarrow>
          if c = CHR ''.'' then map_option mapped_ipv4 (parse_ipv4 s)
          else if c = CHR '':'' then parse_ipv6 s else None)"

section \<open>What an address is\<close>

definition To4 :: "nat list \<Rightarrow> nat list option" where
  "To4 ip = (if take 12 ip = replicate 10 0 @ [255, 255] then Some (drop 12 ip) else None)"

definition IsLoopback :: "nat list \<Rightarrow> bool" where
  "IsLoopback ip =
     (case To4 ip of Some quad \<Rightarrow> hd quad = 127 | None \<Rightarrow> ip = replicate 15 0 @ [1])"

definition IsUnspecified :: "nat list \<Rightarrow> bool" where
  "IsUnspecified ip \<longleftrightarrow> ip = replicate 16 0 \<or> ip = mapped_ipv4 [0, 0, 0, 0]"

section \<open>The text of an address\<close>

definition dotted :: "nat list \<Rightarrow> string" where
  "dotted quad = Join (map nat_digits quad) ''.''"

definition hex_char :: "nat \<Rightarrow> char" where
  "hex_char d = (if d < 10 then char_of (48 + d) else char_of (87 + d))"

fun hex_text :: "nat \<Rightarrow> string" where
  "hex_text n = (if n < 16 then [hex_char n] else hex_text (n div 16) @ [hex_char (n mod 16)])"

declare hex_text.simps [simp del]

fun groups :: "nat list \<Rightarrow> nat list" where
  "groups (a # b # ip) = (a * 256 + b) # groups ip"
| "groups _ = []"

text \<open>The longest run of at least two zero groups, the first one of several: its start and length.\<close>

definition zero_run :: "nat list \<Rightarrow> nat \<times> nat" where
  "zero_run gs =
     foldl (\<lambda>(start, len) i.
              let n = length (takeWhile (\<lambda>g. g = 0) (drop i gs))
              in if n \<ge> 2 \<and> n > len then (i, n) else (start, len)) (0, 0) [0 ..< length gs]"

definition ipv6_text :: "nat list \<Rightarrow> string" where
  "ipv6_text gs =
     (case zero_run gs of (start, len) \<Rightarrow>
        if len = 0 then Join (map hex_text gs) '':''
        else Join (map hex_text (take start gs)) '':'' @ ''::'' @
             Join (map hex_text (drop (start + len) gs)) '':'')"

definition IP_String :: "nat list \<Rightarrow> string" where
  "IP_String ip =
     (if length ip = 4 then dotted ip
      else case To4 ip of Some quad \<Rightarrow> dotted quad | None \<Rightarrow> ipv6_text (groups ip))"

section \<open>Dotted addresses read back\<close>

lemma nat_digits_hd: "n \<ge> 10 \<Longrightarrow> hd (nat_digits n) \<noteq> CHR ''0''"
proof (induction n rule: nat_digits.induct)
  case (1 n)
  have "hd (nat_digits n) = hd (nat_digits (n div 10))"
    using 1(2) by (subst nat_digits.simps) (simp add: hd_append)
  moreover have "hd (nat_digits (n div 10)) \<noteq> CHR ''0''"
  proof (cases "n div 10 < 10")
    case True
    then have "hd (nat_digits (n div 10)) = digit_char (n div 10)" by (subst nat_digits.simps) simp
    moreover have "n div 10 \<noteq> 0" using 1(2) by simp
    ultimately show ?thesis
      using True digit_val_digit_char [of "n div 10"] by (auto simp: digit_val_def)
  next
    case False
    then show ?thesis using 1 by simp
  qed
  ultimately show ?case by simp
qed

lemma parse_octet_digits: "n \<le> 255 \<Longrightarrow> parse_octet (nat_digits n) = Some n"
proof -
  assume n: "n \<le> 255"
  then have "n < 2 ^ 64" by simp
  moreover have "length (nat_digits n) = 1 \<or> hd (nat_digits n) \<noteq> CHR ''0''"
    by (cases "n < 10") (subst nat_digits.simps, simp, use nat_digits_hd in auto)
  ultimately show ?thesis using n by (simp add: parse_octet_def ParseUint_nat_digits)
qed

lemma nat_digits_no: "(\<And>d. d < 10 \<Longrightarrow> c \<noteq> digit_char d) \<Longrightarrow> c \<notin> set (nat_digits n)"
  using nat_digits_chars by fastforce

lemma digit_char_punct: "d < 10 \<Longrightarrow> digit_char d \<noteq> CHR ''.''" "d < 10 \<Longrightarrow> digit_char d \<noteq> CHR '':''"
    "d < 10 \<Longrightarrow> digit_char d \<noteq> CHR ''%''"
  using digit_val_digit_char [of d] by (auto simp: digit_val_def)

lemma parse_ipv4_dotted:
  assumes "a \<le> 255" "b \<le> 255" "c \<le> 255" "d \<le> 255"
  shows "parse_ipv4 (dotted [a, b, c, d]) = Some [a, b, c, d]"
proof -
  have "CHR ''.'' \<notin> set (nat_digits n)" for n
    by (rule nat_digits_no) (use digit_char_punct(1) in metis)
  then have "Split (dotted [a, b, c, d]) (CHR ''.'') = map nat_digits [a, b, c, d]"
    unfolding dotted_def by (intro Split_Join_inverse) auto
  then show ?thesis using assms by (simp add: parse_ipv4_def parse_octet_digits)
qed

lemma find_append_first: "\<forall>x \<in> set xs. \<not> P x \<Longrightarrow> find P (xs @ ys) = find P ys"
  by (induction xs) auto

lemma ParseIP_dotted:
  assumes "a \<le> 255" "b \<le> 255" "c \<le> 255" "d \<le> 255"
  shows "ParseIP (dotted [a, b, c, d]) = Some (mapped_ipv4 [a, b, c, d])"
proof -
  have "\<forall>x \<in> set (nat_digits n). x \<notin> set ''.:%''" for n
    using nat_digits_chars digit_char_punct by fastforce
  then have "find (\<lambda>c. c \<in> set ''.:%'') (dotted [a, b, c, d]) = Some (CHR ''.'')"
    by (simp add: dotted_def find_append_first)
  then show ?thesis using parse_ipv4_dotted [OF assms] by (simp add: ParseIP_def)
qed

end
