(* ===== verification/TunnelListen.thy ===== *)
theory TunnelListen
  imports DomainTypes GoNet GoText Prelude "HOL-Library.Code_Target_Numeral"
begin

text \<open>
  Package \<open>internal/tunnelmanager\<close>: the request of a tunnel, its validation and the question about
  public addresses (\<open>manager.go\<close>), and what the probe of the listening ports of a server tells
  (\<open>remote_listen.go\<close>, \<open>port_release.go\<close>).
\<close>

section \<open>The request\<close>

datatype TunnelType = TunnelTypeLocal | TunnelTypeRemote | TunnelTypeDynamic | TunnelTypeOther string

text \<open>The credentials of the request are left out: \<open>Start\<close> clears them before it stores the request.\<close>

record StartTunnelRequest =
  tr_ServerID :: int
  tr_ProfileID :: int
  tr_Type :: TunnelType
  tr_Name :: string
  tr_BindHost :: string
  tr_BindPort :: int
  tr_TargetHost :: string
  tr_TargetPort :: int
  tr_RemoteBindHost :: string
  tr_RemoteBindPort :: int
  tr_ConfirmPublicBind :: bool

definition defaultHost :: "string \<Rightarrow> string" where
  "defaultHost val = (if val = [] then ''127.0.0.1'' else val)"

definition defaultTunnelName :: "StartTunnelRequest \<Rightarrow> string" where
  "defaultTunnelName request =
     (if tr_Type request = TunnelTypeRemote then (zh [36828, 31243, 36716, 21457])
      else if tr_Type request = TunnelTypeDynamic then (zh [21160, 24577, 32, 83, 79, 67, 75, 83, 53])
      else (zh [26412, 22320, 36716, 21457]))"

definition validPort :: "int \<Rightarrow> bool" where
  "validPort port \<longleftrightarrow> 1 \<le> port \<and> port \<le> 65535"

definition trimmed_request :: "StartTunnelRequest \<Rightarrow> StartTunnelRequest" where
  "trimmed_request r =
     (let r = r\<lparr>tr_Name := TrimSpace (tr_Name r),
                tr_BindHost := defaultHost (TrimSpace (tr_BindHost r)),
                tr_TargetHost := TrimSpace (tr_TargetHost r),
                tr_RemoteBindHost := defaultHost (TrimSpace (tr_RemoteBindHost r))\<rparr>
      in if tr_Name r = [] then r\<lparr>tr_Name := defaultTunnelName r\<rparr> else r)"

definition normalizeStartRequest :: "StartTunnelRequest \<Rightarrow> string + StartTunnelRequest" where
  "normalizeStartRequest request =
     (let r = trimmed_request request
      in case tr_Type r of
          TunnelTypeLocal \<Rightarrow>
            if \<not> validPort (tr_BindPort r) then Inl (zh [26412, 22320, 30417, 21548, 31471, 21475, 24517, 39035, 22312, 32, 49, 45, 54, 53, 53, 51, 53, 32, 20043, 38388])
            else if tr_TargetHost r = [] \<or> \<not> validPort (tr_TargetPort r) then Inl (zh [26412, 22320, 36716, 21457, 38656, 35201, 36828, 31243, 30446, 26631, 22320, 22336, 21644, 31471, 21475])
            else Inr r
        | TunnelTypeRemote \<Rightarrow>
            if \<not> validPort (tr_RemoteBindPort r) then Inl (zh [36828, 31243, 30417, 21548, 31471, 21475, 24517, 39035, 22312, 32, 49, 45, 54, 53, 53, 51, 53, 32, 20043, 38388])
            else if tr_TargetHost r = [] \<or> \<not> validPort (tr_TargetPort r) then Inl (zh [36828, 31243, 36716, 21457, 38656, 35201, 26412, 22320, 30446, 26631, 22320, 22336, 21644, 31471, 21475])
            else Inr r
        | TunnelTypeDynamic \<Rightarrow>
            if \<not> validPort (tr_BindPort r) then Inl (zh [83, 79, 67, 75, 83, 53, 32, 26412, 22320, 30417, 21548, 31471, 21475, 24517, 39035, 22312, 32, 49, 45, 54, 53, 53, 51, 53, 32, 20043, 38388])
            else Inr (r\<lparr>tr_TargetHost := [], tr_TargetPort := 0\<rparr>)
        | TunnelTypeOther _ \<Rightarrow> Inl (zh [38567, 36947, 31867, 22411, 26080, 25928]))"

definition requiresPublicBind :: "StartTunnelRequest \<Rightarrow> bool" where
  "requiresPublicBind request \<longleftrightarrow>
     (if tr_Type request = TunnelTypeRemote
      then tr_RemoteBindHost request = ''0.0.0.0'' \<or> tr_RemoteBindHost request = ''::''
      else tr_BindHost request = ''0.0.0.0'' \<or> tr_BindHost request = ''::'')"

definition ErrPublicBindRequiresConfirmation :: string where
  "ErrPublicBindRequiresConfirmation = ''PUBLIC_BIND_REQUIRES_CONFIRMATION''"

text \<open>What \<open>Start\<close> does before it opens anything.\<close>

definition accept_request :: "int \<Rightarrow> StartTunnelRequest \<Rightarrow> string + StartTunnelRequest" where
  "accept_request serverID request =
     (case normalizeStartRequest (request\<lparr>tr_ServerID := serverID\<rparr>) of
        Inl err \<Rightarrow> Inl err
      | Inr normalized \<Rightarrow>
          if requiresPublicBind normalized \<and> \<not> tr_ConfirmPublicBind normalized
          then Inl ErrPublicBindRequiresConfirmation else Inr normalized)"

text \<open>The address of the listener, local or on the server, and of the target.\<close>

definition listen_host :: "StartTunnelRequest \<Rightarrow> string" where
  "listen_host r = (if tr_Type r = TunnelTypeRemote then tr_RemoteBindHost r else tr_BindHost r)"

definition listen_port :: "StartTunnelRequest \<Rightarrow> int" where
  "listen_port r = (if tr_Type r = TunnelTypeRemote then tr_RemoteBindPort r else tr_BindPort r)"

definition listen_address :: "StartTunnelRequest \<Rightarrow> string" where
  "listen_address r = JoinHostPort (listen_host r) (Itoa (listen_port r))"

section \<open>The listening ports of the server\<close>

datatype RemoteListenCheckStatus =
    RemoteListenUnchecked | RemoteListenListening | RemoteListenLoopback | RemoteListenNotFound
  | RemoteListenUnknown

datatype RemoteListenExposure =
    RemoteListenExposurePublic | RemoteListenExposureLoopbackOnly
  | RemoteListenExposureNotListening | RemoteListenExposureUnknown

record remoteListenResult =
  rl_Status :: RemoteListenCheckStatus
  rl_Exposure :: RemoteListenExposure
  rl_EffectiveHost :: string
  rl_EffectiveAddrs :: "string list"
  rl_ActualListen :: string
  rl_Warning :: string

definition normalizeListenHost :: "string \<Rightarrow> string" where
  "normalizeListenHost host =
     (let host = TrimChars (TrimSpace host) ''[]''
      in if host = ''*'' then ''0.0.0.0''
         else if host = [] then ''unknown''
         else if host = '':::'' then ''::''
         else host)"

definition publicBindHost :: "string \<Rightarrow> bool" where
  "publicBindHost host \<longleftrightarrow> normalizeListenHost host = ''0.0.0.0'' \<or> normalizeListenHost host = ''::''"

definition loopbackHost :: "string \<Rightarrow> bool" where
  "loopbackHost host =
     (let host = normalizeListenHost host
      in host = ''localhost'' \<or> host = ''::1'' \<or>
         (case ParseIP host of Some ip \<Rightarrow> IsLoopback ip | None \<Rightarrow> False))"

definition LastIndexChar :: "string \<Rightarrow> char \<Rightarrow> nat option" where
  "LastIndexChar s c =
     (if c \<in> set s then Some (length s - 1 - length (takeWhile (\<lambda>x. x \<noteq> c) (rev s))) else None)"

definition listenHostFromField :: "string \<Rightarrow> string \<Rightarrow> string option" where
  "listenHostFromField field port =
     (let field = TrimChars (TrimSpace field) '',;''
      in if \<not> HasSuffix field ('':'' @ port) then None
         else if HasPrefix field ''['' then
           (case LastIndexChar field (CHR '']'') of
              None \<Rightarrow> None
            | Some end_ \<Rightarrow>
                if end_ = 0 \<or> \<not> HasSuffix (drop (end_ + 1) field) ('':'' @ port) then None
                else Some (normalizeListenHost (drop 1 (take end_ field))))
         else let host = TrimSuffix field ('':'' @ port)
           in if host = [] then None
              else if HasSuffix host '':'' \<and> TrimChars host '':'' = [] then Some ''::''
              else Some (normalizeListenHost host))"

definition listen_line :: "string \<Rightarrow> bool" where
  "listen_line line =
     (let line = TrimSpace line
      in line \<noteq> [] \<and> \<not> HasPrefix line ''__SERVERPILOT_LISTEN_TOOL:'' \<and> Contains (ToLower line) ''listen'')"

definition line_hosts :: "string \<Rightarrow> string \<Rightarrow> string list" where
  "line_hosts want line =
     (if listen_line line then List.map_filter (\<lambda>f. listenHostFromField f want) (Fields (TrimSpace line)) else [])"

definition listenHostsForPort :: "string \<Rightarrow> int \<Rightarrow> string list" where
  "listenHostsForPort output port =
     uniq_seen {} (concat (map (line_hosts (Itoa port)) (Split output (CHR 0x0A))))"

definition chooseEffectiveHost :: "string list \<Rightarrow> string" where
  "chooseEffectiveHost hosts =
     (case find publicBindHost hosts of
        Some host \<Rightarrow> host
      | None \<Rightarrow> (case find (\<lambda>h. \<not> loopbackHost h) hosts of Some host \<Rightarrow> host | None \<Rightarrow> hd hosts))"

definition classifyRemoteListenExposure :: "string list \<Rightarrow> RemoteListenExposure" where
  "classifyRemoteListenExposure hosts =
     (if hosts = [] then RemoteListenExposureNotListening
      else if list_ex publicBindHost hosts then RemoteListenExposurePublic
      else if list_ex (\<lambda>h. \<not> loopbackHost h) hosts then RemoteListenExposurePublic
      else RemoteListenExposureLoopbackOnly)"

definition formatListenAddress :: "string \<Rightarrow> int \<Rightarrow> string" where
  "formatListenAddress host port =
     (let host = normalizeListenHost host
      in if host = [] \<or> host = ''unknown'' \<or> port \<le> 0 then []
         else if CHR '':'' \<in> set host \<and> \<not> HasPrefix host ''['' then ''['' @ host @ '']:'' @ Itoa port
         else JoinHostPort host (Itoa port))"

definition formatListenAddresses :: "string list \<Rightarrow> int \<Rightarrow> string list" where
  "formatListenAddresses hosts port =
     uniq_seen {[]} (map (\<lambda>h. formatListenAddress h port) hosts)"

definition loopbackOnlyWarning :: string where
  "loopbackOnlyWarning = (zh [26381, 21153, 22120, 23454, 38469, 21482, 30417, 21548, 32, 49, 50, 55, 46, 48, 46, 48, 46, 49, 65292, 23616, 22495, 32593, 26080, 27861, 35775, 38382, 12290, 35831, 26816, 26597, 32, 115, 115, 104, 100, 32, 30340, 32, 71, 97, 116, 101, 119, 97, 121, 80, 111, 114, 116, 115, 32, 37197, 32622, 21644, 38450, 28779, 22681, 12290])"

definition publicListenWarning :: string where
  "publicListenWarning = (zh [36828, 31243, 31471, 21475, 24050, 30417, 21548, 22312, 21487, 34987, 23616, 22495, 32593, 35775, 38382, 30340, 22320, 22336, 19978, 12290, 22914, 26524, 20173, 26080, 27861, 35775, 38382, 65292, 35831, 26816, 26597, 26381, 21153, 22120, 38450, 28779, 22681, 26159, 21542, 25918, 34892, 35813, 31471, 21475, 12290])"

definition unknownRemoteListenResult :: remoteListenResult where
  "unknownRemoteListenResult =
     \<lparr>rl_Status = RemoteListenUnknown, rl_Exposure = RemoteListenExposureUnknown,
      rl_EffectiveHost = ''unknown'', rl_EffectiveAddrs = [], rl_ActualListen = [],
      rl_Warning = (zh [38567, 36947, 24050, 21551, 21160, 65292, 20294, 26080, 27861, 30830, 35748, 26381, 21153, 22120, 23454, 38469, 30417, 21548, 29366, 24577, 12290])\<rparr>"

definition parseRemoteListenOutput :: "string \<Rightarrow> string \<Rightarrow> int \<Rightarrow> remoteListenResult" where
  "parseRemoteListenOutput output requestedHost port =
     (if Contains output ''__SERVERPILOT_LISTEN_TOOL:missing'' then unknownRemoteListenResult
      else let hosts = listenHostsForPort output port
        in if hosts = [] then
             \<lparr>rl_Status = RemoteListenNotFound, rl_Exposure = RemoteListenExposureNotListening,
              rl_EffectiveHost = ''unknown'', rl_EffectiveAddrs = [], rl_ActualListen = [],
              rl_Warning = (zh [26410, 22312, 26381, 21153, 22120, 19978, 26816, 27979, 21040, 36828, 31243, 30417, 21548, 31471, 21475, 65292, 38567, 36947, 19981, 20250, 26174, 31034, 20026, 26222, 36890, 36816, 34892, 20013, 12290])\<rparr>
           else let exposure = classifyRemoteListenExposure hosts;
                    addrs = formatListenAddresses hosts port
             in \<lparr>rl_Status = (if exposure = RemoteListenExposureLoopbackOnly
                              then RemoteListenLoopback else RemoteListenListening),
                 rl_Exposure = exposure, rl_EffectiveHost = chooseEffectiveHost hosts,
                 rl_EffectiveAddrs = addrs, rl_ActualListen = Join addrs [CHR 0x0A],
                 rl_Warning =
                   (if exposure \<noteq> RemoteListenExposureLoopbackOnly then publicListenWarning
                    else if publicBindHost requestedHost then loopbackOnlyWarning
                    else (zh [36828, 31243, 31471, 21475, 20165, 30417, 21548, 26381, 21153, 22120, 26412, 26426, 22320, 22336, 65292, 22806, 37096, 20027, 26426, 19981, 33021, 30452, 25509, 35775, 38382, 12290]))\<rparr>)"

definition requestedListen :: "StartTunnelRequest \<Rightarrow> string" where
  "requestedListen request =
     (if tr_Type request \<noteq> TunnelTypeRemote \<or> tr_RemoteBindPort request \<le> 0 then []
      else formatListenAddress (tr_RemoteBindHost request) (tr_RemoteBindPort request))"

definition testCommandHost :: "string \<Rightarrow> string \<Rightarrow> string" where
  "testCommandHost serverHost effectiveHost =
     (let effectiveHost = normalizeListenHost effectiveHost; serverHost = TrimSpace serverHost
      in if loopbackHost effectiveHost then ''127.0.0.1''
         else if effectiveHost \<noteq> [] \<and> effectiveHost \<noteq> ''unknown'' \<and> \<not> publicBindHost effectiveHost
           then effectiveHost
         else if serverHost \<noteq> [] then serverHost
         else ''127.0.0.1'')"

definition formatHostPortForURL :: "string \<Rightarrow> int \<Rightarrow> string" where
  "formatHostPortForURL host port =
     (if CHR '':'' \<in> set host \<and> \<not> HasPrefix host ''['' then ''['' @ host @ '']:'' @ Itoa port
      else host @ '':'' @ Itoa port)"

definition testCommand :: "string \<Rightarrow> string \<Rightarrow> StartTunnelRequest \<Rightarrow> remoteListenResult \<Rightarrow> string" where
  "testCommand serverHost serverUser request result =
     (if tr_Type request \<noteq> TunnelTypeRemote \<or> tr_RemoteBindPort request \<le> 0 then []
      else let host = testCommandHost serverHost (rl_EffectiveHost result);
               port = tr_RemoteBindPort request
        in if tr_TargetPort request = 22 then
             let user = TrimSpace serverUser; user = (if user = [] then ''root'' else user)
             in ''ssh -p '' @ Itoa port @ '' '' @ user @ ''@'' @ host
           else if tr_TargetPort request \<in> {80, 3000, 8080}
             then ''curl http://'' @ formatHostPortForURL host port
           else ''nc -vz '' @ host @ '' '' @ Itoa port)"

section \<open>Is the port free again?\<close>

text \<open>
  The loop of \<open>verifyRemotePortReleased\<close> over what its probes answer: an error or an output, and
  whether the deadline has passed after it. There is always a last answer, as time passes.
\<close>

datatype probe_answer = ProbeFailed | ProbeOutput string

fun verifyRemotePortReleased :: "int \<Rightarrow> (probe_answer \<times> bool) list \<Rightarrow> string option" where
  "verifyRemotePortReleased port [] =
     (if port \<le> 0 then None else Some (zh [31471, 21475, 36716, 21457, 20572, 27490, 22833, 36133, 65292, 37197, 32622, 26410, 21024, 38500, 65292, 35831, 20808, 25163, 21160, 20572, 27490, 21518, 20877, 21024, 38500, 12290]))"
| "verifyRemotePortReleased port ((answer, late) # rest) =
     (let failed = (zh [31471, 21475, 36716, 21457, 20572, 27490, 22833, 36133, 65292, 37197, 32622, 26410, 21024, 38500, 65292, 35831, 20808, 25163, 21160, 20572, 27490, 21518, 20877, 21024, 38500, 12290])
      in if port \<le> 0 then None
         else case answer of
            ProbeOutput output \<Rightarrow>
              if Contains output ''__SERVERPILOT_LISTEN_TOOL:missing''
                then Some (failed @ '' '' @ (zh [26080, 27861, 39564, 35777, 36828, 31243, 31471, 21475, 26159, 21542, 37322, 25918, 65306, 26381, 21153, 22120, 32570, 23569, 32, 115, 115, 47, 110, 101, 116, 115, 116, 97, 116, 12290]))
              else if listenHostsForPort output port = [] then None
              else if late then Some failed else verifyRemotePortReleased port rest
          | ProbeFailed \<Rightarrow> if late then Some failed else verifyRemotePortReleased port rest)"

section \<open>The question about public addresses\<close>

lemma default_host_trimmed: "TrimSpace (defaultHost (TrimSpace h)) = defaultHost (TrimSpace h)"
  by (simp add: defaultHost_def TrimSpace_visible visible_def)

lemma default_host_given: "defaultHost (TrimSpace h) \<noteq> []" "defaultHost (defaultHost h) = defaultHost h"
  by (simp_all add: defaultHost_def)

lemma default_name_given: "defaultTunnelName r \<noteq> []"
  by (simp add: defaultTunnelName_def)

lemma trimmed_request_fields [simp]:
  "tr_Type (trimmed_request r) = tr_Type r" "tr_ServerID (trimmed_request r) = tr_ServerID r"
  "tr_BindPort (trimmed_request r) = tr_BindPort r" "tr_TargetPort (trimmed_request r) = tr_TargetPort r"
  "tr_RemoteBindPort (trimmed_request r) = tr_RemoteBindPort r"
  "tr_ConfirmPublicBind (trimmed_request r) = tr_ConfirmPublicBind r"
  "tr_BindHost (trimmed_request r) = defaultHost (TrimSpace (tr_BindHost r))"
  "tr_RemoteBindHost (trimmed_request r) = defaultHost (TrimSpace (tr_RemoteBindHost r))"
  "tr_TargetHost (trimmed_request r) = TrimSpace (tr_TargetHost r)"
  by (simp_all add: trimmed_request_def Let_def)

text \<open>
  C22: The request that \<open>Start\<close> works with. Its listening port is between 1 and 65535, its
  listening address is trimmed and not empty, its target is complete unless the tunnel is
  dynamic, and the two public addresses the code knows are taken only with the user's consent.
\<close>

theorem accept_request_gate:
  assumes "accept_request serverID request = Inr n"
  shows "1 \<le> listen_port n \<and> listen_port n \<le> 65535 \<and> tr_ServerID n = serverID \<and>
    listen_host n \<noteq> [] \<and> TrimSpace (listen_host n) = listen_host n \<and>
    (tr_Type n = TunnelTypeDynamic \<or>
       tr_TargetHost n \<noteq> [] \<and> 1 \<le> tr_TargetPort n \<and> tr_TargetPort n \<le> 65535) \<and>
    (listen_host n \<notin> {''0.0.0.0'', ''::''} \<or> tr_ConfirmPublicBind request)"
proof -
  obtain n' where n': "normalizeStartRequest (request\<lparr>tr_ServerID := serverID\<rparr>) = Inr n'" "n = n'"
    "\<not> requiresPublicBind n' \<or> tr_ConfirmPublicBind n'"
    using assms by (auto simp: accept_request_def split: sum.splits if_splits)
  then show ?thesis
    by (cases "tr_Type request")
      (auto simp: normalizeStartRequest_def Let_def requiresPublicBind_def listen_port_def
        listen_host_def validPort_def default_host_trimmed default_host_given split: if_splits)
qed

definition sample_tunnel :: "string \<Rightarrow> StartTunnelRequest" where
  "sample_tunnel host =
     \<lparr>tr_ServerID = 0, tr_ProfileID = 0, tr_Type = TunnelTypeLocal, tr_Name = [], tr_BindHost = host,
      tr_BindPort = 8080, tr_TargetHost = ''10.0.0.2'', tr_TargetPort = 80, tr_RemoteBindHost = [],
      tr_RemoteBindPort = 0, tr_ConfirmPublicBind = False\<rparr>"

lemma sample_tunnel_accepted: "\<exists>n. accept_request 3 (sample_tunnel '' 127.0.0.1'') = Inr n \<and> listen_port n = 8080"
proof -
  have "(case accept_request 3 (sample_tunnel '' 127.0.0.1'') of
           Inl e \<Rightarrow> False | Inr n \<Rightarrow> listen_port n = 8080)" by code_simp
  then show ?thesis by (auto split: sum.splits)
qed

lemma accept_request_gate_witness:
  "\<exists>n. accept_request 3 (sample_tunnel '' 127.0.0.1'') = Inr n \<and> tr_ServerID n = 3 \<and> listen_host n \<noteq> []"
  using sample_tunnel_accepted accept_request_gate by metis

text \<open>
  The question is not asked for every public address. The address \<open>0.0.0.0\<close> has other
  spellings: each of these is accepted without consent, and is the address of all interfaces.
\<close>

theorem public_gate_misses:
  "list_all (\<lambda>host. case accept_request 3 (sample_tunnel host) of
       Inl err \<Rightarrow> False
     | Inr n \<Rightarrow> \<not> tr_ConfirmPublicBind n \<and> listen_host n = host \<and>
         (case ParseIP host of None \<Rightarrow> False | Some ip \<Rightarrow> IsUnspecified ip))
     [''::0'', ''0::'', ''0:0:0:0:0:0:0:0'', ''::0.0.0.0'', ''::ffff:0.0.0.0'', ''::ffff:0:0'']"
  by code_simp

section \<open>Ports that are listed are found\<close>

text \<open>A line of \<open>ss -ltn\<close> for a socket.\<close>

definition ss_line :: "string \<times> int \<Rightarrow> string" where
  "ss_line sock = Join [''LISTEN'', ''0'', ''128'', JoinHostPort (fst sock) (Itoa (snd sock)), ''0.0.0.0:*''] '' ''"

definition ss_host :: "string \<Rightarrow> bool" where
  "ss_host host \<longleftrightarrow> host \<noteq> [] \<and> set host \<subseteq> set ''0123456789abcdef.:*''"

definition ss_output :: "(string \<times> int) list \<Rightarrow> string" where
  "ss_output socks =
     Join ((''__SERVERPILOT_LISTEN_TOOL:ss'' # ''State Recv-Q Send-Q Local Peer'' # map ss_line socks)) [CHR 0x0A]"

lemma ss_host_chars: "ss_host host \<Longrightarrow> c \<in> set host \<Longrightarrow>
    visible c \<and> c \<noteq> CHR '' '' \<and> c \<notin> set '',;[]'' \<and> c \<noteq> CHR 0x0A"
  by (auto simp: ss_host_def visible_def)

lemma set_JoinHostPort: "set (JoinHostPort host port) \<subseteq> set host \<union> set port \<union> set ''[]:''"
  by (auto simp: JoinHostPort_def)

lemma address_word: "ss_host host \<Longrightarrow> is_word (JoinHostPort host (Itoa port))"
  using ss_host_chars Itoa_word [of port]
  by (auto simp: JoinHostPort_def is_word_def list_all_iff visible_def)

lemma ss_words:
  "ss_host (fst sock) \<Longrightarrow>
   list_all is_word [''LISTEN'', ''0'', ''128'', JoinHostPort (fst sock) (Itoa (snd sock)), ''0.0.0.0:*'']"
  using address_word by (simp add: is_word_def visible_def)

lemma TrimChars_ends:
  "s = [] \<or> hd s \<notin> set chars \<and> last s \<notin> set chars \<Longrightarrow> TrimChars s chars = s"
proof -
  assume ends: "s = [] \<or> hd s \<notin> set chars \<and> last s \<notin> set chars"
  show ?thesis
  proof (cases "s = []")
    case False
    then have "dropWhile (\<lambda>c. c \<in> set chars) s = s" using ends by (cases s) auto
    moreover have "dropWhile (\<lambda>c. c \<in> set chars) (rev s) = rev s"
      using ends False by (cases s rule: rev_cases) auto
    ultimately show ?thesis by (simp add: TrimChars_def)
  qed (simp add: TrimChars_def)
qed

lemma LastIndexChar_last: "c \<notin> set t \<Longrightarrow> LastIndexChar (s @ c # t) c = Some (length s)"
  by (simp add: LastIndexChar_def takeWhile_append takeWhile_eq_all_conv [THEN iffD2])

lemma colon_not_digit: "CHR '':'' \<notin> set (Itoa p)" "CHR '']'' \<notin> set (Itoa p)"
  by (rule Itoa_without; simp)+

lemma Itoa_star: "CHR ''*'' \<notin> set (Itoa p)"
  by (rule Itoa_without) simp_all

lemma last_Itoa: "last (Itoa p) \<notin> set '',;''"
proof -
  obtain d where d: "d < 10" "last (Itoa p) = digit_char d" using Itoa_last_digit by auto
  then show ?thesis using digit_char_code [of d "last (Itoa p)"] by auto
qed

lemma listenHostFromField_address:
  assumes "ss_host host"
  shows "listenHostFromField (JoinHostPort host (Itoa q)) (Itoa p) =
    (if q = p then Some (normalizeListenHost host) else None)"
proof -
  have host: "host \<noteq> []" "hd host \<notin> set '',;[]''" using assms ss_host_chars [OF assms, of "hd host"]
    by (auto simp: ss_host_def)
  define field where "field = JoinHostPort host (Itoa q)"
  have "is_word field" using address_word [OF assms] by (simp add: field_def)
  moreover have "hd field \<notin> set '',;''" "last field \<notin> set '',;''"
    using host last_Itoa [of q] by (auto simp: field_def JoinHostPort_def)
  ultimately have trim: "TrimChars (TrimSpace field) '',;'' = field"
    by (simp add: TrimSpace_word TrimChars_ends)
  show ?thesis
  proof (cases "CHR '':'' \<in> set host")
    case True
    have field: "field = (''['' @ host @ '']'') @ CHR '':'' # Itoa q"
      using True by (simp add: field_def JoinHostPort_def)
    have suf: "HasSuffix field ('':'' @ Itoa p) \<longleftrightarrow> q = p"
      unfolding field using sep_suffix [OF colon_not_digit(1) colon_not_digit(1), of "''['' @ host @ '']''" q p] by simp
    have idx: "LastIndexChar field (CHR '']'') = Some (length host + 1)"
    proof -
      have "field = (''['' @ host) @ CHR '']'' # ('':'' @ Itoa q)" by (simp add: field)
      then show ?thesis
        using LastIndexChar_last [of "CHR '']''" "'':'' @ Itoa q" "''['' @ host"] colon_not_digit(2) by simp
    qed
    have "drop (length host + 2) field = '':'' @ Itoa q" "drop 1 (take (length host + 1) field) = host"
      by (simp_all add: field)
    moreover have "HasPrefix field ''[''" by (simp add: field HasPrefix_def)
    ultimately show ?thesis
      using suf idx unfolding listenHostFromField_def field_def [symmetric] trim Let_def
      by (auto simp: HasSuffix_iff)
  next
    case False
    have field: "field = host @ CHR '':'' # Itoa q"
      using False by (simp add: field_def JoinHostPort_def)
    have suf: "HasSuffix field ('':'' @ Itoa p) \<longleftrightarrow> q = p"
      unfolding field using sep_suffix [OF colon_not_digit(1) colon_not_digit(1), of host q p] by simp
    have "\<not> HasPrefix field ''[''" using host by (cases host) (auto simp: field HasPrefix_def)
    moreover have "TrimSuffix field ('':'' @ Itoa q) = host" unfolding field
      using TrimSuffix_append [of host "'':'' @ Itoa q"] by simp
    moreover have "\<not> HasSuffix host '':''" using False by (auto simp: HasSuffix_iff suffix_def)
    ultimately show ?thesis
      using suf host unfolding listenHostFromField_def field_def [symmetric] trim Let_def by auto
  qed
qed

lemma listenHostFromField_word: "is_word w \<Longrightarrow> CHR '':'' \<notin> set w \<Longrightarrow> listenHostFromField w p = None"
proof -
  assume w: "is_word w" "CHR '':'' \<notin> set w"
  have "set (TrimChars w '',;'') \<subseteq> set w"
    unfolding TrimChars_def set_rev by (metis dual_order.trans set_dropWhileD set_rev subsetI)
  then have "CHR '':'' \<notin> set (TrimChars (TrimSpace w) '',;'')" using w by (auto simp: TrimSpace_word)
  then show ?thesis by (simp add: listenHostFromField_def no_sep_no_suffix)
qed

lemma listenHostFromField_peer: "listenHostFromField ''0.0.0.0:*'' (Itoa p) = None"
proof -
  have "TrimChars (TrimSpace ''0.0.0.0:*'') '',;'' = ''0.0.0.0:*''" by code_simp
  moreover have "CHR '':'' \<notin> set ''*''" by simp
  then have "\<not> HasSuffix (''0.0.0.0'' @ CHR '':'' # ''*'') (CHR '':'' # Itoa p)"
    using sep_suffix [of "CHR '':''" "''*''" "Itoa p" "''0.0.0.0''"] colon_not_digit(1)
    by (metis Itoa_star list.set_intros(1))
  ultimately show ?thesis by (simp add: listenHostFromField_def)
qed

lemma ss_line_listens:
  assumes "ss_host (fst sock)"
  shows "listen_line (ss_line sock)" "TrimSpace (ss_line sock) = ss_line sock" "CHR 0x0A \<notin> set (ss_line sock)"
    "Fields (ss_line sock) = [''LISTEN'', ''0'', ''128'', JoinHostPort (fst sock) (Itoa (snd sock)), ''0.0.0.0:*'']"
proof -
  let ?rest = "'' 0 128 '' @ JoinHostPort (fst sock) (Itoa (snd sock)) @ '' 0.0.0.0:*''"
  have line: "ss_line sock = ''LISTEN'' @ ?rest" by (simp add: ss_line_def)
  show trim: "TrimSpace (ss_line sock) = ss_line sock"
    by (rule TrimSpace_visible) (simp add: line visible_def)
  have low: "map lower_byte ''LISTEN'' = ''listen''" by code_simp
  have "ToLower (''LISTEN'' @ ?rest) = ''listen'' @ ToLower ?rest"
    using low by (simp add: HasPrefix_def)
  then have "Contains (ToLower (ss_line sock)) ''listen''"
    unfolding line Contains_iff by (metis append_Nil)
  then show "listen_line (ss_line sock)"
    unfolding listen_line_def Let_def trim by (simp add: line HasPrefix_def)
  show "Fields (ss_line sock) = [''LISTEN'', ''0'', ''128'', JoinHostPort (fst sock) (Itoa (snd sock)), ''0.0.0.0:*'']"
    unfolding ss_line_def using assms by (intro Fields_words ss_words)
  have "CHR 0x0A \<notin> set (Itoa p)" for p by (rule Itoa_without) simp_all
  then have "CHR 0x0A \<notin> set (JoinHostPort (fst sock) (Itoa (snd sock)))"
    using ss_host_chars [OF assms] by (auto simp: JoinHostPort_def)
  then show "CHR 0x0A \<notin> set (ss_line sock)" by (simp add: line)
qed

lemma line_hosts_ss:
  assumes "ss_host (fst sock)"
  shows "line_hosts (Itoa port) (ss_line sock) = (if snd sock = port then [normalizeListenHost (fst sock)] else [])"
proof -
  have word: "listenHostFromField w (Itoa port) = None" if "w \<in> {''LISTEN'', ''0'', ''128''}" for w
    using that by (intro listenHostFromField_word) (auto simp: is_word_def visible_def)
  show ?thesis
    using listenHostFromField_address [OF assms, of "snd sock" port] word listenHostFromField_peer
    unfolding line_hosts_def ss_line_listens(2,4) [OF assms]
    by (cases "snd sock = port") (simp_all add: ss_line_listens(1) [OF assms] List.map_filter_def)
qed

lemma listenHostsForPort_ss:
  "list_all (\<lambda>sock. ss_host (fst sock)) socks \<Longrightarrow>
   listenHostsForPort (ss_output socks) port =
   uniq_seen {} (map (normalizeListenHost \<circ> fst) (filter (\<lambda>sock. snd sock = port) socks))"
proof -
  assume socks: "list_all (\<lambda>sock. ss_host (fst sock)) socks"
  let ?lines = "''__SERVERPILOT_LISTEN_TOOL:ss'' # ''State Recv-Q Send-Q Local Peer'' # map ss_line socks"
  have "list_all (\<lambda>l. CHR 0x0A \<notin> set l) ?lines"
    using socks ss_line_listens(3) by (auto simp: list_all_iff)
  then have "Split (ss_output socks) (CHR 0x0A) = ?lines"
    unfolding ss_output_def by (intro Split_Join_inverse) (auto simp: list_all_iff)
  moreover have "\<not> listen_line ''__SERVERPILOT_LISTEN_TOOL:ss''" "\<not> listen_line ''State Recv-Q Send-Q Local Peer''"
    by code_simp+
  moreover have "concat (map (line_hosts (Itoa port)) (map ss_line socks)) =
      map (normalizeListenHost \<circ> fst) (filter (\<lambda>sock. snd sock = port) socks)"
    using socks by (induction socks) (auto simp: line_hosts_ss)
  ultimately show ?thesis by (simp add: listenHostsForPort_def line_hosts_def)
qed

text \<open>
  C39: A listening socket is recognised by its exact port. What \<open>ss -ltn\<close> prints for a list of
  sockets is read back as the distinct addresses of those with the wanted port: port 80 is not
  taken for 8080, an IPv6 address loses its brackets, a star is the address of all interfaces,
  and neither the queue lengths nor the peer column count as a socket.
\<close>

theorem listenHostsForPort_exact:
  "list_all (\<lambda>sock. ss_host (fst sock)) socks \<Longrightarrow>
   listenHostsForPort (ss_output socks) port =
   uniq_seen {} (map (normalizeListenHost \<circ> fst) (filter (\<lambda>sock. snd sock = port) socks))"
  by (rule listenHostsForPort_ss)

lemma listenHostsForPort_exact_witness:
  "listenHostsForPort (ss_output [(''127.0.0.1'', 8080), (''::'', 80), (''*'', 8080), (''::1'', 8080)]) 8080 =
   [''127.0.0.1'', ''0.0.0.0'', ''::1'']"
proof -
  have "list_all (\<lambda>sock. ss_host (fst sock)) [(''127.0.0.1'', 8080 :: int), (''::'', 80), (''*'', 8080), (''::1'', 8080)]"
    by (simp add: ss_host_def)
  from listenHostsForPort_exact [OF this, of 8080] show ?thesis
    by (simp add: normalizeListenHost_def TrimSpace_visible visible_def TrimChars_ends)
qed

lemma normalize_ss_host:
  "ss_host host \<Longrightarrow> normalizeListenHost (normalizeListenHost host) = normalizeListenHost host"
proof -
  assume host: "ss_host host"
  then have ends: "host \<noteq> []" "hd host \<in> set host" "last host \<in> set host" by (auto simp: ss_host_def)
  have "TrimSpace host = host"
    using ss_host_chars [OF host] ends by (intro TrimSpace_visible) auto
  moreover have "TrimChars host ''[]'' = host"
    using ss_host_chars [OF host] ends by (intro TrimChars_ends) auto
  ultimately have "normalizeListenHost host =
      (if host = ''*'' then ''0.0.0.0'' else if host = '':::'' then ''::'' else host)"
    using ends by (simp add: normalizeListenHost_def)
  then show ?thesis
    by (auto simp: normalizeListenHost_def TrimSpace_visible visible_def TrimChars_ends)
qed

lemma ss_output_tool:
  assumes "list_all (\<lambda>sock. ss_host (fst sock)) socks"
  shows "\<not> Contains (ss_output socks) ''__SERVERPILOT_LISTEN_TOOL:missing''"
proof -
  have itoa: "CHR ''m'' \<notin> set (Itoa p)" for p by (rule Itoa_without) simp_all
  have "CHR ''m'' \<notin> set (ss_line sock)" if "ss_host (fst sock)" for sock
    using that itoa set_JoinHostPort [of "fst sock" "Itoa (snd sock)"] by (auto simp: ss_line_def ss_host_def)
  moreover have "set (Join ls [CHR 0x0A]) \<subseteq> {CHR 0x0A} \<union> \<Union> (set ` set ls)" for ls
    by (induction ls "[CHR 0x0A]" rule: Join.induct) auto
  ultimately have "CHR ''m'' \<notin> set (ss_output socks)"
    using assms unfolding ss_output_def by (fastforce simp: list_all_iff)
  then show ?thesis by (auto simp: Contains_iff)
qed

text \<open>
  What is reported of the listening port. From the sockets of the wanted port the code
  reports not listening exactly when there is none, loopback only exactly when there is one and
  all are loopback addresses, and the effective address is the address of one of them, a public
  one if there is any.
\<close>

theorem parseRemoteListenOutput_report:
  "list_all (\<lambda>sock. ss_host (fst sock)) socks \<Longrightarrow>
   (rl_Status (parseRemoteListenOutput (ss_output socks) requested port) = RemoteListenNotFound \<longleftrightarrow>
      \<not> list_ex (\<lambda>sock. snd sock = port) socks) \<and>
   (rl_Status (parseRemoteListenOutput (ss_output socks) requested port) = RemoteListenLoopback \<longleftrightarrow>
      list_ex (\<lambda>sock. snd sock = port) socks \<and>
      list_all (\<lambda>sock. snd sock \<noteq> port \<or> loopbackHost (fst sock) \<and> \<not> publicBindHost (fst sock)) socks) \<and>
   (\<not> list_ex (\<lambda>sock. snd sock = port) socks \<or>
      list_ex (\<lambda>sock. snd sock = port \<and>
        rl_EffectiveHost (parseRemoteListenOutput (ss_output socks) requested port) = normalizeListenHost (fst sock) \<and>
        (publicBindHost (fst sock) \<or>
         list_all (\<lambda>sock. snd sock \<noteq> port \<or> \<not> publicBindHost (fst sock)) socks)) socks)"
proof -
  assume socks: "list_all (\<lambda>sock. ss_host (fst sock)) socks"
  define r where "r = parseRemoteListenOutput (ss_output socks) requested port"
  define hosts where "hosts = listenHostsForPort (ss_output socks) port"
  have set_hosts: "set hosts = {normalizeListenHost (fst s) |s. s \<in> set socks \<and> snd s = port}"
    unfolding hosts_def listenHostsForPort_ss [OF socks] by (force simp: set_uniq_seen)
  then have none: "hosts = [] \<longleftrightarrow> \<not> list_ex (\<lambda>sock. snd sock = port) socks"
    by (auto simp: list_ex_iff simp flip: set_empty)
  have same: "publicBindHost (normalizeListenHost (fst s)) = publicBindHost (fst s)"
      "loopbackHost (normalizeListenHost (fst s)) = loopbackHost (fst s)" if "s \<in> set socks" for s
    using that socks by (simp_all add: publicBindHost_def loopbackHost_def list_all_iff normalize_ss_host)
  have r: "r = (if hosts = [] then r\<lparr>rl_Status := RemoteListenNotFound\<rparr>
      else r\<lparr>rl_Status := (if list_ex publicBindHost hosts \<or> list_ex (\<lambda>h. \<not> loopbackHost h) hosts
                           then RemoteListenListening else RemoteListenLoopback),
             rl_EffectiveHost := chooseEffectiveHost hosts\<rparr>)"
    using ss_output_tool [OF socks]
    by (simp add: r_def hosts_def [symmetric] parseRemoteListenOutput_def Let_def classifyRemoteListenExposure_def)
  have nf: "rl_Status r = RemoteListenNotFound \<longleftrightarrow> hosts = []"
    by (subst r) simp
  have lo: "rl_Status r = RemoteListenLoopback \<longleftrightarrow>
      hosts \<noteq> [] \<and> \<not> list_ex publicBindHost hosts \<and> \<not> list_ex (\<lambda>h. \<not> loopbackHost h) hosts"
    by (subst r) simp
  have ex: "list_ex publicBindHost hosts \<longleftrightarrow> (\<exists>s \<in> set socks. snd s = port \<and> publicBindHost (fst s))"
      "list_ex (\<lambda>h. \<not> loopbackHost h) hosts \<longleftrightarrow> (\<exists>s \<in> set socks. snd s = port \<and> \<not> loopbackHost (fst s))"
    unfolding list_ex_iff set_hosts using same by blast+
  have eff: "hosts = [] \<or> (\<exists>s \<in> set socks. snd s = port \<and> rl_EffectiveHost r = normalizeListenHost (fst s) \<and>
      (publicBindHost (fst s) \<or> \<not> list_ex publicBindHost hosts))"
  proof (cases "hosts = []")
    case False
    have "chooseEffectiveHost hosts \<in> set hosts \<and>
        (publicBindHost (chooseEffectiveHost hosts) \<or> \<not> list_ex publicBindHost hosts)"
    proof (cases "find publicBindHost hosts")
      case None
      then show ?thesis
        using False by (auto simp: chooseEffectiveHost_def find_None_iff list_ex_iff dest: find_SomeD split: option.splits)
    next
      case (Some h)
      then show ?thesis using find_SomeD [OF Some] by (simp add: chooseEffectiveHost_def)
    qed
    moreover have "rl_EffectiveHost r = chooseEffectiveHost hosts"
      using False by (subst r) simp
    ultimately have e: "rl_EffectiveHost r \<in> set hosts"
        "publicBindHost (rl_EffectiveHost r) \<or> \<not> list_ex publicBindHost hosts" by simp_all
    then obtain s where s: "s \<in> set socks" "snd s = port" "rl_EffectiveHost r = normalizeListenHost (fst s)"
      unfolding set_hosts by blast
    then show ?thesis using e(2) same(1) [OF s(1)] by auto
  qed simp
  show ?thesis
    unfolding r_def [symmetric] none [symmetric] nf lo
    using eff unfolding ex none by (auto simp: list_ex_iff list_all_iff)
qed

lemma parseRemoteListenOutput_report_witness:
  "rl_Status (parseRemoteListenOutput (ss_output [(''127.0.0.1'', 8080), (''*'', 80)]) '''' 8080) = RemoteListenLoopback"
proof -
  have socks: "list_all (\<lambda>sock. ss_host (fst sock)) [(''127.0.0.1'', 8080 :: int), (''*'', 80)]"
    by (simp add: ss_host_def)
  have "loopbackHost ''127.0.0.1'' \<and> \<not> publicBindHost ''127.0.0.1''" by code_simp
  then show ?thesis
    using parseRemoteListenOutput_report [OF socks, of "''''" 8080, THEN conjunct2, THEN conjunct1] by simp
qed

end
