(* ===== verification/TunnelWorker.thy ===== *)
theory TunnelWorker
  imports TunnelListen "HOL-Library.Code_Target_Numeral"
begin

text \<open>
  Package \<open>internal/tunnelmanager\<close>, \<open>manager.go\<close>: the SOCKS5 handshake of a dynamic tunnel, and the
  life of a tunnel. The operations on a tunnel (\<open>Start\<close>, \<open>Stop\<close>, a failed keepalive, a failed
  accept, a check of the remote port) hold its lock only for single steps, so each is a list of
  atomic actions here, and what happens at the same time is any interleaving of these lists.
\<close>

section \<open>The SOCKS5 handshake\<close>

text \<open>
  A connection is what its peer has still to send, what was written to it, and how many more
  writes it takes before it fails.
\<close>

record socks_conn =
  sc_in :: string
  sc_out :: string
  sc_writes :: nat

type_synonym 'a socks = "socks_conn \<Rightarrow> 'a option \<times> socks_conn"

definition socks_bind :: "'a socks \<Rightarrow> ('a \<Rightarrow> 'b socks) \<Rightarrow> 'b socks" where
  "socks_bind m f = (\<lambda>c. case m c of (None, c) \<Rightarrow> (None, c) | (Some x, c) \<Rightarrow> f x c)"

definition socks_fail :: "'a socks" where
  "socks_fail = (\<lambda>c. (None, c))"

definition ReadFull :: "nat \<Rightarrow> string socks" where
  "ReadFull n = (\<lambda>c. if n \<le> length (sc_in c) then (Some (take n (sc_in c)), c\<lparr>sc_in := drop n (sc_in c)\<rparr>)
                     else (None, c\<lparr>sc_in := []\<rparr>))"

definition socks_write :: "string \<Rightarrow> unit socks" where
  "socks_write bytes = (\<lambda>c. if sc_writes c = 0 then (None, c)
     else (Some (), c\<lparr>sc_out := sc_out c @ bytes, sc_writes := sc_writes c - 1\<rparr>))"

definition writeSocksReply :: "char \<Rightarrow> unit socks" where
  "writeSocksReply code =
     socks_write [CHR 0x05, code, CHR 0x00, CHR 0x01, CHR 0x00, CHR 0x00, CHR 0x00, CHR 0x00, CHR 0x00, CHR 0x00]"

text \<open>A refusal: the reply is written if it can be, and there is no target either way.\<close>

definition socks_refuse :: "char \<Rightarrow> 'a socks" where
  "socks_refuse code = (\<lambda>c. (None, snd (writeSocksReply code c)))"

definition read_port :: "string \<Rightarrow> string socks" where
  "read_port host = socks_bind (ReadFull 2) (\<lambda>portBytes c.
     (Some (JoinHostPort host (Itoa (int (of_char (portBytes ! 0) * 256 + of_char (portBytes ! 1))))), c))"

definition readSocksConnect :: "string socks" where
  "readSocksConnect =
     socks_bind (ReadFull 2) (\<lambda>header.
     if header ! 0 \<noteq> CHR 0x05 then socks_fail
     else socks_bind (ReadFull (of_char (header ! 1))) (\<lambda>methods.
     socks_bind (socks_write [CHR 0x05, CHR 0x00]) (\<lambda>_.
     socks_bind (ReadFull 4) (\<lambda>request.
     if request ! 0 \<noteq> CHR 0x05 then socks_fail
     else if request ! 1 \<noteq> CHR 0x01 then socks_refuse (CHR 0x07)
     else if request ! 3 = CHR 0x01 then
       socks_bind (ReadFull 4) (\<lambda>addr. read_port (IP_String (map of_char addr)))
     else if request ! 3 = CHR 0x03 then
       socks_bind (ReadFull 1) (\<lambda>len.
       socks_bind (ReadFull (of_char (len ! 0))) read_port)
     else if request ! 3 = CHR 0x04 then
       socks_bind (ReadFull 16) (\<lambda>addr. read_port (IP_String (map of_char addr)))
     else socks_refuse (CHR 0x08)))))"

text \<open>What a client sends.\<close>

datatype socks_addr = SocksIPv4 nat nat nat nat | SocksName string | SocksIPv6 "nat list"

fun socks_addr_ok :: "socks_addr \<Rightarrow> bool" where
  "socks_addr_ok (SocksIPv4 a b c d) \<longleftrightarrow> a < 256 \<and> b < 256 \<and> c < 256 \<and> d < 256"
| "socks_addr_ok (SocksName host) \<longleftrightarrow> length host < 256"
| "socks_addr_ok (SocksIPv6 ip) \<longleftrightarrow> length ip = 16 \<and> list_all (\<lambda>b. b < 256) ip"

fun socks_addr_bytes :: "socks_addr \<Rightarrow> string" where
  "socks_addr_bytes (SocksIPv4 a b c d) = CHR 0x01 # map char_of [a, b, c, d]"
| "socks_addr_bytes (SocksName host) = CHR 0x03 # char_of (length host) # host"
| "socks_addr_bytes (SocksIPv6 ip) = CHR 0x04 # map char_of ip"

fun socks_host :: "socks_addr \<Rightarrow> string" where
  "socks_host (SocksIPv4 a b c d) = dotted [a, b, c, d]"
| "socks_host (SocksName host) = host"
| "socks_host (SocksIPv6 ip) = IP_String ip"

definition socks_greeting :: "string \<Rightarrow> string" where
  "socks_greeting methods = CHR 0x05 # char_of (length methods) # methods"

definition socks_request :: "char \<Rightarrow> socks_addr \<Rightarrow> nat \<Rightarrow> string" where
  "socks_request command addr port =
     [CHR 0x05, command, CHR 0x00] @ socks_addr_bytes addr @ [char_of (port div 256), char_of (port mod 256)]"

lemma socks_bind_ReadFull:
  "n \<le> length (sc_in c) \<Longrightarrow>
   socks_bind (ReadFull n) f c = f (take n (sc_in c)) (c\<lparr>sc_in := drop n (sc_in c)\<rparr>)"
  by (simp add: socks_bind_def ReadFull_def)

lemma socks_bind_write:
  "sc_writes c > 0 \<Longrightarrow>
   socks_bind (socks_write bytes) f c = f () (c\<lparr>sc_out := sc_out c @ bytes, sc_writes := sc_writes c - 1\<rparr>)"
  by (simp add: socks_bind_def socks_write_def)

lemma byte_of_char [simp]: "n < 256 \<Longrightarrow> of_char (char_of (n :: nat) :: char) = n"
  by (simp add: of_char_of)

lemma read_port_exact:
  assumes "port < 65536" "sc_in c = char_of (port div 256) # char_of (port mod 256) # payload"
  shows "read_port host c = (Some (JoinHostPort host (Itoa (int port))), c\<lparr>sc_in := payload\<rparr>)"
proof -
  have "port div 256 < 256" using assms by simp
  moreover have "(port div 256) * 256 + port mod 256 = port" by simp
  ultimately show ?thesis
    using assms(2) by (simp add: read_port_def socks_bind_ReadFull of_nat_div of_nat_mod)
qed

lemma map_byte: "list_all (\<lambda>b. b < (256 :: nat)) bs \<Longrightarrow> map of_char (map char_of bs :: string) = bs"
  by (induction bs) auto

text \<open>
  C25: The SOCKS5 handshake takes exactly what belongs to it. For every greeting and every request
  to connect to an IPv4 address, a name or an IPv6 address, the target is that address and port,
  the only answer is the choice of no authentication, and whatever the client sends after the
  request, even in the same packet, is left for the connection.
\<close>

theorem readSocksConnect_exact:
  assumes "length methods < 256" "socks_addr_ok addr" "port < 65536"
  shows "readSocksConnect
      \<lparr>sc_in = socks_greeting methods @ socks_request (CHR 0x01) addr port @ payload,
       sc_out = out, sc_writes = Suc n\<rparr> =
    (Some (JoinHostPort (socks_host addr) (Itoa (int port))),
     \<lparr>sc_in = payload, sc_out = out @ [CHR 0x05, CHR 0x00], sc_writes = n\<rparr>)"
proof (cases addr)
  case (SocksIPv4 a1 a2 a3 a4)
  then show ?thesis
    using assms by (simp add: readSocksConnect_def socks_greeting_def socks_request_def socks_bind_ReadFull
        socks_bind_write read_port_exact [OF assms(3)] IP_String_def)
next
  case (SocksName host)
  then show ?thesis
    using assms by (simp add: readSocksConnect_def socks_greeting_def socks_request_def socks_bind_ReadFull
        socks_bind_write read_port_exact [OF assms(3)])
next
  case (SocksIPv6 ip)
  then have "map of_char (map char_of ip :: string) = ip" "length ip = 16"
    using assms(2) by (simp_all only: socks_addr_ok.simps map_byte)
  then show ?thesis
    using SocksIPv6 assms(1)
    by (simp add: readSocksConnect_def socks_greeting_def socks_request_def socks_bind_ReadFull
        socks_bind_write read_port_exact [OF assms(3)] del: map_map)
qed

lemma readSocksConnect_exact_witness:
  "fst (readSocksConnect \<lparr>sc_in = socks_greeting [CHR 0x00] @
       socks_request (CHR 0x01) (SocksName ''db.local'') 5432 @ ''early data'', sc_out = [], sc_writes = 1\<rparr>) =
   Some ''db.local:5432''"
proof -
  have "Itoa 5432 = ''5432''" by code_simp
  then show ?thesis
    using readSocksConnect_exact [of "[CHR 0x00]" "SocksName ''db.local''" 5432 "''early data''" "[]" 0]
    by (simp add: JoinHostPort_def)
qed

section \<open>The tunnel\<close>

datatype TunnelStatus =
    TunnelStatusStarting | TunnelStatusRunning | TunnelStatusFailed | TunnelStatusStopping
  | TunnelStatusStopped

record TunnelRuntime =
  tu_TunnelID :: string
  tu_ServerID :: int
  tu_ProfileID :: int
  tu_Name :: string
  tu_Type :: TunnelType
  tu_Status :: TunnelStatus
  tu_BindHost :: string
  tu_BindPort :: int
  tu_TargetHost :: string
  tu_TargetPort :: int
  tu_RemoteBindHost :: string
  tu_RemoteBindPort :: int
  tu_RequestedListen :: string
  tu_ActualListen :: string
  tu_EffectiveRemoteBindHost :: string
  tu_EffectiveListenAddrs :: "string list"
  tu_RemoteListenExposure :: RemoteListenExposure
  tu_RemoteListenCheckStatus :: RemoteListenCheckStatus
  tu_RemoteListenWarning :: string
  tu_TestCommand :: string
  tu_ActiveConnections :: nat
  tu_BytesIn :: int
  tu_BytesOut :: int
  tu_StartedAt :: string
  tu_Error :: string

text \<open>A listener or a transport: not made yet, open or closed.\<close>

datatype resource = ResNone | ResOpen | ResClosed

definition close_resource :: "resource \<Rightarrow> resource" where
  "close_resource r = (if r = ResOpen then ResClosed else r)"

text \<open>
  \<open>wk_owner\<close> is the call that got the transport from \<open>closeRuntimeResources\<close> and has to close it
  when it returns; the code keeps it in a variable of that call. \<open>wk_accept\<close> is what the accept
  loop saw when its \<open>Accept\<close> failed.
\<close>

record worker =
  wk_state :: TunnelRuntime
  wk_request :: StartTunnelRequest
  wk_serverHost :: string
  wk_serverUser :: string
  wk_canceled :: bool
  wk_listener :: resource
  wk_transport :: resource
  wk_conns :: "nat list"
  wk_pairs :: nat
  wk_stopping :: bool
  wk_owner :: "nat option"
  wk_accept :: bool

text \<open>The tunnels ever made, by their identifiers, and those in the map of the manager.\<close>

record tunnel_manager =
  tm_made :: "string \<Rightarrow> worker option"
  tm_workers :: "string list"

definition no_tunnels :: tunnel_manager where
  "no_tunnels = \<lparr>tm_made = (\<lambda>_. None), tm_workers = []\<rparr>"

definition new_worker :: "string \<Rightarrow> string \<Rightarrow> string \<Rightarrow> StartTunnelRequest \<Rightarrow> worker" where
  "new_worker newID host user r =
     \<lparr>wk_state =
        \<lparr>tu_TunnelID = newID, tu_ServerID = tr_ServerID r, tu_ProfileID = tr_ProfileID r, tu_Name = tr_Name r,
         tu_Type = tr_Type r, tu_Status = TunnelStatusStarting, tu_BindHost = tr_BindHost r,
         tu_BindPort = tr_BindPort r, tu_TargetHost = tr_TargetHost r, tu_TargetPort = tr_TargetPort r,
         tu_RemoteBindHost = tr_RemoteBindHost r, tu_RemoteBindPort = tr_RemoteBindPort r,
         tu_RequestedListen = requestedListen r, tu_ActualListen = [], tu_EffectiveRemoteBindHost = [],
         tu_EffectiveListenAddrs = [], tu_RemoteListenExposure = RemoteListenExposureUnknown,
         tu_RemoteListenCheckStatus = RemoteListenUnchecked, tu_RemoteListenWarning = [],
         tu_TestCommand = [], tu_ActiveConnections = 0, tu_BytesIn = 0, tu_BytesOut = 0,
         tu_StartedAt = [], tu_Error = []\<rparr>,
      wk_request = r, wk_serverHost = host, wk_serverUser = user, wk_canceled = False,
      wk_listener = ResNone, wk_transport = ResNone, wk_conns = [], wk_pairs = 0,
      wk_stopping = False, wk_owner = None, wk_accept = False\<rparr>"

definition setStatus :: "TunnelStatus \<Rightarrow> string \<Rightarrow> worker \<Rightarrow> worker" where
  "setStatus status message w = w\<lparr>wk_state := (wk_state w)\<lparr>tu_Status := status, tu_Error := message\<rparr>\<rparr>"

definition updateRemoteListen :: "remoteListenResult \<Rightarrow> worker \<Rightarrow> worker" where
  "updateRemoteListen r w =
     w\<lparr>wk_state := (wk_state w)
         \<lparr>tu_RequestedListen := requestedListen (wk_request w), tu_ActualListen := rl_ActualListen r,
          tu_EffectiveRemoteBindHost := rl_EffectiveHost r, tu_EffectiveListenAddrs := rl_EffectiveAddrs r,
          tu_RemoteListenExposure := rl_Exposure r, tu_RemoteListenCheckStatus := rl_Status r,
          tu_RemoteListenWarning := rl_Warning r,
          tu_TestCommand := testCommand (wk_serverHost w) (wk_serverUser w) (wk_request w) r\<rparr>\<rparr>"

definition closeRuntimeResources :: "bool \<Rightarrow> nat \<Rightarrow> worker \<Rightarrow> worker" where
  "closeRuntimeResources closeTransport caller w =
     (if wk_stopping w then w
      else let w = w\<lparr>wk_stopping := True, wk_canceled := True,
                     wk_listener := close_resource (wk_listener w)\<rparr>
        in if closeTransport then w\<lparr>wk_transport := close_resource (wk_transport w)\<rparr>
           else if wk_transport w = ResNone then w else w\<lparr>wk_owner := Some caller\<rparr>)"

definition addPair :: "nat \<Rightarrow> nat \<Rightarrow> worker \<Rightarrow> worker" where
  "addPair left right w =
     w\<lparr>wk_conns := List.insert left (List.insert right (wk_conns w)), wk_pairs := wk_pairs w + 1,
       wk_state := (wk_state w)\<lparr>tu_ActiveConnections := wk_pairs w + 1\<rparr>\<rparr>"

definition removePair :: "nat \<Rightarrow> nat \<Rightarrow> worker \<Rightarrow> worker" where
  "removePair left right w =
     (let pairs = (if wk_pairs w > 0 then wk_pairs w - 1 else wk_pairs w)
      in w\<lparr>wk_conns := removeAll left (removeAll right (wk_conns w)), wk_pairs := pairs,
           wk_state := (wk_state w)\<lparr>tu_ActiveConnections := pairs\<rparr>\<rparr>)"

section \<open>Atomic actions\<close>

datatype worker_action =
    ActListen int
  | ActDial
  | ActRemoteListen
  | ActCancel
  | ActChecked remoteListenResult
  | ActStatus TunnelStatus string
  | ActStarted string
  | ActClose bool nat
  | ActCloseOwned nat
  | ActAcceptFailed
  | ActAcceptStatus string
  | ActAddPair nat nat
  | ActRemovePair nat nat
  | ActBytesIn int
  | ActBytesOut int

fun worker_act :: "worker_action \<Rightarrow> worker \<Rightarrow> worker" where
  "worker_act (ActListen port) w =
     w\<lparr>wk_listener := ResOpen, wk_state := (wk_state w)\<lparr>tu_BindPort := port\<rparr>\<rparr>"
| "worker_act ActDial w = w\<lparr>wk_transport := ResOpen\<rparr>"
| "worker_act ActRemoteListen w = w\<lparr>wk_listener := ResOpen\<rparr>"
| "worker_act ActCancel w = w\<lparr>wk_canceled := True\<rparr>"
| "worker_act (ActChecked r) w = updateRemoteListen r w"
| "worker_act (ActStatus status message) w = setStatus status message w"
| "worker_act (ActStarted now) w = w\<lparr>wk_state := (wk_state w)\<lparr>tu_StartedAt := now\<rparr>\<rparr>"
| "worker_act (ActClose closeTransport caller) w = closeRuntimeResources closeTransport caller w"
| "worker_act (ActCloseOwned caller) w =
     (if wk_owner w = Some caller then w\<lparr>wk_transport := close_resource (wk_transport w)\<rparr> else w)"
| "worker_act ActAcceptFailed w = w\<lparr>wk_accept := \<not> (wk_canceled w \<or> wk_stopping w)\<rparr>"
| "worker_act (ActAcceptStatus message) w =
     (if wk_accept w then setStatus TunnelStatusFailed message w else w)"
| "worker_act (ActAddPair left right) w = addPair left right w"
| "worker_act (ActRemovePair left right) w = removePair left right w"
| "worker_act (ActBytesIn n) w = w\<lparr>wk_state := (wk_state w)\<lparr>tu_BytesIn := tu_BytesIn (wk_state w) + n\<rparr>\<rparr>"
| "worker_act (ActBytesOut n) w = w\<lparr>wk_state := (wk_state w)\<lparr>tu_BytesOut := tu_BytesOut (wk_state w) + n\<rparr>\<rparr>"

datatype tunnel_action =
    TunCreate string string string StartTunnelRequest
  | TunAct string worker_action
  | TunInsert string
  | TunDelete string

fun tunnel_act :: "tunnel_manager \<Rightarrow> tunnel_action \<Rightarrow> tunnel_manager" where
  "tunnel_act m (TunCreate newID host user r) = m\<lparr>tm_made := (tm_made m)(newID \<mapsto> new_worker newID host user r)\<rparr>"
| "tunnel_act m (TunAct k a) = m\<lparr>tm_made := (tm_made m)(k := map_option (worker_act a) (tm_made m k))\<rparr>"
| "tunnel_act m (TunInsert k) = m\<lparr>tm_workers := List.insert k (tm_workers m)\<rparr>"
| "tunnel_act m (TunDelete k) = m\<lparr>tm_workers := removeAll k (tm_workers m)\<rparr>"

definition tunnel_run :: "tunnel_manager \<Rightarrow> tunnel_action list \<Rightarrow> tunnel_manager" where
  "tunnel_run = foldl tunnel_act"

section \<open>The operations\<close>

text \<open>\<open>setup\<close>: what it opens, in order. It fails after any number of these steps.\<close>

definition setup_steps :: "TunnelType \<Rightarrow> int \<Rightarrow> worker_action list" where
  "setup_steps typ port =
     (if typ = TunnelTypeRemote then [ActDial, ActRemoteListen] else [ActListen port, ActDial])"

definition start_steps ::
  "string \<Rightarrow> string \<Rightarrow> string \<Rightarrow> StartTunnelRequest \<Rightarrow> int \<Rightarrow> remoteListenResult \<Rightarrow> string \<Rightarrow> tunnel_action list \<times> tunnel_action list" where
  "start_steps newID host user r port probe now =
     (TunCreate newID host user r # map (TunAct newID) (setup_steps (tr_Type r) port),
      map (TunAct newID)
        ((if tr_Type r = TunnelTypeRemote then [ActChecked probe] else []) @
         [ActStatus TunnelStatusRunning [], ActStarted now]) @ [TunInsert newID])"

definition start_failed_steps ::
  "string \<Rightarrow> string \<Rightarrow> string \<Rightarrow> StartTunnelRequest \<Rightarrow> int \<Rightarrow> nat \<Rightarrow> nat \<Rightarrow> string \<Rightarrow> tunnel_action list" where
  "start_failed_steps newID host user r port done caller message =
     TunCreate newID host user r #
     map (TunAct newID) (take done (setup_steps (tr_Type r) port) @
       [ActCancel, ActClose True caller, ActStatus TunnelStatusFailed message])"

definition unchecked_steps :: "string \<Rightarrow> remoteListenResult \<Rightarrow> nat \<Rightarrow> string \<Rightarrow> tunnel_action list" where
  "unchecked_steps k probe caller message =
     map (TunAct k) [ActChecked probe, ActCancel, ActClose True caller, ActStatus TunnelStatusFailed message]"

text \<open>\<open>stopWorker\<close>; the last argument is the error of the check that the port is free again.\<close>

definition stop_steps :: "string \<Rightarrow> nat \<Rightarrow> string option \<Rightarrow> tunnel_action list" where
  "stop_steps k caller release =
     map (TunAct k) [ActStatus TunnelStatusStopping [], ActClose False caller] @
     (case release of
        None \<Rightarrow> [TunAct k (ActStatus TunnelStatusStopped []), TunDelete k]
      | Some message \<Rightarrow> [TunAct k (ActStatus TunnelStatusFailed message)]) @
     [TunAct k (ActCloseOwned caller)]"

definition keepalive_steps :: "string \<Rightarrow> nat \<Rightarrow> tunnel_action list" where
  "keepalive_steps k caller =
     map (TunAct k) [ActClose True caller, ActStatus TunnelStatusFailed (zh [83, 83, 72, 32, 20445, 27963, 22833, 36133, 65292, 31471, 21475, 36716, 21457, 24050, 20572, 27490])] @
     [TunDelete k]"

definition check_steps :: "string \<Rightarrow> nat \<Rightarrow> remoteListenResult \<Rightarrow> tunnel_action list" where
  "check_steps k caller probe =
     map (TunAct k) (ActChecked probe #
       (if rl_Status probe = RemoteListenNotFound
        then [ActStatus TunnelStatusFailed (zh [36828, 31243, 31471, 21475, 26410, 30417, 21548, 65292, 38567, 36947, 21551, 21160, 22833, 36133]), ActClose True caller] else []))"

definition accept_failed_steps :: "string \<Rightarrow> string \<Rightarrow> tunnel_action list" where
  "accept_failed_steps k message = map (TunAct k) [ActAcceptFailed, ActAcceptStatus message]"

text \<open>\<open>proxyPair\<close>, once both ends are connected.\<close>

definition pair_steps :: "string \<Rightarrow> nat \<Rightarrow> nat \<Rightarrow> int list \<Rightarrow> int list \<Rightarrow> tunnel_action list" where
  "pair_steps k left right ins outs =
     map (TunAct k) (ActAddPair left right # map ActBytesIn ins @ map ActBytesOut outs @ [ActRemovePair left right])"

text \<open>\<open>StopServer\<close> stops the tunnels of the map; it does not check the ports.\<close>

definition workersForServer :: "int \<Rightarrow> tunnel_manager \<Rightarrow> string list" where
  "workersForServer serverID m =
     filter (\<lambda>k. case tm_made m k of None \<Rightarrow> False | Some w \<Rightarrow> tu_ServerID (wk_state w) = serverID) (tm_workers m)"

definition StopServer :: "int \<Rightarrow> nat \<Rightarrow> tunnel_manager \<Rightarrow> tunnel_action list" where
  "StopServer serverID caller m = concat (map (\<lambda>k. stop_steps k caller None) (workersForServer serverID m))"

section \<open>Nothing leaks\<close>

text \<open>What runs on a tunnel after its setup, as operations.\<close>

datatype tunnel_op =
    OpRunning remoteListenResult string
  | OpUnchecked remoteListenResult nat string
  | OpStop nat "string option"
  | OpKeepalive nat
  | OpCheck nat remoteListenResult
  | OpAcceptFailed string
  | OpPair nat nat "int list" "int list"

fun op_steps :: "string \<Rightarrow> StartTunnelRequest \<Rightarrow> tunnel_op \<Rightarrow> tunnel_action list" where
  "op_steps k r (OpRunning probe now) = snd (start_steps k [] [] r 0 probe now)"
| "op_steps k r (OpUnchecked probe caller message) = unchecked_steps k probe caller message"
| "op_steps k r (OpStop caller release) = stop_steps k caller release"
| "op_steps k r (OpKeepalive caller) = keepalive_steps k caller"
| "op_steps k r (OpCheck caller probe) = check_steps k caller probe"
| "op_steps k r (OpAcceptFailed message) = accept_failed_steps k message"
| "op_steps k r (OpPair left right ins outs) = pair_steps k left right ins outs"

fun closing :: "tunnel_op \<Rightarrow> bool" where
  "closing (OpUnchecked probe caller message) = True"
| "closing (OpStop caller release) = True"
| "closing (OpKeepalive caller) = True"
| "closing (OpCheck caller probe) = (rl_Status probe = RemoteListenNotFound)"
| "closing _ = False"

fun interleavings :: "'a list list \<Rightarrow> 'a list set" where
  "interleavings [] = {[]}"
| "interleavings (t # ts) = (\<Union>zs \<in> interleavings ts. shuffles t zs)"

lemma set_interleavings: "zs \<in> interleavings ts \<Longrightarrow> set zs = (\<Union>t \<in> set ts. set t)"
  by (induction ts arbitrary: zs) (auto simp: set_shuffles)

text \<open>A call that got the transport closes it later; nothing sets the tunnel up again.\<close>

fun owed :: "tunnel_action \<Rightarrow> tunnel_action list \<Rightarrow> bool" where
  "owed (TunAct k (ActClose False caller)) xs \<longleftrightarrow> TunAct k (ActCloseOwned caller) \<in> set xs"
| "owed _ xs \<longleftrightarrow> True"

fun closes_follow :: "tunnel_action list \<Rightarrow> bool" where
  "closes_follow [] \<longleftrightarrow> True"
| "closes_follow (a # xs) \<longleftrightarrow> owed a xs \<and> closes_follow xs"

fun sets_up :: "string \<Rightarrow> tunnel_action \<Rightarrow> bool" where
  "sets_up k (TunCreate newID host user r) \<longleftrightarrow> newID = k"
| "sets_up k (TunAct j a) \<longleftrightarrow> j = k \<and> (case a of ActListen port \<Rightarrow> True | ActDial \<Rightarrow> True | ActRemoteListen \<Rightarrow> True | _ \<Rightarrow> False)"
| "sets_up k _ \<longleftrightarrow> False"

lemma owed_mono: "owed a xs \<Longrightarrow> set xs \<subseteq> set ys \<Longrightarrow> owed a ys"
  by (induction a xs rule: owed.induct) auto

lemma closes_follow_shuffles:
  "zs \<in> shuffles xs ys \<Longrightarrow> closes_follow xs \<Longrightarrow> closes_follow ys \<Longrightarrow> closes_follow zs"
proof (induction xs ys arbitrary: zs rule: shuffles.induct)
  case (3 x xs y ys)
  from 3(3) consider zs' where "zs = x # zs'" "zs' \<in> shuffles xs (y # ys)"
    | zs' where "zs = y # zs'" "zs' \<in> shuffles (x # xs) ys" by auto
  then show ?case
  proof cases
    case 1
    then have "set xs \<subseteq> set zs'" by (auto simp: set_shuffles)
    then show ?thesis using 1 3 owed_mono by auto
  next
    case 2
    then have "set ys \<subseteq> set zs'" by (auto simp: set_shuffles)
    then show ?thesis using 2 3 owed_mono by auto
  qed
qed auto

lemma closes_follow_interleavings:
  "zs \<in> interleavings ts \<Longrightarrow> list_all closes_follow ts \<Longrightarrow> closes_follow zs"
  by (induction ts arbitrary: zs) (auto intro: closes_follow_shuffles)

lemma closes_follow_plain:
  "list_all (\<lambda>a. \<forall>xs. owed a xs) ys \<Longrightarrow> closes_follow ys"
  by (induction ys) auto

lemma op_closes_follow: "closes_follow (op_steps k r op)"
  by (cases op)
    (auto simp: start_steps_def unchecked_steps_def stop_steps_def keepalive_steps_def check_steps_def
      accept_failed_steps_def pair_steps_def list_all_iff split: option.splits intro!: closes_follow_plain)

lemma op_no_setup: "a \<in> set (op_steps k r op) \<Longrightarrow> \<not> sets_up k a"
  by (cases op)
    (auto simp: start_steps_def unchecked_steps_def stop_steps_def keepalive_steps_def check_steps_def
      accept_failed_steps_def pair_steps_def split: option.splits if_splits)

lemma op_closing:
  "closing op \<Longrightarrow> \<exists>t c. TunAct k (ActClose t c) \<in> set (op_steps k r op)"
  by (cases op) (auto simp: unchecked_steps_def stop_steps_def keepalive_steps_def check_steps_def)

text \<open>The transport of a closed tunnel is closed, or a call that will close it is named.\<close>

definition let_go :: "string \<Rightarrow> tunnel_action list \<Rightarrow> worker \<Rightarrow> bool" where
  "let_go k xs w \<longleftrightarrow>
     wk_listener w \<noteq> ResNone \<and> wk_transport w \<noteq> ResNone \<and>
     (wk_stopping w \<longrightarrow> wk_canceled w \<and> wk_listener w \<noteq> ResOpen \<and>
        (wk_transport w = ResOpen \<longrightarrow> (\<exists>c. wk_owner w = Some c \<and> TunAct k (ActCloseOwned c) \<in> set xs)))"

lemma close_resource_simps [simp]:
  "close_resource r \<noteq> ResOpen" "close_resource r = ResNone \<longleftrightarrow> r = ResNone"
  by (auto simp: close_resource_def)

lemma worker_act_let_go:
  assumes "let_go k (TunAct k a # xs) w" "owed (TunAct k a) xs" "\<not> sets_up k (TunAct k a)"
  shows "let_go k xs (worker_act a w)"
proof (cases a)
  case (ActClose t c)
  then show ?thesis using assms by (cases t) (auto simp: let_go_def closeRuntimeResources_def Let_def)
next
  case (ActCloseOwned c)
  then show ?thesis using assms by (auto simp: let_go_def)
qed (use assms in \<open>auto simp: let_go_def setStatus_def updateRemoteListen_def addPair_def removePair_def Let_def\<close>)

lemma tunnel_run_let_go:
  "tm_made m k = Some w \<Longrightarrow> let_go k xs w \<Longrightarrow> closes_follow xs \<Longrightarrow> list_all (\<lambda>a. \<not> sets_up k a) xs \<Longrightarrow>
   \<exists>w'. tm_made (tunnel_run m xs) k = Some w' \<and> let_go k [] w' \<and> (wk_stopping w \<longrightarrow> wk_stopping w') \<and>
     ((\<exists>t c. TunAct k (ActClose t c) \<in> set xs) \<longrightarrow> wk_stopping w')"
proof (induction xs arbitrary: m w)
  case (Cons a xs)
  obtain w1 where w1: "tm_made (tunnel_act m a) k = Some w1" "let_go k xs w1"
      "wk_stopping w \<longrightarrow> wk_stopping w1" "(\<exists>t c. a = TunAct k (ActClose t c)) \<longrightarrow> wk_stopping w1"
  proof (cases "\<exists>b. a = TunAct k b")
    case True
    then obtain b where b: "a = TunAct k b" by blast
    have "let_go k xs (worker_act b w)"
      using worker_act_let_go [of k b xs w] Cons.prems b by simp
    moreover have "wk_stopping w \<longrightarrow> wk_stopping (worker_act b w)"
      by (cases b) (auto simp: closeRuntimeResources_def setStatus_def updateRemoteListen_def addPair_def removePair_def Let_def)
    moreover have "wk_stopping (worker_act (ActClose t c) w)" for t c
      by (simp add: closeRuntimeResources_def Let_def)
    ultimately show ?thesis using that [of "worker_act b w"] b Cons.prems(1) by fastforce
  next
    case False
    then have "tm_made (tunnel_act m a) k = Some w"
      using Cons.prems(1,4) by (cases a) auto
    moreover have "let_go k xs w" using Cons.prems(2) False by (auto simp: let_go_def)
    ultimately show ?thesis using that False by blast
  qed
  have rest: "closes_follow xs" "list_all (\<lambda>a. \<not> sets_up k a) xs" using Cons.prems by simp_all
  from Cons.IH [OF w1(1,2) rest] show ?case
    using w1(3,4) by (auto simp: tunnel_run_def)
qed (simp add: tunnel_run_def)

lemma setup_done:
  "case tm_made (tunnel_run m (fst (start_steps k host user r port probe now))) k of
     None \<Rightarrow> False
   | Some w \<Rightarrow> wk_listener w = ResOpen \<and> wk_transport w = ResOpen \<and> \<not> wk_stopping w"
  by (cases "tr_Type r = TunnelTypeRemote")
    (simp_all add: start_steps_def setup_steps_def tunnel_run_def new_worker_def)

text \<open>
  C24: A tunnel that ends lets everything go. Take a tunnel that has been set up, and any stops,
  failed keepalives, checks of its port, failed accepts and proxied connections, in any
  interleaving: if one of them closes the tunnel then, once all have returned, its listener and
  its SSH transport are closed and its context is canceled.
\<close>

theorem tunnel_no_leak:
  assumes "zs \<in> interleavings (map (op_steps k r) ops)" "list_ex closing ops"
  shows "case tm_made (tunnel_run m (fst (start_steps k host user r port probe now) @ zs)) k of
      None \<Rightarrow> False
    | Some w \<Rightarrow> wk_listener w = ResClosed \<and> wk_transport w = ResClosed \<and> wk_canceled w"
proof -
  let ?m = "tunnel_run m (fst (start_steps k host user r port probe now))"
  obtain w where w: "tm_made ?m k = Some w" "wk_listener w = ResOpen" "wk_transport w = ResOpen" "\<not> wk_stopping w"
    using setup_done [of m k host user r port probe now] by (auto split: option.splits)
  have "let_go k zs w" using w by (simp add: let_go_def)
  moreover have "closes_follow zs"
    using assms(1) by (rule closes_follow_interleavings) (auto simp: list_all_iff op_closes_follow)
  moreover have set_zs: "set zs = (\<Union>op \<in> set ops. set (op_steps k r op))"
    using set_interleavings [OF assms(1)] by auto
  then have "list_all (\<lambda>a. \<not> sets_up k a) zs" using op_no_setup by (auto simp: list_all_iff)
  ultimately obtain w' where w': "tm_made (tunnel_run ?m zs) k = Some w'" "let_go k [] w'"
    "(\<exists>t c. TunAct k (ActClose t c) \<in> set zs) \<longrightarrow> wk_stopping w'"
    using tunnel_run_let_go [OF w(1)] by blast
  obtain op where op: "op \<in> set ops" "closing op" using assms(2) by (auto simp: list_ex_iff)
  obtain t c where "TunAct k (ActClose t c) \<in> set (op_steps k r op)" using op_closing [OF op(2)] by blast
  then have "TunAct k (ActClose t c) \<in> set zs" using op(1) unfolding set_zs by (rule UN_I [rotated])
  then have "wk_stopping w'" using w'(3) by blast
  then have "wk_listener w' = ResClosed \<and> wk_transport w' = ResClosed \<and> wk_canceled w'"
    using w'(2) by (cases "wk_listener w'"; cases "wk_transport w'") (auto simp: let_go_def)
  then show ?thesis using w'(1) by (simp add: tunnel_run_def)
qed

lemma tunnel_no_leak_witness:
  "case tm_made (tunnel_run no_tunnels
       (fst (start_steps ''t'' ''h'' ''u'' (sample_tunnel ''127.0.0.1'') 8080 unknownRemoteListenResult ''now'') @
        [TunAct ''t'' (ActStatus TunnelStatusStopping []), TunAct ''t'' (ActStatus TunnelStatusRunning []),
         TunAct ''t'' (ActClose False 1), TunAct ''t'' (ActStarted ''now''),
         TunAct ''t'' (ActStatus TunnelStatusStopped []), TunDelete ''t'', TunAct ''t'' (ActCloseOwned 1),
         TunInsert ''t''])) ''t'' of
     None \<Rightarrow> False
   | Some w \<Rightarrow> wk_listener w = ResClosed \<and> wk_transport w = ResClosed \<and> wk_canceled w"
proof (rule tunnel_no_leak)
  show "[TunAct ''t'' (ActStatus TunnelStatusStopping []), TunAct ''t'' (ActStatus TunnelStatusRunning []),
         TunAct ''t'' (ActClose False 1), TunAct ''t'' (ActStarted ''now''),
         TunAct ''t'' (ActStatus TunnelStatusStopped []), TunDelete ''t'', TunAct ''t'' (ActCloseOwned 1),
         TunInsert ''t''] \<in>
      interleavings (map (op_steps ''t'' (sample_tunnel ''127.0.0.1''))
        [OpRunning unknownRemoteListenResult ''now'', OpStop 1 None])"
    by (simp add: start_steps_def stop_steps_def sample_tunnel_def)
qed simp

section \<open>What goes wrong\<close>

text \<open>
  A tunnel whose keepalive fails while it is still being started is shown as running. The
  keepalive is started before \<open>Start\<close> marks the tunnel as running and puts it into the map: a
  failure in between closes everything, and then \<open>Start\<close> puts the dead tunnel into the map, as
  running and without an error, where it stays.
\<close>

theorem dead_tunnel_running:
  "\<exists>zs \<in> interleavings (map (op_steps k r) [OpRunning probe now, OpKeepalive caller]).
     case tm_made (tunnel_run no_tunnels (fst (start_steps k host user r port probe now) @ zs)) k of
       None \<Rightarrow> False
     | Some w \<Rightarrow> tu_Status (wk_state w) = TunnelStatusRunning \<and> tu_Error (wk_state w) = [] \<and>
         wk_listener w = ResClosed \<and> wk_transport w = ResClosed \<and>
         k \<in> set (tm_workers (tunnel_run no_tunnels (fst (start_steps k host user r port probe now) @ zs)))"
proof -
  let ?zs = "keepalive_steps k caller @ op_steps k r (OpRunning probe now)"
  have "xs @ ys \<in> shuffles xs ys" for xs ys :: "tunnel_action list"
    by (induction xs) (auto intro: Cons_in_shuffles_leftI)
  then have append: "xs @ ys \<in> shuffles ys xs" for xs ys :: "tunnel_action list"
    by (metis shuffles_commutes)
  have "?zs \<in> interleavings (map (op_steps k r) [OpRunning probe now, OpKeepalive caller])"
    using append by simp
  moreover have "case tm_made (tunnel_run no_tunnels (fst (start_steps k host user r port probe now) @ ?zs)) k of
       None \<Rightarrow> False
     | Some w \<Rightarrow> tu_Status (wk_state w) = TunnelStatusRunning \<and> tu_Error (wk_state w) = [] \<and>
         wk_listener w = ResClosed \<and> wk_transport w = ResClosed \<and>
         k \<in> set (tm_workers (tunnel_run no_tunnels (fst (start_steps k host user r port probe now) @ ?zs)))"
    by (cases "tr_Type r = TunnelTypeRemote")
      (simp_all add: start_steps_def setup_steps_def keepalive_steps_def tunnel_run_def no_tunnels_def
        new_worker_def closeRuntimeResources_def setStatus_def updateRemoteListen_def Let_def close_resource_def)
  ultimately show ?thesis by blast
qed

text \<open>
  An explicit disconnect misses a tunnel that is being started. The tunnel is not in the map
  until it runs, so \<open>StopServer\<close> does nothing for it, and it comes up after the disconnect with
  its listener open.
\<close>

theorem disconnect_misses_starting:
  "StopServer (tr_ServerID r) caller
     (tunnel_run no_tunnels (fst (start_steps k host user r port probe now))) = [] \<and>
   (case tm_made (tunnel_run no_tunnels
       (fst (start_steps k host user r port probe now) @ snd (start_steps k host user r port probe now))) k of
      None \<Rightarrow> False
    | Some w \<Rightarrow> tu_Status (wk_state w) = TunnelStatusRunning \<and> wk_listener w = ResOpen \<and> wk_transport w = ResOpen \<and>
        workersForServer (tr_ServerID r) (tunnel_run no_tunnels
          (fst (start_steps k host user r port probe now) @ snd (start_steps k host user r port probe now))) = [k])"
  by (cases "tr_Type r = TunnelTypeRemote")
    (simp_all add: StopServer_def workersForServer_def start_steps_def setup_steps_def tunnel_run_def
      no_tunnels_def new_worker_def setStatus_def updateRemoteListen_def)

section \<open>Connections are counted\<close>

definition counted :: "tunnel_manager \<Rightarrow> bool" where
  "counted m \<longleftrightarrow> (\<forall>k w. tm_made m k = Some w \<longrightarrow> tu_ActiveConnections (wk_state w) = wk_pairs w)"

lemma worker_act_counted:
  "tu_ActiveConnections (wk_state w) = wk_pairs w \<Longrightarrow>
   tu_ActiveConnections (wk_state (worker_act a w)) = wk_pairs (worker_act a w)"
  by (cases a) (auto simp: closeRuntimeResources_def setStatus_def updateRemoteListen_def addPair_def
      removePair_def Let_def)

interpretation tunnels: invariant_component tunnel_act counted
proof
  fix m x assume "counted m"
  then show "counted (tunnel_act m x)"
    by (cases x) (auto simp: counted_def worker_act_counted new_worker_def)
qed

lemma tunnel_counts: "counted (tunnel_run no_tunnels xs)"
  unfolding tunnel_run_def by (rule tunnels.run_keeps) (simp add: counted_def no_tunnels_def)

end
