(* ===== verification/Credential.thy ===== *)
theory Credential
  imports ConnError GoIO "HOL-Library.AList" "HOL-Library.Code_Target_Numeral"
begin

text \<open>
  Package \<open>internal/credential\<close> (\<open>resolver.go\<close>): which password or key passphrase a connection logs in
  with, and how one is saved to the secret store of the system and forgotten again. The database
  holds references, the secret store the secrets; both, the files and the key vault are calls on an
  unknown state that may fail. The parsing of keys is that of \<open>golang.org/x/crypto/ssh\<close>, an argument.
  Overwriting buffers with zeros has no counterpart here.
\<close>

section \<open>The types\<close>

definition CodeAuthenticationRequired :: string where
  "CodeAuthenticationRequired = ''authentication_required''"
definition CodeCredentialUnavailable :: string where
  "CodeCredentialUnavailable = ''credential_unavailable''"
definition CodeCredentialInvalid :: string where
  "CodeCredentialInvalid = ''credential_invalid''"
definition CodePrivateKeyUnavailable :: string where
  "CodePrivateKeyUnavailable = ''private_key_unavailable''"
definition CodePrivateKeyInvalid :: string where
  "CodePrivateKeyInvalid = ''private_key_invalid''"

definition missingKeyVaultMessage :: string where
  "missingKeyVaultMessage = (zh [35813, 26381, 21153, 22120, 20351, 29992, 30340, 23494, 38053, 24050, 34987, 21024, 38500, 65292, 35831, 37325, 26032, 36873, 25321, 23494, 38053, 12290])"

definition credential_error :: "string \<Rightarrow> string \<Rightarrow> goerr" where
  "credential_error code message =
     GoErr \<lparr>node_text = message, node_kind = KCredential code message, node_fingerprints = None,
            node_timeout = None\<rparr> []"

definition ErrorCode :: "goerr \<Rightarrow> string" where
  "ErrorCode err =
     (case errors_As node_is_credential err of
        None \<Rightarrow> []
      | Some e \<Rightarrow> (case node_kind (err_node e) of KCredential code _ \<Rightarrow> code | _ \<Rightarrow> []))"

record KeyVaultEntry =
  kve_ID :: int
  kve_Name :: string
  kve_PrivateKeyPath :: string
  kve_StorageMode :: string
  kve_SourceFileName :: string
  kve_Algorithm :: string
  kve_KeyBits :: int
  kve_PublicKeyFingerprintSHA256 :: string
  kve_Encrypted :: bool
  kve_RequiresPassphrase :: bool
  kve_ProtectionVersion :: int
  kve_ProtectedKeyBlob :: string
  kve_PassphraseCredentialRef :: string
  kve_PassphraseSaved :: bool
  kve_UsageCount :: int
  kve_Notes :: string
  kve_CreatedAt :: string
  kve_UpdatedAt :: string
  kve_LastUsedAt :: string

definition no_entry :: KeyVaultEntry where
  "no_entry =
     \<lparr>kve_ID = 0, kve_Name = [], kve_PrivateKeyPath = [], kve_StorageMode = [], kve_SourceFileName = [],
      kve_Algorithm = [], kve_KeyBits = 0, kve_PublicKeyFingerprintSHA256 = [], kve_Encrypted = False,
      kve_RequiresPassphrase = False, kve_ProtectionVersion = 0, kve_ProtectedKeyBlob = [],
      kve_PassphraseCredentialRef = [], kve_PassphraseSaved = False, kve_UsageCount = 0, kve_Notes = [],
      kve_CreatedAt = [], kve_UpdatedAt = [], kve_LastUsedAt = []\<rparr>"

definition KeyVaultStorageEncryptedDatabase :: string where
  "KeyVaultStorageEncryptedDatabase = ''encrypted_database''"

record AuthRequest =
  au_Password :: string
  au_Passphrase :: string
  au_TrustUnknownHost :: bool
  au_RememberSecret :: bool
  au_SecretUpdateMode :: SecretUpdateMode
  au_TrustChangedHost :: bool
  au_PersistHostKey :: bool
  au_ResolvedFromStore :: bool
  au_ResolvedPrivateKeyPath :: string
  au_ResolvedPrivateKeyPEM :: string
  au_ResolvedKeyVaultID :: int

record AuthenticationState =
  as_ConnectionID :: int
  as_CanAuthenticate :: bool
  as_CredentialSaved :: bool
  as_CredentialUsable :: bool
  as_PrivateKeyEncrypted :: bool
  as_HostTrusted :: bool
  as_ReasonCode :: string
  as_Message :: string

text \<open>What a key parses to without a passphrase.\<close>

datatype parsed_key = KeyParsed | KeyPassphraseMissing | KeyMalformed

record 's key_vault =
  kv_Get :: "int \<Rightarrow> ('s, goerr, KeyVaultEntry) call"
  kv_SetPassphraseRef :: "int \<Rightarrow> string \<Rightarrow> ('s, goerr, unit) call"
  kv_UpdateLastUsed :: "int \<Rightarrow> ('s, goerr, unit) call"

record 's resolver =
  ref_Get :: "int \<Rightarrow> string \<Rightarrow> ('s, goerr, string) call"
  ref_List :: "int \<Rightarrow> ('s, goerr, string list) call"
  ref_Set :: "int \<Rightarrow> string \<Rightarrow> string \<Rightarrow> ('s, goerr, unit) call"
  ref_Delete :: "int \<Rightarrow> string \<Rightarrow> ('s, goerr, string) call"
  ref_DeleteAll :: "int \<Rightarrow> ('s, goerr, string list) call"
  rv_keyVault :: "'s key_vault option"
  sec_Get :: "string \<Rightarrow> ('s, goerr, string) call"
  sec_Set :: "string \<Rightarrow> string \<Rightarrow> ('s, goerr, unit) call"
  sec_Delete :: "string \<Rightarrow> ('s, goerr, unit) call"
  rv_Unprotect :: "(string \<Rightarrow> ('s, goerr, string) call) option"
  rv_ReadFile :: "string \<Rightarrow> ('s, goerr, string) call"
  rv_Parse :: "string \<Rightarrow> parsed_key"
  rv_ParseWith :: "string \<Rightarrow> string \<Rightarrow> bool"

section \<open>Names of secrets\<close>

definition Kind :: "Connection \<Rightarrow> string" where
  "Kind connection = (if conn_AuthType connection = AuthPassword then ''password'' else ''passphrase'')"

definition Reference :: "int \<Rightarrow> string \<Rightarrow> string" where
  "Reference connectionID kind = ''HostDeck/connection/'' @ Itoa connectionID @ ''/'' @ kind"

definition legacyReference :: "int \<Rightarrow> string \<Rightarrow> string" where
  "legacyReference connectionID kind = ''ServerPilot/connection/'' @ Itoa connectionID @ ''/'' @ kind"

definition KeyVaultPassphraseReference :: "int \<Rightarrow> string" where
  "KeyVaultPassphraseReference keyID = ''HostDeck/keyvault/'' @ Itoa keyID @ ''/passphrase''"

definition secretValue :: "Connection \<Rightarrow> AuthRequest \<Rightarrow> string" where
  "secretValue connection auth =
     (if conn_AuthType connection = AuthPassword then au_Password auth else au_Passphrase auth)"

definition requiredMessage :: "Connection \<Rightarrow> string" where
  "requiredMessage connection =
     (if conn_AuthType connection = AuthPassword then ''SSH password is required''
      else ''Private-key passphrase is required'')"

definition keySource :: "Connection \<Rightarrow> PrivateKeySource" where
  "keySource connection =
     (if conn_PrivateKeySource connection = PrivateKeySourceEmpty then PrivateKeySourceLocalFile
      else conn_PrivateKeySource connection)"

section \<open>Reading a secret\<close>

definition secretByReference :: "'s resolver \<Rightarrow> string \<Rightarrow> ('s, goerr, string) io" where
  "secretByReference r reference =
     io_bind (io_try (io_call (sec_Get r reference))) (\<lambda>got. case got of
         Inl err \<Rightarrow>
           if errors_Is KSecretNotFound err
           then io_throw (credential_error CodeCredentialUnavailable ''Saved credential is unavailable'')
           else io_throw err
       | Inr val \<Rightarrow>
           if val = [] then io_throw (credential_error CodeCredentialUnavailable ''Saved credential is empty'')
           else io_return val)"

definition recoverCanonicalSecret :: "'s resolver \<Rightarrow> Connection \<Rightarrow> string \<Rightarrow> ('s, goerr, string) io" where
  "recoverCanonicalSecret r connection kind =
     (let i = conn_ID connection; reference = Reference i kind; legacy = legacyReference i kind
      in io_bind (io_try (secretByReference r reference)) (\<lambda>got. case got of
           Inl err \<Rightarrow>
             if ErrorCode err = CodeCredentialUnavailable
             then io_bind (io_try (secretByReference r legacy)) (\<lambda>old. case old of
                 Inl _ \<Rightarrow> io_throw (credential_error CodeAuthenticationRequired (requiredMessage connection))
               | Inr val \<Rightarrow>
                   io_bind (io_try (io_call (sec_Set r reference val))) (\<lambda>saved. case saved of
                       Inl _ \<Rightarrow> io_bind (io_call (ref_Set r i kind legacy)) (\<lambda>_. io_return val)
                     | Inr _ \<Rightarrow> io_bind (io_call (ref_Set r i kind reference)) (\<lambda>_. io_return val)))
             else io_throw err
         | Inr val \<Rightarrow> io_bind (io_call (ref_Set r i kind reference)) (\<lambda>_. io_return val)))"

text \<open>The entry of the key vault a connection uses, or why there is none.\<close>

definition vault_entry ::
  "'s resolver \<Rightarrow> string \<Rightarrow> Connection \<Rightarrow> ('s, goerr, KeyVaultEntry) io" where
  "vault_entry r missing connection =
     (let none = io_throw (credential_error CodePrivateKeyUnavailable missingKeyVaultMessage)
      in case conn_KeyVaultID connection of
           None \<Rightarrow> none
         | Some i \<Rightarrow>
             if i \<le> 0 then none
             else (case rv_keyVault r of
                 None \<Rightarrow> io_throw (credential_error missing ''Key vault is unavailable'')
               | Some vault \<Rightarrow>
                   io_bind (io_try (io_call (kv_Get vault i))) (\<lambda>got. case got of
                       Inl err \<Rightarrow> if errors_Is KNoRows err then none else io_throw err
                     | Inr entry \<Rightarrow> io_return entry)))"

definition uses_vault :: "Connection \<Rightarrow> bool" where
  "uses_vault connection \<longleftrightarrow>
     conn_AuthType connection = AuthPrivateKey \<and> keySource connection = PrivateKeySourceKeyVault"

definition savedSecret :: "'s resolver \<Rightarrow> Connection \<Rightarrow> ('s, goerr, string) io" where
  "savedSecret r connection =
     (if uses_vault connection
      then io_bind (vault_entry r CodeCredentialUnavailable connection) (\<lambda>entry.
        if kve_PassphraseCredentialRef entry = []
        then io_throw (credential_error CodeAuthenticationRequired ''Private-key passphrase is required'')
        else secretByReference r (kve_PassphraseCredentialRef entry))
      else let kind = Kind connection
        in io_bind (io_try (io_call (ref_Get r (conn_ID connection) kind))) (\<lambda>got. case got of
             Inl err \<Rightarrow> if errors_Is KNoRows err then recoverCanonicalSecret r connection kind else io_throw err
           | Inr reference \<Rightarrow> secretByReference r reference))"

section \<open>Reading a key\<close>

definition effectivePrivateKey ::
  "'s resolver \<Rightarrow> Connection \<Rightarrow> ('s, goerr, string \<times> KeyVaultEntry) io" where
  "effectivePrivateKey r connection =
     (if keySource connection \<noteq> PrivateKeySourceKeyVault then io_return (conn_PrivateKeyPath connection, no_entry)
      else io_bind (vault_entry r CodePrivateKeyUnavailable connection) (\<lambda>entry.
        if kve_PrivateKeyPath entry = []
        then io_throw (credential_error CodePrivateKeyUnavailable ''Key vault private key path is empty'')
        else io_return (kve_PrivateKeyPath entry, entry)))"

definition read_key :: "'s resolver \<Rightarrow> string \<Rightarrow> ('s, goerr, string) io" where
  "read_key r p =
     io_error (\<lambda>_. credential_error CodePrivateKeyUnavailable ''SSH private key is unavailable'')
       (io_call (rv_ReadFile r p))"

definition effectivePrivateKeyBytes ::
  "'s resolver \<Rightarrow> Connection \<Rightarrow> ('s, goerr, string \<times> KeyVaultEntry) io" where
  "effectivePrivateKeyBytes r connection =
     (if keySource connection \<noteq> PrivateKeySourceKeyVault
      then let p = TrimSpace (conn_PrivateKeyPath connection)
        in if p = [] then io_throw (credential_error CodePrivateKeyUnavailable ''SSH private key is unavailable'')
           else io_bind (read_key r p) (\<lambda>bytes. io_return (bytes, no_entry))
      else io_bind (vault_entry r CodePrivateKeyUnavailable connection) (\<lambda>entry.
        if kve_StorageMode entry = KeyVaultStorageEncryptedDatabase
        then if kve_ProtectedKeyBlob entry = []
          then io_throw (credential_error CodePrivateKeyUnavailable ''Key vault private key material is missing'')
          else (case rv_Unprotect r of
              None \<Rightarrow> io_throw (credential_error CodePrivateKeyUnavailable ''Key vault protector is unavailable'')
            | Some unprotect \<Rightarrow>
                io_bind (io_error (\<lambda>err. credential_error CodePrivateKeyUnavailable (err_Error err))
                    (io_call (unprotect (kve_ProtectedKeyBlob entry)))) (\<lambda>bytes. io_return (bytes, entry)))
        else if TrimSpace (kve_PrivateKeyPath entry) = []
        then io_throw (credential_error CodePrivateKeyUnavailable ''Key vault private key path is empty'')
        else io_bind (read_key r (kve_PrivateKeyPath entry)) (\<lambda>bytes. io_return (bytes, entry))))"

section \<open>The operations\<close>

definition no_reason :: "AuthenticationState \<Rightarrow> goerr \<Rightarrow> AuthenticationState" where
  "no_reason st err = st\<lparr>as_ReasonCode := ErrorCode err, as_Message := err_Error err\<rparr>"

definition State :: "'s resolver \<Rightarrow> Connection \<Rightarrow> ('s, goerr, AuthenticationState) io" where
  "State r connection =
     (let st = \<lparr>as_ConnectionID = conn_ID connection, as_CanAuthenticate = False,
            as_CredentialSaved = conn_CredentialSaved connection, as_CredentialUsable = False,
            as_PrivateKeyEncrypted = False, as_HostTrusted = conn_HostKeyFingerprint connection \<noteq> [],
            as_ReasonCode = [], as_Message = []\<rparr>
      in case conn_AuthType connection of
           AuthPassword \<Rightarrow>
             io_bind (io_try (savedSecret r connection)) (\<lambda>got. io_return (case got of
                 Inr _ \<Rightarrow> st\<lparr>as_CanAuthenticate := True, as_CredentialUsable := True\<rparr>
               | Inl err \<Rightarrow> no_reason st err))
         | AuthPrivateKey \<Rightarrow>
             io_bind (io_try (effectivePrivateKeyBytes r connection)) (\<lambda>key. case key of
                 Inl err \<Rightarrow> io_return (no_reason st err)
               | Inr (bytes, entry) \<Rightarrow>
                   let st = (if kve_ID entry \<noteq> 0 then st\<lparr>as_CredentialSaved := kve_PassphraseSaved entry\<rparr> else st)
                   in case rv_Parse r bytes of
                        KeyParsed \<Rightarrow> io_return (st\<lparr>as_CanAuthenticate := True\<rparr>)
                      | KeyMalformed \<Rightarrow>
                          io_return (st\<lparr>as_ReasonCode := CodePrivateKeyInvalid, as_Message := ''SSH private key is invalid''\<rparr>)
                      | KeyPassphraseMissing \<Rightarrow>
                          let st = st\<lparr>as_PrivateKeyEncrypted := True\<rparr>
                          in io_bind (io_try (savedSecret r connection)) (\<lambda>got. io_return (case got of
                               Inl err \<Rightarrow> no_reason st err
                             | Inr passphrase \<Rightarrow>
                                 if rv_ParseWith r bytes passphrase
                                 then st\<lparr>as_CanAuthenticate := True, as_CredentialUsable := True\<rparr>
                                 else st\<lparr>as_ReasonCode := CodeCredentialInvalid,
                                         as_Message := ''Saved private-key passphrase is invalid''\<rparr>)))
         | AuthOther _ \<Rightarrow>
             io_return (st\<lparr>as_ReasonCode := CodeAuthenticationRequired, as_Message := ''Unsupported authentication type''\<rparr>))"

text \<open>The request that comes back beside an error is left out: no caller looks at it.\<close>

definition Resolve :: "'s resolver \<Rightarrow> Connection \<Rightarrow> AuthRequest \<Rightarrow> ('s, goerr, AuthRequest) io" where
  "Resolve r connection auth =
     (case conn_AuthType connection of
        AuthPassword \<Rightarrow>
          if au_Password auth \<noteq> [] then io_return auth
          else io_bind (savedSecret r connection) (\<lambda>val.
            io_return (auth\<lparr>au_Password := val, au_ResolvedFromStore := True\<rparr>))
      | AuthPrivateKey \<Rightarrow>
          io_bind (effectivePrivateKeyBytes r connection) (\<lambda>(bytes, entry).
            let auth = (if kve_ID entry \<noteq> 0 then auth\<lparr>au_ResolvedKeyVaultID := kve_ID entry\<rparr> else auth)
            in case rv_Parse r bytes of
                 KeyParsed \<Rightarrow> io_return (auth\<lparr>au_Passphrase := [], au_ResolvedPrivateKeyPEM := bytes\<rparr>)
               | KeyMalformed \<Rightarrow> io_throw (credential_error CodePrivateKeyInvalid ''SSH private key is invalid'')
               | KeyPassphraseMissing \<Rightarrow>
                   io_bind (if au_Passphrase auth = []
                       then io_bind (savedSecret r connection) (\<lambda>val.
                         io_return (auth\<lparr>au_Passphrase := val, au_ResolvedFromStore := True\<rparr>))
                       else io_return auth) (\<lambda>auth.
                     if rv_ParseWith r bytes (au_Passphrase auth)
                     then io_return (auth\<lparr>au_ResolvedPrivateKeyPEM := bytes\<rparr>)
                     else io_throw (credential_error CodeCredentialInvalid ''Private-key passphrase is invalid'')))
      | AuthOther _ \<Rightarrow> io_throw (credential_error CodeAuthenticationRequired ''Unsupported authentication type''))"

text \<open>A secret goes to the store, then its name to the database; if that fails the secret is deleted.\<close>

definition save_secret ::
  "'s resolver \<Rightarrow> string \<Rightarrow> string \<Rightarrow> string \<Rightarrow> string \<Rightarrow> ('s, goerr, unit) io \<Rightarrow> ('s, goerr, unit) io" where
  "save_secret r storing naming reference val name =
     io_bind (io_error (errorf_wrap storing) (io_call (sec_Set r reference val))) (\<lambda>_.
     io_bind (io_try name) (\<lambda>named. case named of
         Inr _ \<Rightarrow> io_return ()
       | Inl err \<Rightarrow>
           io_bind (io_try (io_call (sec_Delete r reference))) (\<lambda>_. io_throw (errorf_wrap naming err))))"

definition CommitSuccessful :: "'s resolver \<Rightarrow> Connection \<Rightarrow> AuthRequest \<Rightarrow> ('s, goerr, unit) io" where
  "CommitSuccessful r connection auth =
     (if conn_AuthType connection = AuthPrivateKey \<and> au_ResolvedKeyVaultID auth > 0
      then let key = au_ResolvedKeyVaultID auth; reference = KeyVaultPassphraseReference key
        in io_bind
          (if au_Passphrase auth \<noteq> [] \<and> au_RememberSecret auth \<and> \<not> au_ResolvedFromStore auth
           then (case rv_keyVault r of
               None \<Rightarrow>
                 io_bind (io_error (errorf_wrap ''save key-vault passphrase to system store: '')
                     (io_call (sec_Set r reference (au_Passphrase auth)))) (\<lambda>_.
                 io_bind (io_try (io_call (sec_Delete r reference))) (\<lambda>_.
                   io_throw (errors_New ''key vault store is not available'')))
             | Some vault \<Rightarrow>
                 save_secret r ''save key-vault passphrase to system store: '' ''save key-vault credential reference: ''
                   reference (au_Passphrase auth) (io_call (kv_SetPassphraseRef vault key reference)))
           else io_return ()) (\<lambda>_.
          case rv_keyVault r of None \<Rightarrow> io_return () | Some vault \<Rightarrow> io_call (kv_UpdateLastUsed vault key))
      else if au_ResolvedFromStore auth \<or> secretValue connection auth = [] \<or> \<not> au_RememberSecret auth
      then io_return ()
      else let kind = Kind connection; reference = Reference (conn_ID connection) kind
        in save_secret r ''save credential to system store: '' ''save credential reference: ''
             reference (secretValue connection auth) (io_call (ref_Set r (conn_ID connection) kind reference)))"

definition SaveExplicit :: "'s resolver \<Rightarrow> Connection \<Rightarrow> AuthRequest \<Rightarrow> ('s, goerr, unit) io" where
  "SaveExplicit r connection auth =
     (if uses_vault connection \<or> secretValue connection auth = [] then io_return ()
      else let kind = Kind connection; reference = Reference (conn_ID connection) kind
        in io_bind (io_try (io_call (ref_Get r (conn_ID connection) kind))) (\<lambda>existing.
          case existing of
            Inr _ \<Rightarrow>
              io_error (errorf_wrap ''save credential to system store: '')
                (io_call (sec_Set r reference (secretValue connection auth)))
          | Inl err \<Rightarrow>
              if \<not> errors_Is KNoRows err then io_throw err
              else save_secret r ''save credential to system store: '' ''save credential reference: ''
                reference (secretValue connection auth) (io_call (ref_Set r (conn_ID connection) kind reference))))"

definition InspectPrivateKey :: "'s resolver \<Rightarrow> string \<Rightarrow> ('s, goerr, bool) io" where
  "InspectPrivateKey r p =
     io_bind (read_key r p) (\<lambda>bytes. case rv_Parse r bytes of
         KeyParsed \<Rightarrow> io_return False
       | KeyPassphraseMissing \<Rightarrow> io_return True
       | KeyMalformed \<Rightarrow> io_throw (credential_error CodePrivateKeyInvalid ''SSH private key is invalid''))"

fun delete_secrets :: "'s resolver \<Rightarrow> string list \<Rightarrow> ('s, goerr, unit) io" where
  "delete_secrets r [] = io_return ()"
| "delete_secrets r (reference # references) =
     io_bind (io_call (sec_Delete r reference)) (\<lambda>_. delete_secrets r references)"

definition Clear :: "'s resolver \<Rightarrow> int \<Rightarrow> ('s, goerr, unit) io" where
  "Clear r connectionID =
     io_bind (io_call (ref_List r connectionID)) (\<lambda>references.
     io_bind (delete_secrets r references) (\<lambda>_.
     io_bind (io_call (ref_DeleteAll r connectionID)) (\<lambda>_. io_return ())))"

definition ClearKind :: "'s resolver \<Rightarrow> int \<Rightarrow> string \<Rightarrow> ('s, goerr, unit) io" where
  "ClearKind r connectionID kind =
     io_bind (io_call (ref_Delete r connectionID kind)) (\<lambda>reference.
     let canonical = Reference connectionID kind; legacyCanonical = legacyReference connectionID kind
     in delete_secrets r
          ((if reference \<noteq> [] then [reference] else []) @
           (if reference \<noteq> canonical then [canonical] else []) @
           (if reference \<noteq> legacyCanonical then [legacyCanonical] else [])))"

section \<open>Names are never confused\<close>

lemma digit_char_inj: "digit_char a = digit_char b \<Longrightarrow> a < 10 \<Longrightarrow> b < 10 \<Longrightarrow> a = b"
  using digit_val_digit_char by (metis option.inject)

lemma nat_digits_inj: "nat_digits m = nat_digits n \<Longrightarrow> m = n"
proof (induction m arbitrary: n rule: nat_digits.induct)
  case (1 m)
  show ?case
  proof (cases "m < 10 \<or> n < 10")
    case True
    then show ?thesis
      using "1.prems" digit_char_inj
      by (auto simp: nat_digits.simps [of m] nat_digits.simps [of n] split: if_splits dest: sym [of "[]"])
  next
    case False
    then have "nat_digits (m div 10) = nat_digits (n div 10)" "m mod 10 = n mod 10"
      using "1.prems" digit_char_inj [of "m mod 10" "n mod 10"]
      by (simp_all add: nat_digits.simps [of m] nat_digits.simps [of n])
    then show ?thesis using "1.IH" False by (metis div_mult_mod_eq)
  qed
qed

lemma digit_char_sign: "d < 10 \<Longrightarrow> digit_char d \<noteq> CHR ''-'' \<and> digit_char d \<noteq> CHR ''/''"
  using digit_val_digit_char [of d] by (auto simp: digit_val_def)

lemma Itoa_inj: "Itoa i = Itoa j \<Longrightarrow> i = j"
proof -
  have "nat_digits n \<noteq> CHR ''-'' # xs" for n xs
    using nat_digits_chars [of "CHR ''-''" n] digit_char_sign by (metis list.set_intros(1))
  then show "Itoa i = Itoa j \<Longrightarrow> i = j"
    by (auto simp: Itoa_def split: if_splits dest!: nat_digits_inj) metis+
qed

lemma Itoa_no_slash: "CHR ''/'' \<notin> set (Itoa i)"
proof -
  have "CHR ''/'' \<notin> set (nat_digits n)" for n
    using nat_digits_chars [of "CHR ''/''" n] digit_char_sign by metis
  then show ?thesis by (simp add: Itoa_def)
qed

lemma numbered_inj: "Itoa i @ CHR ''/'' # k = Itoa j @ CHR ''/'' # l \<longleftrightarrow> i = j \<and> k = l"
proof
  assume "Itoa i @ CHR ''/'' # k = Itoa j @ CHR ''/'' # l"
  moreover have "takeWhile (\<lambda>c. c \<noteq> CHR ''/'') (Itoa n @ CHR ''/'' # m) = Itoa n" for n m
    using Itoa_no_slash by (subst takeWhile_append2) auto
  ultimately show "i = j \<and> k = l" by (metis Itoa_inj append_same_eq list.inject same_append_eq)
qed simp

lemma references_distinct [simp]:
  "Reference i k = Reference j l \<longleftrightarrow> i = j \<and> k = l"
  "legacyReference i k = legacyReference j l \<longleftrightarrow> i = j \<and> k = l"
  "Reference i k \<noteq> legacyReference j l" "legacyReference j l \<noteq> Reference i k"
  "KeyVaultPassphraseReference n \<noteq> Reference i k" "KeyVaultPassphraseReference n \<noteq> legacyReference i k"
  "Reference i k \<noteq> []" "legacyReference i k \<noteq> []"
  by (simp_all add: Reference_def legacyReference_def KeyVaultPassphraseReference_def numbered_inj)

section \<open>What the stores promise\<close>

text \<open>
  The table of references and the secret store as maps. A call that fails has changed nothing but
  the entry it was about; in a calm state no call fails.
\<close>

definition owns :: "int \<Rightarrow> string \<Rightarrow> bool" where
  "owns i x \<longleftrightarrow> (\<exists>k. x = Reference i k \<or> x = legacyReference i k)"

lemma owns_simps [simp]: "owns i (Reference j k) \<longleftrightarrow> i = j" "owns i (legacyReference j k) \<longleftrightarrow> i = j"
  "\<not> owns i (KeyVaultPassphraseReference n)"
  by (auto simp: owns_def)

locale credential_store =
  fixes r :: "'s resolver"
    and refs :: "'s \<Rightarrow> int \<times> string \<Rightarrow> string option"
    and secrets :: "'s \<Rightarrow> string \<Rightarrow> string option"
    and calm :: "'s \<Rightarrow> bool"
  assumes ref_Get: "ref_Get r i k s = (res, t) \<Longrightarrow> refs t = refs s \<and> secrets t = secrets s \<and> (calm s \<longrightarrow> calm t) \<and>
      (case res of Inr x \<Rightarrow> refs s (i, k) = Some x
       | Inl e \<Rightarrow> (errors_Is KNoRows e \<longrightarrow> refs s (i, k) = None) \<and> (calm s \<longrightarrow> errors_Is KNoRows e))"
    and ref_List: "ref_List r i s = (lst, t) \<Longrightarrow> refs t = refs s \<and> secrets t = secrets s \<and> (calm s \<longrightarrow> calm t) \<and>
      (case lst of Inr xs \<Rightarrow> set xs = {x. \<exists>k. refs s (i, k) = Some x} | Inl e \<Rightarrow> \<not> calm s)"
    and ref_Set: "ref_Set r i k x s = (done, t) \<Longrightarrow> secrets t = secrets s \<and> (calm s \<longrightarrow> calm t) \<and>
      (case done of Inr u \<Rightarrow> refs t = (refs s)((i, k) \<mapsto> x) | Inl e \<Rightarrow> refs t = refs s \<and> \<not> calm s)"
    and ref_Delete: "ref_Delete r i k s = (res, t) \<Longrightarrow> secrets t = secrets s \<and> (calm s \<longrightarrow> calm t) \<and>
      (case res of Inr x \<Rightarrow> refs t = (refs s)((i, k) := None) \<and> x = (case refs s (i, k) of None \<Rightarrow> [] | Some y \<Rightarrow> y)
       | Inl e \<Rightarrow> refs t = refs s \<and> \<not> calm s)"
    and ref_DeleteAll: "ref_DeleteAll r i s = (lst, t) \<Longrightarrow> secrets t = secrets s \<and> (calm s \<longrightarrow> calm t) \<and>
      (case lst of Inr xs \<Rightarrow> refs t = (\<lambda>(j, k). if j = i then None else refs s (j, k))
       | Inl e \<Rightarrow> refs t = refs s \<and> \<not> calm s)"
    and sec_Get: "sec_Get r x s = (res, t) \<Longrightarrow> refs t = refs s \<and> secrets t = secrets s \<and> (calm s \<longrightarrow> calm t) \<and>
      (case res of Inr v \<Rightarrow> secrets s x = Some v
       | Inl e \<Rightarrow> (errors_Is KSecretNotFound e \<longrightarrow> secrets s x = None) \<and>
           (calm s \<longrightarrow> errors_Is KSecretNotFound e))"
    and sec_Set: "sec_Set r x v s = (done, t) \<Longrightarrow> refs t = refs s \<and> (calm s \<longrightarrow> calm t) \<and>
      (case done of Inr u \<Rightarrow> secrets t = (secrets s)(x \<mapsto> v)
       | Inl e \<Rightarrow> (\<forall>y. y \<noteq> x \<longrightarrow> secrets t y = secrets s y) \<and> \<not> calm s)"
    and sec_Delete: "sec_Delete r x s = (done, t) \<Longrightarrow> refs t = refs s \<and> (calm s \<longrightarrow> calm t) \<and>
      (case done of Inr u \<Rightarrow> secrets t = (secrets s)(x := None)
       | Inl e \<Rightarrow> (\<forall>y. y \<noteq> x \<longrightarrow> secrets t y = secrets s y) \<and> \<not> calm s)"
    and quiet_vault: "rv_keyVault r = Some vault \<Longrightarrow>
      (\<forall>i s. refs (snd (kv_Get vault i s)) = refs s \<and> secrets (snd (kv_Get vault i s)) = secrets s) \<and>
      (\<forall>i x s. refs (snd (kv_SetPassphraseRef vault i x s)) = refs s \<and>
         secrets (snd (kv_SetPassphraseRef vault i x s)) = secrets s) \<and>
      (\<forall>i s. refs (snd (kv_UpdateLastUsed vault i s)) = refs s \<and>
         secrets (snd (kv_UpdateLastUsed vault i s)) = secrets s)"
    and quiet_key: "rv_Unprotect r = Some unprotect \<Longrightarrow> refs (snd (unprotect blob s)) = refs s \<and>
      (\<forall>i x. owns i x \<longrightarrow> secrets (snd (unprotect blob s)) x = secrets s x)"
    and quiet_file: "refs (snd (rv_ReadFile r p s)) = refs s \<and> secrets (snd (rv_ReadFile r p s)) = secrets s"
begin

text \<open>Every reference names a secret of its own connection.\<close>

definition owned :: "'s \<Rightarrow> bool" where
  "owned s \<longleftrightarrow> (\<forall>i k x. refs s (i, k) = Some x \<longrightarrow> owns i x)"

text \<open>What the other connections have in the stores is what it was.\<close>

definition others ::
  "int \<Rightarrow> (int \<times> string \<Rightarrow> string option) \<times> (string \<Rightarrow> string option) \<Rightarrow> 's \<Rightarrow> bool" where
  "others i V s \<longleftrightarrow> owned s \<and> (\<forall>j k. j \<noteq> i \<longrightarrow> refs s (j, k) = fst V (j, k)) \<and>
     (\<forall>j x. j \<noteq> i \<longrightarrow> owns j x \<longrightarrow> secrets s x = snd V x)"

lemma owns_one: "owns i x \<Longrightarrow> owns j x \<Longrightarrow> i = j"
  by (auto simp: owns_def)

lemma others_same:
  assumes "refs t = refs s" "\<forall>j x. owns j x \<longrightarrow> secrets t x = secrets s x"
  shows "others i V s \<Longrightarrow> others i V t"
  using assms by (simp add: others_def owned_def)

lemma others_secret:
  assumes "refs t = refs s" "\<forall>y. y \<noteq> x \<longrightarrow> secrets t y = secrets s y" "\<forall>j. owns j x \<longrightarrow> j = i"
  shows "others i V s \<Longrightarrow> others i V t"
  using assms unfolding others_def owned_def by metis

lemma others_ref:
  assumes "secrets t = secrets s" "refs t = (refs s)((i, k) := y)" "\<forall>x. y = Some x \<longrightarrow> owns i x"
  shows "others i V s \<Longrightarrow> others i V t"
  using assms by (simp add: others_def owned_def)

lemma keeps_quiet:
  assumes "\<And>s. refs (snd (f s)) = refs s" "\<And>s j x. owns j x \<Longrightarrow> secrets (snd (f s)) x = secrets s x"
  shows "io_keeps (others i V) (io_call f)"
proof (rule io_keeps_call)
  fix s res t assume "others i V s" "f s = (res, t)"
  then show "others i V t" using others_same [of t s i V] assms(1) [of s] assms(2) [where s = s] by simp
qed

lemma quiet_get: "refs (snd (ref_Get r j k s)) = refs s" "secrets (snd (ref_Get r j k s)) = secrets s"
  "refs (snd (sec_Get r x s)) = refs s" "secrets (snd (sec_Get r x s)) = secrets s"
  using ref_Get [of j k s] sec_Get [of x s] by (metis prod.collapse)+

lemma keeps_reads:
  "io_keeps (others i V) (io_call (ref_Get r j k))" "io_keeps (others i V) (io_call (sec_Get r x))"
  "io_keeps (others i V) (io_call (rv_ReadFile r p))"
  by (rule keeps_quiet; simp add: quiet_get quiet_file)+

lemma keeps_unprotect: "rv_Unprotect r = Some unprotect \<Longrightarrow> io_keeps (others i V) (io_call (unprotect blob))"
  by (rule keeps_quiet) (simp_all add: quiet_key)

lemma keeps_vault:
  assumes "rv_keyVault r = Some vault"
  shows "io_keeps (others i V) (io_call (kv_Get vault n))"
    and "io_keeps (others i V) (io_call (kv_SetPassphraseRef vault n x))"
    and "io_keeps (others i V) (io_call (kv_UpdateLastUsed vault n))"
  using quiet_vault [OF assms] by (auto intro!: keeps_quiet)

lemma keeps_store:
  assumes "\<forall>j. owns j x \<longrightarrow> j = i"
  shows "io_keeps (others i V) (io_call (sec_Set r x v))" "io_keeps (others i V) (io_call (sec_Delete r x))"
proof -
  show "io_keeps (others i V) (io_call (sec_Set r x v))"
  proof (rule io_keeps_call)
    fix s res t assume "others i V s" "sec_Set r x v s = (res, t)"
    then show "others i V t" using sec_Set [of x v s res t] others_secret [OF _ _ assms, of t s V] by (cases res) simp_all
  qed
  show "io_keeps (others i V) (io_call (sec_Delete r x))"
  proof (rule io_keeps_call)
    fix s res t assume "others i V s" "sec_Delete r x s = (res, t)"
    then show "others i V t" using sec_Delete [of x s res t] others_secret [OF _ _ assms, of t s V] by (cases res) simp_all
  qed
qed

lemma keeps_ref_Set:
  assumes "owns i x"
  shows "io_keeps (others i V) (io_call (ref_Set r i k x))"
proof (rule io_keeps_call)
  fix s res t assume "others i V s" "ref_Set r i k x s = (res, t)"
  then show "others i V t"
    using ref_Set [of i k x s res t] others_ref [of t s i k "Some x" V] others_same [of t s i V] assms
    by (cases res) simp_all
qed

text \<open>Every operation keeps what the other connections have.\<close>

lemmas keeps_rules = io_keeps_bind io_keeps_try io_keeps_error io_keeps_if io_keeps_simps keeps_reads keeps_store
  keeps_ref_Set

lemma keeps_secretByReference: "io_keeps (others i V) (secretByReference r x)"
  by (auto simp: secretByReference_def intro!: keeps_rules split: sum.split)

lemma keeps_recover: "io_keeps (others (conn_ID c) V) (recoverCanonicalSecret r c kind)"
  by (auto simp: recoverCanonicalSecret_def Let_def intro!: keeps_rules keeps_secretByReference split: sum.split)

lemma keeps_vault_entry: "io_keeps (others i V) (vault_entry r missing c)"
  by (auto simp: vault_entry_def Let_def intro!: keeps_rules keeps_vault split: sum.split option.split)

lemma keeps_savedSecret: "io_keeps (others (conn_ID c) V) (savedSecret r c)"
  by (auto simp: savedSecret_def Let_def intro!: keeps_rules keeps_secretByReference keeps_recover keeps_vault_entry
      split: sum.split)

lemma keeps_key: "io_keeps (others i V) (effectivePrivateKeyBytes r c)"
  by (auto simp: effectivePrivateKeyBytes_def read_key_def Let_def intro!: keeps_rules keeps_vault_entry keeps_unprotect
      split: option.split)

lemma keeps_Resolve: "io_keeps (others (conn_ID c) V) (Resolve r c auth)"
  by (auto simp: Resolve_def Let_def intro!: keeps_rules keeps_savedSecret keeps_key
      split: AuthType.split parsed_key.split prod.split)

lemma keeps_State: "io_keeps (others (conn_ID c) V) (State r c)"
  by (auto simp: State_def Let_def intro!: keeps_rules keeps_savedSecret keeps_key
      split: AuthType.split parsed_key.split sum.split)

lemma keeps_save:
  assumes "\<forall>j. owns j x \<longrightarrow> j = i" "io_keeps (others i V) name"
  shows "io_keeps (others i V) (save_secret r storing naming x v name)"
  using assms by (auto simp: save_secret_def intro!: keeps_rules split: sum.split)

lemma keeps_saving:
  "io_keeps (others (conn_ID c) V) (CommitSuccessful r c auth)" "io_keeps (others (conn_ID c) V) (SaveExplicit r c auth)"
  by (auto simp: CommitSuccessful_def SaveExplicit_def Let_def intro!: keeps_rules keeps_save keeps_vault
      split: option.split sum.split)

lemma keeps_delete_secrets:
  "(\<And>x j. x \<in> set xs \<Longrightarrow> owns j x \<Longrightarrow> j = i) \<Longrightarrow> io_keeps (others i V) (delete_secrets r xs)"
  by (induction xs) (auto intro!: keeps_rules)

lemma keeps_ClearKind: "io_keeps (others i V) (ClearKind r i k)"
  unfolding io_keeps_def ClearKind_def Let_def
proof (rule io_triple_bind)
  show "io_triple (others i V) (io_call (ref_Delete r i k)) (\<lambda>x s. others i V s \<and> (x = [] \<or> owns i x)) (others i V)"
    unfolding io_triple_def io_call_def
  proof (intro allI impI)
    fix s assume s: "others i V s"
    obtain res t where d: "ref_Delete r i k s = (res, t)" by force
    have "res = Inr x \<Longrightarrow> x = [] \<or> owns i x" for x
      using s ref_Delete [OF d] by (auto simp: others_def owned_def split: option.splits)
    moreover have "others i V t"
      using s ref_Delete [OF d] others_ref [of t s i k None V] others_same [of t s i V] by (cases res) simp_all
    ultimately show "case Some (ref_Delete r i k s) of None \<Rightarrow> True | Some (Inl e, t) \<Rightarrow> others i V t
        | Some (Inr x, t) \<Rightarrow> others i V t \<and> (x = [] \<or> owns i x)"
      using d by (cases res) simp_all
  qed
  show "io_triple (\<lambda>s. others i V s \<and> (x = [] \<or> owns i x))
      (delete_secrets r
        ((if x \<noteq> [] then [x] else []) @ (if x \<noteq> Reference i k then [Reference i k] else []) @
         (if x \<noteq> legacyReference i k then [legacyReference i k] else []))) (\<lambda>_. others i V) (others i V)" for x
  proof (cases "x = [] \<or> owns i x")
    case True
    then have "io_keeps (others i V) (delete_secrets r
        ((if x \<noteq> [] then [x] else []) @ (if x \<noteq> Reference i k then [Reference i k] else []) @
         (if x \<noteq> legacyReference i k then [legacyReference i k] else [])))"
      by (intro keeps_delete_secrets) (auto split: if_splits dest: owns_one)
    then show ?thesis unfolding io_keeps_def by (rule io_triple_conseq) auto
  qed (simp add: io_triple_def)
qed

lemma keeps_Clear: "io_keeps (others i V) (Clear r i)"
  unfolding io_keeps_def Clear_def
proof (rule io_triple_bind)
  show "io_triple (others i V) (io_call (ref_List r i)) (\<lambda>xs s. others i V s \<and> (\<forall>x \<in> set xs. owns i x)) (others i V)"
    unfolding io_triple_def io_call_def
  proof (intro allI impI)
    fix s assume s: "others i V s"
    obtain lst t where d: "ref_List r i s = (lst, t)" by force
    have "lst = Inr xs \<Longrightarrow> \<forall>x \<in> set xs. owns i x" for xs
      using s ref_List [OF d] by (auto simp: others_def owned_def)
    moreover have "others i V t" using s ref_List [OF d] others_same [of t s i V] by simp
    ultimately show "case Some (ref_List r i s) of None \<Rightarrow> True | Some (Inl e, t) \<Rightarrow> others i V t
        | Some (Inr xs, t) \<Rightarrow> others i V t \<and> (\<forall>x \<in> set xs. owns i x)"
      using d by (cases lst) simp_all
  qed
  have all: "io_keeps (others i V) (io_call (ref_DeleteAll r i))"
  proof (rule io_keeps_call)
    fix s res t assume "others i V s" "ref_DeleteAll r i s = (res, t)"
    then show "others i V t"
      using ref_DeleteAll [of i s res t] by (cases res) (auto simp: others_def owned_def split: if_splits)
  qed
  show "io_triple (\<lambda>s. others i V s \<and> (\<forall>x \<in> set xs. owns i x))
      (io_bind (delete_secrets r xs) (\<lambda>_. io_bind (io_call (ref_DeleteAll r i)) (\<lambda>_. io_return ())))
      (\<lambda>_. others i V) (others i V)" for xs
  proof (cases "\<forall>x \<in> set xs. owns i x")
    case True
    then have "io_keeps (others i V)
        (io_bind (delete_secrets r xs) (\<lambda>_. io_bind (io_call (ref_DeleteAll r i)) (\<lambda>_. io_return ())))"
      by (intro io_keeps_bind keeps_delete_secrets all io_keeps_simps) (auto dest: owns_one)
    then show ?thesis unfolding io_keeps_def by (rule io_triple_conseq) auto
  qed (auto simp: io_triple_def)
qed

text \<open>A secret that was saved is found again, and a secret that was cleared is not.\<close>

lemma calm_get:
  assumes "calm s"
  shows "secrets s x = Some v \<Longrightarrow> \<exists>t. sec_Get r x s = (Inr v, t) \<and> calm t \<and> refs t = refs s \<and> secrets t = secrets s"
    and "secrets s x = None \<Longrightarrow> \<exists>e t. sec_Get r x s = (Inl e, t) \<and> errors_Is KSecretNotFound e \<and> calm t \<and>
      refs t = refs s \<and> secrets t = secrets s"
    and "refs s (i, k) = Some x \<Longrightarrow> \<exists>t. ref_Get r i k s = (Inr x, t) \<and> calm t \<and> refs t = refs s \<and> secrets t = secrets s"
    and "refs s (i, k) = None \<Longrightarrow> \<exists>e t. ref_Get r i k s = (Inl e, t) \<and> errors_Is KNoRows e \<and> calm t \<and>
      refs t = refs s \<and> secrets t = secrets s"
proof -
  obtain a b where sec: "sec_Get r x s = (a, b)" by force
  obtain c d where ref: "ref_Get r i k s = (c, d)" by force
  show "secrets s x = Some v \<Longrightarrow> \<exists>t. sec_Get r x s = (Inr v, t) \<and> calm t \<and> refs t = refs s \<and> secrets t = secrets s"
    "secrets s x = None \<Longrightarrow> \<exists>e t. sec_Get r x s = (Inl e, t) \<and> errors_Is KSecretNotFound e \<and> calm t \<and>
      refs t = refs s \<and> secrets t = secrets s"
    using sec_Get [OF sec] sec assms by (cases a; simp)+
  show "refs s (i, k) = Some x \<Longrightarrow> \<exists>t. ref_Get r i k s = (Inr x, t) \<and> calm t \<and> refs t = refs s \<and> secrets t = secrets s"
    "refs s (i, k) = None \<Longrightarrow> \<exists>e t. ref_Get r i k s = (Inl e, t) \<and> errors_Is KNoRows e \<and> calm t \<and>
      refs t = refs s \<and> secrets t = secrets s"
    using ref_Get [OF ref] ref assms by (cases c; simp)+
qed

lemma secretByReference_calm:
  assumes "calm s"
  shows "secrets s x = Some v \<Longrightarrow> v \<noteq> [] \<Longrightarrow> \<exists>t. secretByReference r x s = Some (Inr v, t)"
    and "secrets s x = None \<Longrightarrow> \<exists>t. secretByReference r x s =
      Some (Inl (credential_error CodeCredentialUnavailable ''Saved credential is unavailable''), t) \<and>
      calm t \<and> refs t = refs s \<and> secrets t = secrets s"
  using calm_get(1,2) [OF assms, of x] by (fastforce simp: secretByReference_def io_run)+

lemma savedSecret_found:
  assumes "calm s" "\<not> uses_vault c" "refs s (conn_ID c, Kind c) = Some x" "secrets s x = Some v" "v \<noteq> []"
  shows "\<exists>t. savedSecret r c s = Some (Inr v, t)"
proof -
  obtain t where "ref_Get r (conn_ID c) (Kind c) s = (Inr x, t)" "calm t" "secrets t = secrets s"
    using calm_get(3) [OF assms(1,3)] by blast
  then show ?thesis
    using secretByReference_calm(1) [of t x v] assms by (simp add: savedSecret_def Let_def io_run)
qed

lemma save_secret_saved:
  assumes "save_secret r storing naming (Reference i k) v (io_call (ref_Set r i k (Reference i k))) s = Some (Inr (), t)"
  shows "refs t (i, k) = Some (Reference i k)" "secrets t (Reference i k) = Some v"
    "secrets t = (secrets s)(Reference i k \<mapsto> v)"
proof -
  obtain a u where a: "sec_Set r (Reference i k) v s = (a, u)" by force
  obtain b w where b: "ref_Set r i k (Reference i k) u = (b, w)" by force
  obtain d z where d: "sec_Delete r (Reference i k) w = (d, z)" by force
  have set: "sec_Set r (Reference i k) v s = (Inr (), u)" and name: "ref_Set r i k (Reference i k) u = (Inr (), t)"
    using assms a b d by (cases a; cases b; simp add: save_secret_def io_run)+
  show "refs t (i, k) = Some (Reference i k)" "secrets t (Reference i k) = Some v"
    "secrets t = (secrets s)(Reference i k \<mapsto> v)"
    using sec_Set [OF set] ref_Set [OF name] by simp_all
qed

lemma commit_found:
  assumes "CommitSuccessful r c auth s = Some (Inr (), t)" "calm t" "conn_AuthType c = AuthPassword"
    and "au_RememberSecret auth" "\<not> au_ResolvedFromStore auth" "au_Password auth \<noteq> []"
  shows "\<exists>u. savedSecret r c t = Some (Inr (au_Password auth), u)"
proof -
  have kind: "Kind c = ''password''" "secretValue c auth = au_Password auth" "\<not> uses_vault c"
    using assms(3) by (simp_all add: Kind_def secretValue_def uses_vault_def)
  then have "save_secret r ''save credential to system store: '' ''save credential reference: ''
      (Reference (conn_ID c) ''password'') (au_Password auth)
      (io_call (ref_Set r (conn_ID c) ''password'' (Reference (conn_ID c) ''password''))) s = Some (Inr (), t)"
    using assms by (simp add: CommitSuccessful_def Let_def)
  from save_secret_saved [OF this] show ?thesis
    using savedSecret_found [OF assms(2) kind(3) _ _ assms(6)] kind(1) by simp
qed

lemma delete_secrets_done:
  "delete_secrets r xs s = Some (Inr (), t) \<Longrightarrow>
   refs t = refs s \<and> (\<forall>x. secrets t x = (if x \<in> set xs then None else secrets s x))"
proof (induction xs arbitrary: s)
  case (Cons x xs)
  then obtain u where u: "sec_Delete r x s = (Inr (), u)" "delete_secrets r xs u = Some (Inr (), t)"
    by (auto simp: io_run split: prod.splits sum.splits)
  from sec_Delete [OF u(1)] Cons.IH [OF u(2)] show ?case by auto
qed (simp add: io_return_def)

lemma ClearKind_done:
  assumes "ClearKind r i k s = Some (Inr (), t)"
  shows "refs t (i, k) = None" "secrets t (Reference i k) = None" "secrets t (legacyReference i k) = None"
proof -
  obtain x u where u: "ref_Delete r i k s = (Inr x, u)" "delete_secrets r
      ((if x \<noteq> [] then [x] else []) @ (if x \<noteq> Reference i k then [Reference i k] else []) @
       (if x \<noteq> legacyReference i k then [legacyReference i k] else [])) u = Some (Inr (), t)"
    using assms by (auto simp: ClearKind_def Let_def io_run split: prod.splits sum.splits)
  have "[] \<noteq> Reference i k" "[] \<noteq> legacyReference i k" using references_distinct(7,8) by metis+
  with ref_Delete [OF u(1)] delete_secrets_done [OF u(2)]
  show "refs t (i, k) = None" "secrets t (Reference i k) = None" "secrets t (legacyReference i k) = None"
    by auto
qed

definition nothing_saved :: "Connection \<Rightarrow> 's \<Rightarrow> bool" where
  "nothing_saved c s \<longleftrightarrow>
     refs s (conn_ID c, Kind c) = None \<and> secrets s (Reference (conn_ID c) (Kind c)) = None \<and>
     secrets s (legacyReference (conn_ID c) (Kind c)) = None"

lemma savedSecret_missing:
  assumes "nothing_saved c t" "calm t" "\<not> uses_vault c"
  shows "\<exists>u. savedSecret r c t = Some (Inl (credential_error CodeAuthenticationRequired (requiredMessage c)), u)"
proof -
  have gone: "refs t (conn_ID c, Kind c) = None" "secrets t (Reference (conn_ID c) (Kind c)) = None"
    "secrets t (legacyReference (conn_ID c) (Kind c)) = None"
    using assms(1) by (simp_all add: nothing_saved_def)
  obtain e u where get: "ref_Get r (conn_ID c) (Kind c) t = (Inl e, u)" "errors_Is KNoRows e" "calm u"
      "secrets u = secrets t"
    using calm_get(4) [OF assms(2) gone(1)] by blast
  obtain v where v: "secretByReference r (Reference (conn_ID c) (Kind c)) u =
      Some (Inl (credential_error CodeCredentialUnavailable ''Saved credential is unavailable''), v)" "calm v"
      "secrets v = secrets u"
    using secretByReference_calm(2) [OF get(3), of "Reference (conn_ID c) (Kind c)"] gone(2) get(4) by auto
  obtain w where w: "secretByReference r (legacyReference (conn_ID c) (Kind c)) v =
      Some (Inl (credential_error CodeCredentialUnavailable ''Saved credential is unavailable''), w)"
    using secretByReference_calm(2) [OF v(2), of "legacyReference (conn_ID c) (Kind c)"] gone(3) get(4) v(3) by auto
  have code: "ErrorCode (credential_error code m) = code" for code m
    by (simp add: ErrorCode_def credential_error_def errors_As_def node_is_credential_def)
  show ?thesis
    using get(1,2) v(1) w assms(3) by (simp add: savedSecret_def recoverCanonicalSecret_def Let_def io_run code)
qed

text \<open>Where nothing is saved, a login without input has to ask, unless its key is not encrypted.\<close>

lemma Resolve_password_missing:
  assumes "nothing_saved c t" "calm t" "conn_AuthType c = AuthPassword" "au_Password later = []"
  shows "\<exists>u. Resolve r c later t = Some (Inl (credential_error CodeAuthenticationRequired (requiredMessage c)), u)"
  using savedSecret_missing [OF assms(1,2)] assms(3,4) by (auto simp: Resolve_def uses_vault_def io_run)

lemma Resolve_key_missing:
  assumes "nothing_saved c t" "\<forall>p. calm (snd (rv_ReadFile r p t))" "conn_AuthType c = AuthPrivateKey"
    "keySource c \<noteq> PrivateKeySourceKeyVault" "au_Passphrase later = []" "Resolve r c later t = Some (res, u)"
  shows "case res of Inr auth \<Rightarrow> rv_Parse r (au_ResolvedPrivateKeyPEM auth) = KeyParsed
    | Inl err \<Rightarrow> ErrorCode err = CodeAuthenticationRequired \<or> ErrorCode err = CodePrivateKeyUnavailable \<or>
        ErrorCode err = CodePrivateKeyInvalid"
proof -
  let ?p = "TrimSpace (conn_PrivateKeyPath c)"
  have code: "ErrorCode (credential_error code m) = code" for code m
    by (simp add: ErrorCode_def credential_error_def errors_As_def node_is_credential_def)
  obtain got v where got: "rv_ReadFile r ?p t = (got, v)" by force
  have "nothing_saved c v" "calm v"
    using assms(1,2) quiet_file [of ?p t] got by (simp_all add: nothing_saved_def) (metis snd_conv)
  from savedSecret_missing [OF this] assms(4) obtain x
    where "savedSecret r c v = Some (Inl (credential_error CodeAuthenticationRequired (requiredMessage c)), x)"
    by (auto simp: uses_vault_def)
  then show ?thesis
    using assms(3-6) got
    by (cases got; cases "rv_Parse r (projr got)"; cases "?p = []")
      (auto simp: Resolve_def effectivePrivateKeyBytes_def read_key_def no_entry_def Let_def io_run code)
qed

end

section \<open>A store in memory\<close>

text \<open>
  The table and the store as lists, and a schedule of failures: each call looks at its head.
\<close>

record mem =
  mm_refs :: "((int \<times> string) \<times> string) list"
  mm_secrets :: "(string \<times> string) list"
  mm_keys :: "(int \<times> KeyVaultEntry) list"
  mm_faults :: "bool list"

definition kind_error :: "err_kind \<Rightarrow> goerr" where
  "kind_error k = GoErr \<lparr>node_text = ''error'', node_kind = k, node_fingerprints = None, node_timeout = None\<rparr> []"

definition mem_call :: "(mem, goerr, 'a) call \<Rightarrow> (mem, goerr, 'a) call" where
  "mem_call f m =
     (case mm_faults m of
        [] \<Rightarrow> f m
      | b # bs \<Rightarrow> if b then (Inl (kind_error KPlain), m\<lparr>mm_faults := bs\<rparr>) else f (m\<lparr>mm_faults := bs\<rparr>))"

definition mem_calm :: "mem \<Rightarrow> bool" where
  "mem_calm m \<longleftrightarrow> list_all Not (mm_faults m)"

definition mem_list :: "int \<Rightarrow> mem \<Rightarrow> string list" where
  "mem_list i m =
     map (\<lambda>p. the (map_of (mm_refs m) p)) (filter (\<lambda>p. fst p = i) (remdups (map fst (mm_refs m))))"

definition mem_vault :: "mem key_vault" where
  "mem_vault =
     \<lparr>kv_Get = (\<lambda>i. mem_call (\<lambda>m. (case map_of (mm_keys m) i of None \<Rightarrow> Inl (kind_error KNoRows) | Some k \<Rightarrow> Inr k, m))),
      kv_SetPassphraseRef = (\<lambda>i x. mem_call (\<lambda>m. (case map_of (mm_keys m) i of
          None \<Rightarrow> (Inl (kind_error KNoRows), m)
        | Some k \<Rightarrow> (Inr (), m\<lparr>mm_keys := AList.update i
            (k\<lparr>kve_PassphraseCredentialRef := x, kve_PassphraseSaved := x \<noteq> []\<rparr>) (mm_keys m)\<rparr>)))),
      kv_UpdateLastUsed = (\<lambda>i. mem_call (\<lambda>m. (Inr (), m)))\<rparr>"

definition mem_resolver :: "mem resolver" where
  "mem_resolver =
     \<lparr>ref_Get = (\<lambda>i k. mem_call (\<lambda>m. (case map_of (mm_refs m) (i, k) of None \<Rightarrow> Inl (kind_error KNoRows) | Some x \<Rightarrow> Inr x, m))),
      ref_List = (\<lambda>i. mem_call (\<lambda>m. (Inr (mem_list i m), m))),
      ref_Set = (\<lambda>i k x. mem_call (\<lambda>m. (Inr (), m\<lparr>mm_refs := AList.update (i, k) x (mm_refs m)\<rparr>))),
      ref_Delete = (\<lambda>i k. mem_call (\<lambda>m. (Inr (case map_of (mm_refs m) (i, k) of None \<Rightarrow> [] | Some x \<Rightarrow> x),
        m\<lparr>mm_refs := AList.delete (i, k) (mm_refs m)\<rparr>))),
      ref_DeleteAll = (\<lambda>i. mem_call (\<lambda>m. (Inr (mem_list i m),
        m\<lparr>mm_refs := filter (\<lambda>p. fst (fst p) \<noteq> i) (mm_refs m)\<rparr>))),
      rv_keyVault = Some mem_vault,
      sec_Get = (\<lambda>x. mem_call (\<lambda>m. (case map_of (mm_secrets m) x of None \<Rightarrow> Inl (kind_error KSecretNotFound) | Some v \<Rightarrow> Inr v, m))),
      sec_Set = (\<lambda>x v. mem_call (\<lambda>m. (Inr (), m\<lparr>mm_secrets := AList.update x v (mm_secrets m)\<rparr>))),
      sec_Delete = (\<lambda>x. mem_call (\<lambda>m. (Inr (), m\<lparr>mm_secrets := AList.delete x (mm_secrets m)\<rparr>))),
      rv_Unprotect = Some (\<lambda>blob. mem_call (\<lambda>m. (Inr blob, m))),
      rv_ReadFile = (\<lambda>p. mem_call (\<lambda>m. (Inr p, m))),
      rv_Parse = (\<lambda>bytes. if bytes = ''plain'' then KeyParsed else if bytes = ''locked'' then KeyPassphraseMissing else KeyMalformed),
      rv_ParseWith = (\<lambda>bytes passphrase. passphrase = ''open'')\<rparr>"

abbreviation mem_refs_map :: "mem \<Rightarrow> int \<times> string \<Rightarrow> string option" where
  "mem_refs_map m \<equiv> map_of (mm_refs m)"

abbreviation mem_secrets_map :: "mem \<Rightarrow> string \<Rightarrow> string option" where
  "mem_secrets_map m \<equiv> map_of (mm_secrets m)"

lemma mem_call_cases:
  assumes "mem_call f m = (res, t)"
  shows "(\<exists>u. res = fst (f u) \<and> t = snd (f u) \<and> mm_refs u = mm_refs m \<and> mm_secrets u = mm_secrets m \<and>
       (mem_calm m \<longrightarrow> mem_calm u)) \<or>
     (res = Inl (kind_error KPlain) \<and> mm_refs t = mm_refs m \<and> mm_secrets t = mm_secrets m \<and> \<not> mem_calm m)"
proof (cases "mm_faults m")
  case Nil
  then show ?thesis using assms by (intro disjI1 exI [of _ m]) (simp add: mem_call_def)
next
  case (Cons b bs)
  then show ?thesis
  proof (cases b)
    case False
    with Cons show ?thesis
      using assms by (intro disjI1 exI [of _ "m\<lparr>mm_faults := bs\<rparr>"]) (simp add: mem_call_def mem_calm_def)
  qed (use Cons assms in \<open>auto simp: mem_call_def mem_calm_def\<close>)
qed

lemma set_mem_list: "set (mem_list i m) = {x. \<exists>k. map_of (mm_refs m) (i, k) = Some x}"
proof -
  have "p \<in> fst ` set (mm_refs m) \<longleftrightarrow> (\<exists>x. map_of (mm_refs m) p = Some x)" for p
    by (metis domD domI dom_map_of_conv_image_fst)
  then show ?thesis by (auto simp: mem_list_def image_iff; force)
qed

lemma map_of_without:
  "map_of (filter (\<lambda>p. fst (fst p) \<noteq> i) xs) = (\<lambda>(j, k). if j = i then None else map_of xs (j, k))"
  by (induction xs) (auto simp: fun_eq_iff)

lemma kind_error_is [simp]: "errors_Is k (kind_error l) \<longleftrightarrow> l = k"
  by (simp add: errors_Is_def kind_error_def)

lemma mem_call_quiet:
  assumes "\<And>u. mm_refs (snd (f u)) = mm_refs u \<and> mm_secrets (snd (f u)) = mm_secrets u"
  shows "mm_refs (snd (mem_call f m)) = mm_refs m \<and> mm_secrets (snd (mem_call f m)) = mm_secrets m"
  using assms by (simp add: mem_call_def split: list.split)

interpretation mem: credential_store mem_resolver mem_refs_map mem_secrets_map mem_calm
proof unfold_locales
  fix vault :: "mem key_vault"
  assume "rv_keyVault mem_resolver = Some vault"
  then have "vault = mem_vault" by (simp add: mem_resolver_def)
  moreover have "mm_refs (snd (kv_Get mem_vault i m)) = mm_refs m \<and> mm_secrets (snd (kv_Get mem_vault i m)) = mm_secrets m"
    "mm_refs (snd (kv_SetPassphraseRef mem_vault i x m)) = mm_refs m \<and>
       mm_secrets (snd (kv_SetPassphraseRef mem_vault i x m)) = mm_secrets m"
    "mm_refs (snd (kv_UpdateLastUsed mem_vault i m)) = mm_refs m \<and>
       mm_secrets (snd (kv_UpdateLastUsed mem_vault i m)) = mm_secrets m" for i x m
    by (simp_all add: mem_vault_def mem_call_quiet split: option.split)
  ultimately show "(\<forall>i s. mem_refs_map (snd (kv_Get vault i s)) = mem_refs_map s \<and>
         mem_secrets_map (snd (kv_Get vault i s)) = mem_secrets_map s) \<and>
      (\<forall>i x s. mem_refs_map (snd (kv_SetPassphraseRef vault i x s)) = mem_refs_map s \<and>
         mem_secrets_map (snd (kv_SetPassphraseRef vault i x s)) = mem_secrets_map s) \<and>
      (\<forall>i s. mem_refs_map (snd (kv_UpdateLastUsed vault i s)) = mem_refs_map s \<and>
         mem_secrets_map (snd (kv_UpdateLastUsed vault i s)) = mem_secrets_map s)"
    by simp
qed (auto simp: mem_resolver_def mem_calm_def set_mem_list map_of_without gomap_simps mem_call_quiet
    dest!: mem_call_cases split: option.splits)

section \<open>The properties\<close>

text \<open>An operation on the credential of a server, its result left aside.\<close>

datatype credential_op =
    OpState Connection | OpResolve Connection AuthRequest | OpCommit Connection AuthRequest
  | OpSave Connection AuthRequest | OpClear int | OpClearKind int string

fun op_server :: "credential_op \<Rightarrow> int" where
  "op_server (OpState c) = conn_ID c"
| "op_server (OpResolve c _) = conn_ID c"
| "op_server (OpCommit c _) = conn_ID c"
| "op_server (OpSave c _) = conn_ID c"
| "op_server (OpClear i) = i"
| "op_server (OpClearKind i _) = i"

fun op_run :: "'s resolver \<Rightarrow> credential_op \<Rightarrow> ('s, goerr, unit) io" where
  "op_run r (OpState c) = io_bind (State r c) (\<lambda>_. io_return ())"
| "op_run r (OpResolve c auth) = io_bind (Resolve r c auth) (\<lambda>_. io_return ())"
| "op_run r (OpCommit c auth) = CommitSuccessful r c auth"
| "op_run r (OpSave c auth) = SaveExplicit r c auth"
| "op_run r (OpClear i) = Clear r i"
| "op_run r (OpClearKind i k) = ClearKind r i k"

context credential_store
begin

lemma op_run_keeps: "io_keeps (others (op_server op) V) (op_run r op)"
  by (cases op) (auto intro!: io_keeps_bind keeps_State keeps_Resolve keeps_saving keeps_Clear keeps_ClearKind)

lemma op_isolated:
  assumes "owned s" "op_run r op s = Some (res, t)" "j \<noteq> op_server op"
  shows "refs t (j, k) = refs s (j, k)" "owns j x \<Longrightarrow> secrets t x = secrets s x"
proof -
  have "others (op_server op) (refs s, secrets s) s" using assms(1) by (simp add: others_def)
  then have "others (op_server op) (refs s, secrets s) t" using io_keepsD [OF op_run_keeps _ assms(2)] by blast
  then show "refs t (j, k) = refs s (j, k)" "owns j x \<Longrightarrow> secrets t x = secrets s x"
    using assms(3) by (simp_all add: others_def)
qed

lemma resolves_saved:
  assumes "CommitSuccessful r c auth s = Some (Inr (), t)" "calm t" "conn_AuthType c = AuthPassword"
    and "au_RememberSecret auth" "\<not> au_ResolvedFromStore auth" "au_Password auth \<noteq> []" "au_Password later = []"
  shows "\<exists>u. Resolve r c later t = Some (Inr (later\<lparr>au_Password := au_Password auth, au_ResolvedFromStore := True\<rparr>), u)"
  using commit_found [OF assms(1-6)] assms(3,7) by (auto simp: Resolve_def io_run)

end

text \<open>
  C2: The credential of one server is never touched by an operation on another. This holds for
  every operation and every outcome, failures of the stores included, as long as the database only
  names secrets of the right server, which the operations keep.
\<close>

theorem credential_isolation:
  assumes "credential_store r refs secrets calm"
    and "\<forall>i k x. refs s (i, k) = Some x \<longrightarrow> owns i x"
    and "op_run r op s = Some (res, t)" "j \<noteq> op_server op"
  shows "refs t (j, k) = refs s (j, k) \<and> secrets t (Reference j k) = secrets s (Reference j k) \<and>
    secrets t (legacyReference j k) = secrets s (legacyReference j k)"
proof -
  have owned: "credential_store.owned refs s"
    using assms(2) credential_store.owned_def [OF assms(1)] by simp
  note isolated = credential_store.op_isolated [OF assms(1) owned assms(3,4)]
  then show ?thesis by simp
qed

text \<open>
  C20: A remembered password is the one that logs in next time. Once a successful connection has
  saved its password, a request without a password resolves to it, whatever was stored before and
  whatever failed on the way, if the stores answer then.
\<close>

theorem remembered_password_resolves:
  assumes "credential_store r refs secrets calm"
    and "CommitSuccessful r c auth s = Some (Inr (), t)" "calm t" "conn_AuthType c = AuthPassword"
    and "au_RememberSecret auth" "\<not> au_ResolvedFromStore auth" "au_Password auth \<noteq> []" "au_Password later = []"
  shows "\<exists>u. Resolve r c later t =
    Some (Inr (later\<lparr>au_Password := au_Password auth, au_ResolvedFromStore := True\<rparr>), u)"
  by (rule credential_store.resolves_saved [OF assms])


text \<open>The request that leaves everything to the store.\<close>

definition no_auth :: AuthRequest where
  "no_auth =
     \<lparr>au_Password = [], au_Passphrase = [], au_TrustUnknownHost = False, au_RememberSecret = False,
      au_SecretUpdateMode = SecretUpdateOther [], au_TrustChangedHost = False, au_PersistHostKey = False,
      au_ResolvedFromStore = False, au_ResolvedPrivateKeyPath = [], au_ResolvedPrivateKeyPEM = [],
      au_ResolvedKeyVaultID = 0\<rparr>"

text \<open>
  C11: What the window shows of a credential is what a login would find: \<open>State\<close> says that the
  connection can authenticate exactly if \<open>Resolve\<close> succeeds without input, gives the code of its error
  otherwise, and leaves the stores in the same state.
\<close>

theorem State_predicts_Resolve:
  "case Resolve r c no_auth s of
     None \<Rightarrow> State r c s = None
   | Some (res, t) \<Rightarrow> (\<exists>st. State r c s = Some (Inr st, t) \<and>
       as_CanAuthenticate st = (case res of Inr _ \<Rightarrow> True | Inl _ \<Rightarrow> False) \<and>
       as_ReasonCode st = (case res of Inr _ \<Rightarrow> [] | Inl err \<Rightarrow> ErrorCode err))"
proof -
  have code: "ErrorCode (credential_error code m) = code" for code m
    by (simp add: ErrorCode_def credential_error_def errors_As_def node_is_credential_def)
  show ?thesis
  proof (cases "conn_AuthType c")
    case AuthPassword
    then show ?thesis
      by (cases "savedSecret r c s")
        (auto simp: Resolve_def State_def no_auth_def no_reason_def Let_def io_run split: sum.split)
  next
    case AuthPrivateKey
    show ?thesis
    proof (cases "effectivePrivateKeyBytes r c s")
      case None
      then show ?thesis using AuthPrivateKey by (simp add: Resolve_def State_def Let_def io_run)
    next
      case (Some rt)
      obtain res t where rt: "rt = (res, t)" by force
      show ?thesis
      proof (cases res)
        case (Inl err)
        then show ?thesis
          using AuthPrivateKey Some rt by (simp add: Resolve_def State_def no_reason_def Let_def io_run)
      next
        case (Inr key)
        obtain bytes entry where key: "key = (bytes, entry)" by force
        show ?thesis
          using AuthPrivateKey Some rt Inr key
          by (cases "rv_Parse r bytes"; cases "savedSecret r c t")
            (auto simp: Resolve_def State_def no_auth_def no_reason_def Let_def io_run code split: sum.split)
      qed
    qed
  next
    case (AuthOther x)
    then show ?thesis by (simp add: Resolve_def State_def Let_def io_run code)
  qed
qed

section \<open>The credential of one server\<close>

definition demo_server :: Connection where
  "demo_server =
     \<lparr>conn_ID = 7, conn_GroupID = None, conn_SortOrder = 0, conn_Name = ''web'', conn_Host = ''h'', conn_Port = 22,
      conn_Username = ''root'', conn_AuthType = AuthPassword, conn_PrivateKeySource = PrivateKeySourceLocalFile,
      conn_PrivateKeyPath = [], conn_KeyVaultID = None, conn_TerminalProfileID = None,
      conn_ConnectionMode = ConnectionModeDirect, conn_JumpServerID = None, conn_HostKeyFingerprint = [],
      conn_CredentialSaved = False, conn_PasswordCredentialSaved = False, conn_RefreshInterval = 5\<rparr>"

text \<open>Server 7 has the secret of an old version of the program, server 8 a saved password.\<close>

definition demo_mem :: mem where
  "demo_mem =
     \<lparr>mm_refs = [((8, ''password''), Reference 8 ''password'')],
      mm_secrets = [(legacyReference 7 ''password'', ''old''), (Reference 8 ''password'', ''pw'')],
      mm_keys = [], mm_faults = []\<rparr>"

definition demo_typed :: AuthRequest where
  "demo_typed = no_auth\<lparr>au_Password := ''new'', au_RememberSecret := True\<rparr>"

lemma demo_commit:
  "(case CommitSuccessful mem_resolver demo_server demo_typed (demo_mem\<lparr>mm_faults := [False]\<rparr>) of
      Some (Inr u, t) \<Rightarrow> mem_calm t | _ \<Rightarrow> False)"
  by code_simp


lemma remembered_password_resolves_witness:
  "\<exists>t u. CommitSuccessful mem_resolver demo_server demo_typed (demo_mem\<lparr>mm_faults := [False]\<rparr>) = Some (Inr (), t) \<and>
     Resolve mem_resolver demo_server no_auth t =
       Some (Inr (no_auth\<lparr>au_Password := ''new'', au_ResolvedFromStore := True\<rparr>), u)"
proof -
  obtain t where run: "CommitSuccessful mem_resolver demo_server demo_typed (demo_mem\<lparr>mm_faults := [False]\<rparr>) =
      Some (Inr (), t)" "mem_calm t"
    using io_run_value [OF demo_commit] by auto
  show ?thesis
    using remembered_password_resolves [OF mem.credential_store_axioms run, of no_auth] run(1)
    by (auto simp: demo_server_def demo_typed_def no_auth_def)
qed


lemma credential_isolation_witness:
  "\<exists>t. op_run mem_resolver (OpClear 7) demo_mem = Some (Inr (), t) \<and>
     mem_secrets_map t (Reference 8 ''password'') = Some ''pw''"
proof -
  have "(case op_run mem_resolver (OpClear 7) demo_mem of Some (Inr u, t) \<Rightarrow> mem_calm t | _ \<Rightarrow> False)" by code_simp
  then obtain t where run: "op_run mem_resolver (OpClear 7) demo_mem = Some (Inr (), t)"
    using io_run_value by force
  have "\<forall>i k x. mem_refs_map demo_mem (i, k) = Some x \<longrightarrow> owns i x"
    by (auto simp: demo_mem_def owns_def split: if_splits)
  then show ?thesis
    using credential_isolation [OF mem.credential_store_axioms _ run, of 8 "''password''"] run
    by (simp add: demo_mem_def)
qed

text \<open>
  \<open>Clear\<close>, which runs when a server is deleted, only deletes the secrets the database names. The
  secret of the old version stays, even after it was copied to its new name.
\<close>

lemma Clear_leaves_legacy:
  "(case Resolve mem_resolver demo_server no_auth demo_mem of
      Some (Inr auth, t) \<Rightarrow>
        (case Clear mem_resolver 7 t of
           Some (Inr u, t) \<Rightarrow>
             (case Resolve mem_resolver demo_server no_auth t of
                Some (Inr auth, t) \<Rightarrow> au_Password auth = ''old'' | _ \<Rightarrow> False)
         | _ \<Rightarrow> False)
    | _ \<Rightarrow> False)"
  by code_simp

text \<open>
  When the name of a new password cannot be saved, the secret is deleted although the database may
  name it already: the password saved before is lost.
\<close>

lemma CommitSuccessful_loses:
  "(case CommitSuccessful mem_resolver (demo_server\<lparr>conn_ID := 8\<rparr>) demo_typed
       (demo_mem\<lparr>mm_faults := [False, True, False]\<rparr>) of
      Some (Inl err, t) \<Rightarrow> mem_secrets_map t (Reference 8 ''password'') = None | _ \<Rightarrow> False)"
  by code_simp

end
