(* ===== verification/KeyVault.thy ===== *)
theory KeyVault
  imports Credential GoPath "HOL-Library.Code_Target_Numeral"
begin

text \<open>
  The key vault: package \<open>internal/keyvault\<close>, which checks private keys (\<open>validator.go\<close>) and encrypts
  them with a master key of the system keychain (\<open>protector_darwin.go\<close>, \<open>protector_format.go\<close>), and the
  bindings of the window to it (\<open>app_keyvault.go\<close>). The cipher, the random numbers and the parser of
  keys are arguments. Log lines are left out.
\<close>

section \<open>The format of a protected key\<close>

definition LocalProtectorBlobPrefix :: string where
  "LocalProtectorBlobPrefix = ''hostdeck-keyvault-v1:''"

definition legacyLocalProtectorBlobPrefix :: string where
  "legacyLocalProtectorBlobPrefix = ''serverpilot-keyvault-v1:''"

definition WindowsProtectedCredentialHint :: string where
  "WindowsProtectedCredentialHint = (zh [27492, 22791, 20221, 21253, 21547, 26087, 29256, 32, 87, 105, 110, 100, 111, 119, 115, 32, 21463, 20445, 25252, 31169, 38053, 47, 20973, 25454, 65292, 109, 97, 99, 79, 83, 32, 26080, 27861, 30452, 25509, 35299, 23494, 65307, 35831, 29992, 26032, 29256, 32, 87, 105, 110, 100, 111, 119, 115, 32, 23436, 25972, 22791, 20221, 37325, 26032, 23548, 20986, 65292, 25110, 22312, 32, 109, 97, 99, 79, 83, 32, 37325, 26032, 23548, 20837, 31169, 38053, 47, 36755, 20837, 23494, 30721, 12290])"

fun hasLocalProtectorPrefix :: "string \<Rightarrow> string \<Rightarrow> bool" where
  "hasLocalProtectorPrefix val [] = True"
| "hasLocalProtectorPrefix [] (p # ps) = False"
| "hasLocalProtectorPrefix (v # vs) (p # ps) \<longleftrightarrow> v = p \<and> hasLocalProtectorPrefix vs ps"

definition localProtectorBlobBody :: "string \<Rightarrow> string option" where
  "localProtectorBlobBody val =
     (if hasLocalProtectorPrefix val LocalProtectorBlobPrefix
      then Some (drop (length LocalProtectorBlobPrefix) val)
      else if hasLocalProtectorPrefix val legacyLocalProtectorBlobPrefix
      then Some (drop (length legacyLocalProtectorBlobPrefix) val)
      else None)"

definition IsLocalProtectorBlob :: "string \<Rightarrow> bool" where
  "IsLocalProtectorBlob val \<longleftrightarrow> localProtectorBlobBody val \<noteq> None"

section \<open>The protector\<close>

definition darwinMasterKeyReference :: string where
  "darwinMasterKeyReference = ''HostDeck/keyvault/master-key''"

definition legacyDarwinMasterKeyReference :: string where
  "legacyDarwinMasterKeyReference = ''ServerPilot/keyvault/master-key''"

text \<open>The key and nonce sizes of XChaCha20-Poly1305.\<close>

definition KeySize :: nat where "KeySize = 32"
definition NonceSizeX :: nat where "NonceSizeX = 24"

record 's protector =
  pt_Get :: "string \<Rightarrow> ('s, goerr, string) call"
  pt_Set :: "string \<Rightarrow> string \<Rightarrow> ('s, goerr, unit) call"
  pt_Rand :: "nat \<Rightarrow> ('s, goerr, string) call"
  pt_NewX :: "string \<Rightarrow> goerr option"
  pt_Seal :: "string \<Rightarrow> string \<Rightarrow> string \<Rightarrow> string"
  pt_Open :: "string \<Rightarrow> string \<Rightarrow> string \<Rightarrow> string option"

definition master_key_checked :: "string \<Rightarrow> ('s, goerr, string) io" where
  "master_key_checked key =
     (if length key \<noteq> KeySize then io_throw (errors_New ''macOS key vault master key is invalid'') else io_return key)"

definition master_key_set :: "'s protector \<Rightarrow> string \<Rightarrow> ('s, goerr, string) io" where
  "master_key_set p key =
     io_bind (io_error (\<lambda>_. errors_New ''macOS key vault master key could not be saved to Keychain'')
         (io_call (pt_Set p darwinMasterKeyReference key))) (\<lambda>_. io_return key)"

definition masterKey :: "'s protector \<Rightarrow> ('s, goerr, string) io" where
  "masterKey p =
     (let unavailable = io_throw (errors_New ''macOS key vault master key is unavailable'')
      in io_bind (io_try (io_call (pt_Get p darwinMasterKeyReference))) (\<lambda>got. case got of
           Inr key \<Rightarrow> master_key_checked key
         | Inl err \<Rightarrow>
             if \<not> errors_Is KSecretNotFound err then unavailable
             else io_bind (io_try (io_call (pt_Get p legacyDarwinMasterKeyReference))) (\<lambda>old. case old of
                 Inr key \<Rightarrow> io_bind (master_key_checked key) (master_key_set p)
               | Inl err \<Rightarrow>
                   if \<not> errors_Is KSecretNotFound err then unavailable
                   else io_bind (io_error (errorf_wrap ''generate macOS key vault master key: '')
                     (io_call (pt_Rand p KeySize))) (master_key_set p))))"

definition new_cipher :: "'s protector \<Rightarrow> string \<Rightarrow> ('s, goerr, unit) io" where
  "new_cipher p key = (case pt_NewX p key of Some err \<Rightarrow> io_throw err | None \<Rightarrow> io_return ())"

definition Protect :: "'s protector \<Rightarrow> string \<Rightarrow> ('s, goerr, string) io" where
  "Protect p plaintext =
     (if plaintext = [] then io_throw (errors_New ''private key material is empty'')
      else io_bind (masterKey p) (\<lambda>key.
           io_bind (new_cipher p key) (\<lambda>_.
           io_bind (io_error (errorf_wrap ''generate private key nonce: '') (io_call (pt_Rand p NonceSizeX))) (\<lambda>nonce.
             io_return (LocalProtectorBlobPrefix @ nonce @ pt_Seal p key nonce plaintext)))))"

definition Unprotect :: "'s protector \<Rightarrow> string \<Rightarrow> ('s, goerr, string) io" where
  "Unprotect p ciphertext =
     (if ciphertext = [] then io_throw (errors_New ''protected private key material is empty'')
      else case localProtectorBlobBody ciphertext of
        None \<Rightarrow> io_throw (errors_New WindowsProtectedCredentialHint)
      | Some body \<Rightarrow>
          io_bind (masterKey p) (\<lambda>key.
          io_bind (new_cipher p key) (\<lambda>_.
            if length body \<le> NonceSizeX then io_throw (errors_New ''macOS private key material is invalid'')
            else case pt_Open p key (take NonceSizeX body) (drop NonceSizeX body) of
                None \<Rightarrow> io_throw (errors_New ''macOS private key material cannot be decrypted'')
              | Some plaintext \<Rightarrow> io_return plaintext)))"

section \<open>The check of a key\<close>

definition MaxPrivateKeyBytes :: int where "MaxPrivateKeyBytes = 2 * 1024 * 1024"

definition CodeMissingPath :: string where "CodeMissingPath = ''missing_path''"
definition CodeFileUnavailable :: string where "CodeFileUnavailable = ''file_unavailable''"
definition CodeFileTooLarge :: string where "CodeFileTooLarge = ''file_too_large''"
definition CodePassphraseNeeded :: string where "CodePassphraseNeeded = ''passphrase_required''"
definition CodePassphraseWrong :: string where "CodePassphraseWrong = ''passphrase_invalid''"
definition CodeInvalidFormat :: string where "CodeInvalidFormat = ''invalid_format''"

record PrivateKeyValidationResult =
  pv_Algorithm :: string
  pv_FingerprintSHA256 :: string
  pv_KeyBits :: nat
  pv_Encrypted :: bool
  pv_Valid :: bool
  pv_ErrorCode :: string
  pv_UserMessage :: string
  pv_TechnicalMessage :: string

text \<open>
  A signer as far as the code looks at it. The modulus of an RSA key and the curve of an ECDSA key may
  be missing.
\<close>

datatype crypto_key = RSAKey "nat option" | ECDSAKey "nat option" | Ed25519Key string | OtherKey | NoCryptoKey

record signer =
  sg_Type :: string
  sg_Fingerprint :: string
  sg_Key :: crypto_key

datatype signer_result = SignerOk signer | SignerPassphraseMissing | SignerBad

fun BitLen :: "nat \<Rightarrow> nat" where
  "BitLen n = (if n = 0 then 0 else Suc (BitLen (n div 2)))"

declare BitLen.simps [simp del]

fun keyBits :: "crypto_key \<Rightarrow> nat" where
  "keyBits (RSAKey m) = (case m of None \<Rightarrow> 0 | Some n \<Rightarrow> BitLen n)"
| "keyBits (ECDSAKey c) = (case c of None \<Rightarrow> 0 | Some bits \<Rightarrow> bits)"
| "keyBits (Ed25519Key k) = length k * 8"
| "keyBits OtherKey = 0"
| "keyBits NoCryptoKey = 0"

definition validation_success :: "signer \<Rightarrow> bool \<Rightarrow> PrivateKeyValidationResult" where
  "validation_success s encrypted =
     \<lparr>pv_Algorithm = sg_Type s, pv_FingerprintSHA256 = sg_Fingerprint s, pv_KeyBits = keyBits (sg_Key s),
      pv_Encrypted = encrypted, pv_Valid = True, pv_ErrorCode = [], pv_UserMessage = [], pv_TechnicalMessage = []\<rparr>"

definition validation_failure :: "string \<Rightarrow> string \<Rightarrow> string \<Rightarrow> bool \<Rightarrow> PrivateKeyValidationResult" where
  "validation_failure code userMessage technicalMessage encrypted =
     \<lparr>pv_Algorithm = [], pv_FingerprintSHA256 = [], pv_KeyBits = 0, pv_Encrypted = encrypted, pv_Valid = False,
      pv_ErrorCode = code, pv_UserMessage = userMessage, pv_TechnicalMessage = technicalMessage\<rparr>"

text \<open>The parser without and with a passphrase, and the files.\<close>

record 's key_reader =
  kr_Parse :: "string \<Rightarrow> signer_result"
  kr_ParseWith :: "string \<Rightarrow> string \<Rightarrow> signer option"
  kr_Stat :: "string \<Rightarrow> ('s, goerr, int) call"
  kr_ReadFile :: "string \<Rightarrow> ('s, goerr, string) call"

definition ValidatePrivateKeyBytes :: "'s key_reader \<Rightarrow> string \<Rightarrow> string \<Rightarrow> PrivateKeyValidationResult" where
  "ValidatePrivateKeyBytes k bytes passphrase =
     (case kr_Parse k bytes of
        SignerOk s \<Rightarrow> validation_success s False
      | SignerBad \<Rightarrow>
          validation_failure CodeInvalidFormat (zh [31169, 38053, 26684, 24335, 26080, 25928, 25110, 24403, 21069, 31867, 22411, 26242, 19981, 25903, 25345, 12290]) ''parse private key failed'' False
      | SignerPassphraseMissing \<Rightarrow>
          if passphrase = []
          then validation_failure CodePassphraseNeeded (zh [35813, 31169, 38053, 24050, 21152, 23494, 65292, 38656, 35201, 36755, 20837, 31169, 38053, 21475, 20196, 21518, 39564, 35777, 12290])
                 ''private key requires passphrase'' True
          else (case kr_ParseWith k bytes passphrase of
              None \<Rightarrow> validation_failure CodePassphraseWrong (zh [31169, 38053, 21475, 20196, 38169, 35823, 65292, 26080, 27861, 35299, 23494, 31169, 38053, 12290])
                 ''parse encrypted private key failed'' True
            | Some s \<Rightarrow> validation_success s True))"

definition errPrivateKeyTooLarge :: goerr where
  "errPrivateKeyTooLarge = errors_New ''private key file is too large''"

text \<open>The size of the file is compared as it is at the time of the stat; the error keeps which one it is.\<close>

datatype key_file_error = KeyFileTooLarge | KeyFileError goerr

definition readPrivateKeyFile :: "'s key_reader \<Rightarrow> string \<Rightarrow> ('s, goerr, key_file_error + string) io" where
  "readPrivateKeyFile k p =
     io_bind (io_try (io_call (kr_Stat k p))) (\<lambda>info. case info of
         Inl err \<Rightarrow> io_return (Inl (KeyFileError err))
       | Inr bytes \<Rightarrow>
           if bytes > MaxPrivateKeyBytes then io_return (Inl KeyFileTooLarge)
           else io_bind (io_try (io_call (kr_ReadFile k p))) (\<lambda>content. io_return (case content of
               Inl err \<Rightarrow> Inl (KeyFileError err) | Inr c \<Rightarrow> Inr c)))"

definition validationReadFailure :: "key_file_error \<Rightarrow> PrivateKeyValidationResult" where
  "validationReadFailure err =
     (case err of
        KeyFileTooLarge \<Rightarrow> validation_failure CodeFileTooLarge (zh [31169, 38053, 25991, 20214, 36807, 22823, 65292, 35831, 36873, 25321, 32, 50, 32, 77, 105, 66, 32, 20197, 20869, 30340, 32, 83, 83, 72, 32, 31169, 38053, 12290])
          ''private key file is too large'' False
      | KeyFileError _ \<Rightarrow> validation_failure CodeFileUnavailable (zh [31169, 38053, 25991, 20214, 19981, 23384, 22312, 25110, 19981, 21487, 35835, 21462, 12290]) ''read private key failed'' False)"

definition ValidatePrivateKeyFile ::
  "'s key_reader \<Rightarrow> string \<Rightarrow> string \<Rightarrow> ('s, goerr, PrivateKeyValidationResult) io" where
  "ValidatePrivateKeyFile k privateKeyPath passphrase =
     (let p = TrimSpace privateKeyPath
      in if p = []
         then io_return (validation_failure CodeMissingPath (zh [35831, 36873, 25321, 31169, 38053, 25991, 20214, 12290]) ''empty private key path'' False)
         else io_bind (readPrivateKeyFile k p) (\<lambda>content. io_return (case content of
             Inl err \<Rightarrow> validationReadFailure err
           | Inr bytes \<Rightarrow> ValidatePrivateKeyBytes k bytes passphrase)))"

record SaveKeyVaultEntryRequest =
  sk_ID :: int
  sk_Name :: string
  sk_PrivateKeyPath :: string
  sk_Passphrase :: string
  sk_RememberPassphrase :: bool
  sk_UpdatePassphrase :: bool
  sk_DeletePassphrase :: bool
  sk_Notes :: string

record ImportResult =
  ir_Validation :: PrivateKeyValidationResult
  ir_ProtectedBlob :: string
  ir_SourceFileName :: string

text \<open>The protector as the interface \<open>KeyMaterialProtector\<close>.\<close>

record 's key_protector =
  kp_Protect :: "string \<Rightarrow> ('s, goerr, string) io"
  kp_Unprotect :: "string \<Rightarrow> ('s, goerr, string) io"

definition ImportPrivateKeyFromFile ::
  "'s key_reader \<Rightarrow> SaveKeyVaultEntryRequest \<Rightarrow> 's key_protector option \<Rightarrow> ('s, goerr, ImportResult) io" where
  "ImportPrivateKeyFromFile k request protector =
     (let p = TrimSpace (sk_PrivateKeyPath request)
      in if p = [] then io_throw (errors_New (zh [35831, 36873, 25321, 31169, 38053, 25991, 20214]))
         else case protector of
             None \<Rightarrow> io_throw (errors_New (zh [23494, 38053, 20445, 25252, 22120, 19981, 21487, 29992]))
           | Some pt \<Rightarrow>
               io_bind (readPrivateKeyFile k p) (\<lambda>content. case content of
                   Inl err \<Rightarrow> io_throw (errors_New (pv_UserMessage (validationReadFailure err)))
                 | Inr bytes \<Rightarrow>
                     let validation = ValidatePrivateKeyBytes k bytes (sk_Passphrase request)
                     in if \<not> pv_Valid validation then io_throw (errors_New (pv_UserMessage validation))
                        else io_bind (io_error (\<lambda>_. errors_New (zh [31169, 38053, 21152, 23494, 20445, 23384, 22833, 36133])) (kp_Protect pt bytes)) (\<lambda>blob.
                          io_return \<lparr>ir_Validation = validation, ir_ProtectedBlob = blob,
                                     ir_SourceFileName = path_Base p\<rparr>)))"

section \<open>The window's operations\<close>

record DeleteKeyVaultEntryResponse =
  dr_Deleted :: bool
  dr_RequiresConfirmation :: bool
  dr_UnboundServerCount :: int
  dr_UnboundServerNames :: "string list"
  dr_SecretCleanupWarning :: string

text \<open>What the operations call: the database, the secret store, the protector and the reader.\<close>

record 's vault_app =
  va_List :: "('s, goerr, KeyVaultEntry list) call"
  va_Get :: "int \<Rightarrow> ('s, goerr, KeyVaultEntry) call"
  va_GetByFingerprint :: "string \<Rightarrow> ('s, goerr, KeyVaultEntry) call"
  va_CreateEncrypted :: "SaveKeyVaultEntryRequest \<Rightarrow> ImportResult \<Rightarrow> ('s, goerr, KeyVaultEntry) call"
  va_Update :: "SaveKeyVaultEntryRequest \<Rightarrow> PrivateKeyValidationResult \<Rightarrow> ('s, goerr, KeyVaultEntry) call"
  va_UpdateProtected :: "int \<Rightarrow> SaveKeyVaultEntryRequest \<Rightarrow> ImportResult \<Rightarrow> ('s, goerr, KeyVaultEntry) call"
  va_Delete :: "int \<Rightarrow> ('s, goerr, unit) call"
  va_DeleteWithUnbind :: "int \<Rightarrow> bool \<Rightarrow> ('s, goerr, DeleteKeyVaultEntryResponse) call"
  va_SetPassphraseRef :: "int \<Rightarrow> string \<Rightarrow> ('s, goerr, unit) call"
  va_SecretSet :: "string \<Rightarrow> string \<Rightarrow> ('s, goerr, unit) call"
  va_SecretDelete :: "string \<Rightarrow> ('s, goerr, unit) call"
  va_protector :: "'s key_protector"
  va_reader :: "'s key_reader"

definition sanitizeKeyVaultEntry :: "KeyVaultEntry \<Rightarrow> KeyVaultEntry" where
  "sanitizeKeyVaultEntry entry =
     (let entry = entry\<lparr>kve_PassphraseCredentialRef := [], kve_ProtectedKeyBlob := []\<rparr>
      in if kve_StorageMode entry = KeyVaultStorageEncryptedDatabase then entry\<lparr>kve_PrivateKeyPath := []\<rparr> else entry)"

definition ListKeyVaultEntries :: "'s vault_app \<Rightarrow> ('s, goerr, KeyVaultEntry list) io" where
  "ListKeyVaultEntries a = io_bind (io_call (va_List a)) (\<lambda>entries. io_return (map sanitizeKeyVaultEntry entries))"

definition saveKeyVaultPassphrase :: "'s vault_app \<Rightarrow> int \<Rightarrow> string \<Rightarrow> ('s, goerr, unit) io" where
  "saveKeyVaultPassphrase a i passphrase =
     (let reference = KeyVaultPassphraseReference i
      in io_bind (io_call (va_SecretSet a reference passphrase)) (\<lambda>_.
         io_bind (io_try (io_call (va_SetPassphraseRef a i reference))) (\<lambda>named. case named of
             Inr _ \<Rightarrow> io_return ()
           | Inl err \<Rightarrow> io_bind (io_try (io_call (va_SecretDelete a reference))) (\<lambda>_. io_throw err))))"

definition get_sanitized :: "'s vault_app \<Rightarrow> int \<Rightarrow> ('s, goerr, KeyVaultEntry) io" where
  "get_sanitized a i = io_bind (io_call (va_Get a i)) (\<lambda>entry. io_return (sanitizeKeyVaultEntry entry))"

text \<open>The key of the import is in the vault already; \<open>allowed\<close> says which entry may have it.\<close>

definition refuse_duplicate ::
  "'s vault_app \<Rightarrow> (KeyVaultEntry \<Rightarrow> bool) \<Rightarrow> ImportResult \<Rightarrow> ('s, goerr, unit) io" where
  "refuse_duplicate a allowed imported =
     io_bind (io_try (io_call (va_GetByFingerprint a (pv_FingerprintSHA256 (ir_Validation imported))))) (\<lambda>got.
       case got of
         Inr existing \<Rightarrow>
           if allowed existing then io_return ()
           else io_throw (errors_New (zh [35813, 31169, 38053, 24050, 23384, 22312, 20110, 23494, 38053, 24211, 65292, 19981, 20250, 37325, 22797, 20445, 23384, 30456, 21516, 23494, 38053, 27491, 25991]))
       | Inl err \<Rightarrow> if errors_Is KNoRows err then io_return () else io_throw err)"

definition CreateKeyVaultEntry :: "'s vault_app \<Rightarrow> SaveKeyVaultEntryRequest \<Rightarrow> ('s, goerr, KeyVaultEntry) io" where
  "CreateKeyVaultEntry a request =
     (let request = request\<lparr>sk_Name := TrimSpace (sk_Name request), sk_PrivateKeyPath := TrimSpace (sk_PrivateKeyPath request)\<rparr>
      in if sk_PrivateKeyPath request = [] then io_throw (errors_New (zh [35831, 36873, 25321, 31169, 38053, 25991, 20214]))
         else let request = (if sk_Name request = [] then request\<lparr>sk_Name := path_Base (sk_PrivateKeyPath request)\<rparr> else request)
           in io_bind (ImportPrivateKeyFromFile (va_reader a) request (Some (va_protector a))) (\<lambda>imported.
              io_bind (refuse_duplicate a (\<lambda>existing. kve_ID existing \<le> 0) imported) (\<lambda>_.
              io_bind (io_call (va_CreateEncrypted a request imported)) (\<lambda>entry.
                if sk_RememberPassphrase request \<and> sk_Passphrase request \<noteq> []
                then io_bind (io_try (saveKeyVaultPassphrase a (kve_ID entry) (sk_Passphrase request))) (\<lambda>saved.
                  case saved of
                    Inl _ \<Rightarrow> io_bind (io_try (io_call (va_Delete a (kve_ID entry)))) (\<lambda>_.
                      io_throw (errors_New (zh [23494, 38053, 26465, 30446, 24050, 22238, 28378, 65306, 21475, 20196, 26410, 33021, 20889, 20837, 31995, 32479, 20973, 25454, 24211])))
                  | Inr _ \<Rightarrow> get_sanitized a (kve_ID entry))
                else io_return (sanitizeKeyVaultEntry entry)))))"

definition validateKeyVaultPassphrase :: "'s vault_app \<Rightarrow> KeyVaultEntry \<Rightarrow> string \<Rightarrow> ('s, goerr, unit) io" where
  "validateKeyVaultPassphrase a entry passphrase =
     io_bind (if kve_StorageMode entry = KeyVaultStorageEncryptedDatabase
         then io_bind (io_error (\<lambda>err. errors_New (err_Error err)) (kp_Unprotect (va_protector a) (kve_ProtectedKeyBlob entry)))
           (\<lambda>bytes. io_return (ValidatePrivateKeyBytes (va_reader a) bytes passphrase))
         else ValidatePrivateKeyFile (va_reader a) (kve_PrivateKeyPath entry) passphrase) (\<lambda>validation.
       if pv_Valid validation then io_return () else io_throw (errors_New (pv_UserMessage validation)))"

definition KeyVaultStorageLegacyFilePath :: string where
  "KeyVaultStorageLegacyFilePath = ''legacy_file_path''"

definition DeleteKeyVaultPassphrase :: "'s vault_app \<Rightarrow> int \<Rightarrow> ('s, goerr, unit) io" where
  "DeleteKeyVaultPassphrase a i =
     io_bind (io_call (va_Get a i)) (\<lambda>entry.
     io_bind (if kve_PassphraseCredentialRef entry \<noteq> []
         then io_error (\<lambda>_. errors_New (zh [21024, 38500, 31995, 32479, 20973, 25454, 24211, 20013, 30340, 23494, 38053, 21475, 20196, 22833, 36133]))
           (io_call (va_SecretDelete a (kve_PassphraseCredentialRef entry)))
         else io_return ()) (\<lambda>_.
       io_call (va_SetPassphraseRef a i [])))"

definition no_validation :: PrivateKeyValidationResult where
  "no_validation = validation_failure [] [] [] False"

text \<open>Whether the update of an entry has to look at the key file again.\<close>

definition needsValidation :: "KeyVaultEntry \<Rightarrow> SaveKeyVaultEntryRequest \<Rightarrow> bool" where
  "needsValidation existing request \<longleftrightarrow>
     kve_StorageMode existing = KeyVaultStorageLegacyFilePath \<and>
     (sk_PrivateKeyPath request \<noteq> kve_PrivateKeyPath existing \<or> sk_UpdatePassphrase request)"

definition update_checked ::
  "'s vault_app \<Rightarrow> SaveKeyVaultEntryRequest \<Rightarrow> KeyVaultEntry \<Rightarrow> ('s, goerr, PrivateKeyValidationResult) io" where
  "update_checked a request existing =
     (if kve_StorageMode existing = KeyVaultStorageLegacyFilePath \<and> sk_PrivateKeyPath request = []
      then io_throw (errors_New (zh [35831, 36873, 25321, 31169, 38053, 25991, 20214]))
      else if needsValidation existing request
      then io_bind (ValidatePrivateKeyFile (va_reader a) (sk_PrivateKeyPath request) (sk_Passphrase request)) (\<lambda>validation.
        if pv_Valid validation then io_return validation else io_throw (errors_New (pv_UserMessage validation)))
      else io_return no_validation)"

text \<open>What follows the update of the row.\<close>

definition update_passphrase ::
  "'s vault_app \<Rightarrow> SaveKeyVaultEntryRequest \<Rightarrow> KeyVaultEntry \<Rightarrow> KeyVaultEntry \<Rightarrow> ('s, goerr, KeyVaultEntry) io" where
  "update_passphrase a request existing entry =
     (if sk_DeletePassphrase request
      then io_bind (DeleteKeyVaultPassphrase a (sk_ID request)) (\<lambda>_. get_sanitized a (sk_ID request))
      else if sk_UpdatePassphrase request \<and> sk_RememberPassphrase request \<and> sk_Passphrase request \<noteq> []
      then io_bind (if kve_StorageMode existing = KeyVaultStorageEncryptedDatabase
          then validateKeyVaultPassphrase a existing (sk_Passphrase request) else io_return ()) (\<lambda>_.
        io_bind (io_error (\<lambda>_. errors_New (zh [21475, 20196, 39564, 35777, 24050, 36890, 36807, 65292, 20294, 26410, 33021, 20889, 20837, 31995, 32479, 20973, 25454, 24211]))
          (saveKeyVaultPassphrase a (sk_ID request) (sk_Passphrase request))) (\<lambda>_.
          get_sanitized a (sk_ID request)))
      else io_return (sanitizeKeyVaultEntry entry))"

definition UpdateKeyVaultEntry :: "'s vault_app \<Rightarrow> SaveKeyVaultEntryRequest \<Rightarrow> ('s, goerr, KeyVaultEntry) io" where
  "UpdateKeyVaultEntry a request =
     (if sk_ID request \<le> 0 then io_throw (errors_New (zh [23494, 38053, 32, 73, 68, 32, 26080, 25928]))
      else let request = request\<lparr>sk_Name := TrimSpace (sk_Name request), sk_PrivateKeyPath := TrimSpace (sk_PrivateKeyPath request)\<rparr>
        in if sk_Name request = [] then io_throw (errors_New (zh [23494, 38053, 21517, 31216, 19981, 33021, 20026, 31354]))
           else io_bind (io_call (va_Get a (sk_ID request))) (\<lambda>existing.
             io_bind (update_checked a request existing) (\<lambda>validation.
             let oldReference = (if sk_PrivateKeyPath request \<noteq> kve_PrivateKeyPath existing
                 then kve_PassphraseCredentialRef existing else [])
             in io_bind (io_call (va_Update a request validation)) (\<lambda>entry.
                io_bind (if oldReference \<noteq> [] \<and> oldReference \<noteq> kve_PassphraseCredentialRef entry
                    then io_bind (io_try (io_call (va_SecretDelete a oldReference))) (\<lambda>_. io_return ())
                    else io_return ()) (\<lambda>_.
                  update_passphrase a request existing entry)))))"

text \<open>The request to migrate an entry, with what it leaves out taken from the entry.\<close>

definition migrate_request :: "SaveKeyVaultEntryRequest \<Rightarrow> KeyVaultEntry \<Rightarrow> SaveKeyVaultEntryRequest" where
  "migrate_request request existing =
     (let or_old = (\<lambda>new old. if TrimSpace new = [] then old else TrimSpace new)
      in request\<lparr>sk_Name := or_old (sk_Name request) (kve_Name existing),
                 sk_Notes := or_old (sk_Notes request) (kve_Notes existing),
                 sk_PrivateKeyPath := or_old (sk_PrivateKeyPath request) (kve_PrivateKeyPath existing)\<rparr>)"

definition MigrateLegacyPrivateKey :: "'s vault_app \<Rightarrow> SaveKeyVaultEntryRequest \<Rightarrow> ('s, goerr, KeyVaultEntry) io" where
  "MigrateLegacyPrivateKey a request =
     (if sk_ID request \<le> 0 then io_throw (errors_New (zh [23494, 38053, 32, 73, 68, 32, 26080, 25928]))
      else io_bind (io_call (va_Get a (sk_ID request))) (\<lambda>existing.
        if kve_StorageMode existing = KeyVaultStorageEncryptedDatabase then io_return (sanitizeKeyVaultEntry existing)
        else let request = migrate_request request existing
          in if sk_PrivateKeyPath request = [] then io_throw (errors_New (zh [21407, 31169, 38053, 25991, 20214, 19981, 23384, 22312, 65292, 35831, 37325, 26032, 36873, 25321, 31169, 38053, 25991, 20214]))
             else io_bind (ImportPrivateKeyFromFile (va_reader a) request (Some (va_protector a))) (\<lambda>imported.
               io_bind (refuse_duplicate a (\<lambda>duplicate. kve_ID duplicate = kve_ID existing) imported) (\<lambda>_.
               io_bind (io_call (va_UpdateProtected a (kve_ID existing) request imported)) (\<lambda>entry.
                 if sk_RememberPassphrase request \<and> sk_Passphrase request \<noteq> []
                 then io_bind (io_error (\<lambda>_. errors_New (zh [23494, 38053, 24050, 36801, 31227, 65292, 20294, 21475, 20196, 26410, 33021, 20889, 20837, 31995, 32479, 20973, 25454, 24211]))
                     (saveKeyVaultPassphrase a (kve_ID entry) (sk_Passphrase request))) (\<lambda>_.
                   get_sanitized a (kve_ID entry))
                 else io_return (sanitizeKeyVaultEntry entry))))))"

definition DeleteKeyVaultEntry ::
  "'s vault_app \<Rightarrow> int \<Rightarrow> bool \<Rightarrow> ('s, goerr, DeleteKeyVaultEntryResponse) io" where
  "DeleteKeyVaultEntry a i forceUnbind =
     io_bind (io_call (va_Get a i)) (\<lambda>entry.
     io_bind (io_call (va_DeleteWithUnbind a i forceUnbind)) (\<lambda>response.
       if \<not> dr_RequiresConfirmation response \<and> dr_Deleted response \<and> kve_PassphraseCredentialRef entry \<noteq> []
       then io_bind (io_try (io_call (va_SecretDelete a (kve_PassphraseCredentialRef entry)))) (\<lambda>deleted.
         io_return (case deleted of
             Inl _ \<Rightarrow> response\<lparr>dr_SecretCleanupWarning := (zh [23494, 38053, 24050, 21024, 38500, 65292, 20294, 31995, 32479, 20973, 25454, 20013, 30340, 31169, 38053, 21475, 20196, 28165, 29702, 22833, 36133, 12290])\<rparr>
           | Inr _ \<Rightarrow> response))
       else io_return response))"

definition UpdateKeyVaultPassphrase :: "'s vault_app \<Rightarrow> int \<Rightarrow> string \<Rightarrow> ('s, goerr, KeyVaultEntry) io" where
  "UpdateKeyVaultPassphrase a i passphrase =
     io_bind (io_call (va_Get a i)) (\<lambda>entry.
     io_bind (validateKeyVaultPassphrase a entry passphrase) (\<lambda>_.
     io_bind (io_error (\<lambda>_. errors_New (zh [21475, 20196, 39564, 35777, 24050, 36890, 36807, 65292, 20294, 26410, 33021, 20889, 20837, 31995, 32479, 20973, 25454, 24211])) (saveKeyVaultPassphrase a i passphrase)) (\<lambda>_.
       get_sanitized a i)))"

section \<open>A key survives\<close>

text \<open>The part of a secret store the protector uses. The store of the credentials is one.\<close>

locale secret_store =
  fixes get :: "string \<Rightarrow> ('s, goerr, string) call"
    and set_secret :: "string \<Rightarrow> string \<Rightarrow> ('s, goerr, unit) call"
    and secrets :: "'s \<Rightarrow> string \<Rightarrow> string option"
    and calm :: "'s \<Rightarrow> bool"
  assumes get_law: "get x s = (res, t) \<Longrightarrow> secrets t = secrets s \<and> (calm s \<longrightarrow> calm t) \<and>
      (case res of Inr v \<Rightarrow> secrets s x = Some v | Inl e \<Rightarrow> calm s \<longrightarrow> secrets s x = None)"
    and set_law: "set_secret x v s = (Inr (), t) \<Longrightarrow> secrets t = (secrets s)(x \<mapsto> v)"
begin

lemma get_stored:
  assumes "calm s" "secrets s x = Some v"
  shows "\<exists>t. get x s = (Inr v, t) \<and> calm t \<and> secrets t = secrets s"
proof -
  obtain res t where g: "get x s = (res, t)" by force
  then show ?thesis using get_law [OF g] assms by (cases res) simp_all
qed

end

sublocale credential_store \<subseteq> store: secret_store "sec_Get r" "sec_Set r" secrets calm
proof unfold_locales
  show "sec_Get r x s = (res, t) \<Longrightarrow> secrets t = secrets s \<and> (calm s \<longrightarrow> calm t) \<and>
      (case res of Inr v \<Rightarrow> secrets s x = Some v | Inl e \<Rightarrow> calm s \<longrightarrow> secrets s x = None)" for x s res t
    using sec_Get [of x s res t] by (auto split: sum.split)
qed (use sec_Set in force)

locale protector_store = secret_store "pt_Get p" "pt_Set p" secrets calm
  for p :: "'s protector" and secrets :: "'s \<Rightarrow> string \<Rightarrow> string option" and calm :: "'s \<Rightarrow> bool" +
  assumes rand_law: "pt_Rand p n s = (Inr x, t) \<Longrightarrow> length x = n \<and> secrets t = secrets s"
    and new_law: "length key = KeySize \<Longrightarrow> pt_NewX p key = None"
    and open_seal: "length key = KeySize \<Longrightarrow> length nonce = NonceSizeX \<Longrightarrow>
      pt_Open p key nonce (pt_Seal p key nonce plaintext) = Some plaintext"
    and seal_long: "length plaintext < length (pt_Seal p key nonce plaintext)"
begin

lemma master_key_set_done:
  "master_key_set p key s = Some (Inr k, t) \<Longrightarrow> k = key \<and> secrets t darwinMasterKeyReference = Some key"
proof -
  assume run: "master_key_set p key s = Some (Inr k, t)"
  obtain a u where a: "pt_Set p darwinMasterKeyReference key s = (a, u)" by force
  then show ?thesis using run set_law [of _ _ s u] by (cases a) (simp_all add: master_key_set_def io_run)
qed

lemma masterKey_done:
  assumes "masterKey p s = Some (Inr key, t)"
  shows "length key = KeySize" "secrets t darwinMasterKeyReference = Some key"
proof -
  obtain a u where a: "pt_Get p darwinMasterKeyReference s = (a, u)" by force
  obtain b v where b: "pt_Get p legacyDarwinMasterKeyReference u = (b, v)" by force
  obtain c w where c: "pt_Rand p KeySize v = (c, w)" by force
  have "length key = KeySize \<and> secrets t darwinMasterKeyReference = Some key"
  proof (cases a)
    case (Inr k)
    then show ?thesis using assms a get_law [OF a]
      by (auto simp: masterKey_def master_key_checked_def Let_def io_run split: if_splits)
  next
    case (Inl e)
    show ?thesis
    proof (cases b)
      case (Inr k)
      with Inl show ?thesis using assms a b master_key_set_done [of k v key t]
        by (auto simp: masterKey_def master_key_checked_def Let_def io_run split: if_splits)
    next
      case (Inl e')
      then show ?thesis
        using \<open>a = Inl e\<close> assms a b c rand_law [of KeySize v] master_key_set_done [of _ w key t]
        by (cases c) (auto simp: masterKey_def Let_def io_run split: if_splits)
    qed
  qed
  then show "length key = KeySize" "secrets t darwinMasterKeyReference = Some key" by simp_all
qed

lemma masterKey_again:
  assumes "calm s" "secrets s darwinMasterKeyReference = Some key" "length key = KeySize"
  shows "\<exists>t. masterKey p s = Some (Inr key, t)"
  using get_stored [OF assms(1,2)] assms(3)
  by (auto simp: masterKey_def master_key_checked_def Let_def io_run)

lemma prefix_body [simp]: "localProtectorBlobBody (LocalProtectorBlobPrefix @ body) = Some body"
  by (simp add: localProtectorBlobBody_def LocalProtectorBlobPrefix_def)

lemma unprotects:
  assumes "Protect p plaintext s = Some (Inr blob, t)"
    and "secrets u darwinMasterKeyReference = secrets t darwinMasterKeyReference" "calm u"
  shows "\<exists>v. Unprotect p blob u = Some (Inr plaintext, v)"
proof -
  have nonempty: "plaintext \<noteq> []" using assms(1) by (auto simp: Protect_def io_run)
  obtain key w where key: "masterKey p s = Some (Inr key, w)"
    using assms(1) nonempty by (auto simp: Protect_def io_run split: option.splits sum.splits)
  note stored = masterKey_done [OF key]
  obtain nonce x where rand: "pt_Rand p NonceSizeX w = (Inr nonce, t)"
      "blob = LocalProtectorBlobPrefix @ nonce @ pt_Seal p key nonce plaintext"
    using assms(1) nonempty key new_law [OF stored(1)]
    by (cases "pt_Rand p NonceSizeX w"; cases "fst (pt_Rand p NonceSizeX w)") (auto simp: Protect_def new_cipher_def io_run)
  have nonce: "length nonce = NonceSizeX" "secrets t = secrets w" using rand_law [OF rand(1)] by simp_all
  obtain v where v: "masterKey p u = Some (Inr key, v)"
    using masterKey_again [OF assms(3) _ stored(1)] assms(2) nonce(2) stored(2) by auto
  have "length (pt_Seal p key nonce plaintext) > 0"
    using seal_long [of plaintext key nonce] by linarith
  moreover have "blob \<noteq> []" by (simp add: rand(2) LocalProtectorBlobPrefix_def)
  ultimately show ?thesis
    using v nonce(1) new_law [OF stored(1)] open_seal [OF stored(1) nonce(1)]
    by (simp add: Unprotect_def new_cipher_def io_run rand(2))
qed

end

text \<open>
  A keychain in memory, with a cipher that keeps the laws and hides nothing: it puts the key and the
  nonce before the text.
\<close>

definition mem_protector :: "mem protector" where
  "mem_protector =
     \<lparr>pt_Get = sec_Get mem_resolver, pt_Set = sec_Set mem_resolver,
      pt_Rand = (\<lambda>n. mem_call (\<lambda>m. (Inr (replicate n (CHR ''r'')), m))),
      pt_NewX = (\<lambda>key. if length key = KeySize then None else Some (kind_error KPlain)),
      pt_Seal = (\<lambda>key nonce plaintext. CHR ''!'' # key @ nonce @ plaintext),
      pt_Open = (\<lambda>key nonce sealed. if HasPrefix sealed (CHR ''!'' # key @ nonce)
        then Some (drop (length (CHR ''!'' # key @ nonce)) sealed) else None)\<rparr>"

interpretation mem_pt: protector_store mem_protector mem_secrets_map mem_calm
proof unfold_locales
  show "pt_Get mem_protector x s = (res, t) \<Longrightarrow> mem_secrets_map t = mem_secrets_map s \<and> (mem_calm s \<longrightarrow> mem_calm t) \<and>
      (case res of Inr v \<Rightarrow> mem_secrets_map s x = Some v | Inl e \<Rightarrow> mem_calm s \<longrightarrow> mem_secrets_map s x = None)" for x s res t
    using mem.store.get_law by (simp add: mem_protector_def)
  show "pt_Set mem_protector x v s = (Inr (), t) \<Longrightarrow> mem_secrets_map t = (mem_secrets_map s)(x \<mapsto> v)" for x v s t
    using mem.store.set_law by (simp add: mem_protector_def)
  show "pt_Rand mem_protector n s = (Inr x, t) \<Longrightarrow> length x = n \<and> mem_secrets_map t = mem_secrets_map s" for n s x t
    by (auto simp: mem_protector_def dest!: mem_call_cases)
qed (simp_all add: mem_protector_def HasPrefix_def)

text \<open>
  C13: A private key in the vault comes back. What was encrypted once is decrypted to the same key in
  any later state, after a restart for instance, in which the keychain still has the master key, whether
  the master key was there before, was taken from the old version or was made just then.
\<close>

theorem protected_key_survives:
  assumes "protector_store p secrets calm"
    and "Protect p plaintext s = Some (Inr blob, t)"
    and "secrets u darwinMasterKeyReference = secrets t darwinMasterKeyReference" "calm u"
  shows "\<exists>v. Unprotect p blob u = Some (Inr plaintext, v)"
  by (rule protector_store.unprotects [OF assms])

definition demo_master :: mem where
  "demo_master = demo_mem\<lparr>mm_secrets := [(legacyDarwinMasterKeyReference, replicate 32 (CHR ''k''))]\<rparr>"

lemma demo_protect:
  "(case Protect mem_protector ''key'' demo_master of Some (Inr blob, t) \<Rightarrow> mem_calm t | _ \<Rightarrow> False)"
  by code_simp

lemma protected_key_survives_witness:
  "\<exists>blob t v. Protect mem_protector ''key'' demo_master = Some (Inr blob, t) \<and>
     Unprotect mem_protector blob (t\<lparr>mm_refs := []\<rparr>) = Some (Inr ''key'', v)"
proof -
  obtain blob t where run: "Protect mem_protector ''key'' demo_master = Some (Inr blob, t)" "mem_calm t"
    using io_run_value [OF demo_protect] by auto
  have "mem_calm (t\<lparr>mm_refs := []\<rparr>)" using run(2) by (simp add: mem_calm_def)
  then show ?thesis
    using protected_key_survives [OF mem_pt.protector_store_axioms run(1), of "t\<lparr>mm_refs := []\<rparr>"] run(1) by auto
qed

section \<open>What the window gets to see\<close>

definition shown_entry :: "KeyVaultEntry \<Rightarrow> bool" where
  "shown_entry e \<longleftrightarrow> kve_ProtectedKeyBlob e = [] \<and> kve_PassphraseCredentialRef e = [] \<and>
     (kve_PrivateKeyPath e = [] \<or> kve_StorageMode e \<noteq> KeyVaultStorageEncryptedDatabase)"

lemma shown_sanitized: "shown_entry (sanitizeKeyVaultEntry e)"
  by (simp add: shown_entry_def sanitizeKeyVaultEntry_def Let_def)

lemma shown_get: "io_returns (get_sanitized a i) shown_entry"
  by (auto simp: get_sanitized_def shown_sanitized intro!: io_returns_bind io_returns_return)

lemma io_returns_thrown: "io_returns (io_throw e) V"
  by (simp add: io_returns_def)

lemmas shown_rules = io_returns_bind io_returns_return io_returns_thrown shown_sanitized shown_get

text \<open>
  C16: No operation of the key vault hands the window a private key, encrypted or not, the name of a saved
  passphrase, or the internal path of an encrypted entry.
\<close>

theorem vault_entries_shown:
  "io_returns (ListKeyVaultEntries a) (list_all shown_entry) \<and>
   io_returns (CreateKeyVaultEntry a request) shown_entry \<and>
   io_returns (UpdateKeyVaultEntry a request) shown_entry \<and>
   io_returns (MigrateLegacyPrivateKey a request) shown_entry \<and>
   io_returns (UpdateKeyVaultPassphrase a i passphrase) shown_entry"
proof (intro conjI)
  show "io_returns (ListKeyVaultEntries a) (list_all shown_entry)"
    by (auto simp: ListKeyVaultEntries_def list_all_iff intro!: shown_rules)
  show "io_returns (CreateKeyVaultEntry a request) shown_entry"
    by (auto simp: CreateKeyVaultEntry_def Let_def intro!: shown_rules split: sum.split)
  show "io_returns (UpdateKeyVaultEntry a request) shown_entry"
    by (auto simp: UpdateKeyVaultEntry_def update_passphrase_def Let_def intro!: shown_rules)
  show "io_returns (MigrateLegacyPrivateKey a request) shown_entry"
    by (auto simp: MigrateLegacyPrivateKey_def Let_def intro!: shown_rules)
  show "io_returns (UpdateKeyVaultPassphrase a i passphrase) shown_entry"
    by (auto simp: UpdateKeyVaultPassphrase_def intro!: shown_rules)
qed

end
