(* ===== verification/ConnectionConfig.thy ===== *)
theory ConnectionConfig
  imports Credential DomainTypes "HOL-Library.Code_Target_Numeral"
begin

text \<open>
  How a server is saved and deleted with its credential (\<open>app_connections.go\<close>): the check of a request,
  the database, the secret store and the resolver composed as the window's operations compose them. The
  database is calls on an unknown state.
\<close>

section \<open>The operations\<close>

definition normalizeSecretUpdateMode :: "SecretUpdateMode \<Rightarrow> bool \<Rightarrow> SecretUpdateMode" where
  "normalizeSecretUpdateMode mode valueProvided =
     (case mode of
        SecretUpdateOther _ \<Rightarrow> if valueProvided then SecretUpdateSet else SecretUpdateUnchanged
      | _ \<Rightarrow> mode)"

definition privateKeySource :: "PrivateKeySource \<Rightarrow> PrivateKeySource" where
  "privateKeySource source = (if source = PrivateKeySourceEmpty then PrivateKeySourceLocalFile else source)"

definition keyVaultIDValue :: "int option \<Rightarrow> int" where
  "keyVaultIDValue i = (case i of None \<Rightarrow> 0 | Some n \<Rightarrow> n)"

definition privateKeyCredentialChanged :: "Connection \<Rightarrow> Connection \<Rightarrow> bool" where
  "privateKeyCredentialChanged existing updated \<longleftrightarrow>
     conn_AuthType existing = AuthPrivateKey \<and> conn_AuthType updated = AuthPrivateKey \<and>
     (privateKeySource (conn_PrivateKeySource existing) \<noteq> privateKeySource (conn_PrivateKeySource updated) \<or>
      conn_PrivateKeyPath existing \<noteq> conn_PrivateKeyPath updated \<or>
      keyVaultIDValue (conn_KeyVaultID existing) \<noteq> keyVaultIDValue (conn_KeyVaultID updated))"

record 's connection_app =
  ca_GetConnection :: "int \<Rightarrow> ('s, goerr, Connection) call"
  ca_SaveConnection :: "SaveConnectionRequest \<Rightarrow> ('s, goerr, Connection) call"
  ca_DeleteConnection :: "int \<Rightarrow> ('s, goerr, unit) call"
  ca_DisconnectServer :: "int \<Rightarrow> ('s, goerr, unit) call"
  ca_RemoveState :: "int \<Rightarrow> 's \<Rightarrow> 's"
  ca_credentials :: "'s resolver"

text \<open>The passphrase of a key that the connection no longer uses is forgotten.\<close>

definition SaveConnection :: "'s connection_app \<Rightarrow> SaveConnectionRequest \<Rightarrow> ('s, goerr, Connection) io" where
  "SaveConnection a request =
     (case ValidateConnection request of
        Some e \<Rightarrow> io_throw (errors_New e)
      | None \<Rightarrow>
          io_bind (if save_ID request \<noteq> 0 then io_try (io_call (ca_GetConnection a (save_ID request)))
                   else io_return (Inl (errors_New []))) (\<lambda>existing.
          io_bind (io_call (ca_SaveConnection a request)) (\<lambda>connection.
            if (case existing of Inl _ \<Rightarrow> False
                | Inr old \<Rightarrow> conn_ID old \<noteq> 0 \<and> privateKeyCredentialChanged old connection)
            then io_bind (ClearKind (ca_credentials a) (conn_ID connection) ''passphrase'') (\<lambda>_.
              io_call (ca_GetConnection a (conn_ID connection)))
            else io_return connection)))"

definition key_candidate :: "string \<Rightarrow> Connection" where
  "key_candidate p =
     \<lparr>conn_ID = 0, conn_GroupID = None, conn_SortOrder = 0, conn_Name = [], conn_Host = [], conn_Port = 0,
      conn_Username = [], conn_AuthType = AuthPrivateKey, conn_PrivateKeySource = PrivateKeySourceEmpty,
      conn_PrivateKeyPath = p, conn_KeyVaultID = None, conn_TerminalProfileID = None,
      conn_ConnectionMode = ConnectionModeEmpty, conn_JumpServerID = None, conn_HostKeyFingerprint = [],
      conn_CredentialSaved = False, conn_PasswordCredentialSaved = False, conn_RefreshInterval = 0\<rparr>"

text \<open>A key file that is typed in must be readable, and a passphrase must open it.\<close>

definition check_key :: "'s connection_app \<Rightarrow> SaveConnectionRequest \<Rightarrow> AuthRequest \<Rightarrow> ('s, goerr, unit) io" where
  "check_key a request auth =
     (if save_AuthType request = AuthPrivateKey \<and>
         privateKeySource (save_PrivateKeySource request) = PrivateKeySourceLocalFile
      then io_bind (io_error (\<lambda>_. errors_New (zh [31169, 38053, 25991, 20214, 19981, 23384, 22312, 12289, 19981, 21487, 35835, 25110, 26684, 24335, 26080, 25928]))
          (InspectPrivateKey (ca_credentials a) (save_PrivateKeyPath request))) (\<lambda>encrypted.
        if encrypted \<and> au_Passphrase auth \<noteq> []
        then io_bind (io_error (\<lambda>_. errors_New (zh [31169, 38053, 21475, 20196, 38169, 35823, 65292, 26080, 27861, 35299, 23494, 31169, 38053]))
            (Resolve (ca_credentials a) (key_candidate (save_PrivateKeyPath request)) auth)) (\<lambda>_. io_return ())
        else io_return ())
      else io_return ())"

text \<open>The change of the credential when no connection is made afterwards.\<close>

definition save_credential ::
  "'s connection_app \<Rightarrow> Connection \<Rightarrow> AuthRequest \<Rightarrow> SecretUpdateMode \<Rightarrow> ('s, goerr, Connection) io" where
  "save_credential a connection auth mode =
     io_bind (io_try (case mode of
         SecretUpdateSet \<Rightarrow> if au_RememberSecret auth then SaveExplicit (ca_credentials a) connection auth else io_return ()
       | SecretUpdateDelete \<Rightarrow> ClearKind (ca_credentials a) (conn_ID connection) (Kind connection)
       | _ \<Rightarrow> io_return ())) (\<lambda>done. case done of
         Inl err \<Rightarrow> io_bind (io_try (io_call (ca_GetConnection a (conn_ID connection)))) (\<lambda>_.
           io_throw (errors_New (zh [26381, 21153, 22120, 37197, 32622, 24050, 20445, 23384, 65292, 20294, 20973, 25454, 26410, 33021, 20889, 20837, 31995, 32479, 20973, 25454, 24211])))
       | Inr _ \<Rightarrow>
           if mode = SecretUpdateSet \<or> mode = SecretUpdateDelete
           then io_call (ca_GetConnection a (conn_ID connection)) else io_return connection)"

definition SaveConnectionConfig ::
  "'s connection_app \<Rightarrow> SaveConnectionRequest \<Rightarrow> AuthRequest \<Rightarrow> bool \<Rightarrow> ('s, goerr, Connection \<times> bool) io" where
  "SaveConnectionConfig a request auth connectAfterSave =
     (case ValidateConnection request of
        Some e \<Rightarrow> io_throw (errors_New e)
      | None \<Rightarrow>
          io_bind (check_key a request auth) (\<lambda>_.
          io_bind (SaveConnection a request) (\<lambda>connection.
          let valueProvided = au_Password auth \<noteq> [] \<or> au_Passphrase auth \<noteq> [];
              mode = normalizeSecretUpdateMode (au_SecretUpdateMode auth) valueProvided;
              no_value = io_throw (errors_New (zh [20973, 25454, 26356, 26032, 27169, 24335, 20026, 32, 115, 101, 116, 65292, 20294, 27809, 26377, 25552, 20379, 26032, 30340, 20973, 25454, 20540]))
          in io_bind
            (if mode = SecretUpdateSet \<and> \<not> valueProvided then no_value
             else if \<not> connectAfterSave then save_credential a connection auth mode
             else if mode = SecretUpdateDelete
             then io_bind (io_error (\<lambda>_. errors_New (zh [26381, 21153, 22120, 37197, 32622, 24050, 20445, 23384, 65292, 20294, 20973, 25454, 26410, 33021, 20174, 31995, 32479, 20973, 25454, 24211, 21024, 38500]))
                 (ClearKind (ca_credentials a) (conn_ID connection) (Kind connection))) (\<lambda>_.
               io_call (ca_GetConnection a (conn_ID connection)))
             else io_return connection) (\<lambda>connection. io_return (connection, connectAfterSave)))))"

definition DeleteSavedCredential :: "'s connection_app \<Rightarrow> int \<Rightarrow> ('s, goerr, unit) io" where
  "DeleteSavedCredential a i =
     io_bind (io_call (ca_GetConnection a i)) (\<lambda>connection.
       io_error (\<lambda>_. errors_New (zh [21024, 38500, 31995, 32479, 20973, 25454, 22833, 36133])) (ClearKind (ca_credentials a) i (Kind connection)))"

definition DeleteConnection :: "'s connection_app \<Rightarrow> int \<Rightarrow> ('s, goerr, unit) io" where
  "DeleteConnection a i =
     io_bind (io_call (ca_DisconnectServer a i)) (\<lambda>_.
     io_bind (Clear (ca_credentials a) i) (\<lambda>_.
     io_bind (io_try (io_call (ca_DeleteConnection a i))) (\<lambda>deleted.
     io_bind (io_update (ca_RemoveState a i)) (\<lambda>_.
       case deleted of Inl err \<Rightarrow> io_throw err | Inr _ \<Rightarrow> io_return ()))))"

section \<open>What is saved is used\<close>

locale connection_store = credential_store "ca_credentials a" refs secrets calm
  for a :: "'s connection_app" and refs :: "'s \<Rightarrow> int \<times> string \<Rightarrow> string option"
    and secrets :: "'s \<Rightarrow> string \<Rightarrow> string option" and calm :: "'s \<Rightarrow> bool" +
  assumes get_connection: "ca_GetConnection a i s = (res, t) \<Longrightarrow> refs t = refs s \<and> secrets t = secrets s \<and>
      (case res of Inr c \<Rightarrow> conn_ID c = i | Inl e \<Rightarrow> True)"
    and save_connection: "ca_SaveConnection a q s = (res, t) \<Longrightarrow> refs t = refs s \<and> secrets t = secrets s \<and>
      (case res of Inr c \<Rightarrow> conn_AuthType c = save_AuthType q | Inl e \<Rightarrow> True)"
begin

lemma SaveExplicit_saved:
  assumes "SaveExplicit (ca_credentials a) c auth s = Some (Inr (), t)" "conn_AuthType c = AuthPassword"
    and "au_Password auth \<noteq> []"
  shows "refs t (conn_ID c, ''password'') = Some (case refs s (conn_ID c, ''password'') of
      None \<Rightarrow> Reference (conn_ID c) ''password'' | Some x \<Rightarrow> x)"
    and "secrets t = (secrets s)(Reference (conn_ID c) ''password'' \<mapsto> au_Password auth)"
proof -
  let ?i = "conn_ID c" and ?k = "''password''"
  let ?x = "Reference ?i ?k"
  have kind: "Kind c = ?k" "secretValue c auth = au_Password auth" "\<not> uses_vault c"
    using assms(2) by (simp_all add: Kind_def secretValue_def uses_vault_def)
  obtain got u where got: "ref_Get (ca_credentials a) ?i ?k s = (got, u)" by force
  have same: "refs u = refs s" "secrets u = secrets s" using ref_Get [OF got] by simp_all
  have "refs t (?i, ?k) = Some (case refs s (?i, ?k) of None \<Rightarrow> ?x | Some x \<Rightarrow> x) \<and>
      secrets t = (secrets s)(?x \<mapsto> au_Password auth)"
  proof (cases got)
    case (Inl err)
    then have "save_secret (ca_credentials a) ''save credential to system store: '' ''save credential reference: '' ?x
        (au_Password auth) (io_call (ref_Set (ca_credentials a) ?i ?k ?x)) u = Some (Inr (), t)"
      and "refs s (?i, ?k) = None"
      using assms(1,3) got kind ref_Get [OF got] by (simp_all add: SaveExplicit_def Let_def io_run split: if_splits)
    then show ?thesis using save_secret_saved(1,3) same(2) by fastforce
  next
    case (Inr x)
    obtain d v where d: "sec_Set (ca_credentials a) ?x (au_Password auth) u = (d, v)" by force
    have "refs s (?i, ?k) = Some x" using ref_Get [OF got] Inr by simp
    moreover have "d = Inr () \<and> t = v"
      using assms(1,3) got kind Inr d by (cases d) (simp_all add: SaveExplicit_def Let_def io_run)
    ultimately show ?thesis
      using sec_Set [OF d] same by auto
  qed
  then show "refs t (?i, ?k) = Some (case refs s (?i, ?k) of None \<Rightarrow> ?x | Some x \<Rightarrow> x)"
    "secrets t = (secrets s)(?x \<mapsto> au_Password auth)" by simp_all
qed

lemma SaveConnection_saved:
  assumes "SaveConnection a q s = Some (Inr c, t)" "save_AuthType q = AuthPassword"
  shows "conn_AuthType c = AuthPassword" "refs t = refs s" "secrets t = secrets s"
proof -
  define old where "old = (if save_ID q \<noteq> 0 then io_try (io_call (ca_GetConnection a (save_ID q)))
      else io_return (Inl (errors_New [])) :: ('s, goerr, goerr + Connection) io)"
  obtain existing u where u: "old s = Some (Inr existing, u)" "refs u = refs s" "secrets u = secrets s"
    using get_connection [of "save_ID q" s]
    by (cases "save_ID q = 0"; cases "ca_GetConnection a (save_ID q) s") (simp_all add: old_def io_run)
  obtain got v where got: "ca_SaveConnection a q u = (got, v)" by force
  have "got = Inr c \<and> t = v"
    using assms u(1) got save_connection [OF got]
    by (cases got) (auto simp: SaveConnection_def old_def [symmetric] privateKeyCredentialChanged_def io_run
        split: option.splits sum.splits if_splits)
  then show "conn_AuthType c = AuthPassword" "refs t = refs s" "secrets t = secrets s"
    using save_connection [OF got] u assms(2) by simp_all
qed

lemma config_saved:
  assumes "SaveConnectionConfig a q auth False s = Some (Inr (c, flag), t)" "calm t"
    and "save_AuthType q = AuthPassword" "au_Password auth \<noteq> []" "au_RememberSecret auth"
    and "normalizeSecretUpdateMode (au_SecretUpdateMode auth) True = SecretUpdateSet"
    and "conn_ID c' = conn_ID c" "conn_AuthType c' = AuthPassword"
    and "x = (case refs s (conn_ID c, ''password'') of None \<Rightarrow> Reference (conn_ID c) ''password'' | Some x \<Rightarrow> x)"
    and "((secrets s)(Reference (conn_ID c) ''password'' \<mapsto> au_Password auth)) x = Some v" "v \<noteq> []"
  shows "\<exists>u. savedSecret (ca_credentials a) c' t = Some (Inr v, u)"
proof -
  obtain c1 u where c1: "SaveConnection a q s = Some (Inr c1, u)"
    "save_credential a c1 auth SecretUpdateSet u = Some (Inr c, t)"
    using assms(1,3,4,6)
    by (cases "SaveConnection a q s"; cases "fst (the (SaveConnection a q s))")
      (auto simp: SaveConnectionConfig_def check_key_def Let_def io_run split: option.splits sum.splits)
  note saved = SaveConnection_saved [OF c1(1) assms(3)]
  obtain z where z: "SaveExplicit (ca_credentials a) c1 auth u = Some (Inr (), z)"
    "ca_GetConnection a (conn_ID c1) z = (Inr c, t)"
    using c1(2) assms(5)
    by (cases "SaveExplicit (ca_credentials a) c1 auth u"; cases "fst (the (SaveExplicit (ca_credentials a) c1 auth u))";
        cases "ca_GetConnection a (conn_ID c1) (snd (the (SaveExplicit (ca_credentials a) c1 auth u)))")
      (auto simp: save_credential_def io_run)
  note stored = SaveExplicit_saved [OF z(1) saved(1) assms(4)]
  have same: "conn_ID c1 = conn_ID c" "refs t = refs z" "secrets t = secrets z"
    using get_connection [OF z(2)] by simp_all
  have "refs t (conn_ID c', ''password'') = Some x" "secrets t x = Some v"
    using stored [unfolded same(1)] same(2,3) saved(2,3) assms(7,9,10) by simp_all
  moreover have "\<not> uses_vault c'" "Kind c' = ''password''" using assms(8) by (simp_all add: uses_vault_def Kind_def)
  ultimately show ?thesis using savedSecret_found [OF assms(2), of c' x v] assms(11) by simp
qed

end

text \<open>
  C7: What a login without input finds after the settings of a server were saved, without connecting,
  with a password to remember, and the stores answer: that password, if the database had no reference for
  the server or the one the program uses now; but if it has another one, as an old version of the
  program wrote, still the secret of that reference, where it is there.
\<close>

theorem saved_config_resolves:
  assumes "connection_store a refs secrets calm"
    and "SaveConnectionConfig a q auth False s = Some (Inr (c, flag), t)" "calm t"
    and "save_AuthType q = AuthPassword" "au_Password auth \<noteq> []" "au_RememberSecret auth"
    and "normalizeSecretUpdateMode (au_SecretUpdateMode auth) True = SecretUpdateSet"
    and "conn_ID c' = conn_ID c" "conn_AuthType c' = AuthPassword" "au_Password later = []"
    and "old = refs s (conn_ID c, ''password'')" "ref = Reference (conn_ID c) ''password''"
  shows "(old = None \<or> old = Some ref \<longrightarrow>
      (\<exists>u. Resolve (ca_credentials a) c' later t =
        Some (Inr (later\<lparr>au_Password := au_Password auth, au_ResolvedFromStore := True\<rparr>), u))) \<and>
    (\<forall>x v. old = Some x \<and> x \<noteq> ref \<and> secrets s x = Some v \<and> v \<noteq> [] \<longrightarrow>
      (\<exists>u. Resolve (ca_credentials a) c' later t =
        Some (Inr (later\<lparr>au_Password := v, au_ResolvedFromStore := True\<rparr>), u)))"
proof -
  note config = connection_store.config_saved [OF assms(1-7,8,9)]
  have found: "\<exists>u. Resolve (ca_credentials a) c' later t =
      Some (Inr (later\<lparr>au_Password := v, au_ResolvedFromStore := True\<rparr>), u)"
    if "((secrets s)(ref \<mapsto> au_Password auth)) (case old of None \<Rightarrow> ref | Some x \<Rightarrow> x) = Some v" "v \<noteq> []" for v
    using config [OF refl, of v] that assms(9-12) by (auto simp: Resolve_def io_run)
  show ?thesis using found [of "au_Password auth"] found assms(5) by (auto split: if_splits)
qed

section \<open>A database in memory\<close>

definition saved_server :: "SaveConnectionRequest \<Rightarrow> Connection" where
  "saved_server q = demo_server\<lparr>conn_ID := (if save_ID q = 0 then 9 else save_ID q), conn_AuthType := save_AuthType q\<rparr>"

definition mem_app :: "mem connection_app" where
  "mem_app =
     \<lparr>ca_GetConnection = (\<lambda>i. mem_call (\<lambda>m. (Inr (demo_server\<lparr>conn_ID := i\<rparr>), m))),
      ca_SaveConnection = (\<lambda>q. mem_call (\<lambda>m. (Inr (saved_server q), m))),
      ca_DeleteConnection = (\<lambda>i. mem_call (\<lambda>m. (Inr (), m))),
      ca_DisconnectServer = (\<lambda>i. mem_call (\<lambda>m. (Inr (), m))),
      ca_RemoveState = (\<lambda>i m. m), ca_credentials = mem_resolver\<rparr>"

interpretation mem_config: connection_store mem_app mem_refs_map mem_secrets_map mem_calm
proof -
  have r: "ca_credentials mem_app = mem_resolver" by (simp add: mem_app_def)
  show "connection_store mem_app mem_refs_map mem_secrets_map mem_calm"
    unfolding connection_store_def connection_store_axioms_def r
    by (auto simp: mem_app_def saved_server_def mem.credential_store_axioms dest!: mem_call_cases)
qed

definition demo_request :: SaveConnectionRequest where
  "demo_request =
     \<lparr>save_ID = 0, save_GroupID = None, save_Name = ''web'', save_Host = ''h'', save_Port = 22,
      save_Username = ''root'', save_AuthType = AuthPassword, save_PrivateKeySource = PrivateKeySourceLocalFile,
      save_PrivateKeyPath = [], save_KeyVaultID = None, save_TerminalProfileID = None,
      save_ConnectionMode = ConnectionModeDirect, save_JumpServerID = None, save_RefreshInterval = 5\<rparr>"

lemma demo_save:
  "(case SaveConnectionConfig mem_app demo_request demo_typed False demo_mem of
      Some (Inr x, t) \<Rightarrow> mem_calm t \<and> conn_ID (fst x) = 9 \<and> conn_AuthType (fst x) = AuthPassword \<and> \<not> snd x | _ \<Rightarrow> False)"
  by code_simp

lemma saved_config_resolves_witness:
  "\<exists>c t u. SaveConnectionConfig mem_app demo_request demo_typed False demo_mem = Some (Inr (c, False), t) \<and>
     Resolve mem_resolver c no_auth t = Some (Inr (no_auth\<lparr>au_Password := ''new'', au_ResolvedFromStore := True\<rparr>), u)"
proof -
  obtain c t where run: "SaveConnectionConfig mem_app demo_request demo_typed False demo_mem = Some (Inr (c, False), t)"
      "mem_calm t" "conn_AuthType c = AuthPassword" "conn_ID c = 9"
    using io_run_value [OF demo_save] by (auto split: prod.splits)
  have r: "ca_credentials mem_app = mem_resolver" by (simp add: mem_app_def)
  show ?thesis
    using saved_config_resolves [OF mem_config.connection_store_axioms run(1,2), of c no_auth None "Reference 9 ''password''"]
      run(1,3,4)
    by (auto simp: r demo_request_def demo_typed_def no_auth_def demo_mem_def normalizeSecretUpdateMode_def)
qed

text \<open>
  If the database names the secret of the old version, a new password that is saved with the settings
  is not used: the secret gets the new name, and the reference keeps the old one.
\<close>

lemma SaveExplicit_ignored:
  "(case SaveExplicit mem_resolver demo_server demo_typed
       (demo_mem\<lparr>mm_refs := [((7, ''password''), legacyReference 7 ''password'')]\<rparr>) of
      Some (Inr u, t) \<Rightarrow>
        (case Resolve mem_resolver demo_server no_auth t of
           Some (Inr auth, t) \<Rightarrow> au_Password auth = ''old'' | _ \<Rightarrow> False)
    | _ \<Rightarrow> False)"
  by code_simp

end
