(* ===== verification/NetworkDiag.thy ===== *)
theory NetworkDiag
  imports GoNet GoText DomainTypes "HOL-Library.Char_ord"
begin

text \<open>
  Package \<open>internal/networkdiag\<close>, \<open>commands.go\<close>: the shell script of a ping, a route trace, a name
  lookup or a port test that runs on a server, the check of the target the user typed, the time
  the script gets, and the line by which it reports its exit code.
\<close>

section \<open>Requests\<close>

datatype NetworkDiagnosticType =
  NetworkDiagnosticPing | NetworkDiagnosticTraceroute | NetworkDiagnosticDNS | NetworkDiagnosticTCP
  | NetworkDiagnosticOther string

record StartNetworkDiagnosticRequest =
  snr_ServerID :: int
  snr_Type :: NetworkDiagnosticType
  snr_Target :: string
  snr_Port :: int
  snr_Count :: int
  snr_TimeoutSeconds :: int

section \<open>The target\<close>

definition err_target_form :: string where
  "err_target_form = (zh [30446, 26631, 21482, 20801, 35768, 32, 104, 111, 115, 116, 110, 97, 109, 101, 32, 47, 32, 73, 80, 118, 52, 32, 47, 32, 73, 80, 118, 54])"

text \<open>The characters of \<open>ContainsAny\<close>: punctuation of the shell, quotes, blanks and line ends.\<close>

definition refused_chars :: string where
  "refused_chars =
     ''/'' @ [CHR 0x5C] @ ''?&#;$`|<>(){}[]'' @ [CHR 0x22, CHR 0x27, CHR '' '', CHR 0x09, CHR 0x0D, CHR 0x0A]"

text \<open>
  The loop over the runes of a label; a byte above 127 belongs to a rune that is no letter of the
  ranges, or to the replacement of an invalid one, so the test on bytes is the same.
\<close>

definition label_char :: "char \<Rightarrow> bool" where
  "label_char c \<longleftrightarrow>
     (CHR ''a'' \<le> c \<and> c \<le> CHR ''z'') \<or> (CHR ''A'' \<le> c \<and> c \<le> CHR ''Z'') \<or>
     (CHR ''0'' \<le> c \<and> c \<le> CHR ''9'') \<or> c = CHR ''-''"

definition label_ok :: "string \<Rightarrow> bool" where
  "label_ok label \<longleftrightarrow>
     \<not> (label = [] \<or> length label > 63 \<or> HasPrefix label ''-'' \<or> HasSuffix label ''-'') \<and>
     list_all label_char label"

definition ValidateTarget :: "string \<Rightarrow> string + string" where
  "ValidateTarget val =
     (let val = TrimSpace val
      in if val = [] then Inl (zh [30446, 26631, 19981, 33021, 20026, 31354])
         else if length val > 253 then Inl (zh [30446, 26631, 36807, 38271])
         else if ContainsAnyChar val refused_chars then Inl err_target_form
         else if ParseIP (TrimChars val ''[]'') \<noteq> None then Inr val
         else if list_all label_ok (Split val (CHR ''.'')) then Inr val
         else Inl err_target_form)"

definition ShellQuote :: "string \<Rightarrow> string" where
  "ShellQuote val =
     [CHR 0x27] @ ReplaceChar val (CHR 0x27) [CHR 0x27, CHR 0x5C, CHR 0x27, CHR 0x27] @ [CHR 0x27]"

section \<open>The script\<close>

definition exitMarker :: string where
  "exitMarker = ''__SERVERPILOT_DIAG_EXIT__=''"

text \<open>Text between double and between single quotes of the shell.\<close>

abbreviation dq :: "string \<Rightarrow> string" where "dq s \<equiv> [CHR 0x22] @ s @ [CHR 0x22]"
abbreviation sq :: "string \<Rightarrow> string" where "sq s \<equiv> [CHR 0x27] @ s @ [CHR 0x27]"

definition pingBody :: "int \<Rightarrow> int \<Rightarrow> string" where
  "pingBody count timeoutSeconds = Join [
     ''if command -v ping >/dev/null 2>&1; then'',
     ''  ping -c '' @ Itoa count @ '' -W '' @ Itoa timeoutSeconds @ '' '' @ dq ''$target'',
     ''  status=$?'',
     ''  if [ '' @ dq ''$status'' @ '' -ne 0 ]; then'',
     ''    ping -c '' @ Itoa count @ '' '' @ dq ''$target'',
     ''    status=$?'',
     ''  fi'',
     ''else'',
     ''  echo '' @ sq (zh [26381, 21153, 22120, 32570, 23569, 32, 112, 105, 110, 103, 32, 24037, 20855, 12290]),
     ''  status=127'',
     ''fi''] [CHR 0x0A]"

definition tracerouteBody :: "int \<Rightarrow> string" where
  "tracerouteBody count = Join [
     ''if command -v traceroute >/dev/null 2>&1; then'',
     ''  traceroute '' @ dq ''$target'',
     ''  status=$?'',
     ''elif command -v tracepath >/dev/null 2>&1; then'',
     ''  tracepath '' @ dq ''$target'',
     ''  status=$?'',
     ''elif command -v ping >/dev/null 2>&1; then'',
     ''  echo '' @ sq (zh [26381, 21153, 22120, 26410, 23433, 35013, 32, 116, 114, 97, 99, 101, 114, 111, 117, 116, 101, 32, 47, 32, 116, 114, 97, 99, 101, 112, 97, 116, 104, 65292, 25913, 29992, 32, 112, 105, 110, 103, 12290]),
     ''  ping -c '' @ Itoa count @ '' '' @ dq ''$target'',
     ''  status=$?'',
     ''else'',
     ''  echo '' @ sq (zh [26381, 21153, 22120, 26410, 23433, 35013, 32, 116, 114, 97, 99, 101, 114, 111, 117, 116, 101, 32, 47, 32, 116, 114, 97, 99, 101, 112, 97, 116, 104, 12290]),
     ''  status=127'',
     ''fi''] [CHR 0x0A]"

definition dnsBody :: string where
  "dnsBody = Join [
     ''if command -v getent >/dev/null 2>&1; then'',
     ''  getent hosts '' @ dq ''$target'',
     ''  status=$?'',
     ''elif command -v nslookup >/dev/null 2>&1; then'',
     ''  nslookup '' @ dq ''$target'',
     ''  status=$?'',
     ''elif command -v dig >/dev/null 2>&1; then'',
     ''  dig '' @ dq ''$target'',
     ''  status=$?'',
     ''else'',
     ''  echo '' @ sq (zh [26381, 21153, 22120, 32570, 23569, 32, 68, 78, 83, 32, 26597, 35810, 24037, 20855, 12290]),
     ''  status=127'',
     ''fi''] [CHR 0x0A]"

definition tcpBody :: "int \<Rightarrow> int \<Rightarrow> string" where
  "tcpBody timeoutSeconds port =
     (let t = Itoa timeoutSeconds; args = dq ''$target'' @ '' '' @ dq ''$port'';
          open_tcp = ''sh -c '' @ sq (''cat < /dev/null > /dev/tcp/'' @ dq ''$1'' @ ''/'' @ dq ''$2'') @ '' sh '' @ args
      in Join [
     ''port='' @ Itoa port,
     ''if command -v nc >/dev/null 2>&1; then'',
     ''  nc -vz -w '' @ t @ '' '' @ args,
     ''  status=$?'',
     ''  if [ '' @ dq ''$status'' @ '' -ne 0 ]; then'',
     ''    nc -z -w '' @ t @ '' '' @ args,
     ''    status=$?'',
     ''  fi'',
     ''elif command -v timeout >/dev/null 2>&1; then'',
     ''  timeout '' @ t @ '' '' @ open_tcp,
     ''  status=$?'',
     ''else'',
     ''  '' @ open_tcp,
     ''  status=$?'',
     ''fi''] [CHR 0x0A])"

text \<open>A number the request leaves out, or out of its range.\<close>

definition clamp :: "int \<Rightarrow> int \<Rightarrow> int \<Rightarrow> int" where
  "clamp usual most n = (let n = (if n \<le> 0 then usual else n) in if n > most then most else n)"

definition diagnostic_body :: "StartNetworkDiagnosticRequest \<Rightarrow> string + string" where
  "diagnostic_body request =
     (let count = clamp 4 10 (snr_Count request);
          timeoutSeconds = clamp 3 30 (snr_TimeoutSeconds request)
      in case snr_Type request of
           NetworkDiagnosticPing \<Rightarrow> Inr (pingBody count timeoutSeconds)
         | NetworkDiagnosticTraceroute \<Rightarrow> Inr (tracerouteBody count)
         | NetworkDiagnosticDNS \<Rightarrow> Inr dnsBody
         | NetworkDiagnosticTCP \<Rightarrow>
             if snr_Port request < 1 \<or> snr_Port request > 65535
             then Inl (zh [84, 67, 80, 32, 31471, 21475, 24517, 39035, 22312, 32, 49, 45, 54, 53, 53, 51, 53, 32, 20043, 38388])
             else Inr (tcpBody timeoutSeconds (snr_Port request))
         | NetworkDiagnosticOther _ \<Rightarrow> Inl (zh [19981, 25903, 25345, 30340, 32593, 32476, 35786, 26029, 31867, 22411]))"

definition BuildCommand :: "StartNetworkDiagnosticRequest \<Rightarrow> string + string" where
  "BuildCommand request =
     bind_res (ValidateTarget (snr_Target request)) (\<lambda>target.
     bind_res (diagnostic_body request) (\<lambda>body.
     Inr (Join [
       ''target='' @ ShellQuote target,
       body,
       ''printf '' @ sq ([CHR 0x5C] @ ''n'' @ exitMarker @ ''%s'' @ [CHR 0x5C] @ ''n'') @ '' '' @ dq ''$status'',
       ''exit 0''] [CHR 0x0A])))"

text \<open>In seconds.\<close>

definition CommandTimeout :: "StartNetworkDiagnosticRequest \<Rightarrow> int" where
  "CommandTimeout request =
     (let timeoutSeconds = clamp 3 30 (snr_TimeoutSeconds request)
      in case snr_Type request of
           NetworkDiagnosticTraceroute \<Rightarrow> timeoutSeconds * 20
         | NetworkDiagnosticTCP \<Rightarrow> timeoutSeconds + 5
         | _ \<Rightarrow> timeoutSeconds * clamp 4 10 (snr_Count request) + 10)"

section \<open>The exit code\<close>

definition ParseExitMarkerLine :: "string \<Rightarrow> int \<times> bool" where
  "ParseExitMarkerLine line =
     (let line = TrimSpace (TrimRightChars line [CHR 0x0D])
      in if \<not> HasPrefix line exitMarker then (0, False)
         else case ParseInt (TrimSpace (TrimPrefix line exitMarker)) 10 of
                Inl _ \<Rightarrow> (0, True)
              | Inr parsed \<Rightarrow> (parsed, True))"

fun strip_lines :: "string list \<Rightarrow> string list \<times> int \<Rightarrow> string list \<times> int" where
  "strip_lines [] (kept, exitCode) = (kept, exitCode)"
| "strip_lines (line # rest) (kept, exitCode) =
     (let line = TrimRightChars line [CHR 0x0D]
      in case ParseExitMarkerLine line of
           (parsed, True) \<Rightarrow> strip_lines rest (kept, parsed)
         | (_, False) \<Rightarrow>
             if TrimSpace line = [] then strip_lines rest (kept, exitCode)
             else strip_lines rest (kept @ [line], exitCode))"

definition StripExitMarker :: "string \<Rightarrow> string list \<times> int" where
  "StripExitMarker output = strip_lines (Split (ReplaceCRLF output) (CHR 0x0A)) ([], 0)"

section \<open>Which targets are accepted\<close>

definition target_char :: "char \<Rightarrow> bool" where
  "target_char c \<longleftrightarrow> label_char c \<or> c = CHR ''.'' \<or> c = CHR '':''"

text \<open>The characters of an address; none is a hyphen.\<close>

definition ip_char :: "char \<Rightarrow> bool" where
  "ip_char c \<longleftrightarrow> hex_digit c \<or> c = CHR ''.'' \<or> c = CHR '':''"

lemma label_char_iff:
  "label_char c \<longleftrightarrow>
     (97 \<le> (of_char c :: nat) \<and> (of_char c :: nat) \<le> 122) \<or> (65 \<le> (of_char c :: nat) \<and> (of_char c :: nat) \<le> 90) \<or>
     (48 \<le> (of_char c :: nat) \<and> (of_char c :: nat) \<le> 57) \<or> c = CHR ''-''"
  by (simp add: label_char_def less_eq_char_def)

lemma digit_val_label: "digit_val c = Some d \<Longrightarrow> label_char c"
  by (auto simp: digit_val_def label_char_iff Let_def split: if_splits)

lemma ip_char_target: "ip_char c \<Longrightarrow> target_char c"
  by (auto simp: ip_char_def target_char_def hex_digit_def dest: digit_val_label split: option.splits)

lemma ip_char_punct [simp]: "ip_char CHR ''.''" "ip_char CHR '':''"
  by (simp_all add: ip_char_def)

lemma ip_char_no_hyphen: "ip_char c \<Longrightarrow> c \<noteq> CHR ''-''"
  by (auto simp: ip_char_def hex_digit_def digit_val_def)

lemma parse_digits_chars: "parse_digits 10 acc s = Inr n \<Longrightarrow> list_all hex_digit s"
  by (induction s arbitrary: acc) (auto simp: hex_digit_def split: option.splits if_splits)

lemma parse_octet_chars: "parse_octet s = Some n \<Longrightarrow> list_all hex_digit s \<and> s \<noteq> []"
  by (auto simp: parse_octet_def ParseUint_def parse_digits_chars split: sum.splits if_splits)

lemma parse_ipv4_chars:
  assumes "parse_ipv4 s = Some quad" shows "list_all ip_char s \<and> s \<noteq> []"
proof -
  obtain a b c d where "map parse_octet (Split s (CHR ''.'')) = [Some a, Some b, Some c, Some d]"
    using assms by (auto simp: parse_ipv4_def split: list.splits option.splits)
  then have "\<And>p. p \<in> set (Split s (CHR ''.'')) \<Longrightarrow> list_all hex_digit p \<and> p \<noteq> []"
    using parse_octet_chars by (fastforce simp: map_eq_Cons_conv)
  moreover have "Split s (CHR ''.'') \<noteq> []"
    by (simp add: Split_def split_acc_nonempty)
  moreover have "s = Join (Split s (CHR ''.'')) ''.''"
    by (simp add: Split_Join)
  moreover have "list_all ip_char (Join ps ''.'')" "ps \<noteq> [] \<Longrightarrow> Join ps ''.'' \<noteq> []"
    if "\<And>p. p \<in> set ps \<Longrightarrow> list_all hex_digit p \<and> p \<noteq> []" for ps
    using that by (induction ps "''.''" rule: Join.induct) (auto simp: ip_char_def list_all_iff)
  ultimately show ?thesis by metis
qed

lemma parse_ipv6_loop_chars:
  "parse_ipv6_loop ip e s = Some (ip', e', rest) \<Longrightarrow> rest = [] \<Longrightarrow> list_all ip_char s"
proof (induction ip e s arbitrary: ip' e' rule: parse_ipv6_loop.induct)
  case (1 ip e s)
  show ?case
  proof (cases "length ip \<ge> 16")
    case True
    then show ?thesis using 1(3,4) by (subst (asm) parse_ipv6_loop.simps) simp
  next
    case False
    define digits where "digits = takeWhile hex_digit s"
    define r where "r = dropWhile hex_digit s"
    define ip2 where "ip2 = ip @ [hex_value digits div 256, hex_value digits mod 256]"
    have s: "s = digits @ r" by (simp add: digits_def r_def)
    have d: "list_all ip_char digits"
      by (auto simp: digits_def list_all_iff ip_char_def dest: set_takeWhileD)
    have u: "parse_ipv6_loop ip e s =
        (if digits = [] \<or> length digits > 4 then None
         else if HasPrefix r ''.'' then
           (if e = None \<and> length ip \<noteq> 12 then None else if length ip + 4 > 16 then None
            else map_option (\<lambda>quad. (ip @ quad, e, [])) (parse_ipv4 s))
         else if r = [] then Some (ip2, e, [])
         else if hd r \<noteq> CHR '':'' \<or> length r = 1 then None
         else if HasPrefix (tl r) '':'' then
           (if e \<noteq> None then None
            else if length r = 2 then Some (ip2, Some (length ip2), [])
            else parse_ipv6_loop ip2 (Some (length ip2)) (drop 2 r))
         else parse_ipv6_loop ip2 e (tl r))"
      using False by (subst parse_ipv6_loop.simps) (simp add: digits_def r_def ip2_def Let_def)
    show ?thesis
    proof (cases "HasPrefix r ''.''")
      case True
      then show ?thesis using 1(3) parse_ipv4_chars [of s] by (auto simp: u split: if_splits)
    next
      case nodot: False
      show ?thesis
      proof (cases r)
        case Nil
        then show ?thesis using s d by simp
      next
        case (Cons c r')
        then have colon: "c = CHR '':''" using 1(3) nodot by (auto simp: u split: if_splits)
        note IH = 1(1,2) [OF False digits_def r_def refl ip2_def]
        have "list_all ip_char r'"
        proof (cases "HasPrefix r' '':''")
          case True
          then obtain r2 where r2: "r' = CHR '':'' # r2" by (auto elim: HasPrefixE)
          show ?thesis
            using 1(3,4) nodot IH(1) [of ip' e'] by (auto simp: u Cons r2 HasPrefix_def split: if_splits)
        next
          case False
          then show ?thesis
            using 1(3,4) nodot IH(2) [of ip' e'] by (auto simp: u Cons split: if_splits)
        qed
        then show ?thesis using s d by (simp add: Cons colon)
      qed
    qed
  qed
qed

lemma ParseIP_chars: "ParseIP s = Some ip \<Longrightarrow> list_all ip_char s \<and> s \<noteq> []"
proof -
  assume a: "ParseIP s = Some ip"
  show ?thesis
  proof (cases "s = []")
    case False
    have "list_all ip_char s" if "parse_ipv6 s = Some ip"
      using that parse_ipv6_loop_chars
      by (fastforce simp: parse_ipv6_def ip_char_def elim!: HasPrefixE split: if_splits option.splits prod.splits)
    then show ?thesis
      using a False parse_ipv4_chars [of s] by (auto simp: ParseIP_def split: if_splits option.splits)
  qed (use a in \<open>simp add: ParseIP_def\<close>)
qed

lemma label_ok_chars: "label_ok l \<Longrightarrow> list_all target_char l \<and> l \<noteq> [] \<and> hd l \<noteq> CHR ''-''"
  by (cases l) (auto simp: label_ok_def target_char_def list_all_iff HasPrefix_def)

lemma labels_chars:
  assumes "ls \<noteq> []" "list_all label_ok ls"
  shows "list_all target_char (Join ls ''.'') \<and> Join ls ''.'' \<noteq> [] \<and> hd (Join ls ''.'') \<noteq> CHR ''-''"
  using assms
proof (induction ls "''.''" rule: Join.induct)
  case (3 x y ys)
  then show ?case using label_ok_chars [of x] by (auto simp: target_char_def hd_append)
qed (auto dest: label_ok_chars)

lemma TrimChars_id: "\<not> ContainsAnyChar s cs \<Longrightarrow> set b \<subseteq> set cs \<Longrightarrow> TrimChars s b = s"
proof -
  assume a: "\<not> ContainsAnyChar s cs" "set b \<subseteq> set cs"
  then have "c \<notin> set b" if "c \<in> set s" for c using that by (auto simp: ContainsAnyChar_def list_ex_iff)
  then have "dropWhile (\<lambda>c. c \<in> set b) s = s" "dropWhile (\<lambda>c. c \<in> set b) (rev s) = rev s"
    by (simp_all add: dropWhile_eq_self_iff hd_rev last_in_set hd_in_set disj_imp)
  then show ?thesis by (simp add: TrimChars_def)
qed

text \<open>A target is a name or an address: no shell character, no blank, and no option.\<close>

lemma ValidateTarget_chars:
  assumes "ValidateTarget val = Inr t"
  shows "t = TrimSpace val \<and> length t \<le> 253 \<and> list_all target_char t \<and> t \<noteq> [] \<and> hd t \<noteq> CHR ''-''"
proof -
  have t: "t = TrimSpace val" "t \<noteq> []" "length t \<le> 253" "\<not> ContainsAnyChar t refused_chars"
    and ok: "ParseIP (TrimChars t ''[]'') \<noteq> None \<or> list_all label_ok (Split t (CHR ''.''))"
    using assms by (auto simp: ValidateTarget_def Let_def split: if_splits)
  from ok have "list_all target_char t \<and> hd t \<noteq> CHR ''-''"
  proof
    assume "ParseIP (TrimChars t ''[]'') \<noteq> None"
    moreover have "TrimChars t ''[]'' = t" by (rule TrimChars_id [OF t(4)]) (simp add: refused_chars_def)
    ultimately have "list_all ip_char t" using ParseIP_chars by auto
    then show ?thesis
      using t(2) ip_char_target ip_char_no_hyphen by (cases t) (auto simp: list_all_iff)
  next
    assume "list_all label_ok (Split t (CHR ''.''))"
    then show ?thesis
      using labels_chars [of "Split t (CHR ''.'')"] Split_Join [of t "CHR ''.''"]
      by (simp add: Split_def split_acc_nonempty)
  qed
  with t show ?thesis by simp
qed

lemma target_char_no_quote: "list_all target_char t \<Longrightarrow> CHR 0x27 \<notin> set t"
  by (auto simp: list_all_iff target_char_def label_char_iff)

lemma ReplaceChar_absent: "c \<notin> set s \<Longrightarrow> ReplaceChar s c r = s"
  by (induction s) (auto simp: ReplaceChar_def)

lemma ShellQuote_target: "list_all target_char t \<Longrightarrow> ShellQuote t = sq t"
  by (simp add: ShellQuote_def ReplaceChar_absent target_char_no_quote)

text \<open>What follows the target in a script.\<close>

definition script_rest :: "string \<Rightarrow> string" where
  "script_rest body =
     [CHR 0x0A] @ body @ [CHR 0x0A] @
     ''printf '' @ sq ([CHR 0x5C] @ ''n'' @ exitMarker @ ''%s'' @ [CHR 0x5C] @ ''n'') @ '' '' @ dq ''$status'' @
     [CHR 0x0A] @ ''exit 0''"

lemma BuildCommand_shape:
  assumes "ValidateTarget (snr_Target r) = Inr t"
  shows "BuildCommand r =
    bind_res (diagnostic_body r) (\<lambda>body. Inr (''target='' @ [CHR 0x27] @ t @ [CHR 0x27] @ script_rest body))"
proof -
  have "list_all target_char t" using ValidateTarget_chars [OF assms] by blast
  then show ?thesis by (simp add: BuildCommand_def script_rest_def assms ShellQuote_target)
qed

text \<open>
  C10: The script of a diagnosis assigns the trimmed target between single quotes; the target has
  only letters, digits, dots, colons and hyphens, at most 253 of them, does not start with a
  hyphen, and is all of the script that depends on it: nothing a user types as a target becomes a
  command or an option.
\<close>

theorem BuildCommand_target_inert:
  assumes "BuildCommand r = Inr cmd"
  shows "let t = TrimSpace (snr_Target r) in
     t \<noteq> [] \<and> length t \<le> 253 \<and> list_all target_char t \<and> hd t \<noteq> CHR ''-'' \<and>
     (\<exists>rest. cmd = ''target='' @ [CHR 0x27] @ t @ [CHR 0x27] @ rest \<and>
        (\<forall>other u. ValidateTarget other = Inr u \<longrightarrow>
           BuildCommand (r\<lparr>snr_Target := other\<rparr>) = Inr (''target='' @ [CHR 0x27] @ u @ [CHR 0x27] @ rest)))"
proof -
  obtain t where t: "ValidateTarget (snr_Target r) = Inr t"
    using assms by (auto simp: BuildCommand_def result_simps)
  have "diagnostic_body (r\<lparr>snr_Target := other\<rparr>) = diagnostic_body r" for other
    by (cases "snr_Type r") (simp_all add: diagnostic_body_def)
  moreover obtain body where body: "diagnostic_body r = Inr body"
      "cmd = ''target='' @ [CHR 0x27] @ t @ [CHR 0x27] @ script_rest body"
    using assms BuildCommand_shape [OF t] by (auto simp: result_simps)
  ultimately have "BuildCommand (r\<lparr>snr_Target := other\<rparr>) =
      Inr (''target='' @ [CHR 0x27] @ u @ [CHR 0x27] @ script_rest body)"
    if "ValidateTarget other = Inr u" for other u
    using BuildCommand_shape [of "r\<lparr>snr_Target := other\<rparr>" u] that by simp
  moreover have "t = TrimSpace (snr_Target r)" using ValidateTarget_chars [OF t] by blast
  ultimately show ?thesis
    using ValidateTarget_chars [OF t] body(2) unfolding Let_def by blast
qed

definition sample_diagnosis :: StartNetworkDiagnosticRequest where
  "sample_diagnosis =
     \<lparr>snr_ServerID = 3, snr_Type = NetworkDiagnosticPing, snr_Target = '' db-1.example.org '',
      snr_Port = 0, snr_Count = 0, snr_TimeoutSeconds = 0\<rparr>"

lemma sample_diagnosis_ok: "ValidateTarget (snr_Target sample_diagnosis) = Inr ''db-1.example.org''"
  by code_simp

lemma BuildCommand_target_inert_witness:
  "list_all target_char (TrimSpace (snr_Target sample_diagnosis)) \<and>
   is_ok (BuildCommand sample_diagnosis)"
proof -
  obtain cmd where c: "BuildCommand sample_diagnosis = Inr cmd"
    using BuildCommand_shape [OF sample_diagnosis_ok]
    by (simp add: diagnostic_body_def sample_diagnosis_def)
  show ?thesis using BuildCommand_target_inert [OF c] c by (simp add: Let_def)
qed

section \<open>Limits and the exit code\<close>

lemma clamp_bounds: "0 < usual \<Longrightarrow> usual \<le> most \<Longrightarrow> 1 \<le> clamp usual most n \<and> clamp usual most n \<le> most"
  by (auto simp: clamp_def Let_def)

text \<open>A request that names a count or a time in its range gets it.\<close>

lemma clamp_id: "1 \<le> n \<Longrightarrow> n \<le> most \<Longrightarrow> clamp usual most n = n"
  by (simp add: clamp_def)

theorem CommandTimeout_bounds: "6 \<le> CommandTimeout r \<and> CommandTimeout r \<le> 600"
proof -
  let ?t = "clamp 3 30 (snr_TimeoutSeconds r)" and ?c = "clamp 4 10 (snr_Count r)"
  have t: "1 \<le> ?t" "?t \<le> 30" and c: "1 \<le> ?c" "?c \<le> 10"
    using clamp_bounds [of 3 30] clamp_bounds [of 4 10] by auto
  have "1 * 1 \<le> ?t * ?c" "?t * ?c \<le> 30 * 10"
    using t c by (intro mult_mono; simp)+
  then show ?thesis
    using t by (auto simp: CommandTimeout_def Let_def split: NetworkDiagnosticType.split)
qed

text \<open>
  The line the script prints for an exit code is read back as this code; a line of other output,
  which does not start with the marker after its blanks, is none.
\<close>

lemma TrimRight_CR: "CHR 0x0D \<notin> set s \<Longrightarrow> TrimRightChars s [CHR 0x0D] = s"
  by (cases s rule: rev_cases) (auto simp: TrimRightChars_def)

lemma visible_exitMarker: "list_all visible exitMarker"
  by (simp add: exitMarker_def visible_def)

lemma marker_word: "is_word (exitMarker @ Itoa code)"
  using visible_exitMarker Itoa_word [of code] by (simp add: is_word_def)

lemma TrimRight_marker: "TrimRightChars (exitMarker @ Itoa code) [CHR 0x0D] = exitMarker @ Itoa code"
proof -
  have "\<not> visible (CHR 0x0D)" by (simp add: visible_def)
  then have "CHR 0x0D \<notin> set (exitMarker @ Itoa code)"
    using marker_word [of code] unfolding is_word_def list_all_iff by blast
  then show ?thesis by (rule TrimRight_CR)
qed

lemma ParseExitMarkerLine_marker:
  assumes "- (2 ^ 63) \<le> code" "code < 2 ^ 63"
  shows "ParseExitMarkerLine (exitMarker @ Itoa code) = (code, True)"
  using assms TrimSpace_word [OF marker_word [of code]] TrimSpace_word [OF Itoa_word [of code]]
  by (simp add: ParseExitMarkerLine_def Let_def TrimRight_marker TrimPrefix_def ParseInt_Itoa)

lemma ParseExitMarkerLine_other:
  "\<not> HasPrefix (TrimSpace (TrimRightChars line [CHR 0x0D])) exitMarker \<Longrightarrow> ParseExitMarkerLine line = (0, False)"
  by (simp add: ParseExitMarkerLine_def)

end
