(* ===== verification/DiagnosticTask.thy ===== *)
theory DiagnosticTask
  imports NetworkDiag GoTime Prelude
begin

text \<open>
  Package \<open>internal/monitor\<close>, the network diagnoses of \<open>manager.go\<close>: a task per diagnosis, the
  goroutine that runs its script and forwards the output, the calls of the window that start,
  cancel and list tasks, and the pruning of ended ones. A task object is named by its pointer, an
  index into the list of all objects made; events carry the pointer in place of the ids.
\<close>

section \<open>Tasks\<close>

datatype NetworkDiagnosticStatus =
  NetworkDiagnosticRunning | NetworkDiagnosticCompleted | NetworkDiagnosticFailed
  | NetworkDiagnosticCanceled

record NetworkDiagnosticTask =
  ndt_TaskID :: string
  ndt_ServerID :: int
  ndt_Type :: NetworkDiagnosticType
  ndt_Target :: string
  ndt_Port :: int
  ndt_Status :: NetworkDiagnosticStatus
  ndt_StartedAt :: string
  ndt_EndedAt :: string
  ndt_Error :: string

text \<open>The variables of the loop in \<open>runNetworkDiagnostic\<close>.\<close>

record diag_loop =
  dl_exitCode :: int
  dl_emitted :: nat
  dl_truncated :: bool
  dl_linesOpen :: bool
  dl_waiting :: bool

definition fresh_loop :: diag_loop where
  "fresh_loop =
     \<lparr>dl_exitCode = 0, dl_emitted = 0, dl_truncated = False, dl_linesOpen = True, dl_waiting = True\<rparr>"

text \<open>
  Where the goroutine is: before the command starts, in the loop, about to emit an error (message
  and code) and to end the task, at its deferred function, gone.
\<close>

datatype diag_pc =
  DStart | DLoop diag_loop | DFinish "(string \<times> string) option" NetworkDiagnosticStatus string
  | DReturn | DGone

text \<open>\<open>diagnosticTask\<close>; its contexts are two flags: \<open>cancel\<close> was called, the deadline passed.\<close>

record diagnosticTask =
  dt_task :: NetworkDiagnosticTask
  dt_canceled :: bool
  dt_expired :: bool
  dt_session :: bool
  dt_pc :: diag_pc

record diag_world =
  dw_objects :: "diagnosticTask list"
  dw_diagnostics :: "(string, nat) gomap"
  dw_states :: "(nat \<times> NetworkDiagnosticTask) list"
  dw_outputs :: "(nat \<times> string \<times> string) list"
  dw_errors :: "(nat \<times> string \<times> string) list"

definition no_diagnostics :: diag_world where
  "no_diagnostics =
     \<lparr>dw_objects = [], dw_diagnostics = [], dw_states = [], dw_outputs = [], dw_errors = []\<rparr>"

definition change_object :: "nat \<Rightarrow> (diagnosticTask \<Rightarrow> diagnosticTask) \<Rightarrow> diag_world \<Rightarrow> diag_world" where
  "change_object n f w =
     (if n < length (dw_objects w) then w\<lparr>dw_objects := (dw_objects w)[n := f (dw_objects w ! n)]\<rparr> else w)"

definition set_pc :: "nat \<Rightarrow> diag_pc \<Rightarrow> diag_world \<Rightarrow> diag_world" where
  "set_pc n pc = change_object n (dt_pc_update (\<lambda>_. pc))"

definition obj_task :: "diag_world \<Rightarrow> nat \<Rightarrow> NetworkDiagnosticTask" where
  "obj_task w n = dt_task (dw_objects w ! n)"

definition task_running :: "diag_world \<Rightarrow> nat \<Rightarrow> bool" where
  "task_running w n \<longleftrightarrow> ndt_Status (obj_task w n) = NetworkDiagnosticRunning"

definition emitDiagnosticStateEvent :: "nat \<Rightarrow> NetworkDiagnosticTask \<Rightarrow> diag_world \<Rightarrow> diag_world" where
  "emitDiagnosticStateEvent n task w = w\<lparr>dw_states := dw_states w @ [(n, task)]\<rparr>"

definition emitDiagnosticOutputEvent :: "nat \<Rightarrow> string \<Rightarrow> string \<Rightarrow> diag_world \<Rightarrow> diag_world" where
  "emitDiagnosticOutputEvent n line stream w = w\<lparr>dw_outputs := dw_outputs w @ [(n, line, stream)]\<rparr>"

definition emitDiagnosticErrorEvent :: "nat \<Rightarrow> string \<Rightarrow> string \<Rightarrow> diag_world \<Rightarrow> diag_world" where
  "emitDiagnosticErrorEvent n message code w = w\<lparr>dw_errors := dw_errors w @ [(n, message, code)]\<rparr>"

section \<open>The calls of the window\<close>

text \<open>
  \<open>sort.Slice\<close> by the text of the start, the latest text first; it may order equal texts in any
  way, the model keeps the order of the map.
\<close>

definition latest_first :: "('a \<Rightarrow> string) \<Rightarrow> 'a list \<Rightarrow> 'a list" where
  "latest_first f xs = rev (sort_key f (rev xs))"

definition ended_of :: "int \<Rightarrow> diag_world \<Rightarrow> (string \<times> nat) list" where
  "ended_of serverID w =
     filter (\<lambda>(_, n). ndt_ServerID (obj_task w n) = serverID \<and> \<not> task_running w n) (dw_diagnostics w)"

definition pruneDiagnosticsLocked :: "int \<Rightarrow> nat \<Rightarrow> diag_world \<Rightarrow> diag_world" where
  "pruneDiagnosticsLocked serverID keep w =
     (if keep = 0 then w
      else let tasks = latest_first (\<lambda>(_, n). ndt_StartedAt (obj_task w n)) (ended_of serverID w)
           in w\<lparr>dw_diagnostics :=
                 foldl (\<lambda>m (_, n). AList.delete (ndt_TaskID (obj_task w n)) m) (dw_diagnostics w) (drop keep tasks)\<rparr>)"

definition new_diagnostic :: "StartNetworkDiagnosticRequest \<Rightarrow> string \<Rightarrow> int \<Rightarrow> NetworkDiagnosticTask" where
  "new_diagnostic request taskID now =
     \<lparr>ndt_TaskID = taskID, ndt_ServerID = snr_ServerID request, ndt_Type = snr_Type request,
      ndt_Target = snr_Target request, ndt_Port = snr_Port request,
      ndt_Status = NetworkDiagnosticRunning, ndt_StartedAt = RFC3339Nano now, ndt_EndedAt = [],
      ndt_Error = []\<rparr>"

text \<open>
  The transport of the server's monitor is there or not. The id is made of the server, the time
  and a random number; the request has passed the checks when a task is made.
\<close>

definition StartNetworkDiagnostic ::
  "bool \<Rightarrow> string \<Rightarrow> int \<Rightarrow> StartNetworkDiagnosticRequest \<Rightarrow> diag_world \<Rightarrow> (string + NetworkDiagnosticTask) \<times> diag_world" where
  "StartNetworkDiagnostic connected taskID now request w =
     (if snr_ServerID request \<le> 0 then (Inl ''serverID is required'', w)
      else case BuildCommand request of
          Inl err \<Rightarrow> (Inl err, w)
        | Inr _ \<Rightarrow>
            if \<not> connected then (Inl (zh [35831, 20808, 36830, 25509, 26381, 21153, 22120, 24182, 21551, 21160, 30417, 25511]), w)
            else let task = new_diagnostic request taskID now; n = length (dw_objects w);
                     current = \<lparr>dt_task = task, dt_canceled = False, dt_expired = False, dt_session = False, dt_pc = DStart\<rparr>;
                     w = w\<lparr>dw_objects := dw_objects w @ [current],
                           dw_diagnostics := AList.update taskID n (dw_diagnostics w)\<rparr>;
                     w = pruneDiagnosticsLocked (snr_ServerID request) 20 w
                 in (Inr task, emitDiagnosticStateEvent n task w))"

definition finishDiagnostic ::
  "nat \<Rightarrow> NetworkDiagnosticStatus \<Rightarrow> string \<Rightarrow> int \<Rightarrow> diag_world \<Rightarrow> diag_world" where
  "finishDiagnostic n status message now w =
     (if map_of (dw_diagnostics w) (ndt_TaskID (obj_task w n)) \<noteq> Some n \<or> \<not> task_running w n then w
      else let task = (obj_task w n)\<lparr>ndt_Status := status, ndt_EndedAt := RFC3339Nano now, ndt_Error := message\<rparr>
           in emitDiagnosticStateEvent n task (change_object n (dt_task_update (\<lambda>_. task)) w))"

text \<open>Which task a request cancels: none when it ended, an error when there is none of this server.\<close>

definition CancelNetworkDiagnostic :: "int \<Rightarrow> string \<Rightarrow> diag_world \<Rightarrow> string + nat option" where
  "CancelNetworkDiagnostic serverID taskID w =
     (case map_of (dw_diagnostics w) taskID of
        None \<Rightarrow> Inl (''network diagnostic task '' @ taskID @ '' not found'')
      | Some n \<Rightarrow>
          if ndt_ServerID (obj_task w n) \<noteq> serverID
          then Inl (''network diagnostic task '' @ taskID @ '' not found'')
          else Inr (if task_running w n then Some n else None))"

definition ListNetworkDiagnosticTasks :: "int \<Rightarrow> diag_world \<Rightarrow> NetworkDiagnosticTask list" where
  "ListNetworkDiagnosticTasks serverID w =
     latest_first ndt_StartedAt
       (filter (\<lambda>task. serverID = 0 \<or> ndt_ServerID task = serverID) (map (obj_task w \<circ> snd) (dw_diagnostics w)))"

definition StopDiagnostics :: "int \<Rightarrow> diag_world \<Rightarrow> nat list" where
  "StopDiagnostics connectionID w =
     filter (\<lambda>n. ndt_ServerID (obj_task w n) = connectionID \<and> task_running w n) (map snd (dw_diagnostics w))"

text \<open>\<open>cancelDiagnosticTask\<close>: cancel and close now; when the goroutine is not gone in time, end the task.\<close>

definition cancelAndCloseSession :: "diagnosticTask \<Rightarrow> diagnosticTask" where
  "cancelAndCloseSession t = t\<lparr>dt_canceled := True, dt_session := False\<rparr>"

definition closeSession_task :: "diagnosticTask \<Rightarrow> diagnosticTask" where
  "closeSession_task t = t\<lparr>dt_session := False\<rparr>"

section \<open>The goroutine of a task\<close>

definition truncated_notice :: string where
  "truncated_notice = (zh [36755, 20986, 36229, 36807, 32, 49, 48, 48, 48, 32, 34892, 65292, 21518, 32493, 20869, 23481, 24050, 25130, 26029, 12290])"

text \<open>A line arrived: what becomes of the loop, and what is emitted.\<close>

definition diag_line :: "diag_loop \<Rightarrow> string \<Rightarrow> string \<Rightarrow> diag_loop \<times> (string \<times> string) list" where
  "diag_line l line stream =
     (let line = TrimRightChars line [CHR 0x0D]
      in case ParseExitMarkerLine line of
           (parsed, True) \<Rightarrow> (l\<lparr>dl_exitCode := parsed\<rparr>, [])
         | (_, False) \<Rightarrow>
             if TrimSpace line = [] then (l, [])
             else if dl_emitted l \<ge> 1000 then
               (if \<not> dl_truncated l then (l\<lparr>dl_truncated := True\<rparr>, [(truncated_notice, ''stdout'')]) else (l, []))
             else (l\<lparr>dl_emitted := dl_emitted l + 1\<rparr>, [(line, stream)]))"

definition emit_lines :: "nat \<Rightarrow> (string \<times> string) list \<Rightarrow> diag_world \<Rightarrow> diag_world" where
  "emit_lines n out w = foldl (\<lambda>w (line, stream). emitDiagnosticOutputEvent n line stream w) w out"

datatype diag_event =
  EvStreamFailed | EvStreamStarted | EvCommandDone | EvLine string string | EvLinesClosed | EvWait bool
  | EvLoopEnd | EvFinish int | EvReturn

definition timeout_finish :: diag_pc where
  "timeout_finish =
     DFinish (Some ((zh [32593, 32476, 35786, 26029, 36229, 26102]), ''NETWORK_DIAGNOSTIC_TIMEOUT'')) NetworkDiagnosticFailed (zh [32593, 32476, 35786, 26029, 36229, 26102])"

definition exit_message :: "int \<Rightarrow> string" where
  "exit_message exitCode = (zh [32593, 32476, 35786, 26029, 21629, 20196, 36864, 20986, 30721, 32]) @ Itoa exitCode"

text \<open>
  One step of \<open>runNetworkDiagnostic\<close> of a task. An event that cannot happen where the goroutine is
  leaves the world as it is. \<open>ctx.Err() != nil\<close> is the flag of the cancellation, that of
  \<open>commandCtx\<close> either flag.
\<close>

definition diag_go :: "nat \<Rightarrow> diag_event \<Rightarrow> diag_world \<Rightarrow> diag_world" where
  "diag_go n ev w =
     (if n \<ge> length (dw_objects w) then w
      else let t = dw_objects w ! n; ctxErr = dt_canceled t; commandErr = dt_canceled t \<or> dt_expired t
      in case (dt_pc t, ev) of
        (DStart, EvStreamFailed) \<Rightarrow>
          set_pc n (if ctxErr then DFinish None NetworkDiagnosticCanceled []
                    else DFinish (Some ((zh [32593, 32476, 35786, 26029, 21551, 21160, 22833, 36133]), ''NETWORK_DIAGNOSTIC_START_FAILED''))
                           NetworkDiagnosticFailed (zh [32593, 32476, 35786, 26029, 21551, 21160, 22833, 36133])) w
      | (DStart, EvStreamStarted) \<Rightarrow>
          set_pc n (DLoop fresh_loop) (change_object n (dt_session_update (\<lambda>_. True)) w)
      | (DLoop l, EvCommandDone) \<Rightarrow>
          if \<not> commandErr \<or> \<not> (dl_linesOpen l \<or> dl_waiting l) then w
          else set_pc n (if ctxErr then DFinish None NetworkDiagnosticCanceled [] else timeout_finish)
                 (change_object n closeSession_task w)
      | (DLoop l, EvLine line stream) \<Rightarrow>
          if \<not> dl_linesOpen l \<or> commandErr then w
          else (case diag_line l line stream of (l, out) \<Rightarrow> set_pc n (DLoop l) (emit_lines n out w))
      | (DLoop l, EvLinesClosed) \<Rightarrow> set_pc n (DLoop (l\<lparr>dl_linesOpen := False\<rparr>)) w
      | (DLoop l, EvWait failed) \<Rightarrow>
          if \<not> dl_waiting l then w
          else if commandErr \<or> \<not> failed then set_pc n (DLoop (l\<lparr>dl_waiting := False\<rparr>)) w
          else set_pc n (DFinish (Some ((zh [32593, 32476, 35786, 26029, 25191, 34892, 22833, 36133]), ''NETWORK_DIAGNOSTIC_FAILED''))
                           NetworkDiagnosticFailed (zh [32593, 32476, 35786, 26029, 25191, 34892, 22833, 36133])) w
      | (DLoop l, EvLoopEnd) \<Rightarrow>
          if dl_linesOpen l \<or> dl_waiting l then w
          else if ctxErr then set_pc n (DFinish None NetworkDiagnosticCanceled []) w
          else if commandErr then set_pc n timeout_finish w
          else if dl_exitCode l \<noteq> 0
            then set_pc n (DFinish (Some (exit_message (dl_exitCode l), ''NETWORK_DIAGNOSTIC_EXIT''))
                             NetworkDiagnosticFailed (exit_message (dl_exitCode l))) w
          else set_pc n (DFinish None NetworkDiagnosticCompleted []) w
      | (DFinish err status message, EvFinish now) \<Rightarrow>
          set_pc n DReturn
            (finishDiagnostic n status message now
              (case err of None \<Rightarrow> w | Some (m, code) \<Rightarrow> emitDiagnosticErrorEvent n m code w))
      | (DReturn, EvReturn) \<Rightarrow> set_pc n DGone (change_object n closeSession_task w)
      | _ \<Rightarrow> w)"

section \<open>Runs\<close>

datatype diag_label =
  DiagStart bool string int StartNetworkDiagnosticRequest
  | DiagCancel nat
  | DiagCancelTimeout nat int
  | DiagExpire nat
  | DiagGo nat diag_event

text \<open>
  A cancellation reaches a task through \<^const>\<open>CancelNetworkDiagnostic\<close> or \<^const>\<open>StopDiagnostics\<close>;
  the task may have ended since they looked. Its timer fires only after it.
\<close>

definition diag_step :: "diag_world \<Rightarrow> diag_label \<Rightarrow> diag_world" where
  "diag_step w lab =
     (case lab of
        DiagStart connected taskID now request \<Rightarrow> snd (StartNetworkDiagnostic connected taskID now request w)
      | DiagCancel n \<Rightarrow> change_object n cancelAndCloseSession w
      | DiagCancelTimeout n now \<Rightarrow>
          if n < length (dw_objects w) \<and> dt_canceled (dw_objects w ! n)
          then finishDiagnostic n NetworkDiagnosticCanceled [] now w else w
      | DiagExpire n \<Rightarrow> change_object n (dt_expired_update (\<lambda>_. True)) w
      | DiagGo n ev \<Rightarrow> diag_go n ev w)"

definition diag_run :: "diag_label list \<Rightarrow> diag_world" where
  "diag_run xs = foldl diag_step no_diagnostics xs"

section \<open>What every run keeps\<close>

definition events_of :: "nat \<Rightarrow> (nat \<times> 'a) list \<Rightarrow> 'a list" where
  "events_of n xs = map snd (filter (\<lambda>e. fst e = n) xs)"

lemma events_of_simps [simp]:
  "events_of n [] = []"
  "events_of n (xs @ ys) = events_of n xs @ events_of n ys"
  "events_of n ((k, x) # xs) = (if k = n then x # events_of n xs else events_of n xs)"
  by (simp_all add: events_of_def)

text \<open>How many lines a task emitted, by where its goroutine is.\<close>

fun pc_outputs :: "diag_pc \<Rightarrow> nat \<Rightarrow> bool" where
  "pc_outputs DStart k \<longleftrightarrow> k = 0"
| "pc_outputs (DLoop l) k \<longleftrightarrow>
     dl_emitted l \<le> 1000 \<and> k = dl_emitted l + (if dl_truncated l then 1 else 0) \<and>
     (dl_truncated l \<longrightarrow> dl_emitted l = 1000)"
| "pc_outputs _ k \<longleftrightarrow> k \<le> 1001"

lemma pc_outputs_le: "pc_outputs pc k \<Longrightarrow> k \<le> 1001"
  by (cases pc) (auto split: if_splits)

text \<open>The state events of a task: its start while it runs, then one more, its end.\<close>

definition task_states_ok :: "NetworkDiagnosticTask \<Rightarrow> NetworkDiagnosticTask list \<Rightarrow> bool" where
  "task_states_ok task sent \<longleftrightarrow>
     (if ndt_Status task = NetworkDiagnosticRunning then sent = [task]
      else length sent = 2 \<and> ndt_Status (sent ! 0) = NetworkDiagnosticRunning \<and> sent ! 1 = task)"

definition object_ok :: "diag_world \<Rightarrow> nat \<Rightarrow> bool" where
  "object_ok w n \<longleftrightarrow>
     task_states_ok (obj_task w n) (events_of n (dw_states w)) \<and>
     pc_outputs (dt_pc (dw_objects w ! n)) (length (events_of n (dw_outputs w))) \<and>
     (dt_pc (dw_objects w ! n) = DGone \<longrightarrow> \<not> dt_session (dw_objects w ! n)) \<and>
     (case dt_pc (dw_objects w ! n) of DFinish _ status _ \<Rightarrow> status \<noteq> NetworkDiagnosticRunning | _ \<Rightarrow> True)"

text \<open>A running task is found under its id, and a goroutine that is at its end has ended its task.\<close>

definition object_owned :: "diag_world \<Rightarrow> nat \<Rightarrow> bool" where
  "object_owned w n \<longleftrightarrow>
     (task_running w n \<longrightarrow> map_of (dw_diagnostics w) (ndt_TaskID (obj_task w n)) = Some n) \<and>
     (dt_pc (dw_objects w ! n) \<in> {DReturn, DGone} \<longrightarrow> \<not> task_running w n)"

definition distinct_ids :: "diag_world \<Rightarrow> bool" where
  "distinct_ids w \<longleftrightarrow> distinct (map (ndt_TaskID \<circ> dt_task) (dw_objects w))"

text \<open>The map of the manager: its keys are distinct and are the ids of the tasks.\<close>

definition map_ok :: "diag_world \<Rightarrow> bool" where
  "map_ok w \<longleftrightarrow> gomap_ok (dw_diagnostics w) \<and>
     (\<forall>(taskID, n) \<in> set (dw_diagnostics w). n < length (dw_objects w) \<and> ndt_TaskID (obj_task w n) = taskID)"

definition diag_inv :: "diag_world \<Rightarrow> bool" where
  "diag_inv w \<longleftrightarrow>
     map_ok w \<and>
     (\<forall>n < length (dw_objects w). object_ok w n \<and> (distinct_ids w \<longrightarrow> object_owned w n)) \<and>
     (\<forall>n \<ge> length (dw_objects w). events_of n (dw_states w) = [] \<and> events_of n (dw_outputs w) = [])"

text \<open>A step of one task: the other tasks, their events and the map stay.\<close>

definition local_change :: "nat \<Rightarrow> diag_world \<Rightarrow> diag_world \<Rightarrow> bool" where
  "local_change n w w' \<longleftrightarrow>
     n < length (dw_objects w) \<and> length (dw_objects w') = length (dw_objects w) \<and>
     dw_diagnostics w' = dw_diagnostics w \<and>
     ndt_TaskID (obj_task w' n) = ndt_TaskID (obj_task w n) \<and>
     ndt_ServerID (obj_task w' n) = ndt_ServerID (obj_task w n) \<and>
     (\<forall>k. k \<noteq> n \<longrightarrow> dw_objects w' ! k = dw_objects w ! k \<and>
        events_of k (dw_states w') = events_of k (dw_states w) \<and>
        events_of k (dw_outputs w') = events_of k (dw_outputs w))"

lemma local_change_refl: "n < length (dw_objects w) \<Longrightarrow> local_change n w w"
  by (simp add: local_change_def)

lemma local_change_trans: "local_change n w u \<Longrightarrow> local_change n u v \<Longrightarrow> local_change n w v"
  by (auto simp: local_change_def)

lemma change_object_simps [simp]:
  "length (dw_objects (change_object n f w)) = length (dw_objects w)"
  "dw_diagnostics (change_object n f w) = dw_diagnostics w"
  "dw_states (change_object n f w) = dw_states w"
  "dw_outputs (change_object n f w) = dw_outputs w"
  "dw_errors (change_object n f w) = dw_errors w"
  "n < length (dw_objects w) \<Longrightarrow> dw_objects (change_object n f w) ! n = f (dw_objects w ! n)"
  "k \<noteq> n \<Longrightarrow> dw_objects (change_object n f w) ! k = dw_objects w ! k"
  by (simp_all add: change_object_def)

lemma set_pc_simps [simp]:
  "length (dw_objects (set_pc n pc w)) = length (dw_objects w)"
  "dw_diagnostics (set_pc n pc w) = dw_diagnostics w"
  "dw_states (set_pc n pc w) = dw_states w"
  "dw_outputs (set_pc n pc w) = dw_outputs w"
  "dw_errors (set_pc n pc w) = dw_errors w"
  "n < length (dw_objects w) \<Longrightarrow> dw_objects (set_pc n pc w) ! n = (dw_objects w ! n)\<lparr>dt_pc := pc\<rparr>"
  "k \<noteq> n \<Longrightarrow> dw_objects (set_pc n pc w) ! k = dw_objects w ! k"
  by (simp_all add: set_pc_def)

lemma emit_simps [simp]:
  "dw_objects (emitDiagnosticStateEvent n t w) = dw_objects w"
  "dw_diagnostics (emitDiagnosticStateEvent n t w) = dw_diagnostics w"
  "dw_outputs (emitDiagnosticStateEvent n t w) = dw_outputs w"
  "dw_states (emitDiagnosticStateEvent n t w) = dw_states w @ [(n, t)]"
  "dw_objects (emitDiagnosticErrorEvent n m c w) = dw_objects w"
  "dw_diagnostics (emitDiagnosticErrorEvent n m c w) = dw_diagnostics w"
  "dw_outputs (emitDiagnosticErrorEvent n m c w) = dw_outputs w"
  "dw_states (emitDiagnosticErrorEvent n m c w) = dw_states w"
  by (simp_all add: emitDiagnosticStateEvent_def emitDiagnosticErrorEvent_def)

lemma emit_lines_simps [simp]:
  "dw_objects (emit_lines n out w) = dw_objects w"
  "dw_diagnostics (emit_lines n out w) = dw_diagnostics w"
  "dw_states (emit_lines n out w) = dw_states w"
  "dw_errors (emit_lines n out w) = dw_errors w"
  "dw_outputs (emit_lines n out w) = dw_outputs w @ map (\<lambda>p. (n, p)) out"
  unfolding emit_lines_def
  by (induction out arbitrary: w) (auto simp: emitDiagnosticOutputEvent_def)

lemma events_of_map_pair [simp]: "events_of k (map (\<lambda>p. (n, p)) out) = (if k = n then out else [])"
  by (simp add: events_of_def comp_def)

lemma finish_local:
  assumes n: "n < length (dw_objects w)" and st: "status \<noteq> NetworkDiagnosticRunning"
  shows "local_change n w (finishDiagnostic n status message now w)"
    and "dt_pc (dw_objects (finishDiagnostic n status message now w) ! n) = dt_pc (dw_objects w ! n)"
    and "dt_session (dw_objects (finishDiagnostic n status message now w) ! n) = dt_session (dw_objects w ! n)"
    and "dw_outputs (finishDiagnostic n status message now w) = dw_outputs w"
    and "task_states_ok (obj_task w n) (events_of n (dw_states w)) \<Longrightarrow>
         task_states_ok (obj_task (finishDiagnostic n status message now w) n)
           (events_of n (dw_states (finishDiagnostic n status message now w)))"
    and "object_owned w n \<Longrightarrow> dt_pc (dw_objects w ! n) = DFinish err st m \<Longrightarrow>
         \<not> task_running (finishDiagnostic n status message now w) n"
  using n st
  by (auto simp: finishDiagnostic_def Let_def local_change_def obj_task_def task_running_def task_states_ok_def object_owned_def)

lemma finish_length [simp]: "length (dw_objects (finishDiagnostic n status message now w)) = length (dw_objects w)"
  by (simp add: finishDiagnostic_def Let_def)

lemma local_change_inv:
  assumes "diag_inv w" "local_change n w w'" "object_ok w' n"
    "distinct_ids w' \<Longrightarrow> object_owned w n \<Longrightarrow> object_owned w' n"
  shows "diag_inv w'"
proof -
  have len: "length (dw_objects w') = length (dw_objects w)" "n < length (dw_objects w)"
    and m: "dw_diagnostics w' = dw_diagnostics w"
    and task: "ndt_TaskID (obj_task w' k) = ndt_TaskID (obj_task w k)" for k
    using assms(2) by (auto simp: local_change_def obj_task_def)
  have "map (ndt_TaskID \<circ> dt_task) (dw_objects w') = map (ndt_TaskID \<circ> dt_task) (dw_objects w)"
    using task len(1) by (intro nth_equalityI) (auto simp: obj_task_def)
  then have d: "distinct_ids w' = distinct_ids w" by (simp add: distinct_ids_def)
  have "object_ok w' k \<and> (distinct_ids w' \<longrightarrow> object_owned w' k)" if k: "k < length (dw_objects w)" for k
  proof (cases "k = n")
    case True
    then show ?thesis using assms d len by (auto simp: diag_inv_def)
  next
    case False
    then have same: "dw_objects w' ! k = dw_objects w ! k" "events_of k (dw_states w') = events_of k (dw_states w)"
      "events_of k (dw_outputs w') = events_of k (dw_outputs w)"
      using assms(2) by (auto simp: local_change_def)
    then show ?thesis
      using assms(1) k d m by (simp add: diag_inv_def object_ok_def object_owned_def obj_task_def task_running_def)
  qed
  moreover have "events_of k (dw_states w') = [] \<and> events_of k (dw_outputs w') = []" if "k \<ge> length (dw_objects w)" for k
    using assms(1,2) that by (auto simp: diag_inv_def local_change_def)
  ultimately show ?thesis
    using assms(1) len m task by (auto simp: diag_inv_def map_ok_def)
qed

lemma diag_line_outputs:
  "diag_line l line stream = (l', out) \<Longrightarrow> pc_outputs (DLoop l) k \<Longrightarrow> pc_outputs (DLoop l') (k + length out)"
  by (auto simp: diag_line_def Let_def split: prod.splits bool.splits if_splits)

lemma diag_go_local:
  assumes w: "diag_inv w" and n: "n < length (dw_objects w)"
  shows "local_change n w (diag_go n ev w)"
proof -
  let ?pc = "dt_pc (dw_objects w ! n)"
  have ok: "object_ok w n" using w n by (simp add: diag_inv_def)
  show ?thesis
  proof (cases ?pc)
    case (DFinish err status message)
    define u where "u = (case err of None \<Rightarrow> w | Some (m, code) \<Rightarrow> emitDiagnosticErrorEvent n m code w)"
    have u: "dw_objects u = dw_objects w" "dw_diagnostics u = dw_diagnostics w" "dw_states u = dw_states w"
      "dw_outputs u = dw_outputs w"
      by (auto simp: u_def split: option.splits)
    have "status \<noteq> NetworkDiagnosticRunning" using ok DFinish by (simp add: object_ok_def)
    then have "local_change n w (finishDiagnostic n status message now u)" for now
      using finish_local(1) [of n u status message now] n u by (simp add: local_change_def obj_task_def)
    then show ?thesis
      using n DFinish by (cases ev) (auto simp: diag_go_def Let_def local_change_def obj_task_def u_def)
  qed (use n in \<open>auto simp: diag_go_def Let_def local_change_def obj_task_def closeSession_task_def
         split: diag_event.splits prod.splits\<close>)
qed

lemma diag_go_ok:
  assumes w: "diag_inv w" and n: "n < length (dw_objects w)"
  shows "object_ok (diag_go n ev w) n"
    and "object_owned w n \<Longrightarrow> object_owned (diag_go n ev w) n"
proof -
  let ?pc = "dt_pc (dw_objects w ! n)"
  have ok: "object_ok w n" using w n by (simp add: diag_inv_def)
  have "object_ok (diag_go n ev w) n \<and> (object_owned w n \<longrightarrow> object_owned (diag_go n ev w) n)"
  proof (cases ?pc)
    case DStart
    then show ?thesis using ok n
      by (cases ev) (auto simp: diag_go_def Let_def object_ok_def object_owned_def obj_task_def task_running_def fresh_loop_def)
  next
    case (DLoop l)
    note pcs = diag_line_outputs [of l _ _ _ _ "length (events_of n (dw_outputs w))"]
    show ?thesis
      using ok n DLoop pcs pc_outputs_le [of "DLoop l" "length (events_of n (dw_outputs w))"]
      by (cases ev)
        (auto simp: diag_go_def Let_def object_ok_def object_owned_def obj_task_def task_running_def closeSession_task_def
          timeout_finish_def split: prod.splits)
  next
    case (DFinish err status message)
    define u where "u = (case err of None \<Rightarrow> w | Some (m, code) \<Rightarrow> emitDiagnosticErrorEvent n m code w)"
    have u: "dw_objects u = dw_objects w" "dw_diagnostics u = dw_diagnostics w" "dw_states u = dw_states w"
      "dw_outputs u = dw_outputs w"
      by (auto simp: u_def split: option.splits)
    have st: "status \<noteq> NetworkDiagnosticRunning" using ok DFinish by (simp add: object_ok_def)
    show ?thesis
    proof (cases ev)
      case (EvFinish now)
      have "diag_go n ev w = set_pc n DReturn (finishDiagnostic n status message now u)"
        using n DFinish EvFinish by (simp add: diag_go_def Let_def u_def)
      then show ?thesis
        using ok n st u DFinish
        by (auto simp: finishDiagnostic_def Let_def object_ok_def object_owned_def obj_task_def task_running_def task_states_ok_def)
    qed (use ok n DFinish in \<open>simp_all add: diag_go_def Let_def\<close>)
  next
    case DReturn
    then show ?thesis using ok n
      by (cases ev) (auto simp: diag_go_def Let_def object_ok_def object_owned_def obj_task_def task_running_def closeSession_task_def)
  next
    case DGone
    then show ?thesis using ok n by (simp add: diag_go_def Let_def)
  qed
  then show "object_ok (diag_go n ev w) n" "object_owned w n \<Longrightarrow> object_owned (diag_go n ev w) n" by simp_all
qed

lemma change_object_local:
  assumes "n < length (dw_objects w)" "\<And>t. dt_task (f t) = dt_task t" "\<And>t. dt_pc (f t) = dt_pc t"
    "\<And>t. dt_session (f t) \<Longrightarrow> dt_session t"
  shows "local_change n w (change_object n f w)"
    and "object_ok w n \<Longrightarrow> object_ok (change_object n f w) n"
    and "object_owned w n \<Longrightarrow> object_owned (change_object n f w) n"
  using assms(1) assms(4) [of "dw_objects w ! n"]
  by (auto simp: local_change_def object_ok_def object_owned_def obj_task_def task_running_def assms(2,3))

lemma change_object_inv:
  assumes "diag_inv w" "\<And>t. dt_task (f t) = dt_task t" "\<And>t. dt_pc (f t) = dt_pc t"
    "\<And>t. dt_session (f t) \<Longrightarrow> dt_session t"
  shows "diag_inv (change_object n f w)"
proof (cases "n < length (dw_objects w)")
  case True
  note c = change_object_local [of n w f, OF True assms(2-4)]
  show ?thesis
    using assms(1) True by (intro local_change_inv [OF assms(1) c(1)] c(2,3)) (auto simp: diag_inv_def)
next
  case False
  then show ?thesis using assms(1) by (simp add: change_object_def)
qed

lemma finish_inv:
  assumes "diag_inv w" "n < length (dw_objects w)" "status \<noteq> NetworkDiagnosticRunning"
  shows "diag_inv (finishDiagnostic n status message now w)"
proof (rule local_change_inv [OF assms(1) finish_local(1) [OF assms(2,3)]])
  note f = finish_local [where w = w and n = n and status = status and message = message and now = now, OF assms(2,3)]
  have ok: "object_ok w n" using assms by (simp add: diag_inv_def)
  then show "object_ok (finishDiagnostic n status message now w) n"
    using f(2-5) by (simp add: object_ok_def)
  assume "object_owned w n"
  then show "object_owned (finishDiagnostic n status message now w) n"
    using assms by (auto simp: object_owned_def finishDiagnostic_def Let_def obj_task_def task_running_def)
qed

section \<open>Pruning\<close>

lemma foldl_delete:
  "foldl (\<lambda>m (_, n). AList.delete (f n) m) m xs = filter (\<lambda>(k, _). k \<notin> f ` snd ` set xs) m"
proof (induction xs arbitrary: m)
  case (Cons x xs)
  then show ?case
    by (cases x) (simp add: AList.delete_eq, rule filter_cong, auto)
qed simp

lemma set_latest_first [simp]: "set (latest_first f xs) = set xs"
  by (simp add: latest_first_def)

lemma length_latest_first [simp]: "length (latest_first f xs) = length xs"
  by (simp add: latest_first_def)

lemma distinct_latest_first [simp]: "distinct (latest_first f xs) = distinct xs"
  by (simp add: latest_first_def)

lemma latest_first_sorted: "sorted_wrt (\<lambda>x y. f y \<le> f x) (latest_first f xs)"
proof -
  have "sorted_wrt (\<lambda>x y. f x \<le> f y) (sort_key f (rev xs))"
    using sorted_sort_key [of f "rev xs"] by (simp add: sorted_wrt_map)
  then show ?thesis by (simp add: latest_first_def sorted_wrt_rev)
qed

lemma prune_simps [simp]:
  "dw_objects (pruneDiagnosticsLocked s keep w) = dw_objects w"
  "dw_states (pruneDiagnosticsLocked s keep w) = dw_states w"
  "dw_outputs (pruneDiagnosticsLocked s keep w) = dw_outputs w"
  "obj_task (pruneDiagnosticsLocked s keep w) n = obj_task w n"
  "task_running (pruneDiagnosticsLocked s keep w) n = task_running w n"
  by (simp_all add: pruneDiagnosticsLocked_def Let_def obj_task_def task_running_def)

lemma prune_diagnostics:
  fixes s :: int
  assumes "map_ok w" "0 < keep"
  defines "tasks \<equiv> latest_first (\<lambda>(_, n). ndt_StartedAt (obj_task w n)) (ended_of s w)"
  shows "dw_diagnostics (pruneDiagnosticsLocked s keep w) =
    filter (\<lambda>e. e \<notin> set (drop keep tasks)) (dw_diagnostics w)"
proof -
  have id: "ndt_TaskID (obj_task w n) = k" if "(k, n) \<in> set (dw_diagnostics w)" for k n
    using assms(1) that by (auto simp: map_ok_def)
  have sub: "set (drop keep tasks) \<subseteq> set (dw_diagnostics w)"
    using set_drop_subset [of keep tasks] by (auto simp: tasks_def ended_of_def)
  have "k \<in> (\<lambda>n. ndt_TaskID (obj_task w n)) ` snd ` set (drop keep tasks) \<longleftrightarrow> (k, n) \<in> set (drop keep tasks)"
    if kn: "(k, n) \<in> set (dw_diagnostics w)" for k n
  proof
    assume "k \<in> (\<lambda>n. ndt_TaskID (obj_task w n)) ` snd ` set (drop keep tasks)"
    then obtain k' n' where e: "(k', n') \<in> set (drop keep tasks)" "k = ndt_TaskID (obj_task w n')" by auto
    then have "(k, n') \<in> set (drop keep tasks)" using id sub by auto
    moreover have "n' = n"
      using calculation kn sub assms(1) eq_key_imp_eq_value [of "dw_diagnostics w" k n' n] by (auto simp: map_ok_def gomap_ok_def)
    ultimately show "(k, n) \<in> set (drop keep tasks)" by simp
  next
    assume "(k, n) \<in> set (drop keep tasks)"
    then show "k \<in> (\<lambda>n. ndt_TaskID (obj_task w n)) ` snd ` set (drop keep tasks)"
      using id [OF kn] by force
  qed
  then show ?thesis
    using assms(2)
    by (auto simp: pruneDiagnosticsLocked_def Let_def foldl_delete tasks_def [symmetric] intro!: filter_cong)
qed

lemma map_ok_prune: "map_ok w \<Longrightarrow> map_ok (pruneDiagnosticsLocked s keep w)"
proof (cases "keep = 0")
  case False
  assume "map_ok w"
  then show ?thesis
    using False prune_diagnostics [of w keep s] distinct_map_filter [of fst "dw_diagnostics w"]
    by (auto simp: map_ok_def gomap_ok_def)
qed (simp add: pruneDiagnosticsLocked_def)

lemma prune_keeps_running:
  assumes "map_ok w" "map_of (dw_diagnostics w) k = Some n" "task_running w n"
  shows "map_of (dw_diagnostics (pruneDiagnosticsLocked s keep w)) k = Some n"
proof (cases "keep = 0")
  case False
  let ?tasks = "latest_first (\<lambda>(_, n). ndt_StartedAt (obj_task w n)) (ended_of s w)"
  have "(k, n) \<notin> set (drop keep ?tasks)"
    using assms(3) set_drop_subset [of keep ?tasks] by (auto simp: ended_of_def)
  moreover have "(k, n) \<in> set (dw_diagnostics w)" using assms(2) by (rule map_of_SomeD)
  ultimately have "(k, n) \<in> set (dw_diagnostics (pruneDiagnosticsLocked s keep w))"
    using prune_diagnostics [of w keep s] assms(1) False by simp
  then show ?thesis using map_ok_prune [OF assms(1), of s keep] by (auto simp: map_ok_def gomap_ok_def)
qed (use assms in \<open>simp add: pruneDiagnosticsLocked_def\<close>)

section \<open>Steps keep the invariant\<close>

lemma start_cases:
  obtains (refused) err where "StartNetworkDiagnostic c taskID now r w = (Inl err, w)"
  | (started) "snr_ServerID r > 0" "is_ok (BuildCommand r)" "c"
      "StartNetworkDiagnostic c taskID now r w =
        (Inr (new_diagnostic r taskID now),
         emitDiagnosticStateEvent (length (dw_objects w)) (new_diagnostic r taskID now)
           (pruneDiagnosticsLocked (snr_ServerID r) 20
             (w\<lparr>dw_objects := dw_objects w @
                  [\<lparr>dt_task = new_diagnostic r taskID now, dt_canceled = False, dt_expired = False,
                    dt_session = False, dt_pc = DStart\<rparr>],
                dw_diagnostics := AList.update taskID (length (dw_objects w)) (dw_diagnostics w)\<rparr>)))"
  by (cases "BuildCommand r"; cases "snr_ServerID r \<le> 0"; cases c)
    (auto simp: StartNetworkDiagnostic_def Let_def)

lemma map_ok_add:
  assumes "map_ok w"
  shows "map_ok (w\<lparr>dw_objects := dw_objects w @ [t], dw_diagnostics := AList.update (ndt_TaskID (dt_task t)) (length (dw_objects w)) (dw_diagnostics w)\<rparr>)"
  using assms set_gomap_update_subset [of "ndt_TaskID (dt_task t)" "length (dw_objects w)" "dw_diagnostics w"]
  by (fastforce simp: map_ok_def obj_task_def nth_append)

lemma distinct_ids_add:
  "distinct_ids (w\<lparr>dw_objects := dw_objects w @ [t], dw_diagnostics := m\<rparr>) \<longleftrightarrow>
     distinct_ids w \<and> (\<forall>n < length (dw_objects w). ndt_TaskID (obj_task w n) \<noteq> ndt_TaskID (dt_task t))"
proof -
  have "x \<in> (\<lambda>x. ndt_TaskID (dt_task x)) ` set xs \<longleftrightarrow> (\<exists>n < length xs. ndt_TaskID (dt_task (xs ! n)) = x)" for x xs
    by (auto simp: in_set_conv_nth) force
  then show ?thesis by (auto simp: distinct_ids_def obj_task_def)
qed

lemma start_inv:
  assumes w: "diag_inv w"
  shows "diag_inv (snd (StartNetworkDiagnostic c taskID now r w))"
proof (cases rule: start_cases [of c taskID now r w])
  case (refused err)
  then show ?thesis using w by simp
next
  case started
  let ?n = "length (dw_objects w)" and ?task = "new_diagnostic r taskID now"
  let ?t = "\<lparr>dt_task = ?task, dt_canceled = False, dt_expired = False, dt_session = False, dt_pc = DStart\<rparr>"
  define u where "u = w\<lparr>dw_objects := dw_objects w @ [?t], dw_diagnostics := AList.update taskID ?n (dw_diagnostics w)\<rparr>"
  define p where "p = pruneDiagnosticsLocked (snr_ServerID r) 20 u"
  have id: "ndt_TaskID ?task = taskID" by (simp add: new_diagnostic_def)
  have u: "map_ok u" using map_ok_add [of w ?t] w id by (simp add: u_def diag_inv_def)
  then have m: "map_ok (emitDiagnosticStateEvent ?n ?task p)"
    using map_ok_prune [of u] by (simp add: p_def map_ok_def obj_task_def)
  have objs: "dw_objects p = dw_objects w @ [?t]" "dw_states p = dw_states w" "dw_outputs p = dw_outputs w"
    by (simp_all add: p_def u_def)
  have new: "events_of ?n (dw_states w) = []" "events_of ?n (dw_outputs w) = []"
    using w by (auto simp: diag_inv_def)
  let ?w = "emitDiagnosticStateEvent ?n ?task p"
  have "object_ok ?w k \<and> (distinct_ids ?w \<longrightarrow> object_owned ?w k)" if k: "k < length (dw_objects ?w)" for k
  proof (cases "k = ?n")
    case True
    have "map_of (dw_diagnostics u) taskID = Some ?n" "task_running u ?n"
      by (simp_all add: u_def gomap_get_update task_running_def obj_task_def new_diagnostic_def)
    then have "map_of (dw_diagnostics p) taskID = Some ?n"
      unfolding p_def by (rule prune_keeps_running [OF u])
    then show ?thesis
      using new id by (simp add: True object_ok_def object_owned_def obj_task_def objs task_states_ok_def task_running_def)
        (simp add: new_diagnostic_def)
  next
    case False
    then have k': "k < ?n" using k objs by simp
    have ok: "object_ok w k" "distinct_ids w \<Longrightarrow> object_owned w k" using w k' by (auto simp: diag_inv_def)
    have same: "dw_objects p ! k = dw_objects w ! k" using k' by (simp add: objs nth_append)
    have "map_of (dw_diagnostics p) (ndt_TaskID (obj_task w k)) = Some k"
      if d: "distinct_ids ?w" and run: "task_running w k"
    proof -
      have d': "distinct_ids w" "ndt_TaskID (obj_task w k) \<noteq> taskID"
        using d distinct_ids_add [where w = w and t = ?t and m = "dw_diagnostics w"] k' id by (auto simp: distinct_ids_def objs obj_task_def)
      then have "map_of (dw_diagnostics u) (ndt_TaskID (obj_task w k)) = Some k"
        using ok(2) run by (simp add: object_owned_def u_def gomap_get_update)
      moreover have "task_running u k" using run k' by (simp add: task_running_def obj_task_def u_def nth_append)
      ultimately show ?thesis unfolding p_def by (rule prune_keeps_running [OF u])
    qed
    moreover have "distinct_ids ?w \<Longrightarrow> distinct_ids w" by (simp add: distinct_ids_def objs)
    ultimately show ?thesis
      using ok False by (auto simp: object_ok_def object_owned_def obj_task_def task_running_def same objs(2,3))
  qed
  moreover have "events_of k (dw_states ?w) = [] \<and> events_of k (dw_outputs ?w) = []" if "k \<ge> length (dw_objects ?w)" for k
    using w that by (auto simp: diag_inv_def objs)
  ultimately have "diag_inv ?w" using m by (simp add: diag_inv_def)
  then show ?thesis using started by (simp add: p_def u_def)
qed

lemma diag_step_inv: "diag_inv w \<Longrightarrow> diag_inv (diag_step w lab)"
proof (cases lab)
  case (DiagGo n ev)
  assume w: "diag_inv w"
  show ?thesis
  proof (cases "n < length (dw_objects w)")
    case True
    show ?thesis
      using local_change_inv [OF w diag_go_local [OF w True] diag_go_ok(1) [OF w True] diag_go_ok(2) [OF w True]]
      by (simp add: DiagGo diag_step_def)
  qed (use w in \<open>simp add: DiagGo diag_step_def diag_go_def\<close>)
qed (auto simp: diag_step_def start_inv finish_inv cancelAndCloseSession_def intro!: change_object_inv)

text \<open>What no step undoes: an ended task stays as it is.\<close>

definition diag_later :: "diag_world \<Rightarrow> diag_world \<Rightarrow> bool" where
  "diag_later w w' \<longleftrightarrow>
     length (dw_objects w) \<le> length (dw_objects w') \<and>
     (\<forall>n < length (dw_objects w).
        ndt_TaskID (obj_task w' n) = ndt_TaskID (obj_task w n) \<and>
        (\<not> task_running w n \<longrightarrow> obj_task w' n = obj_task w n))"

lemma finish_later: "diag_later w (finishDiagnostic n status message now w)"
proof (cases "n < length (dw_objects w)")
  case True
  then show ?thesis
    by (auto simp: diag_later_def finishDiagnostic_def Let_def obj_task_def task_running_def nth_list_update change_object_def)
next
  case False
  then show ?thesis
    by (auto simp: diag_later_def finishDiagnostic_def Let_def obj_task_def change_object_def)
qed

lemma diag_later_same: "map dt_task (dw_objects w') = map dt_task (dw_objects w) \<Longrightarrow> diag_later w w'"
  unfolding diag_later_def obj_task_def by (metis length_map nth_map order_refl)

lemma diag_later_trans: "diag_later w u \<Longrightarrow> diag_later u v \<Longrightarrow> diag_later w v"
  unfolding diag_later_def by (metis dual_order.strict_trans1 order_trans task_running_def)

lemma map_task_change:
  "(\<And>t. dt_task (f t) = dt_task t) \<Longrightarrow> map dt_task (dw_objects (change_object n f w)) = map dt_task (dw_objects w)"
  by (simp add: change_object_def map_update list_update_same_conv)

lemma map_task_set_pc [simp]: "map dt_task (dw_objects (set_pc n pc w)) = map dt_task (dw_objects w)"
  by (simp add: set_pc_def map_task_change)

lemma diag_go_later: "diag_later w (diag_go n ev w)"
proof (cases "dt_pc (dw_objects w ! n)")
  case (DFinish e s m)
  show ?thesis
  proof (cases "n < length (dw_objects w)")
    case True
    define u where "u = (case e of None \<Rightarrow> w | Some (x, code) \<Rightarrow> emitDiagnosticErrorEvent n x code w)"
    have "map dt_task (dw_objects u) = map dt_task (dw_objects w)"
      by (simp add: u_def split: option.splits prod.splits)
    then have "diag_later w (set_pc n DReturn (finishDiagnostic n s m now u))" for now
      using diag_later_trans [OF diag_later_trans [OF diag_later_same finish_later] diag_later_same] by simp
    then show ?thesis
      using True DFinish diag_later_same [of w w] by (cases ev) (simp_all add: diag_go_def Let_def u_def)
  qed (simp add: diag_go_def diag_later_same)
qed (rule diag_later_same, simp add: diag_go_def Let_def map_task_change closeSession_task_def
       split: diag_event.splits prod.splits)+

lemma diag_step_later: "diag_later w (diag_step w lab)"
proof (cases lab)
  case (DiagStart c taskID now r)
  show ?thesis
    by (cases rule: start_cases [of c taskID now r w])
      (auto simp: DiagStart diag_step_def diag_later_def obj_task_def task_running_def nth_append)
next
  case (DiagCancelTimeout n now)
  then show ?thesis using finish_later diag_later_same [of w w] by (simp add: diag_step_def)
qed (simp add: diag_step_def diag_go_later map_task_change cancelAndCloseSession_def diag_later_same)+

interpretation diagnoses: monotone_component diag_step diag_inv diag_later
  by unfold_locales (auto simp: diag_step_inv diag_step_later diag_later_same intro: diag_later_trans)

lemma diag_inv_init: "diag_inv no_diagnostics"
  by (simp add: diag_inv_def map_ok_def no_diagnostics_def)

lemma diag_run_inv: "diag_inv (diag_run xs)"
  unfolding diag_run_def by (intro diagnoses.run_keeps diag_inv_init)

section \<open>Properties\<close>

lemma diag_run_append: "diag_run (xs @ ys) = foldl diag_step (diag_run xs) ys"
  by (simp add: diag_run_def)

lemma diag_run_later: "diag_later (diag_run xs) (diag_run (xs @ ys))"
  unfolding diag_run_append by (rule diagnoses.run_later [OF diag_run_inv])

text \<open>
  C23: However starts, cancellations, deadlines and the goroutines interleave, the window is told of
  the start of a diagnosis and of its end, once each, and an ended diagnosis never changes again.
\<close>

theorem diagnostic_ends_once:
  assumes "n < length (dw_objects (diag_run xs))" "\<not> task_running (diag_run xs) n"
  shows "obj_task (diag_run (xs @ ys)) n = obj_task (diag_run xs) n \<and>
     (\<exists>begun. ndt_Status begun = NetworkDiagnosticRunning \<and>
        events_of n (dw_states (diag_run (xs @ ys))) = [begun, obj_task (diag_run xs) n])"
proof -
  have l: "n < length (dw_objects (diag_run (xs @ ys)))" "obj_task (diag_run (xs @ ys)) n = obj_task (diag_run xs) n"
    using assms diag_run_later [of xs ys] by (auto simp: diag_later_def)
  have "object_ok (diag_run (xs @ ys)) n"
    using diag_run_inv [of "xs @ ys"] l(1) by (simp add: diag_inv_def)
  then have "task_states_ok (obj_task (diag_run xs) n) (events_of n (dw_states (diag_run (xs @ ys))))"
    by (simp add: object_ok_def l)
  then show ?thesis
    using assms(2) l(2)
    by (auto simp: task_states_ok_def task_running_def numeral_2_eq_2 length_Suc_conv)
qed

text \<open>
  The window gets at most 1000 lines of a diagnosis and one notice that the rest is cut off.
\<close>

theorem diagnostic_output_bound: "length (events_of n (dw_outputs (diag_run xs))) \<le> 1001"
proof (cases "n < length (dw_objects (diag_run xs))")
  case True
  then have "object_ok (diag_run xs) n" using diag_run_inv by (simp add: diag_inv_def)
  then show ?thesis using pc_outputs_le by (auto simp: object_ok_def)
next
  case False
  then show ?thesis using diag_run_inv [of xs] by (simp add: diag_inv_def)
qed

text \<open>
  C17: As long as no two tasks drew the same id, a goroutine that is gone left no running task and
  no open session, and a running task is found under its id, so that it can be cancelled.
\<close>

theorem diagnostic_no_leak:
  assumes "n < length (dw_objects (diag_run xs))" "distinct_ids (diag_run xs)"
  shows "(dt_pc (dw_objects (diag_run xs) ! n) = DGone \<longrightarrow>
            \<not> task_running (diag_run xs) n \<and> \<not> dt_session (dw_objects (diag_run xs) ! n)) \<and>
         (task_running (diag_run xs) n \<longrightarrow>
            CancelNetworkDiagnostic (ndt_ServerID (obj_task (diag_run xs) n)) (ndt_TaskID (obj_task (diag_run xs) n))
              (diag_run xs) = Inr (Some n) \<and>
            n \<in> set (StopDiagnostics (ndt_ServerID (obj_task (diag_run xs) n)) (diag_run xs)))"
proof -
  have ok: "object_ok (diag_run xs) n" "object_owned (diag_run xs) n"
    using assms diag_run_inv [of xs] by (auto simp: diag_inv_def)
  moreover have "n \<in> set (map snd (dw_diagnostics (diag_run xs)))" if "task_running (diag_run xs) n"
    using ok(2) that by (force simp: object_owned_def dest: map_of_SomeD)
  ultimately show ?thesis
    by (auto simp: object_ok_def object_owned_def CancelNetworkDiagnostic_def StopDiagnostics_def)
qed

lemma prune_ended:
  fixes s :: int
  assumes "map_ok w" "0 < keep"
  defines "tasks \<equiv> latest_first (\<lambda>(_, n). ndt_StartedAt (obj_task w n)) (ended_of s w)"
  shows "set (ended_of s (pruneDiagnosticsLocked s keep w)) = set (take keep tasks)"
    and "length (ended_of s (pruneDiagnosticsLocked s keep w)) \<le> keep"
proof -
  have d: "distinct (ended_of s w)"
    using assms(1) by (auto simp: map_ok_def gomap_ok_def ended_of_def distinct_map)
  then have tasks: "distinct tasks" "set tasks = set (ended_of s w)" by (simp_all add: tasks_def)
  have f: "ended_of s (pruneDiagnosticsLocked s keep w) = filter (\<lambda>e. e \<notin> set (drop keep tasks)) (ended_of s w)"
    using prune_diagnostics [OF assms(1,2), of s] by (auto simp: ended_of_def tasks_def intro!: filter_cong)
  have "set (take keep tasks) \<union> set (drop keep tasks) = set tasks"
    by (metis append_take_drop_id set_append)
  moreover have "set (take keep tasks) \<inter> set (drop keep tasks) = {}"
    using tasks(1) by (rule set_take_disj_set_drop_if_distinct) simp
  ultimately show s: "set (ended_of s (pruneDiagnosticsLocked s keep w)) = set (take keep tasks)"
    using tasks(2) by (auto simp: f)
  have "length (ended_of s (pruneDiagnosticsLocked s keep w)) = card (set (take keep tasks))"
    using d s by (metis f distinct_card distinct_filter)
  then show "length (ended_of s (pruneDiagnosticsLocked s keep w)) \<le> keep"
    using card_length [of "take keep tasks"] by simp
qed

text \<open>
  After a diagnosis was started, at most twenty ended ones of its server are listed; a task that
  left the list for it was ended, of this server, and of no later start text than the ended ones
  that stay.
\<close>

theorem start_prunes:
  assumes start: "StartNetworkDiagnostic connected taskID now request (diag_run xs) = (Inr task, w)"
    and fresh: "map_of (dw_diagnostics (diag_run xs)) taskID = None"
  shows "length (ended_of (snr_ServerID request) w) \<le> 20 \<and>
    list_all (\<lambda>(k, n). (k, n) \<in> set (dw_diagnostics w) \<or>
       ndt_ServerID (obj_task (diag_run xs) n) = snr_ServerID request \<and> \<not> task_running (diag_run xs) n \<and>
       list_all (\<lambda>(_, m). ndt_StartedAt (obj_task w n) \<le> ndt_StartedAt (obj_task w m))
         (ended_of (snr_ServerID request) w))
      (dw_diagnostics (diag_run xs))"
proof -
  let ?v = "diag_run xs" and ?s = "snr_ServerID request" and ?t = "new_diagnostic request taskID now"
  define u where "u = ?v\<lparr>dw_objects := dw_objects ?v @
      [\<lparr>dt_task = ?t, dt_canceled = False, dt_expired = False, dt_session = False, dt_pc = DStart\<rparr>],
      dw_diagnostics := AList.update taskID (length (dw_objects ?v)) (dw_diagnostics ?v)\<rparr>"
  define p where "p = pruneDiagnosticsLocked ?s 20 u"
  have w: "w = emitDiagnosticStateEvent (length (dw_objects ?v)) ?t p"
    using start by (cases rule: start_cases [of connected taskID now request ?v]) (auto simp: p_def u_def)
  have same: "dw_diagnostics w = dw_diagnostics p" "ended_of ?s w = ended_of ?s p" "obj_task w = obj_task u"
    by (auto simp: w p_def ended_of_def obj_task_def task_running_def)
  have v: "map_ok ?v" using diag_run_inv by (simp add: diag_inv_def)
  have u: "map_ok u"
    using map_ok_add [OF v, of "\<lparr>dt_task = ?t, dt_canceled = False, dt_expired = False, dt_session = False, dt_pc = DStart\<rparr>"]
    by (simp add: u_def new_diagnostic_def)
  let ?tasks = "latest_first (\<lambda>(_, n). ndt_StartedAt (obj_task u n)) (ended_of ?s u)"
  have sorted: "sorted_wrt (\<lambda>x y. ndt_StartedAt (obj_task u (snd y)) \<le> ndt_StartedAt (obj_task u (snd x))) ?tasks"
    using latest_first_sorted [of "\<lambda>(_, n). ndt_StartedAt (obj_task u n)" "ended_of ?s u"]
    by (simp add: case_prod_beta)
  have gone: "ndt_ServerID (obj_task ?v n) = ?s \<and> \<not> task_running ?v n \<and>
      list_all (\<lambda>(_, m). ndt_StartedAt (obj_task u n) \<le> ndt_StartedAt (obj_task u m)) (ended_of ?s p)"
    if kn: "(k, n) \<in> set (dw_diagnostics ?v)" "(k, n) \<notin> set (dw_diagnostics p)" for k n
  proof -
    have n: "n < length (dw_objects ?v)" using kn(1) v by (auto simp: map_ok_def)
    have "k \<noteq> taskID" using kn(1) fresh by (auto simp: map_of_eq_None_iff image_iff)
    moreover have "map_of (dw_diagnostics ?v) k = Some n"
      using kn(1) v by (simp add: map_ok_def gomap_ok_def)
    ultimately have "map_of (dw_diagnostics u) k = Some n" by (simp add: u_def gomap_get_update)
    then have "(k, n) \<in> set (dw_diagnostics u)" by (rule map_of_SomeD)
    then have "(k, n) \<in> set (drop 20 ?tasks)"
      using kn(2) prune_diagnostics [OF u, of 20 ?s] by (simp add: p_def)
    moreover from this have "(k, n) \<in> set (ended_of ?s u)" using set_drop_subset by fastforce
    moreover have "obj_task u n = obj_task ?v n" using n by (simp add: u_def obj_task_def nth_append)
    moreover have "ndt_StartedAt (obj_task u n) \<le> ndt_StartedAt (obj_task u m)"
      if "(j, m) \<in> set (take 20 ?tasks)" "(k, n) \<in> set (drop 20 ?tasks)" for j m
    proof -
      have "\<forall>x \<in> set (take 20 ?tasks). \<forall>y \<in> set (drop 20 ?tasks).
          ndt_StartedAt (obj_task u (snd y)) \<le> ndt_StartedAt (obj_task u (snd x))"
        using sorted by (metis (no_types, lifting) append_take_drop_id sorted_wrt_append)
      then show ?thesis using that by fastforce
    qed
    ultimately show ?thesis
      using prune_ended(1) [OF u, of 20 ?s] by (auto simp: p_def ended_of_def [of _ u] task_running_def list_all_iff)
  qed
  then show ?thesis
    using prune_ended(2) [OF u, of 20 ?s] unfolding same list_all_iff p_def by fastforce
qed

section \<open>What a diagnosis reports\<close>




text \<open>
  The exit code a line reports, and that of all lines: the last one, or 0 if none reports one. The
  lines that are shown: without carriage returns at the end, not blank, and no report of an exit code.
\<close>

definition reported_code :: "string \<times> string \<Rightarrow> int option" where
  "reported_code = (\<lambda>(line, _).
     case ParseExitMarkerLine (TrimRightChars line [CHR 0x0D]) of (code, marker) \<Rightarrow> if marker then Some code else None)"

definition script_code :: "(string \<times> string) list \<Rightarrow> int" where
  "script_code ls = last (0 # List.map_filter reported_code ls)"


lemma script_code_last:
  assumes "- (2 ^ 63) \<le> code" "code < 2 ^ 63"
  shows "script_code (ls @ [(exitMarker @ Itoa code, stream)]) = code"
  using ParseExitMarkerLine_marker [OF assms] TrimRight_marker [of code]
  by (simp add: script_code_def reported_code_def List.map_filter_def)











section \<open>Examples\<close>

text \<open>
  The start text leaves out zeros at the end of the fraction, so it does not sort as the time does:
  a task started 23 milliseconds later can be listed, and pruned, as the older one.
\<close>

lemma started_text_not_time: "RFC3339Nano 1700000000123000000 < RFC3339Nano 1700000000100000000"
  by code_simp

lemma sample_command: "is_ok (BuildCommand sample_diagnosis)"
  using BuildCommand_shape [OF sample_diagnosis_ok] by (simp add: diagnostic_body_def sample_diagnosis_def)

definition sample_object :: "int \<Rightarrow> diagnosticTask" where
  "sample_object now =
     \<lparr>dt_task = new_diagnostic sample_diagnosis ''t1'' now, dt_canceled = False, dt_expired = False,
      dt_session = False, dt_pc = DStart\<rparr>"

lemma sample_start:
  "StartNetworkDiagnostic True ''t1'' now sample_diagnosis no_diagnostics =
     (Inr (new_diagnostic sample_diagnosis ''t1'' now),
      \<lparr>dw_objects = [sample_object now], dw_diagnostics = [(''t1'', 0)],
       dw_states = [(0, new_diagnostic sample_diagnosis ''t1'' now)], dw_outputs = [], dw_errors = []\<rparr>)"
proof -
  obtain cmd where "BuildCommand sample_diagnosis = Inr cmd" using sample_command by (auto simp: is_ok_iff)
  then show ?thesis
    by (simp add: StartNetworkDiagnostic_def Let_def pruneDiagnosticsLocked_def ended_of_def latest_first_def no_diagnostics_def
        emitDiagnosticStateEvent_def sample_object_def obj_task_def task_running_def new_diagnostic_def)
      (simp add: sample_diagnosis_def)
qed

lemmas sample_run_simps =
  diag_run_def diag_step_def sample_start diag_go_def Let_def set_pc_def change_object_def finishDiagnostic_def
  emitDiagnosticStateEvent_def emitDiagnosticErrorEvent_def obj_task_def task_running_def sample_object_def
  closeSession_task_def new_diagnostic_def

abbreviation failed_run :: "diag_label list" where
  "failed_run \<equiv>
     [DiagStart True ''t1'' 0 sample_diagnosis, DiagGo 0 EvStreamFailed, DiagGo 0 (EvFinish 5), DiagGo 0 EvReturn]"

lemma failed_run_objects:
  "dw_objects (diag_run failed_run) =
     [\<lparr>dt_task = (new_diagnostic sample_diagnosis ''t1'' 0)
         \<lparr>ndt_Status := NetworkDiagnosticFailed, ndt_EndedAt := RFC3339Nano 5,
          ndt_Error := (zh [32593, 32476, 35786, 26029, 21551, 21160, 22833, 36133])\<rparr>,
       dt_canceled = False, dt_expired = False, dt_session = False, dt_pc = DGone\<rparr>]"
  by (simp add: sample_run_simps)

lemma diagnostic_ends_once_witness:
  "obj_task (diag_run (failed_run @ [DiagCancel 0, DiagCancelTimeout 0 9])) 0 = obj_task (diag_run failed_run) 0 \<and>
   ndt_Status (obj_task (diag_run failed_run) 0) = NetworkDiagnosticFailed"
proof -
  have o: "0 < length (dw_objects (diag_run failed_run))" "\<not> task_running (diag_run failed_run) 0"
    by (simp_all add: failed_run_objects task_running_def obj_task_def)
  show ?thesis
    using diagnostic_ends_once [OF o, of "[DiagCancel 0, DiagCancelTimeout 0 9]"]
    by (simp add: obj_task_def [of "diag_run failed_run"] failed_run_objects)
qed

lemma diagnostic_no_leak_witness:
  "\<not> task_running (diag_run failed_run) 0 \<and> \<not> dt_session (dw_objects (diag_run failed_run) ! 0)"
proof -
  have o: "0 < length (dw_objects (diag_run failed_run))" "distinct_ids (diag_run failed_run)"
    "dt_pc (dw_objects (diag_run failed_run) ! 0) = DGone"
    by (simp_all add: failed_run_objects distinct_ids_def)
  show ?thesis using diagnostic_no_leak [OF o(1,2)] o(3) by simp
qed

lemma start_prunes_witness:
  "length (ended_of 3 (snd (StartNetworkDiagnostic True ''t1'' 0 sample_diagnosis (diag_run [])))) \<le> 20"
  using start_prunes [of True "''t1''" 0 sample_diagnosis "[]"] sample_start [of 0]
  by (simp add: diag_run_def no_diagnostics_def) (simp add: sample_diagnosis_def)





end
