(* ===== verification/Collector.thy ===== *)
theory Collector
  imports LinuxInterfaces ConnState GoTime
begin

text \<open>
  Package \<open>internal/linuxmonitor\<close>, \<open>collector.go\<close>, and the parsers of floating point texts in
  \<open>parsers.go\<close>: what becomes of the output of one collection, and how two collections give usages
  and rates. Floating point arithmetic is a parameter, a record of the operations the code uses; the
  code compares numbers after it excluded infinities and NaN, so they are linearly ordered; only the
  up-time is compared without that test, and a text NaN there is outside the model. The text of a
  parse error leaves out the wrapped error; \<open>%q\<close> puts a text without special characters between
  quotes.
\<close>

section \<open>Data\<close>

record 'f floats =
  fl_Parse :: "string \<Rightarrow> 'f option"
  fl_finite :: "'f \<Rightarrow> bool"
  fl_zero :: 'f
  fl_nanos :: "'f \<Rightarrow> int"
  fl_percent :: "u64 \<Rightarrow> u64 \<Rightarrow> 'f"
  fl_cores_percent :: "u64 \<Rightarrow> u64 \<Rightarrow> u64 \<Rightarrow> 'f"

datatype MonitorNetworkInterfaceMode =
  MonitorNetworkInterfaceAll | MonitorNetworkInterfaceSpecific | MonitorNetworkInterfacePhysical
  | MonitorNetworkInterfaceDocker | MonitorNetworkInterfaceOther string

fun mode_text :: "MonitorNetworkInterfaceMode \<Rightarrow> string" where
  "mode_text MonitorNetworkInterfaceAll = ''all''"
| "mode_text MonitorNetworkInterfaceSpecific = ''interface''"
| "mode_text MonitorNetworkInterfacePhysical = ''physical''"
| "mode_text MonitorNetworkInterfaceDocker = ''docker''"
| "mode_text (MonitorNetworkInterfaceOther s) = s"

datatype ProcessStatus =
  ProcessNone | ProcessLoading | ProcessAvailable | ProcessEmpty | ProcessUnsupported | ProcessFailed

record 'f ProcessInfo =
  pi_PID :: int
  pi_CPUPercent :: 'f
  pi_MemoryPercent :: 'f
  pi_Command :: string

record MetricError =
  me_Metric :: string
  me_Message :: string

record 'f RawSample =
  raw_CPU :: CPUCounters
  raw_CPUAvailable :: bool
  raw_Memory :: MemoryInfo
  raw_MemoryAvailable :: bool
  raw_DefaultInterface :: string
  raw_Interface :: string
  raw_RX :: u64
  raw_TX :: u64
  raw_NetworkInterfaces :: "NetworkInterfaceCounters list"
  raw_NetworkAvailable :: bool
  raw_NetworkInterfaceMode :: MonitorNetworkInterfaceMode
  raw_SelectedNetworkInterface :: string
  raw_EffectiveNetworkInterface :: string
  raw_NetworkInterfaceFallback :: bool
  raw_NetworkInterfaceMessage :: string
  raw_Disk :: DiskUsage
  raw_DiskAvailable :: bool
  raw_Mounts :: "DiskMount list"
  raw_Processes :: "'f ProcessInfo list"
  raw_ProcessMode :: string
  raw_ProcessStatus :: ProcessStatus
  raw_ProcessMessage :: string
  raw_ProcProcesses :: "ProcProcessSample list"
  raw_Load :: "('f \<times> 'f \<times> 'f) option"
  raw_Uptime :: "int option"
  raw_OSName :: string
  raw_Kernel :: string
  raw_Architecture :: string
  raw_Errors :: "MetricError list"

definition zero_CPU :: CPUCounters where
  "zero_CPU =
     \<lparr>cpu_User = 0, cpu_Nice = 0, cpu_System = 0, cpu_Idle = 0, cpu_IOWait = 0, cpu_IRQ = 0,
      cpu_SoftIRQ = 0, cpu_Steal = 0, cpu_Cores = 0\<rparr>"

definition zero_sample :: "'f RawSample" where
  "zero_sample =
     \<lparr>raw_CPU = zero_CPU, raw_CPUAvailable = False,
      raw_Memory = \<lparr>mem_Total = 0, mem_Available = 0, mem_SwapTotal = 0, mem_SwapFree = 0\<rparr>,
      raw_MemoryAvailable = False, raw_DefaultInterface = [], raw_Interface = [], raw_RX = 0, raw_TX = 0,
      raw_NetworkInterfaces = [], raw_NetworkAvailable = False,
      raw_NetworkInterfaceMode = MonitorNetworkInterfaceOther [], raw_SelectedNetworkInterface = [],
      raw_EffectiveNetworkInterface = [], raw_NetworkInterfaceFallback = False,
      raw_NetworkInterfaceMessage = [], raw_Disk = \<lparr>du_Total = 0, du_Used = 0, du_Free = 0\<rparr>,
      raw_DiskAvailable = False, raw_Mounts = [], raw_Processes = [], raw_ProcessMode = [],
      raw_ProcessStatus = ProcessNone, raw_ProcessMessage = [], raw_ProcProcesses = [], raw_Load = None,
      raw_Uptime = None, raw_OSName = [], raw_Kernel = [], raw_Architecture = [], raw_Errors = []\<rparr>"

section \<open>Which interfaces count\<close>

definition validNetworkInterfaceMode :: "MonitorNetworkInterfaceMode \<Rightarrow> bool" where
  "validNetworkInterfaceMode mode =
     (case mode of MonitorNetworkInterfaceOther _ \<Rightarrow> False | _ \<Rightarrow> True)"

definition isDockerNetworkInterface :: "string \<Rightarrow> bool" where
  "isDockerNetworkInterface name =
     (let lower = ToLower name
      in lower = ''docker0'' \<or> HasPrefix lower ''br-'' \<or> HasPrefix lower ''veth'' \<or> HasPrefix lower ''vxlan'' \<or>
         HasPrefix lower ''flannel'' \<or> HasPrefix lower ''cni'')"

definition isVirtualNetworkInterface :: "string \<Rightarrow> bool" where
  "isVirtualNetworkInterface name =
     (let lower = ToLower name
      in isDockerNetworkInterface lower \<or>
         list_ex (HasPrefix lower) [''virbr'', ''tun'', ''tap'', ''wg'', ''tailscale'', ''zt'', ''kube-''])"

definition includeNetworkInterface :: "string \<Rightarrow> MonitorNetworkInterfaceMode \<Rightarrow> bool" where
  "includeNetworkInterface name mode =
     (if isLoopbackName name then False
      else case mode of
          MonitorNetworkInterfaceDocker \<Rightarrow> isDockerNetworkInterface name
        | MonitorNetworkInterfacePhysical \<Rightarrow> \<not> isVirtualNetworkInterface name
        | _ \<Rightarrow> True)"

definition counter_sum :: "NetworkInterfaceCounters list \<Rightarrow> u64 \<times> u64 \<times> nat" where
  "counter_sum rows = (sum_list (map nic_RXBytes rows), sum_list (map nic_TXBytes rows), length rows)"

definition aggregateNetworkInterfaces ::
  "NetworkInterfaceCounters list \<Rightarrow> MonitorNetworkInterfaceMode \<Rightarrow> u64 \<times> u64 \<times> nat" where
  "aggregateNetworkInterfaces rows mode =
     (let counted = filter (\<lambda>item. includeNetworkInterface (nic_Name item) mode) rows
      in if counted = [] \<and> mode = MonitorNetworkInterfaceAll then counter_sum rows else counter_sum counted)"

text \<open>The sample shows all interfaces although the user chose something else.\<close>

definition fall_back :: "string \<Rightarrow> 'f RawSample \<Rightarrow> 'f RawSample" where
  "fall_back message s =
     s\<lparr>raw_NetworkInterfaceMode := MonitorNetworkInterfaceAll, raw_SelectedNetworkInterface := [],
       raw_NetworkInterfaceFallback := True, raw_NetworkInterfaceMessage := message\<rparr>"

definition err_no_interface :: string where
  "err_no_interface = (zh [25152, 36873, 32593, 32476, 25509, 21475, 19981, 23384, 22312, 65292, 24050, 20999, 25442, 20026, 20840, 37096, 25509, 21475])"

definition show_total :: "u64 \<times> u64 \<times> nat \<Rightarrow> 'f RawSample \<Rightarrow> 'f RawSample" where
  "show_total counts s =
     (case counts of (rx, tx, included) \<Rightarrow>
        if included > 0
        then s\<lparr>raw_Interface := mode_text (raw_NetworkInterfaceMode s), raw_RX := rx, raw_TX := tx,
               raw_NetworkAvailable := True,
               raw_EffectiveNetworkInterface := mode_text (raw_NetworkInterfaceMode s)\<rparr>
        else s)"

definition begin_preference ::
  "MonitorNetworkInterfaceMode \<Rightarrow> string \<Rightarrow> 'f RawSample \<Rightarrow> 'f RawSample" where
  "begin_preference mode selected s =
     s\<lparr>raw_NetworkInterfaceMode := mode, raw_SelectedNetworkInterface := selected,
       raw_NetworkInterfaceFallback := False, raw_NetworkInterfaceMessage := [],
       raw_DefaultInterface :=
         (if raw_DefaultInterface s = [] then raw_Interface s else raw_DefaultInterface s)\<rparr>"

definition choose_interface ::
  "MonitorNetworkInterfaceMode \<Rightarrow> string \<Rightarrow> 'f RawSample \<Rightarrow> 'f RawSample" where
  "choose_interface mode selected s =
     (let rows = raw_NetworkInterfaces s
      in if rows = [] then
           (let s = s\<lparr>raw_EffectiveNetworkInterface :=
                        (if raw_Interface s = [] \<and> raw_NetworkAvailable s then mode_text MonitorNetworkInterfaceAll
                         else raw_Interface s)\<rparr>
            in if mode = MonitorNetworkInterfaceSpecific \<and> selected \<noteq> [] \<and> selected \<noteq> raw_Interface s
               then fall_back err_no_interface s else s)
         else case (if mode = MonitorNetworkInterfaceSpecific \<and> selected \<noteq> []
                    then find (\<lambda>item. nic_Name item = selected) rows else None) of
             Some item \<Rightarrow>
               s\<lparr>raw_Interface := nic_Name item, raw_RX := nic_RXBytes item, raw_TX := nic_TXBytes item,
                 raw_NetworkAvailable := True, raw_EffectiveNetworkInterface := nic_Name item\<rparr>
           | None \<Rightarrow>
               (let s = (if mode = MonitorNetworkInterfaceSpecific \<and> selected \<noteq> []
                         then fall_back err_no_interface s else s);
                    counts = aggregateNetworkInterfaces rows mode
                in if snd (snd counts) = 0 \<and> mode = MonitorNetworkInterfaceDocker
                   then show_total (aggregateNetworkInterfaces rows MonitorNetworkInterfaceAll)
                          (fall_back (zh [26410, 21457, 29616, 32, 68, 111, 99, 107, 101, 114, 32, 32593, 32476, 25509, 21475, 65292, 24050, 20999, 25442, 20026, 20840, 37096, 25509, 21475]) s)
                   else if snd (snd counts) = 0 \<and> mode = MonitorNetworkInterfacePhysical
                   then show_total (aggregateNetworkInterfaces rows MonitorNetworkInterfaceAll)
                          (fall_back (zh [26410, 21457, 29616, 21487, 29992, 29289, 29702, 32593, 32476, 25509, 21475, 65292, 24050, 20999, 25442, 20026, 20840, 37096, 25509, 21475]) s)
                   else show_total counts s))"

definition ApplyNetworkPreference ::
  "MonitorNetworkInterfaceMode \<Rightarrow> string \<Rightarrow> 'f RawSample \<Rightarrow> 'f RawSample" where
  "ApplyNetworkPreference mode selected s =
     (let mode = (if validNetworkInterfaceMode mode then mode else MonitorNetworkInterfaceAll);
          selected = TrimSpace selected
      in choose_interface mode selected (begin_preference mode selected s))"

section \<open>Processes\<close>

definition process_row :: "'f::linorder floats \<Rightarrow> string list \<Rightarrow> 'f ProcessInfo option" where
  "process_row fl fds =
     (case fds of
        f0 # f1 # f2 # f3 # rest \<Rightarrow>
          (case (ParseInt f0 10, fl_Parse fl (TrimSuffix f1 ''%''), fl_Parse fl (TrimSuffix f2 ''%'')) of
             (Inr pid, Some cpu, Some memory) \<Rightarrow>
               if pid \<le> 0 \<or> \<not> fl_finite fl cpu \<or> cpu < fl_zero fl \<or> \<not> fl_finite fl memory \<or> memory < fl_zero fl
               then None
               else let command = TrimSpace (Join (f3 # rest) '' '')
                    in Some \<lparr>pi_PID = pid, pi_CPUPercent = cpu, pi_MemoryPercent = memory,
                             pi_Command = (if command = [] then ''['' @ Itoa pid @ '']'' else command)\<rparr>
           | _ \<Rightarrow> None)
      | _ \<Rightarrow> None)"

definition ParseProcesses :: "'f::linorder floats \<Rightarrow> string \<Rightarrow> string + 'f ProcessInfo list" where
  "ParseProcesses fl input =
     (let processes = List.map_filter (process_row fl) (map Fields (Lines input))
      in if processes = [] then Inl ''process data row not found'' else Inr processes)"

definition ParseLoadAverage :: "'f floats \<Rightarrow> string \<Rightarrow> string + 'f \<times> 'f \<times> 'f" where
  "ParseLoadAverage fl input =
     (case Fields input of
        f0 # f1 # f2 # _ \<Rightarrow>
          (case (fl_Parse fl f0, fl_Parse fl f1, fl_Parse fl f2) of
             (Some a, Some b, Some c) \<Rightarrow> Inr (a, b, c)
           | _ \<Rightarrow> Inl ''parse load average'')
      | _ \<Rightarrow> Inl ''loadavg has too few fields'')"

definition ParseUptime :: "'f::linorder floats \<Rightarrow> string \<Rightarrow> string + int" where
  "ParseUptime fl input =
     (case Fields input of
        [] \<Rightarrow> Inl ''uptime is empty''
      | f # _ \<Rightarrow>
          (case fl_Parse fl f of
             None \<Rightarrow> Inl ''invalid uptime''
           | Some seconds \<Rightarrow> if seconds < fl_zero fl then Inl ''invalid uptime'' else Inr (fl_nanos fl seconds)))"

definition process_body :: "'f::linorder floats \<Rightarrow> string \<Rightarrow> string \<Rightarrow> 'f RawSample \<Rightarrow> string option \<times> 'f RawSample" where
  "process_body fl mode body s =
           (if mode = ''ps'' then
              (case ParseProcesses fl body of
                 Inl err \<Rightarrow> (Some err, s)
               | Inr processes \<Rightarrow>
                   (None,
                    if processes = []
                    then s\<lparr>raw_Processes := [], raw_ProcessStatus := ProcessEmpty, raw_ProcessMessage := (zh [26242, 26080, 36827, 31243, 25968, 25454])\<rparr>
                    else s\<lparr>raw_Processes := processes, raw_ProcessStatus := ProcessAvailable\<rparr>))
            else if mode = ''procfs'' then
              (case ParseProcProcesses body of
                 Inl err \<Rightarrow> (Some err, s)
               | Inr processes \<Rightarrow>
                   (None,
                    if processes = []
                    then s\<lparr>raw_ProcProcesses := [], raw_ProcessStatus := ProcessEmpty,
                           raw_ProcessMessage := (zh [26242, 26080, 21487, 35835, 21462, 30340, 36827, 31243, 25968, 25454])\<rparr>
                    else s\<lparr>raw_ProcProcesses := processes, raw_ProcessStatus := ProcessLoading,
                           raw_ProcessMessage := (zh [27491, 22312, 24314, 31435, 36827, 31243, 37319, 26679, 22522, 32447])\<rparr>))
            else if mode = ''unsupported'' then
              (None, s\<lparr>raw_ProcessStatus := ProcessUnsupported, raw_ProcessMessage := (zh [24403, 21069, 31995, 32479, 19981, 25903, 25345, 36827, 31243, 37319, 38598])\<rparr>)
            else (Some (''unknown process collection mode '' @ [CHR 0x22] @ mode @ [CHR 0x22]), s))"

definition parseProcessSection :: "'f::linorder floats \<Rightarrow> string \<Rightarrow> 'f RawSample \<Rightarrow> string option \<times> 'f RawSample" where
  "parseProcessSection fl input s =
     (let lines = Split (TrimSpace input) (CHR 0x0A); line0 = TrimSpace (hd lines)
      in if line0 = [] then (Some ''process collection mode missing'', s)
         else let named = HasPrefix line0 ''mode='';
                  mode = (if named then TrimSpace (TrimPrefix line0 ''mode='') else ''ps'');
                  body = (if named then Join (tl lines) [CHR 0x0A] else input)
         in process_body fl mode body (s\<lparr>raw_ProcessMode := mode\<rparr>))"

section \<open>One collection\<close>

definition appendMetricError :: "string \<Rightarrow> string \<Rightarrow> 'f RawSample \<Rightarrow> 'f RawSample" where
  "appendMetricError metric err s =
     s\<lparr>raw_Errors := raw_Errors s @ [\<lparr>me_Metric = metric, me_Message = err\<rparr>]\<rparr>"

definition os_value :: "(string \<Rightarrow> string) \<Rightarrow> string \<Rightarrow> (string \<Rightarrow> string)" where
  "os_value values line =
     (case Cut (TrimSpace line) (CHR ''='') of
        None \<Rightarrow> values
      | Some (key, val) \<Rightarrow> values(key := TrimChars (TrimSpace val) [CHR 0x22]))"

definition parseOSName :: "string \<Rightarrow> string" where
  "parseOSName input =
     (let values = foldl os_value (\<lambda>_. []) (Lines input)
      in if values ''PRETTY_NAME'' \<noteq> [] then values ''PRETTY_NAME''
         else TrimSpace (values ''NAME'' @ '' '' @ values ''VERSION''))"

definition collect_cpu :: "string \<Rightarrow> 'f RawSample \<Rightarrow> 'f RawSample" where
  "collect_cpu text s =
     (case ParseCPUStat text of
        Inl err \<Rightarrow> appendMetricError ''cpu'' err s
      | Inr c \<Rightarrow> s\<lparr>raw_CPU := c, raw_CPUAvailable := True\<rparr>)"

definition collect_memory :: "string \<Rightarrow> 'f RawSample \<Rightarrow> 'f RawSample" where
  "collect_memory text s =
     (case ParseMemInfo text of
        Inl err \<Rightarrow> appendMetricError ''memory'' err s
      | Inr m \<Rightarrow> s\<lparr>raw_Memory := m, raw_MemoryAvailable := True\<rparr>)"

definition collect_rows :: "string \<Rightarrow> string \<Rightarrow> 'f RawSample \<Rightarrow> 'f RawSample" where
  "collect_rows iface text s =
     (let iface = TrimSpace iface;
          s = s\<lparr>raw_DefaultInterface := iface, raw_Interface := iface\<rparr>;
          s = (case ParseProcNetDev text of
                 Inl err \<Rightarrow> if text \<noteq> [] then appendMetricError ''network'' err s else s
               | Inr rows \<Rightarrow> s\<lparr>raw_NetworkInterfaces := rows\<rparr>)
      in case find (\<lambda>item. nic_Name item = raw_Interface s) (raw_NetworkInterfaces s) of
           None \<Rightarrow> s
         | Some item \<Rightarrow> s\<lparr>raw_RX := nic_RXBytes item, raw_TX := nic_TXBytes item, raw_NetworkAvailable := True\<rparr>)"

definition network_counters :: "string \<Rightarrow> string \<Rightarrow> 'f RawSample \<Rightarrow> 'f RawSample" where
  "network_counters rx tx s =
        (if raw_NetworkInterfaces s \<noteq> [] \<and> raw_Interface s = [] then s\<lparr>raw_NetworkAvailable := True\<rparr>
         else if raw_Interface s = [] then appendMetricError ''network'' ''default interface unavailable'' s
         else if \<not> raw_NetworkAvailable s then
           (case ParseNetworkCounters rx tx of
              Inl err \<Rightarrow> appendMetricError ''network'' err (s\<lparr>raw_RX := 0, raw_TX := 0\<rparr>)
            | Inr (r, t) \<Rightarrow> s\<lparr>raw_RX := r, raw_TX := t, raw_NetworkAvailable := True\<rparr>)
         else s)"

definition collect_network :: "string \<Rightarrow> string \<Rightarrow> 'f RawSample \<Rightarrow> 'f RawSample" where
  "collect_network rx tx s =
     (let s = network_counters rx tx s
      in if raw_NetworkAvailable s then ApplyNetworkPreference MonitorNetworkInterfaceAll [] s else s)"

definition collect_disk :: "string \<Rightarrow> 'f RawSample \<Rightarrow> 'f RawSample" where
  "collect_disk text s =
     (case ParseDFMounts text of
        Inl err \<Rightarrow> appendMetricError ''disk'' err s
      | Inr mounts \<Rightarrow>
          let s = s\<lparr>raw_Mounts := mounts\<rparr>
          in case find (\<lambda>m. mnt_MountPath m = ''/'') mounts of
               None \<Rightarrow> appendMetricError ''disk'' ''root mount not found'' s
             | Some m \<Rightarrow>
                 s\<lparr>raw_Disk := \<lparr>du_Total = mnt_Total m, du_Used = mnt_Used m, du_Free = mnt_Available m\<rparr>,
                   raw_DiskAvailable := True\<rparr>)"

definition collect_processes :: "'f::linorder floats \<Rightarrow> string \<Rightarrow> 'f RawSample \<Rightarrow> 'f RawSample" where
  "collect_processes fl text s =
     (case parseProcessSection fl text s of
        (None, s) \<Rightarrow> s
      | (Some err, s) \<Rightarrow>
          appendMetricError ''processes'' err
            (s\<lparr>raw_ProcessStatus := ProcessFailed, raw_ProcessMessage := (zh [36827, 31243, 25968, 25454, 37319, 38598, 22833, 36133])\<rparr>))"

definition collect_load :: "'f::linorder floats \<Rightarrow> string \<Rightarrow> string \<Rightarrow> 'f RawSample \<Rightarrow> 'f RawSample" where
  "collect_load fl load uptime s =
     (let s = (case ParseLoadAverage fl load of
                 Inl err \<Rightarrow> appendMetricError ''load'' err s | Inr l \<Rightarrow> s\<lparr>raw_Load := Some l\<rparr>)
      in case ParseUptime fl uptime of
           Inl err \<Rightarrow> appendMetricError ''uptime'' err s | Inr u \<Rightarrow> s\<lparr>raw_Uptime := Some u\<rparr>)"

definition collect_os :: "string \<Rightarrow> string \<Rightarrow> string \<Rightarrow> 'f RawSample \<Rightarrow> 'f RawSample" where
  "collect_os os uname arch s =
     (let s = s\<lparr>raw_OSName := parseOSName os\<rparr>;
          s = (if raw_OSName s = [] then appendMetricError ''os'' ''OS information unavailable'' s else s)
      in s\<lparr>raw_Kernel := TrimSpace uname, raw_Architecture := TrimSpace arch\<rparr>)"

definition ParseCollectionOutput :: "'f::linorder floats \<Rightarrow> string \<Rightarrow> 'f RawSample" where
  "ParseCollectionOutput fl input =
     (let sec = get_section (splitSections input)
      in collect_os (sec ''OS'') (sec ''UNAME'') (sec ''ARCH'')
          (collect_load fl (sec ''LOAD'') (sec ''UPTIME'')
          (collect_processes fl (sec ''PROCESSES'')
          (collect_disk (sec ''DF'')
          (collect_network (sec ''RX'') (sec ''TX'')
          (collect_rows (sec ''IFACE'') (sec ''PROC_NET_DEV'')
          (collect_memory (sec ''MEM'')
          (collect_cpu (sec ''CPU'') zero_sample))))))))"

section \<open>Two collections\<close>

record Calculator =
  cal_hasCPU :: bool
  cal_cpu :: CPUCounters
  cal_network :: NetworkCalculator
  cal_hasProcesses :: bool
  cal_processCPU :: CPUCounters
  cal_processTicks :: "int \<Rightarrow> u64 option"

definition new_calculator :: Calculator where
  "new_calculator =
     \<lparr>cal_hasCPU = False, cal_cpu = zero_CPU,
      cal_network = \<lparr>calc_baseline = False, calc_iface = [], calc_rx = 0, calc_tx = 0, calc_at = 0\<rparr>,
      cal_hasProcesses = False, cal_processCPU = zero_CPU, cal_processTicks = (\<lambda>_. None)\<rparr>"

text \<open>The metrics of a \<open>MonitorSnapshot\<close>; a percentage is the pair whose quotient it is.\<close>

record 'f Metrics =
  met_Timestamp :: string
  met_LatencyMillis :: int
  met_CPUPercent :: "(u64 \<times> u64) option"
  met_Memory :: MemoryInfo
  met_MemoryUsedPercent :: "(u64 \<times> u64) option"
  met_Disk :: DiskUsage
  met_DiskUsedPercent :: "(u64 \<times> u64) option"
  met_Mounts :: "DiskMount list"
  met_Processes :: "'f ProcessInfo list"
  met_ProcessStatus :: ProcessStatus
  met_ProcessMessage :: string
  met_Load :: "('f \<times> 'f \<times> 'f) option"
  met_Uptime :: "int option"
  met_Raw :: "'f RawSample"
  met_Rates :: "NetworkRates option"

text \<open>Sixteen processes of each list, as a Go map: the last value of a process counts, the order is any.\<close>

definition first_sixteen :: "'f ProcessInfo list \<Rightarrow> (int, 'f ProcessInfo) gomap \<Rightarrow> (int, 'f ProcessInfo) gomap" where
  "first_sixteen ps selected = fold (\<lambda>p m. AList.update (pi_PID p) p m) (take 16 ps) selected"

definition limitProcesses :: "'f::linorder ProcessInfo list \<Rightarrow> 'f ProcessInfo list" where
  "limitProcesses processes =
     (let by_pid = sort_key pi_PID processes;
          byCPU = rev (sort_key pi_CPUPercent (rev by_pid));
          byMemory = rev (sort_key pi_MemoryPercent (rev by_pid))
      in map snd (first_sixteen byMemory (first_sixteen byCPU [])))"

definition proc_process ::
  "'f::linorder floats \<Rightarrow> Calculator \<Rightarrow> 'f RawSample \<Rightarrow> u64 \<Rightarrow> ProcProcessSample \<Rightarrow> 'f ProcessInfo option" where
  "proc_process fl c raw totalDelta p =
     (let cores = (if cpu_Cores (raw_CPU raw) = 0 then 1 else cpu_Cores (raw_CPU raw));
          cpuPercent =
            (case cal_processTicks c (pps_PID p) of
               Some previous \<Rightarrow>
                 if pps_CPUTicks p \<ge> previous
                 then fl_cores_percent fl (pps_CPUTicks p - previous) totalDelta cores else fl_zero fl
             | None \<Rightarrow> fl_zero fl);
          memoryPercent =
            (if raw_MemoryAvailable raw \<and> mem_Total (raw_Memory raw) > 0
             then fl_percent fl (pps_RSSBytes p) (mem_Total (raw_Memory raw)) else fl_zero fl)
      in if \<not> fl_finite fl cpuPercent \<or> \<not> fl_finite fl memoryPercent then None
         else Some \<lparr>pi_PID = pps_PID p, pi_CPUPercent = max cpuPercent (fl_zero fl),
                    pi_MemoryPercent = max memoryPercent (fl_zero fl), pi_Command = pps_Command p\<rparr>)"

definition procProcesses ::
  "'f::linorder floats \<Rightarrow> 'f RawSample \<Rightarrow> Calculator \<Rightarrow> ('f ProcessInfo list \<times> ProcessStatus \<times> string) \<times> Calculator" where
  "procProcesses fl raw c =
     (let current = foldl (\<lambda>m p. m(pps_PID p \<mapsto> pps_CPUTicks p)) (\<lambda>_. None) (raw_ProcProcesses raw);
          next_c = c\<lparr>cal_processCPU := raw_CPU raw, cal_processTicks := current\<rparr>
      in if \<not> raw_CPUAvailable raw \<or> \<not> cal_hasProcesses c then
           (if raw_ProcProcesses raw = [] then ([], ProcessEmpty, (zh [26242, 26080, 21487, 35835, 21462, 30340, 36827, 31243, 25968, 25454]))
            else ([], ProcessLoading, (zh [27491, 22312, 24314, 31435, 36827, 31243, 37319, 26679, 22522, 32447])),
            next_c\<lparr>cal_hasProcesses := raw_CPUAvailable raw\<rparr>)
         else if cpu_total (raw_CPU raw) \<le> cpu_total (cal_processCPU c) then
           (([], ProcessLoading, (zh [27491, 22312, 37325, 26032, 24314, 31435, 36827, 31243, 37319, 26679, 22522, 32447])), next_c)
         else
           let processes =
                 List.map_filter (proc_process fl c raw (cpu_total (raw_CPU raw) - cpu_total (cal_processCPU c)))
                   (raw_ProcProcesses raw)
           in (if processes = [] then ([], ProcessEmpty, (zh [26242, 26080, 36827, 31243, 25968, 25454]))
               else (limitProcesses processes, ProcessAvailable, []), next_c))"

definition part_of :: "bool \<Rightarrow> u64 \<Rightarrow> u64 \<Rightarrow> (u64 \<times> u64) option" where
  "part_of available part whole = (if available \<and> whole > 0 then Some (part, whole) else None)"

definition Snapshot ::
  "'f::linorder floats \<Rightarrow> 'f RawSample \<Rightarrow> int \<Rightarrow> int \<Rightarrow> Calculator \<Rightarrow> 'f Metrics \<times> Calculator" where
  "Snapshot fl raw at latency c =
     (let cpu = (if raw_CPUAvailable raw \<and> cal_hasCPU c then CPUUsage (cal_cpu c) (raw_CPU raw) else None);
          c = (if raw_CPUAvailable raw then c\<lparr>cal_cpu := raw_CPU raw, cal_hasCPU := True\<rparr>
               else c\<lparr>cal_hasCPU := False\<rparr>);
          procs = (if raw_ProcessMode raw = ''procfs'' then procProcesses fl raw c
                   else ((raw_Processes raw, raw_ProcessStatus raw, raw_ProcessMessage raw),
                         c\<lparr>cal_hasProcesses := False, cal_processTicks := (\<lambda>_. None)\<rparr>));
          c = snd procs;
          mem = raw_Memory raw; disk = raw_Disk raw;
          net = (if raw_NetworkAvailable raw
                 then calc_Sample (raw_Interface raw) (raw_RX raw) (raw_TX raw) at (cal_network c)
                 else (calc_Reset (cal_network c), None))
      in (\<lparr>met_Timestamp = RFC3339Nano at, met_LatencyMillis = latency div 1000000, met_CPUPercent = cpu,
           met_Memory = mem,
           met_MemoryUsedPercent =
             (if mem_Available mem \<le> mem_Total mem
              then part_of (raw_MemoryAvailable raw) (mem_Total mem - mem_Available mem) (mem_Total mem) else None),
           met_Disk = disk, met_DiskUsedPercent = part_of (raw_DiskAvailable raw) (du_Used disk) (du_Total disk),
           met_Mounts = raw_Mounts raw, met_Processes = fst (fst procs), met_ProcessStatus = fst (snd (fst procs)),
           met_ProcessMessage = snd (snd (fst procs)), met_Load = raw_Load raw, met_Uptime = raw_Uptime raw,
           met_Raw = raw, met_Rates = snd net\<rparr>,
          c\<lparr>cal_network := fst net\<rparr>))"

definition ParseRefreshInterval :: "int \<Rightarrow> string + int" where
  "ParseRefreshInterval val =
     (if val \<noteq> 1 \<and> val \<noteq> 2 \<and> val \<noteq> 5 then Inl (''unsupported refresh interval '' @ Itoa val)
      else Inr (val * nanos_per_second))"

section \<open>What is missing is reported\<close>

definition reported :: "string \<Rightarrow> 'f RawSample \<Rightarrow> bool" where
  "reported metric s = list_ex (\<lambda>e. me_Metric e = metric) (raw_Errors s)"

definition available :: "string \<Rightarrow> 'f RawSample \<Rightarrow> bool" where
  "available metric s =
     (if metric = ''cpu'' then raw_CPUAvailable s
      else if metric = ''memory'' then raw_MemoryAvailable s
      else if metric = ''network'' then raw_NetworkAvailable s
      else if metric = ''disk'' then raw_DiskAvailable s
      else if metric = ''processes'' then raw_ProcessStatus s \<noteq> ProcessFailed
      else if metric = ''load'' then raw_Load s \<noteq> None
      else if metric = ''uptime'' then raw_Uptime s \<noteq> None
      else if metric = ''os'' then raw_OSName s \<noteq> [] else False)"

definition metric_status :: "string \<Rightarrow> 'f RawSample \<Rightarrow> bool \<times> bool" where
  "metric_status m s = (available m s, reported m s)"

text \<open>What a step may do with a metric: nothing, or, if it is the step of this metric, decide it.\<close>

definition decides :: "string \<Rightarrow> ('f RawSample \<Rightarrow> 'f RawSample) \<Rightarrow> bool" where
  "decides m f \<longleftrightarrow> (\<forall>s. metric_status m s = (m = ''processes'', False) \<longrightarrow> available m (f s) = (\<not> reported m (f s)))"

lemmas metric_defs = metric_status_def available_def reported_def appendMetricError_def

lemma show_total_status [simp]: "m \<noteq> ''network'' \<Longrightarrow> metric_status m (show_total t s) = metric_status m s"
  by (auto simp: metric_defs show_total_def split: prod.splits)

lemma fall_back_status [simp]: "metric_status m (fall_back msg s) = metric_status m s"
  by (auto simp: metric_defs fall_back_def)

lemma begin_preference_status [simp]: "metric_status m (begin_preference mode sel s) = metric_status m s"
  by (auto simp: metric_defs begin_preference_def)

lemma record_status:
  "metric_status m (s\<lparr>raw_EffectiveNetworkInterface := x\<rparr>) = metric_status m s"
  "m \<noteq> ''network'' \<Longrightarrow> metric_status m (s\<lparr>raw_Interface := i, raw_RX := r, raw_TX := t, raw_NetworkAvailable := True,
     raw_EffectiveNetworkInterface := x\<rparr>) = metric_status m s"
  by (auto simp: metric_defs)

lemma choose_interface_status [simp]:
  assumes m: "m \<noteq> ''network''"
  shows "metric_status m (choose_interface mode sel s) = metric_status m s"
proof (cases "raw_NetworkInterfaces s = []")
  case True
  then show ?thesis by (simp add: choose_interface_def Let_def record_status)
next
  case False
  let ?found = "if mode = MonitorNetworkInterfaceSpecific \<and> sel \<noteq> []
    then find (\<lambda>item. nic_Name item = sel) (raw_NetworkInterfaces s) else None"
  show ?thesis
  proof (cases ?found)
    case None
    then show ?thesis unfolding choose_interface_def Let_def None using False m by simp
  next
    case (Some item)
    then show ?thesis unfolding choose_interface_def Let_def Some using False m by (simp add: metric_defs)
  qed
qed

lemma preference_status [simp]:
  "m \<noteq> ''network'' \<Longrightarrow> metric_status m (ApplyNetworkPreference mode sel s) = metric_status m s"
  by (simp add: ApplyNetworkPreference_def Let_def)

lemma preference_network:
  "reported m (ApplyNetworkPreference mode sel s) = reported m s"
  "raw_NetworkAvailable s \<Longrightarrow> raw_NetworkAvailable (ApplyNetworkPreference mode sel s)"
proof -
  have t: "raw_Errors (show_total t s) = raw_Errors s" "raw_NetworkAvailable s \<Longrightarrow> raw_NetworkAvailable (show_total t s)"
    "raw_Errors (fall_back msg s) = raw_Errors s" "raw_NetworkAvailable (fall_back msg s) = raw_NetworkAvailable s"
    for t msg and s :: "'a RawSample"
    by (simp_all add: show_total_def fall_back_def split: prod.splits)
  have "raw_Errors (choose_interface mode sel s) = raw_Errors s \<and>
      (raw_NetworkAvailable s \<longrightarrow> raw_NetworkAvailable (choose_interface mode sel s))" for mode sel and s :: "'a RawSample"
  proof (cases "if mode = MonitorNetworkInterfaceSpecific \<and> sel \<noteq> []
      then find (\<lambda>item. nic_Name item = sel) (raw_NetworkInterfaces s) else None")
    case None
    show ?thesis unfolding choose_interface_def Let_def None by (simp add: t)
  next
    case (Some item)
    show ?thesis unfolding choose_interface_def Let_def Some by (simp add: t)
  qed
  then show "reported m (ApplyNetworkPreference mode sel s) = reported m s"
    "raw_NetworkAvailable s \<Longrightarrow> raw_NetworkAvailable (ApplyNetworkPreference mode sel s)"
    by (simp_all add: ApplyNetworkPreference_def Let_def reported_def begin_preference_def)
qed

lemma collect_frame:
  "m \<noteq> ''cpu'' \<Longrightarrow> metric_status m (collect_cpu t s) = metric_status m s"
  "m \<noteq> ''memory'' \<Longrightarrow> metric_status m (collect_memory t s) = metric_status m s"
  "m \<noteq> ''network'' \<Longrightarrow> metric_status m (collect_rows i t s) = metric_status m s"
  "m \<noteq> ''disk'' \<Longrightarrow> metric_status m (collect_disk t s) = metric_status m s"
  "m \<noteq> ''load'' \<Longrightarrow> m \<noteq> ''uptime'' \<Longrightarrow> metric_status m (collect_load fl l u s) = metric_status m s"
  by (auto simp: metric_defs collect_cpu_def collect_memory_def collect_rows_def collect_disk_def collect_load_def Let_def
      split: sum.splits option.splits)

lemma collect_os_frame:
  "m \<noteq> ''os'' \<Longrightarrow>
   metric_status m (collect_os os u a s) = metric_status m s"
  by (auto simp: metric_defs collect_os_def Let_def)

lemma collect_network_frame: "m \<noteq> ''network'' \<Longrightarrow> metric_status m (collect_network rx tx s) = metric_status m s"
proof -
  assume m: "m \<noteq> ''network''"
  then have "metric_status m (network_counters rx tx s) = metric_status m s"
    by (simp add: network_counters_def metric_defs split: sum.splits prod.splits)
  then show ?thesis using m by (simp add: collect_network_def Let_def)
qed

lemma parseProcessSection_frame:
  assumes "parseProcessSection fl text s = (err, s')"
  shows "m \<noteq> ''processes'' \<Longrightarrow> metric_status m s' = metric_status m s"
    "reported m s' = reported m s"
    "raw_ProcessStatus s \<noteq> ProcessFailed \<Longrightarrow> raw_ProcessStatus s' \<noteq> ProcessFailed"
proof -
  have f: "raw_Errors s' = raw_Errors s \<and> raw_CPUAvailable s' = raw_CPUAvailable s \<and>
      raw_MemoryAvailable s' = raw_MemoryAvailable s \<and> raw_NetworkAvailable s' = raw_NetworkAvailable s \<and>
      raw_DiskAvailable s' = raw_DiskAvailable s \<and> raw_Load s' = raw_Load s \<and> raw_Uptime s' = raw_Uptime s \<and>
      raw_OSName s' = raw_OSName s \<and> (raw_ProcessStatus s \<noteq> ProcessFailed \<longrightarrow> raw_ProcessStatus s' \<noteq> ProcessFailed)"
  proof (cases "TrimSpace (hd (Split (TrimSpace text) (CHR 0x0A))) = []")
    case True
    then show ?thesis using assms by (simp add: parseProcessSection_def)
  next
    case False
    then obtain mode body where "process_body fl mode body (s\<lparr>raw_ProcessMode := mode\<rparr>) = (err, s')"
      using assms by (auto simp: parseProcessSection_def Let_def)
    then show ?thesis unfolding process_body_def by (auto split: sum.splits if_splits)
  qed
  then show "m \<noteq> ''processes'' \<Longrightarrow> metric_status m s' = metric_status m s" "reported m s' = reported m s"
    "raw_ProcessStatus s \<noteq> ProcessFailed \<Longrightarrow> raw_ProcessStatus s' \<noteq> ProcessFailed"
    by (simp_all add: metric_status_def available_def reported_def)
qed

lemma collect_processes_frame: "m \<noteq> ''processes'' \<Longrightarrow> metric_status m (collect_processes fl t s) = metric_status m s"
proof -
  assume m: "m \<noteq> ''processes''"
  obtain err s' where p: "parseProcessSection fl t s = (err, s')" by fastforce
  have "metric_status m (collect_processes fl t s) = metric_status m s'"
    using m by (simp add: collect_processes_def p metric_defs split: option.split)
  then show ?thesis using parseProcessSection_frame(1) [OF p m] by simp
qed

lemma collect_decides:
  "decides ''cpu'' (collect_cpu t)" "decides ''memory'' (collect_memory t)" "decides ''disk'' (collect_disk t)"
  "decides ''load'' (collect_load fl l u)" "decides ''uptime'' (collect_load fl l u)" "decides ''os'' (collect_os os n a)"
  by (auto simp: decides_def metric_defs collect_cpu_def collect_memory_def collect_disk_def collect_load_def collect_os_def Let_def
      split: sum.splits option.splits)

lemma collect_processes_decides: "decides ''processes'' (collect_processes fl t)"
  unfolding decides_def
proof (intro allI impI)
  fix s :: "'a RawSample"
  assume a: "metric_status ''processes'' s = (''processes'' = ''processes'', False)"
  obtain err s' where p: "parseProcessSection fl t s = (err, s')" by fastforce
  note f = parseProcessSection_frame(2,3) [OF p]
  show "available ''processes'' (collect_processes fl t s) = (\<not> reported ''processes'' (collect_processes fl t s))"
    using a f by (auto simp: collect_processes_def p metric_defs split: option.splits)
qed

lemma collect_network_reports: "available ''network'' (collect_network rx tx s) \<or> reported ''network'' (collect_network rx tx s)"
proof -
  have "raw_NetworkAvailable (network_counters rx tx s) \<or> reported ''network'' (network_counters rx tx s)"
    by (simp add: network_counters_def reported_def appendMetricError_def split: sum.split prod.split)
  then show ?thesis by (auto simp: collect_network_def Let_def available_def preference_network)
qed

lemma zero_status: "metric_status m zero_sample = (m = ''processes'', False)"
  by (auto simp: metric_defs zero_sample_def)

lemma decidesD: "decides m f \<Longrightarrow> metric_status m s = (m = ''processes'', False) \<Longrightarrow> available m (f s) = (\<not> reported m (f s))"
  by (simp add: decides_def)

lemma status_agrees: "metric_status m s = metric_status m t \<Longrightarrow> available m s = (\<not> reported m s) \<longleftrightarrow> available m t = (\<not> reported m t)"
  by (simp add: metric_status_def)

lemma metric_agrees:
  fixes fl :: "'a::linorder floats"
  assumes "m = ''cpu'' \<or> m = ''memory'' \<or> m = ''disk'' \<or> m = ''processes'' \<or> m = ''load'' \<or> m = ''uptime'' \<or> m = ''os''"
  shows "available m (ParseCollectionOutput fl input) = (\<not> reported m (ParseCollectionOutput fl input))"
proof -
  let ?sec = "get_section (splitSections input)"
  define s1 :: "'a RawSample" where "s1 = collect_cpu (?sec ''CPU'') zero_sample"
  define s2 where "s2 = collect_memory (?sec ''MEM'') s1"
  define s3 where "s3 = collect_network (?sec ''RX'') (?sec ''TX'') (collect_rows (?sec ''IFACE'') (?sec ''PROC_NET_DEV'') s2)"
  define s4 where "s4 = collect_disk (?sec ''DF'') s3"
  define s5 where "s5 = collect_processes fl (?sec ''PROCESSES'') s4"
  define s6 where "s6 = collect_load fl (?sec ''LOAD'') (?sec ''UPTIME'') s5"
  define s7 where "s7 = collect_os (?sec ''OS'') (?sec ''UNAME'') (?sec ''ARCH'') s6"
  have s7: "ParseCollectionOutput fl input = s7"
    by (simp add: ParseCollectionOutput_def Let_def s1_def s2_def s3_def s4_def s5_def s6_def s7_def)
  have st1: "m \<noteq> ''cpu'' \<Longrightarrow> metric_status m s1 = (m = ''processes'', False)"
    unfolding s1_def by (simp add: collect_frame(1) zero_status)
  have st2: "m \<noteq> ''memory'' \<Longrightarrow> metric_status m s2 = metric_status m s1"
    unfolding s2_def by (rule collect_frame(2))
  have st3: "m \<noteq> ''network'' \<Longrightarrow> metric_status m s3 = metric_status m s2"
    unfolding s3_def by (simp add: collect_frame(3) collect_network_frame)
  have st4: "m \<noteq> ''disk'' \<Longrightarrow> metric_status m s4 = metric_status m s3"
    unfolding s4_def by (rule collect_frame(4))
  have st5: "m \<noteq> ''processes'' \<Longrightarrow> metric_status m s5 = metric_status m s4"
    unfolding s5_def by (rule collect_processes_frame)
  have st6: "m \<noteq> ''load'' \<Longrightarrow> m \<noteq> ''uptime'' \<Longrightarrow> metric_status m s6 = metric_status m s5"
    unfolding s6_def by (rule collect_frame(5))
  note st = st1 st2 st3 st4 st5 st6
  have st7: "m \<noteq> ''os'' \<Longrightarrow> metric_status m s7 = metric_status m s6"
    unfolding s7_def by (rule collect_os_frame)
  from assms have "available m s7 = (\<not> reported m s7)"
  proof (elim disjE)
    assume m: "m = ''cpu''"
    then have "available m s1 = (\<not> reported m s1)"
      unfolding s1_def by (auto intro!: decidesD [OF collect_decides(1)] simp: zero_status)
    then show ?thesis using st st7 m by (simp add: metric_status_def)
  next
    assume m: "m = ''memory''"
    then have "available m s2 = (\<not> reported m s2)"
      using st(1) unfolding s2_def by (auto intro!: decidesD [OF collect_decides(2)])
    then show ?thesis using st st7 m by (simp add: metric_status_def)
  next
    assume m: "m = ''disk''"
    then have "available m s4 = (\<not> reported m s4)"
      using st(1-3) unfolding s4_def by (auto intro!: decidesD [OF collect_decides(3)])
    then show ?thesis using st st7 m by (simp add: metric_status_def)
  next
    assume m: "m = ''processes''"
    then have "available m s5 = (\<not> reported m s5)"
      using st(1-4) unfolding s5_def by (auto intro!: decidesD [OF collect_processes_decides])
    then show ?thesis using st st7 m by (simp add: metric_status_def)
  next
    assume m: "m = ''load''"
    then have "available m s6 = (\<not> reported m s6)"
      using st(1-5) unfolding s6_def by (auto intro!: decidesD [OF collect_decides(4)])
    then show ?thesis using st st7 m by (simp add: metric_status_def)
  next
    assume m: "m = ''uptime''"
    then have "available m s6 = (\<not> reported m s6)"
      using st(1-5) unfolding s6_def by (auto intro!: decidesD [OF collect_decides(5)])
    then show ?thesis using st st7 m by (simp add: metric_status_def)
  next
    assume m: "m = ''os''"
    then show ?thesis
      using st(1-6) unfolding s7_def by (auto intro!: decidesD [OF collect_decides(6)])
  qed
  then show ?thesis by (simp add: s7)
qed

text \<open>
  C28: A metric that a collection lacks is named in its errors, and one it has is not, whatever the
  server printed; only the network can have an error and numbers, as its numbers have two sources.
\<close>

theorem collection_reports_missing:
  "raw_CPUAvailable (ParseCollectionOutput fl input) = (\<not> reported ''cpu'' (ParseCollectionOutput fl input)) \<and>
   raw_MemoryAvailable (ParseCollectionOutput fl input) = (\<not> reported ''memory'' (ParseCollectionOutput fl input)) \<and>
   (raw_NetworkAvailable (ParseCollectionOutput fl input) \<or> reported ''network'' (ParseCollectionOutput fl input)) \<and>
   raw_DiskAvailable (ParseCollectionOutput fl input) = (\<not> reported ''disk'' (ParseCollectionOutput fl input)) \<and>
   (raw_ProcessStatus (ParseCollectionOutput fl input) = ProcessFailed) =
     reported ''processes'' (ParseCollectionOutput fl input) \<and>
   (raw_Load (ParseCollectionOutput fl input) = None) = reported ''load'' (ParseCollectionOutput fl input) \<and>
   (raw_Uptime (ParseCollectionOutput fl input) = None) = reported ''uptime'' (ParseCollectionOutput fl input) \<and>
   (raw_OSName (ParseCollectionOutput fl input) = []) = reported ''os'' (ParseCollectionOutput fl input)"
proof -
  have "available ''network'' (ParseCollectionOutput fl input) \<or> reported ''network'' (ParseCollectionOutput fl input)"
  proof -
    have "metric_status ''network'' (collect_os a b c (collect_load fl d e (collect_processes fl f (collect_disk g s)))) =
        metric_status ''network'' s" for a b c d e f g and s :: "'a RawSample"
      by (simp add: collect_frame collect_os_frame collect_processes_frame)
    then show ?thesis
      using collect_network_reports unfolding ParseCollectionOutput_def Let_def metric_status_def by blast
  qed
  then show ?thesis
    using metric_agrees [of "''cpu''" fl input] metric_agrees [of "''memory''" fl input] metric_agrees [of "''disk''" fl input]
      metric_agrees [of "''processes''" fl input] metric_agrees [of "''load''" fl input] metric_agrees [of "''uptime''" fl input]
      metric_agrees [of "''os''" fl input]
    by (simp add: available_def del: not_None_eq)
qed

section \<open>Rates and usages of a series of collections\<close>

text \<open>The snapshots of one connection: each sample with its time and its latency.\<close>

fun snapshots :: "'f::linorder floats \<Rightarrow> Calculator \<Rightarrow> ('f RawSample \<times> int \<times> int) list \<Rightarrow> 'f Metrics list" where
  "snapshots fl c [] = []"
| "snapshots fl c ((raw, at, latency) # rest) =
     (case Snapshot fl raw at latency c of (m, c) \<Rightarrow> m # snapshots fl c rest)"

lemma length_snapshots [simp]: "length (snapshots fl c xs) = length xs"
  by (induction fl c xs rule: snapshots.induct) (auto split: prod.splits)

text \<open>What the calculator remembers is the last sample.\<close>

definition remembers :: "'f RawSample \<Rightarrow> int \<Rightarrow> Calculator \<Rightarrow> bool" where
  "remembers raw at c \<longleftrightarrow>
     cal_hasCPU c = raw_CPUAvailable raw \<and> (raw_CPUAvailable raw \<longrightarrow> cal_cpu c = raw_CPU raw) \<and>
     calc_baseline (cal_network c) = raw_NetworkAvailable raw \<and>
     (raw_NetworkAvailable raw \<longrightarrow>
        calc_iface (cal_network c) = raw_Interface raw \<and> calc_rx (cal_network c) = raw_RX raw \<and>
        calc_tx (cal_network c) = raw_TX raw \<and> calc_at (cal_network c) = at)"

lemma procProcesses_keeps:
  "procProcesses fl raw c = (r, c') \<Longrightarrow>
   cal_hasCPU c' = cal_hasCPU c \<and> cal_cpu c' = cal_cpu c \<and> cal_network c' = cal_network c"
  by (auto simp: procProcesses_def Let_def split: if_splits)

lemma calc_Sample_remembers:
  "calc_Sample i rx tx at c = (c', r) \<Longrightarrow>
   calc_baseline c' \<and> calc_iface c' = i \<and> calc_rx c' = rx \<and> calc_tx c' = tx \<and> calc_at c' = at"
  by (auto simp: calc_Sample_def split: if_splits)

lemma Snapshot_remembers: "Snapshot fl raw at l c = (m, c') \<Longrightarrow> remembers raw at c'"
proof -
  assume s: "Snapshot fl raw at l c = (m, c')"
  let ?c1 = "if raw_CPUAvailable raw then c\<lparr>cal_cpu := raw_CPU raw, cal_hasCPU := True\<rparr> else c\<lparr>cal_hasCPU := False\<rparr>"
  obtain r c2 where p: "(if raw_ProcessMode raw = ''procfs'' then procProcesses fl raw ?c1
      else ((raw_Processes raw, raw_ProcessStatus raw, raw_ProcessMessage raw),
            ?c1\<lparr>cal_hasProcesses := False, cal_processTicks := (\<lambda>_. None)\<rparr>)) = (r, c2)"
    by fastforce
  then have c2: "cal_hasCPU c2 = raw_CPUAvailable raw" "raw_CPUAvailable raw \<longrightarrow> cal_cpu c2 = raw_CPU raw"
    by (auto dest!: procProcesses_keeps split: if_splits)
  obtain n q where n: "(if raw_NetworkAvailable raw then calc_Sample (raw_Interface raw) (raw_RX raw) (raw_TX raw) at (cal_network c2)
      else (calc_Reset (cal_network c2), None)) = (n, q)"
    by fastforce
  have "c' = c2\<lparr>cal_network := n\<rparr>"
    using s unfolding Snapshot_def Let_def p snd_conv fst_conv n by simp
  then show ?thesis
    using c2 n by (auto simp: remembers_def calc_Reset_def dest: calc_Sample_remembers split: if_splits)
qed

text \<open>What a snapshot may say of two samples in a row.\<close>

definition rates_exact :: "'f RawSample \<Rightarrow> int \<Rightarrow> 'f RawSample \<Rightarrow> int \<Rightarrow> NetworkRates \<Rightarrow> bool" where
  "rates_exact old t0 new t1 r \<longleftrightarrow>
     raw_NetworkAvailable old \<and> raw_NetworkAvailable new \<and> raw_Interface old = raw_Interface new \<and> raw_Interface new \<noteq> [] \<and>
     rate_elapsed r = t1 - t0 \<and> 0 < rate_elapsed r \<and>
     unat (raw_RX old) + unat (rate_download r) = unat (raw_RX new) \<and>
     unat (raw_TX old) + unat (rate_upload r) = unat (raw_TX new)"

lemma unat_add_minus: "(b :: u64) \<le> a \<Longrightarrow> unat b + unat (a - b) = unat a"
  by (simp add: unat_sub word_le_nat_alt)

lemma Snapshot_rates:
  assumes "Snapshot fl raw at l c = (m, c')" "met_Rates m = Some r"
  shows "raw_NetworkAvailable raw"
    "calc_Sample (raw_Interface raw) (raw_RX raw) (raw_TX raw) at (cal_network c) = (cal_network c', Some r)"
proof -
  let ?c1 = "if raw_CPUAvailable raw then c\<lparr>cal_cpu := raw_CPU raw, cal_hasCPU := True\<rparr> else c\<lparr>cal_hasCPU := False\<rparr>"
  obtain q c2 where p: "(if raw_ProcessMode raw = ''procfs'' then procProcesses fl raw ?c1
      else ((raw_Processes raw, raw_ProcessStatus raw, raw_ProcessMessage raw),
            ?c1\<lparr>cal_hasProcesses := False, cal_processTicks := (\<lambda>_. None)\<rparr>)) = (q, c2)"
    by fastforce
  then have c2: "cal_network c2 = cal_network c" by (auto dest!: procProcesses_keeps split: if_splits)
  have "met_Rates m = snd (if raw_NetworkAvailable raw
      then calc_Sample (raw_Interface raw) (raw_RX raw) (raw_TX raw) at (cal_network c2) else (calc_Reset (cal_network c2), None))"
    "cal_network c' = fst (if raw_NetworkAvailable raw
      then calc_Sample (raw_Interface raw) (raw_RX raw) (raw_TX raw) at (cal_network c2) else (calc_Reset (cal_network c2), None))"
    using assms(1) unfolding Snapshot_def Let_def p snd_conv fst_conv by auto
  then show "raw_NetworkAvailable raw"
    "calc_Sample (raw_Interface raw) (raw_RX raw) (raw_TX raw) at (cal_network c) = (cal_network c', Some r)"
    using assms(2) c2 by (auto split: if_splits simp: prod_eq_iff)
qed

lemma Snapshot_after:
  assumes "remembers old t0 c" "Snapshot fl new t1 l c = (m, c')"
  shows "met_Rates m = Some r \<Longrightarrow> rates_exact old t0 new t1 r"
    and "met_CPUPercent m = Some (busy, whole) \<Longrightarrow>
       raw_CPUAvailable old \<and> raw_CPUAvailable new \<and> CPUUsage (raw_CPU old) (raw_CPU new) = Some (busy, whole)"
proof -
  show "rates_exact old t0 new t1 r" if r: "met_Rates m = Some r"
    using Snapshot_rates [OF assms(2) r] assms(1)
    by (auto simp: rates_exact_def remembers_def calc_Sample_def not_less unat_add_minus split: if_splits)
  have "met_CPUPercent m = (if raw_CPUAvailable new \<and> cal_hasCPU c then CPUUsage (cal_cpu c) (raw_CPU new) else None)"
    using assms(2) unfolding Snapshot_def Let_def by auto
  then show "raw_CPUAvailable old \<and> raw_CPUAvailable new \<and> CPUUsage (raw_CPU old) (raw_CPU new) = Some (busy, whole)"
    if "met_CPUPercent m = Some (busy, whole)"
    using that assms(1) by (auto simp: remembers_def split: if_splits)
qed

lemma snapshots_pairs:
  "remembers old t0 c \<Longrightarrow> k < length xs \<Longrightarrow>
   met_Rates (snapshots fl c xs ! k) = Some r \<Longrightarrow>
   (case ((old, t0, lat) # xs) ! k of (old, t0, _) \<Rightarrow> case xs ! k of (new, t1, _) \<Rightarrow> rates_exact old t0 new t1 r)"
  "remembers old t0 c \<Longrightarrow> k < length xs \<Longrightarrow>
   met_CPUPercent (snapshots fl c xs ! k) = Some (busy, whole) \<Longrightarrow>
   (case ((old, t0, lat) # xs) ! k of (old, t0, _) \<Rightarrow> case xs ! k of (new, t1, _) \<Rightarrow>
      raw_CPUAvailable old \<and> raw_CPUAvailable new \<and> CPUUsage (raw_CPU old) (raw_CPU new) = Some (busy, whole))"
proof (induction xs arbitrary: old t0 lat c k)
  case (Cons x xs)
  obtain raw at l where x: "x = (raw, at, l)" by (cases x)
  {
    case 1
    obtain m c' where s: "Snapshot fl raw at l c = (m, c')" by fastforce
    show ?case
    proof (cases k)
      case 0
      then show ?thesis using 1 Snapshot_after(1) [OF 1(1) s] by (auto simp: x s)
    next
      case (Suc j)
      then show ?thesis
        using 1 Cons(1) [OF Snapshot_remembers [OF s], where k = j and lat = l] by (auto simp: x s)
    qed
  next
    case 2
    obtain m c' where s: "Snapshot fl raw at l c = (m, c')" by fastforce
    show ?case
    proof (cases k)
      case 0
      then show ?thesis using 2 Snapshot_after(2) [OF 2(1) s] by (auto simp: x s)
    next
      case (Suc j)
      then show ?thesis
        using 2 Cons(2) [OF Snapshot_remembers [OF s], where k = j and lat = l] by (auto simp: x s)
    qed
  }
qed auto

lemma CPUUsage_part: "CPUUsage a b = Some (busy, whole) \<Longrightarrow> busy \<le> whole \<and> 0 < whole"
  by (auto simp: CPUUsage_def Let_def not_le not_less word_sub_le word_neq_0_conv [symmetric] split: if_splits)

text \<open>
  C27: The rates of a snapshot are the exact growth of the counters since the sample before, over the
  time between them, and are shown only if both samples read the same interface; a usage is a part
  of a positive whole. The first snapshot of a connection has neither.
\<close>

theorem snapshot_rates_exact:
  assumes k: "k < length xs" and ms_def: "ms = snapshots fl new_calculator xs"
  shows "(met_Rates (ms ! k) = Some r \<longrightarrow>
            0 < k \<and> rates_exact (fst (xs ! (k - 1))) (fst (snd (xs ! (k - 1)))) (fst (xs ! k)) (fst (snd (xs ! k))) r) \<and>
         (met_CPUPercent (ms ! k) = Some (busy, whole) \<longrightarrow> 0 < k \<and> busy \<le> whole \<and> 0 < whole)"
proof -
  obtain raw at l rest where xs: "xs = (raw, at, l) # rest" using k by (cases xs) auto
  obtain m c' where s: "Snapshot fl raw at l new_calculator = (m, c')" by fastforce
  have ms: "ms = m # snapshots fl c' rest" by (simp add: ms_def xs s)
  have first: "met_Rates m = None" "met_CPUPercent m = None"
    using s Snapshot_rates [OF s] unfolding Snapshot_def Let_def
    by (auto simp: new_calculator_def calc_Sample_def split: option.splits)
  show ?thesis
  proof (cases k)
    case 0
    then show ?thesis by (simp add: ms first)
  next
    case (Suc j)
    then have j: "j < length rest" using k by (simp add: xs)
    note p = snapshots_pairs [OF Snapshot_remembers [OF s] j]
    show ?thesis
      using p(1) [of fl r] p(2) [of fl busy whole] CPUUsage_part
      by (auto simp: ms Suc xs nth_Cons split: nat.splits prod.splits)
  qed
qed

section \<open>The choice of the user\<close>

lemma aggregate_all: "rows \<noteq> [] \<Longrightarrow> 0 < snd (snd (aggregateNetworkInterfaces rows MonitorNetworkInterfaceAll))"
  by (auto simp: aggregateNetworkInterfaces_def counter_sum_def Let_def)

lemma aggregate_specific:
  "list_ex (\<lambda>item. \<not> isLoopbackName (nic_Name item)) rows \<Longrightarrow>
   0 < snd (snd (aggregateNetworkInterfaces rows MonitorNetworkInterfaceSpecific))"
  by (auto simp: aggregateNetworkInterfaces_def counter_sum_def Let_def includeNetworkInterface_def list_ex_iff
      filter_empty_conv intro!: Nat.gr0I)

definition show_numbers :: "string \<Rightarrow> u64 \<Rightarrow> u64 \<Rightarrow> 'f RawSample \<Rightarrow> 'f RawSample" where
  "show_numbers iface rx tx s =
     s\<lparr>raw_Interface := iface, raw_RX := rx, raw_TX := tx, raw_NetworkAvailable := True,
       raw_EffectiveNetworkInterface := iface\<rparr>"

lemma show_total_numbers:
  "0 < snd (snd c) \<Longrightarrow> show_total c s = show_numbers (mode_text (raw_NetworkInterfaceMode s)) (fst c) (fst (snd c)) s"
  by (auto simp: show_total_def show_numbers_def split: prod.splits)

lemma show_numbers_twice [simp]: "show_numbers i rx tx (show_numbers j r t s) = show_numbers i rx tx s"
  by (simp add: show_numbers_def)

lemma show_numbers_fields [simp]:
  "raw_NetworkInterfaces (show_numbers i rx tx s) = raw_NetworkInterfaces s"
  "raw_DefaultInterface (show_numbers i rx tx s) = raw_DefaultInterface s"
  "raw_NetworkInterfaceMode (show_numbers i rx tx s) = raw_NetworkInterfaceMode s"
  "fall_back msg (show_numbers i rx tx s) = show_numbers i rx tx (fall_back msg s)"
  "raw_DefaultInterface s \<noteq> [] \<Longrightarrow> begin_preference mode sel (show_numbers i rx tx s) = show_numbers i rx tx (begin_preference mode sel s)"
  by (simp_all add: show_numbers_def fall_back_def begin_preference_def)

lemma choose_ignores_numbers:
  assumes "list_ex (\<lambda>item. \<not> isLoopbackName (nic_Name item)) (raw_NetworkInterfaces s)" "validNetworkInterfaceMode mode"
  shows "choose_interface mode sel (show_numbers i rx tx s) = choose_interface mode sel s"
proof -
  have rows: "raw_NetworkInterfaces s \<noteq> []" using assms(1) by auto
  note all = aggregate_all [OF rows] and specific = aggregate_specific [OF assms(1)]
  show ?thesis
  proof (cases "if mode = MonitorNetworkInterfaceSpecific \<and> sel \<noteq> []
      then find (\<lambda>item. nic_Name item = sel) (raw_NetworkInterfaces s) else None")
    case (Some item)
    show ?thesis unfolding choose_interface_def Let_def show_numbers_fields Some using rows by (simp add: show_numbers_def)
  next
    case None
    have numbers: "show_total c (show_numbers i rx tx t) = show_total c t" if "0 < snd (snd c)" for c and t :: "'a RawSample"
      using that by (simp add: show_total_numbers)
    let ?c = "aggregateNetworkInterfaces (raw_NetworkInterfaces s) mode"
    have "0 < snd (snd ?c)" if "mode \<noteq> MonitorNetworkInterfaceDocker \<or> 0 < snd (snd ?c)" "mode \<noteq> MonitorNetworkInterfacePhysical \<or> 0 < snd (snd ?c)"
      using that all specific assms(2) by (cases mode) (auto simp: validNetworkInterfaceMode_def)
    then show ?thesis
      unfolding choose_interface_def Let_def show_numbers_fields None
      using rows all by (auto simp: numbers)
  qed
qed

text \<open>
  C29: A collection first adds up all interfaces and the loop then applies the choice of the user: the
  result is that of the choice alone, whatever was added up before, if the server has a default
  interface and one that is not a loopback.
\<close>

theorem preference_replaces_default:
  assumes "raw_DefaultInterface s \<noteq> []"
    "list_ex (\<lambda>item. \<not> isLoopbackName (nic_Name item)) (raw_NetworkInterfaces s)"
  shows "ApplyNetworkPreference mode sel (ApplyNetworkPreference MonitorNetworkInterfaceAll [] s) =
     ApplyNetworkPreference mode sel s"
proof -
  let ?all = MonitorNetworkInterfaceAll
  let ?b = "begin_preference ?all [] s"
  have rows: "raw_NetworkInterfaces ?b = raw_NetworkInterfaces s" "raw_NetworkInterfaces s \<noteq> []"
    using assms(2) by (auto simp: begin_preference_def)
  have "ApplyNetworkPreference ?all [] s = show_total (aggregateNetworkInterfaces (raw_NetworkInterfaces s) ?all) ?b"
    unfolding ApplyNetworkPreference_def choose_interface_def Let_def
    using rows by (simp add: validNetworkInterfaceMode_def)
  then obtain i rx tx where all: "ApplyNetworkPreference ?all [] s = show_numbers i rx tx ?b"
    using aggregate_all [OF rows(2)] by (auto simp: show_total_numbers)
  have d: "raw_DefaultInterface ?b \<noteq> []" using assms(1) by (simp add: begin_preference_def)
  have twice: "begin_preference m t ?b = begin_preference m t s" for m t
    using assms(1) by (simp add: begin_preference_def)
  have b: "raw_NetworkInterfaces (begin_preference m t s) = raw_NetworkInterfaces s" for m t
    by (simp add: begin_preference_def)
  let ?m = "if validNetworkInterfaceMode mode then mode else ?all"
  have valid: "validNetworkInterfaceMode ?m" by (simp add: validNetworkInterfaceMode_def)
  have "choose_interface ?m (TrimSpace sel) (show_numbers i rx tx (begin_preference ?m (TrimSpace sel) s)) =
      choose_interface ?m (TrimSpace sel) (begin_preference ?m (TrimSpace sel) s)"
    using assms(2) by (intro choose_ignores_numbers valid) (simp add: b)
  moreover have a: "ApplyNetworkPreference mode sel u = choose_interface ?m (TrimSpace sel) (begin_preference ?m (TrimSpace sel) u)"
    for u :: "'a RawSample"
    unfolding ApplyNetworkPreference_def Let_def by (rule refl)
  ultimately show ?thesis
    unfolding a all show_numbers_fields(5) [OF d] twice by simp
qed

section \<open>The processes that are kept\<close>

lemma first_sixteen_facts:
  "set (map snd (first_sixteen ps m)) \<subseteq> set ps \<union> set (map snd m)"
  "length (first_sixteen ps m) \<le> length m + 16"
proof -
  have a: "set (map snd (fold (\<lambda>p m. AList.update (pi_PID p) p m) qs m)) \<subseteq> set qs \<union> set (map snd m)" for qs :: "'a ProcessInfo list" and m
  proof (induction qs arbitrary: m)
    case (Cons q qs)
    have "set (map snd (AList.update (pi_PID q) q m)) \<subseteq> insert q (set (map snd m))"
      using set_gomap_update_subset [of "pi_PID q" q m] by force
    moreover have "set (map snd (fold (\<lambda>p m. AList.update (pi_PID p) p m) (q # qs) m))
        \<subseteq> set qs \<union> set (map snd (AList.update (pi_PID q) q m))"
      unfolding fold_simps comp_def by (rule Cons)
    ultimately show ?case by (simp only: list.set(2)) blast
  qed simp
  have d: "length (fold (\<lambda>p m. AList.update (pi_PID p) p m) qs m) \<le> length m + length qs" for qs :: "'a ProcessInfo list" and m
  proof (induction qs arbitrary: m)
    case (Cons q qs)
    have "length (AList.update k v m) \<le> length m + 1" for k and v :: "'a ProcessInfo"
      by (induction m) auto
    then show ?case using Cons [of "AList.update (pi_PID q) q m"] by (simp add: le_trans)
  qed simp
  show "set (map snd (first_sixteen ps m)) \<subseteq> set ps \<union> set (map snd m)"
    using a [of "take 16 ps" m] set_take_subset [of 16 ps] unfolding first_sixteen_def by blast
  show "length (first_sixteen ps m) \<le> length m + 16"
    using d [of "take 16 ps" m] unfolding first_sixteen_def by simp
qed

text \<open>At most 32 of the processes are kept.\<close>

lemma limitProcesses_kept: "length (limitProcesses ps) \<le> 32" "set (limitProcesses ps) \<subseteq> set ps"
proof -
  let ?a = "rev (sort_key pi_CPUPercent (rev (sort_key pi_PID ps)))"
    and ?b = "rev (sort_key pi_MemoryPercent (rev (sort_key pi_PID ps)))"
  show "length (limitProcesses ps) \<le> 32"
    using first_sixteen_facts(2) [of ?b "first_sixteen ?a []"] first_sixteen_facts(2) [of ?a "[]"]
    by (simp add: limitProcesses_def Let_def)
  show "set (limitProcesses ps) \<subseteq> set ps"
    using first_sixteen_facts(1) [of ?b "first_sixteen ?a []"] first_sixteen_facts(1) [of ?a "[]"]
    by (auto simp: limitProcesses_def Let_def)
qed

section \<open>Examples\<close>

definition int_floats :: "int floats" where
  "int_floats =
     \<lparr>fl_Parse = (\<lambda>s. case ParseInt s 10 of Inr i \<Rightarrow> Some i | Inl _ \<Rightarrow> None), fl_finite = (\<lambda>_. True), fl_zero = 0,
      fl_nanos = (\<lambda>x. x * nanos_per_second), fl_percent = (\<lambda>a b. uint a * 100 div uint b),
      fl_cores_percent = (\<lambda>a b c. uint a * uint c * 100 div uint b)\<rparr>"

definition counters :: "string \<Rightarrow> u64 \<Rightarrow> NetworkInterfaceCounters" where
  "counters name rx = \<lparr>nic_Name = name, nic_RXBytes = rx, nic_TXBytes = 0, nic_RXPackets = 0, nic_TXPackets = 0\<rparr>"

definition sample_with :: "string \<Rightarrow> NetworkInterfaceCounters list \<Rightarrow> int RawSample" where
  "sample_with iface rows =
     ApplyNetworkPreference MonitorNetworkInterfaceAll []
       (zero_sample\<lparr>raw_DefaultInterface := iface, raw_Interface := iface, raw_NetworkInterfaces := rows\<rparr>)"

lemmas sample_with_defs =
  sample_with_def ApplyNetworkPreference_def choose_interface_def begin_preference_def show_total_def
  aggregateNetworkInterfaces_def counter_sum_def includeNetworkInterface_def isLoopbackName_def counters_def zero_sample_def
  validNetworkInterfaceMode_def HasPrefix_def

text \<open>
  An interface that appears between two samples is counted with all it ever received: the rate of
  all interfaces then shows a billion bytes nobody received in that second.
\<close>

lemma new_interface_as_traffic:
  "map_option rate_download (met_Rates (snapshots int_floats new_calculator
     [(sample_with ''eth0'' [counters ''eth0'' 100], 0, 0),
      (sample_with ''eth0'' [counters ''eth0'' 100, counters ''veth1'' 1000000000], 1000000000, 0)] ! 1)) =
   Some 1000000000"
  by (simp add: sample_with_defs Snapshot_def Let_def calc_Sample_def new_calculator_def word_less_nat_alt)

text \<open>Without a default route the label of the total becomes the default interface.\<close>

lemma total_as_default_interface:
  "raw_DefaultInterface (ApplyNetworkPreference MonitorNetworkInterfaceAll [] (sample_with [] [counters ''eth0'' 100])) = ''all''"
  by (simp add: sample_with_defs)

lemma preference_replaces_default_witness:
  "ApplyNetworkPreference MonitorNetworkInterfaceSpecific ''eth1''
     (ApplyNetworkPreference MonitorNetworkInterfaceAll []
       (zero_sample\<lparr>raw_DefaultInterface := ''eth0'', raw_NetworkInterfaces := [counters ''eth1'' 7]\<rparr>)) =
   ApplyNetworkPreference MonitorNetworkInterfaceSpecific ''eth1''
     (zero_sample\<lparr>raw_DefaultInterface := ''eth0'', raw_NetworkInterfaces := [counters ''eth1'' 7]\<rparr>)"
  by (rule preference_replaces_default) (simp_all add: isLoopbackName_def counters_def HasPrefix_def)

lemma snapshot_rates_exact_witness:
  "case met_Rates (snapshots int_floats new_calculator
      [(sample_with ''eth0'' [counters ''eth0'' 100], 0, 0), (sample_with ''eth0'' [counters ''eth0'' 350], 1000000000, 0)] ! 1)
   of None \<Rightarrow> False | Some r \<Rightarrow> unat (rate_download r) = 250"
proof -
  let ?xs = "[(sample_with ''eth0'' [counters ''eth0'' 100], 0 :: int, 0 :: int), (sample_with ''eth0'' [counters ''eth0'' 350], 1000000000, 0)]"
  obtain r where r: "met_Rates (snapshots int_floats new_calculator ?xs ! 1) = Some r"
    by (simp add: sample_with_defs Snapshot_def Let_def calc_Sample_def new_calculator_def word_less_nat_alt)
  then have "rates_exact (sample_with ''eth0'' [counters ''eth0'' 100]) 0 (sample_with ''eth0'' [counters ''eth0'' 350]) 1000000000 r"
    using snapshot_rates_exact [of 1 ?xs _ int_floats r] by simp
  moreover have "unat (raw_RX (sample_with ''eth0'' [counters ''eth0'' n])) = unat n" for n
    by (simp add: sample_with_defs)
  ultimately show ?thesis using r by (simp add: rates_exact_def)
qed
end
