(* ===== verification/Spec2Isabelle.thy ===== *)
theory Spec2Isabelle
  imports BatchProps ConnState LinuxInterfaces SftpDelete Lifecycle SftpMode ScpShell SftpSession
    SftpCopy TunnelWorker KeyVault ConnectionConfig DiagnosticTask Collector
begin

text \<open>
  Verification of HostDeck, a desktop program in Go that manages servers over SSH.

  The program. \<open>app.go\<close> binds a window to managers under \<open>src/internal\<close>, one for each kind of work
  on a server: a connection state tracker (\<open>connectionstate\<close>) that merges what monitors,
  terminals and file browsers report into one status per server, a classifier of connection
  errors (\<open>connectionerror\<close>), batch commands over many servers (\<open>batchcommand\<close>), a file browser
  over SFTP or, where a server has none, over shell scripts (\<open>sftpmanager\<close>), a monitor that
  parses the files of \<open>/proc\<close> and the output of tools (\<open>linuxmonitor\<close>), port forwarding
  (\<open>tunnelmanager\<close>), and the coordinator of an explicit disconnect (\<open>serverlifecycle\<close>). The managers meet in the tracker: every one
  reports to it, and a disconnect stops them one after another.

  What the theories model.

  \<^item> \<open>Prelude\<close>: result and map lemmas, the lemma collections, and two locales: \<open>invariant_component\<close>
    (steps that keep an invariant) and \<open>monotone_component\<close> (steps that only add). Each component
    with a state interprets one of them on its own steps.
  \<^item> \<open>GoStrings\<close>, \<open>GoText\<close>, \<open>GoPath\<close>, \<open>GoTime\<close>, \<open>GoRegexp\<close>, \<open>GoNet\<close>, \<open>GoIO\<close>: what the program uses of the Go standard
    library: \<open>strings\<close>, \<open>strconv\<close>, \<open>path\<close>, texts of times, a matcher for the patterns of the
    program, internet addresses, and calls of a server as functions of an unknown server state. Strings are lists of
    bytes in UTF-8; the Chinese messages are their code points, encoded by \<open>zh\<close>.
  \<^item> \<open>DomainTypes\<close>: the enumerations and records of \<open>domain/models.go\<close> that several parts use.
  \<^item> \<open>ConnError\<close>: \<open>connectionerror/errors.go\<close>. Errors are trees of wrapped errors with a text; the
    lemmas show which code wins, and that the retry flag agrees with the status.
  \<^item> \<open>ConnState\<close>: \<open>connectionstate/tracker.go\<close>. The tracker is a map from servers to records;
    the lemmas are an invariant of all operations, isolation of the servers, and that a completed
    disconnect is final against late reports.
  \<^item> \<open>BatchCommand\<close>, \<open>BatchRun\<close>, \<open>BatchProps\<close>: \<open>batchcommand/manager.go\<close>. The goroutines of a task
    and the calls of the window are steps on a world of tasks; a run is a list of steps in any
    order. The lemmas bound the concurrency and the kept output, and show that ended results and
    tasks stay as they are. \<open>BatchProps\<close> holds witnesses and the normalisation of requests.
  \<^item> \<open>LinuxParsers\<close>, \<open>LinuxInterfaces\<close>: the parsers and rate calculation of \<open>linuxmonitor\<close>, on
    64 bit words; the lemmas compare with exact arithmetic and name the inputs that wrap.
  \<^item> \<open>Collector\<close>: \<open>linuxmonitor/collector.go\<close>: what becomes of the output of one collection, the
    interfaces the user chose, and the calculator that compares two collections. Floating point
    numbers are a record of the operations the code uses. The lemmas show that what a collection
    lacks is reported, and that rates and usages are exact differences of two samples.
  \<^item> \<open>SftpPaths\<close>, \<open>SftpErrors\<close>, \<open>SftpDelete\<close>, \<open>SftpMode\<close>, \<open>SftpTransfer\<close>, \<open>SftpSession\<close>, \<open>ScpShell\<close>: the file
    browser: remote paths (\<open>path.go\<close>), error codes (\<open>manager_errors.go\<close>), recursive delete
    (\<open>recursive_delete.go\<close>), permissions (\<open>manager_properties.go\<close>), the control of transfers
    (\<open>manager_transfer.go\<close>), the sessions and their generations (\<open>manager_session.go\<close>), with
    dialing and listing as steps that others interleave with, and the shell mode (\<open>scp_shell_compat.go\<close>). The server is a
    parameter: every call may answer anything and change its state in any way. The lemmas confine
    what a delete touches, show that a paused transfer can always be resumed, that a stopped
    server stays without a session, and that a path never becomes a command.
  \<^item> \<open>SftpPlan\<close>, \<open>SftpCopy\<close>: recursive transfers and the copying of files (\<open>recursive.go\<close>,
    \<open>recursive_transfer.go\<close>, \<open>manager_conflict.go\<close>, \<open>manager_transfer.go\<close>). A plan is made by walking a
    remote or local tree; the files of a plan are copied one by one, with conflicts, symbolic links,
    pauses and failures handled as the code does. The lemmas confine a download to one new directory
    whatever the server lists, relate a plan to the tree it comes from, and show that a transfer
    copies the file through any pauses and failures, in every world that keeps the promises of the
    locale \<open>file_world\<close>, that the two copy loops of the code agree, and that every file of a plan is counted.
  \<^item> \<open>Credential\<close>, \<open>KeyVault\<close>, \<open>ConnectionConfig\<close>: passwords and keys: the resolver
    (\<open>credential/resolver.go\<close>), the encryption and check of private keys (\<open>keyvault\<close>,
    \<open>app_keyvault.go\<close>), and the settings of a server with its credential (\<open>app_connections.go\<close>). The
    database and the secret store are calls that may fail; the locale \<open>credential_store\<close> holds what
    they promise, \<open>protector_store\<close> and \<open>connection_store\<close> extend it. The lemmas show that servers do
    not touch each other's secrets, that what is saved is what the next login finds, that what is
    cleared is gone, and that a protected key comes back.
  \<^item> \<open>TunnelListen\<close>, \<open>TunnelWorker\<close>: \<open>tunnelmanager\<close>. The validation of a request and its question
    about public addresses, the listening ports read from the output of \<open>ss\<close>, the SOCKS5
    handshake, and the life of a tunnel: every operation is a list of atomic actions, concurrency
    is their interleaving. The lemmas show that a closed tunnel lets go of everything in every
    interleaving, and name two races in which the map of the manager is wrong.
  \<^item> \<open>NetworkDiag\<close>, \<open>DiagnosticTask\<close>: pings, route traces, name lookups and port tests on a server
    (\<open>networkdiag/commands.go\<close>, the diagnoses of \<open>monitor/manager.go\<close>). A task is a goroutine that
    takes the lines of two streams, the end of the command, deadlines and cancellations in any order;
    a run is a list of such steps over all tasks. The lemmas show that a target never becomes a command
    or an option, what output a diagnosis shows and when it counts as completed, that it ends once and
    leaves no session, and what pruning drops.
  \<^item> \<open>Lifecycle\<close>: \<open>serverlifecycle/coordinator.go\<close> and its wiring in \<open>app.go\<close>, composed with the
    tracker and the batch manager, interleaved with the reports of the other goroutines.

  Bounds and fuel. The copy loops take fuel, as a reader may deliver bytes forever: fuel above the
  length of the source suffices (\<open>transfer_copies\<close>); so do the walks of \<open>SftpPlan\<close>, where the depth of
  the tree suffices (\<open>PlanRecursiveDownload_tree\<close>). The recursive delete takes fuel, as the server decides how deep it goes:
  \<open>Delete_returns\<close> shows that fuel above any rank of the listed directories suffices, and
  \<open>Delete_may_not_return\<close> a directory on which none does. Every other loop is structural or has a
  termination proof. The generations of \<open>SftpSession\<close> are 64 bit numbers: its theorems are about
  runs of less than 2^61 steps, as every step raises a generation by at most two. Numbers have the width of the code where it can matter (sizes, modes and
  counters are words), and are integers elsewhere.

  Not modelled: the desktop window and its events, log lines, floating point numbers that only the
  display reads, the SQL of the store, the calls of the keyring, SSH itself, docker, services, processes and the
  terminals. Code that only calls the operating system or a library has no logic of its
  own to verify; the others are listed with their reasons in the manifest.
\<close>

end
